(* ===== verification/Fwk_Prelude.thy ===== *)
theory Fwk_Prelude
  imports Main "HOL-Library.Word" "HOL-Library.Monad_Syntax"
begin

text \<open>
  Shared vocabulary of the development: the build configuration, the status codes of
  \<^verbatim>\<open>framework/include/fwk_status.h\<close>, the assertion macros of
  \<^verbatim>\<open>framework/include/fwk_assert.h\<close>, unsigned arithmetic of \<^verbatim>\<open>size_t\<close>, and the generic
  lemmas on options and lists that the component theories use.

  Partiality. A C function that can fail an assertion, trap, follow a null pointer or
  call a null function pointer returns an \<open>option\<close>; \<open>None\<close> stands for all of these. A
  status code is an \<open>int\<close>. A pointer argument that the code only asserts to be non-null
  has the type of the object's address, so the assertion holds by typing; a pointer the
  code tests at run time is an \<open>option\<close>.
\<close>

named_theorems fwk_status_defs \<open>status codes as integers\<close>
named_theorems fwk_checks \<open>definitions of the assertion macros\<close>

section \<open>Build configuration\<close>

text \<open>
  The preprocessor switches the framework's code depends on. \<open>strict_checks\<close> is the build
  with neither NDEBUG nor BUILD_TESTS, in which \<^verbatim>\<open>fwk_unexpected\<close>, \<^verbatim>\<open>fwk_check\<close> and
  \<^verbatim>\<open>fwk_expect\<close> assert; \<open>mode_debug\<close> is BUILD_MODE_DEBUG; \<open>marked_list\<close> is
  FWK_MARKED_LIST_ENABLE; \<open>has_notification\<close> is BUILD_HAS_NOTIFICATION.
\<close>

record build =
  strict_checks :: bool
  mode_debug :: bool
  marked_list :: bool
  has_notification :: bool

section \<open>Status codes\<close>

definition FWK_PENDING :: int where [fwk_status_defs]: "FWK_PENDING = 1"
definition FWK_SUCCESS :: int where [fwk_status_defs]: "FWK_SUCCESS = 0"
definition FWK_E_PARAM :: int where [fwk_status_defs]: "FWK_E_PARAM = -1"
definition FWK_E_ALIGN :: int where [fwk_status_defs]: "FWK_E_ALIGN = -2"
definition FWK_E_SIZE :: int where [fwk_status_defs]: "FWK_E_SIZE = -3"
definition FWK_E_HANDLER :: int where [fwk_status_defs]: "FWK_E_HANDLER = -4"
definition FWK_E_ACCESS :: int where [fwk_status_defs]: "FWK_E_ACCESS = -5"
definition FWK_E_RANGE :: int where [fwk_status_defs]: "FWK_E_RANGE = -6"
definition FWK_E_TIMEOUT :: int where [fwk_status_defs]: "FWK_E_TIMEOUT = -7"
definition FWK_E_NOMEM :: int where [fwk_status_defs]: "FWK_E_NOMEM = -8"
definition FWK_E_PWRSTATE :: int where [fwk_status_defs]: "FWK_E_PWRSTATE = -9"
definition FWK_E_SUPPORT :: int where [fwk_status_defs]: "FWK_E_SUPPORT = -10"
definition FWK_E_DEVICE :: int where [fwk_status_defs]: "FWK_E_DEVICE = -11"
definition FWK_E_BUSY :: int where [fwk_status_defs]: "FWK_E_BUSY = -12"
definition FWK_E_OS :: int where [fwk_status_defs]: "FWK_E_OS = -13"
definition FWK_E_DATA :: int where [fwk_status_defs]: "FWK_E_DATA = -14"
definition FWK_E_STATE :: int where [fwk_status_defs]: "FWK_E_STATE = -15"
definition FWK_E_INIT :: int where [fwk_status_defs]: "FWK_E_INIT = -16"
definition FWK_E_OVERWRITTEN :: int where [fwk_status_defs]: "FWK_E_OVERWRITTEN = -17"
definition FWK_E_PANIC :: int where [fwk_status_defs]: "FWK_E_PANIC = -18"

section \<open>Assertions\<close>

definition fwk_assert :: "bool \<Rightarrow> unit option" where
  [fwk_checks]: "fwk_assert c = (if c then Some () else None)"

definition fwk_check :: "build \<Rightarrow> bool \<Rightarrow> unit option" where
  [fwk_checks]: "fwk_check bc c = (if strict_checks bc \<and> \<not> c then None else Some ())"

definition fwk_unexpected :: "build \<Rightarrow> unit option" where
  [fwk_checks]: "fwk_unexpected bc = (if strict_checks bc then None else Some ())"

text \<open>
  \<^verbatim>\<open>fwk_expect\<close> evaluates to its argument in the lenient builds. In the strict build it is
  the comma expression of \<^verbatim>\<open>fwk_check\<close> and 1: it asserts, then is true.
\<close>

definition fwk_expect :: "build \<Rightarrow> bool \<Rightarrow> bool option" where
  [fwk_checks]: "fwk_expect bc c = (if strict_checks bc then (if c then Some True else None) else Some c)"

lemma fwk_assert_True [simp]: "fwk_assert True = Some ()"
  by (simp add: fwk_assert_def)

lemma fwk_assert_Some_iff [simp]: "fwk_assert c = Some u \<longleftrightarrow> c"
  by (simp add: fwk_assert_def)

lemma fwk_check_True [simp]: "fwk_check bc True = Some ()"
  by (simp add: fwk_check_def)

lemma fwk_expect_True [simp]: "fwk_expect bc True = Some True"
  by (simp add: fwk_expect_def)

lemma fwk_expect_Some_iff [simp]: "fwk_expect bc c = Some b \<longleftrightarrow> b = c \<and> (c \<or> \<not> strict_checks bc)"
  by (auto simp: fwk_expect_def)

section \<open>Sizes\<close>

text \<open>
  \<^verbatim>\<open>size_t\<close> values are natural numbers below \<open>2 ^ 32\<close> (the width of the Arm-M targets);
  additions and subtractions that could wrap are written with \<open>size_add\<close> and \<open>size_sub\<close>.
\<close>

definition size_add :: "nat \<Rightarrow> nat \<Rightarrow> nat" where
  "size_add a b = (a + b) mod 2 ^ 32"

lemma size_add_no_wrap: "a + b < 2 ^ 32 \<Longrightarrow> size_add a b = a + b"
  by (simp add: size_add_def)

definition size_sub :: "nat \<Rightarrow> nat \<Rightarrow> nat" where
  "size_sub a b = (if b \<le> a then a - b else 2 ^ 32 + a - b)"

lemma size_sub_le [simp]: "b \<le> a \<Longrightarrow> size_sub a b = a - b"
  by (simp add: size_sub_def)

section \<open>Options and lists\<close>

lemma bind_Some_iff: "Option.bind m f = Some y \<longleftrightarrow> (\<exists>x. m = Some x \<and> f x = Some y)"
  by (cases m) auto

lemma bind_assert_iff: "Option.bind (fwk_assert c) f = Some y \<longleftrightarrow> c \<and> f () = Some y"
  by (auto simp: fwk_assert_def)

lemma last_Cons_append: "last (p # xs @ [n]) = n"
  by simp

lemma list_split_at: "n \<in> set xs \<Longrightarrow> distinct xs \<Longrightarrow>
  \<exists>as bs. xs = as @ n # bs \<and> n \<notin> set as \<and> n \<notin> set bs"
  by (metis in_set_conv_decomp distinct_append distinct.simps(2) not_distinct_decomp
      in_set_conv_decomp_first)

lemma remove1_split: "n \<notin> set as \<Longrightarrow> remove1 n (as @ n # bs) = as @ bs"
  by (induction as) auto

lemma distinct_map_remove1: "distinct (map f xs) \<Longrightarrow> distinct (map f (remove1 x xs))"
proof (induction xs)
  case (Cons y ys)
  have "f ` set (remove1 x ys) \<subseteq> f ` set ys" by (intro image_mono set_remove1_subset)
  then show ?case using Cons by auto
qed simp

lemma map_remove1_distinct: "distinct (map f xs) \<Longrightarrow> x \<in> set xs \<Longrightarrow> map f (remove1 x xs) = remove1 (f x) (map f xs)"
proof (induction xs)
  case (Cons y ys)
  show ?case
  proof (cases "x = y")
    case False
    then have "f x \<in> f ` set ys" using Cons.prems(2) by simp
    then have "f x \<noteq> f y" using Cons.prems(1) by auto
    then show ?thesis using Cons False by auto
  qed simp
qed simp

lemma find_Some_mem: "find P xs = Some x \<Longrightarrow> x \<in> set xs \<and> P x"
  by (auto simp: find_Some_iff in_set_conv_nth)

text \<open>A bounded C loop whose body can fail: the body runs for each list element in order.\<close>

fun foldM :: "('a \<Rightarrow> 's \<Rightarrow> 's option) \<Rightarrow> 'a list \<Rightarrow> 's \<Rightarrow> 's option" where
  "foldM f [] s = Some s"
| "foldM f (x # xs) s = Option.bind (f x s) (foldM f xs)"

lemma foldM_append: "foldM f (xs @ ys) s = Option.bind (foldM f xs s) (foldM f ys)"
  by (induction xs arbitrary: s) (auto split: bind_splits)

text \<open>An invariant of the loop body is an invariant of the loop.\<close>

lemma foldM_inv:
  assumes "foldM f xs s = Some t" and "P s"
    and "\<And>x u v. x \<in> set xs \<Longrightarrow> P u \<Longrightarrow> f x u = Some v \<Longrightarrow> P v"
  shows "P t"
  using assms
proof (induction xs arbitrary: s)
  case Nil
  then show ?case by simp
next
  case (Cons x xs)
  from Cons.prems(1) obtain u where u: "f x s = Some u" "foldM f xs u = Some t"
    by (auto simp: bind_Some_iff)
  have "P u" by (rule Cons.prems(3) [OF _ Cons.prems(2) u(1)]) simp
  show ?case by (rule Cons.IH [OF u(2) \<open>P u\<close>]) (meson Cons.prems(3) list.set_intros(2))
qed

text \<open>A bounded C loop that returns at the first status other than FWK_SUCCESS.\<close>

fun loopM :: "('a \<Rightarrow> 's \<Rightarrow> (int \<times> 's) option) \<Rightarrow> 'a list \<Rightarrow> 's \<Rightarrow> (int \<times> 's) option" where
  "loopM f [] s = Some (FWK_SUCCESS, s)"
| "loopM f (x # xs) s =
     do {
       (st, s) \<leftarrow> f x s;
       if st \<noteq> FWK_SUCCESS then Some (st, s) else loopM f xs s
     }"

lemma loopM_SomeD:
  "loopM f (x # xs) s = Some (FWK_SUCCESS, t) \<Longrightarrow>
     \<exists>u. f x s = Some (FWK_SUCCESS, u) \<and> loopM f xs u = Some (FWK_SUCCESS, t)"
  by (auto simp: bind_Some_iff split: if_splits)

lemma loopM_inv:
  assumes "loopM f xs s = Some (st, t)" and "P s"
    and "\<And>x u v r. x \<in> set xs \<Longrightarrow> P u \<Longrightarrow> f x u = Some (r, v) \<Longrightarrow> P v"
  shows "P t"
  using assms
proof (induction xs arbitrary: s)
  case Nil
  then show ?case by simp
next
  case (Cons x xs)
  from Cons.prems(1) obtain r u where u: "f x s = Some (r, u)"
      "(if r \<noteq> FWK_SUCCESS then Some (r, u) else loopM f xs u) = Some (st, t)"
    by (auto simp: bind_Some_iff)
  have "P u" by (rule Cons.prems(3) [OF _ Cons.prems(2) u(1)]) simp
  then show ?case
    using u(2) Cons.IH [of u] Cons.prems(3) by (auto split: if_splits)
qed

text \<open>Total correctness of counting loops: the invariant is indexed by the iterations done.\<close>

lemma foldM_upt_ok:
  assumes "P 0 s" and "\<And>k u. k < n \<Longrightarrow> P k u \<Longrightarrow> \<exists>v. f k u = Some v \<and> P (Suc k) v"
  shows "\<exists>t. foldM f [0..<n] s = Some t \<and> P n t"
  using assms
proof (induction n)
  case 0
  then show ?case by simp
next
  case (Suc n)
  then obtain u where "foldM f [0..<n] s = Some u" "P n u" by (metis less_SucI)
  then show ?case using Suc.prems(2) [of n u] by (auto simp: foldM_append)
qed

lemma loopM_append_ok:
  "loopM f xs s = Some (FWK_SUCCESS, u) \<Longrightarrow> loopM f (xs @ ys) s = loopM f ys u"
  by (induction xs arbitrary: s) (auto simp: bind_Some_iff split: if_splits prod.splits)

lemma loopM_upt_ok:
  assumes "P 0 s" and "\<And>k u. k < n \<Longrightarrow> P k u \<Longrightarrow> \<exists>v. f k u = Some (FWK_SUCCESS, v) \<and> P (Suc k) v"
  shows "\<exists>t. loopM f [0..<n] s = Some (FWK_SUCCESS, t) \<and> P n t"
  using assms
proof (induction n)
  case 0
  then show ?case by simp
next
  case (Suc n)
  then obtain u where "loopM f [0..<n] s = Some (FWK_SUCCESS, u)" "P n u" by (metis less_SucI)
  then show ?case using Suc.prems(2) [of n u] by (auto simp: loopM_append_ok)
qed

text \<open>A list whose first \<open>k\<close> elements have been mapped, as a loop over its indices leaves it.\<close>

lemma map_prefix_step:
  "k < length xs \<Longrightarrow> (map f (take k xs) @ drop k xs)[k := f (xs ! k)] = map f (take (Suc k) xs) @ drop (Suc k) xs"
  by (rule nth_equalityI) (auto simp: nth_append nth_list_update less_Suc_eq)

lemma map_prefix_nth:
  "k < length xs \<Longrightarrow> (map f (take k xs) @ drop k xs) ! k = xs ! k"
  by (simp add: nth_append)

section \<open>Flat arrays of three dimensions\<close>

definition flat_index :: "nat \<Rightarrow> nat \<Rightarrow> nat \<Rightarrow> nat \<Rightarrow> nat \<Rightarrow> nat" where
  "flat_index A E agent element oper = agent + element * A + oper * E * A"

lemma flat_index_less:
  assumes "agent < A" and "element < E" and "oper < N"
  shows "flat_index A E agent element oper < N * E * A"
proof -
  have "agent + element * A < E * A"
  proof -
    have "agent + element * A < Suc element * A" using assms(1) by simp
    also have "\<dots> \<le> E * A" using assms(2) by (intro mult_le_mono1) simp
    finally show ?thesis .
  qed
  then have "flat_index A E agent element oper < Suc oper * (E * A)" by (simp add: flat_index_def mult.assoc)
  also have "\<dots> \<le> N * (E * A)" using assms(3) by (intro mult_le_mono1) simp
  finally show ?thesis by (simp add: mult.assoc)
qed

lemma flat_index_parts:
  assumes "agent < A" and "element < E"
  shows "flat_index A E agent element oper mod A = agent" and "flat_index A E agent element oper div A mod E = element"
    and "flat_index A E agent element oper div A div E = oper"
proof -
  have f: "flat_index A E agent element oper = agent + A * (element + E * oper)" by (simp add: flat_index_def algebra_simps)
  show "flat_index A E agent element oper mod A = agent" unfolding f using assms(1) by simp
  have d: "flat_index A E agent element oper div A = element + E * oper" unfolding f using assms(1) by simp
  show "flat_index A E agent element oper div A mod E = element" "flat_index A E agent element oper div A div E = oper"
    unfolding d using assms(2) by simp_all
qed

lemma flat_index_inj:
  assumes "agent < A" "element < E" "agent' < A" "element' < E"
  shows "flat_index A E agent element oper = flat_index A E agent' element' oper' \<longleftrightarrow> agent = agent' \<and> element = element' \<and> oper = oper'"
  using flat_index_parts [OF assms(1,2), of oper] flat_index_parts [OF assms(3,4), of oper'] by metis

end
