(* ===== verification/Fwk_Ring.thy ===== *)
theory Fwk_Ring
  imports Fwk_Prelude
begin

text \<open>
  The ring buffer of \<^verbatim>\<open>framework/src/fwk_ring.c\<close>. The storage is a list of bytes, positions
  are \<^verbatim>\<open>size_t\<close> values. A \<^verbatim>\<open>memcpy\<close> that would leave its destination or its source is
  \<open>None\<close>, and so is a remainder by a zero capacity. \<open>ring_bytes\<close> abstracts a ring to the
  bytes it buffers, oldest first; the locale \<open>overwriting_fifo\<close> is the contract its clients
  use.
\<close>

type_synonym byte = "8 word"

record fwk_ring =
  storage :: "byte list"
  capacity :: nat
  head :: nat
  tail :: nat
  full :: bool

section \<open>Operations\<close>

text \<open>\<^verbatim>\<open>memcpy(dst + off, src, n)\<close> into and \<^verbatim>\<open>memcpy(dst, src + off, n)\<close> out of an array.\<close>

definition memcpy_to :: "'a list \<Rightarrow> nat \<Rightarrow> 'a list \<Rightarrow> 'a list option" where
  "memcpy_to dst off src =
     (if off + length src \<le> length dst then Some (take off dst @ src @ drop (off + length src) dst) else None)"

definition memcpy_from :: "'a list \<Rightarrow> nat \<Rightarrow> nat \<Rightarrow> 'a list option" where
  "memcpy_from src off n = (if off + n \<le> length src then Some (take n (drop off src)) else None)"

definition fwk_ring_offset :: "fwk_ring \<Rightarrow> nat \<Rightarrow> nat option" where
  "fwk_ring_offset r idx = (if capacity r = 0 then None else Some (idx mod capacity r))"

definition fwk_ring_clear :: "fwk_ring \<Rightarrow> fwk_ring" where
  "fwk_ring_clear r = r\<lparr>head := 0, tail := 0, full := False\<rparr>"

definition fwk_ring_init :: "byte list \<Rightarrow> nat \<Rightarrow> fwk_ring option" where
  "fwk_ring_init st sz =
     do {
       fwk_assert (sz > 0);
       Some (fwk_ring_clear \<lparr>storage = st, capacity = sz, head = 0, tail = 0, full = False\<rparr>)
     }"

definition fwk_ring_get_capacity :: "fwk_ring \<Rightarrow> nat" where
  "fwk_ring_get_capacity r = capacity r"

definition fwk_ring_get_length :: "fwk_ring \<Rightarrow> nat" where
  "fwk_ring_get_length r =
     (if tail r \<ge> head r \<and> \<not> full r then tail r - head r
      else size_add (size_sub (capacity r) (head r)) (tail r))"

definition fwk_ring_get_free :: "fwk_ring \<Rightarrow> nat" where
  "fwk_ring_get_free r = size_sub (capacity r) (fwk_ring_get_length r)"

definition fwk_ring_is_full :: "fwk_ring \<Rightarrow> bool" where
  "fwk_ring_is_full r = full r"

definition fwk_ring_is_empty :: "fwk_ring \<Rightarrow> bool" where
  "fwk_ring_is_empty r \<longleftrightarrow> head r = tail r \<and> \<not> full r"

definition fwk_ring_peek :: "fwk_ring \<Rightarrow> nat \<Rightarrow> byte list option" where
  "fwk_ring_peek r buffer_size =
     (let buffer_size = min buffer_size (fwk_ring_get_length r) in
      if buffer_size = 0 then Some []
      else do {
        o1 \<leftarrow> fwk_ring_offset r (size_add (head r) buffer_size);
        if o1 > head r then memcpy_from (storage r) (head r) buffer_size
        else do {
          let chunk_size = size_sub (capacity r) (head r);
          a \<leftarrow> memcpy_from (storage r) (head r) chunk_size;
          b \<leftarrow> memcpy_from (storage r) 0 (size_sub buffer_size chunk_size);
          Some (a @ b)
        }
      })"

text \<open>
  \<^verbatim>\<open>fwk_ring_pop\<close>: without a destination buffer (\<open>want\<close> false) the bytes are dropped. The
  result is the bytes written to the buffer, the count returned, and the ring.
\<close>

definition fwk_ring_pop :: "bool \<Rightarrow> fwk_ring \<Rightarrow> nat \<Rightarrow> (byte list \<times> nat \<times> fwk_ring) option" where
  "fwk_ring_pop want r buffer_size =
     do {
       (out, n) \<leftarrow> (if \<not> want then Some ([], min buffer_size (fwk_ring_get_length r))
                    else map_option (\<lambda>bs. (bs, length bs)) (fwk_ring_peek r buffer_size));
       if n > 0 then do {
         hd \<leftarrow> fwk_ring_offset r (size_add (head r) n);
         Some (out, n, r\<lparr>head := hd, full := False\<rparr>)
       } else Some (out, n, r)
     }"

definition fwk_ring_push :: "fwk_ring \<Rightarrow> byte list \<Rightarrow> (nat \<times> fwk_ring) option" where
  "fwk_ring_push r buffer =
     (if length buffer = 0 then Some (0, r)
      else do {
        let buffer = (if length buffer > capacity r then drop (length buffer - capacity r) buffer else buffer);
        let buffer_size = length buffer;
        let remaining = fwk_ring_get_free r;
        o1 \<leftarrow> fwk_ring_offset r (size_add (tail r) buffer_size);
        st \<leftarrow> (if o1 > tail r then memcpy_to (storage r) (tail r) buffer
               else do {
                 let chunk_size = size_sub (capacity r) (tail r);
                 a \<leftarrow> memcpy_from buffer 0 chunk_size;
                 st \<leftarrow> memcpy_to (storage r) (tail r) a;
                 b \<leftarrow> memcpy_from buffer chunk_size (size_sub buffer_size chunk_size);
                 memcpy_to st 0 b
               });
        new_tail \<leftarrow> fwk_ring_offset r (size_add (tail r) buffer_size);
        let r = r\<lparr>storage := st, tail := new_tail\<rparr>;
        Some (buffer_size, if buffer_size \<ge> remaining then r\<lparr>head := new_tail, full := True\<rparr> else r)
      })"

section \<open>Invariant and abstraction\<close>

definition ring_inv :: "fwk_ring \<Rightarrow> bool" where
  "ring_inv r \<longleftrightarrow> 0 < capacity r \<and> 2 * capacity r \<le> 2 ^ 32 \<and> length (storage r) = capacity r \<and>
     head r < capacity r \<and> tail r < capacity r \<and> (full r \<longrightarrow> head r = tail r)"

definition ring_bytes :: "fwk_ring \<Rightarrow> byte list" where
  "ring_bytes r = take (fwk_ring_get_length r) (drop (head r) (storage r) @ take (head r) (storage r))"

lemma ring_invD:
  assumes "ring_inv r"
  shows "0 < capacity r" "2 * capacity r \<le> 2 ^ 32" "length (storage r) = capacity r"
    "head r < capacity r" "tail r < capacity r" "full r \<Longrightarrow> head r = tail r"
  using assms by (auto simp: ring_inv_def)

lemma ring_length_eq:
  assumes "ring_inv r"
  shows "fwk_ring_get_length r =
    (if head r \<le> tail r \<and> \<not> full r then tail r - head r else capacity r - head r + tail r)"
  using ring_invD [OF assms] by (auto simp: fwk_ring_get_length_def size_add_no_wrap)

lemma ring_length_le: "ring_inv r \<Longrightarrow> fwk_ring_get_length r \<le> capacity r"
  using ring_invD [of r] by (auto simp: ring_length_eq)

lemma ring_free_eq: "ring_inv r \<Longrightarrow> fwk_ring_get_free r = capacity r - fwk_ring_get_length r"
  using ring_length_le [of r] by (simp add: fwk_ring_get_free_def)

lemma ring_full_iff: "ring_inv r \<Longrightarrow> full r \<longleftrightarrow> fwk_ring_get_length r = capacity r"
  using ring_invD [of r] by (auto simp: ring_length_eq)

lemma ring_tail_eq:
  assumes "ring_inv r"
  shows "tail r = (head r + fwk_ring_get_length r) mod capacity r"
proof -
  note D = ring_invD [OF assms]
  have "tail r = (tail r + capacity r) mod capacity r" "tail r = tail r mod capacity r" using D by simp_all
  then show ?thesis using D by (auto simp: ring_length_eq [OF assms] add.commute)
qed

lemma ring_bytes_length [simp]: "ring_inv r \<Longrightarrow> length (ring_bytes r) = fwk_ring_get_length r"
  using ring_length_le [of r] ring_invD [of r] by (simp add: ring_bytes_def)

lemma mod_wrap: "a < c \<Longrightarrow> k < c \<Longrightarrow> (a + k) mod c = (if a + k < c then a + k else a + k - (c :: nat))"
  by (simp add: mod_if)

lemma ring_bytes_nth:
  assumes "ring_inv r" and "i < fwk_ring_get_length r"
  shows "ring_bytes r ! i = storage r ! ((head r + i) mod capacity r)"
proof -
  note D = ring_invD [OF assms(1)]
  have "i < capacity r" using assms ring_length_le [of r] by simp
  then show ?thesis
    using assms(2) D by (auto simp: ring_bytes_def mod_wrap nth_append add.commute min_def)
qed

text \<open>A write of \<open>buf\<close> at position \<open>t\<close> that continues at the start of the storage.\<close>

definition wrapped_write :: "byte list \<Rightarrow> nat \<Rightarrow> byte list \<Rightarrow> byte list" where
  "wrapped_write st t buf =
     (if t + length buf < length st then take t st @ buf @ drop (t + length buf) st
      else drop (length st - t) buf @ drop (t + length buf - length st) (take t st) @ take (length st - t) buf)"

lemma wrapped_write_length [simp]:
  "t < length st \<Longrightarrow> length buf \<le> length st \<Longrightarrow> length (wrapped_write st t buf) = length st"
  by (auto simp: wrapped_write_def)

lemma wrapped_write_nth:
  assumes "t < length st" and "length buf \<le> length st" and "k < length st"
  shows "wrapped_write st t buf ! ((t + k) mod length st) =
    (if k < length buf then buf ! k else st ! ((t + k) mod length st))"
  using assms by (auto simp: wrapped_write_def mod_wrap nth_append)

lemma ring_push_eq:
  assumes inv: "ring_inv r" and buf: "buffer \<noteq> []"
    and b: "b = drop (length buffer - capacity r) buffer"
    and nt: "nt = (tail r + length b) mod capacity r"
    and r': "r' = r\<lparr>storage := wrapped_write (storage r) (tail r) b, tail := nt\<rparr>"
  shows "fwk_ring_push r buffer =
    Some (length b, if length b \<ge> fwk_ring_get_free r then r'\<lparr>head := nt, full := True\<rparr> else r')"
proof -
  note D = ring_invD [OF inv]
  have trim: "(if length buffer > capacity r then drop (length buffer - capacity r) buffer else buffer) = b"
    by (simp add: b)
  have len: "0 < length b" "length b \<le> capacity r" using buf D by (auto simp: b)
  have add: "size_add (tail r) (length b) = tail r + length b" using D len by (simp add: size_add_no_wrap)
  have o1: "fwk_ring_offset r (tail r + length b) = Some nt" using D by (simp add: fwk_ring_offset_def nt)
  have gt: "nt > tail r \<longleftrightarrow> tail r + length b < capacity r"
    using D len by (auto simp: nt mod_if)
  have "fwk_ring_push r buffer = Option.bind
      (if tail r + length b < capacity r then memcpy_to (storage r) (tail r) b
       else do {
         a \<leftarrow> memcpy_from b 0 (capacity r - tail r);
         st \<leftarrow> memcpy_to (storage r) (tail r) a;
         c \<leftarrow> memcpy_from b (capacity r - tail r) (size_sub (length b) (capacity r - tail r));
         memcpy_to st 0 c
       }) (\<lambda>st. let q = r\<lparr>storage := st, tail := nt\<rparr> in
             Some (length b, if length b \<ge> fwk_ring_get_free r then q\<lparr>head := nt, full := True\<rparr> else q))"
    using buf D by (simp add: fwk_ring_push_def trim add o1 gt Let_def)
  also have "\<dots> = Some (length b, if length b \<ge> fwk_ring_get_free r then r'\<lparr>head := nt, full := True\<rparr> else r')"
    using D len by (auto simp: memcpy_to_def memcpy_from_def wrapped_write_def r' add.commute)
  finally show ?thesis .
qed

text \<open>The last \<open>n\<close> elements of a list.\<close>

definition lastn :: "nat \<Rightarrow> 'a list \<Rightarrow> 'a list" where
  "lastn n xs = drop (length xs - n) xs"

lemma lastn_length [simp]: "length (lastn n xs) = min n (length xs)"
  by (simp add: lastn_def min_def)

lemma lastn_all: "length xs \<le> n \<Longrightarrow> lastn n xs = xs"
  by (simp add: lastn_def)

lemma lastn_append_trim: "lastn n (xs @ ys) = lastn n (xs @ lastn n ys)"
proof (cases "length ys \<le> n")
  case True
  then show ?thesis by (simp add: lastn_all)
next
  case False
  then show ?thesis by (simp add: lastn_def)
qed

lemma lastn_nth: "i < min n (length xs) \<Longrightarrow> lastn n xs ! i = xs ! (length xs - n + i)"
  by (simp add: lastn_def)

lemma ring_length_unique:
  assumes "ring_inv r" "\<not> full r" "tail r = (head r + m) mod capacity r" "m < capacity r"
  shows "fwk_ring_get_length r = m"
  using assms ring_invD [OF assms(1)] by (auto simp: ring_length_eq mod_wrap split: if_splits)

lemma ring_tail_plus:
  "ring_inv r \<Longrightarrow> (tail r + k) mod capacity r = (head r + fwk_ring_get_length r + k) mod capacity r"
  by (subst ring_tail_eq) (simp_all add: mod_add_left_eq)

text \<open>Reading the storage after a wrapped write at the tail, relative to the old contents.\<close>

lemma ring_written_nth:
  assumes inv: "ring_inv r" and b: "length b \<le> capacity r" and k: "k < capacity r"
  shows "wrapped_write (storage r) (tail r) b ! ((tail r + k) mod capacity r) =
    (if k < length b then b ! k else storage r ! ((head r + fwk_ring_get_length r + k) mod capacity r))"
  using wrapped_write_nth [of "tail r" "storage r" b k] ring_invD [OF inv] b k ring_tail_plus [OF inv]
  by simp

lemma mod_eq_wrap: "(a :: nat) = b + c \<Longrightarrow> a mod c = b mod c"
  by simp

lemma ring_push_partial:
  assumes inv: "ring_inv r" and b: "length b < fwk_ring_get_free r"
    and r': "r' = r\<lparr>storage := wrapped_write (storage r) (tail r) b, tail := (tail r + length b) mod capacity r\<rparr>"
  shows "ring_inv r' \<and> ring_bytes r' = ring_bytes r @ b"
proof -
  note D = ring_invD [OF inv]
  let ?c = "capacity r" and ?l = "fwk_ring_get_length r"
  have lb: "?l + length b < ?c" using b ring_free_eq [OF inv] by simp
  then have nf: "\<not> full r" using ring_full_iff [OF inv] by simp
  have inv': "ring_inv r'" using D lb nf by (simp add: ring_inv_def r')
  have len: "fwk_ring_get_length r' = ?l + length b"
    by (rule ring_length_unique [OF inv']) (use nf lb ring_tail_plus [OF inv] in \<open>simp_all add: r' add.assoc\<close>)
  have "ring_bytes r' ! i = (ring_bytes r @ b) ! i" if i: "i < ?l + length b" for i
  proof (cases "i < ?l")
    case True
    have k: "(head r + ?l + (?c - ?l + i)) mod ?c = (head r + i) mod ?c"
      using lb by (intro mod_eq_wrap) arith
    have j: "?c - ?l + i < ?c" "\<not> ?c - ?l + i < length b" "length b \<le> ?c" using lb True by linarith+
    have "storage r' ! ((head r + i) mod ?c) = storage r ! ((head r + i) mod ?c)"
      using ring_written_nth [OF inv j(3) j(1)] ring_tail_plus [OF inv, of "?c - ?l + i"] j(2)
      unfolding k by (simp add: r' del: add_diff_assoc2)
    then show ?thesis
      using True i ring_bytes_nth [OF inv' i [folded len]] ring_bytes_nth [OF inv True]
      by (simp add: nth_append r' inv)
  next
    case False
    then have "(tail r + (i - ?l)) mod ?c = (head r + i) mod ?c" using ring_tail_plus [OF inv, of "i - ?l"] by simp
    moreover have j: "i - ?l < ?c" "i - ?l < length b" "length b \<le> ?c" using i False lb by linarith+
    ultimately have "storage r' ! ((head r + i) mod ?c) = b ! (i - ?l)"
      using ring_written_nth [OF inv j(3) j(1)] j(2) by (simp add: r')
    then show ?thesis
      using False ring_bytes_nth [OF inv' i [folded len]] by (simp add: nth_append r' inv)
  qed
  then have "ring_bytes r' = ring_bytes r @ b"
    using inv inv' len by (intro nth_equalityI) auto
  with inv' show ?thesis by simp
qed

lemma ring_push_filling:
  assumes inv: "ring_inv r" and b: "fwk_ring_get_free r \<le> length b" "length b \<le> capacity r"
    and nt: "nt = (tail r + length b) mod capacity r"
    and r': "r' = r\<lparr>storage := wrapped_write (storage r) (tail r) b, tail := nt, head := nt, full := True\<rparr>"
  shows "ring_inv r' \<and> ring_bytes r' = lastn (capacity r) (ring_bytes r @ b)"
proof -
  note D = ring_invD [OF inv]
  let ?c = "capacity r" and ?l = "fwk_ring_get_length r" and ?n = "length b"
  have lb: "?c \<le> ?l + ?n" "?l \<le> ?c" using b ring_free_eq [OF inv] ring_length_le [OF inv] by auto
  have inv': "ring_inv r'" using D b by (simp add: ring_inv_def r' nt)
  have len: "fwk_ring_get_length r' = ?c" using ring_full_iff [OF inv'] by (simp add: r')
  have "ring_bytes r' ! i = (ring_bytes r @ b) ! (?l + ?n - ?c + i)" if i: "i < ?c" for i
  proof (cases "?n + i < ?c")
    case True
    have "(head r' + i) mod ?c = (tail r + (?n + i)) mod ?c"
      by (simp add: r' nt mod_add_left_eq add.assoc)
    then have "ring_bytes r' ! i = storage r ! ((head r + ?l + (?n + i)) mod ?c)"
      using ring_written_nth [OF inv b(2) True] ring_bytes_nth [OF inv' i [folded len]] by (simp add: r')
    also have "(head r + ?l + (?n + i)) mod ?c = (head r + (?l + ?n - ?c + i)) mod ?c"
      using lb by (intro mod_eq_wrap) arith
    also have j: "?l + ?n - ?c + i < ?l" using True lb by linarith
    then have "storage r ! ((head r + (?l + ?n - ?c + i)) mod ?c) = ring_bytes r ! (?l + ?n - ?c + i)"
      by (rule ring_bytes_nth [OF inv, symmetric])
    finally show ?thesis using j inv by (simp add: nth_append del: add_diff_assoc2)
  next
    case False
    have "(head r' + i) mod ?c = (tail r + (?n + i - ?c)) mod ?c"
      using False by (simp add: r' nt mod_add_left_eq add.assoc le_mod_geq)
    moreover have j: "?n + i - ?c < ?c" "?n + i - ?c < ?n" using i False b(2) by linarith+
    ultimately have "ring_bytes r' ! i = b ! (?n + i - ?c)"
      using ring_written_nth [OF inv b(2) j(1)] ring_bytes_nth [OF inv' i [folded len]] by (simp add: r')
    moreover have "\<not> ?l + ?n - ?c + i < ?l" "?l + ?n - ?c + i - ?l = ?n + i - ?c" using False lb by linarith+
    ultimately show ?thesis using inv by (simp only: nth_append ring_bytes_length if_False)
  qed
  then have "ring_bytes r' = lastn ?c (ring_bytes r @ b)"
    using inv inv' len lb by (intro nth_equalityI) (auto simp: lastn_nth)
  with inv' show ?thesis by simp
qed

lemma ring_push_rep:
  assumes inv: "ring_inv r"
  shows "\<exists>r'. fwk_ring_push r buffer = Some (min (length buffer) (capacity r), r') \<and> ring_inv r' \<and>
           capacity r' = capacity r \<and> ring_bytes r' = lastn (capacity r) (ring_bytes r @ buffer)"
proof (cases "buffer = []")
  case True
  then show ?thesis using inv ring_length_le [OF inv] by (auto simp: fwk_ring_push_def lastn_all)
next
  case False
  obtain b where b: "b = drop (length buffer - capacity r) buffer" by simp
  have bl: "b = lastn (capacity r) buffer" by (simp add: b lastn_def)
  have len: "length b = min (length buffer) (capacity r)" by (simp add: b min_def)
  note push = ring_push_eq [OF inv False b refl refl]
  have trim: "lastn (capacity r) (ring_bytes r @ buffer) = lastn (capacity r) (ring_bytes r @ b)"
    unfolding bl by (rule lastn_append_trim)
  show ?thesis
  proof (cases "fwk_ring_get_free r \<le> length b")
    case True
    have "length b \<le> capacity r" by (simp add: len)
    with ring_push_filling [OF inv True _ refl refl] push True show ?thesis by (simp add: trim len [symmetric])
  next
    case F: False
    then have l: "length b < fwk_ring_get_free r" by simp
    then have "length (ring_bytes r @ b) \<le> capacity r" using ring_free_eq [OF inv] inv by simp
    with ring_push_partial [OF inv l refl] push F show ?thesis by (simp add: trim lastn_all len [symmetric])
  qed
qed

lemma ring_peek_rep:
  assumes inv: "ring_inv r"
  shows "fwk_ring_peek r n = Some (take n (ring_bytes r))"
proof -
  note D = ring_invD [OF inv]
  obtain m where m: "m = min n (fwk_ring_get_length r)" by simp
  have mc: "m \<le> capacity r" using m ring_length_le [OF inv] by simp
  have t: "take n (ring_bytes r) = take m (drop (head r) (storage r) @ take (head r) (storage r))"
    by (simp only: ring_bytes_def take_take m)
  have add: "size_add (head r) m = head r + m" using D mc by (intro size_add_no_wrap) linarith
  have off: "m \<noteq> 0 \<Longrightarrow> (head r + m) mod capacity r > head r \<longleftrightarrow> head r + m < capacity r"
    using D mc by (auto simp: mod_if)
  show ?thesis
    using D mc unfolding t fwk_ring_peek_def m [symmetric] Let_def
    by (auto simp: off add fwk_ring_offset_def memcpy_from_def)
qed

lemma ring_pop_rep:
  assumes inv: "ring_inv r"
  shows "\<exists>r'. fwk_ring_pop want r n = Some (if want then take n (ring_bytes r) else [], min n (length (ring_bytes r)), r') \<and>
    ring_inv r' \<and> capacity r' = capacity r \<and> ring_bytes r' = drop n (ring_bytes r)"
proof -
  note D = ring_invD [OF inv]
  let ?l = "fwk_ring_get_length r" and ?c = "capacity r"
  let ?m = "min n ?l"
  have m: "?m \<le> ?c" using ring_length_le [OF inv] by simp
  have add: "size_add (head r) ?m = head r + ?m" using D m by (intro size_add_no_wrap) linarith
  define r' where "r' = (if ?m > 0 then r\<lparr>head := (head r + ?m) mod ?c, full := False\<rparr> else r)"
  have pop: "fwk_ring_pop want r n = Some (if want then take n (ring_bytes r) else [], ?m, r')"
    using D inv by (auto simp: fwk_ring_pop_def ring_peek_rep add fwk_ring_offset_def r'_def min.commute)
  have inv': "ring_inv r'" using inv by (auto simp: ring_inv_def r'_def)
  have len: "fwk_ring_get_length r' = ?l - ?m"
  proof (cases "?m > 0")
    case True
    have "((head r + ?m) mod ?c + (?l - ?m)) mod ?c = (head r + ?m + (?l - ?m)) mod ?c" by (rule mod_add_left_eq)
    then have "tail r = (head r' + (?l - ?m)) mod ?c"
      using True ring_tail_eq [OF inv] by (simp add: r'_def)
    then show ?thesis
      using True ring_length_unique [OF inv', of "?l - ?m"] m ring_length_le [OF inv] by (auto simp: r'_def)
  qed (auto simp: r'_def)
  have "ring_bytes r' = drop n (ring_bytes r)"
  proof (rule nth_equalityI)
    fix i assume "i < length (ring_bytes r')"
    then have i: "i < fwk_ring_get_length r'" "?m + i < ?l" using inv' len by auto
    then have m': "?m = n" by simp
    have "(head r' + i) mod ?c = (head r + (?m + i)) mod ?c"
      by (simp add: r'_def mod_add_left_eq add.assoc)
    then show "ring_bytes r' ! i = drop n (ring_bytes r) ! i"
      using ring_bytes_nth [OF inv' i(1)] ring_bytes_nth [OF inv i(2)] i inv m' by (simp add: r'_def split: if_splits)
  qed (use inv inv' len in auto)
  then show ?thesis using pop inv' inv by (simp add: r'_def)
qed

lemma ring_init_rep:
  assumes "length st = sz" "0 < sz" "2 * sz \<le> 2 ^ 32"
  shows "\<exists>r. fwk_ring_init st sz = Some r \<and> ring_inv r \<and> capacity r = sz \<and> ring_bytes r = []"
  using assms by (auto simp: fwk_ring_init_def fwk_ring_clear_def ring_inv_def ring_bytes_def fwk_ring_get_length_def)

section \<open>The contract of a byte buffer that overwrites its oldest data\<close>

locale overwriting_fifo =
  fixes inv :: "'r \<Rightarrow> bool"
    and cap :: "'r \<Rightarrow> nat"
    and bytes :: "'r \<Rightarrow> byte list"
    and free :: "'r \<Rightarrow> nat"
    and push :: "'r \<Rightarrow> byte list \<Rightarrow> (nat \<times> 'r) option"
    and pop :: "'r \<Rightarrow> nat \<Rightarrow> (byte list \<times> nat \<times> 'r) option"
    and peek :: "'r \<Rightarrow> nat \<Rightarrow> byte list option"
  assumes bytes_bound: "inv r \<Longrightarrow> length (bytes r) \<le> cap r"
    and free_law: "inv r \<Longrightarrow> free r = cap r - length (bytes r)"
    and push_law: "inv r \<Longrightarrow> \<exists>r'. push r b = Some (min (length b) (cap r), r') \<and> inv r' \<and> cap r' = cap r \<and>
      bytes r' = lastn (cap r) (bytes r @ b)"
    and pop_law: "inv r \<Longrightarrow> \<exists>r'. pop r n = Some (take n (bytes r), min n (length (bytes r)), r') \<and> inv r' \<and>
      cap r' = cap r \<and> bytes r' = drop n (bytes r)"
    and peek_law: "inv r \<Longrightarrow> peek r n = Some (take n (bytes r))"
begin

text \<open>A write that fits loses nothing.\<close>

lemma push_fits:
  assumes "inv r" and "length b \<le> free r"
  shows "\<exists>r'. push r b = Some (length b, r') \<and> inv r' \<and> cap r' = cap r \<and> bytes r' = bytes r @ b \<and>
    free r' = free r - length b"
proof -
  have "length (bytes r @ b) \<le> cap r" using assms free_law [OF assms(1)] bytes_bound [OF assms(1)] by simp
  then have "lastn (cap r) (bytes r @ b) = bytes r @ b" by (rule lastn_all)
  moreover have "min (length b) (cap r) = length b" using assms free_law by simp
  ultimately obtain r' where "push r b = Some (length b, r')" "inv r'" "cap r' = cap r" "bytes r' = bytes r @ b"
    using push_law [OF assms(1), of b] by auto
  then show ?thesis using free_law [of r'] free_law [OF assms(1)] by auto
qed

text \<open>What was written into an empty buffer is read back, if it fits.\<close>

lemma push_pop_roundtrip:
  assumes "inv r" and "bytes r = []" and "length b \<le> cap r"
  shows "\<exists>r1 r2. push r b = Some (length b, r1) \<and> pop r1 (length b) = Some (b, length b, r2) \<and> bytes r2 = []"
proof -
  have "length b \<le> free r" using assms free_law by simp
  then obtain r1 where r1: "push r b = Some (length b, r1)" "inv r1" "bytes r1 = b"
    using push_fits [OF assms(1)] assms(2) by auto
  then show ?thesis using pop_law [OF r1(2), of "length b"] by auto
qed

end

interpretation rg: overwriting_fifo ring_inv capacity ring_bytes fwk_ring_get_free fwk_ring_push
  "fwk_ring_pop True" fwk_ring_peek
proof (unfold_locales, goal_cases)
  case (1 r)
  then show ?case by (simp add: ring_length_le)
next
  case (2 r)
  then show ?case by (simp add: ring_free_eq)
next
  case (3 r b)
  then show ?case by (rule ring_push_rep)
next
  case (4 r n)
  then show ?case using ring_pop_rep [of r True n] by simp
next
  case (5 r n)
  then show ?case by (rule ring_peek_rep)
qed

section \<open>Properties\<close>

text \<open>C7. A push keeps the newest bytes: whatever the positions of head and tail, after
  \<^verbatim>\<open>fwk_ring_push\<close> the ring holds exactly the last \<open>capacity\<close> bytes of the old contents followed by
  the written bytes, the returned count is the number of bytes kept of the write, the invariant
  holds again, and no copy leaves the storage.\<close>

theorem ring_push_keeps_newest:
  assumes "ring_inv r"
  shows "\<exists>r'. fwk_ring_push r buffer = Some (min (length buffer) (capacity r), r') \<and> ring_inv r' \<and>
           capacity r' = capacity r \<and> ring_bytes r' = lastn (capacity r) (ring_bytes r @ buffer)"
  using assms by (rule ring_push_rep)

definition example_ring :: fwk_ring where
  "example_ring = \<lparr>storage = [10, 11, 12], capacity = 3, head = 2, tail = 1, full = False\<rparr>"

lemma example_ring_inv: "ring_inv example_ring"
  by (simp add: ring_inv_def example_ring_def)

lemma example_ring_bytes: "ring_bytes example_ring = [12, 10]" "capacity example_ring = 3"
  by (simp_all add: example_ring_def ring_bytes_def fwk_ring_get_length_def size_add_def)

theorem ring_push_keeps_newest_witness:
  "\<exists>r'. fwk_ring_push example_ring [20, 21] = Some (2, r') \<and> ring_inv r' \<and> ring_bytes r' = [10, 20, 21]"
  using ring_push_keeps_newest [OF example_ring_inv, of "[20, 21]"]
  by (auto simp: example_ring_bytes lastn_def numeral_2_eq_2)

text \<open>Reading a ring: \<^verbatim>\<open>fwk_ring_pop\<close> returns the oldest bytes in order and removes exactly
  those, \<^verbatim>\<open>fwk_ring_peek\<close> returns the same bytes and changes nothing, and length, free space,
  emptiness and fullness agree with the bytes held.\<close>

theorem ring_pop_takes_oldest:
  assumes "ring_inv r"
  shows "fwk_ring_peek r n = Some (take n (ring_bytes r)) \<and>
    (\<exists>r'. fwk_ring_pop True r n = Some (take n (ring_bytes r), min n (length (ring_bytes r)), r') \<and>
          ring_inv r' \<and> ring_bytes r' = drop n (ring_bytes r)) \<and>
    fwk_ring_get_length r + fwk_ring_get_free r = capacity r \<and>
    fwk_ring_is_empty r = (ring_bytes r = []) \<and> fwk_ring_is_full r = (length (ring_bytes r) = capacity r)"
proof -
  have "fwk_ring_is_empty r = (fwk_ring_get_length r = 0)"
    using assms ring_invD [OF assms] by (auto simp: fwk_ring_is_empty_def ring_length_eq)
  then have "fwk_ring_is_empty r = (ring_bytes r = [])"
    using ring_bytes_length [OF assms] by (metis length_0_conv)
  then show ?thesis
    using assms rg.peek_law rg.pop_law [OF assms, of n] ring_free_eq [OF assms] ring_length_le [OF assms] ring_full_iff [OF assms]
    by (auto simp: fwk_ring_is_full_def)
qed

theorem ring_pop_takes_oldest_witness:
  "fwk_ring_peek example_ring 1 = Some [12] \<and> fwk_ring_is_empty example_ring = False"
  using ring_pop_takes_oldest [OF example_ring_inv, of 1]
  by (simp add: example_ring_bytes)

end
