(* ===== verification/Fwk_Id.thy ===== *)
theory Fwk_Id
  imports Fwk_Prelude
begin

text \<open>
  Entity identifiers: the 32-bit union of \<^verbatim>\<open>framework/include/internal/fwk_id.h\<close>, its builder
  macros in \<^verbatim>\<open>framework/include/fwk_id.h\<close> and the functions of \<^verbatim>\<open>framework/src/fwk_id.c\<close>.
  The bit-fields are allocated from the least significant bit upwards, as the procedure
  call standard of the Arm targets prescribes: type in bits 0-3, module index in bits 4-11,
  then the index of the variant.
\<close>

unbundle bit_operations_syntax

type_synonym fwk_id = "32 word"

named_theorems fwk_id_types \<open>identifier type codes\<close>
named_theorems fwk_id_fields \<open>bit-fields of an identifier\<close>
named_theorems fwk_id_builders \<open>builder macros\<close>

section \<open>Types and fields\<close>

definition FWK_ID_TYPE_INVALID :: "32 word" where [fwk_id_types]: "FWK_ID_TYPE_INVALID = 0"
definition FWK_ID_TYPE_NONE :: "32 word" where [fwk_id_types]: "FWK_ID_TYPE_NONE = 1"
definition FWK_ID_TYPE_MODULE :: "32 word" where [fwk_id_types]: "FWK_ID_TYPE_MODULE = 2"
definition FWK_ID_TYPE_ELEMENT :: "32 word" where [fwk_id_types]: "FWK_ID_TYPE_ELEMENT = 3"
definition FWK_ID_TYPE_SUB_ELEMENT :: "32 word" where [fwk_id_types]: "FWK_ID_TYPE_SUB_ELEMENT = 4"
definition FWK_ID_TYPE_API :: "32 word" where [fwk_id_types]: "FWK_ID_TYPE_API = 5"
definition FWK_ID_TYPE_EVENT :: "32 word" where [fwk_id_types]: "FWK_ID_TYPE_EVENT = 6"
definition FWK_ID_TYPE_NOTIFICATION :: "32 word" where [fwk_id_types]: "FWK_ID_TYPE_NOTIFICATION = 7"
definition FWK_ID_TYPE_COUNT :: "32 word" where [fwk_id_types]: "FWK_ID_TYPE_COUNT = 8"

definition id_type :: "fwk_id \<Rightarrow> 32 word" where [fwk_id_fields]: "id_type i = take_bit 4 i"
definition id_module_idx :: "fwk_id \<Rightarrow> 32 word" where [fwk_id_fields]: "id_module_idx i = take_bit 8 (drop_bit 4 i)"
definition id_element_idx :: "fwk_id \<Rightarrow> 32 word" where [fwk_id_fields]: "id_element_idx i = take_bit 12 (drop_bit 12 i)"
definition id_sub_element_idx :: "fwk_id \<Rightarrow> 32 word" where [fwk_id_fields]: "id_sub_element_idx i = take_bit 8 (drop_bit 24 i)"
definition id_api_idx :: "fwk_id \<Rightarrow> 32 word" where [fwk_id_fields]: "id_api_idx i = take_bit 4 (drop_bit 12 i)"
definition id_event_idx :: "fwk_id \<Rightarrow> 32 word" where [fwk_id_fields]: "id_event_idx i = take_bit 6 (drop_bit 12 i)"
definition id_notification_idx :: "fwk_id \<Rightarrow> 32 word" where [fwk_id_fields]: "id_notification_idx i = take_bit 6 (drop_bit 12 i)"

section \<open>Builder macros\<close>

text \<open>Storing a value in a bit-field keeps its low bits; the fields not named are zero.\<close>

definition FWK_ID_NONE :: fwk_id where [fwk_id_builders]: "FWK_ID_NONE = 1"

definition FWK_ID_MODULE :: "32 word \<Rightarrow> fwk_id" where
  [fwk_id_builders]: "FWK_ID_MODULE m = 2 OR push_bit 4 (take_bit 8 m)"

definition FWK_ID_ELEMENT :: "32 word \<Rightarrow> 32 word \<Rightarrow> fwk_id" where
  [fwk_id_builders]: "FWK_ID_ELEMENT m e = 3 OR push_bit 4 (take_bit 8 m) OR push_bit 12 (take_bit 12 e)"

definition FWK_ID_SUB_ELEMENT :: "32 word \<Rightarrow> 32 word \<Rightarrow> 32 word \<Rightarrow> fwk_id" where
  [fwk_id_builders]: "FWK_ID_SUB_ELEMENT m e s =
     4 OR push_bit 4 (take_bit 8 m) OR push_bit 12 (take_bit 12 e) OR push_bit 24 (take_bit 8 s)"

definition FWK_ID_API :: "32 word \<Rightarrow> 32 word \<Rightarrow> fwk_id" where
  [fwk_id_builders]: "FWK_ID_API m a = 5 OR push_bit 4 (take_bit 8 m) OR push_bit 12 (take_bit 4 a)"

definition FWK_ID_EVENT :: "32 word \<Rightarrow> 32 word \<Rightarrow> fwk_id" where
  [fwk_id_builders]: "FWK_ID_EVENT m e = 6 OR push_bit 4 (take_bit 8 m) OR push_bit 12 (take_bit 6 e)"

definition FWK_ID_NOTIFICATION :: "32 word \<Rightarrow> 32 word \<Rightarrow> fwk_id" where
  [fwk_id_builders]: "FWK_ID_NOTIFICATION m n = 7 OR push_bit 4 (take_bit 8 m) OR push_bit 12 (take_bit 6 n)"

section \<open>Functions of fwk_id.c\<close>

definition fwk_id_type_is_valid :: "fwk_id \<Rightarrow> bool" where
  "fwk_id_type_is_valid i \<longleftrightarrow> id_type i \<noteq> FWK_ID_TYPE_INVALID \<and> id_type i < FWK_ID_TYPE_COUNT"

definition assert_id :: "fwk_id \<Rightarrow> unit option" where
  "assert_id i = do { fwk_assert (id_type i \<noteq> FWK_ID_TYPE_INVALID); fwk_assert (id_type i < FWK_ID_TYPE_COUNT) }"

definition fwk_id_is_type :: "fwk_id \<Rightarrow> 32 word \<Rightarrow> bool option" where
  "fwk_id_is_type i t = do { assert_id i; Some (id_type i = t) }"

definition fwk_id_get_type :: "fwk_id \<Rightarrow> 32 word option" where
  "fwk_id_get_type i = do { assert_id i; Some (id_type i) }"

definition fwk_id_is_equal :: "fwk_id \<Rightarrow> fwk_id \<Rightarrow> bool option" where
  "fwk_id_is_equal l r = do { assert_id l; Some (l = r) }"

definition fwk_optional_id_is_defined :: "fwk_id \<Rightarrow> bool option" where
  "fwk_optional_id_is_defined i = do { fwk_assert (id_type i < FWK_ID_TYPE_COUNT); Some (id_type i \<noteq> FWK_ID_TYPE_INVALID) }"

definition fwk_id_build_module_id :: "fwk_id \<Rightarrow> fwk_id option" where
  "fwk_id_build_module_id i = do { assert_id i; Some (FWK_ID_MODULE (id_module_idx i)) }"

definition fwk_id_build_element_id :: "fwk_id \<Rightarrow> 32 word \<Rightarrow> fwk_id option" where
  "fwk_id_build_element_id i e = do { assert_id i; Some (FWK_ID_ELEMENT (id_module_idx i) e) }"

definition fwk_id_build_sub_element_id :: "fwk_id \<Rightarrow> 32 word \<Rightarrow> fwk_id option" where
  "fwk_id_build_sub_element_id i s =
     do {
       fwk_assert (id_type i = FWK_ID_TYPE_ELEMENT);
       Some (FWK_ID_SUB_ELEMENT (id_module_idx i) (id_element_idx i) s)
     }"

definition fwk_id_build_api_id :: "fwk_id \<Rightarrow> 32 word \<Rightarrow> fwk_id option" where
  "fwk_id_build_api_id i a = do { assert_id i; Some (FWK_ID_API (id_module_idx i) a) }"

definition fwk_id_get_module_idx :: "fwk_id \<Rightarrow> 32 word option" where
  "fwk_id_get_module_idx i = do { assert_id i; Some (id_module_idx i) }"

definition fwk_id_get_element_idx :: "fwk_id \<Rightarrow> 32 word option" where
  "fwk_id_get_element_idx i =
     do {
       fwk_assert (id_type i = FWK_ID_TYPE_ELEMENT \<or> id_type i = FWK_ID_TYPE_SUB_ELEMENT);
       Some (id_element_idx i)
     }"

definition fwk_id_get_sub_element_idx :: "fwk_id \<Rightarrow> 32 word option" where
  "fwk_id_get_sub_element_idx i =
     do { fwk_assert (id_type i = FWK_ID_TYPE_SUB_ELEMENT); Some (id_sub_element_idx i) }"

definition fwk_id_get_api_idx :: "fwk_id \<Rightarrow> 32 word option" where
  "fwk_id_get_api_idx i = do { fwk_assert (id_type i = FWK_ID_TYPE_API); Some (id_api_idx i) }"

definition fwk_id_get_event_idx :: "fwk_id \<Rightarrow> 32 word option" where
  "fwk_id_get_event_idx i = do { fwk_assert (id_type i = FWK_ID_TYPE_EVENT); Some (id_event_idx i) }"

definition fwk_id_get_notification_idx :: "fwk_id \<Rightarrow> 32 word option" where
  "fwk_id_get_notification_idx i =
     do { fwk_assert (id_type i = FWK_ID_TYPE_NOTIFICATION); Some (id_notification_idx i) }"

section \<open>String representation\<close>

text \<open>Decimal digits, as \<^verbatim>\<open>printf\<close> prints an unsigned integer with \<^verbatim>\<open>%u\<close>.\<close>

fun dec_digits :: "nat \<Rightarrow> string" where
  "dec_digits n = (if n < 10 then [char_of (48 + n)] else dec_digits (n div 10) @ [char_of (48 + n mod 10)])"

declare dec_digits.simps [simp del]

text \<open>
  One \<^verbatim>\<open>snprintf(buffer + length, buffer_size - length, ...)\<close>: the state is the text in the
  buffer up to its terminator and the running \<^verbatim>\<open>length\<close>. The call writes at most
  \<open>size - len - 1\<close> characters and returns the untruncated length. If \<^verbatim>\<open>length\<close> had passed the
  buffer's size, the unsigned subtraction would wrap and the call could write outside the
  buffer: \<open>None\<close>.
\<close>

definition snprintf_at :: "nat \<Rightarrow> string \<Rightarrow> string \<times> nat \<Rightarrow> (string \<times> nat) option" where
  "snprintf_at sz str = (\<lambda>(content, len).
     if len > sz then None
     else Some (if len = length content then content @ take (sz - len - 1) str else content, len + length str))"

definition id_type_name :: "32 word \<Rightarrow> string" where
  "id_type_name t =
     (if t = FWK_ID_TYPE_NONE then ''NON'' else if t = FWK_ID_TYPE_MODULE then ''MOD''
      else if t = FWK_ID_TYPE_ELEMENT then ''ELM'' else if t = FWK_ID_TYPE_SUB_ELEMENT then ''SUB''
      else if t = FWK_ID_TYPE_API then ''API'' else if t = FWK_ID_TYPE_EVENT then ''EVT''
      else if t = FWK_ID_TYPE_NOTIFICATION then ''NOT'' else ''INV'')"

definition id_index1 :: "fwk_id \<Rightarrow> 32 word" where
  "id_index1 i =
     (if id_type i = FWK_ID_TYPE_SUB_ELEMENT \<or> id_type i = FWK_ID_TYPE_ELEMENT then id_element_idx i
      else if id_type i = FWK_ID_TYPE_API then id_api_idx i
      else if id_type i = FWK_ID_TYPE_EVENT then id_event_idx i
      else if id_type i = FWK_ID_TYPE_NOTIFICATION then id_notification_idx i else 0)"

definition fwk_id_format :: "nat \<Rightarrow> fwk_id \<Rightarrow> string option" where
  "fwk_id_format buffer_size i =
     do {
       fwk_assert (buffer_size > 0);
       if id_type i \<ge> FWK_ID_TYPE_COUNT \<or> id_type i = FWK_ID_TYPE_INVALID
       then map_option fst (snprintf_at buffer_size ''[INV]'' ([], 0))
       else do {
         st \<leftarrow> snprintf_at buffer_size (''['' @ id_type_name (id_type i) @ '' '' @ dec_digits (unat (id_module_idx i))) ([], 0);
         st \<leftarrow> (if id_type i \<in> {FWK_ID_TYPE_ELEMENT, FWK_ID_TYPE_SUB_ELEMENT, FWK_ID_TYPE_API,
                                FWK_ID_TYPE_EVENT, FWK_ID_TYPE_NOTIFICATION}
               then snprintf_at buffer_size ('':'' @ dec_digits (unat (id_index1 i))) st else Some st);
         st \<leftarrow> (if id_type i = FWK_ID_TYPE_SUB_ELEMENT
               then snprintf_at buffer_size ('':'' @ dec_digits (unat (id_sub_element_idx i))) st else Some st);
         map_option fst (snprintf_at buffer_size '']'' st)
       }
     }"

text \<open>The buffer of \<^verbatim>\<open>struct __fwk_id_fmt\<close> has 20 bytes.\<close>

definition fwk_id_str :: "fwk_id \<Rightarrow> string option" where
  "fwk_id_str i = fwk_id_format 20 i"

section \<open>Fields of built identifiers\<close>

lemmas id_defs = fwk_id_builders fwk_id_fields fwk_id_types

lemma id_type_builders [simp]:
  "id_type (FWK_ID_MODULE m) = FWK_ID_TYPE_MODULE"
  "id_type (FWK_ID_ELEMENT m e) = FWK_ID_TYPE_ELEMENT"
  "id_type (FWK_ID_SUB_ELEMENT m e s) = FWK_ID_TYPE_SUB_ELEMENT"
  "id_type (FWK_ID_API m a) = FWK_ID_TYPE_API"
  "id_type (FWK_ID_EVENT m v) = FWK_ID_TYPE_EVENT"
  "id_type (FWK_ID_NOTIFICATION m n) = FWK_ID_TYPE_NOTIFICATION"
  unfolding id_defs by (rule bit_word_eqI; auto simp: bit_simps)+

lemma id_module_builders [simp]:
  "id_module_idx (FWK_ID_MODULE m) = take_bit 8 m"
  "id_module_idx (FWK_ID_ELEMENT m e) = take_bit 8 m"
  "id_module_idx (FWK_ID_SUB_ELEMENT m e s) = take_bit 8 m"
  "id_module_idx (FWK_ID_API m a) = take_bit 8 m"
  "id_module_idx (FWK_ID_EVENT m v) = take_bit 8 m"
  "id_module_idx (FWK_ID_NOTIFICATION m n) = take_bit 8 m"
  unfolding id_defs by (rule bit_word_eqI; auto simp: bit_simps)+

lemma id_index_builders [simp]:
  "id_element_idx (FWK_ID_ELEMENT m e) = take_bit 12 e"
  "id_element_idx (FWK_ID_SUB_ELEMENT m e s) = take_bit 12 e"
  "id_sub_element_idx (FWK_ID_SUB_ELEMENT m e s) = take_bit 8 s"
  "id_api_idx (FWK_ID_API m a) = take_bit 4 a"
  "id_event_idx (FWK_ID_EVENT m v) = take_bit 6 v"
  "id_notification_idx (FWK_ID_NOTIFICATION m n) = take_bit 6 n"
  unfolding id_defs by (rule bit_word_eqI; auto simp: bit_simps)+

lemma id_types_valid [simp]:
  "fwk_id_type_is_valid (FWK_ID_MODULE m)" "fwk_id_type_is_valid (FWK_ID_ELEMENT m e)"
  "fwk_id_type_is_valid (FWK_ID_SUB_ELEMENT m e s)" "fwk_id_type_is_valid (FWK_ID_API m a)"
  "fwk_id_type_is_valid (FWK_ID_EVENT m v)" "fwk_id_type_is_valid (FWK_ID_NOTIFICATION m n)"
  by (simp_all add: fwk_id_type_is_valid_def) (simp_all add: fwk_id_types)

lemma id_type_cases:
  assumes "fwk_id_type_is_valid i"
  shows "id_type i \<in> {FWK_ID_TYPE_NONE, FWK_ID_TYPE_MODULE, FWK_ID_TYPE_ELEMENT, FWK_ID_TYPE_SUB_ELEMENT,
    FWK_ID_TYPE_API, FWK_ID_TYPE_EVENT, FWK_ID_TYPE_NOTIFICATION}"
proof -
  have "unat (id_type i) < 8" "unat (id_type i) \<noteq> 0"
    using assms by (auto simp: fwk_id_type_is_valid_def fwk_id_types word_less_nat_alt unat_eq_zero)
  then have "unat (id_type i) \<in> {1, 2, 3, 4, 5, 6, 7}" by auto
  then show ?thesis by (auto simp: fwk_id_types word_unat_eq_iff)
qed

lemma assert_id_iff: "assert_id i = (if fwk_id_type_is_valid i then Some () else None)"
  by (auto simp: assert_id_def fwk_id_type_is_valid_def fwk_assert_def)

lemma unat_take_bit_bound: "unat (take_bit k (w :: 32 word)) < 2 ^ k"
  by (metis take_bit_nat_less_exp unsigned_take_bit_eq)

lemma id_module_idx_bound: "unat (id_module_idx i) < 256"
  using unat_take_bit_bound [of 8 "drop_bit 4 i"] by (simp add: id_module_idx_def)

lemma fwk_id_get_module_idx_iff: "fwk_id_get_module_idx i = Some m \<longleftrightarrow> fwk_id_type_is_valid i \<and> m = id_module_idx i"
  by (auto simp: fwk_id_get_module_idx_def assert_id_iff)

lemma fwk_id_is_equal_valid: "fwk_id_type_is_valid l \<Longrightarrow> fwk_id_is_equal l r = Some (l = r)"
  by (simp add: fwk_id_is_equal_def assert_id_iff)

lemma fwk_id_is_type_valid: "fwk_id_type_is_valid i \<Longrightarrow> fwk_id_is_type i t = Some (id_type i = t)"
  by (simp add: fwk_id_is_type_def assert_id_iff)

lemma take_bit_word_id: "unat w < 2 ^ k \<Longrightarrow> take_bit k (w :: 32 word) = w"
  by (rule word_unat_eq_iff [THEN iffD2]) (simp add: unsigned_take_bit_eq take_bit_nat_eq_self)

lemma bit_type_sub: "bit (4 :: 32 word) n \<longleftrightarrow> n = 2"
  using bit_exp_iff [where 'a = "32 word", of 2 n] by auto

lemma bit_type_sub_int: "bit (4 :: int) n \<longleftrightarrow> n = 2"
  using bit_exp_iff [where 'a = int, of 2 n] by auto

lemma sub_element_id_fields:
  assumes "id_type i = FWK_ID_TYPE_SUB_ELEMENT"
  shows "FWK_ID_SUB_ELEMENT (id_module_idx i) (id_element_idx i) (id_sub_element_idx i) = i"
proof (rule bit_word_eqI)
  fix n :: nat
  assume n: "n < LENGTH(32)"
  have "bit (take_bit 4 i) n = (n = 2)"
    using assms bit_type_sub [of n] by (simp only: fwk_id_types fwk_id_fields)
  then have low: "n < 4 \<Longrightarrow> bit i n = (n = 2)" by (simp add: bit_take_bit_iff)
  consider "n < 4" | "4 \<le> n" "n < 12" | "12 \<le> n" "n < 24" | "24 \<le> n" by linarith
  then show "bit (FWK_ID_SUB_ELEMENT (id_module_idx i) (id_element_idx i) (id_sub_element_idx i)) n = bit i n"
    using n low by cases (auto simp: fwk_id_builders fwk_id_fields bit_or_iff bit_push_bit_iff bit_take_bit_iff
      bit_drop_bit_eq bit_type_sub bit_type_sub_int)
qed

section \<open>The printed form\<close>

lemma dec_digits_length: "n < 10 ^ k \<Longrightarrow> 0 < k \<Longrightarrow> length (dec_digits n) \<le> k"
proof (induction n arbitrary: k rule: dec_digits.induct)
  case (1 n)
  show ?case
  proof (cases "n < 10")
    case True
    then show ?thesis using 1 by (simp add: dec_digits.simps [of n])
  next
    case False
    then obtain j where k: "k = Suc j" "0 < j" using 1(2,3) by (cases k; cases "k - 1") auto
    have "n div 10 < 10 ^ j" using 1(2) k by (simp add: less_mult_imp_div_less mult.commute)
    then have "length (dec_digits (n div 10)) \<le> j" using 1(1) False k by simp
    then show ?thesis using False k by (simp add: dec_digits.simps [of n])
  qed
qed

lemma snprintf_at_fits:
  "len = length content \<Longrightarrow> len + length str < sz \<Longrightarrow>
     snprintf_at sz str (content, len) = Some (content @ str, len + length str)"
  by (simp add: snprintf_at_def)

definition id_text :: "fwk_id \<Rightarrow> string" where
  "id_text i =
     (if fwk_id_type_is_valid i
      then ''['' @ id_type_name (id_type i) @ '' '' @ dec_digits (unat (id_module_idx i)) @
           (if id_type i \<in> {FWK_ID_TYPE_NONE, FWK_ID_TYPE_MODULE} then []
            else '':'' @ dec_digits (unat (id_index1 i))) @
           (if id_type i = FWK_ID_TYPE_SUB_ELEMENT then '':'' @ dec_digits (unat (id_sub_element_idx i)) else []) @
           '']''
      else ''[INV]'')"

lemma index_bounds:
  "unat (id_index1 i) < 10 ^ 4" "unat (id_module_idx i) < 10 ^ 3" "unat (id_sub_element_idx i) < 10 ^ 3"
  using unat_take_bit_bound [of 12 "drop_bit 12 i"] unat_take_bit_bound [of 6 "drop_bit 12 i"]
    unat_take_bit_bound [of 4 "drop_bit 12 i"] unat_take_bit_bound [of 8 "drop_bit 4 i"]
    unat_take_bit_bound [of 8 "drop_bit 24 i"]
  by (auto simp: id_index1_def fwk_id_fields)

lemma digits_bounds:
  "length (dec_digits (unat (id_index1 i))) \<le> 4" "length (dec_digits (unat (id_module_idx i))) \<le> 3"
  "length (dec_digits (unat (id_sub_element_idx i))) \<le> 3"
  using index_bounds [of i] by (intro dec_digits_length; simp)+

lemma id_type_name_length: "length (id_type_name t) = 3"
  by (simp add: id_type_name_def)

lemma id_text_length: "length (id_text i) < 20"
  using digits_bounds [of i] by (simp add: id_text_def id_type_name_length)

section \<open>Properties\<close>

text \<open>C12. Building and reading identifiers are inverse to each other. Every index that fits its
  bit-field is read back unchanged from a sub-element identifier built from an element
  identifier, and every identifier whose type is SUB_ELEMENT is the one built from its fields;
  no assertion fails on the way.\<close>

theorem fwk_id_roundtrip:
  assumes "m < 256" and "e < 4096" and "s < 256"
  shows "fwk_id_build_sub_element_id (FWK_ID_ELEMENT m e) s = Some (FWK_ID_SUB_ELEMENT m e s) \<and>
    fwk_id_get_module_idx (FWK_ID_SUB_ELEMENT m e s) = Some m \<and>
    fwk_id_get_element_idx (FWK_ID_SUB_ELEMENT m e s) = Some e \<and>
    fwk_id_get_sub_element_idx (FWK_ID_SUB_ELEMENT m e s) = Some s \<and>
    fwk_id_build_module_id (FWK_ID_SUB_ELEMENT m e s) = Some (FWK_ID_MODULE m) \<and>
    (\<forall>i. fwk_id_is_type i FWK_ID_TYPE_SUB_ELEMENT = Some True \<longrightarrow>
       FWK_ID_SUB_ELEMENT (id_module_idx i) (id_element_idx i) (id_sub_element_idx i) = i)"
proof -
  have "take_bit 8 m = m" "take_bit 12 e = e" "take_bit 8 s = s"
    using assms by (simp_all add: take_bit_word_id word_less_nat_alt)
  then show ?thesis
    by (auto simp: fwk_id_build_sub_element_id_def fwk_id_get_module_idx_def fwk_id_get_element_idx_def
        fwk_id_get_sub_element_idx_def fwk_id_build_module_id_def assert_id_iff fwk_id_is_type_def
        sub_element_id_fields split: if_splits)
qed

theorem fwk_id_roundtrip_witness:
  "fwk_id_get_sub_element_idx (FWK_ID_SUB_ELEMENT 42 58 1) = Some 1 \<and>
   fwk_id_get_element_idx (FWK_ID_SUB_ELEMENT 42 58 1) = Some 58"
  using fwk_id_roundtrip [of 42 58 1] by simp

text \<open>C13. The printed form of an identifier always fits its 20-byte buffer: for every 32-bit
  identifier, valid or not, the chain of \<^verbatim>\<open>snprintf\<close> calls never truncates, never passes the
  end of the buffer, and leaves the complete text.\<close>

theorem fwk_id_str_fits: "fwk_id_str i = Some (id_text i) \<and> length (id_text i) < 20"
proof -
  note d = digits_bounds [of i]
  have "fwk_id_format 20 i = Some (id_text i)"
  proof (cases "fwk_id_type_is_valid i")
    case True
    then show ?thesis
      using id_type_cases [OF True] d id_type_name_length [of "id_type i"]
      by (auto simp: fwk_id_format_def id_text_def fwk_id_type_is_valid_def snprintf_at_fits not_less [symmetric]
          fwk_id_types)
  next
    case False
    then show ?thesis
      by (auto simp: fwk_id_format_def id_text_def fwk_id_type_is_valid_def snprintf_at_fits not_less)
  qed
  then show ?thesis by (simp add: fwk_id_str_def id_text_length)
qed

end
