(* ===== verification/Fwk_List.thy ===== *)
theory Fwk_List
  imports Fwk_Prelude
begin

text \<open>
  The intrusive circular linked lists of \<^verbatim>\<open>framework/src/fwk_slist.c\<close> and
  \<^verbatim>\<open>framework/src/fwk_dlist.c\<close> over an explicit heap of links. A list header and a list
  node share their layout (the static assertions at the end of both files), so one map
  \<open>next_of\<close> holds \<^verbatim>\<open>node->next\<close> and \<^verbatim>\<open>list->head\<close>, and one map \<open>prev_of\<close> holds
  \<^verbatim>\<open>node->prev\<close> and \<^verbatim>\<open>list->tail\<close>; writing through a node pointer that is the list
  itself therefore updates the header, as in C. \<open>None\<close> in these maps is the null pointer,
  and following it makes the operation \<open>None\<close>.

  The abstraction relations \<open>slist_rep\<close> and \<open>dlist_rep\<close> say which HOL list a header
  holds. The locale \<open>intrusive_list\<close> is the contract the rest of the framework relies on;
  it is interpreted for both kinds of list.
\<close>

section \<open>The heap of links\<close>

record slist_marks =
  current_count :: "32 word"
  max_count :: "32 word"

record 'p list_heap =
  next_of :: "'p \<Rightarrow> 'p option"
  prev_of :: "'p \<Rightarrow> 'p option"
  marks_of :: "'p \<Rightarrow> slist_marks"

abbreviation set_next :: "'p \<Rightarrow> 'p option \<Rightarrow> 'p list_heap \<Rightarrow> 'p list_heap" where
  "set_next p q h \<equiv> h\<lparr>next_of := (next_of h)(p := q)\<rparr>"

abbreviation set_prev :: "'p \<Rightarrow> 'p option \<Rightarrow> 'p list_heap \<Rightarrow> 'p list_heap" where
  "set_prev p q h \<equiv> h\<lparr>prev_of := (prev_of h)(p := q)\<rparr>"

section \<open>Singly-linked lists\<close>

definition increment_slist_elements_count :: "slist_marks \<Rightarrow> slist_marks" where
  "increment_slist_elements_count m =
     (let c = current_count m + 1 in m\<lparr>current_count := c, max_count := max (max_count m) c\<rparr>)"

definition decrement_slist_elements_count :: "slist_marks \<Rightarrow> slist_marks" where
  "decrement_slist_elements_count m =
     (if current_count m > 0 then m\<lparr>current_count := current_count m - 1\<rparr> else m)"

definition upd_marks :: "build \<Rightarrow> (slist_marks \<Rightarrow> slist_marks) \<Rightarrow> 'p \<Rightarrow> 'p list_heap \<Rightarrow> 'p list_heap" where
  "upd_marks bc f l h =
     (if marked_list bc then h\<lparr>marks_of := (marks_of h)(l := f (marks_of h l))\<rparr> else h)"

definition fwk_slist_init :: "build \<Rightarrow> 'p \<Rightarrow> 'p list_heap \<Rightarrow> 'p list_heap" where
  "fwk_slist_init bc l h =
     upd_marks bc (\<lambda>_. \<lparr>current_count = 0, max_count = 0\<rparr>) l
       (set_prev l (Some l) (set_next l (Some l) h))"

definition fwk_slist_is_empty :: "'p \<Rightarrow> 'p list_heap \<Rightarrow> bool option" where
  "fwk_slist_is_empty l h =
     (let is_empty = (next_of h l = Some l)
      in do {
        fwk_assert (is_empty \<longrightarrow> prev_of h l = next_of h l);
        Some is_empty
      })"

definition fwk_slist_head :: "'p \<Rightarrow> 'p list_heap \<Rightarrow> 'p option option" where
  "fwk_slist_head l h =
     do {
       e \<leftarrow> fwk_slist_is_empty l h;
       Some (if e then None else next_of h l)
     }"

definition fwk_slist_push_head :: "build \<Rightarrow> 'p \<Rightarrow> 'p \<Rightarrow> 'p list_heap \<Rightarrow> 'p list_heap option" where
  "fwk_slist_push_head bc l new h =
     do {
       fwk_check bc (next_of h new = None);
       let h = set_next new (next_of h l) h;
       let h = set_next l (Some new) h;
       let h = (if prev_of h l = Some l then set_prev l (Some new) h else h);
       Some (upd_marks bc increment_slist_elements_count l h)
     }"

definition fwk_slist_push_tail :: "build \<Rightarrow> 'p \<Rightarrow> 'p \<Rightarrow> 'p list_heap \<Rightarrow> 'p list_heap option" where
  "fwk_slist_push_tail bc l new h =
     do {
       fwk_check bc (next_of h new = None);
       let h = set_next new (Some l) h;
       t \<leftarrow> prev_of h l;
       let h = set_next t (Some new) h;
       let h = set_prev l (Some new) h;
       Some (upd_marks bc increment_slist_elements_count l h)
     }"

definition fwk_slist_pop_head :: "build \<Rightarrow> 'p \<Rightarrow> 'p list_heap \<Rightarrow> ('p option \<times> 'p list_heap) option" where
  "fwk_slist_pop_head bc l h =
     do {
       e \<leftarrow> fwk_slist_is_empty l h;
       if e then Some (None, h)
       else do {
         popped \<leftarrow> next_of h l;
         let h = (if next_of h popped = Some l then set_prev l (Some l) h else h);
         let h = set_next l (next_of h popped) h;
         let h = set_next popped None h;
         Some (Some popped, upd_marks bc decrement_slist_elements_count l h)
       }
     }"

text \<open>
  The search loops stop when they meet the header again; on a chain of links that never
  comes back to the header they run forever or follow a null pointer, hence
  \<open>partial_function\<close>.
\<close>

partial_function (option) slist_contains_loop ::
  "'p list_heap \<Rightarrow> 'p \<Rightarrow> 'p \<Rightarrow> 'p \<Rightarrow> bool option" where
  "slist_contains_loop h l node node_iter =
     (if next_of h node_iter = Some l then Some False
      else if next_of h node_iter = Some node then Some True
      else (case next_of h node_iter of
              None \<Rightarrow> None
            | Some nxt \<Rightarrow> slist_contains_loop h l node nxt))"

definition fwk_slist_contains :: "'p \<Rightarrow> 'p \<Rightarrow> 'p list_heap \<Rightarrow> bool option" where
  "fwk_slist_contains l node h =
     do {
       fwk_assert (next_of h node \<noteq> None);
       slist_contains_loop h l node l
     }"

definition fwk_slist_next :: "'p \<Rightarrow> 'p \<Rightarrow> 'p list_heap \<Rightarrow> 'p option option" where
  "fwk_slist_next l node h =
     do {
       c \<leftarrow> fwk_slist_contains l node h;
       fwk_assert c;
       Some (if next_of h node = Some l then None else next_of h node)
     }"

definition slist_unlink :: "build \<Rightarrow> 'p \<Rightarrow> 'p \<Rightarrow> 'p \<Rightarrow> 'p list_heap \<Rightarrow> 'p list_heap" where
  "slist_unlink bc l node node_iter h =
     (let h = set_next node_iter (next_of h node) h;
          h = (if next_of h node = Some l then set_prev l (Some node_iter) h else h);
          h = set_next node None h
      in upd_marks bc decrement_slist_elements_count l h)"

partial_function (option) slist_remove_loop ::
  "build \<Rightarrow> 'p \<Rightarrow> 'p \<Rightarrow> 'p \<Rightarrow> 'p list_heap \<Rightarrow> 'p list_heap option" where
  "slist_remove_loop bc l node node_iter h =
     (if next_of h node_iter = Some l then do { fwk_unexpected bc; Some h }
      else if next_of h node_iter = Some node then Some (slist_unlink bc l node node_iter h)
      else (case next_of h node_iter of
              None \<Rightarrow> None
            | Some nxt \<Rightarrow> slist_remove_loop bc l node nxt h))"

definition fwk_slist_remove :: "build \<Rightarrow> 'p \<Rightarrow> 'p \<Rightarrow> 'p list_heap \<Rightarrow> 'p list_heap option" where
  "fwk_slist_remove bc l node h =
     do {
       fwk_assert (next_of h node \<noteq> None);
       slist_remove_loop bc l node l h
     }"

definition fwk_slist_get_max :: "'p \<Rightarrow> 'p list_heap \<Rightarrow> 32 word" where
  "fwk_slist_get_max l h = max_count (marks_of h l)"

section \<open>Doubly-linked lists\<close>

definition fwk_dlist_push_head :: "build \<Rightarrow> 'p \<Rightarrow> 'p \<Rightarrow> 'p list_heap \<Rightarrow> 'p list_heap option" where
  "fwk_dlist_push_head bc l new h =
     do {
       fwk_check bc (prev_of h new = None);
       let h = set_prev new (Some l) h;
       hd \<leftarrow> next_of h l;
       let h = set_prev hd (Some new) h;
       fwk_slist_push_head bc l new h
     }"

definition fwk_dlist_push_tail :: "build \<Rightarrow> 'p \<Rightarrow> 'p \<Rightarrow> 'p list_heap \<Rightarrow> 'p list_heap option" where
  "fwk_dlist_push_tail bc l new h =
     do {
       fwk_check bc (prev_of h new = None);
       let h = set_prev new (prev_of h l) h;
       fwk_slist_push_tail bc l new h
     }"

definition fwk_dlist_pop_head :: "build \<Rightarrow> 'p \<Rightarrow> 'p list_heap \<Rightarrow> ('p option \<times> 'p list_heap) option" where
  "fwk_dlist_pop_head bc l h =
     do {
       (popped, h) \<leftarrow> fwk_slist_pop_head bc l h;
       hd \<leftarrow> next_of h l;
       let h = set_prev hd (Some l) h;
       let h = (case popped of None \<Rightarrow> h | Some p \<Rightarrow> set_prev p None h);
       Some (popped, h)
     }"

definition fwk_dlist_remove :: "build \<Rightarrow> 'p \<Rightarrow> 'p \<Rightarrow> 'p list_heap \<Rightarrow> 'p list_heap option" where
  "fwk_dlist_remove bc l node h =
     do {
       fwk_assert (node \<noteq> l);
       fwk_assert (prev_of h node \<noteq> None);
       fwk_assert (next_of h node \<noteq> None);
       c \<leftarrow> fwk_slist_contains l node h;
       fwk_assert c;
       p \<leftarrow> prev_of h node;
       let h = set_next p (next_of h node) h;
       nx \<leftarrow> next_of h node;
       let h = set_prev nx (prev_of h node) h;
       let h = set_prev node None h;
       Some (set_next node None h)
     }"

definition fwk_dlist_insert :: "build \<Rightarrow> 'p \<Rightarrow> 'p \<Rightarrow> 'p option \<Rightarrow> 'p list_heap \<Rightarrow> 'p list_heap option" where
  "fwk_dlist_insert bc l new node h =
     do {
       fwk_assert (Some new \<noteq> node);
       fwk_check bc (next_of h new = None);
       fwk_check bc (prev_of h new = None);
       (case node of
          None \<Rightarrow> fwk_dlist_push_tail bc l new h
        | Some nd \<Rightarrow>
            do {
              fwk_assert (prev_of h nd \<noteq> None);
              fwk_assert (next_of h nd \<noteq> None);
              c \<leftarrow> fwk_slist_contains l nd h;
              fwk_assert c;
              p \<leftarrow> prev_of h nd;
              let h = set_next p (Some new) h;
              let h = set_prev new (prev_of h nd) h;
              let h = set_next new (Some nd) h;
              Some (set_prev nd (Some new) h)
            })
     }"

definition fwk_dlist_get_max :: "'p \<Rightarrow> 'p list_heap \<Rightarrow> 32 word" where
  "fwk_dlist_get_max l h = max_count (marks_of h l)"

section \<open>Chains of links\<close>

text \<open>\<open>chain f p xs q\<close>: following the links \<open>f\<close> from \<open>p\<close> visits \<open>xs\<close> and then reaches \<open>q\<close>.\<close>

primrec chain :: "('p \<Rightarrow> 'p option) \<Rightarrow> 'p \<Rightarrow> 'p list \<Rightarrow> 'p \<Rightarrow> bool" where
  "chain f p [] q \<longleftrightarrow> f p = Some q"
| "chain f p (x # xs) q \<longleftrightarrow> f p = Some x \<and> chain f x xs q"

lemma chain_append: "chain f p (xs @ y # ys) q \<longleftrightarrow> chain f p xs y \<and> chain f y ys q"
  by (induction xs arbitrary: p) auto

lemma chain_cong: "(\<And>x. x \<in> set (p # xs) \<Longrightarrow> f x = g x) \<Longrightarrow> chain f p xs q = chain g p xs q"
  by (induction xs arbitrary: p) auto

lemma chain_upd [simp]: "a \<noteq> p \<Longrightarrow> a \<notin> set xs \<Longrightarrow> chain (f(a := v)) p xs q = chain f p xs q"
  by (rule chain_cong) auto

text \<open>Starting the same chain from another node that carries the same first link.\<close>

lemma chain_shift:
  "chain f p xs q \<Longrightarrow> g r = f p \<Longrightarrow> (\<And>x. x \<in> set xs \<Longrightarrow> g x = f x) \<Longrightarrow> chain g r xs q"
  by (cases xs) (auto intro: chain_cong [THEN iffD2])

text \<open>Redirecting the last link of a chain.\<close>

lemma chain_retarget:
  "chain f p xs q \<Longrightarrow> distinct (p # xs) \<Longrightarrow> chain (f(last (p # xs) := Some r)) p xs r"
proof (induction xs arbitrary: p)
  case Nil
  then show ?case by simp
next
  case (Cons x xs)
  from Cons.prems have "chain (f(last (x # xs) := Some r)) x xs r" by (intro Cons.IH) auto
  moreover have "p \<noteq> last (x # xs)" using Cons.prems(2) by (metis distinct.simps(2) last_in_set list.distinct(1))
  ultimately show ?case using Cons.prems(1) by (simp add: last_ConsR fun_upd_other del: last.simps fun_upd_apply)
qed

text \<open>Taking a node out of the middle of a chain.\<close>

lemma chain_unlink:
  assumes "chain f p xs n" and "chain f n ys q" and "distinct (p # xs)" and "set (p # xs) \<inter> set ys = {}"
  shows "chain (f(last (p # xs) := f n)) p (xs @ ys) q"
  using assms
proof (induction xs arbitrary: p)
  case Nil
  then show ?case by (auto intro: chain_shift)
next
  case (Cons x xs)
  from Cons.prems have "chain (f(last (x # xs) := f n)) x (xs @ ys) q" by (intro Cons.IH) auto
  moreover have "p \<noteq> last (x # xs)" using Cons.prems(3) by (metis distinct.simps(2) last_in_set list.distinct(1))
  ultimately show ?case using Cons.prems(1) by (simp add: last_ConsR fun_upd_other del: last.simps fun_upd_apply)
qed

lemma chain_first: "chain f p xs q \<Longrightarrow> f p = Some (hd (xs @ [q]))"
  by (cases xs) auto

lemma chain_rev_first: "chain f p (rev xs) q \<Longrightarrow> f p = Some (last (q # xs))"
  by (cases xs rule: rev_cases) auto

lemma chain_linked: "chain f p xs q \<Longrightarrow> x \<in> set xs \<Longrightarrow> \<exists>y. f x = Some y"
  by (induction xs arbitrary: p) (auto dest: chain_first)

section \<open>What a header represents\<close>

definition slist_rep :: "'p list_heap \<Rightarrow> 'p \<Rightarrow> 'p list \<Rightarrow> bool" where
  "slist_rep h l xs \<longleftrightarrow>
     distinct (l # xs) \<and> chain (next_of h) l xs l \<and> prev_of h l = Some (last (l # xs))"

definition dlist_rep :: "'p list_heap \<Rightarrow> 'p \<Rightarrow> 'p list \<Rightarrow> bool" where
  "dlist_rep h l xs \<longleftrightarrow>
     distinct (l # xs) \<and> chain (next_of h) l xs l \<and> chain (prev_of h) l (rev xs) l"

text \<open>A node that is on no list: all its links are null.\<close>

definition slist_detached :: "'p list_heap \<Rightarrow> 'p \<Rightarrow> bool" where
  "slist_detached h n \<longleftrightarrow> next_of h n = None"

definition dlist_detached :: "'p list_heap \<Rightarrow> 'p \<Rightarrow> bool" where
  "dlist_detached h n \<longleftrightarrow> next_of h n = None \<and> prev_of h n = None"

text \<open>Two heaps that differ at most on the nodes of a set.\<close>

definition same_outside :: "'p set \<Rightarrow> 'p list_heap \<Rightarrow> 'p list_heap \<Rightarrow> bool" where
  "same_outside S h h' \<longleftrightarrow>
     (\<forall>p. p \<notin> S \<longrightarrow> next_of h' p = next_of h p \<and> prev_of h' p = prev_of h p \<and> marks_of h' p = marks_of h p)"

lemma upd_marks_links [simp]:
  "next_of (upd_marks bc f l h) = next_of h" "prev_of (upd_marks bc f l h) = prev_of h"
  by (simp_all add: upd_marks_def)

lemma upd_marks_other [simp]: "p \<noteq> l \<Longrightarrow> marks_of (upd_marks bc f l h) p = marks_of h p"
  by (simp add: upd_marks_def)

lemma same_outside_refl [simp]: "same_outside S h h"
  by (simp add: same_outside_def)

lemma same_outside_trans:
  "same_outside S h h' \<Longrightarrow> same_outside T h' h'' \<Longrightarrow> S \<subseteq> U \<Longrightarrow> T \<subseteq> U \<Longrightarrow> same_outside U h h''"
  unfolding same_outside_def by (metis subsetD)

lemma same_outside_mono: "same_outside S h h' \<Longrightarrow> S \<subseteq> T \<Longrightarrow> same_outside T h h'"
  by (auto simp: same_outside_def)

lemma slist_rep_frame:
  assumes "slist_rep h l xs" and "same_outside S h h'" and "S \<inter> set (l # xs) = {}"
  shows "slist_rep h' l xs"
proof -
  have "chain (next_of h') l xs l = chain (next_of h) l xs l"
    using assms(2,3) by (intro chain_cong) (auto simp: same_outside_def)
  then show ?thesis using assms by (auto simp: slist_rep_def same_outside_def)
qed

lemma dlist_rep_frame:
  assumes "dlist_rep h l xs" and "same_outside S h h'" and "S \<inter> set (l # xs) = {}"
  shows "dlist_rep h' l xs"
proof -
  have "chain (next_of h') l xs l = chain (next_of h) l xs l"
    "chain (prev_of h') l (rev xs) l = chain (prev_of h) l (rev xs) l"
    using assms(2,3) by (auto intro!: chain_cong simp: same_outside_def disjoint_iff)
  then show ?thesis using assms by (auto simp: dlist_rep_def)
qed

lemma dlist_slist_rep: "dlist_rep h l xs \<Longrightarrow> slist_rep h l xs"
  by (auto simp: dlist_rep_def slist_rep_def dest: chain_rev_first)

lemma slist_rep_Nil: "slist_rep h l [] \<longleftrightarrow> next_of h l = Some l \<and> prev_of h l = Some l"
  by (auto simp: slist_rep_def)

lemma slist_rep_unique: "slist_rep h l xs \<Longrightarrow> slist_rep h l ys \<Longrightarrow> xs = ys"
proof -
  have "chain f p xs q \<Longrightarrow> chain f p ys q \<Longrightarrow> q \<notin> set xs \<Longrightarrow> q \<notin> set ys \<Longrightarrow> xs = ys" for f p q
  proof (induction xs arbitrary: p ys)
    case Nil
    then show ?case by (cases ys) auto
  next
    case (Cons x xs)
    then show ?case by (cases ys) auto
  qed
  then show "slist_rep h l xs \<Longrightarrow> slist_rep h l ys \<Longrightarrow> xs = ys"
    by (auto simp: slist_rep_def)
qed

section \<open>Singly-linked operations refine list operations\<close>

lemma slist_rep_D:
  assumes "slist_rep h l xs"
  shows "l \<notin> set xs" "distinct xs" "chain (next_of h) l xs l" "prev_of h l = Some (last (l # xs))"
  using assms by (auto simp: slist_rep_def)

lemma slist_init_rep [simp]: "slist_rep (fwk_slist_init bc l h) l []"
  by (simp add: fwk_slist_init_def slist_rep_def)

lemma dlist_init_rep [simp]: "dlist_rep (fwk_slist_init bc l h) l []"
  by (simp add: fwk_slist_init_def dlist_rep_def)

lemma slist_init_outside: "same_outside {l} h (fwk_slist_init bc l h)"
  by (simp add: fwk_slist_init_def same_outside_def)

lemma slist_is_empty_rep [simp]: "slist_rep h l xs \<Longrightarrow> fwk_slist_is_empty l h = Some (xs = [])"
  by (cases xs) (auto simp: fwk_slist_is_empty_def slist_rep_def)

lemma slist_head_rep [simp]:
  "slist_rep h l xs \<Longrightarrow> fwk_slist_head l h = Some (if xs = [] then None else Some (hd xs))"
  by (cases xs) (auto simp: fwk_slist_head_def dest: slist_rep_D(3))

lemma slist_push_head_rep:
  assumes rep: "slist_rep h l xs" and n: "n \<notin> set (l # xs)" "slist_detached h n"
  shows "\<exists>h'. fwk_slist_push_head bc l n h = Some h' \<and> slist_rep h' l (n # xs) \<and>
           same_outside {l, n} h h'"
proof -
  let ?f = "(next_of h)(n := next_of h l, l := Some n)"
  have "chain ?f n xs l"
    using slist_rep_D [OF rep] n by (auto intro: chain_shift)
  moreover have "xs \<noteq> [] \<Longrightarrow> last xs \<noteq> l"
    using slist_rep_D(1) [OF rep] by (metis last_in_set)
  ultimately show ?thesis
    using slist_rep_D [OF rep] n
    by (auto simp: fwk_slist_push_head_def slist_detached_def slist_rep_def same_outside_def Let_def)
qed

lemma slist_push_tail_rep:
  assumes rep: "slist_rep h l xs" and n: "n \<notin> set (l # xs)" "slist_detached h n"
  shows "\<exists>h'. fwk_slist_push_tail bc l n h = Some h' \<and> slist_rep h' l (xs @ [n]) \<and>
           same_outside (set (l # n # xs)) h h'"
proof -
  let ?t = "last (l # xs)" and ?f = "(next_of h)(n := Some l)"
  have "chain ?f l xs l" using slist_rep_D [OF rep] n by simp
  then have "chain (?f(?t := Some n)) l xs n"
    by (rule chain_retarget) (use slist_rep_D [OF rep] in auto)
  moreover have t: "?t \<in> set (l # xs)" by (rule last_in_set) simp
  then have "?t \<noteq> n" using n by blast
  ultimately show ?thesis
    using slist_rep_D [OF rep] n t
    by (auto simp: fwk_slist_push_tail_def slist_detached_def slist_rep_def same_outside_def
        chain_append last_Cons_append simp del: last.simps)
qed

lemma slist_pop_head_empty:
  "slist_rep h l [] \<Longrightarrow> fwk_slist_pop_head bc l h = Some (None, h)"
  by (simp add: fwk_slist_pop_head_def)

lemma slist_pop_head_rep:
  assumes rep: "slist_rep h l (x # xs)"
  shows "\<exists>h'. fwk_slist_pop_head bc l h = Some (Some x, h') \<and> slist_rep h' l xs \<and>
           slist_detached h' x \<and> same_outside {l, x} h h'"
proof -
  let ?f = "(next_of h)(l := next_of h x, x := None)"
  have "chain (next_of h) x xs l" "l \<noteq> x" "l \<notin> set xs" "x \<notin> set xs"
    using slist_rep_D [OF rep] by auto
  then have c: "chain ?f l xs l" by (auto intro: chain_shift)
  have e: "next_of h x = Some l \<longleftrightarrow> xs = []"
    using slist_rep_D [OF rep] by (cases xs) auto
  show ?thesis
    using slist_rep_D [OF rep] c e
    by (auto simp: fwk_slist_pop_head_def slist_is_empty_rep [OF rep] slist_detached_def slist_rep_def
        same_outside_def fun_upd_twist)
qed

lemma slist_contains_loop_chain:
  "chain (next_of h) it ys l \<Longrightarrow> l \<notin> set ys \<Longrightarrow> n \<noteq> l \<Longrightarrow>
     slist_contains_loop h l n it = Some (n \<in> set ys)"
  by (induction ys arbitrary: it) (auto simp: slist_contains_loop.simps)

lemma slist_contains_rep:
  "slist_rep h l xs \<Longrightarrow> n \<noteq> l \<Longrightarrow> next_of h n \<noteq> None \<Longrightarrow>
     fwk_slist_contains l n h = Some (n \<in> set xs)"
  by (auto simp: fwk_slist_contains_def dest: slist_rep_D intro: slist_contains_loop_chain)

lemma slist_linked: "slist_rep h l xs \<Longrightarrow> x \<in> set xs \<Longrightarrow> next_of h x \<noteq> None"
  by (auto simp: slist_rep_def dest: chain_linked)

lemma slist_contains_member: "slist_rep h l xs \<Longrightarrow> n \<in> set xs \<Longrightarrow> fwk_slist_contains l n h = Some True"
  using slist_contains_rep [of h l xs n] slist_linked [of h l xs n] by (auto dest: slist_rep_D(1))

lemma slist_next_rep:
  assumes rep: "slist_rep h l (as @ x # bs)"
  shows "fwk_slist_next l x h = Some (if bs = [] then None else Some (hd bs))"
proof -
  have "fwk_slist_contains l x h = Some True" by (rule slist_contains_member [OF rep]) simp
  moreover have "next_of h x = Some (hd (bs @ [l]))"
    using slist_rep_D(3) [OF rep] by (auto simp: chain_append dest: chain_first)
  moreover have "bs \<noteq> [] \<Longrightarrow> hd bs \<noteq> l"
    using slist_rep_D(1) [OF rep] by (cases bs) auto
  ultimately show ?thesis by (auto simp: fwk_slist_next_def)
qed

lemma slist_remove_loop_chain:
  "chain (next_of h) it (as @ n # bs) l \<Longrightarrow> l \<notin> set as \<Longrightarrow> l \<noteq> n \<Longrightarrow> n \<notin> set as \<Longrightarrow>
     slist_remove_loop bc l n it h = Some (slist_unlink bc l n (last (it # as)) h)"
  by (induction as arbitrary: it) (auto simp: slist_remove_loop.simps)

lemma slist_remove_rep:
  assumes rep: "slist_rep h l xs" and n: "n \<in> set xs"
  shows "\<exists>h'. fwk_slist_remove bc l n h = Some h' \<and> slist_rep h' l (remove1 n xs) \<and>
           slist_detached h' n \<and> same_outside (set (l # xs)) h h'"
proof -
  obtain as bs where xs: "xs = as @ n # bs" and nin: "n \<notin> set as" "n \<notin> set bs"
    using list_split_at [OF n slist_rep_D(2) [OF rep]] by blast
  note D = slist_rep_D [OF rep, unfolded xs]
  let ?t = "last (l # as)"
  have t: "?t \<in> set (l # as)" by (rule last_in_set) simp
  then have tn: "?t \<noteq> n" using D nin by auto
  have loop: "slist_remove_loop bc l n l h = Some (slist_unlink bc l n ?t h)"
    by (rule slist_remove_loop_chain) (use D nin in auto)
  have "chain ((next_of h)(?t := next_of h n)) l (as @ bs) l"
    by (rule chain_unlink) (use D nin in \<open>auto simp: chain_append\<close>)
  then have c: "chain ((next_of h)(?t := next_of h n, n := None)) l (as @ bs) l"
    using D nin by (auto simp del: last.simps)
  have e: "next_of h n = Some l \<longleftrightarrow> bs = []"
    using D by (cases bs) (auto simp: chain_append)
  have l2: "last (l # as @ n # bs) = last (l # as @ bs)" if "bs \<noteq> []" using that by simp
  show ?thesis
    using loop c D nin t tn e
    by (cases "bs = []")
       (auto simp: fwk_slist_remove_def slist_unlink_def slist_detached_def slist_rep_def xs
        remove1_split same_outside_def chain_append l2 dest: chain_first simp del: last.simps)
qed

section \<open>Doubly-linked operations refine list operations\<close>

text \<open>
  The header stands for both ends of the list: after a push on an empty list or the
  removal of the last node, \<^verbatim>\<open>list->tail\<close> is updated by the write to the \<^verbatim>\<open>prev\<close> link of
  the node before or after, because that node is the header itself.
\<close>

lemma dlist_rep_D:
  assumes "dlist_rep h l xs"
  shows "l \<notin> set xs" "distinct xs" "chain (next_of h) l xs l" "chain (prev_of h) l (rev xs) l"
    "prev_of h l = Some (last (l # xs))" "next_of h l = Some (hd (xs @ [l]))"
  using assms by (auto simp: dlist_rep_def dest: chain_first chain_rev_first simp del: last.simps)

lemma last_rev_hd: "last (l # rev xs) = hd (xs @ [l])"
  by (cases xs) auto

lemma hd_snoc_mem: "hd (xs @ [l]) \<in> set (l # xs)"
  by (cases xs) auto

lemma dlist_push_head_rep:
  assumes rep: "dlist_rep h l xs" and n: "n \<notin> set (l # xs)" "dlist_detached h n"
  shows "\<exists>h'. fwk_dlist_push_head bc l n h = Some h' \<and> dlist_rep h' l (n # xs) \<and>
           same_outside (set (l # n # xs)) h h'"
proof -
  note D = dlist_rep_D [OF rep]
  let ?hd = "hd (xs @ [l])" and ?g = "(prev_of h)(n := Some l)"
  have hd: "?hd \<in> set (l # xs)" "?hd \<noteq> n" using hd_snoc_mem [of xs l] n by auto
  have nxt: "chain ((next_of h)(n := next_of h l, l := Some n)) n xs l"
    using D(1,2,3) n by (auto intro: chain_shift)
  have "chain ?g l (rev xs) l" using D n by simp
  from chain_retarget [OF this, of n] have prv: "chain (?g(?hd := Some n)) l (rev xs) n"
    using D by (simp add: last_rev_hd del: last.simps)
  have ends: "(?g(?hd := Some n)) l \<noteq> Some l"
    using D n by (cases xs rule: rev_cases) (auto split: if_splits)
  have link: "(?g(?hd := Some n)) n = Some l" using hd by simp
  let ?h = "h\<lparr>prev_of := ?g(?hd := Some n), next_of := (next_of h)(n := next_of h l, l := Some n)\<rparr>"
  have "fwk_dlist_push_head bc l n h = Some (upd_marks bc increment_slist_elements_count l ?h)"
    using D(6) n(2) ends
    by (simp add: fwk_dlist_push_head_def fwk_slist_push_head_def dlist_detached_def Let_def del: fun_upd_apply)
  moreover have "dlist_rep ?h l (n # xs)"
    using D(1,2) n nxt prv link by (auto simp: dlist_rep_def chain_append)
  moreover have "same_outside (set (l # n # xs)) h (upd_marks bc increment_slist_elements_count l ?h)"
    using hd by (auto simp: same_outside_def)
  ultimately show ?thesis by (simp add: dlist_rep_def)
qed

lemma dlist_push_tail_rep:
  assumes rep: "dlist_rep h l xs" and n: "n \<notin> set (l # xs)" "dlist_detached h n"
  shows "\<exists>h'. fwk_dlist_push_tail bc l n h = Some h' \<and> dlist_rep h' l (xs @ [n]) \<and>
           same_outside (set (l # n # xs)) h h'"
proof -
  note D = dlist_rep_D [OF rep]
  let ?t = "last (l # xs)"
  let ?f = "(next_of h)(n := Some l, ?t := Some n)"
  let ?g = "(prev_of h)(n := prev_of h l, l := Some n)"
  have t: "?t \<in> set (l # xs)" by (rule last_in_set) simp
  then have tn: "?t \<noteq> n" using n by blast
  have "chain ((next_of h)(n := Some l)) l xs l" using D n by simp
  then have nxt: "chain ?f l xs n" by (rule chain_retarget) (use D in auto)
  have prv: "chain ?g n (rev xs) l" using D(1,2,4) n by (auto intro: chain_shift)
  let ?h = "h\<lparr>next_of := ?f, prev_of := ?g\<rparr>"
  have "fwk_dlist_push_tail bc l n h = Some (upd_marks bc increment_slist_elements_count l ?h)"
    using D(5) n by (auto simp: fwk_dlist_push_tail_def fwk_slist_push_tail_def dlist_detached_def simp del: last.simps)
  moreover have "dlist_rep ?h l (xs @ [n])"
    using D(1,2) n nxt prv tn by (auto simp: dlist_rep_def chain_append simp del: last.simps)
  moreover have "same_outside (set (l # n # xs)) h (upd_marks bc increment_slist_elements_count l ?h)"
    using t by (auto simp: same_outside_def)
  ultimately show ?thesis by (simp add: dlist_rep_def)
qed

lemma dlist_pop_head_empty:
  assumes "dlist_rep h l []"
  shows "\<exists>h'. fwk_dlist_pop_head bc l h = Some (None, h') \<and> dlist_rep h' l [] \<and> same_outside {l} h h'"
proof -
  note D = dlist_rep_D [OF assms]
  have "fwk_dlist_pop_head bc l h = Some (None, set_prev l (Some l) h)"
    using D(6) slist_pop_head_empty [OF dlist_slist_rep [OF assms], of bc]
    by (simp add: fwk_dlist_pop_head_def)
  then show ?thesis using D by (simp add: dlist_rep_def same_outside_def)
qed

lemma dlist_pop_head_rep:
  assumes rep: "dlist_rep h l (x # xs)"
  shows "\<exists>h'. fwk_dlist_pop_head bc l h = Some (Some x, h') \<and> dlist_rep h' l xs \<and>
           dlist_detached h' x \<and> same_outside (set (l # x # xs)) h h'"
proof -
  note D = dlist_rep_D [OF rep]
  let ?hd = "hd (xs @ [l])"
  let ?f = "(next_of h)(l := next_of h x, x := None)"
  let ?g0 = "if xs = [] then (prev_of h)(l := Some l) else prev_of h"
  let ?g = "?g0(?hd := Some l, x := None)"
  have x: "l \<noteq> x" "l \<notin> set xs" "x \<notin> set xs" and cx: "chain (next_of h) x xs l"
    using D by auto
  have nx: "next_of h x = Some ?hd" using cx by (rule chain_first)
  have hd: "?hd \<in> set (l # xs)" "?hd \<noteq> x" using hd_snoc_mem [of xs l] x by auto
  have nxt: "chain ?f l xs l" using x cx by (auto intro: chain_shift)
  have "chain (prev_of h) l (rev xs) x" using D(4) by (simp add: chain_append)
  from chain_retarget [OF this, of l] have "chain ((prev_of h)(?hd := Some l)) l (rev xs) l"
    using D by (simp add: last_rev_hd del: last.simps)
  then have prv: "chain ?g l (rev xs) l" using x by (cases "xs = []") auto
  have e: "next_of h x = Some l \<longleftrightarrow> xs = []" using x nx by (cases xs) auto
  have "\<exists>h'. fwk_dlist_pop_head bc l h = Some (Some x, h') \<and> next_of h' = ?f \<and> prev_of h' = ?g \<and>
      same_outside {l} (h\<lparr>next_of := ?f, prev_of := ?g\<rparr>) h'"
    using D(6) nx e x slist_is_empty_rep [OF dlist_slist_rep [OF rep]]
    by (cases "xs = []") (auto simp: fwk_dlist_pop_head_def fwk_slist_pop_head_def same_outside_def)
  then obtain h' where h': "fwk_dlist_pop_head bc l h = Some (Some x, h')" "next_of h' = ?f" "prev_of h' = ?g"
      "same_outside {l} (h\<lparr>next_of := ?f, prev_of := ?g\<rparr>) h'" by blast
  have "dlist_rep h' l xs" using D(2) x nxt prv h'(2,3) by (simp add: dlist_rep_def)
  moreover have "same_outside (set (l # x # xs)) h h'"
    using h'(4) hd by (auto simp: same_outside_def)
  ultimately show ?thesis using h' by (auto simp: dlist_detached_def)
qed

lemma dlist_split_D:
  assumes rep: "dlist_rep h l (as @ n # bs)"
  shows "chain (next_of h) l as n" "chain (next_of h) n bs l"
    "chain (prev_of h) l (rev bs) n" "chain (prev_of h) n (rev as) l"
    "prev_of h n = Some (last (l # as))" "next_of h n = Some (hd (bs @ [l]))"
    "n \<noteq> l" "n \<notin> set as" "n \<notin> set bs" "l \<notin> set as" "l \<notin> set bs"
    "distinct as" "distinct bs" "set as \<inter> set bs = {}"
  using dlist_rep_D [OF rep]
  by (auto simp: chain_append dest: chain_rev_first chain_first simp del: last.simps)

lemma dlist_remove_rep:
  assumes rep: "dlist_rep h l xs" and n: "n \<in> set xs"
  shows "\<exists>h'. fwk_dlist_remove bc l n h = Some h' \<and> dlist_rep h' l (remove1 n xs) \<and>
           dlist_detached h' n \<and> same_outside (set (l # xs)) h h'"
proof -
  obtain as bs where xs: "xs = as @ n # bs"
    using list_split_at [OF n dlist_rep_D(2) [OF rep]] by blast
  note D = dlist_split_D [OF rep [unfolded xs]]
  let ?t = "last (l # as)" and ?hd = "hd (bs @ [l])"
  have t: "?t \<in> set (l # as)" "?t \<noteq> n" using last_in_set [of "l # as"] D by auto
  have hd: "?hd \<in> set (l # bs)" "?hd \<noteq> n" using hd_snoc_mem [of bs l] D by auto
  have "chain ((next_of h)(?t := next_of h n)) l (as @ bs) l"
    by (rule chain_unlink) (use D in auto)
  then have nxt: "chain ((next_of h)(?t := next_of h n, n := None)) l (as @ bs) l"
    using D by (simp del: last.simps)
  have "chain ((prev_of h)(last (l # rev bs) := prev_of h n)) l (rev bs @ rev as) l"
    by (rule chain_unlink) (use D in auto)
  then have prv: "chain ((prev_of h)(?hd := prev_of h n, n := None)) l (rev bs @ rev as) l"
    using D by (simp add: last_rev_hd del: last.simps)
  have c: "fwk_slist_contains l n h = Some True"
    by (rule slist_contains_member [OF dlist_slist_rep [OF rep] n])
  let ?h = "h\<lparr>next_of := (next_of h)(?t := next_of h n, n := None),
              prev_of := (prev_of h)(?hd := prev_of h n, n := None)\<rparr>"
  have "fwk_dlist_remove bc l n h = Some ?h"
    using c D(5,6,7) t hd by (simp add: fwk_dlist_remove_def del: last.simps)
  moreover have "dlist_rep ?h l (remove1 n xs)"
    using nxt prv D by (simp add: dlist_rep_def xs remove1_split del: last.simps)
  moreover have "same_outside (set (l # xs)) h ?h"
    using t hd xs by (auto simp: same_outside_def simp del: last.simps)
  ultimately show ?thesis by (simp add: dlist_detached_def)
qed

lemma dlist_insert_rep:
  assumes rep: "dlist_rep h l (as @ nd # bs)" and n: "n \<notin> set (l # as @ nd # bs)" "dlist_detached h n"
  shows "\<exists>h'. fwk_dlist_insert bc l n (Some nd) h = Some h' \<and> dlist_rep h' l (as @ n # nd # bs) \<and>
           same_outside (set (l # n # as @ nd # bs)) h h'"
proof -
  note D = dlist_split_D [OF rep]
  let ?t = "last (l # as)"
  let ?f = "(next_of h)(?t := Some n, n := Some nd)"
  let ?g = "(prev_of h)(n := prev_of h nd, nd := Some n)"
  have t: "?t \<in> set (l # as)" by (rule last_in_set) simp
  have "chain ((next_of h)(?t := Some n)) l as n" by (rule chain_retarget) (use D in auto)
  then have n1: "chain ?f l as n" using n by (simp del: last.simps)
  have "?t \<notin> set (nd # bs)" using D(7,8,9,11,14) t by (auto simp del: last.simps)
  then have n2: "chain ?f nd bs l" using D(2) n by (auto simp del: last.simps)
  have p1: "chain ?g n (rev as) l" using D n by (auto intro: chain_shift simp del: last.simps)
  have p2: "chain ?g l (rev bs) nd" using D n by (simp del: last.simps)
  have c: "fwk_slist_contains l nd h = Some True"
    by (rule slist_contains_member [OF dlist_slist_rep [OF rep]]) simp
  have "fwk_dlist_insert bc l n (Some nd) h = Some (h\<lparr>next_of := ?f, prev_of := ?g\<rparr>)"
    using c D(5,6) n t by (simp add: fwk_dlist_insert_def dlist_detached_def del: last.simps)
  moreover have "dlist_rep (h\<lparr>next_of := ?f, prev_of := ?g\<rparr>) l (as @ n # nd # bs)"
    using n1 n2 p1 p2 D n by (auto simp: dlist_rep_def chain_append simp del: last.simps)
  moreover have "same_outside (set (l # n # as @ nd # bs)) h (h\<lparr>next_of := ?f, prev_of := ?g\<rparr>)"
    using t by (auto simp: same_outside_def simp del: last.simps)
  ultimately show ?thesis by blast
qed

text \<open>Insertion at any position: before the first node of the rest of the list, or at its end.\<close>

lemma dlist_insert_at_rep:
  assumes rep: "dlist_rep h l (as @ bs)" and n: "n \<notin> set (l # as @ bs)" "dlist_detached h n"
  shows "\<exists>h'. fwk_dlist_insert bc l n (if bs = [] then None else Some (hd bs)) h = Some h' \<and>
           dlist_rep h' l (as @ n # bs) \<and> same_outside (set (l # n # as @ bs)) h h'"
proof (cases bs)
  case Nil
  then show ?thesis
    using dlist_push_tail_rep [of h l as n bc] rep n by (simp add: fwk_dlist_insert_def dlist_detached_def)
next
  case (Cons nd cs)
  then show ?thesis using dlist_insert_rep [of h l as nd cs n bc] rep n by simp
qed

section \<open>Walking a list\<close>

text \<open>
  The loop \<^verbatim>\<open>for (node = fwk_list_head(list); node != NULL; node = fwk_list_next(list, node))\<close>
  that returns the first node satisfying a test. The test may fail an assertion.
\<close>

partial_function (option) list_find_from ::
  "('p \<Rightarrow> bool option) \<Rightarrow> 'p \<Rightarrow> 'p list_heap \<Rightarrow> 'p option \<Rightarrow> 'p option option" where
  "list_find_from P l h node =
     (case node of
        None \<Rightarrow> Some None
      | Some nd \<Rightarrow> Option.bind (P nd) (\<lambda>found.
          if found then Some (Some nd)
          else Option.bind (fwk_slist_next l nd h) (list_find_from P l h)))"

definition fwk_list_find :: "('p \<Rightarrow> bool option) \<Rightarrow> 'p \<Rightarrow> 'p list_heap \<Rightarrow> 'p option option" where
  "fwk_list_find P l h = Option.bind (fwk_slist_head l h) (list_find_from P l h)"

lemma list_find_from_rep:
  assumes "slist_rep h l (as @ bs)" and "\<And>x. x \<in> set bs \<Longrightarrow> P x = Some (p x)"
  shows "list_find_from P l h (if bs = [] then None else Some (hd bs)) = Some (find p bs)"
  using assms
proof (induction bs arbitrary: as)
  case Nil
  then show ?case by (simp add: list_find_from.simps)
next
  case (Cons b bs)
  have "list_find_from P l h (if bs = [] then None else Some (hd bs)) = Some (find p bs)"
    by (rule Cons.IH [of "as @ [b]"]) (use Cons.prems in auto)
  then show ?case
    using Cons.prems slist_next_rep [OF Cons.prems(1)]
    by (cases "p b") (simp_all add: list_find_from.simps [of P l h "Some b"])
qed

lemma fwk_list_find_rep:
  assumes "slist_rep h l xs" and "\<And>x. x \<in> set xs \<Longrightarrow> P x = Some (p x)"
  shows "fwk_list_find P l h = Some (find p xs)"
  using list_find_from_rep [of h l "[]" xs P p] assms by (simp add: fwk_list_find_def)

section \<open>The contract of an intrusive list\<close>

text \<open>\<open>pop_n pop k h\<close> runs a pop operation \<open>k\<close> times and collects what it returns.\<close>

primrec pop_n :: "('h \<Rightarrow> ('x \<times> 'h) option) \<Rightarrow> nat \<Rightarrow> 'h \<Rightarrow> ('x list \<times> 'h) option" where
  "pop_n pop 0 h = Some ([], h)"
| "pop_n pop (Suc k) h = do { (x, h) \<leftarrow> pop h; (xs, h) \<leftarrow> pop_n pop k h; Some (x # xs, h) }"

locale intrusive_list =
  fixes rep :: "'p list_heap \<Rightarrow> 'p \<Rightarrow> 'p list \<Rightarrow> bool"
    and detached :: "'p list_heap \<Rightarrow> 'p \<Rightarrow> bool"
    and push_tail :: "build \<Rightarrow> 'p \<Rightarrow> 'p \<Rightarrow> 'p list_heap \<Rightarrow> 'p list_heap option"
    and pop_head :: "build \<Rightarrow> 'p \<Rightarrow> 'p list_heap \<Rightarrow> ('p option \<times> 'p list_heap) option"
    and remove :: "build \<Rightarrow> 'p \<Rightarrow> 'p \<Rightarrow> 'p list_heap \<Rightarrow> 'p list_heap option"
  assumes rep_slist: "rep h l xs \<Longrightarrow> slist_rep h l xs"
    and init_law: "rep (fwk_slist_init bc l h) l []"
    and frame_law: "rep h l xs \<Longrightarrow> same_outside S h h' \<Longrightarrow> S \<inter> set (l # xs) = {} \<Longrightarrow> rep h' l xs"
    and detached_frame: "detached h n \<Longrightarrow> same_outside S h h' \<Longrightarrow> n \<notin> S \<Longrightarrow> detached h' n"
    and detached_unlinked: "rep h l xs \<Longrightarrow> detached h n \<Longrightarrow> n \<notin> set xs"
    and push_law: "rep h l xs \<Longrightarrow> n \<notin> set (l # xs) \<Longrightarrow> detached h n \<Longrightarrow>
      \<exists>h'. push_tail bc l n h = Some h' \<and> rep h' l (xs @ [n]) \<and> same_outside (set (l # n # xs)) h h'"
    and pop_empty_law: "rep h l [] \<Longrightarrow>
      \<exists>h'. pop_head bc l h = Some (None, h') \<and> rep h' l [] \<and> same_outside {l} h h'"
    and pop_law: "rep h l (x # xs) \<Longrightarrow>
      \<exists>h'. pop_head bc l h = Some (Some x, h') \<and> rep h' l xs \<and> detached h' x \<and>
           same_outside (set (l # x # xs)) h h'"
    and remove_law: "rep h l xs \<Longrightarrow> n \<in> set xs \<Longrightarrow>
      \<exists>h'. remove bc l n h = Some h' \<and> rep h' l (remove1 n xs) \<and> detached h' n \<and>
           same_outside (set (l # xs)) h h'"
begin

text \<open>Pushing a table of free nodes, as the pools of events and subscriptions are set up.\<close>

lemma push_all:
  assumes "rep h l xs" and "distinct ns" and "set ns \<inter> set (l # xs) = {}"
    and "\<And>n. n \<in> set ns \<Longrightarrow> detached h n"
  shows "\<exists>h'. foldM (push_tail bc l) ns h = Some h' \<and> rep h' l (xs @ ns) \<and>
           same_outside (set (l # xs @ ns)) h h'"
  using assms
proof (induction ns arbitrary: h xs)
  case Nil
  then show ?case by simp
next
  case (Cons n ns)
  obtain h1 where h1: "push_tail bc l n h = Some h1" "rep h1 l (xs @ [n])"
      "same_outside (set (l # n # xs)) h h1"
    using push_law [OF Cons.prems(1), of n bc] Cons.prems by auto
  have "\<And>m. m \<in> set ns \<Longrightarrow> detached h1 m"
    using Cons.prems by (auto intro!: detached_frame [OF _ h1(3)])
  then obtain h2 where h2: "foldM (push_tail bc l) ns h1 = Some h2" "rep h2 l ((xs @ [n]) @ ns)"
      "same_outside (set (l # (xs @ [n]) @ ns)) h1 h2"
    using Cons.IH [OF h1(2)] Cons.prems by auto
  have "same_outside (set (l # xs @ n # ns)) h h2"
    by (rule same_outside_trans [OF h1(3) h2(3)]) auto
  then show ?case using h1 h2 by simp
qed

lemma pool_init:
  assumes "distinct ns" and "l \<notin> set ns" and "\<And>n. n \<in> set ns \<Longrightarrow> detached h n"
  shows "\<exists>h'. foldM (push_tail bc l) ns (fwk_slist_init bc l h) = Some h' \<and> rep h' l ns \<and>
           same_outside (set (l # ns)) h h'"
proof -
  have "\<And>n. n \<in> set ns \<Longrightarrow> detached (fwk_slist_init bc l h) n"
    using assms by (auto intro!: detached_frame [OF _ slist_init_outside])
  then obtain h' where h': "foldM (push_tail bc l) ns (fwk_slist_init bc l h) = Some h'"
      "rep h' l ([] @ ns)" "same_outside (set (l # [] @ ns)) (fwk_slist_init bc l h) h'"
    using push_all [OF init_law [of bc l h] assms(1), of bc] assms(2) by auto
  have "same_outside (set (l # ns)) h h'"
    by (rule same_outside_trans [OF slist_init_outside h'(3)]) auto
  then show ?thesis using h' by simp
qed

text \<open>Nodes come out in the order they were pushed.\<close>

lemma drain:
  assumes "rep h l (xs @ ys)"
  shows "\<exists>h'. pop_n (pop_head bc l) (length xs) h = Some (map Some xs, h') \<and> rep h' l ys \<and>
           (\<forall>x\<in>set xs. detached h' x) \<and> same_outside (set (l # xs @ ys)) h h'"
  using assms
proof (induction xs arbitrary: h)
  case Nil
  then show ?case by simp
next
  case (Cons x xs)
  obtain h1 where h1: "pop_head bc l h = Some (Some x, h1)" "rep h1 l (xs @ ys)" "detached h1 x"
      "same_outside (set (l # x # xs @ ys)) h h1"
    using pop_law [of h l x "xs @ ys" bc] Cons.prems by auto
  obtain h2 where h2: "pop_n (pop_head bc l) (length xs) h1 = Some (map Some xs, h2)" "rep h2 l ys"
      "\<forall>x\<in>set xs. detached h2 x" "same_outside (set (l # xs @ ys)) h1 h2"
    using Cons.IH [OF h1(2)] by blast
  have "x \<notin> set (l # xs @ ys)"
    using slist_rep_D(1,2) [OF rep_slist [OF Cons.prems]] by auto
  then have "detached h2 x" by (rule detached_frame [OF h1(3) h2(4)])
  moreover have "same_outside (set (l # (x # xs) @ ys)) h h2"
    by (rule same_outside_trans [OF h1(4) h2(4)]) auto
  ultimately show ?case using h1 h2 by simp
qed

end

lemma slist_pop_head_wide:
  "slist_rep h l (x # xs) \<Longrightarrow>
     \<exists>h'. fwk_slist_pop_head bc l h = Some (Some x, h') \<and> slist_rep h' l xs \<and> slist_detached h' x \<and>
          same_outside (set (l # x # xs)) h h'"
  using slist_pop_head_rep [of h l x xs bc] by (auto intro: same_outside_mono)

lemma slist_pop_head_none:
  "slist_rep h l [] \<Longrightarrow>
     \<exists>h'. fwk_slist_pop_head bc l h = Some (None, h') \<and> slist_rep h' l [] \<and> same_outside {l} h h'"
  by (simp add: slist_pop_head_empty)

lemma detached_frames:
  "slist_detached h n \<Longrightarrow> same_outside S h h' \<Longrightarrow> n \<notin> S \<Longrightarrow> slist_detached h' n"
  "dlist_detached h n \<Longrightarrow> same_outside S h h' \<Longrightarrow> n \<notin> S \<Longrightarrow> dlist_detached h' n"
  by (simp_all add: slist_detached_def dlist_detached_def same_outside_def)

lemma detached_not_member:
  "slist_rep h l xs \<Longrightarrow> slist_detached h n \<Longrightarrow> n \<notin> set xs"
  "dlist_rep h l xs \<Longrightarrow> dlist_detached h n \<Longrightarrow> n \<notin> set xs"
  using slist_linked dlist_slist_rep by (fastforce simp: slist_detached_def dlist_detached_def)+

interpretation sl: intrusive_list slist_rep slist_detached fwk_slist_push_tail fwk_slist_pop_head fwk_slist_remove
  by unfold_locales
    (assumption | rule slist_init_rep slist_push_tail_rep slist_remove_rep slist_pop_head_wide
      slist_pop_head_none | erule (2) slist_rep_frame detached_frames(1) | erule (1) detached_not_member(1))+

interpretation dl: intrusive_list dlist_rep dlist_detached fwk_dlist_push_tail fwk_dlist_pop_head fwk_dlist_remove
  by unfold_locales
    (assumption | erule dlist_slist_rep | rule dlist_init_rep dlist_push_tail_rep dlist_remove_rep dlist_pop_head_rep
      dlist_pop_head_empty | erule (2) dlist_rep_frame detached_frames(2) | erule (1) detached_not_member(2))+

section \<open>Watermark counters\<close>

definition slist_marks_ok :: "'p list_heap \<Rightarrow> 'p \<Rightarrow> 'p list \<Rightarrow> bool" where
  "slist_marks_ok h l xs \<longleftrightarrow>
     unat (current_count (marks_of h l)) = length xs \<and> current_count (marks_of h l) \<le> max_count (marks_of h l)"

lemma marks_increment:
  assumes "unat (current_count m) + 1 < 2 ^ 32"
  shows "unat (current_count (increment_slist_elements_count m)) = unat (current_count m) + 1"
    and "current_count (increment_slist_elements_count m) \<le> max_count (increment_slist_elements_count m)"
  using assms by (simp_all add: increment_slist_elements_count_def Let_def unat_word_ariths)

lemma marks_decrement:
  assumes "current_count m \<noteq> 0" and "current_count m \<le> max_count m"
  shows "unat (current_count (decrement_slist_elements_count m)) = unat (current_count m) - 1"
    and "current_count (decrement_slist_elements_count m) \<le> max_count (decrement_slist_elements_count m)"
proof -
  have "0 < current_count m" using assms(1) by (simp add: word_neq_0_conv)
  then show "unat (current_count (decrement_slist_elements_count m)) = unat (current_count m) - 1"
    using assms(1) by (simp add: decrement_slist_elements_count_def unat_minus_one)
  have "current_count m - 1 \<le> current_count m" using assms(1) by (simp add: word_le_nat_alt unat_minus_one)
  then show "current_count (decrement_slist_elements_count m) \<le> max_count (decrement_slist_elements_count m)"
    using assms(2) by (simp add: decrement_slist_elements_count_def order.trans)
qed

lemma slist_init_marks: "marked_list bc \<Longrightarrow> slist_marks_ok (fwk_slist_init bc l h) l []"
  by (simp add: slist_marks_ok_def fwk_slist_init_def upd_marks_def)

lemma push_tail_marks:
  "fwk_slist_push_tail bc l n h = Some h' \<Longrightarrow> marked_list bc \<Longrightarrow>
     marks_of h' l = increment_slist_elements_count (marks_of h l)"
  by (auto simp: fwk_slist_push_tail_def upd_marks_def Let_def bind_Some_iff)

lemma pop_head_marks:
  "fwk_slist_pop_head bc l h = Some (Some x, h') \<Longrightarrow> marked_list bc \<Longrightarrow>
     marks_of h' l = decrement_slist_elements_count (marks_of h l)"
  by (auto simp: fwk_slist_pop_head_def upd_marks_def Let_def bind_Some_iff split: if_splits)

lemma slist_push_tail_marks_ok:
  assumes "fwk_slist_push_tail bc l n h = Some h'" "marked_list bc" "slist_marks_ok h l xs" "length xs + 1 < 2 ^ 32"
  shows "slist_marks_ok h' l (xs @ [n])"
  using assms marks_increment [of "marks_of h l"] by (simp add: slist_marks_ok_def push_tail_marks)

lemma slist_pop_head_marks_ok:
  assumes "fwk_slist_pop_head bc l h = Some (Some x, h')" "marked_list bc" "slist_marks_ok h l (x # xs)"
  shows "slist_marks_ok h' l xs"
proof -
  have "current_count (marks_of h l) \<noteq> 0" using assms(3) by (auto simp: slist_marks_ok_def)
  then show ?thesis
    using assms marks_decrement [of "marks_of h l"] by (simp add: slist_marks_ok_def pop_head_marks)
qed

section \<open>Properties\<close>

text \<open>C8. A singly-linked list is a FIFO queue. Nodes pushed at the tail of a freshly initialised
  list come out of \<^verbatim>\<open>fwk_list_pop_head\<close> in the order they were pushed, none is lost or
  duplicated, no assertion fails in any build, and at the end the list is empty and every
  popped node has a null link again.\<close>

theorem slist_fifo:
  assumes "distinct ns" and "l \<notin> set ns" and "\<And>n. n \<in> set ns \<Longrightarrow> next_of h n = None"
  shows "\<exists>h1 h2. foldM (fwk_slist_push_tail bc l) ns (fwk_slist_init bc l h) = Some h1 \<and>
           pop_n (fwk_slist_pop_head bc l) (length ns) h1 = Some (map Some ns, h2) \<and>
           fwk_slist_is_empty l h2 = Some True \<and> (\<forall>n\<in>set ns. next_of h2 n = None)"
proof -
  obtain h1 where h1: "foldM (fwk_slist_push_tail bc l) ns (fwk_slist_init bc l h) = Some h1" "slist_rep h1 l ns"
    using sl.pool_init [of ns l h bc] assms by (auto simp: slist_detached_def)
  obtain h2 where "pop_n (fwk_slist_pop_head bc l) (length ns) h1 = Some (map Some ns, h2)"
      "slist_rep h2 l []" "\<forall>n\<in>set ns. slist_detached h2 n"
    using sl.drain [of h1 l ns "[]" bc] h1(2) by auto
  then show ?thesis using h1(1) by (auto simp: slist_detached_def)
qed

definition example_heap :: "nat list_heap" where
  "example_heap = \<lparr>next_of = (\<lambda>_. None), prev_of = (\<lambda>_. None), marks_of = (\<lambda>_. \<lparr>current_count = 0, max_count = 0\<rparr>)\<rparr>"

definition example_build :: build where
  "example_build = \<lparr>strict_checks = True, mode_debug = True, marked_list = True, has_notification = True\<rparr>"

theorem slist_fifo_witness:
  "\<exists>h1 h2. foldM (fwk_slist_push_tail example_build 0) [1, 2, 3] (fwk_slist_init example_build 0 example_heap) = Some h1 \<and>
     pop_n (fwk_slist_pop_head example_build 0) (length [1, 2, 3 :: nat]) h1 = Some (map Some [1, 2, 3], h2) \<and>
     fwk_slist_is_empty 0 h2 = Some True \<and> (\<forall>n\<in>set [1, 2, 3]. next_of h2 n = None)"
  by (rule slist_fifo) (auto simp: example_heap_def)

text \<open>\<^verbatim>\<open>fwk_list_remove\<close> on a doubly-linked list takes exactly the given node out, wherever it
  is: the links of its neighbours are joined (the header, and with it the list's head or tail,
  when the node was first or last), the node's own links become null, and nothing outside the
  list is written. The operation cannot fail an assertion.\<close>

theorem dlist_remove_refines:
  assumes "dlist_rep h l xs" and "n \<in> set xs"
  shows "\<exists>h'. fwk_dlist_remove bc l n h = Some h' \<and> dlist_rep h' l (remove1 n xs) \<and>
           next_of h' n = None \<and> prev_of h' n = None \<and> same_outside (set (l # xs)) h h'"
  using dlist_remove_rep [OF assms, of bc] by (auto simp: dlist_detached_def)

definition example_dlist :: "nat list_heap" where
  "example_dlist = the (foldM (fwk_dlist_push_tail example_build 0) [1, 2] (fwk_slist_init example_build 0 example_heap))"

theorem dlist_remove_refines_witness:
  "\<exists>h'. fwk_dlist_remove example_build 0 2 example_dlist = Some h' \<and> dlist_rep h' 0 (remove1 2 [1, 2]) \<and>
     next_of h' 2 = None \<and> prev_of h' 2 = None \<and> same_outside (set [0, 1, 2]) example_dlist h'"
proof (rule dlist_remove_refines)
  show "dlist_rep example_dlist 0 [1, 2]"
    using dl.pool_init [of "[1, 2]" 0 example_heap example_build]
    by (auto simp: example_dlist_def dlist_detached_def example_heap_def)
qed simp

text \<open>In a build with list marks, \<^verbatim>\<open>current_count\<close> of a singly-linked list is its length and
  \<^verbatim>\<open>max_count\<close> is at least that, after initialisation and after every push and pop, as long as
  the 32-bit counter does not overflow.\<close>

theorem slist_marks_track:
  assumes "marked_list bc" and "slist_marks_ok h l xs" and "length xs + 1 < 2 ^ 32"
  shows "slist_marks_ok (fwk_slist_init bc l h) l [] \<and>
    (\<forall>n h'. fwk_slist_push_tail bc l n h = Some h' \<longrightarrow> slist_marks_ok h' l (xs @ [n])) \<and>
    (\<forall>x ys h'. xs = x # ys \<longrightarrow> fwk_slist_pop_head bc l h = Some (Some x, h') \<longrightarrow> slist_marks_ok h' l ys)"
  using assms by (auto intro: slist_init_marks slist_push_tail_marks_ok slist_pop_head_marks_ok)

theorem slist_marks_track_witness:
  "slist_marks_ok (the (fwk_slist_push_tail example_build 0 1 (fwk_slist_init example_build 0 example_heap))) 0 [1 :: nat]"
proof -
  let ?h = "fwk_slist_init example_build 0 example_heap"
  have "fwk_slist_push_tail example_build 0 1 ?h = Some (the (fwk_slist_push_tail example_build 0 1 ?h))"
    by (simp add: fwk_slist_push_tail_def fwk_slist_init_def example_heap_def fwk_check_def)
  moreover have "marked_list example_build" "slist_marks_ok ?h 0 []"
    by (simp_all add: slist_init_marks example_build_def)
  ultimately show ?thesis using slist_marks_track [of example_build ?h 0 "[]"] by simp
qed

end
