(* ===== verification/Fwk_Module.thy ===== *)
theory Fwk_Module
  imports Fwk_Id Fwk_List
begin

text \<open>
  The module component, \<^verbatim>\<open>framework/src/fwk_module.c\<close>: the table of module and element
  contexts, their creation, the initialise, bind, start and stop stages, identifier
  validation, and binding to an API. \<^verbatim>\<open>fwk_module_start\<close> also sets up the core component and
  is in the theory of the core.

  A firmware image (\<open>fwk_image\<close>) holds what the build system generates and the modules
  provide: the module descriptors with their callbacks, the configuration tables, the build
  switches and the outcome of each memory allocation. Callbacks are functions on the whole
  framework state; the type of that state is left open (an extensible record), so that the
  components built on top of this one extend it. A null callback is \<open>None\<close>, and calling it is
  \<open>None\<close>. An event handler takes the event and the response buffer, \<open>None\<close> when the caller
  left the buffer uninitialised, and returns the buffer it leaves.
\<close>

section \<open>Events\<close>

record fwk_event =
  source_id :: fwk_id
  target_id :: fwk_id
  cookie :: "32 word"
  is_response :: bool
  response_requested :: bool
  is_notification :: bool
  is_delayed_response :: bool
  event_id :: fwk_id
  params :: "8 word list"

record fwk_event_light =
  light_source_id :: fwk_id
  light_target_id :: fwk_id
  light_event_id :: fwk_id
  light_response_requested :: bool

section \<open>Descriptors, configuration and contexts\<close>

text \<open>The addresses of every list header and list node of the framework.\<close>

datatype addr =
    FreeEventQ | IsrEventQ | EventQ
  | ModDelayed nat | ElemDelayed nat nat
  | FreeSubs | ModSubs nat nat | ElemSubs nat nat nat
  | EventNode nat | SubNode nat

datatype module_state = UNINITIALIZED | INITIALIZED | BOUND | STARTED | SUSPENDED

datatype module_stage = STAGE_INITIALIZE | STAGE_BIND | STAGE_START | STAGE_STOP

record 'd fwk_element =
  elem_name :: "string option"
  elem_sub_count :: nat
  elem_data :: "'d option"

datatype ('s, 'd) module_elements =
    NO_ELEMENTS
  | STATIC_ELEMENTS "'d fwk_element list"
  | DYNAMIC_ELEMENTS "(fwk_id \<Rightarrow> 's \<Rightarrow> ('d fwk_element list option \<times> 's) option) option"

record ('s, 'd) module_config =
  cfg_data :: "'d option"
  cfg_elements :: "('s, 'd) module_elements"

record ('s, 'd) fwk_module =
  mod_type :: nat
  api_count :: nat
  event_count :: nat
  notification_count :: nat
  cb_init :: "(fwk_id \<Rightarrow> nat \<Rightarrow> 'd option \<Rightarrow> 's \<Rightarrow> (int \<times> 's) option) option"
  cb_element_init :: "(fwk_id \<Rightarrow> nat \<Rightarrow> 'd \<Rightarrow> 's \<Rightarrow> (int \<times> 's) option) option"
  cb_post_init :: "(fwk_id \<Rightarrow> 's \<Rightarrow> (int \<times> 's) option) option"
  cb_bind :: "(fwk_id \<Rightarrow> nat \<Rightarrow> 's \<Rightarrow> (int \<times> 's) option) option"
  cb_start :: "(fwk_id \<Rightarrow> 's \<Rightarrow> (int \<times> 's) option) option"
  cb_stop :: "(fwk_id \<Rightarrow> 's \<Rightarrow> (int \<times> 's) option) option"
  cb_process_bind_request :: "(fwk_id \<Rightarrow> fwk_id \<Rightarrow> fwk_id \<Rightarrow> nat option \<Rightarrow> 's \<Rightarrow> (int \<times> nat option \<times> 's) option) option"
  cb_process_event :: "(fwk_event \<Rightarrow> fwk_event option \<Rightarrow> 's \<Rightarrow> (int \<times> fwk_event \<times> 's) option) option"
  cb_process_notification :: "(fwk_event \<Rightarrow> fwk_event option \<Rightarrow> 's \<Rightarrow> (int \<times> fwk_event \<times> 's) option) option"

record ('s, 'd) fwk_image =
  image_build :: build
  module_table :: "('s, 'd) fwk_module list"
  module_config_table :: "('s, 'd) module_config list"
  calloc_ok :: "nat \<Rightarrow> nat \<Rightarrow> bool"

text \<open>\<open>e_subs\<close> and \<open>m_subs\<close> are the lengths of \<^verbatim>\<open>subscription_dlist_table\<close>, 0 when it is null.\<close>

record 'd element_ctx =
  e_state :: module_state
  e_desc :: "'d fwk_element"
  e_sub_count :: nat
  e_subs :: nat

record 'd module_context =
  ctx_id :: fwk_id
  ctx_state :: module_state
  element_count :: nat
  element_ctx_table :: "'d element_ctx list"
  m_subs :: nat

record 'd fwk_module_ctx =
  heap :: "addr list_heap"
  allocs :: nat
  in_isr :: bool
  mod_initialized :: bool
  module_ctx_table :: "'d module_context list"
  stage :: module_stage
  bind_id :: fwk_id

abbreviation idx_count :: "('s, 'd) fwk_image \<Rightarrow> nat" where
  "idx_count im \<equiv> length (module_table im)"

abbreviation upd_heap :: "(addr list_heap \<Rightarrow> addr list_heap) \<Rightarrow> ('d, 'z) fwk_module_ctx_scheme \<Rightarrow> ('d, 'z) fwk_module_ctx_scheme" where
  "upd_heap f s \<equiv> s\<lparr>heap := f (heap s)\<rparr>"

definition upd_mod :: "nat \<Rightarrow> ('d module_context \<Rightarrow> 'd module_context) \<Rightarrow> ('d, 'z) fwk_module_ctx_scheme \<Rightarrow> ('d, 'z) fwk_module_ctx_scheme" where
  "upd_mod m f s = s\<lparr>module_ctx_table := (module_ctx_table s)[m := f (module_ctx_table s ! m)]\<rparr>"

definition set_mod_state :: "nat \<Rightarrow> module_state \<Rightarrow> ('d, 'z) fwk_module_ctx_scheme \<Rightarrow> ('d, 'z) fwk_module_ctx_scheme" where
  "set_mod_state m st = upd_mod m (\<lambda>c. c\<lparr>ctx_state := st\<rparr>)"

definition set_elem_state :: "nat \<Rightarrow> nat \<Rightarrow> module_state \<Rightarrow> ('d, 'z) fwk_module_ctx_scheme \<Rightarrow> ('d, 'z) fwk_module_ctx_scheme" where
  "set_elem_state m e st =
     upd_mod m (\<lambda>c. c\<lparr>element_ctx_table := (element_ctx_table c)[e := (element_ctx_table c ! e)\<lparr>e_state := st\<rparr>]\<rparr>)"

section \<open>Creating the contexts\<close>

definition fwk_mm_calloc :: "('s, 'd) fwk_image \<Rightarrow> nat \<Rightarrow> ('e, 'z) fwk_module_ctx_scheme \<Rightarrow> ('e, 'z) fwk_module_ctx_scheme option" where
  "fwk_mm_calloc im num s =
     (if calloc_ok im (allocs s) num then Some (s\<lparr>allocs := allocs s + 1\<rparr>) else None)"

fun fwk_module_count_elements :: "'d fwk_element list \<Rightarrow> nat option" where
  "fwk_module_count_elements [] = None"
| "fwk_module_count_elements (e # es) =
     (if elem_name e = None then Some 0 else map_option Suc (fwk_module_count_elements es))"

definition fwk_module_init_subscriptions ::
  "('s, 'd) fwk_image \<Rightarrow> (nat \<Rightarrow> addr) \<Rightarrow> nat \<Rightarrow> ('e, 'z) fwk_module_ctx_scheme \<Rightarrow> ('e, 'z) fwk_module_ctx_scheme option" where
  "fwk_module_init_subscriptions im lst count s =
     do {
       s \<leftarrow> fwk_mm_calloc im count s;
       Some (upd_heap (fold (\<lambda>i. fwk_slist_init (image_build im) (lst i)) [0..<count]) s)
     }"

definition fwk_module_init_element_ctx ::
  "('s, 'd) fwk_image \<Rightarrow> nat \<Rightarrow> nat \<Rightarrow> 'e fwk_element \<Rightarrow> nat \<Rightarrow> ('e, 'z) fwk_module_ctx_scheme \<Rightarrow>
   ('e element_ctx \<times> ('e, 'z) fwk_module_ctx_scheme) option" where
  "fwk_module_init_element_ctx im m e element ncount s =
     do {
       let ctx = \<lparr>e_state = UNINITIALIZED, e_desc = element, e_sub_count = elem_sub_count element, e_subs = 0\<rparr>;
       let s = upd_heap (fwk_slist_init (image_build im) (ElemDelayed m e)) s;
       if has_notification (image_build im) \<and> ncount > 0
       then do {
         s \<leftarrow> fwk_module_init_subscriptions im (ElemSubs m e) ncount s;
         Some (ctx\<lparr>e_subs := ncount\<rparr>, s)
       }
       else Some (ctx, s)
     }"

definition fwk_module_init_element_ctxs ::
  "('s, 'd) fwk_image \<Rightarrow> nat \<Rightarrow> 'e fwk_element list \<Rightarrow> nat \<Rightarrow> ('e, 'z) fwk_module_ctx_scheme \<Rightarrow>
   ('e, 'z) fwk_module_ctx_scheme option" where
  "fwk_module_init_element_ctxs im m elements ncount s =
     do {
       count \<leftarrow> fwk_module_count_elements elements;
       s \<leftarrow> fwk_mm_calloc im count s;
       let s = upd_mod m (\<lambda>c. c\<lparr>element_count := count, element_ctx_table := []\<rparr>) s;
       foldM (\<lambda>i s. do {
           (ectx, s) \<leftarrow> fwk_module_init_element_ctx im m i (elements ! i) ncount s;
           Some (upd_mod m (\<lambda>c. c\<lparr>element_ctx_table := element_ctx_table c @ [ectx]\<rparr>) s)
         }) [0..<count] s
     }"

definition image_notifications :: "('s, 'd) fwk_image \<Rightarrow> nat \<Rightarrow> nat" where
  "image_notifications im m = (if has_notification (image_build im) then notification_count (module_table im ! m) else 0)"

definition fwk_module_init_one ::
  "('s, 'd) fwk_image \<Rightarrow> nat \<Rightarrow> ('d, 'z) fwk_module_ctx_scheme \<Rightarrow> ('d, 'z) fwk_module_ctx_scheme option" where
  "fwk_module_init_one im i s =
     do {
       let s = upd_mod i (\<lambda>_. \<lparr>ctx_id = FWK_ID_MODULE (of_nat i), ctx_state = UNINITIALIZED, element_count = 0,
                              element_ctx_table = [], m_subs = 0\<rparr>) s;
       let s = upd_heap (fwk_slist_init (image_build im) (ModDelayed i)) s;
       s \<leftarrow> (case cfg_elements (module_config_table im ! i) of
               STATIC_ELEMENTS table \<Rightarrow> fwk_module_init_element_ctxs im i table (image_notifications im i) s
             | _ \<Rightarrow> Some s);
       if image_notifications im i > 0
       then do {
         s \<leftarrow> fwk_module_init_subscriptions im (ModSubs i) (image_notifications im i) s;
         Some (upd_mod i (\<lambda>c. c\<lparr>m_subs := image_notifications im i\<rparr>) s)
       }
       else Some s
     }"

definition fwk_module_init ::
  "('s, 'd) fwk_image \<Rightarrow> ('d, 'z) fwk_module_ctx_scheme \<Rightarrow> ('d, 'z) fwk_module_ctx_scheme option" where
  "fwk_module_init im s = foldM (fwk_module_init_one im) [0..<idx_count im] s"

definition fwk_module_reset ::
  "('s, 'd) fwk_image \<Rightarrow> ('d, 'z) fwk_module_ctx_scheme \<Rightarrow> ('d, 'z) fwk_module_ctx_scheme option" where
  "fwk_module_reset im s = fwk_module_init im s"

section \<open>The initialise stage\<close>

text \<open>\<^verbatim>\<open>fwk_trap\<close> never returns: \<open>None\<close>. A loop reads its bound \<^verbatim>\<open>element_count\<close> on entry.\<close>

definition FWK_MODULE_TYPE_COUNT :: nat where "FWK_MODULE_TYPE_COUNT = 4"

definition FWK_MODULE_BIND_ROUND_MAX :: nat where "FWK_MODULE_BIND_ROUND_MAX = 1"

definition fwk_module_init_element ::
  "('s, 'd) fwk_image \<Rightarrow> nat \<Rightarrow> (fwk_id \<Rightarrow> nat \<Rightarrow> 'd \<Rightarrow> ('d, 'z) fwk_module_ctx_scheme \<Rightarrow> (int \<times> ('d, 'z) fwk_module_ctx_scheme) option) \<Rightarrow>
   nat \<Rightarrow> ('d, 'z) fwk_module_ctx_scheme \<Rightarrow> ('d, 'z) fwk_module_ctx_scheme option" where
  "fwk_module_init_element im m element_init i s =
     do {
       element_id \<leftarrow> fwk_id_build_element_id (ctx_id (module_ctx_table s ! m)) (of_nat i);
       let element = e_desc (element_ctx_table (module_ctx_table s ! m) ! i);
       let s = s\<lparr>bind_id := element_id\<rparr>;
       data \<leftarrow> elem_data element;
       (status, s) \<leftarrow> element_init element_id (elem_sub_count element) data s;
       fwk_assert (status = FWK_SUCCESS);
       Some (set_elem_state m i INITIALIZED s)
     }"

type_synonym ('d, 'z) image = "(('d, 'z) fwk_module_ctx_scheme, 'd) fwk_image"

definition fwk_module_init_elements ::
  "('d, 'z) image \<Rightarrow> nat \<Rightarrow> ('d, 'z) fwk_module_ctx_scheme \<Rightarrow> ('d, 'z) fwk_module_ctx_scheme option" where
  "fwk_module_init_elements im m s =
     do {
       element_init \<leftarrow> cb_element_init (module_table im ! m);
       foldM (fwk_module_init_element im m element_init) [0..<element_count (module_ctx_table s ! m)] s
     }"

definition fwk_module_generate_elements ::
  "('d, 'z) image \<Rightarrow> nat \<Rightarrow> ('d, 'z) fwk_module_ctx_scheme \<Rightarrow> ('d, 'z) fwk_module_ctx_scheme option" where
  "fwk_module_generate_elements im m s =
     (case cfg_elements (module_config_table im ! m) of
        DYNAMIC_ELEMENTS gen \<Rightarrow>
          do {
            generator \<leftarrow> gen;
            (elements, s) \<leftarrow> generator (ctx_id (module_ctx_table s ! m)) s;
            table \<leftarrow> elements;
            fwk_module_init_element_ctxs im m table (image_notifications im m) s
          }
      | _ \<Rightarrow> Some s)"

definition fwk_module_init_module ::
  "('d, 'z) image \<Rightarrow> nat \<Rightarrow> ('d, 'z) fwk_module_ctx_scheme \<Rightarrow> ('d, 'z) fwk_module_ctx_scheme option" where
  "fwk_module_init_module im m s =
     do {
       let desc = module_table im ! m;
       fwk_assert (mod_type desc < FWK_MODULE_TYPE_COUNT);
       init \<leftarrow> cb_init desc;
       fwk_assert ((api_count desc = 0) = (cb_process_bind_request desc = None));
       s \<leftarrow> fwk_module_generate_elements im m s;
       let ctx = module_ctx_table s ! m;
       (status, s) \<leftarrow> init (ctx_id ctx) (element_count ctx) (cfg_data (module_config_table im ! m)) s;
       fwk_assert (status = FWK_SUCCESS);
       s \<leftarrow> (if element_count (module_ctx_table s ! m) > 0 then fwk_module_init_elements im m s else Some s);
       s \<leftarrow> (case cb_post_init desc of
               None \<Rightarrow> Some s
             | Some post_init \<Rightarrow>
                 do {
                   (status, s) \<leftarrow> post_init (ctx_id (module_ctx_table s ! m)) s;
                   fwk_assert (status = FWK_SUCCESS);
                   Some s
                 });
       Some (set_mod_state m INITIALIZED s)
     }"

definition fwk_module_init_modules ::
  "('d, 'z) image \<Rightarrow> ('d, 'z) fwk_module_ctx_scheme \<Rightarrow> ('d, 'z) fwk_module_ctx_scheme option" where
  "fwk_module_init_modules im s = foldM (fwk_module_init_module im) [0..<idx_count im] s"

section \<open>The bind, start and stop stages\<close>

text \<open>Run a callback for one entity, then set its state when the callback succeeds.\<close>

definition fwk_module_bind_element ::
  "('d, 'z) image \<Rightarrow> nat \<Rightarrow> nat \<Rightarrow> nat \<Rightarrow> ('d, 'z) fwk_module_ctx_scheme \<Rightarrow> (int \<times> ('d, 'z) fwk_module_ctx_scheme) option" where
  "fwk_module_bind_element im m round i s =
     do {
       element_id \<leftarrow> fwk_id_build_element_id (ctx_id (module_ctx_table s ! m)) (of_nat i);
       let s = s\<lparr>bind_id := element_id\<rparr>;
       bind_cb \<leftarrow> cb_bind (module_table im ! m);
       (status, s) \<leftarrow> bind_cb element_id round s;
       ok \<leftarrow> fwk_expect (image_build im) (status = FWK_SUCCESS);
       if \<not> ok then Some (status, s)
       else Some (FWK_SUCCESS, if round = FWK_MODULE_BIND_ROUND_MAX then set_elem_state m i BOUND s else s)
     }"

definition fwk_module_bind_elements ::
  "('d, 'z) image \<Rightarrow> nat \<Rightarrow> nat \<Rightarrow> ('d, 'z) fwk_module_ctx_scheme \<Rightarrow> (int \<times> ('d, 'z) fwk_module_ctx_scheme) option" where
  "fwk_module_bind_elements im m round s =
     loopM (fwk_module_bind_element im m round) [0..<element_count (module_ctx_table s ! m)] s"

definition fwk_module_bind_module ::
  "('d, 'z) image \<Rightarrow> nat \<Rightarrow> nat \<Rightarrow> ('d, 'z) fwk_module_ctx_scheme \<Rightarrow> (int \<times> ('d, 'z) fwk_module_ctx_scheme) option" where
  "fwk_module_bind_module im round m s =
     (case cb_bind (module_table im ! m) of
        None \<Rightarrow> Some (FWK_SUCCESS, set_mod_state m BOUND s)
      | Some bind_cb \<Rightarrow>
          do {
            let s = s\<lparr>bind_id := ctx_id (module_ctx_table s ! m)\<rparr>;
            (status, s) \<leftarrow> bind_cb (ctx_id (module_ctx_table s ! m)) round s;
            ok \<leftarrow> fwk_expect (image_build im) (status = FWK_SUCCESS);
            if \<not> ok then Some (status, s)
            else fwk_module_bind_elements im m round
                   (if round = FWK_MODULE_BIND_ROUND_MAX then set_mod_state m BOUND s else s)
          })"

definition fwk_module_bind_modules ::
  "('d, 'z) image \<Rightarrow> nat \<Rightarrow> ('d, 'z) fwk_module_ctx_scheme \<Rightarrow> (int \<times> ('d, 'z) fwk_module_ctx_scheme) option" where
  "fwk_module_bind_modules im round s = loopM (fwk_module_bind_module im round) [0..<idx_count im] s"

text \<open>The optional callback \<^verbatim>\<open>start\<close> or \<^verbatim>\<open>stop\<close>, as \<^verbatim>\<open>fwk_module_start_*\<close> and \<^verbatim>\<open>fwk_module_stop_*\<close> call it.\<close>

definition call_optional ::
  "build \<Rightarrow> (fwk_id \<Rightarrow> 's \<Rightarrow> (int \<times> 's) option) option \<Rightarrow> fwk_id \<Rightarrow> 's \<Rightarrow> (int \<times> 's) option" where
  "call_optional bc cb i s =
     (case cb of
        None \<Rightarrow> Some (FWK_SUCCESS, s)
      | Some f \<Rightarrow>
          do {
            (status, s) \<leftarrow> f i s;
            ok \<leftarrow> fwk_expect bc (status = FWK_SUCCESS);
            Some (if ok then FWK_SUCCESS else status, s)
          })"

definition fwk_module_start_element ::
  "('d, 'z) image \<Rightarrow> nat \<Rightarrow> nat \<Rightarrow> ('d, 'z) fwk_module_ctx_scheme \<Rightarrow> (int \<times> ('d, 'z) fwk_module_ctx_scheme) option" where
  "fwk_module_start_element im m i s =
     do {
       element_id \<leftarrow> fwk_id_build_element_id (ctx_id (module_ctx_table s ! m)) (of_nat i);
       (status, s) \<leftarrow> call_optional (image_build im) (cb_start (module_table im ! m)) element_id s;
       if status \<noteq> FWK_SUCCESS then Some (status, s) else Some (FWK_SUCCESS, set_elem_state m i STARTED s)
     }"

definition fwk_module_start_elements ::
  "('d, 'z) image \<Rightarrow> nat \<Rightarrow> ('d, 'z) fwk_module_ctx_scheme \<Rightarrow> (int \<times> ('d, 'z) fwk_module_ctx_scheme) option" where
  "fwk_module_start_elements im m s =
     loopM (fwk_module_start_element im m) [0..<element_count (module_ctx_table s ! m)] s"

definition fwk_module_start_module ::
  "('d, 'z) image \<Rightarrow> nat \<Rightarrow> ('d, 'z) fwk_module_ctx_scheme \<Rightarrow> (int \<times> ('d, 'z) fwk_module_ctx_scheme) option" where
  "fwk_module_start_module im m s =
     do {
       (status, s) \<leftarrow> call_optional (image_build im) (cb_start (module_table im ! m)) (ctx_id (module_ctx_table s ! m)) s;
       if status \<noteq> FWK_SUCCESS then Some (status, s)
       else fwk_module_start_elements im m (set_mod_state m STARTED s)
     }"

definition start_modules ::
  "('d, 'z) image \<Rightarrow> ('d, 'z) fwk_module_ctx_scheme \<Rightarrow> (int \<times> ('d, 'z) fwk_module_ctx_scheme) option" where
  "start_modules im s = loopM (fwk_module_start_module im) [0..<idx_count im] s"

definition fwk_module_stop_element ::
  "('d, 'z) image \<Rightarrow> nat \<Rightarrow> nat \<Rightarrow> ('d, 'z) fwk_module_ctx_scheme \<Rightarrow> (int \<times> ('d, 'z) fwk_module_ctx_scheme) option" where
  "fwk_module_stop_element im m i s =
     do {
       element_id \<leftarrow> fwk_id_build_element_id (ctx_id (module_ctx_table s ! m)) (of_nat i);
       (status, s) \<leftarrow> call_optional (image_build im) (cb_stop (module_table im ! m)) element_id s;
       if status \<noteq> FWK_SUCCESS then Some (status, s) else Some (FWK_SUCCESS, set_elem_state m i SUSPENDED s)
     }"

definition fwk_module_stop_elements ::
  "('d, 'z) image \<Rightarrow> nat \<Rightarrow> ('d, 'z) fwk_module_ctx_scheme \<Rightarrow> (int \<times> ('d, 'z) fwk_module_ctx_scheme) option" where
  "fwk_module_stop_elements im m s =
     loopM (fwk_module_stop_element im m) [0..<element_count (module_ctx_table s ! m)] s"

definition fwk_module_stop_module ::
  "('d, 'z) image \<Rightarrow> nat \<Rightarrow> ('d, 'z) fwk_module_ctx_scheme \<Rightarrow> (int \<times> ('d, 'z) fwk_module_ctx_scheme) option" where
  "fwk_module_stop_module im m s =
     do {
       (status, s) \<leftarrow> call_optional (image_build im) (cb_stop (module_table im ! m)) (ctx_id (module_ctx_table s ! m)) s;
       if status \<noteq> FWK_SUCCESS then Some (status, s)
       else fwk_module_stop_elements im m (set_mod_state m SUSPENDED s)
     }"

definition stop_modules ::
  "('d, 'z) image \<Rightarrow> ('d, 'z) fwk_module_ctx_scheme \<Rightarrow> (int \<times> ('d, 'z) fwk_module_ctx_scheme) option" where
  "stop_modules im s = loopM (fwk_module_stop_module im) [0..<idx_count im] s"

definition fwk_module_stop ::
  "('d, 'z) image \<Rightarrow> ('d, 'z) fwk_module_ctx_scheme \<Rightarrow> (int \<times> ('d, 'z) fwk_module_ctx_scheme) option" where
  "fwk_module_stop im s =
     (if \<not> mod_initialized s then Some (FWK_E_STATE, s)
      else stop_modules im (s\<lparr>stage := STAGE_STOP\<rparr>))"

section \<open>Lookups and identifier validation\<close>

text \<open>
  A context pointer is an index of the table (a pair for an element); forming one beyond the
  table is \<open>None\<close>. A pointer to which a result is written is the value it points to, \<open>None\<close>
  for a null pointer, and is returned updated.
\<close>

definition fwk_module_get_ctx :: "('s, 'd) fwk_image \<Rightarrow> fwk_id \<Rightarrow> nat option" where
  "fwk_module_get_ctx im i =
     do {
       m \<leftarrow> fwk_id_get_module_idx i;
       fwk_assert (unat m < idx_count im);
       Some (unat m)
     }"

definition fwk_module_get_element_ctx :: "('s, 'd) fwk_image \<Rightarrow> fwk_id \<Rightarrow> ('e, 'z) fwk_module_ctx_scheme \<Rightarrow> (nat \<times> nat) option" where
  "fwk_module_get_element_ctx im i s =
     do {
       m \<leftarrow> fwk_module_get_ctx im i;
       let e = unat (id_element_idx i);
       fwk_assert (e < length (element_ctx_table (module_ctx_table s ! m)));
       Some (m, e)
     }"

definition fwk_module_is_valid_module_id :: "('s, 'd) fwk_image \<Rightarrow> fwk_id \<Rightarrow> bool option" where
  "fwk_module_is_valid_module_id im i =
     do {
       is_mod \<leftarrow> fwk_id_is_type i FWK_ID_TYPE_MODULE;
       if \<not> is_mod then Some False
       else do {
         m \<leftarrow> fwk_id_get_module_idx i;
         Some (unat m < idx_count im)
       }
     }"

definition fwk_module_is_valid_element_id :: "('s, 'd) fwk_image \<Rightarrow> fwk_id \<Rightarrow> ('e, 'z) fwk_module_ctx_scheme \<Rightarrow> bool option" where
  "fwk_module_is_valid_element_id im i s =
     do {
       is_elem \<leftarrow> fwk_id_is_type i FWK_ID_TYPE_ELEMENT;
       if \<not> is_elem then Some False
       else do {
         m \<leftarrow> fwk_id_get_module_idx i;
         if unat m \<ge> idx_count im then Some False
         else do {
           e \<leftarrow> fwk_id_get_element_idx i;
           Some (unat e < element_count (module_ctx_table s ! unat m))
         }
       }
     }"

definition fwk_module_is_valid_sub_element_id :: "('s, 'd) fwk_image \<Rightarrow> fwk_id \<Rightarrow> ('e, 'z) fwk_module_ctx_scheme \<Rightarrow> bool option" where
  "fwk_module_is_valid_sub_element_id im i s =
     do {
       is_sub \<leftarrow> fwk_id_is_type i FWK_ID_TYPE_SUB_ELEMENT;
       if \<not> is_sub then Some False
       else do {
         m \<leftarrow> fwk_id_get_module_idx i;
         if unat m \<ge> idx_count im then Some False
         else do {
           let ctx = module_ctx_table s ! unat m;
           e \<leftarrow> fwk_id_get_element_idx i;
           if unat e \<ge> element_count ctx then Some False
           else do {
             j \<leftarrow> fwk_id_get_sub_element_idx i;
             Some (unat j < e_sub_count (element_ctx_table ctx ! unat e))
           }
         }
       }
     }"

definition fwk_module_is_valid_entity_id :: "('s, 'd) fwk_image \<Rightarrow> fwk_id \<Rightarrow> ('e, 'z) fwk_module_ctx_scheme \<Rightarrow> bool option" where
  "fwk_module_is_valid_entity_id im i s =
     do {
       t \<leftarrow> fwk_id_get_type i;
       if t = FWK_ID_TYPE_MODULE then fwk_module_is_valid_module_id im i
       else if t = FWK_ID_TYPE_ELEMENT then fwk_module_is_valid_element_id im i s
       else if t = FWK_ID_TYPE_SUB_ELEMENT then fwk_module_is_valid_sub_element_id im i s
       else Some False
     }"

definition fwk_module_is_valid_api_id :: "('s, 'd) fwk_image \<Rightarrow> fwk_id \<Rightarrow> bool option" where
  "fwk_module_is_valid_api_id im i =
     do {
       is_api \<leftarrow> fwk_id_is_type i FWK_ID_TYPE_API;
       if \<not> is_api then Some False
       else do {
         m \<leftarrow> fwk_id_get_module_idx i;
         if unat m \<ge> idx_count im then Some False
         else do {
           a \<leftarrow> fwk_id_get_api_idx i;
           Some (unat a < api_count (module_table im ! unat m))
         }
       }
     }"

definition fwk_module_is_valid_event_id :: "('s, 'd) fwk_image \<Rightarrow> fwk_id \<Rightarrow> bool option" where
  "fwk_module_is_valid_event_id im i =
     do {
       is_event \<leftarrow> fwk_id_is_type i FWK_ID_TYPE_EVENT;
       if \<not> is_event then Some False
       else do {
         m \<leftarrow> fwk_id_get_module_idx i;
         if unat m \<ge> idx_count im then Some False
         else do {
           e \<leftarrow> fwk_id_get_event_idx i;
           Some (unat e < event_count (module_table im ! unat m))
         }
       }
     }"

definition fwk_module_is_valid_notification_id :: "('s, 'd) fwk_image \<Rightarrow> fwk_id \<Rightarrow> bool option" where
  "fwk_module_is_valid_notification_id im i =
     (if has_notification (image_build im)
      then do {
        is_ntf \<leftarrow> fwk_id_is_type i FWK_ID_TYPE_NOTIFICATION;
        if \<not> is_ntf then Some False
        else do {
          m \<leftarrow> fwk_id_get_module_idx i;
          if unat m \<ge> idx_count im then Some False
          else do {
            n \<leftarrow> fwk_id_get_notification_idx i;
            Some (unat n < notification_count (module_table im ! unat m))
          }
        }
      }
      else Some False)"

definition fwk_module_get_state ::
  "('s, 'd) fwk_image \<Rightarrow> fwk_id \<Rightarrow> module_state option \<Rightarrow> ('e, 'z) fwk_module_ctx_scheme \<Rightarrow> (int \<times> module_state option) option" where
  "fwk_module_get_state im i state s =
     (if state = None then Some (FWK_E_PARAM, state)
      else do {
        elem \<leftarrow> fwk_module_is_valid_element_id im i s;
        elem_or_sub \<leftarrow> (if elem then Some True else fwk_module_is_valid_sub_element_id im i s);
        if elem_or_sub
        then do {
          (m, e) \<leftarrow> fwk_module_get_element_ctx im i s;
          Some (FWK_SUCCESS, Some (e_state (element_ctx_table (module_ctx_table s ! m) ! e)))
        }
        else do {
          is_mod \<leftarrow> fwk_module_is_valid_module_id im i;
          if is_mod
          then do {
            m \<leftarrow> fwk_module_get_ctx im i;
            Some (FWK_SUCCESS, Some (ctx_state (module_ctx_table s ! m)))
          }
          else Some (FWK_E_PARAM, state)
        }
      })"

definition fwk_module_get_element_count ::
  "('s, 'd) fwk_image \<Rightarrow> fwk_id \<Rightarrow> nat option \<Rightarrow> ('e, 'z) fwk_module_ctx_scheme \<Rightarrow> (int \<times> nat option) option" where
  "fwk_module_get_element_count im i count s =
     (if count \<noteq> None
      then do {
        v \<leftarrow> fwk_module_is_valid_module_id im i;
        if v
        then do {
          m \<leftarrow> fwk_module_get_ctx im i;
          Some (FWK_SUCCESS, Some (element_count (module_ctx_table s ! m)))
        }
        else Some (FWK_E_PARAM, count)
      }
      else Some (FWK_E_DATA, count))"

definition fwk_module_get_sub_element_count ::
  "('s, 'd) fwk_image \<Rightarrow> fwk_id \<Rightarrow> nat option \<Rightarrow> ('e, 'z) fwk_module_ctx_scheme \<Rightarrow> (int \<times> nat option) option" where
  "fwk_module_get_sub_element_count im i count s =
     (if count \<noteq> None
      then do {
        v \<leftarrow> fwk_module_is_valid_element_id im i s;
        if v
        then do {
          (m, e) \<leftarrow> fwk_module_get_element_ctx im i s;
          Some (FWK_SUCCESS, Some (e_sub_count (element_ctx_table (module_ctx_table s ! m) ! e)))
        }
        else Some (FWK_E_PARAM, count)
      }
      else Some (FWK_E_DATA, count))"

definition fwk_module_get_element_name ::
  "('s, 'd) fwk_image \<Rightarrow> fwk_id \<Rightarrow> ('e, 'z) fwk_module_ctx_scheme \<Rightarrow> string option option" where
  "fwk_module_get_element_name im i s =
     do {
       v \<leftarrow> fwk_module_is_valid_element_id im i s;
       if v
       then do {
         (m, e) \<leftarrow> fwk_module_get_element_ctx im i s;
         Some (elem_name (e_desc (element_ctx_table (module_ctx_table s ! m) ! e)))
       }
       else do {
         fwk_unexpected (image_build im);
         Some None
       }
     }"

definition fwk_module_get_data ::
  "('s, 'd) fwk_image \<Rightarrow> fwk_id \<Rightarrow> ('d, 'z) fwk_module_ctx_scheme \<Rightarrow> 'd option option" where
  "fwk_module_get_data im i s =
     do {
       elem \<leftarrow> fwk_module_is_valid_element_id im i s;
       elem_or_sub \<leftarrow> (if elem then Some True else fwk_module_is_valid_sub_element_id im i s);
       if elem_or_sub
       then do {
         (m, e) \<leftarrow> fwk_module_get_element_ctx im i s;
         Some (elem_data (e_desc (element_ctx_table (module_ctx_table s ! m) ! e)))
       }
       else do {
         is_mod \<leftarrow> fwk_module_is_valid_module_id im i;
         if is_mod
         then do {
           m \<leftarrow> fwk_module_get_ctx im i;
           Some (cfg_data (module_config_table im ! m))
         }
         else do {
           fwk_unexpected (image_build im);
           Some None
         }
       }
     }"

definition bind_error :: "build \<Rightarrow> int \<Rightarrow> 'a \<Rightarrow> 's \<Rightarrow> (int \<times> 'a \<times> 's) option" where
  "bind_error bc status api s = do { fwk_check bc False; Some (status, api, s) }"

definition fwk_module_bind ::
  "('d, 'z) image \<Rightarrow> fwk_id \<Rightarrow> fwk_id \<Rightarrow> nat option option \<Rightarrow> ('d, 'z) fwk_module_ctx_scheme \<Rightarrow>
   (int \<times> nat option option \<times> ('d, 'z) fwk_module_ctx_scheme) option" where
  "fwk_module_bind im target api_id api s =
     do {
       v \<leftarrow> fwk_module_is_valid_entity_id im target s;
       if \<not> v then bind_error (image_build im) FWK_E_PARAM api s else do {
       v \<leftarrow> fwk_module_is_valid_api_id im api_id;
       if \<not> v then bind_error (image_build im) FWK_E_PARAM api s else do {
       tm \<leftarrow> fwk_id_get_module_idx target;
       am \<leftarrow> fwk_id_get_module_idx api_id;
       if tm \<noteq> am then bind_error (image_build im) FWK_E_PARAM api s else
       case api of
         None \<Rightarrow> bind_error (image_build im) FWK_E_PARAM api s
       | Some p \<Rightarrow> do {
           m \<leftarrow> fwk_module_get_ctx im target;
           if (stage s \<noteq> STAGE_INITIALIZE \<or> ctx_state (module_ctx_table s ! m) \<noteq> INITIALIZED) \<and> stage s \<noteq> STAGE_BIND
           then bind_error (image_build im) FWK_E_STATE api s
           else do {
             process_bind_request \<leftarrow> cb_process_bind_request (module_table im ! m);
             (status, p, s) \<leftarrow> process_bind_request (bind_id s) target api_id p s;
             ok \<leftarrow> fwk_expect (image_build im) (status = FWK_SUCCESS);
             if \<not> ok then Some (status, Some p, s)
             else if p = None then bind_error (image_build im) FWK_E_HANDLER (Some p) s
             else Some (FWK_SUCCESS, Some p, s)
           }
         }
       }}}"

end
