(* ===== verification/Fwk_Pool.thy ===== *)
theory Fwk_Pool
  imports Fwk_List
begin

text \<open>
  A pool of nodes shared by several lists: the event structures of the core move between the
  free, event, interrupt and delayed-response lists, the subscriptions between the free list
  and the subscription lists. At any moment every node is on exactly one list or held by the
  code that took it off one. The lemmas are proved once for both kinds of list.
\<close>

definition pool ::
  "('p list_heap \<Rightarrow> 'p \<Rightarrow> 'p list \<Rightarrow> bool) \<Rightarrow> ('p list_heap \<Rightarrow> 'p \<Rightarrow> bool) \<Rightarrow>
   'p set \<Rightarrow> 'p set \<Rightarrow> 'p list_heap \<Rightarrow> ('p \<Rightarrow> 'p list) \<Rightarrow> 'p set \<Rightarrow> bool" where
  "pool rep detached H N h Q held \<longleftrightarrow>
     H \<inter> N = {} \<and> (\<forall>l\<in>H. rep h l (Q l)) \<and>
     (\<forall>l\<in>H. \<forall>k\<in>H. l \<noteq> k \<longrightarrow> set (Q l) \<inter> set (Q k) = {}) \<and>
     (\<forall>l\<in>H. set (Q l) \<inter> held = {}) \<and> (\<forall>n\<in>held. detached h n) \<and>
     (\<Union>l\<in>H. set (Q l)) \<union> held = N"

lemma poolD:
  assumes "pool rep detached H N h Q held"
  shows "H \<inter> N = {}" "l \<in> H \<Longrightarrow> rep h l (Q l)" "l \<in> H \<Longrightarrow> k \<in> H \<Longrightarrow> l \<noteq> k \<Longrightarrow> set (Q l) \<inter> set (Q k) = {}"
    "l \<in> H \<Longrightarrow> set (Q l) \<inter> held = {}" "n \<in> held \<Longrightarrow> detached h n" "l \<in> H \<Longrightarrow> set (Q l) \<subseteq> N" "held \<subseteq> N"
    "(\<Union>l\<in>H. set (Q l)) \<union> held = N"
  using assms by (auto simp: pool_def)

lemma union_fun_upd: "l \<in> H \<Longrightarrow> (\<Union>k\<in>H. set ((Q(l := xs)) k)) = (\<Union>k\<in>H - {l}. set (Q k)) \<union> set xs"
  by (auto split: if_splits)

context intrusive_list
begin

text \<open>The lists other than the one operated on, and the nodes held, are not disturbed.\<close>

lemma pool_other:
  assumes P: "pool rep detached H N h Q held" and l: "l \<in> H"
    and h': "same_outside (insert l (set (Q l) \<union> X)) h h'" and X: "X \<subseteq> held"
    and k: "k \<in> H" "k \<noteq> l"
  shows "rep h' k (Q k)"
proof (rule frame_law [OF poolD(2) [OF P k(1)] h'])
  have "k \<notin> N" using poolD(1) [OF P] k by blast
  moreover have "insert l (set (Q l) \<union> X) - {l} \<subseteq> N" using poolD(6) [OF P l] poolD(7) [OF P] X by blast
  moreover have "l \<notin> set (Q k)" using poolD(1) [OF P] poolD(6) [OF P k(1)] l by blast
  ultimately show "insert l (set (Q l) \<union> X) \<inter> set (k # Q k) = {}"
    using poolD(3) [OF P l k(1)] poolD(4) [OF P k(1)] k(2) X by auto
qed

lemma pool_held:
  assumes P: "pool rep detached H N h Q held" and l: "l \<in> H"
    and h': "same_outside (insert l (set (Q l) \<union> X)) h h'" and n: "n \<in> held" "n \<notin> X"
  shows "detached h' n"
proof (rule detached_frame [OF poolD(5) [OF P n(1)] h'])
  have "n \<noteq> l" using poolD(1,7) [OF P] l n by blast
  then show "n \<notin> insert l (set (Q l) \<union> X)" using poolD(4) [OF P l] n by auto
qed

lemma pool_pop:
  assumes P: "pool rep detached H N h Q held" and l: "l \<in> H" and Q: "Q l = x # xs"
  shows "\<exists>h'. pop_head bc l h = Some (Some x, h') \<and> pool rep detached H N h' (Q(l := xs)) (insert x held)"
proof -
  have "rep h l (x # xs)" using poolD(2) [OF P l] Q by simp
  from pop_law [OF this, of bc] obtain h' where h': "pop_head bc l h = Some (Some x, h')" "rep h' l xs" "detached h' x"
      "same_outside (set (l # x # xs)) h h'" by blast
  have dist: "x \<notin> set xs" using slist_rep_D(2) [OF rep_slist [OF \<open>rep h l (x # xs)\<close>]] by simp
  have so: "same_outside (insert l (set (Q l) \<union> {})) h h'" using h'(4) Q by simp
  have "pool rep detached H N h' (Q(l := xs)) (insert x held)"
    unfolding pool_def
  proof (intro conjI ballI impI)
    show "H \<inter> N = {}" by (rule poolD(1) [OF P])
    show "rep h' k ((Q(l := xs)) k)" if "k \<in> H" for k
      using pool_other [OF P l so _ that] h'(2) by (cases "k = l") auto
    show "set ((Q(l := xs)) a) \<inter> set ((Q(l := xs)) b) = {}" if "a \<in> H" "b \<in> H" "a \<noteq> b" for a b
      using poolD(3) [OF P that] Q by (auto split: if_splits)
    show "set ((Q(l := xs)) k) \<inter> insert x held = {}" if "k \<in> H" for k
      using poolD(3) [OF P that l] poolD(4) [OF P that] dist Q by (cases "k = l") auto
    show "detached h' n" if "n \<in> insert x held" for n
      using that h'(3) pool_held [OF P l so] by auto
    have "(\<Union>k\<in>H. set ((Q(l := xs)) k)) = (\<Union>k\<in>H - {l}. set (Q k)) \<union> set xs"
      by (rule union_fun_upd [OF l])
    moreover have "(\<Union>k\<in>H. set (Q k)) = (\<Union>k\<in>H - {l}. set (Q k)) \<union> set (x # xs)" using l Q by auto
    ultimately show "(\<Union>k\<in>H. set ((Q(l := xs)) k)) \<union> insert x held = N" using poolD(8) [OF P] by auto
  qed
  then show ?thesis using h'(1) by blast
qed

lemma pool_pop_empty:
  assumes P: "pool rep detached H N h Q held" and l: "l \<in> H" and Q: "Q l = []"
  shows "\<exists>h'. pop_head bc l h = Some (None, h') \<and> pool rep detached H N h' Q held"
proof -
  have "rep h l []" using poolD(2) [OF P l] Q by simp
  from pop_empty_law [OF this, of bc] obtain h' where h': "pop_head bc l h = Some (None, h')" "rep h' l []"
      "same_outside {l} h h'" by blast
  have so: "same_outside (insert l (set (Q l) \<union> {})) h h'" using h'(3) Q by simp
  have "rep h' k (Q k)" if "k \<in> H" for k
    using pool_other [OF P l so _ that] h'(2) Q by (cases "k = l") auto
  moreover have "detached h' n" if "n \<in> held" for n using pool_held [OF P l so that] by simp
  ultimately have "pool rep detached H N h' Q held" using P by (simp add: pool_def)
  then show ?thesis using h'(1) by blast
qed

lemma pool_push:
  assumes P: "pool rep detached H N h Q held" and l: "l \<in> H" and x: "x \<in> held"
  shows "\<exists>h'. push_tail bc l x h = Some h' \<and> pool rep detached H N h' (Q(l := Q l @ [x])) (held - {x})"
proof -
  have "x \<notin> set (l # Q l)" using poolD(1,7) [OF P] poolD(4) [OF P l] l x by auto
  from push_law [OF poolD(2) [OF P l] this poolD(5) [OF P x], of bc]
  obtain h' where h': "push_tail bc l x h = Some h'" "rep h' l (Q l @ [x])" "same_outside (set (l # x # Q l)) h h'" by blast
  have so: "same_outside (insert l (set (Q l) \<union> {x})) h h'" using h'(3) by (simp add: insert_commute)
  have "pool rep detached H N h' (Q(l := Q l @ [x])) (held - {x})"
    unfolding pool_def
  proof (intro conjI ballI impI)
    show "H \<inter> N = {}" by (rule poolD(1) [OF P])
    show "rep h' k ((Q(l := Q l @ [x])) k)" if "k \<in> H" for k
      using pool_other [OF P l so _ that] h'(2) x by (cases "k = l") auto
    show "set ((Q(l := Q l @ [x])) a) \<inter> set ((Q(l := Q l @ [x])) b) = {}" if "a \<in> H" "b \<in> H" "a \<noteq> b" for a b
      using poolD(3) [OF P that] poolD(4) [OF P that(1)] poolD(4) [OF P that(2)] x that(3) by (auto split: if_splits)
    show "set ((Q(l := Q l @ [x])) k) \<inter> (held - {x}) = {}" if "k \<in> H" for k
      using poolD(4) [OF P that] by auto
    show "detached h' n" if "n \<in> held - {x}" for n
      using that pool_held [OF P l so] by auto
    have "(\<Union>k\<in>H. set ((Q(l := Q l @ [x])) k)) = insert x (\<Union>k\<in>H. set (Q k))" using l by (auto split: if_splits)
    then show "(\<Union>k\<in>H. set ((Q(l := Q l @ [x])) k)) \<union> (held - {x}) = N" using poolD(8) [OF P] x by auto
  qed
  then show ?thesis using h'(1) by blast
qed

lemma pool_remove:
  assumes P: "pool rep detached H N h Q held" and l: "l \<in> H" and x: "x \<in> set (Q l)"
  shows "\<exists>h'. remove bc l x h = Some h' \<and> pool rep detached H N h' (Q(l := remove1 x (Q l))) (insert x held)"
proof -
  from remove_law [OF poolD(2) [OF P l] x, of bc]
  obtain h' where h': "remove bc l x h = Some h'" "rep h' l (remove1 x (Q l))" "detached h' x"
      "same_outside (set (l # Q l)) h h'" by blast
  have "distinct (Q l)" by (rule slist_rep_D(2) [OF rep_slist [OF poolD(2) [OF P l]]])
  then have set: "set (remove1 x (Q l)) = set (Q l) - {x}" by simp
  have so: "same_outside (insert l (set (Q l) \<union> {})) h h'" using h'(4) by simp
  have "pool rep detached H N h' (Q(l := remove1 x (Q l))) (insert x held)"
    unfolding pool_def
  proof (intro conjI ballI impI)
    show "H \<inter> N = {}" by (rule poolD(1) [OF P])
    show "rep h' k ((Q(l := remove1 x (Q l))) k)" if "k \<in> H" for k
      using pool_other [OF P l so _ that] h'(2) by (cases "k = l") auto
    show "set ((Q(l := remove1 x (Q l))) a) \<inter> set ((Q(l := remove1 x (Q l))) b) = {}" if "a \<in> H" "b \<in> H" "a \<noteq> b" for a b
      using poolD(3) [OF P that] set by (auto split: if_splits)
    show "set ((Q(l := remove1 x (Q l))) k) \<inter> insert x held = {}" if "k \<in> H" for k
      using poolD(3) [OF P that l] poolD(4) [OF P that] set x by (cases "k = l") auto
    show "detached h' n" if "n \<in> insert x held" for n
      using that h'(3) pool_held [OF P l so] by auto
    have "(\<Union>k\<in>H. set ((Q(l := remove1 x (Q l))) k)) = (\<Union>k\<in>H - {l}. set (Q k)) \<union> (set (Q l) - {x})"
      unfolding set [symmetric] by (rule union_fun_upd [OF l])
    moreover have "(\<Union>k\<in>H. set (Q k)) = (\<Union>k\<in>H - {l}. set (Q k)) \<union> set (Q l)" using l by auto
    ultimately show "(\<Union>k\<in>H. set ((Q(l := remove1 x (Q l))) k)) \<union> insert x held = N"
      using poolD(8) [OF P] x by auto
  qed
  then show ?thesis using h'(1) by blast
qed

lemma pool_push_all:
  assumes "pool rep detached H N h Q held" and "l \<in> H" and "distinct xs" and "set xs \<subseteq> held"
  shows "\<exists>h'. foldM (push_tail bc l) xs h = Some h' \<and> pool rep detached H N h' (Q(l := Q l @ xs)) (held - set xs)"
  using assms
proof (induction xs arbitrary: h Q held)
  case Nil
  then show ?case by simp
next
  case (Cons x xs)
  obtain h1 where h1: "push_tail bc l x h = Some h1" "pool rep detached H N h1 (Q(l := Q l @ [x])) (held - {x})"
    using pool_push [OF Cons.prems(1,2), of x bc] Cons.prems(4) by auto
  have "set xs \<subseteq> held - {x}" "distinct xs" using Cons.prems(3,4) by auto
  from Cons.IH [OF h1(2) Cons.prems(2) this(2,1)] obtain h2 where h2: "foldM (push_tail bc l) xs h1 = Some h2"
      "pool rep detached H N h2 (Q(l := Q l @ x # xs)) (held - {x} - set xs)"
    by (auto simp: fun_upd_same fun_upd_upd simp del: fun_upd_apply)
  have "held - {x} - set xs = held - set (x # xs)" by auto
  moreover have "foldM (push_tail bc l) (x # xs) h = Some h2" using h1(1) h2(1) by simp
  ultimately show ?case using h2(2) by metis
qed

text \<open>An operation on a list of the pool changes links of its headers and nodes only.\<close>

lemma pool_pop_outside:
  assumes P: "pool rep detached H N h Q held" and l: "l \<in> H" and e: "pop_head bc l h = Some (r, h')"
  shows "same_outside (H \<union> N) h h'"
proof (cases "Q l")
  case Nil
  then have "rep h l []" using poolD(2) [OF P l] by simp
  then have "same_outside {l} h h'" using pop_empty_law [of h l bc] e by auto
  then show ?thesis by (rule same_outside_mono) (use l in auto)
next
  case (Cons x xs)
  then have "rep h l (x # xs)" using poolD(2) [OF P l] by simp
  then have "same_outside (set (l # x # xs)) h h'" using pop_law [of h l x xs bc] e by auto
  then show ?thesis by (rule same_outside_mono) (use l Cons poolD(6) [OF P l] in auto)
qed

lemma pool_push_outside:
  assumes P: "pool rep detached H N h Q held" and l: "l \<in> H" and x: "x \<in> held" and e: "push_tail bc l x h = Some h'"
  shows "same_outside (H \<union> N) h h'"
proof -
  have "x \<notin> set (l # Q l)" using poolD(1,7) [OF P] poolD(4) [OF P l] l x by auto
  then have "same_outside (set (l # x # Q l)) h h'" using push_law [OF poolD(2) [OF P l] _ poolD(5) [OF P x], of bc] e by auto
  then show ?thesis by (rule same_outside_mono) (use l x poolD(6) [OF P l] poolD(7) [OF P] in auto)
qed

lemma pool_remove_outside:
  assumes P: "pool rep detached H N h Q held" and l: "l \<in> H" and x: "x \<in> set (Q l)" and e: "remove bc l x h = Some h'"
  shows "same_outside (H \<union> N) h h'"
proof -
  have "same_outside (set (l # Q l)) h h'" using remove_law [OF poolD(2) [OF P l] x, of bc] e by auto
  then show ?thesis by (rule same_outside_mono) (use l poolD(6) [OF P l] in auto)
qed

lemma pool_frame:
  assumes P: "pool rep detached H N h Q held" and so: "same_outside S h h'" and S: "S \<inter> (H \<union> N) = {}"
  shows "pool rep detached H N h' Q held"
proof -
  have "rep h' l (Q l)" if "l \<in> H" for l
    using frame_law [OF poolD(2) [OF P that] so] poolD(6) [OF P that] S that by auto
  moreover have "detached h' n" if "n \<in> held" for n
    using detached_frame [OF poolD(5) [OF P that] so] poolD(7) [OF P] S that by auto
  ultimately show ?thesis using P by (simp add: pool_def)
qed

end

lemma pool_slist_head:
  assumes "pool slist_rep slist_detached H N h Q held" "l \<in> H"
  shows "fwk_slist_head l h = Some (if Q l = [] then None else Some (hd (Q l)))"
    "fwk_slist_is_empty l h = Some (Q l = [])"
  using slist_head_rep [OF poolD(2) [OF assms]] slist_is_empty_rep [OF poolD(2) [OF assms]] by auto

text \<open>Rewriting a null link of a held node changes nothing.\<close>

lemma pool_unlink_held:
  assumes "pool slist_rep slist_detached H N h Q held" "n \<in> held"
  shows "set_next n None h = h"
proof -
  have "next_of h n = None" using poolD(5) [OF assms] by (simp add: slist_detached_def)
  then have "(next_of h)(n := None) = next_of h" by auto
  then show ?thesis by simp
qed

end
