(* ===== verification/Fwk_Core.thy ===== *)
theory Fwk_Core
  imports Fwk_Module Fwk_Pool
begin

text \<open>
  The event core, \<^verbatim>\<open>framework/src/fwk_core.c\<close> and \<^verbatim>\<open>framework/src/fwk_delayed_resp.c\<close>: the pool
  of event structures, the event and interrupt queues, event dispatch, and delayed
  responses. An event structure is an index \<open>i\<close> of \<open>event_table\<close>; its list node is
  \<open>EventNode i\<close>. \<^verbatim>\<open>fwk_is_interrupt_context\<close> is the field \<open>in_isr\<close>. Interrupts are disabled
  around the accesses of thread code to the free queue and the interrupt queue, which it shares with
  handlers, so each such access is one step. The lists of delayed responses are searched and changed with
  interrupts enabled: there the model's single step takes for granted that no interrupt handler
  posts a delayed response of the same source in the middle. Logging has no effect on the state.
\<close>

section \<open>State\<close>

record 'd fwk_ctx = "'d fwk_module_ctx" +
  core_initialized :: bool
  event_cookie_counter :: "32 word"
  event_table :: "nat \<Rightarrow> fwk_event"
  current_event :: "nat option"

type_synonym ('d, 'z) core_image = "(('d, 'z) fwk_ctx_scheme, 'd) fwk_image"

datatype fwk_event_arg = STD fwk_event | LIGHT fwk_event_light

datatype interrupt_states = UNKNOWN_STATE | INTERRUPT_STATE | NOT_INTERRUPT_STATE

definition upd_event :: "nat \<Rightarrow> (fwk_event \<Rightarrow> fwk_event) \<Rightarrow> ('d, 'z) fwk_ctx_scheme \<Rightarrow> ('d, 'z) fwk_ctx_scheme" where
  "upd_event i f s = s\<lparr>event_table := (event_table s)(i := f (event_table s i))\<rparr>"

text \<open>\<^verbatim>\<open>FWK_LIST_GET\<close>: the event a list node belongs to.\<close>

fun event_of :: "addr \<Rightarrow> nat option" where
  "event_of (EventNode i) = Some i"
| "event_of _ = None"

definition pop_event :: "build \<Rightarrow> addr \<Rightarrow> ('d, 'z) fwk_ctx_scheme \<Rightarrow> (nat option \<times> ('d, 'z) fwk_ctx_scheme) option" where
  "pop_event bc l s =
     do {
       (node, h) \<leftarrow> fwk_slist_pop_head bc l (heap s);
       (case node of
          None \<Rightarrow> Some (None, s\<lparr>heap := h\<rparr>)
        | Some nd \<Rightarrow> do { i \<leftarrow> event_of nd; Some (Some i, s\<lparr>heap := h\<rparr>) })
     }"

definition push_event :: "build \<Rightarrow> addr \<Rightarrow> nat \<Rightarrow> ('d, 'z) fwk_ctx_scheme \<Rightarrow> ('d, 'z) fwk_ctx_scheme option" where
  "push_event bc l i s =
     do {
       h \<leftarrow> fwk_slist_push_tail bc l (EventNode i) (heap s);
       Some (s\<lparr>heap := h\<rparr>)
     }"

section \<open>Delayed responses\<close>

definition check_api_call :: "('d, 'z) core_image \<Rightarrow> fwk_id \<Rightarrow> bool \<Rightarrow> ('d, 'z) fwk_ctx_scheme \<Rightarrow> int option" where
  "check_api_call im i data_null s =
     (if in_isr s then Some FWK_E_ACCESS
      else do {
        v \<leftarrow> fwk_module_is_valid_entity_id im i s;
        Some (if \<not> v \<or> data_null then FWK_E_PARAM else FWK_SUCCESS)
      })"

definition fwk_get_delayed_response_list :: "('d, 'z) core_image \<Rightarrow> fwk_id \<Rightarrow> ('d, 'z) fwk_ctx_scheme \<Rightarrow> addr option" where
  "fwk_get_delayed_response_list im i s =
     do {
       is_mod \<leftarrow> fwk_id_is_type i FWK_ID_TYPE_MODULE;
       if is_mod then do { m \<leftarrow> fwk_module_get_ctx im i; Some (ModDelayed m) }
       else do { (m, e) \<leftarrow> fwk_module_get_element_ctx im i s; Some (ElemDelayed m e) }
     }"

definition fwk_search_delayed_response ::
  "('d, 'z) core_image \<Rightarrow> fwk_id \<Rightarrow> 32 word \<Rightarrow> ('d, 'z) fwk_ctx_scheme \<Rightarrow> nat option option" where
  "fwk_search_delayed_response im i c s =
     do {
       l \<leftarrow> fwk_get_delayed_response_list im i s;
       node \<leftarrow> fwk_list_find (\<lambda>nd. do { k \<leftarrow> event_of nd; Some (cookie (event_table s k) = c) }) l (heap s);
       (case node of None \<Rightarrow> Some None | Some nd \<Rightarrow> map_option Some (event_of nd))
     }"

text \<open>The result pointer \<open>event\<close> is the value it points to; \<open>None\<close> is a null pointer.\<close>

definition fwk_get_delayed_response ::
  "('d, 'z) core_image \<Rightarrow> fwk_id \<Rightarrow> 32 word \<Rightarrow> fwk_event option \<Rightarrow> ('d, 'z) fwk_ctx_scheme \<Rightarrow> (int \<times> fwk_event option) option" where
  "fwk_get_delayed_response im i c event s =
     do {
       status \<leftarrow> check_api_call im i (event = None) s;
       if status \<noteq> FWK_SUCCESS then Some (status, event)
       else do {
         delayed_response \<leftarrow> fwk_search_delayed_response im i c s;
         (case delayed_response of
            None \<Rightarrow> Some (FWK_E_PARAM, event)
          | Some k \<Rightarrow> Some (FWK_SUCCESS, Some (event_table s k)))
       }
     }"

definition fwk_is_delayed_response_list_empty ::
  "('d, 'z) core_image \<Rightarrow> fwk_id \<Rightarrow> bool option \<Rightarrow> ('d, 'z) fwk_ctx_scheme \<Rightarrow> (int \<times> bool option) option" where
  "fwk_is_delayed_response_list_empty im i is_empty s =
     do {
       status \<leftarrow> check_api_call im i (is_empty = None) s;
       if status \<noteq> FWK_SUCCESS then Some (status, is_empty)
       else do {
         l \<leftarrow> fwk_get_delayed_response_list im i s;
         node \<leftarrow> fwk_slist_head l (heap s);
         Some (FWK_SUCCESS, Some (node = None))
       }
     }"

definition fwk_get_first_delayed_response ::
  "('d, 'z) core_image \<Rightarrow> fwk_id \<Rightarrow> fwk_event option \<Rightarrow> ('d, 'z) fwk_ctx_scheme \<Rightarrow> (int \<times> fwk_event option) option" where
  "fwk_get_first_delayed_response im i event s =
     do {
       status \<leftarrow> check_api_call im i (event = None) s;
       if status \<noteq> FWK_SUCCESS then Some (status, event)
       else do {
         l \<leftarrow> fwk_get_delayed_response_list im i s;
         node \<leftarrow> fwk_slist_head l (heap s);
         (case node of
            None \<Rightarrow> Some (FWK_E_STATE, event)
          | Some nd \<Rightarrow> do { k \<leftarrow> event_of nd; Some (FWK_SUCCESS, Some (event_table s k)) })
       }
     }"

section \<open>Posting events\<close>

definition copy_event :: "fwk_event_arg \<Rightarrow> fwk_event \<Rightarrow> fwk_event" where
  "copy_event event allocated =
     (case event of
        LIGHT e \<Rightarrow> allocated\<lparr>event_id := light_event_id e, source_id := light_source_id e,
          target_id := light_target_id e, is_notification := False,
          response_requested := light_response_requested e, is_delayed_response := False, is_response := False\<rparr>
      | STD e \<Rightarrow> e)"

definition duplicate_event ::
  "build \<Rightarrow> fwk_event_arg \<Rightarrow> ('d, 'z) fwk_ctx_scheme \<Rightarrow> (nat option \<times> ('d, 'z) fwk_ctx_scheme) option" where
  "duplicate_event bc event s =
     do {
       (allocated_event, s) \<leftarrow> pop_event bc FreeEventQ s;
       (case allocated_event of
          None \<Rightarrow> do { fwk_unexpected bc; Some (None, s) }
        | Some i \<Rightarrow> Some (Some i, upd_heap (set_next (EventNode i) None) (upd_event i (copy_event event) s)))
     }"

text \<open>The event a put stores: a delayed response taken off its list, or a copy.\<close>

definition take_event ::
  "('d, 'z) core_image \<Rightarrow> fwk_event_arg \<Rightarrow> ('d, 'z) fwk_ctx_scheme \<Rightarrow> (int \<times> nat \<times> ('d, 'z) fwk_ctx_scheme) option" where
  "take_event im event s =
     (case event of
        STD e \<Rightarrow>
          if is_delayed_response e
          then do {
            found \<leftarrow> fwk_search_delayed_response im (source_id e) (cookie e) s;
            (case found of
               None \<Rightarrow> Some (FWK_E_PARAM, 0, s)
             | Some i \<Rightarrow> do {
                 l \<leftarrow> fwk_get_delayed_response_list im (source_id e) s;
                 h \<leftarrow> fwk_slist_remove (image_build im) l (EventNode i) (heap s);
                 Some (FWK_SUCCESS, i, upd_event i (\<lambda>a. a\<lparr>params := params e\<rparr>) (s\<lparr>heap := h\<rparr>))
               })
          }
          else do {
            (allocated_event, s) \<leftarrow> duplicate_event (image_build im) event s;
            (case allocated_event of None \<Rightarrow> Some (FWK_E_NOMEM, 0, s) | Some i \<Rightarrow> Some (FWK_SUCCESS, i, s))
          }
      | LIGHT _ \<Rightarrow>
          do {
            (allocated_event, s) \<leftarrow> duplicate_event (image_build im) event s;
            (case allocated_event of None \<Rightarrow> Some (FWK_E_NOMEM, 0, s) | Some i \<Rightarrow> Some (FWK_SUCCESS, i, s))
          })"

text \<open>The caller's event is returned: its cookie is written back.\<close>

definition put_event ::
  "('d, 'z) core_image \<Rightarrow> fwk_event_arg \<Rightarrow> interrupt_states \<Rightarrow> ('d, 'z) fwk_ctx_scheme \<Rightarrow>
   (int \<times> fwk_event_arg \<times> ('d, 'z) fwk_ctx_scheme) option" where
  "put_event im event intr_state s =
     do {
       (status, i, s) \<leftarrow> take_event im event s;
       if status \<noteq> FWK_SUCCESS then Some (status, event, s)
       else do {
         let (event, s) =
           (case event of
              STD e \<Rightarrow> (STD (e\<lparr>cookie := event_cookie_counter s\<rparr>),
                (upd_event i (\<lambda>a. a\<lparr>cookie := event_cookie_counter s\<rparr>) s)\<lparr>event_cookie_counter := event_cookie_counter s + 1\<rparr>)
            | LIGHT _ \<Rightarrow> (event, s));
         let intr_state = (if intr_state = UNKNOWN_STATE then (if in_isr s then INTERRUPT_STATE else NOT_INTERRUPT_STATE) else intr_state);
         s \<leftarrow> push_event (image_build im) (if intr_state = NOT_INTERRUPT_STATE then EventQ else IsrEventQ) i s;
         Some (FWK_SUCCESS, event, s)
       }
     }"

definition free_event :: "build \<Rightarrow> nat \<Rightarrow> ('d, 'z) fwk_ctx_scheme \<Rightarrow> ('d, 'z) fwk_ctx_scheme option" where
  "free_event bc i s = push_event bc FreeEventQ i s"

section \<open>Dispatch\<close>

text \<open>
  \<^verbatim>\<open>process_next_event\<close> in three parts: what is done with the response buffer once the handler
  returns, the call of the handler, and the whole function.
\<close>

definition send_response ::
  "('d, 'z) core_image \<Rightarrow> fwk_event \<Rightarrow> ('d, 'z) fwk_ctx_scheme \<Rightarrow> ('d, 'z) fwk_ctx_scheme option" where
  "send_response im resp s =
     (let resp = resp\<lparr>is_response := True, response_requested := False\<rparr>
      in if \<not> is_delayed_response resp
         then do { (_, _, s) \<leftarrow> put_event im (STD resp) UNKNOWN_STATE s; Some s }
         else do {
           (allocated_event, s) \<leftarrow> duplicate_event (image_build im) (STD resp) s;
           (case allocated_event of
              None \<Rightarrow> Some s
            | Some j \<Rightarrow> do {
                l \<leftarrow> fwk_get_delayed_response_list im (source_id resp) s;
                push_event (image_build im) l j s
              })
         })"

definition run_handler ::
  "('d, 'z) core_image \<Rightarrow> (fwk_event \<Rightarrow> fwk_event option \<Rightarrow> ('d, 'z) fwk_ctx_scheme \<Rightarrow> (int \<times> fwk_event \<times> ('d, 'z) fwk_ctx_scheme) option) \<Rightarrow>
   fwk_event \<Rightarrow> ('d, 'z) fwk_ctx_scheme \<Rightarrow> ('d, 'z) fwk_ctx_scheme option" where
  "run_handler im process_event event s =
     (if response_requested event
      then do {
        let resp = event\<lparr>source_id := target_id event, target_id := source_id event, is_delayed_response := False\<rparr>;
        (status, resp, s) \<leftarrow> process_event event (Some resp) s;
        send_response im resp s
      }
      else do { (status, _, s) \<leftarrow> process_event event None s; Some s })"

definition process_next_event :: "('d, 'z) core_image \<Rightarrow> ('d, 'z) fwk_ctx_scheme \<Rightarrow> ('d, 'z) fwk_ctx_scheme option" where
  "process_next_event im s =
     do {
       (popped, s) \<leftarrow> pop_event (image_build im) EventQ s;
       let s = s\<lparr>current_event := popped\<rparr>;
       i \<leftarrow> popped;
       let event = event_table s i;
       m \<leftarrow> fwk_module_get_ctx im (target_id event);
       process_event \<leftarrow> (if is_notification event then cb_process_notification (module_table im ! m)
                         else cb_process_event (module_table im ! m));
       s \<leftarrow> run_handler im process_event event s;
       free_event (image_build im) i (s\<lparr>current_event := None\<rparr>)
     }"

definition process_isr :: "('d, 'z) core_image \<Rightarrow> ('d, 'z) fwk_ctx_scheme \<Rightarrow> (bool \<times> ('d, 'z) fwk_ctx_scheme) option" where
  "process_isr im s =
     do {
       (isr_event, s) \<leftarrow> pop_event (image_build im) IsrEventQ s;
       (case isr_event of
          None \<Rightarrow> Some (False, s)
        | Some i \<Rightarrow> do { s \<leftarrow> push_event (image_build im) EventQ i s; Some (True, s) })
     }"

text \<open>\<^verbatim>\<open>fwk_process_event_queue\<close>: the two nested loops return only when both queues are empty.\<close>

partial_function (option) fwk_process_event_queue ::
  "('d, 'z) core_image \<Rightarrow> ('d, 'z) fwk_ctx_scheme \<Rightarrow> ('d, 'z) fwk_ctx_scheme option" where
  "fwk_process_event_queue im s =
     Option.bind (fwk_slist_is_empty EventQ (heap s)) (\<lambda>empty.
       if \<not> empty then Option.bind (process_next_event im s) (fwk_process_event_queue im)
       else Option.bind (process_isr im s) (\<lambda>(more, s).
         if \<not> more then Some s else fwk_process_event_queue im s))"

section \<open>Initialisation\<close>

definition zero_event :: fwk_event where
  "zero_event = \<lparr>source_id = 0, target_id = 0, cookie = 0, is_response = False, response_requested = False,
     is_notification = False, is_delayed_response = False, event_id = 0, params = replicate 16 0\<rparr>"

text \<open>The nodes of the newly allocated event structures are zeroed.\<close>

definition zero_event_nodes :: "nat \<Rightarrow> addr list_heap \<Rightarrow> addr list_heap" where
  "zero_event_nodes n h =
     h\<lparr>next_of := (\<lambda>p. case p of EventNode i \<Rightarrow> if i < n then None else next_of h p | _ \<Rightarrow> next_of h p)\<rparr>"

definition fwk_init :: "('d, 'z) core_image \<Rightarrow> nat \<Rightarrow> ('d, 'z) fwk_ctx_scheme \<Rightarrow> (int \<times> ('d, 'z) fwk_ctx_scheme) option" where
  "fwk_init im event_cnt s =
     (if event_cnt = 0 then Some (FWK_E_INIT, s)
      else do {
        s \<leftarrow> fwk_mm_calloc im event_cnt s;
        let h = zero_event_nodes event_cnt (heap s);
        let h = fwk_slist_init (image_build im) FreeEventQ h;
        let h = fwk_slist_init (image_build im) EventQ h;
        let h = fwk_slist_init (image_build im) IsrEventQ h;
        h \<leftarrow> foldM (fwk_slist_push_tail (image_build im) FreeEventQ) (map EventNode [0..<event_cnt]) h;
        Some (FWK_SUCCESS, s\<lparr>heap := h, event_table := (\<lambda>i. if i < event_cnt then zero_event else event_table s i), core_initialized := True\<rparr>)
      })"

section \<open>The interface for modules\<close>

definition fwk_put_notification ::
  "('d, 'z) core_image \<Rightarrow> fwk_event \<Rightarrow> ('d, 'z) fwk_ctx_scheme \<Rightarrow> (int \<times> fwk_event_arg \<times> ('d, 'z) fwk_ctx_scheme) option" where
  "fwk_put_notification im event s =
     put_event im (STD (event\<lparr>is_response := False, is_notification := True\<rparr>)) UNKNOWN_STATE s"

text \<open>
  The source of an event: in thread context, while an event is being processed, it is the
  target of that event; otherwise the caller's identifier must be a valid entity.
\<close>

definition event_source ::
  "('d, 'z) core_image \<Rightarrow> fwk_id \<Rightarrow> ('d, 'z) fwk_ctx_scheme \<Rightarrow> fwk_id option option" where
  "event_source im src s =
     (case current_event s of
        Some i \<Rightarrow> if \<not> in_isr s then Some (Some (target_id (event_table s i)))
                  else do { v \<leftarrow> (if fwk_id_type_is_valid src then fwk_module_is_valid_entity_id im src s else Some False);
                            Some (if v then Some src else None) }
      | None \<Rightarrow> do { v \<leftarrow> (if fwk_id_type_is_valid src then fwk_module_is_valid_entity_id im src s else Some False);
                     Some (if v then Some src else None) })"

definition same_module :: "fwk_id \<Rightarrow> fwk_id \<Rightarrow> bool option" where
  "same_module a b = do { x \<leftarrow> fwk_id_get_module_idx a; y \<leftarrow> fwk_id_get_module_idx b; Some (x = y) }"

definition event_checks :: "('d, 'z) core_image \<Rightarrow> fwk_event \<Rightarrow> bool option" where
  "event_checks im e =
     (if is_notification e
      then do {
        v \<leftarrow> fwk_module_is_valid_notification_id im (event_id e);
        if \<not> v then Some False
        else if \<not> is_response e \<or> response_requested e then Some False
        else same_module (target_id e) (event_id e)
      }
      else do {
        v \<leftarrow> fwk_module_is_valid_event_id im (event_id e);
        if \<not> v then Some False
        else if is_response e
        then do {
          v \<leftarrow> same_module (source_id e) (event_id e);
          Some (v \<and> \<not> response_requested e)
        }
        else same_module (target_id e) (event_id e)
      })"

definition fwk_put_event ::
  "('d, 'z) core_image \<Rightarrow> fwk_event option \<Rightarrow> ('d, 'z) fwk_ctx_scheme \<Rightarrow> (int \<times> fwk_event_arg option \<times> ('d, 'z) fwk_ctx_scheme) option" where
  "fwk_put_event im event s =
     (if mode_debug (image_build im) \<and> \<not> core_initialized s then Some (FWK_E_INIT, map_option STD event, s)
      else if mode_debug (image_build im) \<and> event = None then Some (FWK_E_PARAM, None, s)
      else do {
        e \<leftarrow> event;
        src \<leftarrow> event_source im (source_id e) s;
        (case src of
           None \<Rightarrow> Some (FWK_E_PARAM, Some (STD e), s)
         | Some sid \<Rightarrow> do {
             let e = e\<lparr>source_id := sid\<rparr>;
             ok \<leftarrow> (if mode_debug (image_build im) then event_checks im e else Some True);
             if \<not> ok then Some (FWK_E_PARAM, Some (STD e), s)
             else do {
               (status, ev, s) \<leftarrow> put_event im (STD e) (if in_isr s then INTERRUPT_STATE else NOT_INTERRUPT_STATE) s;
               Some (status, Some ev, s)
             }
           })
      })"

definition fwk_put_event_light ::
  "('d, 'z) core_image \<Rightarrow> fwk_event_light option \<Rightarrow> ('d, 'z) fwk_ctx_scheme \<Rightarrow> (int \<times> fwk_event_arg option \<times> ('d, 'z) fwk_ctx_scheme) option" where
  "fwk_put_event_light im event s =
     (if mode_debug (image_build im) \<and> \<not> core_initialized s then Some (FWK_E_INIT, map_option LIGHT event, s)
      else if mode_debug (image_build im) \<and> event = None then Some (FWK_E_PARAM, None, s)
      else do {
        e \<leftarrow> event;
        src \<leftarrow> event_source im (light_source_id e) s;
        (case src of
           None \<Rightarrow> Some (FWK_E_PARAM, Some (LIGHT e), s)
         | Some sid \<Rightarrow> do {
             let e = e\<lparr>light_source_id := sid\<rparr>;
             ok \<leftarrow> (if mode_debug (image_build im)
                    then do {
                      v \<leftarrow> fwk_module_is_valid_event_id im (light_event_id e);
                      if \<not> v then Some False else same_module (light_target_id e) (light_event_id e)
                    }
                    else Some True);
             if \<not> ok then Some (FWK_E_PARAM, Some (LIGHT e), s)
             else do {
               (status, ev, s) \<leftarrow> put_event im (LIGHT e) (if in_isr s then INTERRUPT_STATE else NOT_INTERRUPT_STATE) s;
               Some (status, Some ev, s)
             }
           })
      })"

section \<open>Where every event structure is\<close>

definition event_headers :: "('s, 'd) fwk_image \<Rightarrow> 'd module_context list \<Rightarrow> addr set" where
  "event_headers im tbl =
     {FreeEventQ, IsrEventQ, EventQ} \<union> ModDelayed ` {..<idx_count im} \<union>
     {ElemDelayed m e | m e. m < idx_count im \<and> e < length (element_ctx_table (tbl ! m))}"

lemma event_headers_fixed [simp]:
  "FreeEventQ \<in> event_headers im tbl" "IsrEventQ \<in> event_headers im tbl" "EventQ \<in> event_headers im tbl"
  by (simp_all add: event_headers_def)

text \<open>
  \<open>event_pool im n s Q held\<close>: of the \<open>n\<close> event structures, list \<open>l\<close> holds \<open>Q l\<close> in this order,
  and those of \<open>held\<close> are on no list; each of them is in exactly one place.
\<close>

definition event_pool :: "('d, 'z) core_image \<Rightarrow> nat \<Rightarrow> ('d, 'z) fwk_ctx_scheme \<Rightarrow> (addr \<Rightarrow> nat list) \<Rightarrow> nat set \<Rightarrow> bool" where
  "event_pool im n s Q held \<longleftrightarrow>
     pool slist_rep slist_detached (event_headers im (module_ctx_table s)) (EventNode ` {..<n})
       (heap s) (\<lambda>l. map EventNode (Q l)) (EventNode ` held)"

lemma event_pool_cong:
  "heap t = heap s \<Longrightarrow> module_ctx_table t = module_ctx_table s \<Longrightarrow> event_pool im n t Q held = event_pool im n s Q held"
  by (simp add: event_pool_def)

lemma event_queue_upd:
  "(\<lambda>k. map EventNode ((Q(l := xs)) k)) = (\<lambda>k. map EventNode (Q k))(l := map EventNode xs)"
  by auto

lemma event_pool_heap:
  "event_pool im n (s\<lparr>heap := h\<rparr>) (Q(l := xs)) held \<longleftrightarrow>
     pool slist_rep slist_detached (event_headers im (module_ctx_table s)) (EventNode ` {..<n})
       h ((\<lambda>k. map EventNode (Q k))(l := map EventNode xs)) (EventNode ` held)"
  unfolding event_pool_def event_queue_upd by simp

lemma inj_EventNode [simp]: "inj EventNode"
  by (simp add: inj_def)

lemma EventNode_Diff: "EventNode ` (held - {i}) = EventNode ` held - {EventNode i}"
  by auto

lemma event_pool_pop:
  assumes P: "event_pool im n s Q held" and l: "l \<in> event_headers im (module_ctx_table s)" and Q: "Q l = i # xs"
  shows "\<exists>h. pop_event bc l s = Some (Some i, s\<lparr>heap := h\<rparr>) \<and> event_pool im n (s\<lparr>heap := h\<rparr>) (Q(l := xs)) (insert i held)"
proof -
  have "(\<lambda>l. map EventNode (Q l)) l = EventNode i # map EventNode xs" using Q by simp
  from sl.pool_pop [OF P [unfolded event_pool_def] l this, of bc] show ?thesis
    by (fastforce simp: pop_event_def event_pool_heap simp del: fun_upd_apply)
qed

lemma event_pool_pop_empty:
  assumes P: "event_pool im n s Q held" and l: "l \<in> event_headers im (module_ctx_table s)" and Q: "Q l = []"
  shows "\<exists>h. pop_event bc l s = Some (None, s\<lparr>heap := h\<rparr>) \<and> event_pool im n (s\<lparr>heap := h\<rparr>) Q held"
proof -
  have "(\<lambda>l. map EventNode (Q l)) l = []" using Q by simp
  from sl.pool_pop_empty [OF P [unfolded event_pool_def] l this, of bc] show ?thesis
    by (auto simp: pop_event_def event_pool_def)
qed

lemma event_pool_push:
  assumes P: "event_pool im n s Q held" and l: "l \<in> event_headers im (module_ctx_table s)" and i: "i \<in> held"
  shows "\<exists>h. push_event bc l i s = Some (s\<lparr>heap := h\<rparr>) \<and> event_pool im n (s\<lparr>heap := h\<rparr>) (Q(l := Q l @ [i])) (held - {i})"
proof -
  have "EventNode i \<in> EventNode ` held" using i by simp
  from sl.pool_push [OF P [unfolded event_pool_def] l this, of bc] show ?thesis
    by (fastforce simp: push_event_def event_pool_heap EventNode_Diff simp del: fun_upd_apply)
qed

lemma map_remove1_EventNode: "map EventNode (remove1 i xs) = remove1 (EventNode i) (map EventNode xs)"
  by (induction xs) auto

lemma event_pool_remove:
  assumes P: "event_pool im n s Q held" and l: "l \<in> event_headers im (module_ctx_table s)" and i: "i \<in> set (Q l)"
  shows "\<exists>h. fwk_slist_remove bc l (EventNode i) (heap s) = Some h \<and>
     event_pool im n (s\<lparr>heap := h\<rparr>) (Q(l := remove1 i (Q l))) (insert i held)"
proof -
  have "EventNode i \<in> set ((\<lambda>l. map EventNode (Q l)) l)" using i by simp
  from sl.pool_remove [OF P [unfolded event_pool_def] l this, of bc] show ?thesis
    by (fastforce simp: event_pool_heap map_remove1_EventNode simp del: fun_upd_apply)
qed

lemma event_pool_head:
  assumes "event_pool im n s Q held" "l \<in> event_headers im (module_ctx_table s)"
  shows "fwk_slist_head l (heap s) = Some (if Q l = [] then None else Some (EventNode (hd (Q l))))"
    "fwk_slist_is_empty l (heap s) = Some (Q l = [])"
  using pool_slist_head [OF assms(1) [unfolded event_pool_def] assms(2)] by (simp_all add: hd_map)

lemma event_pool_fields [simp]:
  "event_pool im n (s\<lparr>current_event := c\<rparr>) Q held = event_pool im n s Q held"
  "event_pool im n (s\<lparr>event_cookie_counter := k\<rparr>) Q held = event_pool im n s Q held"
  "event_pool im n (s\<lparr>event_table := et\<rparr>) Q held = event_pool im n s Q held"
  "event_pool im n (s\<lparr>in_isr := b\<rparr>) Q held = event_pool im n s Q held"
  "event_pool im n (fwk_ctx.more_update f s) Q held = event_pool im n s Q held"
  "event_pool im n (upd_event i g s) Q held = event_pool im n s Q held"
  by (simp_all add: event_pool_def upd_event_def)

lemma upd_event_sel [simp]:
  "heap (upd_event i f s) = heap s" "module_ctx_table (upd_event i f s) = module_ctx_table s" "in_isr (upd_event i f s) = in_isr s"
  "current_event (upd_event i f s) = current_event s" "event_cookie_counter (upd_event i f s) = event_cookie_counter s"
  "event_table (upd_event i f s) = (event_table s)(i := f (event_table s i))" "core_initialized (upd_event i f s) = core_initialized s"
  by (simp_all add: upd_event_def)

lemma event_pool_unlink:
  assumes "event_pool im n s Q held" "i \<in> held"
  shows "upd_heap (set_next (EventNode i) None) s = s"
proof -
  have "set_next (EventNode i) None (heap s) = heap s"
    using pool_unlink_held [OF assms(1) [unfolded event_pool_def]] assms(2) by simp
  then show ?thesis by simp
qed

section \<open>Posting an event, case by case\<close>

lemma duplicate_event_ok:
  assumes P: "event_pool im n s Q held" and Q: "Q FreeEventQ = i # fs"
  shows "\<exists>h. duplicate_event bc ev s = Some (Some i, upd_event i (copy_event ev) (s\<lparr>heap := h\<rparr>)) \<and>
     event_pool im n (s\<lparr>heap := h\<rparr>) (Q(FreeEventQ := fs)) (insert i held)"
proof -
  obtain h where h: "pop_event bc FreeEventQ s = Some (Some i, s\<lparr>heap := h\<rparr>)"
      "event_pool im n (s\<lparr>heap := h\<rparr>) (Q(FreeEventQ := fs)) (insert i held)"
    using event_pool_pop [OF P event_headers_fixed(1) Q] by blast
  have "event_pool im n (upd_event i (copy_event ev) (s\<lparr>heap := h\<rparr>)) (Q(FreeEventQ := fs)) (insert i held)" using h(2) by simp
  from event_pool_unlink [OF this, of i]
  have "upd_heap (set_next (EventNode i) None) (upd_event i (copy_event ev) (s\<lparr>heap := h\<rparr>)) = upd_event i (copy_event ev) (s\<lparr>heap := h\<rparr>)" by simp
  then have "duplicate_event bc ev s = Some (Some i, upd_event i (copy_event ev) (s\<lparr>heap := h\<rparr>))"
    using h(1) by (simp add: duplicate_event_def)
  then show ?thesis using h(2) by blast
qed

lemma duplicate_event_none:
  assumes P: "event_pool im n s Q held" and Q: "Q FreeEventQ = []"
  shows "\<exists>h. duplicate_event bc ev s = (if strict_checks bc then None else Some (None, s\<lparr>heap := h\<rparr>)) \<and>
     event_pool im n (s\<lparr>heap := h\<rparr>) Q held"
  using event_pool_pop_empty [OF P event_headers_fixed(1) Q, of bc] by (auto simp: duplicate_event_def fwk_unexpected_def)

lemma delayed_list_header:
  assumes "fwk_get_delayed_response_list im i s = Some l"
  shows "l \<in> event_headers im (module_ctx_table s) \<and> l \<notin> {FreeEventQ, IsrEventQ, EventQ}"
  using assms
  by (auto simp: fwk_get_delayed_response_list_def fwk_module_get_ctx_def fwk_module_get_element_ctx_def
      bind_Some_iff event_headers_def Let_def split: if_splits)

lemma search_delayed:
  assumes P: "event_pool im n s Q held" and l: "fwk_get_delayed_response_list im src s = Some l"
  shows "fwk_search_delayed_response im src c s = Some (find (\<lambda>k. cookie (event_table s k) = c) (Q l))"
proof -
  have "slist_rep (heap s) l (map EventNode (Q l))"
    using poolD(2) [OF P [unfolded event_pool_def]] delayed_list_header [OF l] by blast
  then have "fwk_list_find (\<lambda>nd. do { k \<leftarrow> event_of nd; Some (cookie (event_table s k) = c) }) l (heap s) =
      Some (find (\<lambda>nd. \<exists>k. nd = EventNode k \<and> cookie (event_table s k) = c) (map EventNode (Q l)))"
    by (rule fwk_list_find_rep) auto
  moreover have "find (\<lambda>nd. \<exists>k. nd = EventNode k \<and> cookie (event_table s k) = c) (map EventNode xs) =
      map_option EventNode (find (\<lambda>k. cookie (event_table s k) = c) xs)" for xs
    by (induction xs) auto
  ultimately show ?thesis using l by (auto simp: fwk_search_delayed_response_def split: option.splits)
qed

text \<open>The queue a put appends to.\<close>

definition put_queue :: "interrupt_states \<Rightarrow> ('d, 'z) fwk_ctx_scheme \<Rightarrow> addr" where
  "put_queue intr s =
     (if intr = NOT_INTERRUPT_STATE \<or> intr = UNKNOWN_STATE \<and> \<not> in_isr s then EventQ else IsrEventQ)"

lemma put_queue_header [simp]: "put_queue intr s \<in> event_headers im tbl" "put_queue intr s \<noteq> FreeEventQ"
  "FreeEventQ \<noteq> put_queue intr s"
  by (simp_all add: put_queue_def)

text \<open>What is stored for a caller's event: its copy, with a fresh cookie for a standard event.\<close>

definition stored_event :: "fwk_event_arg \<Rightarrow> 32 word \<Rightarrow> fwk_event \<Rightarrow> fwk_event" where
  "stored_event ev c old =
     (case ev of
        STD e \<Rightarrow> (if is_delayed_response e then old\<lparr>params := params e\<rparr> else e)\<lparr>cookie := c\<rparr>
      | LIGHT e \<Rightarrow> copy_event ev old)"

definition stamped :: "fwk_event_arg \<Rightarrow> 32 word \<Rightarrow> fwk_event_arg" where
  "stamped ev c = (case ev of STD e \<Rightarrow> STD (e\<lparr>cookie := c\<rparr>) | LIGHT _ \<Rightarrow> ev)"

definition cookies_used :: "fwk_event_arg \<Rightarrow> 32 word" where
  "cookies_used ev = (case ev of STD _ \<Rightarrow> 1 | LIGHT _ \<Rightarrow> 0)"

definition delayed_put :: "fwk_event_arg \<Rightarrow> bool" where
  "delayed_put ev = (case ev of STD e \<Rightarrow> is_delayed_response e | LIGHT _ \<Rightarrow> False)"

lemma take_event_new:
  "\<not> delayed_put ev \<Longrightarrow> take_event im ev s =
     do {
       (allocated_event, s) \<leftarrow> duplicate_event (image_build im) ev s;
       (case allocated_event of None \<Rightarrow> Some (FWK_E_NOMEM, 0, s) | Some i \<Rightarrow> Some (FWK_SUCCESS, i, s))
     }"
  by (cases ev) (simp_all add: take_event_def delayed_put_def)

lemma put_event_push:
  assumes t: "take_event im ev s = Some (FWK_SUCCESS, i, u)"
    and P: "event_pool im n u Q held" and i: "i \<in> held" and isr: "in_isr u = in_isr s"
  shows "\<exists>h. put_event im ev intr s = Some (FWK_SUCCESS, stamped ev (event_cookie_counter u),
       u\<lparr>event_table := (event_table u)(i := (case ev of STD _ \<Rightarrow> (event_table u i)\<lparr>cookie := event_cookie_counter u\<rparr> | LIGHT _ \<Rightarrow> event_table u i)),
         event_cookie_counter := event_cookie_counter u + cookies_used ev, heap := h\<rparr>) \<and>
     event_pool im n (u\<lparr>heap := h\<rparr>) (Q(put_queue intr s := Q (put_queue intr s) @ [i])) (held - {i})"
proof -
  let ?v = "case ev of STD _ \<Rightarrow> (upd_event i (\<lambda>a. a\<lparr>cookie := event_cookie_counter u\<rparr>) u)\<lparr>event_cookie_counter := event_cookie_counter u + 1\<rparr> | LIGHT _ \<Rightarrow> u"
  have "event_pool im n ?v Q held" using P by (cases ev) simp_all
  then obtain h where h: "push_event (image_build im) (put_queue intr s) i ?v = Some (?v\<lparr>heap := h\<rparr>)"
      "event_pool im n (?v\<lparr>heap := h\<rparr>) (Q(put_queue intr s := Q (put_queue intr s) @ [i])) (held - {i})"
    using event_pool_push [OF _ put_queue_header(1) i] by blast
  have m: "module_ctx_table ?v = module_ctx_table u" "in_isr ?v = in_isr s" using isr by (cases ev; simp)+
  have e: "event_pool im n (u\<lparr>heap := h\<rparr>) (Q(put_queue intr s := Q (put_queue intr s) @ [i])) (held - {i})"
    using h(2) m by (simp add: event_pool_def)
  have v: "?v = u\<lparr>event_table := (event_table u)(i := (case ev of STD _ \<Rightarrow> (event_table u i)\<lparr>cookie := event_cookie_counter u\<rparr> | LIGHT _ \<Rightarrow> event_table u i)),
         event_cookie_counter := event_cookie_counter u + cookies_used ev\<rparr>"
    by (cases ev) (simp_all add: upd_event_def cookies_used_def)
  have "put_event im ev intr s = Option.bind (push_event (image_build im) (put_queue intr s) i ?v)
      (\<lambda>s. Some (FWK_SUCCESS, stamped ev (event_cookie_counter u), s))"
    unfolding put_event_def t using m(2) by (cases ev; cases intr) (simp_all add: stamped_def put_queue_def)
  then show ?thesis using e h(1) v by auto
qed

text \<open>\<open>posted ev i h s\<close>: the state after the event \<open>ev\<close> was stored in structure \<open>i\<close>.\<close>

definition posted :: "fwk_event_arg \<Rightarrow> nat \<Rightarrow> addr list_heap \<Rightarrow> ('d, 'z) fwk_ctx_scheme \<Rightarrow> ('d, 'z) fwk_ctx_scheme" where
  "posted ev i h s =
     s\<lparr>event_table := (event_table s)(i := stored_event ev (event_cookie_counter s) (event_table s i)),
       event_cookie_counter := event_cookie_counter s + cookies_used ev, heap := h\<rparr>"

lemma posted_sel [simp]:
  "module_ctx_table (posted ev i h s) = module_ctx_table s" "in_isr (posted ev i h s) = in_isr s"
  "current_event (posted ev i h s) = current_event s" "core_initialized (posted ev i h s) = core_initialized s"
  "heap (posted ev i h s) = h" "event_cookie_counter (posted ev i h s) = event_cookie_counter s + cookies_used ev"
  "event_table (posted ev i h s) = (event_table s)(i := stored_event ev (event_cookie_counter s) (event_table s i))"
  by (simp_all add: posted_def)

lemma event_pool_posted [simp]: "event_pool im n (posted ev i h s) Q held = event_pool im n (s\<lparr>heap := h\<rparr>) Q held"
  by (simp add: event_pool_def)

lemma put_event_new:
  assumes P: "event_pool im n s Q held" and nd: "\<not> delayed_put ev" and Q: "Q FreeEventQ = i # fs" and i: "i \<notin> held"
  shows "\<exists>h. put_event im ev intr s = Some (FWK_SUCCESS, stamped ev (event_cookie_counter s), posted ev i h s) \<and>
     event_pool im n (posted ev i h s) (Q(FreeEventQ := fs, put_queue intr s := Q (put_queue intr s) @ [i])) held"
proof -
  obtain h where h: "duplicate_event (image_build im) ev s = Some (Some i, upd_event i (copy_event ev) (s\<lparr>heap := h\<rparr>))"
      "event_pool im n (s\<lparr>heap := h\<rparr>) (Q(FreeEventQ := fs)) (insert i held)"
    using duplicate_event_ok [OF P Q] by blast
  let ?u = "upd_event i (copy_event ev) (s\<lparr>heap := h\<rparr>)"
  have te: "take_event im ev s = Some (FWK_SUCCESS, i, ?u)" using h(1) by (simp add: take_event_new [OF nd])
  have Pu: "event_pool im n ?u (Q(FreeEventQ := fs)) (insert i held)" using h(2) by simp
  obtain h' where h': "put_event im ev intr s = Some (FWK_SUCCESS, stamped ev (event_cookie_counter ?u),
       ?u\<lparr>event_table := (event_table ?u)(i := (case ev of STD _ \<Rightarrow> (event_table ?u i)\<lparr>cookie := event_cookie_counter ?u\<rparr> | LIGHT _ \<Rightarrow> event_table ?u i)),
         event_cookie_counter := event_cookie_counter ?u + cookies_used ev, heap := h'\<rparr>)"
     "event_pool im n (?u\<lparr>heap := h'\<rparr>) ((Q(FreeEventQ := fs))(put_queue intr s := (Q(FreeEventQ := fs)) (put_queue intr s) @ [i])) (insert i held - {i})"
    using put_event_push [OF te Pu] by fastforce
  have "?u\<lparr>event_table := (event_table ?u)(i := (case ev of STD _ \<Rightarrow> (event_table ?u i)\<lparr>cookie := event_cookie_counter ?u\<rparr> | LIGHT _ \<Rightarrow> event_table ?u i)),
         event_cookie_counter := event_cookie_counter ?u + cookies_used ev, heap := h'\<rparr> = posted ev i h' s"
    using nd by (cases ev) (simp_all add: posted_def stored_event_def upd_event_def copy_event_def delayed_put_def)
  moreover have "event_pool im n (posted ev i h' s) (Q(FreeEventQ := fs, put_queue intr s := Q (put_queue intr s) @ [i])) held"
    using h'(2) i put_queue_header(2) [of intr s] by (simp add: event_pool_def)
  ultimately show ?thesis using h'(1) by auto
qed

lemma put_event_nomem:
  assumes P: "event_pool im n s Q held" and nd: "\<not> delayed_put ev" and Q: "Q FreeEventQ = []"
  shows "\<exists>h. put_event im ev intr s = (if strict_checks (image_build im) then None else Some (FWK_E_NOMEM, ev, s\<lparr>heap := h\<rparr>)) \<and>
     event_pool im n (s\<lparr>heap := h\<rparr>) Q held"
  using duplicate_event_none [OF P Q, of "image_build im" ev]
  by (auto simp: put_event_def take_event_new [OF nd] fwk_status_defs)

lemma put_event_delayed:
  assumes P: "event_pool im n s Q held" and ev: "ev = STD e" "is_delayed_response e"
    and l: "fwk_get_delayed_response_list im (source_id e) s = Some l"
    and f: "find (\<lambda>k. cookie (event_table s k) = cookie e) (Q l) = Some i" and i: "i \<notin> held"
  shows "\<exists>h. put_event im ev intr s = Some (FWK_SUCCESS, stamped ev (event_cookie_counter s), posted ev i h s) \<and>
     event_pool im n (posted ev i h s) (Q(l := remove1 i (Q l), put_queue intr s := Q (put_queue intr s) @ [i])) held"
proof -
  have mem: "i \<in> set (Q l)" using find_Some_mem [OF f] by blast
  have lh: "l \<in> event_headers im (module_ctx_table s)" "put_queue intr s \<noteq> l"
    using delayed_list_header [OF l] by (auto simp: put_queue_def)
  obtain h where h: "fwk_slist_remove (image_build im) l (EventNode i) (heap s) = Some h"
      "event_pool im n (s\<lparr>heap := h\<rparr>) (Q(l := remove1 i (Q l))) (insert i held)"
    using event_pool_remove [OF P lh(1) mem] by blast
  let ?u = "upd_event i (\<lambda>a. a\<lparr>params := params e\<rparr>) (s\<lparr>heap := h\<rparr>)"
  have te: "take_event im ev s = Some (FWK_SUCCESS, i, ?u)"
    using h(1) ev l f search_delayed [OF P l] by (simp add: take_event_def)
  have Pu: "event_pool im n ?u (Q(l := remove1 i (Q l))) (insert i held)" using h(2) by simp
  obtain h' where h': "put_event im ev intr s = Some (FWK_SUCCESS, stamped ev (event_cookie_counter ?u),
       ?u\<lparr>event_table := (event_table ?u)(i := (case ev of STD _ \<Rightarrow> (event_table ?u i)\<lparr>cookie := event_cookie_counter ?u\<rparr> | LIGHT _ \<Rightarrow> event_table ?u i)),
         event_cookie_counter := event_cookie_counter ?u + cookies_used ev, heap := h'\<rparr>)"
     "event_pool im n (?u\<lparr>heap := h'\<rparr>) ((Q(l := remove1 i (Q l)))(put_queue intr s := (Q(l := remove1 i (Q l))) (put_queue intr s) @ [i])) (insert i held - {i})"
    using put_event_push [OF te Pu] by fastforce
  have "?u\<lparr>event_table := (event_table ?u)(i := (case ev of STD _ \<Rightarrow> (event_table ?u i)\<lparr>cookie := event_cookie_counter ?u\<rparr> | LIGHT _ \<Rightarrow> event_table ?u i)),
         event_cookie_counter := event_cookie_counter ?u + cookies_used ev, heap := h'\<rparr> = posted ev i h' s"
    using ev by (simp add: posted_def stored_event_def upd_event_def)
  moreover have "event_pool im n (posted ev i h' s) (Q(l := remove1 i (Q l), put_queue intr s := Q (put_queue intr s) @ [i])) held"
    using h'(2) i lh(2) by (simp add: event_pool_def)
  ultimately show ?thesis using h'(1) by auto
qed

lemma put_event_delayed_missing:
  assumes P: "event_pool im n s Q held" and ev: "ev = STD e" "is_delayed_response e"
    and l: "fwk_get_delayed_response_list im (source_id e) s = Some l"
    and f: "find (\<lambda>k. cookie (event_table s k) = cookie e) (Q l) = None"
  shows "put_event im ev intr s = Some (FWK_E_PARAM, ev, s)"
  using search_delayed [OF P l] ev f by (simp add: put_event_def take_event_def fwk_status_defs)

text \<open>Every list of the pool has distinct members, none of them held.\<close>

lemma event_pool_members:
  assumes "event_pool im n s Q held" "l \<in> event_headers im (module_ctx_table s)"
  shows "distinct (Q l)" "set (Q l) \<inter> held = {}" "set (Q l) \<subseteq> {..<n}"
proof -
  note P = assms(1) [unfolded event_pool_def]
  have "distinct (map EventNode (Q l))" by (rule slist_rep_D(2) [OF poolD(2) [OF P assms(2)]])
  then show "distinct (Q l)" by (simp add: distinct_map)
  show "set (Q l) \<inter> held = {}" using poolD(4) [OF P assms(2)] by auto
  show "set (Q l) \<subseteq> {..<n}" using poolD(6) [OF P assms(2)] by auto
qed

lemma put_event_pool:
  assumes P: "event_pool im n s Q held" and e: "put_event im ev intr s = Some (st, ev', t)"
  shows "\<exists>Q'. event_pool im n t Q' held \<and> module_ctx_table t = module_ctx_table s \<and> current_event t = current_event s"
proof (cases "delayed_put ev")
  case False
  show ?thesis
  proof (cases "Q FreeEventQ")
    case Nil
    then show ?thesis using put_event_nomem [OF P False, of intr] e by (auto split: if_splits)
  next
    case (Cons i fs)
    then have "i \<notin> held" using event_pool_members(2) [OF P event_headers_fixed(1)] by auto
    from put_event_new [OF P False Cons this, of intr] show ?thesis using e by fastforce
  qed
next
  case True
  then obtain x where x: "ev = STD x" "is_delayed_response x" by (cases ev) (auto simp: delayed_put_def)
  obtain l where l: "fwk_get_delayed_response_list im (source_id x) s = Some l"
    using e x by (auto simp: put_event_def take_event_def fwk_search_delayed_response_def bind_Some_iff)
  show ?thesis
  proof (cases "find (\<lambda>k. cookie (event_table s k) = cookie x) (Q l)")
    case None
    then show ?thesis using put_event_delayed_missing [OF P x l] e P by auto
  next
    case (Some i)
    then have "i \<notin> held"
      using event_pool_members(2) [OF P, of l] delayed_list_header [OF l] find_Some_mem [OF Some] by blast
    from put_event_delayed [OF P x l Some this, of intr] show ?thesis using e by fastforce
  qed
qed

section \<open>The running system\<close>

text \<open>
  What code outside the core can do to the state while the system runs: post an event through
  the public interface, in thread or interrupt context, enter and leave an interrupt handler,
  change lists that are not the core's (subscriptions), and change its own data. Interrupts arrive
  between these steps, and so not within the search of a list of delayed responses, which the code
  does not protect.
\<close>

definition core_addresses :: "addr set" where
  "core_addresses = {FreeEventQ, IsrEventQ, EventQ} \<union> range ModDelayed \<union> range (case_prod ElemDelayed) \<union> range EventNode"

inductive api_step :: "('d, 'z) core_image \<Rightarrow> ('d, 'z) fwk_ctx_scheme \<Rightarrow> ('d, 'z) fwk_ctx_scheme \<Rightarrow> bool" for im where
  put: "fwk_put_event im ev s = Some (st, ev', t) \<Longrightarrow> api_step im s t"
| put_light: "fwk_put_event_light im evl s = Some (st, ev', t) \<Longrightarrow> api_step im s t"
| put_notification: "fwk_put_notification im e s = Some (st, ev', t) \<Longrightarrow> api_step im s t"
| isr_enter: "\<not> in_isr s \<Longrightarrow> api_step im s (s\<lparr>in_isr := True\<rparr>)"
| isr_exit: "in_isr s \<Longrightarrow> api_step im s (s\<lparr>in_isr := False\<rparr>)"
| other_lists: "same_outside S (heap s) h \<Longrightarrow> S \<inter> core_addresses = {} \<Longrightarrow> api_step im s (s\<lparr>heap := h\<rparr>)"
| own_data: "api_step im s (fwk_ctx.more_update f s)"

text \<open>The handlers of an image act through that interface only.\<close>

definition handlers_use_api :: "('d, 'z) core_image \<Rightarrow> bool" where
  "handlers_use_api im \<longleftrightarrow>
     (\<forall>m < idx_count im. \<forall>f ev resp s st r t.
        (cb_process_event (module_table im ! m) = Some f \<or> cb_process_notification (module_table im ! m) = Some f) \<longrightarrow>
        f ev resp s = Some (st, r, t) \<longrightarrow> (api_step im)\<^sup>*\<^sup>* s t)"

inductive sys_step :: "('d, 'z) core_image \<Rightarrow> ('d, 'z) fwk_ctx_scheme \<Rightarrow> ('d, 'z) fwk_ctx_scheme \<Rightarrow> bool" for im where
  api: "api_step im s t \<Longrightarrow> sys_step im s t"
| dispatch: "current_event s = None \<Longrightarrow> process_next_event im s = Some t \<Longrightarrow> sys_step im s t"
| isr_pull: "process_isr im s = Some (b, t) \<Longrightarrow> sys_step im s t"

definition core_inv :: "('d, 'z) core_image \<Rightarrow> nat \<Rightarrow> nat set \<Rightarrow> ('d, 'z) fwk_ctx_scheme \<Rightarrow> ('d, 'z) fwk_ctx_scheme \<Rightarrow> bool" where
  "core_inv im n held s t \<longleftrightarrow>
     (\<exists>Q. event_pool im n t Q held) \<and> module_ctx_table t = module_ctx_table s \<and> current_event t = current_event s"

lemma core_inv_put:
  assumes "core_inv im n held s0 s" "put_event im ev intr s = Some (st, ev', t)"
  shows "core_inv im n held s0 t"
  using put_event_pool [OF _ assms(2)] assms(1) by (fastforce simp: core_inv_def)

lemma fwk_put_event_cases:
  assumes "fwk_put_event im ev s = Some (st, ev', t)"
  shows "t = s \<or> (\<exists>e intr ev''. put_event im (STD e) intr s = Some (st, ev'', t))"
  using assms unfolding fwk_put_event_def
  by (auto simp: bind_Some_iff Let_def split: if_splits option.splits)

lemma fwk_put_event_light_cases:
  assumes "fwk_put_event_light im ev s = Some (st, ev', t)"
  shows "t = s \<or> (\<exists>e intr ev''. put_event im (LIGHT e) intr s = Some (st, ev'', t))"
  using assms unfolding fwk_put_event_light_def
  by (auto simp: bind_Some_iff Let_def split: if_splits option.splits)

lemma event_headers_core: "event_headers im tbl \<union> EventNode ` {..<n} \<subseteq> core_addresses"
  by (auto simp: event_headers_def core_addresses_def)

lemma core_inv_other_lists:
  assumes I: "core_inv im n held s0 s" and so: "same_outside S (heap s) h" and S: "S \<inter> core_addresses = {}"
  shows "core_inv im n held s0 (s\<lparr>heap := h\<rparr>)"
proof -
  obtain Q where "event_pool im n s Q held" using I by (auto simp: core_inv_def)
  moreover have "S \<inter> (event_headers im (module_ctx_table s) \<union> EventNode ` {..<n}) = {}"
    using S event_headers_core by blast
  ultimately have "event_pool im n (s\<lparr>heap := h\<rparr>) Q held"
    using sl.pool_frame [OF _ so] by (simp add: event_pool_def)
  then show ?thesis using I by (auto simp: core_inv_def)
qed

lemma api_step_inv: "api_step im s t \<Longrightarrow> core_inv im n held s0 s \<Longrightarrow> core_inv im n held s0 t"
proof (induction rule: api_step.induct)
  case (put ev s st ev' t)
  then show ?case using fwk_put_event_cases [OF put(1)] core_inv_put by metis
next
  case (put_light evl s st ev' t)
  then show ?case using fwk_put_event_light_cases [OF put_light(1)] core_inv_put by metis
next
  case (put_notification e s st ev' t)
  then show ?case using core_inv_put by (metis fwk_put_notification_def)
next
  case (other_lists S s h)
  then show ?case by (rule core_inv_other_lists [rotated])
qed (auto simp: core_inv_def)

lemma api_steps_inv: "(api_step im)\<^sup>*\<^sup>* s t \<Longrightarrow> core_inv im n held s0 s \<Longrightarrow> core_inv im n held s0 t"
  by (induction rule: rtranclp_induct) (auto intro: api_step_inv)

text \<open>Posting an event touches no list but the core's own, and nothing of the data of modules.\<close>

lemma event_pool_outside:
  assumes P: "event_pool im n s Q held" and l: "l \<in> event_headers im (module_ctx_table s)"
  shows "pop_event bc l s = Some (r, t) \<Longrightarrow> same_outside core_addresses (heap s) (heap t)"
    "i \<in> held \<Longrightarrow> push_event bc l i s = Some t \<Longrightarrow> same_outside core_addresses (heap s) (heap t)"
    "i \<in> set (Q l) \<Longrightarrow> fwk_slist_remove bc l (EventNode i) (heap s) = Some h \<Longrightarrow> same_outside core_addresses (heap s) h"
proof -
  note P' = P [unfolded event_pool_def]
  have sub: "event_headers im (module_ctx_table s) \<union> EventNode ` {..<n} \<subseteq> core_addresses" by (rule event_headers_core)
  show "same_outside core_addresses (heap s) (heap t)" if p: "pop_event bc l s = Some (r, t)"
  proof -
    obtain r' h where "fwk_slist_pop_head bc l (heap s) = Some (r', h)" "heap t = h"
      using p by (auto simp: pop_event_def bind_Some_iff split: option.splits)
    then show ?thesis using same_outside_mono [OF sl.pool_pop_outside [OF P' l] sub] by blast
  qed
  show "same_outside core_addresses (heap s) (heap t)" if p: "i \<in> held" "push_event bc l i s = Some t"
  proof -
    obtain h where "fwk_slist_push_tail bc l (EventNode i) (heap s) = Some h" "heap t = h"
      using p(2) by (auto simp: push_event_def bind_Some_iff)
    then show ?thesis using same_outside_mono [OF sl.pool_push_outside [OF P' l] sub] p(1) by blast
  qed
  show "same_outside core_addresses (heap s) h" if "i \<in> set (Q l)" "fwk_slist_remove bc l (EventNode i) (heap s) = Some h"
    by (rule same_outside_mono [OF sl.pool_remove_outside [OF P' l _ that(2)] sub]) (use that(1) in simp)
qed

lemma same_outside_join: "same_outside S h h' \<Longrightarrow> same_outside S h' h'' \<Longrightarrow> same_outside S h h''"
  by (rule same_outside_trans) auto

lemma put_event_new_outside:
  assumes P: "event_pool im n s Q held" and nd: "\<not> delayed_put ev" and e: "put_event im ev intr s = Some (st, ev', t)"
  shows "same_outside core_addresses (heap s) (heap t)"
proof (cases "Q FreeEventQ")
  case Nil
  from duplicate_event_none [OF P Nil, of "image_build im" ev] obtain h where
    h: "duplicate_event (image_build im) ev s = (if strict_checks (image_build im) then None else Some (None, s\<lparr>heap := h\<rparr>))" by blast
  then have "t = s\<lparr>heap := h\<rparr>" "pop_event (image_build im) FreeEventQ s = Some (None, s\<lparr>heap := h\<rparr>)"
    using e event_pool_pop_empty [OF P event_headers_fixed(1) Nil, of "image_build im"]
    by (auto simp: put_event_def take_event_new [OF nd] duplicate_event_def fwk_status_defs fwk_unexpected_def split: if_splits)
  then show ?thesis using event_pool_outside(1) [OF P event_headers_fixed(1)] by blast
next
  case (Cons i fs)
  obtain h where pop: "pop_event (image_build im) FreeEventQ s = Some (Some i, s\<lparr>heap := h\<rparr>)"
      and P1: "event_pool im n (s\<lparr>heap := h\<rparr>) (Q(FreeEventQ := fs)) (insert i held)"
    using event_pool_pop [OF P event_headers_fixed(1) Cons] by blast
  let ?v = "upd_event i (copy_event ev) (s\<lparr>heap := h\<rparr>)"
  have P2: "event_pool im n ?v (Q(FreeEventQ := fs)) (insert i held)" using P1 by simp
  have te: "take_event im ev s = Some (FWK_SUCCESS, i, ?v)"
    using pop event_pool_unlink [OF P2, of i] by (simp add: take_event_new [OF nd] duplicate_event_def)
  obtain q w where w: "push_event (image_build im) q i w = Some t" "q \<in> {EventQ, IsrEventQ}" "heap w = h" "event_pool im n w (Q(FreeEventQ := fs)) (insert i held)"
    using e te P2 by (cases ev) (auto simp: put_event_def bind_Some_iff Let_def)
  have "q \<in> event_headers im (module_ctx_table w)" using w(2) by auto
  from event_pool_outside(2) [OF w(4) this _ w(1)] have "same_outside core_addresses h (heap t)" using w(3) by simp
  moreover have "same_outside core_addresses (heap s) h" using event_pool_outside(1) [OF P event_headers_fixed(1) pop] by simp
  ultimately show ?thesis by (rule same_outside_join [rotated])
qed

text \<open>After a handler, the response is posted or kept, and the event goes back to the free list.\<close>

lemma core_inv_push:
  assumes P: "event_pool im n s Q (insert i held)" and l: "l \<in> event_headers im (module_ctx_table s)" and i: "i \<notin> held"
    and e: "push_event bc l i s = Some t"
  shows "core_inv im n held s t"
proof -
  have "insert i held - {i} = held" using i by auto
  then obtain h where "push_event bc l i s = Some (s\<lparr>heap := h\<rparr>)" "event_pool im n (s\<lparr>heap := h\<rparr>) (Q(l := Q l @ [i])) held"
    using event_pool_push [OF P l, of i bc] by auto
  then show ?thesis using e unfolding core_inv_def by auto
qed

lemma core_inv_trans: "core_inv im n held s u \<Longrightarrow> core_inv im n held' u t \<Longrightarrow> core_inv im n held' s t"
  by (auto simp: core_inv_def)

lemma send_response_inv:
  assumes I: "core_inv im n held s0 s" and e: "send_response im resp s = Some t"
  shows "core_inv im n held s0 t"
proof (cases "is_delayed_response resp")
  case False
  then show ?thesis using e core_inv_put [OF I] by (auto simp: send_response_def bind_Some_iff Let_def)
next
  case True
  let ?ev = "STD (resp\<lparr>is_response := True, response_requested := False\<rparr>)"
  obtain Q where Q: "event_pool im n s Q held" using I by (auto simp: core_inv_def)
  show ?thesis
  proof (cases "Q FreeEventQ")
    case Nil
    from duplicate_event_none [OF Q this, of "image_build im" ?ev] obtain h where
        "t = s\<lparr>heap := h\<rparr>" "event_pool im n (s\<lparr>heap := h\<rparr>) Q held"
      using e True by (auto simp: send_response_def Let_def bind_Some_iff split: if_splits)
    then show ?thesis using I by (auto simp: core_inv_def)
  next
    case (Cons i fs)
    from duplicate_event_ok [OF Q Cons, of "image_build im" ?ev] obtain h where
        d: "duplicate_event (image_build im) ?ev s = Some (Some i, upd_event i (copy_event ?ev) (s\<lparr>heap := h\<rparr>))"
        and P: "event_pool im n (upd_event i (copy_event ?ev) (s\<lparr>heap := h\<rparr>)) (Q(FreeEventQ := fs)) (insert i held)"
      by auto
    let ?u = "upd_event i (copy_event ?ev) (s\<lparr>heap := h\<rparr>)"
    obtain l where l: "fwk_get_delayed_response_list im (source_id resp) ?u = Some l"
        and pu: "push_event (image_build im) l i ?u = Some t"
      using e True d by (auto simp: send_response_def bind_Some_iff Let_def)
    have i: "i \<notin> held" using event_pool_members(2) [OF Q event_headers_fixed(1)] Cons by auto
    have "core_inv im n held ?u t"
      using core_inv_push [OF P _ i pu] delayed_list_header [OF l] by blast
    then show ?thesis using I by (auto simp: core_inv_def)
  qed
qed

lemma run_handler_inv:
  assumes api: "handlers_use_api im" and m: "m < idx_count im"
    and f: "cb_process_event (module_table im ! m) = Some f \<or> cb_process_notification (module_table im ! m) = Some f"
    and I: "core_inv im n held s0 s" and e: "run_handler im f event s = Some t"
  shows "core_inv im n held s0 t"
proof -
  have hs: "core_inv im n held s0 u" if "f event r s = Some (st, r', u)" for r st r' u
  proof -
    have "(api_step im)\<^sup>*\<^sup>* s u" using api m f that unfolding handlers_use_api_def by blast
    then show ?thesis using I by (rule api_steps_inv)
  qed
  show ?thesis
  proof (cases "response_requested event")
    case True
    then obtain st r u where "f event (Some (event\<lparr>source_id := target_id event, target_id := source_id event,
          is_delayed_response := False\<rparr>)) s = Some (st, r, u)" "send_response im r u = Some t"
      using e by (auto simp: run_handler_def bind_Some_iff Let_def)
    then show ?thesis using hs send_response_inv by blast
  next
    case False
    then show ?thesis using e hs by (auto simp: run_handler_def bind_Some_iff)
  qed
qed

lemma process_next_event_parts:
  assumes P: "event_pool im n s Q {}" and e: "process_next_event im s = Some t"
  obtains i xs h m f u where "Q EventQ = i # xs" "event_pool im n (s\<lparr>heap := h\<rparr>) (Q(EventQ := xs)) {i}"
    "m < idx_count im" "cb_process_event (module_table im ! m) = Some f \<or> cb_process_notification (module_table im ! m) = Some f"
    "run_handler im f (event_table s i) (s\<lparr>heap := h, current_event := Some i\<rparr>) = Some u"
    "free_event (image_build im) i (u\<lparr>current_event := None\<rparr>) = Some t"
proof (cases "Q EventQ")
  case Nil
  from event_pool_pop_empty [OF P event_headers_fixed(3) this, of "image_build im"] e show ?thesis
    by (auto simp: process_next_event_def)
next
  case (Cons i xs)
  from event_pool_pop [OF P event_headers_fixed(3) this, of "image_build im"] obtain h where
    h: "pop_event (image_build im) EventQ s = Some (Some i, s\<lparr>heap := h\<rparr>)" "event_pool im n (s\<lparr>heap := h\<rparr>) (Q(EventQ := xs)) {i}"
    by blast
  obtain m f u where m: "fwk_module_get_ctx im (target_id (event_table s i)) = Some m"
      and f: "(if is_notification (event_table s i) then cb_process_notification (module_table im ! m)
                         else cb_process_event (module_table im ! m)) = Some f"
      and u: "run_handler im f (event_table s i) (s\<lparr>heap := h, current_event := Some i\<rparr>) = Some u"
        "free_event (image_build im) i (u\<lparr>current_event := None\<rparr>) = Some t"
    using e h(1) by (auto simp: process_next_event_def bind_Some_iff Let_def)
  have "m < idx_count im" using m by (auto simp: fwk_module_get_ctx_def bind_Some_iff)
  moreover have "cb_process_event (module_table im ! m) = Some f \<or> cb_process_notification (module_table im ! m) = Some f"
    using f by (auto split: if_splits)
  ultimately show ?thesis using that Cons h(2) u by blast
qed

lemma process_next_event_inv:
  assumes api: "handlers_use_api im" and P: "event_pool im n s Q {}" and e: "process_next_event im s = Some t"
  shows "core_inv im n {} (s\<lparr>current_event := None\<rparr>) t"
proof -
  obtain i xs h m f u where 1: "event_pool im n (s\<lparr>heap := h\<rparr>) (Q(EventQ := xs)) {i}" "m < idx_count im"
      "cb_process_event (module_table im ! m) = Some f \<or> cb_process_notification (module_table im ! m) = Some f"
      "run_handler im f (event_table s i) (s\<lparr>heap := h, current_event := Some i\<rparr>) = Some u"
      "free_event (image_build im) i (u\<lparr>current_event := None\<rparr>) = Some t"
    using process_next_event_parts [OF P e] by metis
  let ?s = "s\<lparr>heap := h, current_event := Some i\<rparr>"
  have "core_inv im n {i} ?s ?s" using 1(1) by (auto simp: core_inv_def)
  then have u: "core_inv im n {i} ?s u" using run_handler_inv [OF api 1(2,3)] 1(4) by blast
  then obtain Q' where Q': "event_pool im n (u\<lparr>current_event := None\<rparr>) Q' (insert i {})" by (auto simp: core_inv_def)
  have "core_inv im n {} (u\<lparr>current_event := None\<rparr>) t"
    by (rule core_inv_push [OF Q' event_headers_fixed(1)]) (use 1(5) in \<open>auto simp: free_event_def\<close>)
  then show ?thesis using u by (auto simp: core_inv_def)
qed

lemma process_isr_inv:
  assumes P: "event_pool im n s Q held" and e: "process_isr im s = Some (b, t)"
  shows "core_inv im n held s t"
proof (cases "Q IsrEventQ")
  case Nil
  from event_pool_pop_empty [OF P event_headers_fixed(2) this, of "image_build im"] e show ?thesis
    by (auto simp: process_isr_def core_inv_def)
next
  case (Cons i xs)
  from event_pool_pop [OF P event_headers_fixed(2) this, of "image_build im"] obtain h where
    h: "pop_event (image_build im) IsrEventQ s = Some (Some i, s\<lparr>heap := h\<rparr>)"
      "event_pool im n (s\<lparr>heap := h\<rparr>) (Q(IsrEventQ := xs)) (insert i held)"
    by blast
  have i: "i \<notin> held" using event_pool_members(2) [OF P event_headers_fixed(2)] Cons by auto
  have "push_event (image_build im) EventQ i (s\<lparr>heap := h\<rparr>) = Some t"
    using e h(1) by (auto simp: process_isr_def bind_Some_iff)
  from core_inv_push [OF h(2) event_headers_fixed(3) i this] show ?thesis by (auto simp: core_inv_def)
qed

definition event_conserved :: "('d, 'z) core_image \<Rightarrow> nat \<Rightarrow> ('d, 'z) fwk_ctx_scheme \<Rightarrow> bool" where
  "event_conserved im n s \<longleftrightarrow> (\<exists>Q. event_pool im n s Q (set_option (current_event s)))"

lemma sys_step_inv:
  "sys_step im s t \<Longrightarrow> handlers_use_api im \<Longrightarrow> event_conserved im n s \<Longrightarrow> event_conserved im n t"
proof (induction rule: sys_step.induct)
  case (api s t)
  have "core_inv im n (set_option (current_event s)) s s" using api.prems(2) by (auto simp: event_conserved_def core_inv_def)
  then show ?case using api_step_inv [OF api.hyps] by (fastforce simp: event_conserved_def core_inv_def)
next
  case (dispatch s t)
  then obtain Q where "event_pool im n s Q {}" by (auto simp: event_conserved_def)
  from process_next_event_inv [OF dispatch.prems(1) this dispatch.hyps(2)]
  show ?case by (auto simp: event_conserved_def core_inv_def)
next
  case (isr_pull s b t)
  then obtain Q where "event_pool im n s Q (set_option (current_event s))" by (auto simp: event_conserved_def)
  from process_isr_inv [OF this isr_pull.hyps] show ?case by (auto simp: event_conserved_def core_inv_def)
qed

lemma sys_steps_inv:
  "(sys_step im)\<^sup>*\<^sup>* s t \<Longrightarrow> handlers_use_api im \<Longrightarrow> event_conserved im n s \<Longrightarrow> event_conserved im n t"
  by (induction rule: rtranclp_induct) (auto intro: sys_step_inv)

text \<open>Initialisation puts every event structure on the free list.\<close>

lemma init_headers_outside:
  "same_outside ({FreeEventQ, EventQ, IsrEventQ} \<union> EventNode ` {..<n}) h
     (fwk_slist_init bc IsrEventQ (fwk_slist_init bc EventQ (fwk_slist_init bc FreeEventQ (zero_event_nodes n h))))"
  by (auto simp: zero_event_nodes_def same_outside_def fwk_slist_init_def upd_marks_def split: addr.splits)

lemma init_headers_rep:
  fixes h0 :: "addr list_heap" and bc :: build
  defines "h \<equiv> fwk_slist_init bc IsrEventQ (fwk_slist_init bc EventQ (fwk_slist_init bc FreeEventQ h0))"
  shows "slist_rep h FreeEventQ []" "slist_rep h EventQ []" "slist_rep h IsrEventQ []"
    "next_of h (EventNode i) = next_of h0 (EventNode i)"
  by (simp_all add: h_def slist_rep_Nil fwk_slist_init_def)

lemma fwk_init_pool:
  assumes del: "\<And>l. l \<in> event_headers im (module_ctx_table s) - {FreeEventQ, EventQ, IsrEventQ} \<Longrightarrow> slist_rep (heap s) l []"
    and n: "0 < n" and mem: "calloc_ok im (allocs s) n"
  shows "\<exists>t. fwk_init im n s = Some (FWK_SUCCESS, t) \<and> event_pool im n t ((\<lambda>_. [])(FreeEventQ := [0..<n])) {} \<and>
     module_ctx_table t = module_ctx_table s \<and> current_event t = current_event s"
proof -
  let ?H = "event_headers im (module_ctx_table s)" and ?N = "EventNode ` {..<n}"
  let ?h0 = "zero_event_nodes n (heap s)"
  let ?h = "fwk_slist_init (image_build im) IsrEventQ (fwk_slist_init (image_build im) EventQ (fwk_slist_init (image_build im) FreeEventQ ?h0))"
  have "slist_rep ?h l []" if "l \<in> ?H" for l
  proof (cases "l \<in> {FreeEventQ, EventQ, IsrEventQ}")
    case True
    then show ?thesis using init_headers_rep by fastforce
  next
    case False
    then have "slist_rep (heap s) l []" using del that by blast
    then show ?thesis
      by (rule slist_rep_frame [OF _ init_headers_outside]) (use False that in \<open>auto simp: event_headers_def\<close>)
  qed
  moreover have "?H \<inter> ?N = {}" by (auto simp: event_headers_def)
  moreover have "slist_detached ?h k" if "k \<in> ?N" for k
    using that by (auto simp: slist_detached_def init_headers_rep zero_event_nodes_def)
  ultimately have "pool slist_rep slist_detached ?H ?N ?h (\<lambda>_. []) ?N" by (simp add: pool_def)
  from sl.pool_push_all [OF this, of FreeEventQ "map EventNode [0..<n]" "image_build im"]
  obtain h' where "foldM (fwk_slist_push_tail (image_build im) FreeEventQ) (map EventNode [0..<n]) ?h = Some h'"
      and "pool slist_rep slist_detached ?H ?N h' ((\<lambda>_. [])(FreeEventQ := map EventNode [0..<n])) {}"
    by (auto simp: distinct_map inj_on_def atLeast0LessThan)
  moreover have "(\<lambda>l. map EventNode (((\<lambda>_. [])(FreeEventQ := [0..<n])) l)) = (\<lambda>_. [])(FreeEventQ := map EventNode [0..<n])" by auto
  ultimately show ?thesis
    using n mem by (simp add: fwk_init_def fwk_mm_calloc_def event_pool_def del: fun_upd_apply)
qed

lemma fwk_init_outside:
  assumes "fwk_init im n s = Some (FWK_SUCCESS, t)"
  shows "same_outside core_addresses (heap s) (heap t)"
proof -
  let ?h = "fwk_slist_init (image_build im) IsrEventQ (fwk_slist_init (image_build im) EventQ
      (fwk_slist_init (image_build im) FreeEventQ (zero_event_nodes n (heap s))))"
  have det: "slist_detached ?h k" if "k \<in> set (map EventNode [0..<n])" for k
    using that by (auto simp: slist_detached_def init_headers_rep zero_event_nodes_def)
  have "foldM (fwk_slist_push_tail (image_build im) FreeEventQ) (map EventNode [0..<n]) ?h = Some (heap t)"
    using assms by (auto simp: fwk_init_def fwk_mm_calloc_def bind_Some_iff fwk_status_defs split: if_splits)
  moreover have "distinct (map EventNode [0..<n])" "set (map EventNode [0..<n]) \<inter> set [FreeEventQ] = {}"
    by (auto simp: distinct_map inj_on_def)
  note sl.push_all [OF init_headers_rep(1) this det, of "image_build im"]
  ultimately have "same_outside (set (FreeEventQ # [] @ map EventNode [0..<n])) ?h (heap t)" by auto
  then show ?thesis by (rule same_outside_trans [OF init_headers_outside]) (auto simp: core_addresses_def)
qed

section \<open>Draining the queues\<close>

text \<open>
  A handler that always returns, posts nothing itself and leaves the identifiers and the kind
  of a response as it found them. It may answer at once or ask for a delayed response.
\<close>

definition passive_handler ::
  "(fwk_event \<Rightarrow> fwk_event option \<Rightarrow> ('d, 'z) fwk_ctx_scheme \<Rightarrow> (int \<times> fwk_event \<times> ('d, 'z) fwk_ctx_scheme) option) \<Rightarrow> bool" where
  "passive_handler f \<longleftrightarrow>
     (\<forall>ev r s. \<exists>st r' g. f ev r s = Some (st, r', fwk_ctx.more_update g s) \<and>
        (\<forall>x. r = Some x \<longrightarrow> source_id r' = source_id x \<and> target_id r' = target_id x \<and> is_notification r' = is_notification x))"

lemma passive_handlerD:
  "passive_handler f \<Longrightarrow> \<exists>st r' g. f ev r s = Some (st, r', fwk_ctx.more_update g s) \<and>
     (\<forall>x. r = Some x \<longrightarrow> source_id r' = source_id x \<and> target_id r' = target_id x \<and> is_notification r' = is_notification x)"
  by (simp add: passive_handler_def)

definition passive_image :: "('d, 'z) core_image \<Rightarrow> bool" where
  "passive_image im \<longleftrightarrow>
     (\<forall>m < idx_count im. (\<exists>f. cb_process_event (module_table im ! m) = Some f \<and> passive_handler f) \<and>
        (\<exists>f. cb_process_notification (module_table im ! m) = Some f \<and> passive_handler f))"

definition deliverable :: "('d, 'z) core_image \<Rightarrow> 'd module_context list \<Rightarrow> fwk_event \<Rightarrow> bool" where
  "deliverable im tbl e \<longleftrightarrow> fwk_module_get_ctx im (target_id e) \<noteq> None \<and>
     (response_requested e \<longrightarrow> fwk_module_get_ctx im (source_id e) \<noteq> None \<and>
        (id_type (target_id e) = FWK_ID_TYPE_MODULE \<or>
         unat (id_element_idx (target_id e)) < length (element_ctx_table (tbl ! unat (id_module_idx (target_id e))))))"

definition event_weight :: "fwk_event \<Rightarrow> nat" where
  "event_weight e = (if response_requested e then 2 else 1)"

definition queue_weight :: "(nat \<Rightarrow> fwk_event) \<Rightarrow> (addr \<Rightarrow> nat list) \<Rightarrow> nat" where
  "queue_weight et Q =
     (\<Sum>i\<leftarrow>Q EventQ. 2 * event_weight (et i)) + (\<Sum>i\<leftarrow>Q IsrEventQ. 2 * event_weight (et i) + 1)"

text \<open>The states in which the queues can be drained: every queued event can be delivered, and in
  a build that asserts on allocation failure a structure is free.\<close>

definition ready :: "('d, 'z) core_image \<Rightarrow> nat \<Rightarrow> ('d, 'z) fwk_ctx_scheme \<Rightarrow> (addr \<Rightarrow> nat list) \<Rightarrow> bool" where
  "ready im n s Q \<longleftrightarrow> event_pool im n s Q {} \<and> \<not> in_isr s \<and>
     (\<forall>i \<in> set (Q EventQ) \<union> set (Q IsrEventQ). deliverable im (module_ctx_table s) (event_table s i)) \<and>
     (strict_checks (image_build im) \<longrightarrow> Q FreeEventQ \<noteq> [])"

lemma get_ctx_id: "fwk_module_get_ctx im i = Some m \<Longrightarrow> fwk_id_type_is_valid i \<and> m = unat (id_module_idx i) \<and> m < idx_count im"
  by (auto simp: fwk_module_get_ctx_def bind_Some_iff fwk_id_get_module_idx_iff)

lemma delayed_list_exists:
  assumes "deliverable im (module_ctx_table s) e" "response_requested e"
  shows "\<exists>l. fwk_get_delayed_response_list im (target_id e) s = Some l"
proof -
  obtain m where m: "fwk_module_get_ctx im (target_id e) = Some m" using assms by (auto simp: deliverable_def)
  note g = get_ctx_id [OF m]
  show ?thesis
    using assms m g
    by (auto simp: fwk_get_delayed_response_list_def fwk_id_is_type_valid fwk_module_get_element_ctx_def deliverable_def Let_def)
qed

lemma weight_cong: "(\<And>i. i \<in> set xs \<Longrightarrow> et i = et' i) \<Longrightarrow>
    (\<Sum>i\<leftarrow>xs. 2 * event_weight (et i) + c) = (\<Sum>i\<leftarrow>xs. 2 * event_weight (et' i) + c)"
  by (induction xs) auto

text \<open>What is left of the framework state after a passive handler's event was dealt with, before
  the event itself is freed: at most one new event, not a request, was queued.\<close>

lemma send_response_passive:
  assumes P: "event_pool im n s Q {i}" and isr: "\<not> in_isr s" and st: "strict_checks (image_build im) \<Longrightarrow> Q FreeEventQ \<noteq> []"
    and l: "\<And>u. module_ctx_table u = module_ctx_table s \<Longrightarrow> \<exists>l. fwk_get_delayed_response_list im (source_id r) u = Some l"
  shows "\<exists>t Q'. send_response im r s = Some t \<and> event_pool im n t Q' {i} \<and> module_ctx_table t = module_ctx_table s \<and>
     \<not> in_isr t \<and> Q' IsrEventQ = Q IsrEventQ \<and>
     (Q' EventQ = Q EventQ \<or>
      (\<exists>j e. Q' EventQ = Q EventQ @ [j] \<and> event_table t j = e \<and> \<not> response_requested e \<and> target_id e = target_id r)) \<and>
     (\<forall>k \<in> set (Q EventQ) \<union> set (Q IsrEventQ). event_table t k = event_table s k)"
proof (cases "Q FreeEventQ")
  case Nil
  then have lax: "\<not> strict_checks (image_build im)" using st by auto
  let ?r = "STD (r\<lparr>is_response := True, response_requested := False\<rparr>)"
  show ?thesis
  proof (cases "is_delayed_response r")
    case True
    from duplicate_event_none [OF P Nil, of "image_build im" ?r] obtain h where
      "duplicate_event (image_build im) ?r s = Some (None, s\<lparr>heap := h\<rparr>)" "event_pool im n (s\<lparr>heap := h\<rparr>) Q {i}"
      using lax by auto
    then show ?thesis using True isr by (auto simp: send_response_def)
  next
    case False
    then have "\<not> delayed_put ?r" by (simp add: delayed_put_def)
    from put_event_nomem [OF P this Nil, of UNKNOWN_STATE] obtain h where
      "put_event im ?r UNKNOWN_STATE s = Some (FWK_E_NOMEM, ?r, s\<lparr>heap := h\<rparr>)" "event_pool im n (s\<lparr>heap := h\<rparr>) Q {i}"
      using lax by auto
    then show ?thesis using False isr by (auto simp: send_response_def)
  qed
next
  case (Cons j fs)
  let ?r = "STD (r\<lparr>is_response := True, response_requested := False\<rparr>)"
  have j: "j \<notin> {i}" using event_pool_members(2) [OF P event_headers_fixed(1)] Cons by auto
  have jq: "j \<notin> set (Q EventQ)" "j \<notin> set (Q IsrEventQ)"
    using poolD(3) [OF P [unfolded event_pool_def] event_headers_fixed(1) event_headers_fixed(3)]
      poolD(3) [OF P [unfolded event_pool_def] event_headers_fixed(1) event_headers_fixed(2)] Cons by auto
  show ?thesis
  proof (cases "is_delayed_response r")
    case True
    from duplicate_event_ok [OF P Cons, of "image_build im" ?r] obtain h where
      d: "duplicate_event (image_build im) ?r s = Some (Some j, upd_event j (copy_event ?r) (s\<lparr>heap := h\<rparr>))"
      and P1: "event_pool im n (upd_event j (copy_event ?r) (s\<lparr>heap := h\<rparr>)) (Q(FreeEventQ := fs)) (insert j {i})" by auto
    let ?u = "upd_event j (copy_event ?r) (s\<lparr>heap := h\<rparr>)"
    obtain l where l: "fwk_get_delayed_response_list im (source_id r) ?u = Some l" using l [of ?u] by auto
    have lh: "l \<in> event_headers im (module_ctx_table ?u)" "l \<noteq> EventQ" "l \<noteq> IsrEventQ"
      using delayed_list_header [OF l] by auto
    from event_pool_push [OF P1 lh(1), of j "image_build im"] obtain h' where
      h': "push_event (image_build im) l j ?u = Some (?u\<lparr>heap := h'\<rparr>)"
      "event_pool im n (?u\<lparr>heap := h'\<rparr>) ((Q(FreeEventQ := fs))(l := (Q(FreeEventQ := fs)) l @ [j])) (insert j {i} - {j})" by blast
    have "insert j {i} - {j} = {i}" using j by auto
    moreover have "send_response im r s = Some (?u\<lparr>heap := h'\<rparr>)" using True d l h'(1) by (simp add: send_response_def Let_def)
    ultimately show ?thesis using h'(2) lh jq isr
      by (intro exI [of _ "?u\<lparr>heap := h'\<rparr>"] exI [of _ "(Q(FreeEventQ := fs))(l := (Q(FreeEventQ := fs)) l @ [j])"]) auto
  next
    case False
    then have "\<not> delayed_put ?r" by (simp add: delayed_put_def)
    from put_event_new [OF P this Cons j, of UNKNOWN_STATE] obtain h where
      h: "put_event im ?r UNKNOWN_STATE s = Some (FWK_SUCCESS, stamped ?r (event_cookie_counter s), posted ?r j h s)"
      "event_pool im n (posted ?r j h s) (Q(FreeEventQ := fs, EventQ := Q EventQ @ [j])) {i}"
      using isr by (auto simp: put_queue_def)
    have "send_response im r s = Some (posted ?r j h s)" using False h(1) by (simp add: send_response_def Let_def)
    then show ?thesis using h(2) jq isr False
      by (intro exI [of _ "posted ?r j h s"] exI [of _ "Q(FreeEventQ := fs, EventQ := Q EventQ @ [j])"])
         (auto simp: stored_event_def)
  qed
qed

lemma run_handler_passive:
  assumes f: "passive_handler f" and P: "event_pool im n s Q {i}" and isr: "\<not> in_isr s"
    and st: "strict_checks (image_build im) \<Longrightarrow> Q FreeEventQ \<noteq> []" and d: "deliverable im (module_ctx_table s) e"
  shows "\<exists>t Q'. run_handler im f e s = Some t \<and> event_pool im n t Q' {i} \<and> module_ctx_table t = module_ctx_table s \<and>
     \<not> in_isr t \<and> Q' IsrEventQ = Q IsrEventQ \<and>
     (Q' EventQ = Q EventQ \<or>
      (\<exists>j. response_requested e \<and> Q' EventQ = Q EventQ @ [j] \<and> \<not> response_requested (event_table t j) \<and>
         target_id (event_table t j) = source_id e)) \<and>
     (\<forall>k \<in> set (Q EventQ) \<union> set (Q IsrEventQ). event_table t k = event_table s k)"
proof (cases "response_requested e")
  case False
  obtain st r g where "f e None s = Some (st, r, fwk_ctx.more_update g s)" using passive_handlerD [OF f, of e None s] by blast
  then show ?thesis using False P isr
    by (intro exI [of _ "fwk_ctx.more_update g s"] exI [of _ Q]) (simp add: run_handler_def)
next
  case True
  let ?x = "e\<lparr>source_id := target_id e, target_id := source_id e, is_delayed_response := False\<rparr>"
  obtain st r g where r0: "f e (Some ?x) s = Some (st, r, fwk_ctx.more_update g s)"
      "\<forall>x. Some ?x = Some x \<longrightarrow> source_id r = source_id x \<and> target_id r = target_id x \<and> is_notification r = is_notification x"
    using passive_handlerD [OF f, of e "Some ?x" s] by blast
  then have r: "f e (Some ?x) s = Some (st, r, fwk_ctx.more_update g s)" "source_id r = target_id e" "target_id r = source_id e"
    by simp_all
  have l: "\<exists>l. fwk_get_delayed_response_list im (source_id r) u = Some l" if "module_ctx_table u = module_ctx_table (fwk_ctx.more_update g s)" for u
    using delayed_list_exists [of im u e] d True that r(2) by simp
  have "event_pool im n (fwk_ctx.more_update g s) Q {i}" "\<not> in_isr (fwk_ctx.more_update g s)" using P isr by simp_all
  from send_response_passive [OF this st l]
  obtain t Q' where "send_response im r (fwk_ctx.more_update g s) = Some t" "event_pool im n t Q' {i}"
     "module_ctx_table t = module_ctx_table (fwk_ctx.more_update g s)"
     "\<not> in_isr t" "Q' IsrEventQ = Q IsrEventQ"
     "Q' EventQ = Q EventQ \<or> (\<exists>j e. Q' EventQ = Q EventQ @ [j] \<and> event_table t j = e \<and> \<not> response_requested e \<and> target_id e = target_id r)"
     "\<forall>k \<in> set (Q EventQ) \<union> set (Q IsrEventQ). event_table t k = event_table (fwk_ctx.more_update g s) k"
    by auto
  then show ?thesis using True r by (intro exI [of _ t] exI [of _ Q']) (auto simp: run_handler_def Let_def)
qed

lemma passive_dispatch:
  assumes im: "passive_image im" and R: "ready im n s Q" and Q: "Q EventQ = i # xs"
  shows "\<exists>t Q'. process_next_event im s = Some t \<and> ready im n t Q' \<and>
     queue_weight (event_table t) Q' < queue_weight (event_table s) Q"
proof -
  have P: "event_pool im n s Q {}" and isr: "\<not> in_isr s" and d: "deliverable im (module_ctx_table s) (event_table s i)"
    and st: "strict_checks (image_build im) \<Longrightarrow> Q FreeEventQ \<noteq> []"
    using R Q by (auto simp: ready_def)
  obtain h where h: "pop_event (image_build im) EventQ s = Some (Some i, s\<lparr>heap := h\<rparr>)"
      "event_pool im n (s\<lparr>heap := h\<rparr>) (Q(EventQ := xs)) {i}"
    using event_pool_pop [OF P event_headers_fixed(3) Q] by blast
  let ?s = "s\<lparr>heap := h, current_event := Some i\<rparr>" and ?e = "event_table s i"
  obtain m where m: "fwk_module_get_ctx im (target_id ?e) = Some m" using d by (auto simp: deliverable_def)
  have mi: "m < idx_count im" using get_ctx_id [OF m] by blast
  obtain f where f: "(if is_notification ?e then cb_process_notification (module_table im ! m) else cb_process_event (module_table im ! m)) = Some f"
      "passive_handler f"
    using im mi by (cases "is_notification ?e") (auto simp: passive_image_def)
  have P1: "event_pool im n ?s (Q(EventQ := xs)) {i}" using h(2) by simp
  have isr1: "\<not> in_isr ?s" using isr by simp
  have d1: "deliverable im (module_ctx_table ?s) ?e" using d by simp
  have st1: "strict_checks (image_build im) \<Longrightarrow> (Q(EventQ := xs)) FreeEventQ \<noteq> []" using st by simp
  obtain u Q' where u: "run_handler im f ?e ?s = Some u" "event_pool im n u Q' {i}" "module_ctx_table u = module_ctx_table s"
     "\<not> in_isr u" "Q' IsrEventQ = Q IsrEventQ"
     "Q' EventQ = xs \<or>
      (\<exists>j. response_requested ?e \<and> Q' EventQ = xs @ [j] \<and> \<not> response_requested (event_table u j) \<and> target_id (event_table u j) = source_id ?e)"
     "\<And>k. k \<in> set xs \<union> set (Q IsrEventQ) \<Longrightarrow> event_table u k = event_table s k"
    using run_handler_passive [OF f(2) P1 isr1 st1 d1] by auto
  have "event_pool im n (u\<lparr>current_event := None\<rparr>) Q' {i}" using u(2) by simp
  from event_pool_push [OF this event_headers_fixed(1), of i "image_build im"] obtain h' where
    h': "push_event (image_build im) FreeEventQ i (u\<lparr>current_event := None\<rparr>) = Some (u\<lparr>current_event := None, heap := h'\<rparr>)"
    "event_pool im n (u\<lparr>current_event := None, heap := h'\<rparr>) (Q'(FreeEventQ := Q' FreeEventQ @ [i])) {}" by auto
  let ?t = "u\<lparr>current_event := None, heap := h'\<rparr>" and ?Q = "Q'(FreeEventQ := Q' FreeEventQ @ [i])"
  have ex: "process_next_event im s = Some ?t"
    using h(1) m f(1) u(1) h'(1) by (simp add: process_next_event_def free_event_def Let_def)
  have old: "deliverable im (module_ctx_table s) (event_table u k)" if "k \<in> set xs \<union> set (Q IsrEventQ)" for k
    using that u(7) R Q by (auto simp: ready_def)
  have new: "deliverable im (module_ctx_table s) (event_table u j)" if "response_requested ?e"
      "\<not> response_requested (event_table u j)" "target_id (event_table u j) = source_id ?e" for j
    using that d by (auto simp: deliverable_def)
  have "deliverable im (module_ctx_table ?t) (event_table ?t k)" if "k \<in> set (?Q EventQ) \<union> set (?Q IsrEventQ)" for k
    using that u(3,5,6) old new by auto
  then have "ready im n ?t ?Q" using h'(2) u(4) by (auto simp: ready_def)
  moreover have "queue_weight (event_table ?t) ?Q < queue_weight (event_table s) Q"
    using u(5,6) weight_cong [of xs "event_table u" "event_table s" 0] weight_cong [of "Q IsrEventQ" "event_table u" "event_table s" 1] u(7) Q
    by (auto simp: queue_weight_def event_weight_def)
  ultimately show ?thesis using ex by blast
qed

lemma isr_pull_step:
  assumes R: "ready im n s Q" and Q: "Q EventQ = []" "Q IsrEventQ = i # xs"
  shows "\<exists>t. process_isr im s = Some (True, t) \<and> ready im n t (Q(IsrEventQ := xs, EventQ := [i])) \<and>
     queue_weight (event_table t) (Q(IsrEventQ := xs, EventQ := [i])) < queue_weight (event_table s) Q"
proof -
  have P: "event_pool im n s Q {}" using R by (simp add: ready_def)
  obtain h where h: "pop_event (image_build im) IsrEventQ s = Some (Some i, s\<lparr>heap := h\<rparr>)"
      "event_pool im n (s\<lparr>heap := h\<rparr>) (Q(IsrEventQ := xs)) {i}"
    using event_pool_pop [OF P event_headers_fixed(2) Q(2)] by blast
  from event_pool_push [OF h(2) event_headers_fixed(3), of i "image_build im"] obtain h' where
    h': "push_event (image_build im) EventQ i (s\<lparr>heap := h\<rparr>) = Some (s\<lparr>heap := h'\<rparr>)"
    "event_pool im n (s\<lparr>heap := h'\<rparr>) (Q(IsrEventQ := xs, EventQ := [i])) {}" using Q by auto
  have "process_isr im s = Some (True, s\<lparr>heap := h'\<rparr>)" using h(1) h'(1) by (simp add: process_isr_def)
  moreover have "ready im n (s\<lparr>heap := h'\<rparr>) (Q(IsrEventQ := xs, EventQ := [i]))"
    using R Q h'(2) by (auto simp: ready_def)
  ultimately show ?thesis using Q by (auto simp: queue_weight_def)
qed

lemma drain_queues:
  assumes im: "passive_image im" and R: "ready im n s Q"
  shows "\<exists>t Q'. fwk_process_event_queue im s = Some t \<and> event_pool im n t Q' {} \<and> Q' EventQ = [] \<and> Q' IsrEventQ = []"
  using R
proof (induction "queue_weight (event_table s) Q" arbitrary: s Q rule: less_induct)
  case less
  have P: "event_pool im n s Q {}" using less.prems by (simp add: ready_def)
  note e = event_pool_head(2) [OF P event_headers_fixed(3)]
  show ?case
  proof (cases "Q EventQ")
    case (Cons i xs)
    from passive_dispatch [OF im less.prems Cons] obtain t Q' where
      t: "process_next_event im s = Some t" "ready im n t Q'" "queue_weight (event_table t) Q' < queue_weight (event_table s) Q" by blast
    from less.hyps [OF t(3,2)] show ?thesis
      using e Cons t(1) by (subst fwk_process_event_queue.simps) simp
  next
    case Nil
    show ?thesis
    proof (cases "Q IsrEventQ")
      case Nil': Nil
      from event_pool_pop_empty [OF P event_headers_fixed(2) this, of "image_build im"] obtain h where
        "pop_event (image_build im) IsrEventQ s = Some (None, s\<lparr>heap := h\<rparr>)" "event_pool im n (s\<lparr>heap := h\<rparr>) Q {}" by blast
      then show ?thesis using e Nil Nil'
        by (subst fwk_process_event_queue.simps) (auto simp: process_isr_def)
    next
      case (Cons i xs)
      from isr_pull_step [OF less.prems Nil Cons] obtain t where
        t: "process_isr im s = Some (True, t)" "ready im n t (Q(IsrEventQ := xs, EventQ := [i]))"
          "queue_weight (event_table t) (Q(IsrEventQ := xs, EventQ := [i])) < queue_weight (event_table s) Q" by blast
      from less.hyps [OF t(3,2)] show ?thesis
        using e Nil t(1) by (subst fwk_process_event_queue.simps) simp
    qed
  qed
qed

lemma delayed_list_cong:
  "module_ctx_table t = module_ctx_table s \<Longrightarrow> fwk_get_delayed_response_list im i t = fwk_get_delayed_response_list im i s"
  by (simp add: fwk_get_delayed_response_list_def fwk_module_get_element_ctx_def cong: if_cong)

lemma send_response_delayed:
  assumes P: "event_pool im n s Q held" and F: "Q FreeEventQ = j # fs" and d: "is_delayed_response r"
    and l: "fwk_get_delayed_response_list im (source_id r) s = Some l"
  shows "\<exists>t. send_response im r s = Some t \<and> event_pool im n t (Q(FreeEventQ := fs, l := Q l @ [j])) held \<and>
     event_table t = (event_table s)(j := r\<lparr>is_response := True, response_requested := False\<rparr>) \<and>
     module_ctx_table t = module_ctx_table s \<and> in_isr t = in_isr s \<and> event_cookie_counter t = event_cookie_counter s"
proof -
  let ?r = "STD (r\<lparr>is_response := True, response_requested := False\<rparr>)"
  have j: "insert j held - {j} = held" using event_pool_members(2) [OF P event_headers_fixed(1)] F by auto
  have lh: "l \<in> event_headers im (module_ctx_table s)" "l \<noteq> FreeEventQ" using delayed_list_header [OF l] by auto
  from duplicate_event_ok [OF P F, of "image_build im" ?r] obtain h where
    du: "duplicate_event (image_build im) ?r s = Some (Some j, upd_event j (copy_event ?r) (s\<lparr>heap := h\<rparr>))"
    and P1: "event_pool im n (upd_event j (copy_event ?r) (s\<lparr>heap := h\<rparr>)) (Q(FreeEventQ := fs)) (insert j held)" by auto
  let ?u = "upd_event j (copy_event ?r) (s\<lparr>heap := h\<rparr>)"
  have l': "fwk_get_delayed_response_list im (source_id r) ?u = Some l" using l delayed_list_cong [of ?u s] by simp
  from event_pool_push [OF P1, of l j "image_build im"] obtain h' where
    h': "push_event (image_build im) l j ?u = Some (?u\<lparr>heap := h'\<rparr>)"
      "event_pool im n (?u\<lparr>heap := h'\<rparr>) (Q(FreeEventQ := fs, l := Q l @ [j])) held"
    using lh j by auto
  have "send_response im r s = Some (?u\<lparr>heap := h'\<rparr>)" using d du l' h'(1) by (simp add: send_response_def Let_def)
  then show ?thesis using h'(2) by (auto simp: copy_event_def)
qed

section \<open>A small image\<close>

text \<open>
  One module without elements whose handlers echo the response buffer, on a build with every
  check enabled, before and after the core is initialised with two event structures.
\<close>

definition ex_build :: build where
  "ex_build = \<lparr>strict_checks = True, mode_debug = True, marked_list = True, has_notification = True\<rparr>"

definition ex_handler :: "fwk_event \<Rightarrow> fwk_event option \<Rightarrow> unit fwk_ctx \<Rightarrow> (int \<times> fwk_event \<times> unit fwk_ctx) option" where
  "ex_handler ev r s = Some (FWK_SUCCESS, case r of None \<Rightarrow> zero_event | Some x \<Rightarrow> x, s)"

definition ex_image :: "(unit fwk_ctx, unit) fwk_image" where
  "ex_image = \<lparr>image_build = ex_build,
     module_table = [\<lparr>mod_type = 0, api_count = 0, event_count = 1, notification_count = 1, cb_init = Some (\<lambda>_ _ _ s. Some (FWK_SUCCESS, s)),
       cb_element_init = None, cb_post_init = None, cb_bind = None, cb_start = None, cb_stop = None, cb_process_bind_request = None,
       cb_process_event = Some ex_handler, cb_process_notification = Some ex_handler\<rparr>],
     module_config_table = [\<lparr>cfg_data = None, cfg_elements = NO_ELEMENTS\<rparr>],
     calloc_ok = (\<lambda>_ _. True)\<rparr>"

definition ex_blank :: "unit fwk_ctx" where
  "ex_blank = \<lparr>heap = fwk_slist_init ex_build (ModDelayed 0)
       \<lparr>next_of = (\<lambda>_. None), prev_of = (\<lambda>_. None), marks_of = (\<lambda>_. \<lparr>current_count = 0, max_count = 0\<rparr>)\<rparr>,
     allocs = 0, in_isr = False, mod_initialized = False,
     module_ctx_table = [\<lparr>ctx_id = FWK_ID_MODULE 0, ctx_state = UNINITIALIZED, element_count = 0, element_ctx_table = [], m_subs = 0\<rparr>],
     stage = STAGE_INITIALIZE, bind_id = 0, core_initialized = False, event_cookie_counter = 0,
     event_table = (\<lambda>_. zero_event), current_event = None\<rparr>"

definition ex_request :: fwk_event where
  "ex_request = zero_event\<lparr>source_id := FWK_ID_MODULE 0, target_id := FWK_ID_MODULE 0, event_id := FWK_ID_EVENT 0 0, response_requested := True\<rparr>"

lemma ex_image_sel [simp]: "idx_count ex_image = 1" "calloc_ok ex_image k n" "image_build ex_image = ex_build"
  "cb_process_event (module_table ex_image ! 0) = Some ex_handler" "cb_process_notification (module_table ex_image ! 0) = Some ex_handler"
  by (simp_all add: ex_image_def)

lemma ex_headers: "event_headers ex_image (module_ctx_table ex_blank) = {FreeEventQ, IsrEventQ, EventQ, ModDelayed 0}"
  by (auto simp: event_headers_def ex_blank_def)

lemma ex_delayed_empty:
  "l \<in> event_headers ex_image (module_ctx_table ex_blank) - {FreeEventQ, EventQ, IsrEventQ} \<Longrightarrow> slist_rep (heap ex_blank) l []"
  unfolding ex_headers by (auto simp: ex_blank_def)

lemma ex_get_ctx [simp]: "fwk_module_get_ctx ex_image (FWK_ID_MODULE 0) = Some 0"
  by (simp add: fwk_module_get_ctx_def fwk_id_get_module_idx_def assert_id_iff)

lemma ex_handlers_use_api: "handlers_use_api ex_image"
  by (auto simp: handlers_use_api_def ex_handler_def)

lemma ex_passive: "passive_image ex_image"
  by (auto simp: passive_image_def passive_handler_def ex_handler_def intro!: exI [of _ id])

text \<open>The image initialised, with one request in the event queue.\<close>

lemma ex_posted:
  "\<exists>s t ev. fwk_init ex_image 2 ex_blank = Some (FWK_SUCCESS, s) \<and>
     put_event ex_image (STD ex_request) UNKNOWN_STATE s = Some (FWK_SUCCESS, ev, t) \<and>
     event_pool ex_image 2 s ((\<lambda>_. [])(FreeEventQ := [0, 1])) {} \<and>
     event_pool ex_image 2 t ((\<lambda>_. [])(FreeEventQ := [1], EventQ := [0])) {} \<and>
     \<not> in_isr t \<and> event_table t 0 = ex_request \<and> module_ctx_table t = module_ctx_table ex_blank \<and> in_isr s = in_isr ex_blank"
proof -
  obtain s where s: "fwk_init ex_image 2 ex_blank = Some (FWK_SUCCESS, s)"
      "event_pool ex_image 2 s ((\<lambda>_. [])(FreeEventQ := [0..<2])) {}" "module_ctx_table s = module_ctx_table ex_blank"
    using fwk_init_pool [where n = 2 and im = ex_image and s = ex_blank, OF ex_delayed_empty] by auto
  have f: "in_isr s = False" "event_cookie_counter s = 0"
    using s(1) by (auto simp: fwk_init_def fwk_mm_calloc_def bind_Some_iff ex_blank_def)
  have u: "[0..<2] = [0, 1]" by (simp add: upt_rec numeral_2_eq_2)
  have "\<not> delayed_put (STD ex_request)" by (simp add: delayed_put_def ex_request_def zero_event_def)
  from put_event_new [OF s(2) this, of 0 "[1]" UNKNOWN_STATE] obtain h where
    h: "put_event ex_image (STD ex_request) UNKNOWN_STATE s = Some (FWK_SUCCESS, stamped (STD ex_request) (event_cookie_counter s), posted (STD ex_request) 0 h s)"
      "event_pool ex_image 2 (posted (STD ex_request) 0 h s) ((\<lambda>_. [])(FreeEventQ := [0..<2], FreeEventQ := [1], EventQ := [0])) {}"
    using f u by (auto simp: put_queue_def)
  have "event_table (posted (STD ex_request) 0 h s) 0 = ex_request"
    using f by (simp add: stored_event_def ex_request_def zero_event_def)
  then show ?thesis
    using s h f u
    by (intro exI [of _ s] exI [of _ "posted (STD ex_request) 0 h s"] exI [of _ "stamped (STD ex_request) (event_cookie_counter s)"])
       (auto simp: ex_blank_def)
qed

section \<open>Properties\<close>

text \<open>C1. Event structures are conserved. From the state \<^verbatim>\<open>__fwk_init\<close> leaves, through any
  interleaving of event posting (in thread and interrupt context), dispatch and pulling of
  interrupt events, with handlers that act on the core through its interface only, every one
  of the \<open>n\<close> structures is in exactly one place: the free list, the event queue, the interrupt
  queue, one delayed-response list, or being processed. None is lost, leaked or queued twice,
  and every list stays well formed.\<close>

theorem event_conservation:
  assumes "handlers_use_api im"
    and "\<And>l. l \<in> event_headers im (module_ctx_table s0) - {FreeEventQ, EventQ, IsrEventQ} \<Longrightarrow> slist_rep (heap s0) l []"
    and "current_event s0 = None" and "fwk_init im n s0 = Some (FWK_SUCCESS, s)" and "(sys_step im)\<^sup>*\<^sup>* s t"
  shows "event_conserved im n t"
proof (rule sys_steps_inv [OF assms(5,1)])
  have "0 < n" "calloc_ok im (allocs s0) n"
    using assms(4) by (auto simp: fwk_init_def fwk_mm_calloc_def fwk_status_defs split: if_splits)
  then obtain t where t: "fwk_init im n s0 = Some (FWK_SUCCESS, t)" "event_pool im n t ((\<lambda>_. [])(FreeEventQ := [0..<n])) {}"
      "current_event t = current_event s0"
    using fwk_init_pool [OF assms(2)] by blast
  then have "event_pool im n s ((\<lambda>_. [])(FreeEventQ := [0..<n])) {}" "current_event s = None" using assms(3,4) by auto
  then show "event_conserved im n s" by (auto simp: event_conserved_def)
qed

theorem event_conservation_witness:
  "\<exists>s t. fwk_init ex_image 2 ex_blank = Some (FWK_SUCCESS, s) \<and> sys_step ex_image s t \<and> event_conserved ex_image 2 t"
proof -
  obtain s where s: "fwk_init ex_image 2 ex_blank = Some (FWK_SUCCESS, s)" "in_isr s = in_isr ex_blank"
    using ex_posted by blast
  have step: "sys_step ex_image s (s\<lparr>in_isr := True\<rparr>)"
    using s(2) by (intro sys_step.api api_step.isr_enter) (simp add: ex_blank_def)
  have "event_conserved ex_image 2 (s\<lparr>in_isr := True\<rparr>)"
    by (rule event_conservation [OF ex_handlers_use_api ex_delayed_empty _ s(1)]) (use step in \<open>auto simp: ex_blank_def\<close>)
  then show ?thesis using s(1) step by blast
qed

text \<open>C2. \<^verbatim>\<open>fwk_process_event_queue\<close> returns, with both queues empty and every event
  structure accounted for, whenever the queued events can be delivered and the handlers post
  nothing beyond the response the framework itself sends: the nested loops run over requests,
  their responses and the events pulled from the interrupt queue, and no assertion fails.\<close>

theorem process_event_queue_drains:
  assumes "passive_image im" and "ready im n s Q"
  shows "\<exists>t Q'. fwk_process_event_queue im s = Some t \<and> event_pool im n t Q' {} \<and> Q' EventQ = [] \<and> Q' IsrEventQ = []"
  using assms by (rule drain_queues)

theorem process_event_queue_drains_witness:
  "\<exists>s ev t u. fwk_init ex_image 2 ex_blank = Some (FWK_SUCCESS, s) \<and>
     put_event ex_image (STD ex_request) UNKNOWN_STATE s = Some (FWK_SUCCESS, ev, t) \<and>
     fwk_process_event_queue ex_image t = Some u \<and> fwk_slist_is_empty EventQ (heap u) = Some True"
proof -
  obtain s t ev where st: "fwk_init ex_image 2 ex_blank = Some (FWK_SUCCESS, s)"
      "put_event ex_image (STD ex_request) UNKNOWN_STATE s = Some (FWK_SUCCESS, ev, t)"
      "event_pool ex_image 2 t ((\<lambda>_. [])(FreeEventQ := [1], EventQ := [0])) {}" "\<not> in_isr t"
      "event_table t 0 = ex_request" "module_ctx_table t = module_ctx_table ex_blank"
    using ex_posted by blast
  have "ready ex_image 2 t ((\<lambda>_. [])(FreeEventQ := [1], EventQ := [0]))"
    using st by (simp add: ready_def deliverable_def ex_request_def zero_event_def fwk_id_types ex_build_def)
  from process_event_queue_drains [OF ex_passive this] obtain u Q' where
    "fwk_process_event_queue ex_image t = Some u" "event_pool ex_image 2 u Q' {}" "Q' EventQ = []" by blast
  then show ?thesis using st(1,2) event_pool_head(2) [of ex_image 2 u Q' "{}" EventQ] by auto
qed

text \<open>C9. Posting an event, on every branch of the allocation. With a free structure the
  event is copied into the first one, which moves to the tail of the event queue in thread
  context and of the interrupt queue in interrupt context; a standard event takes the next
  cookie, which is also written back to the caller's event. With none free the call returns
  FWK_E_NOMEM and changes no list, or fails its assertion in a build that checks.\<close>

theorem put_event_effect:
  assumes "event_pool im n s Q held" and "\<not> delayed_put ev"
  shows "\<exists>h. (case Q FreeEventQ of
       [] \<Rightarrow> put_event im ev intr s = (if strict_checks (image_build im) then None else Some (FWK_E_NOMEM, ev, s\<lparr>heap := h\<rparr>)) \<and>
         event_pool im n (s\<lparr>heap := h\<rparr>) Q held
     | i # fs \<Rightarrow> put_event im ev intr s = Some (FWK_SUCCESS, stamped ev (event_cookie_counter s), posted ev i h s) \<and>
         event_pool im n (posted ev i h s) (Q(FreeEventQ := fs, put_queue intr s := Q (put_queue intr s) @ [i])) held)"
proof (cases "Q FreeEventQ")
  case Nil
  then show ?thesis using put_event_nomem [OF assms Nil] by simp
next
  case (Cons i fs)
  then have "i \<notin> held" using event_pool_members(2) [OF assms(1) event_headers_fixed(1)] by auto
  then show ?thesis using put_event_new [OF assms Cons] Cons by simp
qed

theorem put_event_effect_witness:
  "\<exists>s h. fwk_init ex_image 2 ex_blank = Some (FWK_SUCCESS, s) \<and>
     put_event ex_image (STD ex_request) INTERRUPT_STATE s =
       Some (FWK_SUCCESS, stamped (STD ex_request) (event_cookie_counter s), posted (STD ex_request) 0 h s)"
proof -
  obtain s where s: "fwk_init ex_image 2 ex_blank = Some (FWK_SUCCESS, s)"
      "event_pool ex_image 2 s ((\<lambda>_. [])(FreeEventQ := [0, 1])) {}"
    using ex_posted by blast
  have "\<not> delayed_put (STD ex_request)" by (simp add: delayed_put_def ex_request_def zero_event_def)
  from put_event_effect [OF s(2) this, of INTERRUPT_STATE] show ?thesis using s(1) by auto
qed

text \<open>C4. A delayed response round trip. When a handler asks for a delayed response, the
  response event waits on the delayed-response list of its source; \<^verbatim>\<open>fwk_search_delayed_response\<close>
  finds it by its cookie, and posting an event flagged as a delayed response with that source
  and cookie moves this same structure to the queue: addressed to the original requester,
  flagged as a response, with the new parameters and a fresh cookie. The free list and the
  other lists are as if the response had been posted at once.\<close>

theorem delayed_response_roundtrip:
  assumes "event_pool im n s Q held" and "Q FreeEventQ = j # fs" and "is_delayed_response r"
    and "fwk_get_delayed_response_list im (source_id r) s = Some l"
    and "\<And>k. k \<in> set (Q l) \<Longrightarrow> cookie (event_table s k) \<noteq> cookie r"
    and "is_delayed_response e" and "source_id e = source_id r" and "cookie e = cookie r"
  shows "\<exists>t u. send_response im r s = Some t \<and>
     fwk_search_delayed_response im (source_id r) (cookie r) t = Some (Some j) \<and>
     put_event im (STD e) intr t = Some (FWK_SUCCESS, STD (e\<lparr>cookie := event_cookie_counter s\<rparr>), u) \<and>
     event_table u j = r\<lparr>is_response := True, response_requested := False, params := params e, cookie := event_cookie_counter s\<rparr> \<and>
     event_pool im n u (Q(FreeEventQ := fs, put_queue intr s := Q (put_queue intr s) @ [j])) held"
proof -
  obtain t where t: "send_response im r s = Some t" "event_pool im n t (Q(FreeEventQ := fs, l := Q l @ [j])) held"
     "event_table t = (event_table s)(j := r\<lparr>is_response := True, response_requested := False\<rparr>)"
     "module_ctx_table t = module_ctx_table s" "in_isr t = in_isr s" "event_cookie_counter t = event_cookie_counter s"
    using send_response_delayed [OF assms(1-4)] by blast
  have lh: "l \<in> event_headers im (module_ctx_table s)" "l \<noteq> FreeEventQ" "put_queue intr t \<noteq> l"
    using delayed_list_header [OF assms(4)] by (auto simp: put_queue_def)
  have jl: "j \<notin> set (Q l)" "j \<notin> held"
    using poolD(3) [OF assms(1) [unfolded event_pool_def] lh(1) event_headers_fixed(1)] lh(2) assms(2)
      event_pool_members(2) [OF assms(1) event_headers_fixed(1)] by auto
  have l': "fwk_get_delayed_response_list im (source_id r) t = Some l" using assms(4) t(4) delayed_list_cong by metis
  have "find (\<lambda>k. cookie (event_table t k) = cookie r) (xs @ [j]) = Some j" if "set xs \<subseteq> set (Q l)" for xs
    using that assms(5) jl(1) t(3) by (induction xs) auto
  then have f: "find (\<lambda>k. cookie (event_table t k) = cookie r) ((Q(FreeEventQ := fs, l := Q l @ [j])) l) = Some j" by simp
  have f': "find (\<lambda>k. cookie (event_table t k) = cookie e) ((Q(FreeEventQ := fs, l := Q l @ [j])) l) = Some j"
    using f assms(8) by simp
  have le: "fwk_get_delayed_response_list im (source_id e) t = Some l" using l' assms(7) by simp
  from put_event_delayed [OF t(2) refl assms(6) le f' jl(2), of intr] obtain h where
    h: "put_event im (STD e) intr t = Some (FWK_SUCCESS, stamped (STD e) (event_cookie_counter t), posted (STD e) j h t)"
      "event_pool im n (posted (STD e) j h t) ((Q(FreeEventQ := fs, l := Q l @ [j]))(l := remove1 j ((Q(FreeEventQ := fs, l := Q l @ [j])) l),
         put_queue intr t := (Q(FreeEventQ := fs, l := Q l @ [j])) (put_queue intr t) @ [j])) held" by blast
  have "(Q(FreeEventQ := fs, l := Q l @ [j]))(l := remove1 j ((Q(FreeEventQ := fs, l := Q l @ [j])) l),
         put_queue intr t := (Q(FreeEventQ := fs, l := Q l @ [j])) (put_queue intr t) @ [j]) =
      Q(FreeEventQ := fs, put_queue intr s := Q (put_queue intr s) @ [j])"
    using lh(2,3) jl(1) t(5) by (auto simp: put_queue_def remove1_append fun_eq_iff)
  then show ?thesis
    using t search_delayed [OF t(2) l', of "cookie r"] f h assms(6)
    by (intro exI [of _ t] exI [of _ "posted (STD e) j h t"]) (simp add: stamped_def stored_event_def)
qed

theorem delayed_response_roundtrip_witness:
  "\<exists>s t u. fwk_init ex_image 2 ex_blank = Some (FWK_SUCCESS, s) \<and>
     send_response ex_image (ex_request\<lparr>is_delayed_response := True, cookie := 5\<rparr>) s = Some t \<and>
     put_event ex_image (STD (ex_request\<lparr>is_delayed_response := True, cookie := 5, params := [7]\<rparr>)) NOT_INTERRUPT_STATE t =
       Some (FWK_SUCCESS, STD (ex_request\<lparr>is_delayed_response := True, cookie := event_cookie_counter s, params := [7]\<rparr>), u) \<and>
     params (event_table u 0) = [7]"
proof -
  let ?r = "ex_request\<lparr>is_delayed_response := True, cookie := 5\<rparr>"
  let ?e = "ex_request\<lparr>is_delayed_response := True, cookie := 5, params := [7]\<rparr>"
  obtain s where s: "fwk_init ex_image 2 ex_blank = Some (FWK_SUCCESS, s)"
      "event_pool ex_image 2 s ((\<lambda>_. [])(FreeEventQ := [0, 1])) {}"
    using ex_posted by blast
  have l: "fwk_get_delayed_response_list ex_image (source_id ?r) s = Some (ModDelayed 0)"
    by (simp add: fwk_get_delayed_response_list_def ex_request_def fwk_id_is_type_valid)
  show ?thesis
    using delayed_response_roundtrip [of ex_image 2 s _ "{}" 0 "[1]" ?r, OF s(2) _ _ l, of ?e NOT_INTERRUPT_STATE] s(1)
    by fastforce
qed

end
