(* ===== verification/Fwk_Lifecycle.thy ===== *)
theory Fwk_Lifecycle
  imports Fwk_Core
begin

text \<open>
  The pre-runtime phase, \<^verbatim>\<open>fwk_module_start\<close> and \<^verbatim>\<open>fwk_module_stop\<close> of
  \<^verbatim>\<open>framework/src/fwk_module.c\<close>: every module and element of the image goes through
  initialisation, two binding rounds and start, in table order. The theorems are about
  images whose callbacks return FWK_SUCCESS and leave the framework's own context table alone
  (it is a static variable no module can name); the observation \<open>obs\<close> is any log those
  callbacks append to, so the theorems give the exact order of the calls.
\<close>

section \<open>What the callbacks promise\<close>

datatype lifecycle_call =
    Call_init fwk_id | Call_element_init fwk_id | Call_post_init fwk_id
  | Call_bind fwk_id nat | Call_start fwk_id | Call_stop fwk_id

type_synonym ('d, 'z) observer = "('d, 'z) fwk_module_ctx_scheme \<Rightarrow> lifecycle_call list"

definition obs_frame :: "('d, 'z) observer \<Rightarrow> bool" where
  "obs_frame obs \<longleftrightarrow>
     (\<forall>s x. obs (s\<lparr>module_ctx_table := x\<rparr>) = obs s) \<and> (\<forall>s x. obs (s\<lparr>bind_id := x\<rparr>) = obs s) \<and>
     (\<forall>s x. obs (s\<lparr>stage := x\<rparr>) = obs s) \<and> (\<forall>s x. obs (s\<lparr>heap := x\<rparr>) = obs s) \<and>
     (\<forall>s x. obs (s\<lparr>allocs := x\<rparr>) = obs s) \<and> (\<forall>s x. obs (s\<lparr>mod_initialized := x\<rparr>) = obs s)"

lemma obs_frameD:
  assumes "obs_frame obs"
  shows "obs (s\<lparr>module_ctx_table := a\<rparr>) = obs s" "obs (s\<lparr>bind_id := b\<rparr>) = obs s" "obs (s\<lparr>stage := c\<rparr>) = obs s"
    "obs (s\<lparr>heap := d\<rparr>) = obs s" "obs (s\<lparr>allocs := e\<rparr>) = obs s" "obs (s\<lparr>mod_initialized := f\<rparr>) = obs s"
  using assms by (auto simp: obs_frame_def)

text \<open>A callback, applied to its arguments, that succeeds, logs \<open>c\<close> and keeps the contexts.\<close>

definition runs :: "('d, 'z) observer \<Rightarrow> lifecycle_call \<Rightarrow>
    (('d, 'z) fwk_module_ctx_scheme \<Rightarrow> (int \<times> ('d, 'z) fwk_module_ctx_scheme) option) \<Rightarrow> bool" where
  "runs obs c f \<longleftrightarrow>
     (\<forall>s. \<exists>t. f s = Some (FWK_SUCCESS, t) \<and> module_ctx_table t = module_ctx_table s \<and> obs t = obs s @ [c])"

lemma runsE:
  assumes "runs obs c f"
  obtains t where "f s = Some (FWK_SUCCESS, t)" "module_ctx_table t = module_ctx_table s" "obs t = obs s @ [c]"
  using assms unfolding runs_def by blast

section \<open>Updates of one context\<close>

definition in_state :: "module_state \<Rightarrow> 'd module_context \<Rightarrow> 'd module_context" where
  "in_state st c =
     c\<lparr>ctx_state := st, element_ctx_table := map (\<lambda>e. e\<lparr>e_state := st\<rparr>) (element_ctx_table c)\<rparr>"

lemma in_state_sel [simp]:
  "ctx_id (in_state st c) = ctx_id c" "element_count (in_state st c) = element_count c"
  "ctx_state (in_state st c) = st" "length (element_ctx_table (in_state st c)) = length (element_ctx_table c)"
  by (simp_all add: in_state_def)

lemma in_state_in_state [simp]: "in_state a (in_state b c) = in_state a c"
  by (simp add: in_state_def)

lemma in_state_state [simp]: "in_state a (c\<lparr>ctx_state := b\<rparr>) = in_state a c"
  by (simp add: in_state_def)

lemma upd_mod_table [simp]:
  "module_ctx_table (upd_mod m f s) = (module_ctx_table s)[m := f (module_ctx_table s ! m)]"
  by (simp add: upd_mod_def)

lemma set_state_table [simp]:
  "module_ctx_table (set_mod_state m st s) = (module_ctx_table s)[m := (module_ctx_table s ! m)\<lparr>ctx_state := st\<rparr>]"
  "module_ctx_table (set_elem_state m e st s) = (module_ctx_table s)[m := (module_ctx_table s ! m)
     \<lparr>element_ctx_table := (element_ctx_table (module_ctx_table s ! m))
        [e := (element_ctx_table (module_ctx_table s ! m) ! e)\<lparr>e_state := st\<rparr>]\<rparr>]"
  by (simp_all add: set_mod_state_def set_elem_state_def)

lemma obs_updates:
  "obs_frame obs \<Longrightarrow> obs (upd_mod m f s) = obs s"
  "obs_frame obs \<Longrightarrow> obs (set_mod_state m st s) = obs s"
  "obs_frame obs \<Longrightarrow> obs (set_elem_state m e st s) = obs s"
  by (simp_all add: upd_mod_def set_mod_state_def set_elem_state_def obs_frameD)

definition ctx_wf :: "('s, 'd) fwk_image \<Rightarrow> 'd module_context list \<Rightarrow> bool" where
  "ctx_wf im tbl \<longleftrightarrow> length tbl = idx_count im \<and>
     (\<forall>m < idx_count im. ctx_id (tbl ! m) = FWK_ID_MODULE (of_nat m) \<and>
        element_count (tbl ! m) = length (element_ctx_table (tbl ! m)))"

lemma ctx_wfD:
  assumes "ctx_wf im tbl" "m < idx_count im"
  shows "length tbl = idx_count im" "ctx_id (tbl ! m) = FWK_ID_MODULE (of_nat m)"
    "element_count (tbl ! m) = length (element_ctx_table (tbl ! m))"
  using assms by (auto simp: ctx_wf_def)

lemma build_element_id_mod [simp]:
  "fwk_id_build_element_id (FWK_ID_MODULE w) e = Some (FWK_ID_ELEMENT w e)"
proof -
  have "FWK_ID_ELEMENT (take_bit 8 w) e = FWK_ID_ELEMENT w e"
    by (simp add: FWK_ID_ELEMENT_def take_bit_push_bit)
  then show ?thesis by (simp add: fwk_id_build_element_id_def assert_id_iff)
qed

type_synonym ('d, 'z) stage_callback = "(('d, 'z) fwk_module_ctx_scheme, 'd) fwk_module \<Rightarrow>
    (fwk_id \<Rightarrow> ('d, 'z) fwk_module_ctx_scheme \<Rightarrow> (int \<times> ('d, 'z) fwk_module_ctx_scheme) option) option"

definition stage_calls :: "('d, 'z) stage_callback \<Rightarrow> (fwk_id \<Rightarrow> lifecycle_call) \<Rightarrow> ('d, 'z) image \<Rightarrow> nat \<Rightarrow> fwk_id list \<Rightarrow> lifecycle_call list" where
  "stage_calls cb call im m ids = (if cb (module_table im ! m) = None then [] else map call ids)"

definition stage_succeeds :: "('d, 'z) stage_callback \<Rightarrow> (fwk_id \<Rightarrow> lifecycle_call) \<Rightarrow> ('d, 'z) image \<Rightarrow> ('d, 'z) observer \<Rightarrow> bool" where
  "stage_succeeds cb call im obs \<longleftrightarrow>
     (\<forall>m < idx_count im. \<forall>f i. cb (module_table im ! m) = Some f \<longrightarrow> runs obs (call i) (f i))"

text \<open>A module's identifier followed by those of its \<open>n\<close> elements: the order in which a stage visits them.\<close>

definition entity_ids :: "nat \<Rightarrow> nat \<Rightarrow> fwk_id list" where
  "entity_ids m n = FWK_ID_MODULE (of_nat m) # map (\<lambda>i. FWK_ID_ELEMENT (of_nat m) (of_nat i)) [0..<n]"

lemma entity_ids_0: "entity_ids m 0 = [FWK_ID_MODULE (of_nat m)]"
  by (simp add: entity_ids_def)

lemma entity_ids_Suc: "entity_ids m (Suc n) = entity_ids m n @ [FWK_ID_ELEMENT (of_nat m) (of_nat n)]"
  by (simp add: entity_ids_def)

section \<open>The walk the start and stop stages share\<close>

text \<open>
  The contract of a stage that visits each module and then its elements, runs the optional
  callback \<open>cb\<close> on each, and moves it to the state \<open>st\<close>.
\<close>

locale stage_walk =
  fixes cb :: "('d, 'z) stage_callback"
    and st :: module_state
    and call :: "fwk_id \<Rightarrow> lifecycle_call"
    and visit_element :: "('d, 'z) image \<Rightarrow> nat \<Rightarrow> nat \<Rightarrow> ('d, 'z) fwk_module_ctx_scheme \<Rightarrow> (int \<times> ('d, 'z) fwk_module_ctx_scheme) option"
    and visit_module :: "('d, 'z) image \<Rightarrow> nat \<Rightarrow> ('d, 'z) fwk_module_ctx_scheme \<Rightarrow> (int \<times> ('d, 'z) fwk_module_ctx_scheme) option"
  assumes element_law: "visit_element im m i s =
     Option.bind (fwk_id_build_element_id (ctx_id (module_ctx_table s ! m)) (of_nat i)) (\<lambda>element_id.
     Option.bind (call_optional (image_build im) (cb (module_table im ! m)) element_id s) (\<lambda>(status, s).
       if status \<noteq> FWK_SUCCESS then Some (status, s) else Some (FWK_SUCCESS, set_elem_state m i st s)))"
    and module_law: "visit_module im m s =
     Option.bind (call_optional (image_build im) (cb (module_table im ! m)) (ctx_id (module_ctx_table s ! m)) s) (\<lambda>(status, s).
       if status \<noteq> FWK_SUCCESS then Some (status, s)
       else loopM (visit_element im m) [0..<element_count (module_ctx_table (set_mod_state m st s) ! m)] (set_mod_state m st s))"
begin

lemma call_ok:
  assumes "stage_succeeds cb call im obs" "m < idx_count im"
  shows "\<exists>t. call_optional (image_build im) (cb (module_table im ! m)) i s = Some (FWK_SUCCESS, t) \<and>
     module_ctx_table t = module_ctx_table s \<and> obs t = obs s @ stage_calls cb call im m [i]"
proof (cases "cb (module_table im ! m)")
  case None
  then show ?thesis by (simp add: call_optional_def stage_calls_def)
next
  case (Some f)
  with assms have "runs obs (call i) (f i)" by (auto simp: stage_succeeds_def)
  then obtain t where "f i s = Some (FWK_SUCCESS, t)" "module_ctx_table t = module_ctx_table s"
      "obs t = obs s @ [call i]" by (rule runsE)
  then show ?thesis using Some by (simp add: call_optional_def stage_calls_def)
qed

lemma visit_element_ok:
  assumes "stage_succeeds cb call im obs" "obs_frame obs" "m < idx_count im"
    and "ctx_id (module_ctx_table s ! m) = FWK_ID_MODULE (of_nat m)"
  shows "\<exists>t. visit_element im m i s = Some (FWK_SUCCESS, t) \<and>
     module_ctx_table t = module_ctx_table (set_elem_state m i st s) \<and>
     obs t = obs s @ stage_calls cb call im m [FWK_ID_ELEMENT (of_nat m) (of_nat i)]"
proof -
  obtain t where "call_optional (image_build im) (cb (module_table im ! m)) (FWK_ID_ELEMENT (of_nat m) (of_nat i)) s = Some (FWK_SUCCESS, t)"
      "module_ctx_table t = module_ctx_table s" "obs t = obs s @ stage_calls cb call im m [FWK_ID_ELEMENT (of_nat m) (of_nat i)]"
    using call_ok [OF assms(1,3)] by blast
  then show ?thesis
    using assms by (simp add: element_law obs_updates)
qed

lemma visit_module_ok:
  assumes su: "stage_succeeds cb call im obs" and fr: "obs_frame obs" and m: "m < idx_count im" and wf: "ctx_wf im (module_ctx_table s)"
  shows "\<exists>t. visit_module im m s = Some (FWK_SUCCESS, t) \<and>
     module_ctx_table t = (module_ctx_table s)[m := in_state st (module_ctx_table s ! m)] \<and>
     obs t = obs s @ stage_calls cb call im m (entity_ids m (element_count (module_ctx_table s ! m)))"
proof -
  let ?T = "module_ctx_table s" and ?mid = "FWK_ID_MODULE (of_nat m)" and ?n = "element_count (module_ctx_table s ! m)"
  let ?es = "element_ctx_table (?T ! m)"
  let ?set = "\<lambda>e. e\<lparr>e_state := st\<rparr>"
  note [simp] = ctx_wfD [OF wf m] m
  obtain u where u: "call_optional (image_build im) (cb (module_table im ! m)) ?mid s = Some (FWK_SUCCESS, u)"
      "module_ctx_table u = ?T" "obs u = obs s @ stage_calls cb call im m [?mid]"
    using call_ok [OF su m] by blast
  let ?P = "\<lambda>k v. module_ctx_table v = ?T[m := (?T ! m)\<lparr>ctx_state := st,
        element_ctx_table := map ?set (take k ?es) @ drop k ?es\<rparr>] \<and>
      obs v = obs s @ stage_calls cb call im m (entity_ids m k)"
  have "\<exists>t. loopM (visit_element im m) [0..<?n] (set_mod_state m st u) = Some (FWK_SUCCESS, t) \<and> ?P ?n t"
  proof (rule loopM_upt_ok [where P = ?P])
    show "?P 0 (set_mod_state m st u)" using u by (simp add: obs_updates [OF fr] entity_ids_0)
  next
    fix k v assume k: "k < ?n" and P: "?P k v"
    have "ctx_id (module_ctx_table v ! m) = ?mid" using P by simp
    from visit_element_ok [OF su fr m this] obtain t where t: "visit_element im m k v = Some (FWK_SUCCESS, t)"
        "module_ctx_table t = module_ctx_table (set_elem_state m k st v)"
        "obs t = obs v @ stage_calls cb call im m [FWK_ID_ELEMENT (of_nat m) (of_nat k)]" by blast
    have "map ?set (take k ?es) @ drop k ?es \<noteq> []" using k by auto
    then have "module_ctx_table t = ?T[m := (?T ! m)\<lparr>ctx_state := st,
        element_ctx_table := map ?set (take (Suc k) ?es) @ drop (Suc k) ?es\<rparr>]"
      using P k t(2) map_prefix_step [of k ?es ?set] by (simp add: map_prefix_nth)
    moreover have "obs t = obs s @ stage_calls cb call im m (entity_ids m (Suc k))"
      using P t(3) by (simp add: stage_calls_def entity_ids_Suc)
    ultimately show "\<exists>v'. visit_element im m k v = Some (FWK_SUCCESS, v') \<and> ?P (Suc k) v'"
      using t(1) by blast
  qed
  then show ?thesis using u by (simp add: module_law in_state_def)
qed

lemma walk_ok:
  assumes su: "stage_succeeds cb call im obs" and fr: "obs_frame obs" and wf: "ctx_wf im (module_ctx_table s)"
  shows "\<exists>t. loopM (visit_module im) [0..<idx_count im] s = Some (FWK_SUCCESS, t) \<and>
     module_ctx_table t = map (in_state st) (module_ctx_table s) \<and>
     obs t = obs s @ concat (map (\<lambda>m. stage_calls cb call im m (entity_ids m (element_count (module_ctx_table s ! m)))) [0..<idx_count im])"
proof -
  let ?T = "module_ctx_table s"
  let ?ids = "\<lambda>m. stage_calls cb call im m (entity_ids m (element_count (?T ! m)))"
  let ?P = "\<lambda>k v. module_ctx_table v = map (in_state st) (take k ?T) @ drop k ?T \<and>
      obs v = obs s @ concat (map ?ids [0..<k])"
  have len: "length ?T = idx_count im" using wf by (simp add: ctx_wf_def)
  have "\<exists>t. loopM (visit_module im) [0..<idx_count im] s = Some (FWK_SUCCESS, t) \<and> ?P (idx_count im) t"
  proof (rule loopM_upt_ok [where P = ?P])
    show "?P 0 s" by simp
  next
    fix k v assume k: "k < idx_count im" and P: "?P k v"
    have wfv: "ctx_wf im (module_ctx_table v)" using P wf k by (simp add: ctx_wf_def nth_append)
    have nth: "module_ctx_table v ! k = ?T ! k" using P k len by (simp add: map_prefix_nth)
    from visit_module_ok [OF su fr k wfv] obtain t where t: "visit_module im k v = Some (FWK_SUCCESS, t)"
      "module_ctx_table t = (module_ctx_table v)[k := in_state st (?T ! k)]" "obs t = obs v @ ?ids k"
      unfolding nth by blast
    then show "\<exists>v'. visit_module im k v = Some (FWK_SUCCESS, v') \<and> ?P (Suc k) v'"
      using P k len by (simp add: map_prefix_step)
  qed
  then show ?thesis by (simp add: len)
qed

end

interpretation starting: stage_walk cb_start STARTED Call_start fwk_module_start_element fwk_module_start_module
  by unfold_locales (simp_all add: fwk_module_start_element_def fwk_module_start_module_def fwk_module_start_elements_def cong: if_cong)

interpretation stopping: stage_walk cb_stop SUSPENDED Call_stop fwk_module_stop_element fwk_module_stop_module
  by unfold_locales (simp_all add: fwk_module_stop_element_def fwk_module_stop_module_def fwk_module_stop_elements_def cong: if_cong)

section \<open>The bind stage\<close>

definition bind_round :: "nat \<Rightarrow> ('d, 'z) stage_callback" where
  "bind_round r d = map_option (\<lambda>f i. f i r) (cb_bind d)"

definition bound_ctx :: "('d, 'z) image \<Rightarrow> nat \<Rightarrow> nat \<Rightarrow> 'd module_context \<Rightarrow> 'd module_context" where
  "bound_ctx im r m c =
     (if cb_bind (module_table im ! m) = None then c\<lparr>ctx_state := BOUND\<rparr>
      else if r = FWK_MODULE_BIND_ROUND_MAX then in_state BOUND c else c)"

lemma bound_ctx_sel [simp]:
  "ctx_id (bound_ctx im r m c) = ctx_id c" "element_count (bound_ctx im r m c) = element_count c"
  "length (element_ctx_table (bound_ctx im r m c)) = length (element_ctx_table c)"
  "in_state st (bound_ctx im r m c) = in_state st c"
  by (simp_all add: bound_ctx_def)

text \<open>Binding calls nothing for the elements of a module that has no bind callback.\<close>

definition round_calls :: "('d, 'z) image \<Rightarrow> nat \<Rightarrow> nat \<Rightarrow> nat \<Rightarrow> lifecycle_call list" where
  "round_calls im r m n = stage_calls (bind_round r) (\<lambda>i. Call_bind i r) im m (entity_ids m n)"

lemma bind_runs:
  assumes "stage_succeeds (bind_round r) (\<lambda>i. Call_bind i r) im obs" "m < idx_count im"
    and "cb_bind (module_table im ! m) = Some f"
  shows "runs obs (Call_bind i r) (f i r)"
  using assms by (auto simp: stage_succeeds_def bind_round_def)

lemma bind_element_ok:
  assumes "stage_succeeds (bind_round r) (\<lambda>i. Call_bind i r) im obs" "obs_frame obs" "m < idx_count im"
    and "cb_bind (module_table im ! m) = Some f" "ctx_id (module_ctx_table s ! m) = FWK_ID_MODULE (of_nat m)"
  shows "\<exists>t. fwk_module_bind_element im m r i s = Some (FWK_SUCCESS, t) \<and>
     module_ctx_table t = module_ctx_table (if r = FWK_MODULE_BIND_ROUND_MAX then set_elem_state m i BOUND s else s) \<and>
     obs t = obs s @ [Call_bind (FWK_ID_ELEMENT (of_nat m) (of_nat i)) r]"
proof -
  let ?e = "FWK_ID_ELEMENT (of_nat m) (of_nat i)"
  have "runs obs (Call_bind ?e r) (f ?e r)" by (rule bind_runs [OF assms(1,3,4)])
  then obtain t where "f ?e r (s\<lparr>bind_id := ?e\<rparr>) = Some (FWK_SUCCESS, t)"
      "module_ctx_table t = module_ctx_table (s\<lparr>bind_id := ?e\<rparr>)" "obs t = obs (s\<lparr>bind_id := ?e\<rparr>) @ [Call_bind ?e r]"
    by (rule runsE)
  then show ?thesis
    using assms by (simp add: fwk_module_bind_element_def obs_updates obs_frameD)
qed

lemma bind_elements_ok:
  assumes su: "stage_succeeds (bind_round r) (\<lambda>i. Call_bind i r) im obs" and fr: "obs_frame obs" and m: "m < idx_count im"
    and f: "cb_bind (module_table im ! m) = Some f" and wf: "ctx_wf im (module_ctx_table s)"
  shows "\<exists>t. fwk_module_bind_elements im m r s = Some (FWK_SUCCESS, t) \<and>
     module_ctx_table t = (module_ctx_table s)[m := (module_ctx_table s ! m)\<lparr>element_ctx_table :=
        map (\<lambda>e. if r = FWK_MODULE_BIND_ROUND_MAX then e\<lparr>e_state := BOUND\<rparr> else e) (element_ctx_table (module_ctx_table s ! m))\<rparr>] \<and>
     obs t = obs s @ map (\<lambda>i. Call_bind (FWK_ID_ELEMENT (of_nat m) (of_nat i)) r) [0..<element_count (module_ctx_table s ! m)]"
proof -
  let ?T = "module_ctx_table s" and ?n = "element_count (module_ctx_table s ! m)"
  let ?es = "element_ctx_table (?T ! m)" and ?set = "\<lambda>e. if r = FWK_MODULE_BIND_ROUND_MAX then e\<lparr>e_state := BOUND\<rparr> else e"
  let ?call = "\<lambda>i. Call_bind (FWK_ID_ELEMENT (of_nat m) (of_nat i)) r"
  note [simp] = ctx_wfD [OF wf m] m
  let ?P = "\<lambda>k v. module_ctx_table v = ?T[m := (?T ! m)\<lparr>element_ctx_table := map ?set (take k ?es) @ drop k ?es\<rparr>] \<and>
      obs v = obs s @ map ?call [0..<k]"
  have "\<exists>t. loopM (fwk_module_bind_element im m r) [0..<?n] s = Some (FWK_SUCCESS, t) \<and> ?P ?n t"
  proof (rule loopM_upt_ok [where P = ?P])
    show "?P 0 s" by simp
  next
    fix k v assume k: "k < ?n" and P: "?P k v"
    have "ctx_id (module_ctx_table v ! m) = FWK_ID_MODULE (of_nat m)" using P by simp
    from bind_element_ok [OF su fr m f this] obtain t where t: "fwk_module_bind_element im m r k v = Some (FWK_SUCCESS, t)"
        "module_ctx_table t = module_ctx_table (if r = FWK_MODULE_BIND_ROUND_MAX then set_elem_state m k BOUND v else v)"
        "obs t = obs v @ [?call k]" by blast
    have "module_ctx_table t = ?T[m := (?T ! m)\<lparr>element_ctx_table := map ?set (take (Suc k) ?es) @ drop (Suc k) ?es\<rparr>]"
      using P k t(2) map_prefix_step [of k ?es ?set]
      by (cases "r = FWK_MODULE_BIND_ROUND_MAX") (simp_all add: map_prefix_nth)
    then show "\<exists>v'. fwk_module_bind_element im m r k v = Some (FWK_SUCCESS, v') \<and> ?P (Suc k) v'"
      using P t(1,3) by simp
  qed
  then show ?thesis by (simp add: fwk_module_bind_elements_def)
qed

lemma bind_module_ok:
  assumes su: "stage_succeeds (bind_round r) (\<lambda>i. Call_bind i r) im obs" and fr: "obs_frame obs" and m: "m < idx_count im"
    and wf: "ctx_wf im (module_ctx_table s)"
  shows "\<exists>t. fwk_module_bind_module im r m s = Some (FWK_SUCCESS, t) \<and>
     module_ctx_table t = (module_ctx_table s)[m := bound_ctx im r m (module_ctx_table s ! m)] \<and>
     obs t = obs s @ round_calls im r m (element_count (module_ctx_table s ! m))"
proof (cases "cb_bind (module_table im ! m)")
  case None
  then show ?thesis
    by (simp add: fwk_module_bind_module_def bound_ctx_def round_calls_def stage_calls_def bind_round_def obs_updates [OF fr])
next
  case (Some f)
  let ?mid = "FWK_ID_MODULE (of_nat m)"
  let ?mark = "\<lambda>u. if r = FWK_MODULE_BIND_ROUND_MAX then set_mod_state m BOUND u else u"
  note [simp] = ctx_wfD [OF wf m] m
  have "runs obs (Call_bind ?mid r) (f ?mid r)" by (rule bind_runs [OF su m Some])
  then obtain u where u: "f ?mid r (s\<lparr>bind_id := ?mid\<rparr>) = Some (FWK_SUCCESS, u)"
      "module_ctx_table u = module_ctx_table (s\<lparr>bind_id := ?mid\<rparr>)" "obs u = obs (s\<lparr>bind_id := ?mid\<rparr>) @ [Call_bind ?mid r]"
    by (rule runsE)
  have "ctx_wf im (module_ctx_table (?mark u))" using wf u(2) by (auto simp: ctx_wf_def nth_list_update)
  from bind_elements_ok [OF su fr m Some this] obtain t where
      "fwk_module_bind_elements im m r (?mark u) = Some (FWK_SUCCESS, t)"
      "module_ctx_table t = (module_ctx_table s)[m := bound_ctx im r m (module_ctx_table s ! m)]"
      "obs t = obs u @ map (\<lambda>i. Call_bind (FWK_ID_ELEMENT (of_nat m) (of_nat i)) r) [0..<element_count (module_ctx_table s ! m)]"
    using u(2) Some by (auto simp: bound_ctx_def in_state_def obs_updates [OF fr])
  then show ?thesis
    using u Some by (simp add: fwk_module_bind_module_def obs_frameD [OF fr] round_calls_def stage_calls_def bind_round_def entity_ids_def)
qed

lemma bind_modules_ok:
  assumes su: "stage_succeeds (bind_round r) (\<lambda>i. Call_bind i r) im obs" and fr: "obs_frame obs"
    and wf: "ctx_wf im (module_ctx_table s)"
  shows "\<exists>t. fwk_module_bind_modules im r s = Some (FWK_SUCCESS, t) \<and>
     module_ctx_table t = map (\<lambda>m. bound_ctx im r m (module_ctx_table s ! m)) [0..<idx_count im] \<and>
     obs t = obs s @ concat (map (\<lambda>m. round_calls im r m (element_count (module_ctx_table s ! m))) [0..<idx_count im])"
proof -
  let ?T = "module_ctx_table s" and ?calls = "\<lambda>m. round_calls im r m (element_count (module_ctx_table s ! m))"
  have len: "length ?T = idx_count im" using wf by (simp add: ctx_wf_def)
  let ?P = "\<lambda>k v. length (module_ctx_table v) = idx_count im \<and>
      (\<forall>m < idx_count im. module_ctx_table v ! m = (if m < k then bound_ctx im r m (?T ! m) else ?T ! m)) \<and>
      obs v = obs s @ concat (map ?calls [0..<k])"
  have "\<exists>t. loopM (fwk_module_bind_module im r) [0..<idx_count im] s = Some (FWK_SUCCESS, t) \<and> ?P (idx_count im) t"
  proof (rule loopM_upt_ok [where P = ?P])
    show "?P 0 s" using len by simp
  next
    fix k v assume k: "k < idx_count im" and P: "?P k v"
    have wfv: "ctx_wf im (module_ctx_table v)" using P wf by (auto simp: ctx_wf_def)
    from bind_module_ok [OF su fr k wfv] P k
    show "\<exists>v'. fwk_module_bind_module im r k v = Some (FWK_SUCCESS, v') \<and> ?P (Suc k) v'"
      by (fastforce simp: nth_list_update less_Suc_eq)
  qed
  then obtain t where t: "loopM (fwk_module_bind_module im r) [0..<idx_count im] s = Some (FWK_SUCCESS, t)" "?P (idx_count im) t"
    by blast
  then have "module_ctx_table t = map (\<lambda>m. bound_ctx im r m (?T ! m)) [0..<idx_count im]"
    by (auto intro: nth_equalityI)
  with t show ?thesis by (simp add: fwk_module_bind_modules_def)
qed

section \<open>Creating contexts\<close>

definition terminated :: "'d fwk_element list \<Rightarrow> bool" where
  "terminated es \<longleftrightarrow> (\<exists>e \<in> set es. elem_name e = None)"

abbreviation named_elements :: "'d fwk_element list \<Rightarrow> 'd fwk_element list" where
  "named_elements \<equiv> takeWhile (\<lambda>e. elem_name e \<noteq> None)"

lemma count_elements: "terminated es \<Longrightarrow> fwk_module_count_elements es = Some (length (named_elements es))"
  by (induction es) (auto simp: terminated_def)

definition fresh_elem :: "('s, 'd) fwk_image \<Rightarrow> nat \<Rightarrow> 'd fwk_element \<Rightarrow> 'd element_ctx" where
  "fresh_elem im m e =
     \<lparr>e_state = UNINITIALIZED, e_desc = e, e_sub_count = elem_sub_count e, e_subs = image_notifications im m\<rparr>"

definition fresh_ctx :: "('s, 'd) fwk_image \<Rightarrow> nat \<Rightarrow> 'd fwk_element list \<Rightarrow> 'd module_context" where
  "fresh_ctx im m es =
     \<lparr>ctx_id = FWK_ID_MODULE (of_nat m), ctx_state = UNINITIALIZED, element_count = length es,
      element_ctx_table = map (fresh_elem im m) es, m_subs = image_notifications im m\<rparr>"

lemma fresh_ctx_sel [simp]:
  "ctx_id (fresh_ctx im m es) = FWK_ID_MODULE (of_nat m)" "element_count (fresh_ctx im m es) = length es"
  "element_ctx_table (fresh_ctx im m es) = map (fresh_elem im m) es"
  by (simp_all add: fresh_ctx_def)

lemma fresh_ctx_same: "(fresh_ctx im m es)\<lparr>element_ctx_table := map (fresh_elem im m) es\<rparr> = fresh_ctx im m es"
  by (simp add: fresh_ctx_def)

definition calloc_never_fails :: "('s, 'd) fwk_image \<Rightarrow> bool" where
  "calloc_never_fails im \<longleftrightarrow> (\<forall>k n. calloc_ok im k n)"

lemma init_subscriptions_ok:
  assumes "calloc_never_fails im" "obs_frame obs"
  shows "\<exists>t. fwk_module_init_subscriptions im lst n s = Some t \<and> module_ctx_table t = module_ctx_table s \<and> obs t = obs s"
  using assms by (simp add: fwk_module_init_subscriptions_def fwk_mm_calloc_def calloc_never_fails_def obs_frameD)

lemma init_element_ctx_ok:
  assumes "calloc_never_fails im" "obs_frame obs"
  shows "\<exists>t. fwk_module_init_element_ctx im m i e (image_notifications im m) s = Some (fresh_elem im m e, t) \<and>
     module_ctx_table t = module_ctx_table s \<and> obs t = obs s"
  using init_subscriptions_ok [OF assms, of "ElemSubs m i" "image_notifications im m"
      "upd_heap (fwk_slist_init (image_build im) (ElemDelayed m i)) s"] assms
  by (auto simp: fwk_module_init_element_ctx_def fresh_elem_def image_notifications_def obs_frameD Let_def)

lemma init_element_ctxs_ok:
  assumes ca: "calloc_never_fails im" and fr: "obs_frame obs" and te: "terminated es"
    and m: "m < length (module_ctx_table s)"
  shows "\<exists>t. fwk_module_init_element_ctxs im m es (image_notifications im m) s = Some t \<and>
     module_ctx_table t = (module_ctx_table s)[m := (module_ctx_table s ! m)\<lparr>
        element_count := length (named_elements es), element_ctx_table := map (fresh_elem im m) (named_elements es)\<rparr>] \<and>
     obs t = obs s"
proof -
  let ?es = "named_elements es" and ?T = "module_ctx_table s"
  let ?n = "length ?es"
  obtain s1 where s1: "fwk_mm_calloc im ?n s = Some s1" "module_ctx_table s1 = ?T" "obs s1 = obs s"
    using ca fr by (auto simp: fwk_mm_calloc_def calloc_never_fails_def obs_frameD)
  let ?s2 = "upd_mod m (\<lambda>c. c\<lparr>element_count := ?n, element_ctx_table := []\<rparr>) s1"
  let ?step = "\<lambda>i s. Option.bind (fwk_module_init_element_ctx im m i (es ! i) (image_notifications im m) s)
      (\<lambda>(ectx, s). Some (upd_mod m (\<lambda>c. c\<lparr>element_ctx_table := element_ctx_table c @ [ectx]\<rparr>) s))"
  let ?P = "\<lambda>k v. module_ctx_table v = ?T[m := (?T ! m)\<lparr>element_count := ?n,
        element_ctx_table := map (fresh_elem im m) (take k ?es)\<rparr>] \<and> obs v = obs s"
  have "\<exists>t. foldM ?step [0..<?n] ?s2 = Some t \<and> ?P ?n t"
  proof (rule foldM_upt_ok [where P = ?P])
    show "?P 0 ?s2" using s1 m by (simp add: obs_updates [OF fr])
  next
    fix k v assume k: "k < ?n" and P: "?P k v"
    obtain t where t: "fwk_module_init_element_ctx im m k (es ! k) (image_notifications im m) v = Some (fresh_elem im m (es ! k), t)"
        "module_ctx_table t = module_ctx_table v" "obs t = obs v"
      using init_element_ctx_ok [OF ca fr] by blast
    have "take (Suc k) ?es = take k ?es @ [es ! k]" using k by (simp add: take_Suc_conv_app_nth takeWhile_nth)
    then show "\<exists>v'. ?step k v = Some v' \<and> ?P (Suc k) v'"
      using t P m by (simp add: obs_updates [OF fr])
  qed
  then show ?thesis using s1 count_elements [OF te] by (simp add: fwk_module_init_element_ctxs_def)
qed

text \<open>
  The elements module \<open>m\<close> has once it is initialised: those of its static table, or of the
  table \<open>gen m\<close> its generator returns.
\<close>

definition static_elements :: "('s, 'd) fwk_image \<Rightarrow> nat \<Rightarrow> 'd fwk_element list" where
  "static_elements im m = (case cfg_elements (module_config_table im ! m) of STATIC_ELEMENTS es \<Rightarrow> named_elements es | _ \<Rightarrow> [])"

definition image_elements :: "('s, 'd) fwk_image \<Rightarrow> (nat \<Rightarrow> 'd fwk_element list) \<Rightarrow> nat \<Rightarrow> 'd fwk_element list" where
  "image_elements im gen m =
     (case cfg_elements (module_config_table im ! m) of
        STATIC_ELEMENTS es \<Rightarrow> named_elements es | DYNAMIC_ELEMENTS _ \<Rightarrow> named_elements (gen m) | NO_ELEMENTS \<Rightarrow> [])"

definition static_terminated :: "('s, 'd) fwk_image \<Rightarrow> bool" where
  "static_terminated im \<longleftrightarrow>
     (\<forall>m < idx_count im. \<forall>es. cfg_elements (module_config_table im ! m) = STATIC_ELEMENTS es \<longrightarrow> terminated es)"

lemma module_init_one_ok:
  assumes ca: "calloc_never_fails im" and fr: "obs_frame obs" and te: "static_terminated im"
    and m: "m < idx_count im" and len: "length (module_ctx_table s) = idx_count im"
  shows "\<exists>t. fwk_module_init_one im m s = Some t \<and>
     module_ctx_table t = (module_ctx_table s)[m := fresh_ctx im m (static_elements im m)] \<and> obs t = obs s"
proof -
  let ?T = "module_ctx_table s" and ?cfg = "cfg_elements (module_config_table im ! m)"
  let ?c = "\<lparr>ctx_id = FWK_ID_MODULE (of_nat m), ctx_state = UNINITIALIZED, element_count = 0,
      element_ctx_table = [], m_subs = 0\<rparr>"
  let ?s1 = "upd_heap (fwk_slist_init (image_build im) (ModDelayed m)) (upd_mod m (\<lambda>_. ?c) s)"
  let ?es = "static_elements im m"
  have "\<exists>u. (case ?cfg of STATIC_ELEMENTS table \<Rightarrow> fwk_module_init_element_ctxs im m table (image_notifications im m) ?s1 | _ \<Rightarrow> Some ?s1) = Some u \<and>
     module_ctx_table u = ?T[m := ?c\<lparr>element_count := length ?es, element_ctx_table := map (fresh_elem im m) ?es\<rparr>] \<and> obs u = obs s"
  proof (cases "\<exists>es. ?cfg = STATIC_ELEMENTS es")
    case True
    then obtain es where es: "?cfg = STATIC_ELEMENTS es" by blast
    have "terminated es" using te m es by (auto simp: static_terminated_def)
    from init_element_ctxs_ok [OF ca fr this, of m ?s1] show ?thesis
      using m len es by (simp add: static_elements_def obs_updates [OF fr] obs_frameD [OF fr])
  next
    case False
    then show ?thesis
      by (cases ?cfg) (simp_all add: static_elements_def obs_updates [OF fr] obs_frameD [OF fr])
  qed
  then obtain u where u: "(case ?cfg of STATIC_ELEMENTS table \<Rightarrow> fwk_module_init_element_ctxs im m table (image_notifications im m) ?s1 | _ \<Rightarrow> Some ?s1) = Some u"
     "module_ctx_table u = ?T[m := ?c\<lparr>element_count := length ?es, element_ctx_table := map (fresh_elem im m) ?es\<rparr>]" "obs u = obs s"
    by blast
  obtain v where v: "fwk_module_init_subscriptions im (ModSubs m) (image_notifications im m) u = Some v"
      "module_ctx_table v = module_ctx_table u" "obs v = obs u"
    using init_subscriptions_ok [OF ca fr] by blast
  show ?thesis
    using u v m len by (simp add: fwk_module_init_one_def fresh_ctx_def obs_updates [OF fr])
qed

lemma module_init_ok:
  assumes ca: "calloc_never_fails im" and fr: "obs_frame obs" and te: "static_terminated im"
    and len: "length (module_ctx_table s) = idx_count im"
  shows "\<exists>t. fwk_module_init im s = Some t \<and>
     module_ctx_table t = map (\<lambda>m. fresh_ctx im m (static_elements im m)) [0..<idx_count im] \<and> obs t = obs s"
proof -
  let ?P = "\<lambda>k v. length (module_ctx_table v) = idx_count im \<and>
      (\<forall>m < k. module_ctx_table v ! m = fresh_ctx im m (static_elements im m)) \<and> obs v = obs s"
  have "\<exists>t. foldM (fwk_module_init_one im) [0..<idx_count im] s = Some t \<and> ?P (idx_count im) t"
  proof (rule foldM_upt_ok [where P = ?P])
    show "?P 0 s" using len by simp
  next
    fix k v assume k: "k < idx_count im" and P: "?P k v"
    with module_init_one_ok [OF ca fr te k, of v]
    show "\<exists>v'. fwk_module_init_one im k v = Some v' \<and> ?P (Suc k) v'"
      by (auto simp: nth_list_update less_Suc_eq)
  qed
  then show ?thesis by (auto simp: fwk_module_init_def intro!: nth_equalityI)
qed

section \<open>The initialise stage\<close>

definition generator_ok :: "('d, 'z) image \<Rightarrow> (nat \<Rightarrow> 'd fwk_element list) \<Rightarrow> ('d, 'z) observer \<Rightarrow> nat \<Rightarrow> bool" where
  "generator_ok im gen obs m \<longleftrightarrow>
     (\<forall>g. cfg_elements (module_config_table im ! m) = DYNAMIC_ELEMENTS g \<longrightarrow>
        terminated (gen m) \<and>
        (\<exists>f. g = Some f \<and> (\<forall>i s. \<exists>t. f i s = Some (Some (gen m), t) \<and> module_ctx_table t = module_ctx_table s \<and> obs t = obs s)))"

definition descriptor_ok :: "('d, 'z) image \<Rightarrow> nat \<Rightarrow> bool" where
  "descriptor_ok im m \<longleftrightarrow> mod_type (module_table im ! m) < FWK_MODULE_TYPE_COUNT \<and>
     (api_count (module_table im ! m) = 0) = (cb_process_bind_request (module_table im ! m) = None)"

definition init_succeeds :: "('d, 'z) image \<Rightarrow> (nat \<Rightarrow> 'd fwk_element list) \<Rightarrow> ('d, 'z) observer \<Rightarrow> bool" where
  "init_succeeds im gen obs \<longleftrightarrow>
     (\<forall>m < idx_count im. descriptor_ok im m \<and> generator_ok im gen obs m \<and>
        (\<exists>f. cb_init (module_table im ! m) = Some f \<and> (\<forall>i n x. runs obs (Call_init i) (f i n x))) \<and>
        (\<forall>f i. cb_post_init (module_table im ! m) = Some f \<longrightarrow> runs obs (Call_post_init i) (f i)) \<and>
        (image_elements im gen m \<noteq> [] \<longrightarrow>
           (\<exists>f. cb_element_init (module_table im ! m) = Some f \<and> (\<forall>i n x. runs obs (Call_element_init i) (f i n x)))) \<and>
        (\<forall>e \<in> set (image_elements im gen m). elem_data e \<noteq> None))"

definition init_calls :: "('d, 'z) image \<Rightarrow> nat \<Rightarrow> nat \<Rightarrow> lifecycle_call list" where
  "init_calls im m n =
     Call_init (FWK_ID_MODULE (of_nat m)) #
     map (\<lambda>i. Call_element_init (FWK_ID_ELEMENT (of_nat m) (of_nat i))) [0..<n] @
     (if cb_post_init (module_table im ! m) = None then [] else [Call_post_init (FWK_ID_MODULE (of_nat m))])"

lemma init_succeedsD:
  assumes "init_succeeds im gen obs" "m < idx_count im"
  shows "descriptor_ok im m" "generator_ok im gen obs m"
    "\<exists>f. cb_init (module_table im ! m) = Some f \<and> (\<forall>i n x. runs obs (Call_init i) (f i n x))"
    "cb_post_init (module_table im ! m) = Some g \<Longrightarrow> runs obs (Call_post_init i) (g i)"
    "image_elements im gen m \<noteq> [] \<Longrightarrow>
       \<exists>f. cb_element_init (module_table im ! m) = Some f \<and> (\<forall>i n x. runs obs (Call_element_init i) (f i n x))"
    "e \<in> set (image_elements im gen m) \<Longrightarrow> elem_data e \<noteq> None"
  using assms unfolding init_succeeds_def by blast+

lemma generate_elements_ok:
  assumes ca: "calloc_never_fails im" and fr: "obs_frame obs" and ge: "generator_ok im gen obs m"
    and m: "m < length (module_ctx_table s)" and c: "module_ctx_table s ! m = fresh_ctx im m (static_elements im m)"
  shows "\<exists>t. fwk_module_generate_elements im m s = Some t \<and>
     module_ctx_table t = (module_ctx_table s)[m := fresh_ctx im m (image_elements im gen m)] \<and> obs t = obs s"
proof (cases "cfg_elements (module_config_table im ! m)")
  case NO_ELEMENTS
  then show ?thesis
    using c by (simp add: fwk_module_generate_elements_def static_elements_def image_elements_def) (metis list_update_id)
next
  case (STATIC_ELEMENTS es)
  then show ?thesis
    using c by (simp add: fwk_module_generate_elements_def static_elements_def image_elements_def) (metis list_update_id)
next
  case (DYNAMIC_ELEMENTS g)
  then obtain f where f: "g = Some f" "terminated (gen m)"
      "\<And>i s. \<exists>t. f i s = Some (Some (gen m), t) \<and> module_ctx_table t = module_ctx_table s \<and> obs t = obs s"
    using ge by (auto simp: generator_ok_def)
  obtain u where u: "f (ctx_id (module_ctx_table s ! m)) s = Some (Some (gen m), u)"
      "module_ctx_table u = module_ctx_table s" "obs u = obs s"
    using f(3) by blast
  from init_element_ctxs_ok [OF ca fr f(2), of m u] m u(2,3) c show ?thesis
    using DYNAMIC_ELEMENTS f(1) u by (simp add: fwk_module_generate_elements_def image_elements_def fresh_ctx_def)
qed

lemma init_element_ok:
  assumes fr: "obs_frame obs" and f: "\<And>i n x. runs obs (Call_element_init i) (f i n x)"
    and id: "ctx_id (module_ctx_table s ! m) = FWK_ID_MODULE (of_nat m)"
    and data: "elem_data (e_desc (element_ctx_table (module_ctx_table s ! m) ! k)) \<noteq> None"
  shows "\<exists>t. fwk_module_init_element im m f k s = Some t \<and>
     module_ctx_table t = module_ctx_table (set_elem_state m k INITIALIZED s) \<and>
     obs t = obs s @ [Call_element_init (FWK_ID_ELEMENT (of_nat m) (of_nat k))]"
proof -
  let ?e = "FWK_ID_ELEMENT (of_nat m) (of_nat k)" and ?d = "e_desc (element_ctx_table (module_ctx_table s ! m) ! k)"
  obtain x where x: "elem_data ?d = Some x" using data by auto
  obtain t where "f ?e (elem_sub_count ?d) x (s\<lparr>bind_id := ?e\<rparr>) = Some (FWK_SUCCESS, t)"
      "module_ctx_table t = module_ctx_table (s\<lparr>bind_id := ?e\<rparr>)" "obs t = obs (s\<lparr>bind_id := ?e\<rparr>) @ [Call_element_init ?e]"
    using f by (rule runsE)
  then show ?thesis
    using id x by (simp add: fwk_module_init_element_def obs_updates [OF fr] obs_frameD [OF fr])
qed

lemma init_elements_ok:
  assumes fr: "obs_frame obs" and m: "m < length (module_ctx_table s)"
    and f: "cb_element_init (module_table im ! m) = Some f" "\<And>i n x. runs obs (Call_element_init i) (f i n x)"
    and c: "module_ctx_table s ! m = fresh_ctx im m es" and data: "\<And>e. e \<in> set es \<Longrightarrow> elem_data e \<noteq> None"
  shows "\<exists>t. fwk_module_init_elements im m s = Some t \<and>
     module_ctx_table t = (module_ctx_table s)[m := (fresh_ctx im m es)\<lparr>
        element_ctx_table := map (\<lambda>e. (fresh_elem im m e)\<lparr>e_state := INITIALIZED\<rparr>) es\<rparr>] \<and>
     obs t = obs s @ map (\<lambda>i. Call_element_init (FWK_ID_ELEMENT (of_nat m) (of_nat i))) [0..<length es]"
proof -
  let ?T = "module_ctx_table s" and ?fs = "map (fresh_elem im m) es" and ?set = "\<lambda>e. e\<lparr>e_state := INITIALIZED\<rparr>"
  let ?P = "\<lambda>k v. module_ctx_table v = ?T[m := (fresh_ctx im m es)\<lparr>element_ctx_table := map ?set (take k ?fs) @ drop k ?fs\<rparr>] \<and>
      obs v = obs s @ map (\<lambda>i. Call_element_init (FWK_ID_ELEMENT (of_nat m) (of_nat i))) [0..<k]"
  have "\<exists>t. foldM (fwk_module_init_element im m f) [0..<length es] s = Some t \<and> ?P (length es) t"
  proof (rule foldM_upt_ok [where P = ?P])
    show "?P 0 s" using c by (simp add: fresh_ctx_same) (metis list_update_id)
  next
    fix k v assume k: "k < length es" and P: "?P k v"
    have n: "element_ctx_table (module_ctx_table v ! m) ! k = fresh_elem im m (es ! k)"
      using P k m map_prefix_nth [of k ?fs ?set] by simp
    have dat: "elem_data (e_desc (element_ctx_table (module_ctx_table v ! m) ! k)) \<noteq> None"
      using k data by (simp add: n fresh_elem_def)
    have "ctx_id (module_ctx_table v ! m) = FWK_ID_MODULE (of_nat m)" using P m by simp
    from init_element_ok [where f = f and im = im, OF fr f(2) this dat] obtain t where t: "fwk_module_init_element im m f k v = Some t"
        "module_ctx_table t = module_ctx_table (set_elem_state m k INITIALIZED v)"
        "obs t = obs v @ [Call_element_init (FWK_ID_ELEMENT (of_nat m) (of_nat k))]"
      by blast
    have "module_ctx_table t = ?T[m := (fresh_ctx im m es)\<lparr>element_ctx_table := map ?set (take (Suc k) ?fs) @ drop (Suc k) ?fs\<rparr>]"
      using P t(2) n k m map_prefix_step [of k ?fs ?set] by (simp del: map_append drop_map take_map map_map)
    then show "\<exists>v'. fwk_module_init_element im m f k v = Some v' \<and> ?P (Suc k) v'" using t P by simp
  qed
  then show ?thesis using f(1) c by (simp add: fwk_module_init_elements_def o_def)
qed

lemma in_state_fresh:
  "in_state st (fresh_ctx im m es) = (fresh_ctx im m es)
     \<lparr>element_ctx_table := map (\<lambda>e. (fresh_elem im m e)\<lparr>e_state := st\<rparr>) es, ctx_state := st\<rparr>"
  by (simp add: in_state_def fresh_ctx_def o_def)

lemma init_module_ok:
  assumes su: "init_succeeds im gen obs" and ca: "calloc_never_fails im" and fr: "obs_frame obs" and m: "m < idx_count im"
    and len: "length (module_ctx_table s) = idx_count im"
    and c: "module_ctx_table s ! m = fresh_ctx im m (static_elements im m)"
  shows "\<exists>t. fwk_module_init_module im m s = Some t \<and>
     module_ctx_table t = (module_ctx_table s)[m := in_state INITIALIZED (fresh_ctx im m (image_elements im gen m))] \<and>
     obs t = obs s @ init_calls im m (length (image_elements im gen m))"
proof -
  let ?T = "module_ctx_table s" and ?es = "image_elements im gen m" and ?d = "module_table im ! m"
  let ?mid = "FWK_ID_MODULE (of_nat m)" and ?x = "cfg_data (module_config_table im ! m)"
  note D = init_succeedsD [OF su m]
  have mT: "m < length ?T" using m len by simp
  obtain s1 where s1: "fwk_module_generate_elements im m s = Some s1" "module_ctx_table s1 = ?T[m := fresh_ctx im m ?es]" "obs s1 = obs s"
    using generate_elements_ok [OF ca fr D(2) mT c] by blast
  obtain init where init: "cb_init ?d = Some init" "\<And>i n x. runs obs (Call_init i) (init i n x)" using D(3) by blast
  obtain s2 where s2: "init ?mid (length ?es) ?x s1 = Some (FWK_SUCCESS, s2)" "module_ctx_table s2 = module_ctx_table s1"
      "obs s2 = obs s1 @ [Call_init ?mid]"
    using init(2) by (rule runsE)
  have "\<exists>t. (if element_count (module_ctx_table s2 ! m) > 0 then fwk_module_init_elements im m s2 else Some s2) = Some t \<and>
     module_ctx_table t = ?T[m := (fresh_ctx im m ?es)\<lparr>element_ctx_table := map (\<lambda>e. (fresh_elem im m e)\<lparr>e_state := INITIALIZED\<rparr>) ?es\<rparr>] \<and>
     obs t = obs s2 @ map (\<lambda>i. Call_element_init (FWK_ID_ELEMENT (of_nat m) (of_nat i))) [0..<length ?es]"
  proof (cases "?es = []")
    case True
    then show ?thesis using s1 s2 mT by (simp add: fresh_ctx_def)
  next
    case False
    then obtain f where f: "cb_element_init ?d = Some f" "\<And>i n x. runs obs (Call_element_init i) (f i n x)" using D(5) by blast
    have c2: "module_ctx_table s2 ! m = fresh_ctx im m ?es" and "m < length (module_ctx_table s2)"
      using s1(2) s2(2) mT by simp_all
    from init_elements_ok [where obs = obs, OF fr this(2) f c2 D(6)] show ?thesis
      using False s1(2) s2(2) mT by simp
  qed
  then obtain s3 where s3: "(if element_count (module_ctx_table s2 ! m) > 0 then fwk_module_init_elements im m s2 else Some s2) = Some s3"
     "module_ctx_table s3 = ?T[m := (fresh_ctx im m ?es)\<lparr>element_ctx_table := map (\<lambda>e. (fresh_elem im m e)\<lparr>e_state := INITIALIZED\<rparr>) ?es\<rparr>]"
     "obs s3 = obs s2 @ map (\<lambda>i. Call_element_init (FWK_ID_ELEMENT (of_nat m) (of_nat i))) [0..<length ?es]" by blast
  have "\<exists>t. (case cb_post_init ?d of None \<Rightarrow> Some s3
       | Some post_init \<Rightarrow> Option.bind (post_init (ctx_id (module_ctx_table s3 ! m)) s3)
           (\<lambda>(status, s). Option.bind (fwk_assert (status = FWK_SUCCESS)) (\<lambda>_. Some s))) = Some t \<and>
     module_ctx_table t = module_ctx_table s3 \<and>
     obs t = obs s3 @ (if cb_post_init ?d = None then [] else [Call_post_init ?mid])"
  proof (cases "cb_post_init ?d")
    case None
    then show ?thesis by simp
  next
    case (Some f)
    from D(4) [OF Some, of ?mid] obtain t where "f ?mid s3 = Some (FWK_SUCCESS, t)"
        "module_ctx_table t = module_ctx_table s3" "obs t = obs s3 @ [Call_post_init ?mid]" by (rule runsE)
    then show ?thesis using Some s3(2) mT by simp
  qed
  then show ?thesis
    using D(1) s1 init(1) s2 s3 mT
    by (auto simp: fwk_module_init_module_def descriptor_ok_def init_calls_def in_state_fresh obs_updates [OF fr] Let_def)
qed

lemma init_modules_ok:
  assumes su: "init_succeeds im gen obs" and ca: "calloc_never_fails im" and fr: "obs_frame obs"
    and T: "module_ctx_table s = map (\<lambda>m. fresh_ctx im m (static_elements im m)) [0..<idx_count im]"
  shows "\<exists>t. fwk_module_init_modules im s = Some t \<and>
     module_ctx_table t = map (\<lambda>m. in_state INITIALIZED (fresh_ctx im m (image_elements im gen m))) [0..<idx_count im] \<and>
     obs t = obs s @ concat (map (\<lambda>m. init_calls im m (length (image_elements im gen m))) [0..<idx_count im])"
proof -
  let ?done = "\<lambda>m. in_state INITIALIZED (fresh_ctx im m (image_elements im gen m))"
  let ?P = "\<lambda>k v. length (module_ctx_table v) = idx_count im \<and>
      (\<forall>m < idx_count im. module_ctx_table v ! m = (if m < k then ?done m else fresh_ctx im m (static_elements im m))) \<and>
      obs v = obs s @ concat (map (\<lambda>m. init_calls im m (length (image_elements im gen m))) [0..<k])"
  have "\<exists>t. foldM (fwk_module_init_module im) [0..<idx_count im] s = Some t \<and> ?P (idx_count im) t"
  proof (rule foldM_upt_ok [where P = ?P])
    show "?P 0 s" using T by simp
  next
    fix k v assume k: "k < idx_count im" and P: "?P k v"
    from init_module_ok [OF su ca fr k] P k
    show "\<exists>v'. fwk_module_init_module im k v = Some v' \<and> ?P (Suc k) v'"
      by (fastforce simp: nth_list_update less_Suc_eq)
  qed
  then show ?thesis by (auto simp: fwk_module_init_modules_def intro!: nth_equalityI)
qed

section \<open>Starting and stopping the firmware\<close>

text \<open>The number of event structures: the firmware's FMW_NOTIFICATION_MAX, at least 64.\<close>

definition FWK_MODULE_EVENT_COUNT :: "nat \<Rightarrow> nat" where
  "FWK_MODULE_EVENT_COUNT notification_max = (if notification_max > 64 then notification_max else 64)"

lemma FWK_MODULE_EVENT_COUNT_pos: "0 < FWK_MODULE_EVENT_COUNT nmax"
  by (simp add: FWK_MODULE_EVENT_COUNT_def)

definition fwk_module_start ::
  "('d, 'z) core_image \<Rightarrow> nat \<Rightarrow> ('d, 'z) fwk_ctx_scheme \<Rightarrow> (int \<times> ('d, 'z) fwk_ctx_scheme) option" where
  "fwk_module_start im notification_max s =
     (if mod_initialized s then Some (FWK_E_STATE, s)
      else do {
        (status, s) \<leftarrow> fwk_init im (FWK_MODULE_EVENT_COUNT notification_max) s;
        if status \<noteq> FWK_SUCCESS then Some (status, s)
        else do {
          s \<leftarrow> fwk_module_init_modules im (s\<lparr>stage := STAGE_INITIALIZE\<rparr>);
          (status, s) \<leftarrow> loopM (fwk_module_bind_modules im) [0..<Suc FWK_MODULE_BIND_ROUND_MAX] (s\<lparr>stage := STAGE_BIND\<rparr>);
          if status \<noteq> FWK_SUCCESS then Some (status, s)
          else do {
            (status, s) \<leftarrow> start_modules im (s\<lparr>stage := STAGE_START\<rparr>);
            if status \<noteq> FWK_SUCCESS then Some (status, s)
            else Some (FWK_SUCCESS, s\<lparr>mod_initialized := True\<rparr>)
          }
        }
      })"

definition core_obs_frame :: "(('d, 'z) fwk_ctx_scheme \<Rightarrow> lifecycle_call list) \<Rightarrow> bool" where
  "core_obs_frame obs \<longleftrightarrow> obs_frame obs \<and> (\<forall>s x. obs (s\<lparr>event_table := x\<rparr>) = obs s) \<and>
     (\<forall>s x. obs (s\<lparr>core_initialized := x\<rparr>) = obs s)"

lemma core_obs_frameD:
  assumes "core_obs_frame obs"
  shows "obs_frame obs" "obs (s\<lparr>event_table := a\<rparr>) = obs s" "obs (s\<lparr>core_initialized := b\<rparr>) = obs s"
  using assms by (auto simp: core_obs_frame_def)

lemma fwk_init_succeeds:
  fixes s :: "('d, 'z) fwk_ctx_scheme"
  assumes ca: "calloc_never_fails im" and fr: "core_obs_frame obs" and n: "0 < n"
  shows "\<exists>t. fwk_init im n s = Some (FWK_SUCCESS, t) \<and> module_ctx_table t = module_ctx_table s \<and> obs t = obs s"
proof -
  let ?h = "fwk_slist_init (image_build im) IsrEventQ (fwk_slist_init (image_build im) EventQ
      (fwk_slist_init (image_build im) FreeEventQ (zero_event_nodes n (heap s))))"
  have "slist_detached ?h k" if "k \<in> set (map EventNode [0..<n])" for k
    using that by (auto simp: slist_detached_def init_headers_rep zero_event_nodes_def)
  then obtain h where "foldM (fwk_slist_push_tail (image_build im) FreeEventQ) (map EventNode [0..<n]) ?h = Some h"
    using sl.push_all [OF init_headers_rep(1), where ns = "map EventNode [0..<n]"] by (force simp: distinct_map inj_on_def)
  then show ?thesis
    using n ca by (simp add: fwk_init_def fwk_mm_calloc_def calloc_never_fails_def core_obs_frameD [OF fr]
        obs_frameD [OF core_obs_frameD(1) [OF fr]])
qed

text \<open>An image that boots: its descriptors are complete and all its callbacks succeed.\<close>

definition boots :: "('d, 'z) core_image \<Rightarrow> (nat \<Rightarrow> 'd fwk_element list) \<Rightarrow> (('d, 'z) fwk_ctx_scheme \<Rightarrow> lifecycle_call list) \<Rightarrow> bool" where
  "boots im gen obs \<longleftrightarrow> core_obs_frame obs \<and> calloc_never_fails im \<and> init_succeeds im gen obs \<and>
     (\<forall>r. stage_succeeds (bind_round r) (\<lambda>i. Call_bind i r) im obs) \<and> stage_succeeds cb_start Call_start im obs"

text \<open>The calls of the whole boot, module by module within each stage.\<close>

definition boot_calls :: "('d, 'z) core_image \<Rightarrow> (nat \<Rightarrow> 'd fwk_element list) \<Rightarrow> lifecycle_call list" where
  "boot_calls im gen =
     (let size_of = (\<lambda>m. length (image_elements im gen m)); each = (\<lambda>f. concat (map (\<lambda>m. f m (size_of m)) [0..<idx_count im]))
      in each (init_calls im) @ each (round_calls im 0) @ each (round_calls im 1) @
         each (\<lambda>m n. stage_calls cb_start Call_start im m (entity_ids m n)))"

lemma ctx_wf_map:
  assumes "\<And>m. m < idx_count im \<Longrightarrow> ctx_id (f m) = FWK_ID_MODULE (of_nat m) \<and> element_count (f m) = length (element_ctx_table (f m))"
  shows "ctx_wf im (map f [0..<idx_count im])"
  using assms by (simp add: ctx_wf_def)

lemma bind_modules_map:
  assumes b: "stage_succeeds (bind_round r) (\<lambda>i. Call_bind i r) im obs" and fr: "obs_frame obs"
    and T: "module_ctx_table s = map f [0..<idx_count im]"
    and f: "\<And>m. m < idx_count im \<Longrightarrow> ctx_id (f m) = FWK_ID_MODULE (of_nat m) \<and> element_count (f m) = length (element_ctx_table (f m))"
  shows "\<exists>t. fwk_module_bind_modules im r s = Some (FWK_SUCCESS, t) \<and>
     module_ctx_table t = map (\<lambda>m. bound_ctx im r m (f m)) [0..<idx_count im] \<and>
     obs t = obs s @ concat (map (\<lambda>m. round_calls im r m (element_count (f m))) [0..<idx_count im])"
proof -
  have wf: "ctx_wf im (module_ctx_table s)" unfolding T by (rule ctx_wf_map [OF f])
  have "map (\<lambda>m. bound_ctx im r m (module_ctx_table s ! m)) [0..<idx_count im] = map (\<lambda>m. bound_ctx im r m (f m)) [0..<idx_count im]"
    "map (\<lambda>m. round_calls im r m (element_count (module_ctx_table s ! m))) [0..<idx_count im] =
       map (\<lambda>m. round_calls im r m (element_count (f m))) [0..<idx_count im]"
    by (simp_all add: T)
  with bind_modules_ok [OF b fr wf] show ?thesis by simp
qed

lemma bind_stage_ok:
  assumes b: "\<And>r. stage_succeeds (bind_round r) (\<lambda>i. Call_bind i r) im obs" and fr: "obs_frame obs"
    and T: "module_ctx_table s = map f [0..<idx_count im]"
    and f: "\<And>m. m < idx_count im \<Longrightarrow> ctx_id (f m) = FWK_ID_MODULE (of_nat m) \<and> element_count (f m) = length (element_ctx_table (f m))"
  shows "\<exists>t. loopM (fwk_module_bind_modules im) [0..<Suc FWK_MODULE_BIND_ROUND_MAX] s = Some (FWK_SUCCESS, t) \<and>
     module_ctx_table t = map (\<lambda>m. bound_ctx im 1 m (bound_ctx im 0 m (f m))) [0..<idx_count im] \<and>
     obs t = obs s @ concat (map (\<lambda>m. round_calls im 0 m (element_count (f m))) [0..<idx_count im]) @
       concat (map (\<lambda>m. round_calls im 1 m (element_count (f m))) [0..<idx_count im])"
proof -
  from bind_modules_map [OF b [of 0] fr T f] obtain u where
    u: "fwk_module_bind_modules im 0 s = Some (FWK_SUCCESS, u)" "module_ctx_table u = map (\<lambda>m. bound_ctx im 0 m (f m)) [0..<idx_count im]"
      "obs u = obs s @ concat (map (\<lambda>m. round_calls im 0 m (element_count (f m))) [0..<idx_count im])" by blast
  have "ctx_id (bound_ctx im 0 m (f m)) = FWK_ID_MODULE (of_nat m) \<and>
      element_count (bound_ctx im 0 m (f m)) = length (element_ctx_table (bound_ctx im 0 m (f m)))" if "m < idx_count im" for m
    using f [OF that] by simp
  from bind_modules_map [OF b [of 1] fr u(2) this] obtain t where
    t: "fwk_module_bind_modules im 1 u = Some (FWK_SUCCESS, t)"
      "module_ctx_table t = map (\<lambda>m. bound_ctx im 1 m (bound_ctx im 0 m (f m))) [0..<idx_count im]"
      "obs t = obs u @ concat (map (\<lambda>m. round_calls im 1 m (element_count (f m))) [0..<idx_count im])" by auto
  show ?thesis using u t by (simp add: FWK_MODULE_BIND_ROUND_MAX_def)
qed

lemma start_ok:
  assumes b: "boots im gen obs" and ni: "\<not> mod_initialized s"
    and T: "module_ctx_table s = map (\<lambda>m. fresh_ctx im m (static_elements im m)) [0..<idx_count im]"
  shows "\<exists>t. fwk_module_start im nmax s = Some (FWK_SUCCESS, t) \<and> mod_initialized t \<and>
     module_ctx_table t = map (\<lambda>m. in_state STARTED (fresh_ctx im m (image_elements im gen m))) [0..<idx_count im] \<and>
     obs t = obs s @ boot_calls im gen"
proof -
  have B: "core_obs_frame obs" "calloc_never_fails im" "init_succeeds im gen obs"
      "\<And>r. stage_succeeds (bind_round r) (\<lambda>i. Call_bind i r) im obs" "stage_succeeds cb_start Call_start im obs"
    using b by (auto simp: boots_def)
  note fr = core_obs_frameD(1) [OF B(1)]
  let ?f = "\<lambda>m. fresh_ctx im m (image_elements im gen m)"
  obtain s1 where s1: "fwk_init im (FWK_MODULE_EVENT_COUNT nmax) s = Some (FWK_SUCCESS, s1)" "module_ctx_table s1 = module_ctx_table s" "obs s1 = obs s"
    using fwk_init_succeeds [OF B(2,1) FWK_MODULE_EVENT_COUNT_pos [of nmax], of s] by auto
  have "module_ctx_table (s1\<lparr>stage := STAGE_INITIALIZE\<rparr>) = map (\<lambda>m. fresh_ctx im m (static_elements im m)) [0..<idx_count im]"
    using s1(2) T by simp
  from init_modules_ok [OF B(3,2) fr this] obtain s2 where
    s2: "fwk_module_init_modules im (s1\<lparr>stage := STAGE_INITIALIZE\<rparr>) = Some s2"
      "module_ctx_table s2 = map (\<lambda>m. in_state INITIALIZED (?f m)) [0..<idx_count im]"
      "obs s2 = obs s1 @ concat (map (\<lambda>m. init_calls im m (length (image_elements im gen m))) [0..<idx_count im])"
    by (auto simp: obs_frameD [OF fr])
  have "module_ctx_table (s2\<lparr>stage := STAGE_BIND\<rparr>) = map (\<lambda>m. in_state INITIALIZED (?f m)) [0..<idx_count im]" using s2(2) by simp
  from bind_stage_ok [OF B(4) fr this] obtain s3 where
    s3: "loopM (fwk_module_bind_modules im) [0..<Suc FWK_MODULE_BIND_ROUND_MAX] (s2\<lparr>stage := STAGE_BIND\<rparr>) = Some (FWK_SUCCESS, s3)"
      "module_ctx_table s3 = map (\<lambda>m. bound_ctx im 1 m (bound_ctx im 0 m (in_state INITIALIZED (?f m)))) [0..<idx_count im]"
      "obs s3 = obs s2 @ concat (map (\<lambda>m. round_calls im 0 m (length (image_elements im gen m))) [0..<idx_count im]) @
         concat (map (\<lambda>m. round_calls im 1 m (length (image_elements im gen m))) [0..<idx_count im])"
    by (auto simp: obs_frameD [OF fr])
  have "ctx_wf im (module_ctx_table (s3\<lparr>stage := STAGE_START\<rparr>))" using s3(2) by (simp add: ctx_wf_def)
  note walk = starting.walk_ok [OF B(5) fr this]
  have eq: "map (\<lambda>m. stage_calls cb_start Call_start im m (entity_ids m (element_count (module_ctx_table (s3\<lparr>stage := STAGE_START\<rparr>) ! m)))) [0..<idx_count im] =
      map (\<lambda>m. stage_calls cb_start Call_start im m (entity_ids m (length (image_elements im gen m)))) [0..<idx_count im]"
    by (simp add: s3(2))
  from walk [unfolded eq] obtain s4 where
    s4: "start_modules im (s3\<lparr>stage := STAGE_START\<rparr>) = Some (FWK_SUCCESS, s4)"
      "module_ctx_table s4 = map (\<lambda>m. in_state STARTED (?f m)) [0..<idx_count im]"
      "obs s4 = obs s3 @ concat (map (\<lambda>m. stage_calls cb_start Call_start im m (entity_ids m (length (image_elements im gen m)))) [0..<idx_count im])"
    using s3(2) by (auto simp: start_modules_def o_def obs_frameD [OF fr])
  show ?thesis
    using ni s1 s2 s3 s4 by (simp add: fwk_module_start_def obs_frameD [OF fr] boot_calls_def Let_def)
qed

lemma stop_ok:
  assumes su: "stage_succeeds cb_stop Call_stop im obs" and fr: "obs_frame obs"
    and wf: "ctx_wf im (module_ctx_table s)" and i: "mod_initialized s"
  shows "\<exists>t. fwk_module_stop im s = Some (FWK_SUCCESS, t) \<and>
     module_ctx_table t = map (in_state SUSPENDED) (module_ctx_table s) \<and>
     obs t = obs s @ concat (map (\<lambda>m. stage_calls cb_stop Call_stop im m (entity_ids m (element_count (module_ctx_table s ! m)))) [0..<idx_count im])"
  using stopping.walk_ok [OF su fr, of "s\<lparr>stage := STAGE_STOP\<rparr>"] wf i
  by (simp add: fwk_module_stop_def stop_modules_def obs_frameD [OF fr])

section \<open>A small image with a log\<close>

text \<open>Two modules; the second has two elements and, unlike the first, every callback.\<close>

record logged = "unit fwk_ctx" +
  call_log :: "lifecycle_call list"

definition log_call :: "lifecycle_call \<Rightarrow> logged \<Rightarrow> (int \<times> logged) option" where
  "log_call c s = Some (FWK_SUCCESS, s\<lparr>call_log := call_log s @ [c]\<rparr>)"

definition log_image :: "(logged, unit) fwk_image" where
  "log_image = \<lparr>image_build = ex_build,
     module_table =
       [\<lparr>mod_type = 0, api_count = 0, event_count = 0, notification_count = 0, cb_init = Some (\<lambda>i _ _. log_call (Call_init i)),
         cb_element_init = None, cb_post_init = None, cb_bind = None, cb_start = None, cb_stop = None, cb_process_bind_request = None,
         cb_process_event = None, cb_process_notification = None\<rparr>,
        \<lparr>mod_type = 1, api_count = 0, event_count = 0, notification_count = 0, cb_init = Some (\<lambda>i _ _. log_call (Call_init i)),
         cb_element_init = Some (\<lambda>i _ _. log_call (Call_element_init i)), cb_post_init = Some (\<lambda>i. log_call (Call_post_init i)),
         cb_bind = Some (\<lambda>i r. log_call (Call_bind i r)), cb_start = Some (\<lambda>i. log_call (Call_start i)),
         cb_stop = Some (\<lambda>i. log_call (Call_stop i)), cb_process_bind_request = None,
         cb_process_event = None, cb_process_notification = None\<rparr>],
     module_config_table =
       [\<lparr>cfg_data = None, cfg_elements = NO_ELEMENTS\<rparr>,
        \<lparr>cfg_data = None, cfg_elements = STATIC_ELEMENTS
           [\<lparr>elem_name = Some ''a'', elem_sub_count = 0, elem_data = Some ()\<rparr>, \<lparr>elem_name = Some ''b'', elem_sub_count = 0, elem_data = Some ()\<rparr>,
            \<lparr>elem_name = None, elem_sub_count = 0, elem_data = None\<rparr>]\<rparr>],
     calloc_ok = (\<lambda>_ _. True)\<rparr>"

definition log_state :: "unit module_context list \<Rightarrow> bool \<Rightarrow> logged" where
  "log_state tbl i = \<lparr>heap = \<lparr>next_of = (\<lambda>_. None), prev_of = (\<lambda>_. None), marks_of = (\<lambda>_. \<lparr>current_count = 0, max_count = 0\<rparr>)\<rparr>,
     allocs = 0, in_isr = False, mod_initialized = i, module_ctx_table = tbl, stage = STAGE_INITIALIZE, bind_id = 0,
     core_initialized = False, event_cookie_counter = 0, event_table = (\<lambda>_. zero_event), current_event = None, call_log = []\<rparr>"

lemma log_call_runs [simp]: "runs call_log c (log_call c)"
  by (simp add: runs_def log_call_def)

lemma log_frame: "core_obs_frame call_log"
  by (simp add: core_obs_frame_def obs_frame_def)

lemma log_count: "idx_count log_image = 2"
  by (simp add: log_image_def)

lemma log_all: "(\<forall>m < idx_count log_image. P m) \<longleftrightarrow> P 0 \<and> P (Suc 0)"
  by (auto simp: log_count less_2_cases_iff)

lemma log_elements:
  "image_elements log_image gen 0 = []" "map elem_data (image_elements log_image gen (Suc 0)) = [Some (), Some ()]"
  by (simp_all add: image_elements_def log_image_def)

lemma log_callbacks:
  "cb_init (module_table log_image ! 0) = Some (\<lambda>i _ _. log_call (Call_init i))"
  "cb_init (module_table log_image ! Suc 0) = Some (\<lambda>i _ _. log_call (Call_init i))"
  "cb_post_init (module_table log_image ! 0) = None" "cb_post_init (module_table log_image ! Suc 0) = Some (\<lambda>i. log_call (Call_post_init i))"
  "cb_element_init (module_table log_image ! Suc 0) = Some (\<lambda>i _ _. log_call (Call_element_init i))"
  "cb_bind (module_table log_image ! 0) = None" "cb_bind (module_table log_image ! Suc 0) = Some (\<lambda>i r. log_call (Call_bind i r))"
  "cb_start (module_table log_image ! 0) = None" "cb_start (module_table log_image ! Suc 0) = Some (\<lambda>i. log_call (Call_start i))"
  "cb_stop (module_table log_image ! 0) = None" "cb_stop (module_table log_image ! Suc 0) = Some (\<lambda>i. log_call (Call_stop i))"
  "descriptor_ok log_image 0" "descriptor_ok log_image (Suc 0)" "generator_ok log_image gen obs 0" "generator_ok log_image gen obs (Suc 0)"
  by (simp_all add: log_image_def descriptor_ok_def generator_ok_def FWK_MODULE_TYPE_COUNT_def)

lemma log_init_succeeds: "init_succeeds log_image (\<lambda>_. []) call_log"
proof -
  have "elem_data e \<noteq> None" if "e \<in> set (image_elements log_image (\<lambda>_. []) (Suc 0))" for e
    using that log_elements(2) [of "\<lambda>_. []"] by (auto simp: map_eq_Cons_conv)
  then show ?thesis unfolding init_succeeds_def log_all by (simp add: log_callbacks log_elements)
qed

lemma log_boots: "boots log_image (\<lambda>_. []) call_log"
  unfolding boots_def stage_succeeds_def log_all
  using log_init_succeeds by (simp add: log_frame calloc_never_fails_def bind_round_def log_callbacks) (simp add: log_image_def)

section \<open>Properties\<close>

text \<open>C3. The pre-runtime phase completes. For an image whose callbacks succeed,
  \<^verbatim>\<open>fwk_module_start\<close> returns FWK_SUCCESS with every module and every element, static or
  generated, in the state STARTED, and the callbacks run in the order the framework documents:
  module, its elements and its post-init, module by module; then bind round 0 of every module
  and its elements; then round 1; then start.\<close>

theorem start_runs_all_stages:
  assumes "boots im gen obs" and "\<not> mod_initialized s"
    and "module_ctx_table s = map (\<lambda>m. fresh_ctx im m (static_elements im m)) [0..<idx_count im]"
  shows "\<exists>t. fwk_module_start im nmax s = Some (FWK_SUCCESS, t) \<and> mod_initialized t \<and>
     module_ctx_table t = map (\<lambda>m. in_state STARTED (fresh_ctx im m (image_elements im gen m))) [0..<idx_count im] \<and>
     obs t = obs s @ boot_calls im gen"
  using assms by (rule start_ok)

theorem start_runs_all_stages_witness:
  "\<exists>t. fwk_module_start log_image 0 (log_state (map (\<lambda>m. fresh_ctx log_image m (static_elements log_image m)) [0..<2]) False) = Some (FWK_SUCCESS, t) \<and>
     call_log t =
       (let a = FWK_ID_MODULE 0; b = FWK_ID_MODULE 1; x = FWK_ID_ELEMENT 1 0; y = FWK_ID_ELEMENT 1 1
        in [Call_init a, Call_init b, Call_element_init x, Call_element_init y, Call_post_init b,
            Call_bind b 0, Call_bind x 0, Call_bind y 0, Call_bind b 1, Call_bind x 1, Call_bind y 1,
            Call_start b, Call_start x, Call_start y])"
proof -
  let ?s = "log_state (map (\<lambda>m. fresh_ctx log_image m (static_elements log_image m)) [0..<2]) False"
  have "boot_calls log_image (\<lambda>_. []) =
       (let a = FWK_ID_MODULE 0; b = FWK_ID_MODULE 1; x = FWK_ID_ELEMENT 1 0; y = FWK_ID_ELEMENT 1 1
        in [Call_init a, Call_init b, Call_element_init x, Call_element_init y, Call_post_init b,
            Call_bind b 0, Call_bind x 0, Call_bind y 0, Call_bind b 1, Call_bind x 1, Call_bind y 1,
            Call_start b, Call_start x, Call_start y])"
    by (simp add: boot_calls_def init_calls_def round_calls_def stage_calls_def bind_round_def entity_ids_def
        image_elements_def log_image_def Let_def upt_rec)
  then show ?thesis
    using start_runs_all_stages [OF log_boots, of ?s 0] by (auto simp: log_count log_state_def)
qed

text \<open>\<^verbatim>\<open>fwk_module_stop\<close> on a started image whose stop callbacks succeed suspends every
  module and every element and calls each stop callback once, in table order, a module before
  its elements.\<close>

theorem stop_suspends_all:
  assumes "stage_succeeds cb_stop Call_stop im obs" and "obs_frame obs"
    and "ctx_wf im (module_ctx_table s)" and "mod_initialized s"
  shows "\<exists>t. fwk_module_stop im s = Some (FWK_SUCCESS, t) \<and>
     module_ctx_table t = map (in_state SUSPENDED) (module_ctx_table s) \<and>
     obs t = obs s @ concat (map (\<lambda>m. stage_calls cb_stop Call_stop im m (entity_ids m (element_count (module_ctx_table s ! m)))) [0..<idx_count im])"
  using assms by (rule stop_ok)

theorem stop_suspends_all_witness:
  "\<exists>t. fwk_module_stop log_image (log_state (map (\<lambda>m. in_state STARTED (fresh_ctx log_image m (static_elements log_image m))) [0..<2]) True) = Some (FWK_SUCCESS, t) \<and>
     call_log t = [Call_stop (FWK_ID_MODULE 1), Call_stop (FWK_ID_ELEMENT 1 0), Call_stop (FWK_ID_ELEMENT 1 1)]"
proof -
  let ?s = "log_state (map (\<lambda>m. in_state STARTED (fresh_ctx log_image m (static_elements log_image m))) [0..<2]) True"
  have "stage_succeeds cb_stop Call_stop log_image call_log"
    unfolding stage_succeeds_def log_all by (simp add: log_callbacks)
  moreover have "ctx_wf log_image (module_ctx_table ?s)"
    unfolding ctx_wf_def log_all by (simp add: log_count log_state_def upt_rec)
  moreover have "concat (map (\<lambda>m. stage_calls cb_stop Call_stop log_image m (entity_ids m (element_count (module_ctx_table ?s ! m)))) [0..<idx_count log_image]) =
      [Call_stop (FWK_ID_MODULE 1), Call_stop (FWK_ID_ELEMENT 1 0), Call_stop (FWK_ID_ELEMENT 1 1)]"
    by (simp add: stage_calls_def entity_ids_def log_image_def log_state_def static_elements_def upt_rec)
  ultimately show ?thesis
    using stop_suspends_all [OF _ core_obs_frameD(1) [OF log_frame], of log_image ?s] by (auto simp: log_state_def)
qed

text \<open>\<^verbatim>\<open>fwk_module_init\<close> creates, for every module of the image, a fresh context with its
  identifier and one context per element of its static table up to the terminating entry, all
  uninitialised, whatever was in the table before; \<^verbatim>\<open>fwk_module_reset\<close> does the same.\<close>

theorem module_init_creates_contexts:
  assumes "calloc_never_fails im" and "static_terminated im" and "length (module_ctx_table s) = idx_count im"
  shows "\<exists>t. fwk_module_reset im s = Some t \<and>
     module_ctx_table t = map (\<lambda>m. fresh_ctx im m (static_elements im m)) [0..<idx_count im]"
  using module_init_ok [OF assms(1) _ assms(2,3), of "\<lambda>_. []"] by (auto simp: fwk_module_reset_def obs_frame_def)

theorem module_init_creates_contexts_witness:
  "\<exists>t. fwk_module_reset log_image (log_state (replicate 2 (fresh_ctx log_image 0 [])) False) = Some t \<and>
     map element_count (module_ctx_table t) = [0, 2]"
proof -
  have "static_terminated log_image" unfolding static_terminated_def log_all by (simp add: log_image_def terminated_def)
  moreover have "map element_count (map (\<lambda>m. fresh_ctx log_image m (static_elements log_image m)) [0..<2]) = [0, 2]"
    by (simp add: upt_rec static_elements_def log_image_def)
  ultimately show ?thesis
    using module_init_creates_contexts [of log_image "log_state (replicate 2 (fresh_ctx log_image 0 [])) False"] log_boots
    by (auto simp: boots_def log_count log_state_def)
qed

text \<open>What the context table says of an entity, and which identifiers name one.\<close>

definition entity_exists :: "('s, 'd) fwk_image \<Rightarrow> 'd module_context list \<Rightarrow> fwk_id \<Rightarrow> bool" where
  "entity_exists im tbl i =
     (let m = unat (id_module_idx i); e = unat (id_element_idx i); es = element_ctx_table (tbl ! m)
      in m < idx_count im \<and>
         (id_type i = FWK_ID_TYPE_MODULE \<or>
          id_type i = FWK_ID_TYPE_ELEMENT \<and> e < length es \<or>
          id_type i = FWK_ID_TYPE_SUB_ELEMENT \<and> e < length es \<and> unat (id_sub_element_idx i) < e_sub_count (es ! e)))"

definition entity_state :: "'d module_context list \<Rightarrow> fwk_id \<Rightarrow> module_state" where
  "entity_state tbl i =
     (if id_type i = FWK_ID_TYPE_MODULE then ctx_state (tbl ! unat (id_module_idx i))
      else e_state (element_ctx_table (tbl ! unat (id_module_idx i)) ! unat (id_element_idx i)))"

lemma id_type_distinct:
  "FWK_ID_TYPE_MODULE \<noteq> FWK_ID_TYPE_ELEMENT" "FWK_ID_TYPE_MODULE \<noteq> FWK_ID_TYPE_SUB_ELEMENT" "FWK_ID_TYPE_ELEMENT \<noteq> FWK_ID_TYPE_SUB_ELEMENT"
  by (simp_all add: fwk_id_types)

lemma valid_entity_iff:
  assumes "ctx_wf im (module_ctx_table s)" "fwk_id_type_is_valid i"
  shows "fwk_module_is_valid_entity_id im i s = Some (entity_exists im (module_ctx_table s) i)"
  using assms id_type_distinct
  by (auto simp: fwk_module_is_valid_entity_id_def fwk_module_is_valid_module_id_def fwk_module_is_valid_element_id_def
      fwk_module_is_valid_sub_element_id_def fwk_id_get_type_def fwk_id_is_type_valid assert_id_iff fwk_id_get_module_idx_def
      fwk_id_get_element_idx_def fwk_id_get_sub_element_idx_def entity_exists_def ctx_wf_def Let_def)

text \<open>C10. Identifier validation is exact. \<^verbatim>\<open>fwk_module_get_state\<close> on any well-typed
  identifier fails no assertion: it gives the state of the module, or of the element an
  element or sub-element identifier names, when the index fields are within the tables, and
  FWK_E_PARAM without touching the result otherwise; and \<^verbatim>\<open>fwk_module_is_valid_entity_id\<close> tells
  the two cases apart.\<close>

theorem get_state_exact:
  assumes "ctx_wf im (module_ctx_table s)" and "fwk_id_type_is_valid i"
  shows "fwk_module_is_valid_entity_id im i s = Some (entity_exists im (module_ctx_table s) i) \<and>
     fwk_module_get_state im i (Some x) s =
       Some (if entity_exists im (module_ctx_table s) i then (FWK_SUCCESS, Some (entity_state (module_ctx_table s) i)) else (FWK_E_PARAM, Some x))"
proof (intro conjI)
  show "fwk_module_is_valid_entity_id im i s = Some (entity_exists im (module_ctx_table s) i)"
    using assms by (rule valid_entity_iff)
  show "fwk_module_get_state im i (Some x) s =
       Some (if entity_exists im (module_ctx_table s) i then (FWK_SUCCESS, Some (entity_state (module_ctx_table s) i)) else (FWK_E_PARAM, Some x))"
    using assms id_type_distinct
    by (auto simp: fwk_module_get_state_def fwk_module_is_valid_module_id_def fwk_module_is_valid_element_id_def
      fwk_module_is_valid_sub_element_id_def fwk_id_is_type_valid assert_id_iff fwk_id_get_module_idx_def fwk_module_get_ctx_def
      fwk_module_get_element_ctx_def fwk_id_get_element_idx_def fwk_id_get_sub_element_idx_def entity_exists_def entity_state_def ctx_wf_def Let_def)
qed

theorem get_state_exact_witness:
  "fwk_module_get_state log_image (FWK_ID_ELEMENT 1 1) (Some UNINITIALIZED)
     (log_state (map (\<lambda>m. in_state STARTED (fresh_ctx log_image m (static_elements log_image m))) [0..<2]) True) = Some (FWK_SUCCESS, Some STARTED)"
proof -
  let ?s = "log_state (map (\<lambda>m. in_state STARTED (fresh_ctx log_image m (static_elements log_image m))) [0..<2]) True"
  have T: "module_ctx_table ?s = map (\<lambda>m. in_state STARTED (fresh_ctx log_image m (static_elements log_image m))) [0, 1]"
    by (simp add: log_state_def upt_rec)
  have n: "length (static_elements log_image 1) = 2" by (simp add: static_elements_def log_image_def)
  have "ctx_wf log_image (module_ctx_table ?s)" unfolding ctx_wf_def log_all by (simp add: log_count T)
  moreover have "entity_exists log_image (module_ctx_table ?s) (FWK_ID_ELEMENT 1 1)"
    using n by (simp add: entity_exists_def log_count T)
  moreover have "entity_state (module_ctx_table ?s) (FWK_ID_ELEMENT 1 1) = STARTED"
    using n by (simp add: entity_state_def fwk_id_types log_state_def upt_rec) (simp add: in_state_def)
  ultimately show ?thesis using get_state_exact [of log_image ?s "FWK_ID_ELEMENT 1 1" UNINITIALIZED] by simp
qed

text \<open>C11. Modules bind only before the firmware runs. Once the start stage has begun,
  \<^verbatim>\<open>fwk_module_bind\<close> never succeeds, whatever its arguments and whatever the state of the target:
  no bind request reaches a module, and neither the framework state nor the caller's API
  pointer changes.\<close>

theorem no_bind_after_start:
  assumes "stage s = STAGE_START \<or> stage s = STAGE_STOP" and "fwk_module_bind im tgt api_id api s = Some (status, api', t)"
  shows "status \<in> {FWK_E_PARAM, FWK_E_STATE} \<and> api' = api \<and> t = s"
  using assms
  by (auto simp: fwk_module_bind_def bind_error_def bind_Some_iff fwk_check_def split: if_splits option.splits)

theorem no_bind_after_start_witness:
  "\<exists>status. fwk_module_bind (log_image\<lparr>image_build := ex_build\<lparr>strict_checks := False\<rparr>\<rparr>) (FWK_ID_MODULE 1) (FWK_ID_API 1 0) None
       ((log_state [] True)\<lparr>stage := STAGE_START\<rparr>) = Some (status, None, (log_state [] True)\<lparr>stage := STAGE_START\<rparr>) \<and>
     status \<in> {FWK_E_PARAM, FWK_E_STATE}"
proof -
  let ?im = "log_image\<lparr>image_build := ex_build\<lparr>strict_checks := False\<rparr>\<rparr>" and ?s = "(log_state [] True)\<lparr>stage := STAGE_START\<rparr>"
  have "fwk_module_is_valid_api_id ?im (FWK_ID_API 1 0) = Some False"
    by (simp add: fwk_module_is_valid_api_id_def fwk_id_is_type_valid fwk_id_get_module_idx_def assert_id_iff fwk_id_get_api_idx_def log_image_def)
  moreover have "fwk_module_is_valid_entity_id ?im (FWK_ID_MODULE 1) ?s = Some True"
    by (simp add: fwk_module_is_valid_entity_id_def fwk_module_is_valid_module_id_def fwk_id_get_type_def fwk_id_is_type_valid
        fwk_id_get_module_idx_def assert_id_iff log_image_def)
  ultimately have "fwk_module_bind ?im (FWK_ID_MODULE 1) (FWK_ID_API 1 0) None ?s = Some (FWK_E_PARAM, None, ?s)"
    by (simp add: fwk_module_bind_def bind_error_def fwk_check_def ex_build_def)
  then show ?thesis using no_bind_after_start [of ?s ?im "FWK_ID_MODULE 1" "FWK_ID_API 1 0" None] by (simp del: insert_iff)
qed

end
