(* ===== verification/Fwk_Notification.thy ===== *)
theory Fwk_Notification
  imports Fwk_Lifecycle
begin

text \<open>
  Notifications, \<^verbatim>\<open>framework/src/fwk_notification.c\<close>: the pool of subscription structures, the
  subscription list of each notification of each module and element, subscribing,
  unsubscribing, and turning one notification into an event per subscriber. Subscription
  structure \<open>i\<close> has the list node \<open>SubNode i\<close>; the free list is \<open>FreeSubs\<close>, the list of
  notification \<open>k\<close> is \<open>ModSubs m k\<close> or \<open>ElemSubs m e k\<close>.
\<close>

section \<open>State and operations\<close>

record subscription =
  sub_source_id :: fwk_id
  sub_target_id :: fwk_id

record 'd notification_ctx = "'d fwk_ctx" +
  subscriptions :: "nat \<Rightarrow> subscription"

type_synonym ('d, 'z) ntf_image = "(('d, 'z) notification_ctx_scheme, 'd) fwk_image"

fun subscription_of :: "addr \<Rightarrow> nat option" where
  "subscription_of (SubNode i) = Some i"
| "subscription_of _ = None"

definition get_subscription_dlist ::
  "('d, 'z) ntf_image \<Rightarrow> fwk_id \<Rightarrow> fwk_id \<Rightarrow> ('d, 'z) notification_ctx_scheme \<Rightarrow> addr option" where
  "get_subscription_dlist im notification_id src s =
     do {
       is_mod \<leftarrow> fwk_id_is_type src FWK_ID_TYPE_MODULE;
       k \<leftarrow> fwk_id_get_notification_idx notification_id;
       if is_mod
       then do {
         m \<leftarrow> fwk_module_get_ctx im src;
         fwk_assert (unat k < m_subs (module_ctx_table s ! m));
         Some (ModSubs m (unat k))
       }
       else do {
         (m, e) \<leftarrow> fwk_module_get_element_ctx im src s;
         fwk_assert (unat k < e_subs (element_ctx_table (module_ctx_table s ! m) ! e));
         Some (ElemSubs m e (unat k))
       }
     }"

definition search_subscription ::
  "addr \<Rightarrow> fwk_id \<Rightarrow> fwk_id \<Rightarrow> ('d, 'z) notification_ctx_scheme \<Rightarrow> nat option option" where
  "search_subscription l src tgt s =
     do {
       node \<leftarrow> fwk_list_find (\<lambda>nd. do {
           i \<leftarrow> subscription_of nd;
           same \<leftarrow> fwk_id_is_equal (sub_source_id (subscriptions s i)) src;
           if same then fwk_id_is_equal (sub_target_id (subscriptions s i)) tgt else Some False
         }) l (heap s);
       (case node of None \<Rightarrow> Some None | Some nd \<Rightarrow> map_option Some (subscription_of nd))
     }"

text \<open>The loop of \<^verbatim>\<open>send_notifications\<close> from a node on; \<^verbatim>\<open>*count\<close> is a 32-bit counter.\<close>

partial_function (option) send_notifications_from ::
  "('d, 'z) ntf_image \<Rightarrow> addr \<Rightarrow> addr option \<Rightarrow> fwk_event \<Rightarrow> 32 word \<Rightarrow> ('d, 'z) notification_ctx_scheme \<Rightarrow>
   (fwk_event \<times> 32 word \<times> ('d, 'z) notification_ctx_scheme) option" where
  "send_notifications_from im l node event count s =
     (case node of
        None \<Rightarrow> Some (event, count, s)
      | Some nd \<Rightarrow>
          Option.bind (subscription_of nd) (\<lambda>i.
          Option.bind (fwk_id_is_equal (sub_source_id (subscriptions s i)) (source_id event)) (\<lambda>same.
            if \<not> same then Option.bind (fwk_slist_next l nd (heap s)) (\<lambda>nxt. send_notifications_from im l nxt event count s)
            else Option.bind (fwk_put_notification im (event\<lparr>target_id := sub_target_id (subscriptions s i)\<rparr>) s) (\<lambda>(status, ev, s).
              Option.bind (fwk_slist_next l nd (heap s)) (\<lambda>nxt.
                send_notifications_from im l nxt (case ev of STD e \<Rightarrow> e | LIGHT _ \<Rightarrow> event)
                  (if status = FWK_SUCCESS then count + 1 else count) s)))))"

definition send_notifications ::
  "('d, 'z) ntf_image \<Rightarrow> fwk_event \<Rightarrow> 32 word \<Rightarrow> ('d, 'z) notification_ctx_scheme \<Rightarrow>
   (fwk_event \<times> 32 word \<times> ('d, 'z) notification_ctx_scheme) option" where
  "send_notifications im event count s =
     do {
       l \<leftarrow> get_subscription_dlist im (event_id event) (source_id event) s;
       node \<leftarrow> fwk_slist_head l (heap s);
       send_notifications_from im l node (event\<lparr>is_response := False, is_notification := True\<rparr>) count s
     }"

definition fwk_notification_init ::
  "build \<Rightarrow> nat \<Rightarrow> ('d, 'z) notification_ctx_scheme \<Rightarrow> ('d, 'z) notification_ctx_scheme option" where
  "fwk_notification_init bc notification_max s =
     do {
       h \<leftarrow> foldM (fwk_dlist_push_tail bc FreeSubs) (map SubNode [0..<notification_max]) (fwk_slist_init bc FreeSubs (heap s));
       Some (s\<lparr>heap := h\<rparr>)
     }"

definition fwk_notification_reset ::
  "build \<Rightarrow> nat \<Rightarrow> ('d, 'z) notification_ctx_scheme \<Rightarrow> ('d, 'z) notification_ctx_scheme option" where
  "fwk_notification_reset bc notification_max s = fwk_notification_init bc notification_max s"

text \<open>The parameter checks subscribing and unsubscribing share.\<close>

definition subscription_params_valid ::
  "('d, 'z) ntf_image \<Rightarrow> fwk_id \<Rightarrow> fwk_id \<Rightarrow> fwk_id \<Rightarrow> ('d, 'z) notification_ctx_scheme \<Rightarrow> bool option" where
  "subscription_params_valid im notification_id src tgt s =
     do {
       a \<leftarrow> fwk_module_is_valid_notification_id im notification_id;
       if \<not> a then Some False else do {
       b \<leftarrow> fwk_module_is_valid_entity_id im src s;
       if \<not> b then Some False else do {
       c \<leftarrow> fwk_module_is_valid_entity_id im tgt s;
       if \<not> c then Some False else do {
       x \<leftarrow> fwk_id_build_module_id notification_id;
       y \<leftarrow> fwk_id_build_module_id src;
       fwk_id_is_equal x y
       }}}}"

definition fwk_notification_subscribe ::
  "('d, 'z) ntf_image \<Rightarrow> fwk_id \<Rightarrow> fwk_id \<Rightarrow> fwk_id \<Rightarrow> ('d, 'z) notification_ctx_scheme \<Rightarrow>
   (int \<times> ('d, 'z) notification_ctx_scheme) option" where
  "fwk_notification_subscribe im notification_id src tgt s =
     (if in_isr s then Some (FWK_E_HANDLER, s)
      else do {
        ok \<leftarrow> subscription_params_valid im notification_id src tgt s;
        if \<not> ok then Some (FWK_E_PARAM, s)
        else do {
          l \<leftarrow> get_subscription_dlist im notification_id src s;
          found \<leftarrow> search_subscription l src tgt s;
          if found \<noteq> None then Some (FWK_E_STATE, s)
          else do {
            (node, h) \<leftarrow> fwk_dlist_pop_head (image_build im) FreeSubs (heap s);
            (case node of
               None \<Rightarrow> do { fwk_unexpected (image_build im); Some (FWK_E_NOMEM, s\<lparr>heap := h\<rparr>) }
             | Some nd \<Rightarrow> do {
                 i \<leftarrow> subscription_of nd;
                 h \<leftarrow> fwk_dlist_push_tail (image_build im) l nd h;
                 Some (FWK_SUCCESS, s\<lparr>subscriptions := (subscriptions s)(i := \<lparr>sub_source_id = src, sub_target_id = tgt\<rparr>), heap := h\<rparr>)
               })
          }
        }
      })"

definition fwk_notification_unsubscribe ::
  "('d, 'z) ntf_image \<Rightarrow> fwk_id \<Rightarrow> fwk_id \<Rightarrow> fwk_id \<Rightarrow> ('d, 'z) notification_ctx_scheme \<Rightarrow>
   (int \<times> ('d, 'z) notification_ctx_scheme) option" where
  "fwk_notification_unsubscribe im notification_id src tgt s =
     (if in_isr s then Some (FWK_E_HANDLER, s)
      else do {
        ok \<leftarrow> subscription_params_valid im notification_id src tgt s;
        if \<not> ok then Some (FWK_E_PARAM, s)
        else do {
          l \<leftarrow> get_subscription_dlist im notification_id src s;
          found \<leftarrow> search_subscription l src tgt s;
          (case found of
             None \<Rightarrow> Some (FWK_E_STATE, s)
           | Some i \<Rightarrow> do {
               h \<leftarrow> fwk_dlist_remove (image_build im) l (SubNode i) (heap s);
               h \<leftarrow> fwk_dlist_push_tail (image_build im) FreeSubs (SubNode i) h;
               Some (FWK_SUCCESS, s\<lparr>heap := h\<rparr>)
             })
        }
      })"

text \<open>The event the notification is sent from: in interrupt context its source must be valid; in
  thread context an invalid source is replaced by the target of the event being processed.\<close>

definition notify_source ::
  "('d, 'z) ntf_image \<Rightarrow> fwk_event \<Rightarrow> ('d, 'z) notification_ctx_scheme \<Rightarrow> fwk_event option option" where
  "notify_source im event s =
     (if in_isr s
      then do {
        v \<leftarrow> fwk_module_is_valid_entity_id im (source_id event) s;
        Some (if v then Some event else None)
      }
      else (case current_event s of
              None \<Rightarrow> Some (Some event)
            | Some i \<Rightarrow> do {
                v \<leftarrow> fwk_module_is_valid_entity_id im (source_id event) s;
                Some (Some (if v then event else event\<lparr>source_id := target_id (event_table s i)\<rparr>))
              }))"

text \<open>\<open>event\<close> and \<open>count\<close> are what the pointers refer to, \<open>None\<close> for a null pointer.\<close>

definition fwk_notification_notify ::
  "('d, 'z) ntf_image \<Rightarrow> fwk_event option \<Rightarrow> 32 word option \<Rightarrow> ('d, 'z) notification_ctx_scheme \<Rightarrow>
   (int \<times> fwk_event option \<times> 32 word option \<times> ('d, 'z) notification_ctx_scheme) option" where
  "fwk_notification_notify im event count s =
     (if event = None \<or> count = None then Some (FWK_E_PARAM, event, count, s)
      else do {
        e \<leftarrow> event;
        src \<leftarrow> notify_source im e s;
        (case src of
           None \<Rightarrow> Some (FWK_E_PARAM, event, count, s)
         | Some e \<Rightarrow> do {
             v \<leftarrow> fwk_module_is_valid_notification_id im (event_id e);
             ok \<leftarrow> (if v then same_module (event_id e) (source_id e) else Some False);
             if \<not> ok then Some (FWK_E_PARAM, Some e, count, s)
             else do {
               (e, c, s) \<leftarrow> send_notifications im e 0 s;
               Some (FWK_SUCCESS, Some e, Some c, s)
             }
           })
      })"

section \<open>Where every subscription structure is\<close>

definition sub_headers :: "('s, 'd) fwk_image \<Rightarrow> 'd module_context list \<Rightarrow> addr set" where
  "sub_headers im tbl = {FreeSubs} \<union>
     {ModSubs m k | m k. m < idx_count im \<and> k < m_subs (tbl ! m)} \<union>
     {ElemSubs m e k | m e k. m < idx_count im \<and> e < length (element_ctx_table (tbl ! m)) \<and> k < e_subs (element_ctx_table (tbl ! m) ! e)}"

definition sub_pool :: "('d, 'z) ntf_image \<Rightarrow> nat \<Rightarrow> ('d, 'z) notification_ctx_scheme \<Rightarrow> (addr \<Rightarrow> nat list) \<Rightarrow> bool" where
  "sub_pool im n s Q \<longleftrightarrow>
     pool dlist_rep dlist_detached (sub_headers im (module_ctx_table s)) (SubNode ` {..<n})
       (heap s) (\<lambda>l. map SubNode (Q l)) {}"

text \<open>What a list records: the pairs of source and target, in the order of subscription.\<close>

definition sub_pairs :: "('d, 'z) notification_ctx_scheme \<Rightarrow> nat list \<Rightarrow> (fwk_id \<times> fwk_id) list" where
  "sub_pairs s xs = map (\<lambda>i. (sub_source_id (subscriptions s i), sub_target_id (subscriptions s i))) xs"

text \<open>Well-formed subscriptions: identifiers of valid type, and no pair recorded twice in a list.\<close>

definition subs_ok :: "('d, 'z) ntf_image \<Rightarrow> nat \<Rightarrow> ('d, 'z) notification_ctx_scheme \<Rightarrow> (addr \<Rightarrow> nat list) \<Rightarrow> bool" where
  "subs_ok im n s Q \<longleftrightarrow> sub_pool im n s Q \<and>
     (\<forall>l \<in> sub_headers im (module_ctx_table s) - {FreeSubs}. distinct (sub_pairs s (Q l)) \<and>
        (\<forall>i \<in> set (Q l). fwk_id_type_is_valid (sub_source_id (subscriptions s i)) \<and> fwk_id_type_is_valid (sub_target_id (subscriptions s i))))"

lemma sub_list_header:
  assumes "get_subscription_dlist im nid src s = Some l"
  shows "l \<in> sub_headers im (module_ctx_table s) - {FreeSubs}"
  using assms
  by (auto simp: get_subscription_dlist_def bind_Some_iff sub_headers_def fwk_module_get_ctx_def fwk_module_get_element_ctx_def Let_def
      split: if_splits)

lemma sub_header_free [simp]: "FreeSubs \<in> sub_headers im tbl"
  by (simp add: sub_headers_def)

lemma subs_okD:
  assumes "subs_ok im n s Q"
  shows "sub_pool im n s Q" "l \<in> sub_headers im (module_ctx_table s) - {FreeSubs} \<Longrightarrow> distinct (sub_pairs s (Q l))"
    "l \<in> sub_headers im (module_ctx_table s) - {FreeSubs} \<Longrightarrow> i \<in> set (Q l) \<Longrightarrow>
       fwk_id_type_is_valid (sub_source_id (subscriptions s i)) \<and> fwk_id_type_is_valid (sub_target_id (subscriptions s i))"
  using assms by (auto simp: subs_ok_def)

lemma sub_rep:
  assumes "sub_pool im n s Q" "l \<in> sub_headers im (module_ctx_table s)"
  shows "dlist_rep (heap s) l (map SubNode (Q l))"
  by (rule poolD(2) [OF assms(1) [unfolded sub_pool_def] assms(2)])

lemma sub_distinct:
  assumes "sub_pool im n s Q" "l \<in> sub_headers im (module_ctx_table s)"
  shows "distinct (Q l)"
proof -
  have "distinct (map SubNode (Q l))" by (rule slist_rep_D(2) [OF dlist_slist_rep [OF sub_rep [OF assms]]])
  then show ?thesis by (simp add: distinct_map)
qed

lemma find_map_SubNode:
  "find (\<lambda>nd. \<exists>i. nd = SubNode i \<and> p i) (map SubNode xs) = map_option SubNode (find p xs)"
  by (induction xs) auto

lemma search_sub:
  assumes ok: "subs_ok im n s Q" and l: "l \<in> sub_headers im (module_ctx_table s) - {FreeSubs}"
  shows "search_subscription l src tgt s =
     Some (find (\<lambda>i. (sub_source_id (subscriptions s i), sub_target_id (subscriptions s i)) = (src, tgt)) (Q l))"
proof -
  let ?p = "\<lambda>i. (sub_source_id (subscriptions s i), sub_target_id (subscriptions s i)) = (src, tgt)"
  have "l \<in> sub_headers im (module_ctx_table s)" using l by simp
  from dlist_slist_rep [OF sub_rep [OF subs_okD(1) [OF ok] this]] have "slist_rep (heap s) l (map SubNode (Q l))" .
  then have "fwk_list_find (\<lambda>nd. do {
           i \<leftarrow> subscription_of nd;
           same \<leftarrow> fwk_id_is_equal (sub_source_id (subscriptions s i)) src;
           if same then fwk_id_is_equal (sub_target_id (subscriptions s i)) tgt else Some False
         }) l (heap s) = Some (find (\<lambda>nd. \<exists>i. nd = SubNode i \<and> ?p i) (map SubNode (Q l)))"
    by (rule fwk_list_find_rep) (use subs_okD(3) [OF ok l] in \<open>auto simp: fwk_id_is_equal_valid\<close>)
  then show ?thesis by (auto simp: search_subscription_def find_map_SubNode split: option.splits)
qed

lemma find_pair_None: "find (\<lambda>i. (sub_source_id (subscriptions s i), sub_target_id (subscriptions s i)) = p) xs = None \<longleftrightarrow> p \<notin> set (sub_pairs s xs)"
  by (auto simp: find_None_iff sub_pairs_def)

lemma sub_queue_upd: "(\<lambda>k. map SubNode ((Q(l := xs)) k)) = (\<lambda>k. map SubNode (Q k))(l := map SubNode xs)"
  by auto

lemma sub_pairs_cong: "(\<And>i. i \<in> set xs \<Longrightarrow> subscriptions t i = subscriptions s i) \<Longrightarrow> sub_pairs t xs = sub_pairs s xs"
  by (auto simp: sub_pairs_def)

lemma sub_pairs_snoc: "sub_pairs s (xs @ [i]) = sub_pairs s xs @ [(sub_source_id (subscriptions s i), sub_target_id (subscriptions s i))]"
  by (simp add: sub_pairs_def)

text \<open>Taking a structure off the free list and putting it at the end of a subscription list.\<close>

lemma sub_move_out:
  assumes P: "sub_pool im n s Q" and l: "l \<in> sub_headers im (module_ctx_table s)" "l \<noteq> FreeSubs" and Q: "Q FreeSubs = i # fs"
  shows "\<exists>h h'. fwk_dlist_pop_head bc FreeSubs (heap s) = Some (Some (SubNode i), h) \<and> fwk_dlist_push_tail bc l (SubNode i) h = Some h' \<and>
     sub_pool im n (s\<lparr>heap := h'\<rparr>) (Q(FreeSubs := fs, l := Q l @ [i]))"
proof -
  have "(\<lambda>l. map SubNode (Q l)) FreeSubs = SubNode i # map SubNode fs" using Q by simp
  from dl.pool_pop [OF P [unfolded sub_pool_def] sub_header_free this, of bc] obtain h where
    h: "fwk_dlist_pop_head bc FreeSubs (heap s) = Some (Some (SubNode i), h)"
      "pool dlist_rep dlist_detached (sub_headers im (module_ctx_table s)) (SubNode ` {..<n}) h
         ((\<lambda>k. map SubNode (Q k))(FreeSubs := map SubNode fs)) {SubNode i}" by blast
  from dl.pool_push [OF h(2) l(1), of "SubNode i" bc] obtain h' where
    h': "fwk_dlist_push_tail bc l (SubNode i) h = Some h'"
      "pool dlist_rep dlist_detached (sub_headers im (module_ctx_table s)) (SubNode ` {..<n}) h'
         ((\<lambda>k. map SubNode (Q k))(FreeSubs := map SubNode fs, l := map SubNode (Q l @ [i]))) {}" using l(2) by auto
  have "(\<lambda>k. map SubNode ((Q(FreeSubs := fs, l := Q l @ [i])) k)) = (\<lambda>k. map SubNode (Q k))(FreeSubs := map SubNode fs, l := map SubNode (Q l @ [i]))"
    by auto
  then have "sub_pool im n (s\<lparr>heap := h'\<rparr>) (Q(FreeSubs := fs, l := Q l @ [i]))" using h'(2) by (simp add: sub_pool_def del: fun_upd_apply map_append)
  then show ?thesis using h(1) h'(1) by blast
qed

lemma map_remove1_SubNode: "map SubNode (remove1 i xs) = remove1 (SubNode i) (map SubNode xs)"
  by (induction xs) auto

lemma sub_move_back:
  assumes P: "sub_pool im n s Q" and l: "l \<in> sub_headers im (module_ctx_table s)" "l \<noteq> FreeSubs" and i: "i \<in> set (Q l)"
  shows "\<exists>h h'. fwk_dlist_remove bc l (SubNode i) (heap s) = Some h \<and> fwk_dlist_push_tail bc FreeSubs (SubNode i) h = Some h' \<and>
     sub_pool im n (s\<lparr>heap := h'\<rparr>) (Q(l := remove1 i (Q l), FreeSubs := Q FreeSubs @ [i]))"
proof -
  have "SubNode i \<in> set ((\<lambda>l. map SubNode (Q l)) l)" using i by simp
  from dl.pool_remove [OF P [unfolded sub_pool_def] l(1) this, of bc] obtain h where
    h: "fwk_dlist_remove bc l (SubNode i) (heap s) = Some h"
      "pool dlist_rep dlist_detached (sub_headers im (module_ctx_table s)) (SubNode ` {..<n}) h
         ((\<lambda>k. map SubNode (Q k))(l := map SubNode (remove1 i (Q l)))) {SubNode i}" unfolding map_remove1_SubNode by blast
  from dl.pool_push [OF h(2) sub_header_free, of "SubNode i" bc] obtain h' where
    h': "fwk_dlist_push_tail bc FreeSubs (SubNode i) h = Some h'"
      "pool dlist_rep dlist_detached (sub_headers im (module_ctx_table s)) (SubNode ` {..<n}) h'
         ((\<lambda>k. map SubNode (Q k))(l := map SubNode (remove1 i (Q l)), FreeSubs := map SubNode (Q FreeSubs @ [i]))) {}" using l(2) by auto
  have "(\<lambda>k. map SubNode ((Q(l := remove1 i (Q l), FreeSubs := Q FreeSubs @ [i])) k)) =
      (\<lambda>k. map SubNode (Q k))(l := map SubNode (remove1 i (Q l)), FreeSubs := map SubNode (Q FreeSubs @ [i]))" by auto
  then have "sub_pool im n (s\<lparr>heap := h'\<rparr>) (Q(l := remove1 i (Q l), FreeSubs := Q FreeSubs @ [i]))"
    using h'(2) by (simp add: sub_pool_def del: fun_upd_apply map_append)
  then show ?thesis using h(1) h'(1) by blast
qed

lemma sub_disjoint:
  assumes "sub_pool im n s Q" "l \<in> sub_headers im (module_ctx_table s)" "k \<in> sub_headers im (module_ctx_table s)" "l \<noteq> k"
  shows "set (Q l) \<inter> set (Q k) = {}"
  using poolD(3) [OF assms(1) [unfolded sub_pool_def] assms(2-4)] by auto

section \<open>Subscribing and unsubscribing, case by case\<close>

text \<open>The calls that pass the checks, and the list they act on.\<close>

definition sub_call ::
  "('d, 'z) ntf_image \<Rightarrow> fwk_id \<Rightarrow> fwk_id \<Rightarrow> fwk_id \<Rightarrow> ('d, 'z) notification_ctx_scheme \<Rightarrow> addr \<Rightarrow> bool" where
  "sub_call im nid src tgt s l \<longleftrightarrow> \<not> in_isr s \<and> subscription_params_valid im nid src tgt s = Some True \<and>
     get_subscription_dlist im nid src s = Some l"

lemma sub_callD:
  assumes "sub_call im nid src tgt s l"
  shows "\<not> in_isr s" "subscription_params_valid im nid src tgt s = Some True" "get_subscription_dlist im nid src s = Some l"
    "l \<in> sub_headers im (module_ctx_table s)" "l \<noteq> FreeSubs" "l \<in> sub_headers im (module_ctx_table s) - {FreeSubs}"
  using assms sub_list_header [of im nid src s l] by (auto simp: sub_call_def)

lemma entity_id_typed: "fwk_module_is_valid_entity_id im i s = Some True \<Longrightarrow> fwk_id_type_is_valid i"
  by (auto simp: fwk_module_is_valid_entity_id_def fwk_id_get_type_def assert_id_iff bind_Some_iff split: if_splits)

lemma sub_params_typed:
  "subscription_params_valid im nid src tgt s = Some True \<Longrightarrow> fwk_id_type_is_valid src \<and> fwk_id_type_is_valid tgt"
  by (auto simp: subscription_params_valid_def bind_Some_iff split: if_splits dest: entity_id_typed)

lemma subscribe_new:
  assumes ok: "subs_ok im n s Q" and c: "sub_call im nid src tgt s l" and new: "(src, tgt) \<notin> set (sub_pairs s (Q l))"
    and Q: "Q FreeSubs = i # fs"
  shows "\<exists>t. fwk_notification_subscribe im nid src tgt s = Some (FWK_SUCCESS, t) \<and> subs_ok im n t (Q(FreeSubs := fs, l := Q l @ [i])) \<and>
     subscriptions t = (subscriptions s)(i := \<lparr>sub_source_id = src, sub_target_id = tgt\<rparr>) \<and>
     module_ctx_table t = module_ctx_table s \<and> in_isr t = in_isr s \<and> i \<notin> set (Q l)"
proof -
  note C = sub_callD [OF c] and P = subs_okD(1) [OF ok]
  obtain h h' where h: "fwk_dlist_pop_head (image_build im) FreeSubs (heap s) = Some (Some (SubNode i), h)"
      "fwk_dlist_push_tail (image_build im) l (SubNode i) h = Some h'" "sub_pool im n (s\<lparr>heap := h'\<rparr>) (Q(FreeSubs := fs, l := Q l @ [i]))"
    using sub_move_out [OF P C(4,5) Q] by blast
  let ?t = "s\<lparr>subscriptions := (subscriptions s)(i := \<lparr>sub_source_id = src, sub_target_id = tgt\<rparr>), heap := h'\<rparr>"
  have s: "search_subscription l src tgt s = Some None"
    using search_sub [OF ok C(6), of src tgt] new by (simp add: find_pair_None del: prod.inject)
  have ex: "fwk_notification_subscribe im nid src tgt s = Some (FWK_SUCCESS, ?t)"
    using C(1,2,3) s h(1,2) by (simp add: fwk_notification_subscribe_def)
  have out: "i \<notin> set (Q k)" if "k \<in> sub_headers im (module_ctx_table s) - {FreeSubs}" for k
    using sub_disjoint [OF P sub_header_free, of k] that Q by auto
  have pairs: "sub_pairs ?t (Q k) = sub_pairs s (Q k)" if "k \<in> sub_headers im (module_ctx_table s) - {FreeSubs}" for k
    using out [OF that] by (intro sub_pairs_cong) auto
  have "subs_ok im n ?t (Q(FreeSubs := fs, l := Q l @ [i]))"
    unfolding subs_ok_def
  proof (intro conjI ballI)
    show "sub_pool im n ?t (Q(FreeSubs := fs, l := Q l @ [i]))" using h(3) by (simp add: sub_pool_def)
    fix k assume "k \<in> sub_headers im (module_ctx_table ?t) - {FreeSubs}"
    then have k: "k \<in> sub_headers im (module_ctx_table s) - {FreeSubs}" by simp
    have eq: "(Q(FreeSubs := fs, l := Q l @ [i])) k = (if k = l then Q l @ [i] else Q k)" using k by auto
    show "distinct (sub_pairs ?t ((Q(FreeSubs := fs, l := Q l @ [i])) k))"
      unfolding eq using subs_okD(2) [OF ok k] pairs [OF k] new by (auto simp: sub_pairs_snoc)
    fix j assume "j \<in> set ((Q(FreeSubs := fs, l := Q l @ [i])) k)"
    then have j: "j = i \<or> j \<in> set (Q k)" unfolding eq by (auto split: if_splits)
    show "fwk_id_type_is_valid (sub_source_id (subscriptions ?t j))" "fwk_id_type_is_valid (sub_target_id (subscriptions ?t j))"
      using j subs_okD(3) [OF ok k, of j] sub_params_typed [OF C(2)] by auto
  qed
  then show ?thesis using ex out [OF C(6)] by (intro exI [of _ ?t]) simp
qed

lemma subscribe_again:
  assumes ok: "subs_ok im n s Q" and c: "sub_call im nid src tgt s l" and old: "(src, tgt) \<in> set (sub_pairs s (Q l))"
  shows "fwk_notification_subscribe im nid src tgt s = Some (FWK_E_STATE, s)"
proof -
  note C = sub_callD [OF c]
  obtain i where "search_subscription l src tgt s = Some (Some i)"
    using search_sub [OF ok C(6), of src tgt] old find_pair_None [of s "(src, tgt)" "Q l"] by (auto simp del: prod.inject)
  then show ?thesis using C(1,2,3) by (simp add: fwk_notification_subscribe_def)
qed

lemma unsubscribe_found:
  assumes ok: "subs_ok im n s Q" and c: "sub_call im nid src tgt s l" and old: "(src, tgt) \<in> set (sub_pairs s (Q l))"
  shows "\<exists>t i. fwk_notification_unsubscribe im nid src tgt s = Some (FWK_SUCCESS, t) \<and>
     i \<in> set (Q l) \<and> subscriptions s i = \<lparr>sub_source_id = src, sub_target_id = tgt\<rparr> \<and>
     subs_ok im n t (Q(l := remove1 i (Q l), FreeSubs := Q FreeSubs @ [i])) \<and>
     subscriptions t = subscriptions s \<and> module_ctx_table t = module_ctx_table s \<and> in_isr t = in_isr s"
proof -
  note C = sub_callD [OF c] and P = subs_okD(1) [OF ok]
  let ?p = "\<lambda>i. (sub_source_id (subscriptions s i), sub_target_id (subscriptions s i)) = (src, tgt)"
  obtain i where f: "find ?p (Q l) = Some i"
    using old find_pair_None [of s "(src, tgt)" "Q l"] by (cases "find ?p (Q l)") auto
  then have i: "i \<in> set (Q l)" "?p i" using find_Some_mem [OF f] by auto
  obtain h h' where h: "fwk_dlist_remove (image_build im) l (SubNode i) (heap s) = Some h"
      "fwk_dlist_push_tail (image_build im) FreeSubs (SubNode i) h = Some h'"
      "sub_pool im n (s\<lparr>heap := h'\<rparr>) (Q(l := remove1 i (Q l), FreeSubs := Q FreeSubs @ [i]))"
    using sub_move_back [OF P C(4,5) i(1)] by blast
  have "search_subscription l src tgt s = Some (Some i)" using search_sub [OF ok C(6), of src tgt] f by simp
  then have ex: "fwk_notification_unsubscribe im nid src tgt s = Some (FWK_SUCCESS, s\<lparr>heap := h'\<rparr>)"
    using C(1,2,3) h(1,2) by (simp add: fwk_notification_unsubscribe_def)
  have "subs_ok im n (s\<lparr>heap := h'\<rparr>) (Q(l := remove1 i (Q l), FreeSubs := Q FreeSubs @ [i]))"
    unfolding subs_ok_def
  proof (intro conjI ballI)
    show "sub_pool im n (s\<lparr>heap := h'\<rparr>) (Q(l := remove1 i (Q l), FreeSubs := Q FreeSubs @ [i]))" by (rule h(3))
    fix k assume "k \<in> sub_headers im (module_ctx_table (s\<lparr>heap := h'\<rparr>)) - {FreeSubs}"
    then have k: "k \<in> sub_headers im (module_ctx_table s) - {FreeSubs}" by simp
    have eq: "(Q(l := remove1 i (Q l), FreeSubs := Q FreeSubs @ [i])) k = (if k = l then remove1 i (Q l) else Q k)" using k by auto
    show "distinct (sub_pairs (s\<lparr>heap := h'\<rparr>) ((Q(l := remove1 i (Q l), FreeSubs := Q FreeSubs @ [i])) k))"
      unfolding eq using subs_okD(2) [OF ok k] by (auto simp: sub_pairs_def distinct_map_remove1)
    fix j assume "j \<in> set ((Q(l := remove1 i (Q l), FreeSubs := Q FreeSubs @ [i])) k)"
    then have "j \<in> set (Q k)" unfolding eq using set_remove1_subset [of i "Q l"] by (auto split: if_splits)
    from subs_okD(3) [OF ok k this]
    show "fwk_id_type_is_valid (sub_source_id (subscriptions (s\<lparr>heap := h'\<rparr>) j))"
      "fwk_id_type_is_valid (sub_target_id (subscriptions (s\<lparr>heap := h'\<rparr>) j))" by auto
  qed
  then show ?thesis using ex i by (intro exI [of _ "s\<lparr>heap := h'\<rparr>"] exI [of _ i]) auto
qed

lemma unsubscribe_missing:
  assumes ok: "subs_ok im n s Q" and c: "sub_call im nid src tgt s l" and new: "(src, tgt) \<notin> set (sub_pairs s (Q l))"
  shows "fwk_notification_unsubscribe im nid src tgt s = Some (FWK_E_STATE, s)"
proof -
  note C = sub_callD [OF c]
  have "search_subscription l src tgt s = Some None"
    using search_sub [OF ok C(6), of src tgt] new by (simp add: find_pair_None del: prod.inject)
  then show ?thesis using C(1,2,3) by (simp add: fwk_notification_unsubscribe_def)
qed

lemma pairs_remove1:
  assumes "distinct (sub_pairs s xs)" "i \<in> set xs"
  shows "sub_pairs s (remove1 i xs) = remove1 (sub_source_id (subscriptions s i), sub_target_id (subscriptions s i)) (sub_pairs s xs)"
  using map_remove1_distinct [OF assms(1) [unfolded sub_pairs_def] assms(2)] by (simp add: sub_pairs_def)

section \<open>The abstract subscription table\<close>

text \<open>
  The specification of the component: a table that gives, for each subscription list, the
  pairs (source, target) subscribed, in order.
\<close>

definition spec_subscribe :: "addr \<Rightarrow> fwk_id \<times> fwk_id \<Rightarrow> (addr \<Rightarrow> (fwk_id \<times> fwk_id) list) \<Rightarrow> int \<times> (addr \<Rightarrow> (fwk_id \<times> fwk_id) list)" where
  "spec_subscribe l p A = (if p \<in> set (A l) then (FWK_E_STATE, A) else (FWK_SUCCESS, A(l := A l @ [p])))"

definition spec_unsubscribe :: "addr \<Rightarrow> fwk_id \<times> fwk_id \<Rightarrow> (addr \<Rightarrow> (fwk_id \<times> fwk_id) list) \<Rightarrow> int \<times> (addr \<Rightarrow> (fwk_id \<times> fwk_id) list)" where
  "spec_unsubscribe l p A = (if p \<in> set (A l) then (FWK_SUCCESS, A(l := remove1 p (A l))) else (FWK_E_STATE, A))"

text \<open>\<open>A\<close> is what the lists of state \<open>s\<close> record.\<close>

definition sub_abs :: "('d, 'z) ntf_image \<Rightarrow> ('d, 'z) notification_ctx_scheme \<Rightarrow> (addr \<Rightarrow> nat list) \<Rightarrow> (addr \<Rightarrow> (fwk_id \<times> fwk_id) list) \<Rightarrow> bool" where
  "sub_abs im s Q A \<longleftrightarrow> (\<forall>l \<in> sub_headers im (module_ctx_table s) - {FreeSubs}. A l = sub_pairs s (Q l))"

lemma sub_absD: "sub_abs im s Q A \<Longrightarrow> sub_call im nid src tgt s l \<Longrightarrow> A l = sub_pairs s (Q l)"
  unfolding sub_abs_def using sub_callD(6) by blast

lemma subscribe_refines_lem:
  assumes ok: "subs_ok im n s Q" and A: "sub_abs im s Q A" and c: "sub_call im nid src tgt s l" and free: "Q FreeSubs \<noteq> []"
  shows "\<exists>t Q'. fwk_notification_subscribe im nid src tgt s = Some (fst (spec_subscribe l (src, tgt) A), t) \<and>
     subs_ok im n t Q' \<and> sub_abs im t Q' (snd (spec_subscribe l (src, tgt) A)) \<and>
     module_ctx_table t = module_ctx_table s \<and> in_isr t = in_isr s"
proof (cases "(src, tgt) \<in> set (A l)")
  case True
  then show ?thesis using subscribe_again [OF ok c] sub_absD [OF A c] ok A by (auto simp: spec_subscribe_def)
next
  case False
  then have new: "(src, tgt) \<notin> set (sub_pairs s (Q l))" using sub_absD [OF A c] by simp
  obtain i fs where Q: "Q FreeSubs = i # fs" using free by (cases "Q FreeSubs") auto
  from subscribe_new [OF ok c new Q] obtain t where
    t: "fwk_notification_subscribe im nid src tgt s = Some (FWK_SUCCESS, t)" "subs_ok im n t (Q(FreeSubs := fs, l := Q l @ [i]))"
     "subscriptions t = (subscriptions s)(i := \<lparr>sub_source_id = src, sub_target_id = tgt\<rparr>)"
     "module_ctx_table t = module_ctx_table s" "in_isr t = in_isr s" by blast
  have "sub_pairs t (Q k) = sub_pairs s (Q k)" if "k \<in> sub_headers im (module_ctx_table s) - {FreeSubs}" for k
    using sub_disjoint [OF subs_okD(1) [OF ok] sub_header_free, of k] that Q t(3) by (intro sub_pairs_cong) auto
  then have "sub_abs im t (Q(FreeSubs := fs, l := Q l @ [i])) (A(l := A l @ [(src, tgt)]))"
    using A t(3,4) sub_callD(6) [OF c] by (auto simp: sub_abs_def sub_pairs_snoc)
  then show ?thesis using t False by (auto simp: spec_subscribe_def)
qed

lemma unsubscribe_refines_lem:
  assumes ok: "subs_ok im n s Q" and A: "sub_abs im s Q A" and c: "sub_call im nid src tgt s l"
  shows "\<exists>t Q'. fwk_notification_unsubscribe im nid src tgt s = Some (fst (spec_unsubscribe l (src, tgt) A), t) \<and>
     subs_ok im n t Q' \<and> sub_abs im t Q' (snd (spec_unsubscribe l (src, tgt) A)) \<and>
     module_ctx_table t = module_ctx_table s \<and> in_isr t = in_isr s"
proof (cases "(src, tgt) \<in> set (A l)")
  case False
  then show ?thesis using unsubscribe_missing [OF ok c] sub_absD [OF A c] ok A by (auto simp: spec_unsubscribe_def)
next
  case True
  then have old: "(src, tgt) \<in> set (sub_pairs s (Q l))" using sub_absD [OF A c] by simp
  from unsubscribe_found [OF ok c old] obtain t i where
    t: "fwk_notification_unsubscribe im nid src tgt s = Some (FWK_SUCCESS, t)" "i \<in> set (Q l)"
     "subscriptions s i = \<lparr>sub_source_id = src, sub_target_id = tgt\<rparr>"
     "subs_ok im n t (Q(l := remove1 i (Q l), FreeSubs := Q FreeSubs @ [i]))" "subscriptions t = subscriptions s"
     "module_ctx_table t = module_ctx_table s" "in_isr t = in_isr s" by blast
  have "sub_pairs t (remove1 i (Q l)) = remove1 (src, tgt) (sub_pairs s (Q l))"
    using pairs_remove1 [OF subs_okD(2) [OF ok sub_callD(6) [OF c]] t(2)] t(3,5) by (simp add: sub_pairs_def)
  then have "sub_abs im t (Q(l := remove1 i (Q l), FreeSubs := Q FreeSubs @ [i])) (A(l := remove1 (src, tgt) (A l)))"
    using A t(5,6) sub_callD(6) [OF c] by (auto simp: sub_abs_def sub_pairs_def)
  then show ?thesis using t True by (auto simp: spec_unsubscribe_def)
qed

text \<open>To the core, subscribing is a change of lists that are not its own.\<close>

lemma subscribe_outside:
  assumes ok: "subs_ok im n s Q" and e: "fwk_notification_subscribe im nid src tgt s = Some (FWK_SUCCESS, t)"
  shows "\<exists>S. same_outside S (heap s) (heap t) \<and> S \<inter> core_addresses = {}"
proof -
  let ?H = "sub_headers im (module_ctx_table s)"
  note P = subs_okD(1) [OF ok, unfolded sub_pool_def]
  obtain l h nd h' where l: "get_subscription_dlist im nid src s = Some l"
      and p: "fwk_dlist_pop_head (image_build im) FreeSubs (heap s) = Some (Some nd, h)"
      and q: "fwk_dlist_push_tail (image_build im) l nd h = Some h'" and t: "heap t = h'"
    using e by (auto simp: fwk_notification_subscribe_def bind_Some_iff fwk_status_defs split: if_splits option.splits)
  have lh: "l \<in> ?H" using sub_list_header [OF l] by simp
  obtain i fs where Q: "Q FreeSubs = i # fs"
    using p dl.pool_pop_empty [OF P sub_header_free, of "image_build im"] by (cases "Q FreeSubs") auto
  then have "(\<lambda>l. map SubNode (Q l)) FreeSubs = SubNode i # map SubNode fs" by simp
  from dl.pool_pop [OF P sub_header_free this, of "image_build im"] p
  have "pool dlist_rep dlist_detached ?H (SubNode ` {..<n}) h ((\<lambda>l. map SubNode (Q l))(FreeSubs := map SubNode fs)) {nd}" by auto
  from dl.pool_push_outside [OF this lh _ q] dl.pool_pop_outside [OF P sub_header_free p]
  have "same_outside (?H \<union> SubNode ` {..<n}) (heap s) (heap t)" using t by (auto intro: same_outside_join)
  moreover have "(?H \<union> SubNode ` {..<n}) \<inter> core_addresses = {}" by (auto simp: core_addresses_def sub_headers_def)
  ultimately show ?thesis by blast
qed

section \<open>Sending notifications\<close>

lemma sub_pool_outside:
  assumes P: "sub_pool im n s Q" and so: "same_outside core_addresses (heap s) (heap t)" and T: "module_ctx_table t = module_ctx_table s"
  shows "sub_pool im n t Q"
proof -
  have "core_addresses \<inter> (sub_headers im (module_ctx_table s) \<union> SubNode ` {..<n}) = {}"
    by (auto simp: core_addresses_def sub_headers_def)
  from dl.pool_frame [OF P [unfolded sub_pool_def] so this] show ?thesis using T by (simp add: sub_pool_def)
qed

lemma subs_ok_outside:
  assumes "subs_ok im n s Q" "same_outside core_addresses (heap s) (heap t)" "module_ctx_table t = module_ctx_table s" "subscriptions t = subscriptions s"
  shows "subs_ok im n t Q"
  using assms sub_pool_outside [OF subs_okD(1) [OF assms(1)] assms(2,3)] by (auto simp: subs_ok_def sub_pairs_def)

lemma posted_subscriptions [simp]: "subscriptions (posted ev i h s) = subscriptions s"
  by (simp add: posted_def)

text \<open>One notification put while an event structure is free.\<close>

lemma put_notification_ok:
  assumes ok: "subs_ok im n s Q" and P: "event_pool im ne s E held" and F: "E FreeEventQ = i # fs" and d: "\<not> is_delayed_response e"
  shows "\<exists>t e'. fwk_put_notification im e s = Some (FWK_SUCCESS, STD e', t) \<and> subs_ok im n t Q \<and>
     event_pool im ne t (E(FreeEventQ := fs, put_queue UNKNOWN_STATE s := E (put_queue UNKNOWN_STATE s) @ [i])) held \<and>
     event_table t i = e' \<and> e' = e\<lparr>is_response := False, is_notification := True, cookie := event_cookie_counter s\<rparr> \<and>
     (\<forall>k. k \<noteq> i \<longrightarrow> event_table t k = event_table s k) \<and>
     module_ctx_table t = module_ctx_table s \<and> in_isr t = in_isr s \<and> subscriptions t = subscriptions s"
proof -
  let ?ev = "STD (e\<lparr>is_response := False, is_notification := True\<rparr>)"
  have nd: "\<not> delayed_put ?ev" using d by (simp add: delayed_put_def)
  have "i \<notin> held" using event_pool_members(2) [OF P event_headers_fixed(1)] F by auto
  from put_event_new [OF P nd F this, of UNKNOWN_STATE] obtain h where
    h: "put_event im ?ev UNKNOWN_STATE s = Some (FWK_SUCCESS, stamped ?ev (event_cookie_counter s), posted ?ev i h s)"
     "event_pool im ne (posted ?ev i h s) (E(FreeEventQ := fs, put_queue UNKNOWN_STATE s := E (put_queue UNKNOWN_STATE s) @ [i])) held" by blast
  have "subs_ok im n (posted ?ev i h s) Q"
    by (rule subs_ok_outside [OF ok put_event_new_outside [OF P nd h(1)]]) simp_all
  then show ?thesis using h d
    by (intro exI [of _ "posted ?ev i h s"] exI [of _ "e\<lparr>is_response := False, is_notification := True, cookie := event_cookie_counter s\<rparr>"])
       (simp add: fwk_put_notification_def stamped_def stored_event_def)
qed

text \<open>The subscriptions of a list that match the source of an event, and the event each receives.\<close>

definition matching :: "('d, 'z) notification_ctx_scheme \<Rightarrow> fwk_id \<Rightarrow> nat list \<Rightarrow> nat list" where
  "matching s src xs = filter (\<lambda>i. sub_source_id (subscriptions s i) = src) xs"

definition notified :: "fwk_event \<Rightarrow> fwk_id \<Rightarrow> fwk_event \<Rightarrow> bool" where
  "notified e tgt x \<longleftrightarrow> target_id x = tgt \<and> source_id x = source_id e \<and> event_id x = event_id e \<and> params x = params e \<and>
     is_notification x \<and> \<not> is_response x \<and> response_requested x = response_requested e"

lemma matching_Cons:
  "matching s src (i # xs) = (if sub_source_id (subscriptions s i) = src then i # matching s src xs else matching s src xs)"
  by (simp add: matching_def)

text \<open>The state after \<open>k\<close> notifications: the first \<open>k\<close> free event structures moved to the queue.\<close>

definition sent :: "('d, 'z) ntf_image \<Rightarrow> nat \<Rightarrow> (addr \<Rightarrow> nat list) \<Rightarrow> nat set \<Rightarrow> nat \<Rightarrow> addr \<Rightarrow> ('d, 'z) notification_ctx_scheme \<Rightarrow> bool" where
  "sent im ne E held k q t \<longleftrightarrow>
     event_pool im ne t (E(FreeEventQ := drop k (E FreeEventQ), q := E q @ take k (E FreeEventQ))) held"

lemma notified_upd: "notified (e\<lparr>target_id := a, is_response := False, is_notification := True, cookie := c\<rparr>) = notified e"
  by (simp add: notified_def fun_eq_iff)

lemma send_from_ok:
  assumes "subs_ok im n s Q" and "event_pool im ne s E held" and "l \<in> sub_headers im (module_ctx_table s) - {FreeSubs}"
    and "Q l = as @ bs" and "\<not> is_delayed_response e" and "length (matching s (source_id e) bs) \<le> length (E FreeEventQ)"
  shows "\<exists>e' t. send_notifications_from im l (if bs = [] then None else Some (SubNode (hd bs))) e c s =
       Some (e', c + of_nat (length (matching s (source_id e) bs)), t) \<and> subs_ok im n t Q \<and>
     sent im ne E held (length (matching s (source_id e) bs)) (put_queue UNKNOWN_STATE s) t \<and>
     list_all2 (\<lambda>i j. notified e (sub_target_id (subscriptions s i)) (event_table t j))
       (matching s (source_id e) bs) (take (length (matching s (source_id e) bs)) (E FreeEventQ)) \<and>
     (\<forall>j. j \<notin> set (take (length (matching s (source_id e) bs)) (E FreeEventQ)) \<longrightarrow> event_table t j = event_table s j)"
  using assms
proof (induction bs arbitrary: as e c s E)
  case Nil
  then show ?case
    by (intro exI [of _ e] exI [of _ s]) (simp add: send_notifications_from.simps matching_def sent_def)
next
  case (Cons b bs)
  let ?src = "source_id e" and ?q = "put_queue UNKNOWN_STATE s"
  have rep: "slist_rep (heap u) l (map SubNode as @ SubNode b # map SubNode bs)"
    if "subs_ok im n u Q" "module_ctx_table u = module_ctx_table s" for u
  proof -
    have "l \<in> sub_headers im (module_ctx_table u)" using Cons.prems(3) that(2) by simp
    from dlist_slist_rep [OF sub_rep [OF subs_okD(1) [OF that(1)] this]] show ?thesis using Cons.prems(4) by simp
  qed
  have nxt: "fwk_slist_next l (SubNode b) (heap u) = Some (if bs = [] then None else Some (SubNode (hd bs)))"
    if "subs_ok im n u Q" "module_ctx_table u = module_ctx_table s" for u
    using slist_next_rep [OF rep [OF that]] by (simp add: hd_map)
  have Ql: "Q l = (as @ [b]) @ bs" using Cons.prems(4) by simp
  have val: "fwk_id_is_equal (sub_source_id (subscriptions s b)) ?src = Some (sub_source_id (subscriptions s b) = ?src)"
    using subs_okD(3) [OF Cons.prems(1,3), of b] Cons.prems(4) by (simp add: fwk_id_is_equal_valid)
  show ?case
  proof (cases "sub_source_id (subscriptions s b) = ?src")
    case False
    then have m: "matching s ?src (b # bs) = matching s ?src bs" by (simp add: matching_Cons)
    from Cons.IH [OF Cons.prems(1-3) Ql Cons.prems(5), of c] Cons.prems(6) show ?thesis
      using False val nxt [OF Cons.prems(1) refl] by (subst send_notifications_from.simps) (simp add: m)
  next
    case True
    then have m: "matching s ?src (b # bs) = b # matching s ?src bs" by (simp add: matching_Cons)
    then obtain i fs where F: "E FreeEventQ = i # fs" using Cons.prems(6) by (cases "E FreeEventQ") auto
    let ?e = "e\<lparr>target_id := sub_target_id (subscriptions s b)\<rparr>"
    have "\<not> is_delayed_response ?e" using Cons.prems(5) by simp
    from put_notification_ok [OF Cons.prems(1,2) F this] obtain t e' where
      t: "fwk_put_notification im ?e s = Some (FWK_SUCCESS, STD e', t)" "subs_ok im n t Q"
      and P: "event_pool im ne t (E(FreeEventQ := fs, ?q := E ?q @ [i])) held"
      and ti: "event_table t i = e'" "e' = ?e\<lparr>is_response := False, is_notification := True, cookie := event_cookie_counter s\<rparr>"
        "\<forall>k. k \<noteq> i \<longrightarrow> event_table t k = event_table s k"
      and fr: "module_ctx_table t = module_ctx_table s" "in_isr t = in_isr s" "subscriptions t = subscriptions s" by blast
    let ?E = "E(FreeEventQ := fs, ?q := E ?q @ [i])"
    have q: "put_queue UNKNOWN_STATE t = ?q" using fr(2) by (simp add: put_queue_def)
    have mt: "matching t (source_id e') bs = matching s ?src bs" using fr(3) ti(2) by (simp add: matching_def)
    have ef: "?E FreeEventQ = fs" using put_queue_header(2) [of UNKNOWN_STATE s] by auto
    have l': "l \<in> sub_headers im (module_ctx_table t) - {FreeSubs}" using Cons.prems(3) fr(1) by simp
    have d': "\<not> is_delayed_response e'" using Cons.prems(5) ti(2) by simp
    let ?k = "length (matching s ?src bs)"
    have len: "length (matching t (source_id e') bs) \<le> length (?E FreeEventQ)" using Cons.prems(6) F mt m ef by simp
    from Cons.IH [OF t(2) P l' Ql d' len, of "c + 1"] obtain e2 u where
      u: "send_notifications_from im l (if bs = [] then None else Some (SubNode (hd bs))) e' (c + 1) t = Some (e2, c + 1 + of_nat ?k, u)"
        "subs_ok im n u Q" "sent im ne ?E held ?k ?q u"
        "list_all2 (\<lambda>i j. notified e' (sub_target_id (subscriptions t i)) (event_table u j)) (matching s ?src bs) (take ?k fs)"
        "\<forall>j. j \<notin> set (take ?k fs) \<longrightarrow> event_table u j = event_table t j"
      unfolding mt ef q by blast
    have ifs: "i \<notin> set fs" using event_pool_members(1) [OF Cons.prems(2) event_headers_fixed(1)] F by simp
    then have ui: "event_table u i = e'" using u(5) ti(1) by (meson in_set_takeD)
    have E2: "?E(FreeEventQ := drop ?k fs, ?q := ?E ?q @ take ?k fs) = E(FreeEventQ := drop (Suc ?k) (i # fs), ?q := E ?q @ take (Suc ?k) (i # fs))"
      using put_queue_header(2) [of UNKNOWN_STATE s] by (auto simp: fun_eq_iff)
    have s2: "sent im ne E held (Suc ?k) ?q u"
      using u(3) unfolding sent_def ef F E2 by simp
    have ne: "notified e' = notified e" unfolding ti(2) by (simp add: notified_upd)
    have "list_all2 (\<lambda>i j. notified e (sub_target_id (subscriptions s i)) (event_table u j)) (b # matching s ?src bs) (i # take ?k fs)"
      using u(4) ui fr(3) unfolding ne by (simp add: notified_def ti(2))
    moreover have "send_notifications_from im l (Some (SubNode b)) e c s = Some (e2, c + of_nat (Suc ?k), u)"
      using True val t(1) nxt [OF t(2) fr(1)] u(1) by (subst send_notifications_from.simps) simp
    moreover have "\<forall>j. j \<notin> set (take (Suc ?k) (i # fs)) \<longrightarrow> event_table u j = event_table s j" using u(5) ti(3) by simp
    ultimately show ?thesis using u(2) s2 unfolding m F by (intro exI [of _ e2] exI [of _ u]) simp
  qed
qed

lemma send_notifications_ok:
  assumes ok: "subs_ok im n s Q" and P: "event_pool im ne s E held" and d: "\<not> is_delayed_response e"
    and l: "get_subscription_dlist im (event_id e) (source_id e) s = Some l"
    and room: "length (matching s (source_id e) (Q l)) \<le> length (E FreeEventQ)"
  shows "\<exists>e' t. send_notifications im e c s = Some (e', c + of_nat (length (matching s (source_id e) (Q l))), t) \<and> subs_ok im n t Q \<and>
     sent im ne E held (length (matching s (source_id e) (Q l))) (put_queue UNKNOWN_STATE s) t \<and>
     list_all2 (\<lambda>i j. notified e (sub_target_id (subscriptions s i)) (event_table t j))
       (matching s (source_id e) (Q l)) (take (length (matching s (source_id e) (Q l))) (E FreeEventQ))"
proof -
  note lh = sub_list_header [OF l]
  then have "l \<in> sub_headers im (module_ctx_table s)" by simp
  from slist_head_rep [OF dlist_slist_rep [OF sub_rep [OF subs_okD(1) [OF ok] this]]]
  have hd: "fwk_slist_head l (heap s) = Some (if Q l = [] then None else Some (SubNode (hd (Q l))))" by (simp add: hd_map)
  let ?e = "e\<lparr>is_response := False, is_notification := True\<rparr>"
  have ne: "notified ?e = notified e" by (simp add: notified_def fun_eq_iff)
  have "\<not> is_delayed_response ?e" "length (matching s (source_id ?e) (Q l)) \<le> length (E FreeEventQ)" using d room by simp_all
  from send_from_ok [OF ok P lh _ this, of "[]" c] show ?thesis
    using l hd unfolding ne by (auto simp: send_notifications_def)
qed

section \<open>A small image\<close>

text \<open>The image of the core theory with its single notification, four event structures and two
  subscription structures.\<close>

definition sub_image :: "(unit notification_ctx, unit) fwk_image" where
  "sub_image = \<lparr>image_build = ex_build,
     module_table = [\<lparr>mod_type = 0, api_count = 0, event_count = 0, notification_count = 1, cb_init = None,
       cb_element_init = None, cb_post_init = None, cb_bind = None, cb_start = None, cb_stop = None, cb_process_bind_request = None,
       cb_process_event = None, cb_process_notification = None\<rparr>],
     module_config_table = [\<lparr>cfg_data = None, cfg_elements = NO_ELEMENTS\<rparr>],
     calloc_ok = (\<lambda>_ _. True)\<rparr>"

definition sub_blank :: "unit notification_ctx" where
  "sub_blank = \<lparr>heap = fwk_slist_init ex_build (ModSubs 0 0) (fwk_slist_init ex_build (ModDelayed 0)
       \<lparr>next_of = (\<lambda>_. None), prev_of = (\<lambda>_. None), marks_of = (\<lambda>_. \<lparr>current_count = 0, max_count = 0\<rparr>)\<rparr>),
     allocs = 0, in_isr = False, mod_initialized = False,
     module_ctx_table = [\<lparr>ctx_id = FWK_ID_MODULE 0, ctx_state = UNINITIALIZED, element_count = 0, element_ctx_table = [], m_subs = 1\<rparr>],
     stage = STAGE_INITIALIZE, bind_id = 0, core_initialized = False, event_cookie_counter = 0,
     event_table = (\<lambda>_. zero_event), current_event = None, subscriptions = (\<lambda>_. \<lparr>sub_source_id = 0, sub_target_id = 0\<rparr>)\<rparr>"

abbreviation sub_nid :: fwk_id where "sub_nid \<equiv> FWK_ID_NOTIFICATION 0 0"
abbreviation sub_mid :: fwk_id where "sub_mid \<equiv> FWK_ID_MODULE 0"

lemma sub_image_sel [simp]: "idx_count sub_image = 1" "image_build sub_image = ex_build" "calloc_ok sub_image k m"
  "notification_count (module_table sub_image ! 0) = 1"
  by (simp_all add: sub_image_def)

lemma sub_table: "module_ctx_table sub_blank = [\<lparr>ctx_id = FWK_ID_MODULE 0, ctx_state = UNINITIALIZED, element_count = 0, element_ctx_table = [], m_subs = 1\<rparr>]"
  by (simp add: sub_blank_def)

lemma sub_image_headers: "sub_headers sub_image (module_ctx_table sub_blank) = {FreeSubs, ModSubs 0 0}"
  by (auto simp: sub_headers_def sub_table)

lemma sub_ids: "fwk_module_is_valid_notification_id sub_image sub_nid = Some True"
  "fwk_module_is_valid_entity_id sub_image sub_mid s = Some True" "fwk_module_get_ctx sub_image sub_mid = Some 0"
  by (simp_all add: fwk_module_is_valid_notification_id_def fwk_module_is_valid_entity_id_def fwk_module_is_valid_module_id_def
      fwk_id_get_type_def fwk_id_is_type_valid fwk_id_get_module_idx_def assert_id_iff fwk_id_get_notification_idx_def
      fwk_module_get_ctx_def ex_build_def)

lemma sub_example_list:
  assumes "module_ctx_table s = module_ctx_table sub_blank"
  shows "get_subscription_dlist sub_image sub_nid sub_mid s = Some (ModSubs 0 0)"
  using assms by (simp add: get_subscription_dlist_def fwk_id_is_type_valid fwk_id_get_notification_idx_def sub_ids sub_table)

lemma sub_example_call:
  assumes "module_ctx_table s = module_ctx_table sub_blank" "in_isr s = in_isr sub_blank"
  shows "sub_call sub_image sub_nid sub_mid sub_mid s (ModSubs 0 0)"
proof -
  have "subscription_params_valid sub_image sub_nid sub_mid sub_mid s = Some True"
    by (simp add: subscription_params_valid_def sub_ids fwk_id_build_module_id_def assert_id_iff fwk_id_is_equal_valid)
  then show ?thesis using assms sub_example_list by (simp add: sub_call_def sub_blank_def)
qed

lemma sub_init_ok:
  "\<exists>s. fwk_notification_init ex_build 2 sub_blank = Some s \<and> subs_ok sub_image 2 s ((\<lambda>_. [])(FreeSubs := [0, 1])) \<and>
     sub_abs sub_image s ((\<lambda>_. [])(FreeSubs := [0, 1])) (\<lambda>_. []) \<and>
     same_outside {FreeSubs, SubNode 0, SubNode 1} (heap sub_blank) (heap s) \<and> s = sub_blank\<lparr>heap := heap s\<rparr>"
proof -
  let ?h = "fwk_slist_init ex_build FreeSubs (heap sub_blank)"
  have nodes: "map SubNode [0..<2] = [SubNode 0, SubNode 1]" by (simp add: upt_rec)
  have det: "dlist_detached (heap sub_blank) k" if "k \<in> set [SubNode 0, SubNode 1]" for k
    using that by (auto simp: dlist_detached_def sub_blank_def fwk_slist_init_def)
  from dl.pool_init [of "[SubNode 0, SubNode 1]" FreeSubs "heap sub_blank" ex_build, OF _ _ det] obtain h where
    h: "foldM (fwk_dlist_push_tail ex_build FreeSubs) [SubNode 0, SubNode 1] ?h = Some h" "dlist_rep h FreeSubs [SubNode 0, SubNode 1]"
      "same_outside (set [FreeSubs, SubNode 0, SubNode 1]) (heap sub_blank) h" by auto
  have "dlist_rep (heap sub_blank) (ModSubs 0 0) []" by (simp add: sub_blank_def)
  then have m: "dlist_rep h (ModSubs 0 0) []" by (rule dlist_rep_frame [OF _ h(3)]) simp
  have "sub_pool sub_image 2 (sub_blank\<lparr>heap := h\<rparr>) ((\<lambda>_. [])(FreeSubs := [0, 1]))"
    unfolding sub_pool_def pool_def using h(2) m by (auto simp: sub_image_headers lessThan_Suc numeral_2_eq_2)
  then have "subs_ok sub_image 2 (sub_blank\<lparr>heap := h\<rparr>) ((\<lambda>_. [])(FreeSubs := [0, 1]))"
    by (auto simp: subs_ok_def sub_pairs_def)
  moreover have "sub_abs sub_image (sub_blank\<lparr>heap := h\<rparr>) ((\<lambda>_. [])(FreeSubs := [0, 1])) (\<lambda>_. [])"
    by (auto simp: sub_abs_def sub_pairs_def)
  ultimately show ?thesis using h(1,3) nodes by (intro exI [of _ "sub_blank\<lparr>heap := h\<rparr>"]) (simp add: fwk_notification_init_def)
qed

text \<open>The state with two free event structures and one subscription.\<close>

lemma sub_example_state:
  "\<exists>s Q. event_pool sub_image 2 s ((\<lambda>_. [])(FreeEventQ := [0, 1])) {} \<and> subs_ok sub_image 2 s Q \<and>
     sub_abs sub_image s Q ((\<lambda>_. [])(ModSubs 0 0 := [(sub_mid, sub_mid)])) \<and> module_ctx_table s = module_ctx_table sub_blank \<and>
     in_isr s = in_isr sub_blank \<and> current_event s = current_event sub_blank"
proof -
  let ?Q = "(\<lambda>_. [])(FreeSubs := [0, 1])"
  obtain s where s: "subs_ok sub_image 2 s ?Q" "sub_abs sub_image s ?Q (\<lambda>_. [])"
     "same_outside {FreeSubs, SubNode 0, SubNode 1} (heap sub_blank) (heap s)" "s = sub_blank\<lparr>heap := heap s\<rparr>"
    using sub_init_ok by blast
  have f: "module_ctx_table s = module_ctx_table sub_blank" "in_isr s = in_isr sub_blank" "current_event s = current_event sub_blank"
    by (subst s(4), simp)+
  have H: "event_headers sub_image (module_ctx_table s) - {FreeEventQ, EventQ, IsrEventQ} = {ModDelayed 0}"
    by (auto simp: event_headers_def f sub_table)
  have "slist_rep (heap sub_blank) (ModDelayed 0) []" by (simp add: sub_blank_def fwk_slist_init_def slist_rep_Nil)
  then have "slist_rep (heap s) (ModDelayed 0) []" by (rule slist_rep_frame [OF _ s(3)]) simp
  then have del: "slist_rep (heap s) l []" if "l \<in> event_headers sub_image (module_ctx_table s) - {FreeEventQ, EventQ, IsrEventQ}" for l
    using that H by auto
  obtain u where u: "fwk_init sub_image 2 s = Some (FWK_SUCCESS, u)" "event_pool sub_image 2 u ((\<lambda>_. [])(FreeEventQ := [0..<2])) {}"
     "module_ctx_table u = module_ctx_table s" "current_event u = current_event s"
    using fwk_init_pool [where im = sub_image and n = 2, OF del] by auto
  have uf: "subscriptions u = subscriptions s" "in_isr u = in_isr s"
    using u(1) by (auto simp: fwk_init_def fwk_mm_calloc_def bind_Some_iff fwk_status_defs)
  have uo: "subs_ok sub_image 2 u ?Q" by (rule subs_ok_outside [OF s(1) fwk_init_outside [OF u(1)] u(3) uf(1)])
  have ua: "sub_abs sub_image u ?Q (\<lambda>_. [])" using s(2) u(3) uf(1) by (simp add: sub_abs_def sub_pairs_def)
  have "sub_call sub_image sub_nid sub_mid sub_mid u (ModSubs 0 0)" using sub_example_call f u uf by simp
  from subscribe_refines_lem [OF uo ua this] obtain t Q' where
    t: "fwk_notification_subscribe sub_image sub_nid sub_mid sub_mid u = Some (FWK_SUCCESS, t)" "subs_ok sub_image 2 t Q'"
     "sub_abs sub_image t Q' ((\<lambda>_. [])(ModSubs 0 0 := [(sub_mid, sub_mid)]))" "module_ctx_table t = module_ctx_table u" "in_isr t = in_isr u"
    by (auto simp: spec_subscribe_def)
  have tc: "current_event t = current_event u"
    using t(1) by (auto simp: fwk_notification_subscribe_def bind_Some_iff fwk_status_defs split: if_splits option.splits)
  obtain S where S: "same_outside S (heap u) (heap t)" "S \<inter> core_addresses = {}" using subscribe_outside [OF uo t(1)] by blast
  then have "S \<inter> (event_headers sub_image (module_ctx_table u) \<union> EventNode ` {..<2}) = {}" using event_headers_core by blast
  from sl.pool_frame [OF u(2) [unfolded event_pool_def] S(1) this]
  have "event_pool sub_image 2 t ((\<lambda>_. [])(FreeEventQ := [0..<2])) {}" using t(4) by (simp add: event_pool_def)
  moreover have "[0..<2] = [0, 1]" by (simp add: upt_rec)
  ultimately show ?thesis using t u f uf tc by (intro exI [of _ t] exI [of _ Q']) simp
qed

section \<open>Properties\<close>

text \<open>C5. Subscribing refines the abstract subscription table. On valid parameters in thread
  context, with a free subscription structure, \<^verbatim>\<open>fwk_notification_subscribe\<close> returns
  FWK_E_STATE and changes nothing when the pair is subscribed already, and otherwise adds the
  pair at the end of its list and returns FWK_SUCCESS; no other list changes, every
  subscription structure stays on exactly one list and no pair is ever recorded twice.\<close>

theorem subscribe_refines:
  assumes "subs_ok im n s Q" and "sub_abs im s Q A" and "sub_call im nid src tgt s l" and "Q FreeSubs \<noteq> []"
  shows "\<exists>t Q'. fwk_notification_subscribe im nid src tgt s = Some (fst (spec_subscribe l (src, tgt) A), t) \<and>
     subs_ok im n t Q' \<and> sub_abs im t Q' (snd (spec_subscribe l (src, tgt) A))"
  using subscribe_refines_lem [OF assms] by blast

theorem subscribe_refines_witness:
  "\<exists>s t Q'. fwk_notification_init ex_build 2 sub_blank = Some s \<and>
     fwk_notification_subscribe sub_image sub_nid sub_mid sub_mid s = Some (FWK_SUCCESS, t) \<and>
     sub_abs sub_image t Q' ((\<lambda>_. [])(ModSubs 0 0 := [(sub_mid, sub_mid)]))"
proof -
  obtain s where s: "fwk_notification_init ex_build 2 sub_blank = Some s" "subs_ok sub_image 2 s ((\<lambda>_. [])(FreeSubs := [0, 1]))"
     "sub_abs sub_image s ((\<lambda>_. [])(FreeSubs := [0, 1])) (\<lambda>_. [])" "s = sub_blank\<lparr>heap := heap s\<rparr>"
    using sub_init_ok by blast
  have "module_ctx_table s = module_ctx_table sub_blank" "in_isr s = in_isr sub_blank" by (subst s(4), simp)+
  from subscribe_refines [OF s(2,3) sub_example_call [OF this]] show ?thesis using s(1) by (auto simp: spec_subscribe_def)
qed

text \<open>Unsubscribing refines the abstract table and undoes a subscription. After a
  successful subscription, subscribing again is refused with FWK_E_STATE, unsubscribing
  succeeds and restores the table, and unsubscribing once more is refused with FWK_E_STATE.\<close>

theorem subscription_roundtrip:
  assumes "subs_ok im n s Q" and "sub_abs im s Q A" and "sub_call im nid src tgt s l" and "Q FreeSubs \<noteq> []"
    and "(src, tgt) \<notin> set (A l)"
  shows "\<exists>t u Q'. fwk_notification_subscribe im nid src tgt s = Some (FWK_SUCCESS, t) \<and>
     fwk_notification_subscribe im nid src tgt t = Some (FWK_E_STATE, t) \<and>
     fwk_notification_unsubscribe im nid src tgt t = Some (FWK_SUCCESS, u) \<and> subs_ok im n u Q' \<and> sub_abs im u Q' A \<and>
     fwk_notification_unsubscribe im nid src tgt u = Some (FWK_E_STATE, u)"
proof -
  obtain t Q1 where t: "fwk_notification_subscribe im nid src tgt s = Some (FWK_SUCCESS, t)" "subs_ok im n t Q1"
      "sub_abs im t Q1 (A(l := A l @ [(src, tgt)]))" "module_ctx_table t = module_ctx_table s" "in_isr t = in_isr s"
    using subscribe_refines_lem [OF assms(1-4)] assms(5) by (auto simp: spec_subscribe_def)
  have call: "sub_call im nid src tgt v l" if "module_ctx_table v = module_ctx_table s" "in_isr v = in_isr s" for v
    using assms(3) that by (auto simp: sub_call_def subscription_params_valid_def get_subscription_dlist_def
      fwk_module_is_valid_entity_id_def fwk_module_is_valid_element_id_def fwk_module_is_valid_sub_element_id_def
      fwk_module_get_element_ctx_def cong: if_cong)
  note ct = call [OF t(4,5)]
  have again: "fwk_notification_subscribe im nid src tgt t = Some (FWK_E_STATE, t)"
    by (rule subscribe_again [OF t(2) ct]) (simp add: sub_absD [OF t(3) ct, symmetric])
  have "remove1 (src, tgt) (A l @ [(src, tgt)]) = A l" using assms(5) by (simp add: remove1_append)
  then have restored: "(A(l := A l @ [(src, tgt)]))(l := remove1 (src, tgt) ((A(l := A l @ [(src, tgt)])) l)) = A" by simp
  obtain u Q2 where u: "fwk_notification_unsubscribe im nid src tgt t = Some (FWK_SUCCESS, u)" "subs_ok im n u Q2" "sub_abs im u Q2 A"
      "module_ctx_table u = module_ctx_table t" "in_isr u = in_isr t"
    using unsubscribe_refines_lem [OF t(2,3) ct] unfolding spec_unsubscribe_def restored by auto
  have cu: "sub_call im nid src tgt u l" by (rule call) (use t u in simp_all)
  have "fwk_notification_unsubscribe im nid src tgt u = Some (FWK_E_STATE, u)"
    by (rule unsubscribe_missing [OF u(2) cu]) (use assms(5) sub_absD [OF u(3) cu] in simp)
  then show ?thesis using t(1) again u(1-3) by blast
qed

theorem subscription_roundtrip_witness:
  "\<exists>s t u. fwk_notification_init ex_build 2 sub_blank = Some s \<and>
     fwk_notification_subscribe sub_image sub_nid sub_mid sub_mid s = Some (FWK_SUCCESS, t) \<and>
     fwk_notification_unsubscribe sub_image sub_nid sub_mid sub_mid t = Some (FWK_SUCCESS, u)"
proof -
  obtain s where s: "fwk_notification_init ex_build 2 sub_blank = Some s" "subs_ok sub_image 2 s ((\<lambda>_. [])(FreeSubs := [0, 1]))"
     "sub_abs sub_image s ((\<lambda>_. [])(FreeSubs := [0, 1])) (\<lambda>_. [])" "s = sub_blank\<lparr>heap := heap s\<rparr>"
    using sub_init_ok by blast
  have "module_ctx_table s = module_ctx_table sub_blank" "in_isr s = in_isr sub_blank" by (subst s(4), simp)+
  from subscription_roundtrip [OF s(2,3) sub_example_call [OF this]] show ?thesis using s(1) by auto
qed

text \<open>C6. A notification reaches every subscriber once. When enough event structures are
  free, \<^verbatim>\<open>fwk_notification_notify\<close> queues one notification event per subscription of the emitting
  source, in the order of subscription, each addressed to its subscriber and carrying the
  identifier and parameters given; it reports their number, and no subscription changes.\<close>

theorem notify_reaches_subscribers:
  assumes "subs_ok im n s Q" and "event_pool im ne s E held" and "\<not> is_delayed_response e"
    and "notify_source im e s = Some (Some e)" and "fwk_module_is_valid_notification_id im (event_id e) = Some True"
    and "same_module (event_id e) (source_id e) = Some True" and "get_subscription_dlist im (event_id e) (source_id e) s = Some l"
    and "length (matching s (source_id e) (Q l)) \<le> length (E FreeEventQ)"
  shows "\<exists>e' t. fwk_notification_notify im (Some e) (Some c0) s =
       Some (FWK_SUCCESS, Some e', Some (of_nat (length (matching s (source_id e) (Q l)))), t) \<and> subs_ok im n t Q \<and>
     sent im ne E held (length (matching s (source_id e) (Q l))) (put_queue UNKNOWN_STATE s) t \<and>
     list_all2 (\<lambda>i j. notified e (sub_target_id (subscriptions s i)) (event_table t j))
       (matching s (source_id e) (Q l)) (take (length (matching s (source_id e) (Q l))) (E FreeEventQ))"
  using send_notifications_ok [OF assms(1,2,3,7,8), of 0] assms(4-6) by (auto simp: fwk_notification_notify_def)

theorem notify_reaches_subscribers_witness:
  "\<exists>s e' t. fwk_notification_notify sub_image (Some (zero_event\<lparr>source_id := sub_mid, event_id := sub_nid\<rparr>)) (Some 9)
       s = Some (FWK_SUCCESS, Some e', Some 1, t) \<and> target_id (event_table t 0) = sub_mid"
proof -
  let ?e = "zero_event\<lparr>source_id := sub_mid, event_id := sub_nid\<rparr>" and ?Q = "(\<lambda>_. [])(FreeSubs := [0, 1])"
  obtain s Q where s0: "event_pool sub_image 2 s ((\<lambda>_. [])(FreeEventQ := [0, 1])) {}" "subs_ok sub_image 2 s Q"
      "sub_abs sub_image s Q ((\<lambda>_. [])(ModSubs 0 0 := [(sub_mid, sub_mid)]))" "module_ctx_table s = module_ctx_table sub_blank"
      "in_isr s = in_isr sub_blank" "current_event s = current_event sub_blank"
    using sub_example_state by blast
  have l: "get_subscription_dlist sub_image (event_id ?e) (source_id ?e) s = Some (ModSubs 0 0)" using sub_example_list [OF s0(4)] by simp
  have "sub_pairs s (Q (ModSubs 0 0)) = [(sub_mid, sub_mid)]"
    using s0(3,4) by (simp add: sub_abs_def sub_image_headers)
  then obtain i where i: "Q (ModSubs 0 0) = [i]" "sub_source_id (subscriptions s i) = sub_mid" "sub_target_id (subscriptions s i) = sub_mid"
    by (auto simp: sub_pairs_def)
  then have m: "matching s (source_id ?e) (Q (ModSubs 0 0)) = [i]" by (simp add: matching_def)
  have src: "notify_source sub_image ?e s = Some (Some ?e)" using s0 by (simp add: notify_source_def sub_blank_def)
  have same: "same_module (event_id ?e) (source_id ?e) = Some True"
    by (simp add: same_module_def fwk_id_get_module_idx_def assert_id_iff)
  have nd: "\<not> is_delayed_response ?e" by (simp add: zero_event_def)
  from notify_reaches_subscribers [OF s0(2,1) nd src _ same l, of 9] m i(3) show ?thesis
    by (auto simp: sub_ids notified_def)
qed

end
