(* ===== verification/Fwk_Interrupt.thy ===== *)
theory Fwk_Interrupt
  imports Fwk_Prelude
begin

text \<open>
  Interrupt management: the portable layer \<^verbatim>\<open>framework/src/fwk_interrupt.c\<close> and the
  implementation of its architecture interface for Arm M-profile cores,
  \<^verbatim>\<open>arch/arm/arm-m/src/arch_nvic.c\<close>.

  The architecture interface is the record \<open>arch_interrupt\<close> of its functions over a state
  \<open>'w\<close>; every architecture provides one. The M-profile functions call the CMSIS library and
  processor intrinsics, which are not part of the repository: they are the record \<open>cmsis\<close>
  over a state \<open>'h\<close> of the processor. A handler is the number of a function; null is \<open>None\<close>.
  An output argument that is not null is passed in by value and returned.
\<close>

section \<open>The portable layer\<close>

record 'w arch_interrupt =
  arch_init :: "'w \<Rightarrow> (int \<times> 'w) option"
  arch_is_enabled :: "32 word \<Rightarrow> bool \<Rightarrow> 'w \<Rightarrow> int \<times> bool"
  arch_enable :: "32 word \<Rightarrow> 'w \<Rightarrow> int \<times> 'w"
  arch_disable :: "32 word \<Rightarrow> 'w \<Rightarrow> int \<times> 'w"
  arch_is_pending :: "32 word \<Rightarrow> bool \<Rightarrow> 'w \<Rightarrow> int \<times> bool"
  arch_configure :: "32 word \<Rightarrow> 32 word \<Rightarrow> 'w \<Rightarrow> int \<times> 'w"
  arch_set_pending :: "32 word \<Rightarrow> 'w \<Rightarrow> int \<times> 'w"
  arch_clear_pending :: "32 word \<Rightarrow> 'w \<Rightarrow> int \<times> 'w"
  arch_set_priority :: "32 word \<Rightarrow> 32 word \<Rightarrow> 'w \<Rightarrow> int \<times> 'w"
  arch_set_isr_irq :: "32 word \<Rightarrow> nat \<Rightarrow> 'w \<Rightarrow> (int \<times> 'w) option"
  arch_set_isr_irq_param :: "32 word \<Rightarrow> nat \<Rightarrow> 32 word \<Rightarrow> 'w \<Rightarrow> (int \<times> 'w) option"
  arch_set_isr_nmi :: "nat \<Rightarrow> 'w \<Rightarrow> (int \<times> 'w) option"
  arch_set_isr_nmi_param :: "nat \<Rightarrow> 32 word \<Rightarrow> 'w \<Rightarrow> (int \<times> 'w) option"
  arch_set_isr_fault :: "nat \<Rightarrow> 'w \<Rightarrow> int \<times> 'w"
  arch_get_current :: "32 word \<Rightarrow> 'w \<Rightarrow> int \<times> 32 word"
  arch_is_interrupt_context :: "'w \<Rightarrow> bool"

definition FWK_INTERRUPT_NMI :: "32 word" where "FWK_INTERRUPT_NMI = - 1"
definition FWK_INTERRUPT_EXCEPTION :: "32 word" where "FWK_INTERRUPT_EXCEPTION = - 3"

definition fwk_arch_interrupt_init :: "'w arch_interrupt \<Rightarrow> 'w \<Rightarrow> (int \<times> 'w) option" where
  "fwk_arch_interrupt_init a w = arch_init a w"

definition fwk_interrupt_is_enabled :: "'w arch_interrupt \<Rightarrow> 32 word \<Rightarrow> bool option \<Rightarrow> 'w \<Rightarrow> int \<times> bool option" where
  "fwk_interrupt_is_enabled a interrupt enabled w =
     (case enabled of None \<Rightarrow> (FWK_E_PARAM, None) | Some b \<Rightarrow> map_prod id Some (arch_is_enabled a interrupt b w))"

definition fwk_interrupt_enable :: "'w arch_interrupt \<Rightarrow> 32 word \<Rightarrow> 'w \<Rightarrow> int \<times> 'w" where
  "fwk_interrupt_enable a interrupt w = arch_enable a interrupt w"

definition fwk_interrupt_disable :: "'w arch_interrupt \<Rightarrow> 32 word \<Rightarrow> 'w \<Rightarrow> int \<times> 'w" where
  "fwk_interrupt_disable a interrupt w = arch_disable a interrupt w"

definition fwk_interrupt_is_pending :: "'w arch_interrupt \<Rightarrow> 32 word \<Rightarrow> bool option \<Rightarrow> 'w \<Rightarrow> int \<times> bool option" where
  "fwk_interrupt_is_pending a interrupt pending w =
     (case pending of None \<Rightarrow> (FWK_E_PARAM, None) | Some b \<Rightarrow> map_prod id Some (arch_is_pending a interrupt b w))"

definition fwk_interrupt_configure :: "'w arch_interrupt \<Rightarrow> 32 word \<Rightarrow> 32 word \<Rightarrow> 'w \<Rightarrow> int \<times> 'w" where
  "fwk_interrupt_configure a interrupt cfg w = arch_configure a interrupt cfg w"

definition fwk_interrupt_set_pending :: "'w arch_interrupt \<Rightarrow> 32 word \<Rightarrow> 'w \<Rightarrow> int \<times> 'w" where
  "fwk_interrupt_set_pending a interrupt w = arch_set_pending a interrupt w"

definition fwk_interrupt_clear_pending :: "'w arch_interrupt \<Rightarrow> 32 word \<Rightarrow> 'w \<Rightarrow> int \<times> 'w" where
  "fwk_interrupt_clear_pending a interrupt w = arch_clear_pending a interrupt w"

definition fwk_interrupt_set_priority :: "'w arch_interrupt \<Rightarrow> 32 word \<Rightarrow> 32 word \<Rightarrow> 'w \<Rightarrow> int \<times> 'w" where
  "fwk_interrupt_set_priority a interrupt val w = arch_set_priority a interrupt val w"

definition fwk_interrupt_set_isr :: "'w arch_interrupt \<Rightarrow> 32 word \<Rightarrow> nat option \<Rightarrow> 'w \<Rightarrow> (int \<times> 'w) option" where
  "fwk_interrupt_set_isr a interrupt isr w =
     (case isr of
        None \<Rightarrow> Some (FWK_E_PARAM, w)
      | Some f \<Rightarrow> if interrupt = FWK_INTERRUPT_NMI then arch_set_isr_nmi a f w else arch_set_isr_irq a interrupt f w)"

definition fwk_interrupt_set_isr_param :: "'w arch_interrupt \<Rightarrow> 32 word \<Rightarrow> nat option \<Rightarrow> 32 word \<Rightarrow> 'w \<Rightarrow> (int \<times> 'w) option" where
  "fwk_interrupt_set_isr_param a interrupt isr param w =
     (case isr of
        None \<Rightarrow> Some (FWK_E_PARAM, w)
      | Some f \<Rightarrow> if interrupt = FWK_INTERRUPT_NMI then arch_set_isr_nmi_param a f param w
                  else arch_set_isr_irq_param a interrupt f param w)"

definition fwk_interrupt_get_current :: "'w arch_interrupt \<Rightarrow> 32 word option \<Rightarrow> 'w \<Rightarrow> int \<times> 32 word option" where
  "fwk_interrupt_get_current a interrupt w =
     (case interrupt of None \<Rightarrow> (FWK_E_PARAM, None) | Some i \<Rightarrow> map_prod id Some (arch_get_current a i w))"

definition fwk_is_interrupt_context :: "'w arch_interrupt \<Rightarrow> 'w \<Rightarrow> bool" where
  "fwk_is_interrupt_context a w = arch_is_interrupt_context a w"

definition fwk_interrupt_set_isr_fault :: "'w arch_interrupt \<Rightarrow> nat option \<Rightarrow> 'w \<Rightarrow> int \<times> 'w" where
  "fwk_interrupt_set_isr_fault a isr w =
     (case isr of None \<Rightarrow> (FWK_E_PARAM, w) | Some f \<Rightarrow> arch_set_isr_fault a f w)"

section \<open>The M-profile implementation\<close>

text \<open>
  CMSIS and the processor: the enable and pending state of an interrupt line, the vector
  table entry of an exception (numbered as in CMSIS: interrupt lines from 0, system exceptions
  negative), the current exception number, the number of groups of interrupt lines, the
  installation of the vector table, and the enabling of the fault handlers. \<open>irq_global\<close> and
  \<open>irq_invalid\<close> are the numbers of the two handlers of the source file.
\<close>

record 'h cmsis =
  NVIC_USER_IRQ_OFFSET :: nat
  NonMaskableInt_IRQn :: int
  fault_IRQns :: "int list"
  NVIC_GetEnableIRQ :: "32 word \<Rightarrow> 'h \<Rightarrow> bool"
  NVIC_EnableIRQ :: "32 word \<Rightarrow> 'h \<Rightarrow> 'h"
  NVIC_DisableIRQ :: "32 word \<Rightarrow> 'h \<Rightarrow> 'h"
  NVIC_GetPendingIRQ :: "32 word \<Rightarrow> 'h \<Rightarrow> bool"
  NVIC_SetPendingIRQ :: "32 word \<Rightarrow> 'h \<Rightarrow> 'h"
  NVIC_ClearPendingIRQ :: "32 word \<Rightarrow> 'h \<Rightarrow> 'h"
  NVIC_SetVector :: "int \<Rightarrow> nat \<Rightarrow> 'h \<Rightarrow> 'h"
  get_IPSR :: "'h \<Rightarrow> 32 word"
  ICTR_INTLINESNUM :: "'h \<Rightarrow> 32 word"
  install_vector_table :: "'h \<Rightarrow> 'h"
  enable_faults :: "'h \<Rightarrow> 'h"
  irq_global_isr :: nat
  irq_invalid_isr :: nat

record irq_callback =
  func :: "nat option"
  cb_param :: "32 word"

record 'h nvic =
  irq_count :: "32 word"
  isr_count :: "32 word"
  callback :: "irq_callback list"
  hw :: 'h

definition upd_hw :: "('h \<Rightarrow> 'h) \<Rightarrow> 'h nvic \<Rightarrow> 'h nvic" where
  "upd_hw f w = w\<lparr>hw := f (hw w)\<rparr>"

text \<open>The function and the parameter that the shared handler calls.\<close>

definition irq_global :: "'h cmsis \<Rightarrow> 'h nvic \<Rightarrow> (nat \<times> 32 word) option" where
  "irq_global c w =
     (let i = unat (get_IPSR c (hw w) - 1)
      in if i < length (callback w)
         then map_option (\<lambda>f. (f, cb_param (callback w ! i))) (func (callback w ! i))
         else None)"

definition nvic_is_enabled :: "'h cmsis \<Rightarrow> 32 word \<Rightarrow> bool \<Rightarrow> 'h nvic \<Rightarrow> int \<times> bool" where
  "nvic_is_enabled c interrupt enabled w =
     (if interrupt \<ge> irq_count w then (FWK_E_PARAM, enabled) else (FWK_SUCCESS, NVIC_GetEnableIRQ c interrupt (hw w)))"

definition nvic_enable :: "'h cmsis \<Rightarrow> 32 word \<Rightarrow> 'h nvic \<Rightarrow> int \<times> 'h nvic" where
  "nvic_enable c interrupt w =
     (if interrupt \<ge> irq_count w then (FWK_E_PARAM, w) else (FWK_SUCCESS, upd_hw (NVIC_EnableIRQ c interrupt) w))"

definition nvic_disable :: "'h cmsis \<Rightarrow> 32 word \<Rightarrow> 'h nvic \<Rightarrow> int \<times> 'h nvic" where
  "nvic_disable c interrupt w =
     (if interrupt \<ge> irq_count w then (FWK_E_PARAM, w) else (FWK_SUCCESS, upd_hw (NVIC_DisableIRQ c interrupt) w))"

definition nvic_is_pending :: "'h cmsis \<Rightarrow> 32 word \<Rightarrow> bool \<Rightarrow> 'h nvic \<Rightarrow> int \<times> bool" where
  "nvic_is_pending c interrupt pending w =
     (if interrupt \<ge> irq_count w then (FWK_E_PARAM, pending) else (FWK_SUCCESS, NVIC_GetPendingIRQ c interrupt (hw w)))"

definition nvic_configure :: "32 word \<Rightarrow> 32 word \<Rightarrow> 'h nvic \<Rightarrow> int \<times> 'h nvic" where
  "nvic_configure interrupt cfg w = (FWK_E_SUPPORT, w)"

definition nvic_set_pending :: "'h cmsis \<Rightarrow> 32 word \<Rightarrow> 'h nvic \<Rightarrow> int \<times> 'h nvic" where
  "nvic_set_pending c interrupt w =
     (if interrupt \<ge> irq_count w then (FWK_E_PARAM, w) else (FWK_SUCCESS, upd_hw (NVIC_SetPendingIRQ c interrupt) w))"

definition nvic_set_priority :: "32 word \<Rightarrow> 32 word \<Rightarrow> 'h nvic \<Rightarrow> int \<times> 'h nvic" where
  "nvic_set_priority interrupt val w = (FWK_E_SUPPORT, w)"

definition nvic_clear_pending :: "'h cmsis \<Rightarrow> 32 word \<Rightarrow> 'h nvic \<Rightarrow> int \<times> 'h nvic" where
  "nvic_clear_pending c interrupt w =
     (if interrupt \<ge> irq_count w then (FWK_E_PARAM, w) else (FWK_SUCCESS, upd_hw (NVIC_ClearPendingIRQ c interrupt) w))"

definition nvic_set_isr_irq :: "'h cmsis \<Rightarrow> 32 word \<Rightarrow> nat \<Rightarrow> 'h nvic \<Rightarrow> (int \<times> 'h nvic) option" where
  "nvic_set_isr_irq c interrupt isr w =
     Some (if interrupt \<ge> irq_count w then (FWK_E_PARAM, w)
           else (FWK_SUCCESS, upd_hw (NVIC_SetVector c (int (unat interrupt)) isr) w))"

text \<open>Writing an entry of the callback table; \<open>None\<close> beyond its end.\<close>

definition set_callback :: "int \<Rightarrow> nat \<Rightarrow> 32 word \<Rightarrow> 'h nvic \<Rightarrow> 'h nvic option" where
  "set_callback i isr p w =
     (if 0 \<le> i \<and> nat i < length (callback w)
      then Some (w\<lparr>callback := (callback w)[nat i := \<lparr>func = Some isr, cb_param = p\<rparr>]\<rparr>) else None)"

definition nvic_set_isr_irq_param :: "'h cmsis \<Rightarrow> 32 word \<Rightarrow> nat \<Rightarrow> 32 word \<Rightarrow> 'h nvic \<Rightarrow> (int \<times> 'h nvic) option" where
  "nvic_set_isr_irq_param c interrupt isr p w =
     (if interrupt \<ge> irq_count w then Some (FWK_E_PARAM, w)
      else do {
        w \<leftarrow> set_callback (int (unat (of_nat (NVIC_USER_IRQ_OFFSET c) + interrupt - 1))) isr p w;
        Some (FWK_SUCCESS, upd_hw (NVIC_SetVector c (int (unat interrupt)) (irq_global_isr c)) w)
      })"

definition nvic_set_isr_nmi :: "'h cmsis \<Rightarrow> nat \<Rightarrow> 'h nvic \<Rightarrow> (int \<times> 'h nvic) option" where
  "nvic_set_isr_nmi c isr w = Some (FWK_SUCCESS, upd_hw (NVIC_SetVector c (NonMaskableInt_IRQn c) isr) w)"

definition nvic_set_isr_nmi_param :: "'h cmsis \<Rightarrow> nat \<Rightarrow> 32 word \<Rightarrow> 'h nvic \<Rightarrow> (int \<times> 'h nvic) option" where
  "nvic_set_isr_nmi_param c isr p w =
     do {
       w \<leftarrow> set_callback (int (NVIC_USER_IRQ_OFFSET c) + NonMaskableInt_IRQn c - 1) isr p w;
       Some (FWK_SUCCESS, upd_hw (NVIC_SetVector c (NonMaskableInt_IRQn c) (irq_global_isr c)) w)
     }"

definition nvic_set_isr_fault :: "'h cmsis \<Rightarrow> nat \<Rightarrow> 'h nvic \<Rightarrow> int \<times> 'h nvic" where
  "nvic_set_isr_fault c isr w = (FWK_SUCCESS, foldl (\<lambda>w n. upd_hw (NVIC_SetVector c n isr) w) w (fault_IRQns c))"

definition nvic_get_current :: "'h cmsis \<Rightarrow> 32 word \<Rightarrow> 'h nvic \<Rightarrow> int \<times> 32 word" where
  "nvic_get_current c interrupt w =
     (let interrupt = get_IPSR c (hw w)
      in if interrupt = 0 then (FWK_E_STATE, interrupt)
         else (FWK_SUCCESS,
           if interrupt = word_of_int (int (NVIC_USER_IRQ_OFFSET c) + NonMaskableInt_IRQn c) then FWK_INTERRUPT_NMI
           else if interrupt < of_nat (NVIC_USER_IRQ_OFFSET c) then FWK_INTERRUPT_EXCEPTION
           else interrupt - of_nat (NVIC_USER_IRQ_OFFSET c)))"

definition nvic_is_interrupt_context :: "'h cmsis \<Rightarrow> 'h nvic \<Rightarrow> bool" where
  "nvic_is_interrupt_context c w = (get_IPSR c (hw w) \<noteq> 0)"

text \<open>The handler of every interrupt that has none of its own.\<close>

definition arch_interrupt_irq_invalid :: "'h cmsis \<Rightarrow> 'h nvic \<Rightarrow> 'h nvic" where
  "arch_interrupt_irq_invalid c w = snd (nvic_disable c (get_IPSR c (hw w)) w)"

definition nvic_init_irq :: "'h cmsis \<Rightarrow> nat \<Rightarrow> 'h \<Rightarrow> 'h" where
  "nvic_init_irq c irq h =
     NVIC_SetVector c (int irq) (irq_invalid_isr c)
       (NVIC_ClearPendingIRQ c (of_nat irq) (NVIC_DisableIRQ c (of_nat irq) h))"

text \<open>
  \<^verbatim>\<open>IRQN_TYPE_MAX\<close> is the largest 16-bit number for the short enumerations of the build. The
  callback table starts zeroed: every function is null.
\<close>

definition nvic_init :: "'h cmsis \<Rightarrow> 'h nvic \<Rightarrow> (int \<times> 'h nvic) option" where
  "nvic_init c w =
     (let irqs = (ICTR_INTLINESNUM c (hw w) + 1) * 32;
          isrs = of_nat (NVIC_USER_IRQ_OFFSET c) + irqs
      in do {
        fwk_assert (unat irqs \<le> 32768);
        let h = install_vector_table c (hw w);
        let h = fold (nvic_init_irq c) [0..<unat irqs] h;
        Some (FWK_SUCCESS, \<lparr>irq_count = irqs, isr_count = isrs,
          callback = replicate (unat isrs) \<lparr>func = None, cb_param = 0\<rparr>, hw = enable_faults c h\<rparr>)
      })"

text \<open>The variant for ARMv6-M: one group of lines, no new vector table and no callback table.\<close>

definition nvic_init_v6m :: "'h cmsis \<Rightarrow> 'h nvic \<Rightarrow> (int \<times> 'h nvic) option" where
  "nvic_init_v6m c w =
     (let irqs = (0 + 1) * 32; isrs = of_nat (NVIC_USER_IRQ_OFFSET c) + irqs
      in do {
        fwk_assert (unat irqs \<le> 32768);
        Some (FWK_SUCCESS, w\<lparr>irq_count := irqs, isr_count := isrs, hw := fold (nvic_init_irq c) [0..<unat irqs] (hw w)\<rparr>)
      })"

definition arch_nvic :: "'h cmsis \<Rightarrow> 'h nvic arch_interrupt" where
  "arch_nvic c =
     \<lparr>arch_init = nvic_init c, arch_is_enabled = nvic_is_enabled c, arch_enable = nvic_enable c,
      arch_disable = nvic_disable c, arch_is_pending = nvic_is_pending c, arch_configure = nvic_configure,
      arch_set_pending = nvic_set_pending c, arch_clear_pending = nvic_clear_pending c,
      arch_set_priority = nvic_set_priority, arch_set_isr_irq = nvic_set_isr_irq c,
      arch_set_isr_irq_param = nvic_set_isr_irq_param c, arch_set_isr_nmi = nvic_set_isr_nmi c,
      arch_set_isr_nmi_param = nvic_set_isr_nmi_param c, arch_set_isr_fault = nvic_set_isr_fault c,
      arch_get_current = nvic_get_current c, arch_is_interrupt_context = nvic_is_interrupt_context c\<rparr>"

section \<open>The contract the modules rely on\<close>

text \<open>
  \<open>line_ok irq w\<close>: the controller implements the interrupt line \<open>irq\<close>. The operations that
  modules use on such a line succeed, and no operation loses a line.
\<close>

locale irq_controller =
  fixes arch :: "'w arch_interrupt" and line_ok :: "32 word \<Rightarrow> 'w \<Rightarrow> bool"
  assumes line_not_nmi: "line_ok irq w \<Longrightarrow> irq \<noteq> FWK_INTERRUPT_NMI"
    and clear_pending_ok: "line_ok irq w \<Longrightarrow> fst (arch_clear_pending arch irq w) = FWK_SUCCESS"
    and clear_pending_keeps: "line_ok irq w \<Longrightarrow> line_ok irq (snd (arch_clear_pending arch j w))"
    and enable_ok: "line_ok irq w \<Longrightarrow> fst (arch_enable arch irq w) = FWK_SUCCESS"
    and enable_keeps: "line_ok irq w \<Longrightarrow> line_ok irq (snd (arch_enable arch j w))"
    and set_isr_ok: "line_ok irq w \<Longrightarrow> \<exists>w'. arch_set_isr_irq_param arch irq f p w = Some (FWK_SUCCESS, w')"
    and set_isr_keeps: "line_ok irq w \<Longrightarrow> arch_set_isr_irq_param arch j f p w = Some (st, w') \<Longrightarrow> line_ok irq w'"
begin

text \<open>Installing a handler with a parameter and enabling its line, as a module does when it starts.\<close>

lemma install_handler:
  assumes "line_ok irq w"
  shows "\<exists>w' w''. fwk_interrupt_set_isr_param arch irq (Some f) p w = Some (FWK_SUCCESS, w') \<and>
    fwk_interrupt_enable arch irq w' = (FWK_SUCCESS, w'') \<and> (\<forall>j. line_ok j w \<longrightarrow> line_ok j w'')"
proof -
  obtain w' where w': "arch_set_isr_irq_param arch irq f p w = Some (FWK_SUCCESS, w')" using set_isr_ok [OF assms] by blast
  have keep: "line_ok j w \<Longrightarrow> line_ok j w'" for j by (rule set_isr_keeps [OF _ w'])
  have "fst (arch_enable arch irq w') = FWK_SUCCESS" by (rule enable_ok [OF keep [OF assms]])
  then show ?thesis
    using w' line_not_nmi [OF assms] enable_keeps keep
    by (auto simp: fwk_interrupt_set_isr_param_def fwk_interrupt_enable_def prod_eq_iff)
qed

end

text \<open>
  The lines of the M-profile controller: those below \<^verbatim>\<open>irq_count\<close>, once the callback table has
  the size that the initialisation gives it.
\<close>

definition nvic_line :: "'h cmsis \<Rightarrow> 32 word \<Rightarrow> 'h nvic \<Rightarrow> bool" where
  "nvic_line c irq w \<longleftrightarrow> irq < irq_count w \<and> unat (irq_count w) \<le> 32768 \<and>
     0 < NVIC_USER_IRQ_OFFSET c \<and> NVIC_USER_IRQ_OFFSET c \<le> 32768 \<and>
     length (callback w) = NVIC_USER_IRQ_OFFSET c + unat (irq_count w)"

lemma callback_index:
  assumes "irq < irq_count w" "unat (irq_count w) \<le> 32768" "0 < off" "off \<le> 32768"
  shows "unat (of_nat off + irq - 1 :: 32 word) = off + unat irq - 1"
proof -
  have i: "unat irq < 32768" using assms(1,2) by (simp add: word_less_nat_alt)
  then have "unat (of_nat off + irq) = off + unat irq"
    using assms(4) by (simp add: unat_word_ariths unat_of_nat take_bit_nat_eq_self)
  moreover have "(1 :: 32 word) \<le> of_nat off + irq"
    using calculation assms(3) by (simp add: word_le_nat_alt)
  ultimately show ?thesis by (simp add: unat_sub)
qed

lemma set_isr_nvic:
  assumes "nvic_line c irq w"
  shows "nvic_set_isr_irq_param c irq f p w = Some (FWK_SUCCESS,
    w\<lparr>callback := (callback w)[NVIC_USER_IRQ_OFFSET c + unat irq - 1 := \<lparr>func = Some f, cb_param = p\<rparr>],
      hw := NVIC_SetVector c (int (unat irq)) (irq_global_isr c) (hw w)\<rparr>)"
proof -
  have "unat irq < unat (irq_count w)" using assms by (simp add: nvic_line_def word_less_nat_alt)
  moreover have "unat (of_nat (NVIC_USER_IRQ_OFFSET c) + irq - 1 :: 32 word) = NVIC_USER_IRQ_OFFSET c + unat irq - 1"
    by (rule callback_index) (use assms in \<open>auto simp: nvic_line_def\<close>)
  moreover have "\<not> irq_count w \<le> irq" "NVIC_USER_IRQ_OFFSET c + unat irq - 1 < length (callback w)"
    using assms calculation(1) by (auto simp: nvic_line_def not_le)
  ultimately show ?thesis
    by (simp add: nvic_set_isr_irq_param_def set_callback_def upd_hw_def)
qed

interpretation nvic: irq_controller "arch_nvic c" "nvic_line c" for c :: "'h cmsis"
proof
  fix irq :: "32 word" and w :: "'h nvic"
  assume line: "nvic_line c irq w"
  have "unat irq < 32768" using line by (simp add: nvic_line_def word_less_nat_alt)
  then show "irq \<noteq> FWK_INTERRUPT_NMI" by (auto simp: FWK_INTERRUPT_NMI_def unsigned_minus_1_eq_mask mask_eq_exp_minus_1)
next
  fix irq :: "32 word" and w :: "'h nvic" and f p
  assume "nvic_line c irq w"
  then show "\<exists>w'. arch_set_isr_irq_param (arch_nvic c) irq f p w = Some (FWK_SUCCESS, w')"
    using set_isr_nvic [of c irq w f p] by (simp add: arch_nvic_def)
qed (auto simp: arch_nvic_def nvic_line_def nvic_clear_pending_def nvic_enable_def upd_hw_def
       nvic_set_isr_irq_param_def set_callback_def bind_Some_iff split: if_splits)

section \<open>Properties\<close>

text \<open>Only the last of the calls for a given line survives the initialisation of the lines.\<close>

lemma nvic_init_result:
  assumes "nvic_init c w = Some (st, w')" and "0 < NVIC_USER_IRQ_OFFSET c" "NVIC_USER_IRQ_OFFSET c \<le> 32768"
  shows "st = FWK_SUCCESS \<and> irq_count w' = (ICTR_INTLINESNUM c (hw w) + 1) * 32 \<and>
    (\<forall>irq < irq_count w'. nvic_line c irq w')"
proof -
  let ?n = "(ICTR_INTLINESNUM c (hw w) + 1) * 32 :: 32 word"
  have n: "unat ?n \<le> 32768" using assms(1) by (auto simp: nvic_init_def Let_def bind_assert_iff)
  have "unat (of_nat (NVIC_USER_IRQ_OFFSET c) + ?n) = NVIC_USER_IRQ_OFFSET c + unat ?n"
    using n assms(3) by (simp add: unat_word_ariths(1) unat_of_nat take_bit_nat_eq_self)
  then show ?thesis
    using assms n by (auto simp: nvic_init_def Let_def bind_assert_iff nvic_line_def)
qed

text \<open>
  C21. Routing of interrupts on M-profile cores. After initialisation, a handler installed with a
  parameter on an implemented line is what the shared handler calls, with that parameter,
  when the processor takes the exception of that line, and the framework then reports that
  line as the current interrupt.
\<close>

theorem isr_param_routed:
  assumes "nvic_init c w0 = Some (st, w)" and "NVIC_USER_IRQ_OFFSET c = 16" and "NonMaskableInt_IRQn c = - 14"
    and "irq < irq_count w"
    and "fwk_interrupt_set_isr_param (arch_nvic c) irq (Some f) p w = Some (st', w')"
    and "get_IPSR c (hw w'') = irq + 16" and "callback w'' = callback w'"
  shows "st = FWK_SUCCESS \<and> st' = FWK_SUCCESS \<and> irq_global c w'' = Some (f, p) \<and>
    fwk_interrupt_get_current (arch_nvic c) (Some x) w'' = (FWK_SUCCESS, Some irq)"
proof -
  have line: "nvic_line c irq w" and st: "st = FWK_SUCCESS" using nvic_init_result [OF assms(1)] assms(2,4) by auto
  have i: "unat irq < 32768" using line by (simp add: nvic_line_def word_less_nat_alt)
  have ipsr: "unat (irq + 16) = unat irq + 16" using i by (simp add: unat_word_ariths)
  have len: "15 + unat irq < length (callback w)" using line assms(2) by (simp add: nvic_line_def word_less_nat_alt)
  have w': "st' = FWK_SUCCESS" "callback w' = (callback w)[15 + unat irq := \<lparr>func = Some f, cb_param = p\<rparr>]"
    using assms(5) set_isr_nvic [OF line] nvic.line_not_nmi [OF line] assms(2)
    by (auto simp: fwk_interrupt_set_isr_param_def arch_nvic_def)
  have "unat (irq + 16 - 1) = 15 + unat irq"
    using i by (simp add: unat_word_ariths)
  then have glob: "irq_global c w'' = Some (f, p)"
    using assms(6,7) w'(2) len by (simp add: irq_global_def Let_def)
  have "y \<noteq> 0" "y \<noteq> 2" "\<not> y < 16" if "16 \<le> unat y" for y :: "32 word"
    using that by (auto simp: word_less_nat_alt)
  from this [of "irq + 16"] show ?thesis
    using ipsr st w'(1) glob assms(2,3,6)
    by (simp add: fwk_interrupt_get_current_def arch_nvic_def nvic_get_current_def Let_def)
qed

text \<open>A processor whose only register is the current exception number.\<close>

definition example_cmsis :: "(32 word) cmsis" where
  "example_cmsis = \<lparr>NVIC_USER_IRQ_OFFSET = 16, NonMaskableInt_IRQn = - 14, fault_IRQns = [- 13, - 12, - 11, - 10],
     NVIC_GetEnableIRQ = (\<lambda>_ _. False), NVIC_EnableIRQ = (\<lambda>_ h. h), NVIC_DisableIRQ = (\<lambda>_ h. h),
     NVIC_GetPendingIRQ = (\<lambda>_ _. False), NVIC_SetPendingIRQ = (\<lambda>_ h. h), NVIC_ClearPendingIRQ = (\<lambda>_ h. h),
     NVIC_SetVector = (\<lambda>_ _ h. h), get_IPSR = (\<lambda>h. h), ICTR_INTLINESNUM = (\<lambda>_. 0),
     install_vector_table = (\<lambda>h. h), enable_faults = (\<lambda>h. h), irq_global_isr = 1, irq_invalid_isr = 2\<rparr>"

definition example_nvic :: "(32 word) nvic" where
  "example_nvic = \<lparr>irq_count = 32, isr_count = 48, callback = replicate 48 \<lparr>func = None, cb_param = 0\<rparr>, hw = 0\<rparr>"

lemma example_nvic_init: "nvic_init example_cmsis example_nvic = Some (FWK_SUCCESS, example_nvic)"
proof -
  have "nvic_init_irq example_cmsis = (\<lambda>_. id)" by (auto simp: nvic_init_irq_def example_cmsis_def fun_eq_iff)
  then have "fold (nvic_init_irq example_cmsis) xs h = h" for xs and h :: "32 word" by (induction xs) simp_all
  then show ?thesis by (simp add: nvic_init_def example_cmsis_def example_nvic_def)
qed

theorem isr_param_routed_witness:
  "\<exists>w'. fwk_interrupt_set_isr_param (arch_nvic example_cmsis) 5 (Some 7) 3 example_nvic = Some (FWK_SUCCESS, w') \<and>
     irq_global example_cmsis (w'\<lparr>hw := 21\<rparr>) = Some (7, 3) \<and>
     fwk_interrupt_get_current (arch_nvic example_cmsis) (Some 0) (w'\<lparr>hw := 21\<rparr>) = (FWK_SUCCESS, Some 5)"
proof -
  have line: "nvic_line example_cmsis 5 example_nvic"
    by (simp add: nvic_line_def example_cmsis_def example_nvic_def)
  obtain w' where w': "fwk_interrupt_set_isr_param (arch_nvic example_cmsis) 5 (Some 7) 3 example_nvic = Some (FWK_SUCCESS, w')"
    using nvic.install_handler [OF line] by blast
  show ?thesis
    using isr_param_routed [OF example_nvic_init, of 5 7 3 FWK_SUCCESS w' "w'\<lparr>hw := 21\<rparr>" 0] w'
    by (simp add: example_cmsis_def example_nvic_def)
qed

text \<open>
  C22. The handler of an unexpected interrupt disables another line. \<^verbatim>\<open>arch_interrupt_irq_invalid\<close>
  hands the exception number of the processor to a function that expects the number of an
  interrupt line. On a controller whose disable operation clears the enable of the line it is given
  and of no other, the enabled line \<open>irq\<close> that raised the interrupt is still enabled when the handler
  returns; line \<open>irq + 16\<close>, where there is one, is now disabled, and no other line changes.
\<close>

theorem spurious_irq_disables_other_line:
  assumes "get_IPSR c (hw w) = irq + 16"
    and "\<And>n j h. NVIC_GetEnableIRQ c j (NVIC_DisableIRQ c n h) \<longleftrightarrow> j \<noteq> n \<and> NVIC_GetEnableIRQ c j h"
    and "fwk_interrupt_is_enabled (arch_nvic c) irq (Some False) w = (FWK_SUCCESS, Some True)"
  shows "fwk_interrupt_is_enabled (arch_nvic c) irq (Some False) (arch_interrupt_irq_invalid c w) = (FWK_SUCCESS, Some True) \<and>
    (irq + 16 < irq_count w \<longrightarrow>
      fwk_interrupt_is_enabled (arch_nvic c) (irq + 16) (Some True) (arch_interrupt_irq_invalid c w) = (FWK_SUCCESS, Some False)) \<and>
    (\<forall>j b. j \<noteq> irq + 16 \<longrightarrow>
      fwk_interrupt_is_enabled (arch_nvic c) j b (arch_interrupt_irq_invalid c w) = fwk_interrupt_is_enabled (arch_nvic c) j b w)"
proof -
  have lines: "irq_count (arch_interrupt_irq_invalid c w) = irq_count w"
    by (simp add: arch_interrupt_irq_invalid_def nvic_disable_def upd_hw_def)
  have enabled: "NVIC_GetEnableIRQ c j (hw (arch_interrupt_irq_invalid c w)) \<longleftrightarrow> j \<noteq> irq + 16 \<and> NVIC_GetEnableIRQ c j (hw w)"
    if "j < irq_count w" for j
    using that assms(1,2) by (auto simp: arch_interrupt_irq_invalid_def nvic_disable_def upd_hw_def)
  have other: "fwk_interrupt_is_enabled (arch_nvic c) j b (arch_interrupt_irq_invalid c w) = fwk_interrupt_is_enabled (arch_nvic c) j b w"
    if "j \<noteq> irq + 16" for j b
    using that enabled [of j] lines
    by (auto simp: fwk_interrupt_is_enabled_def arch_nvic_def nvic_is_enabled_def not_le split: option.splits)
  have "irq \<noteq> irq + 16" by simp
  then have "fwk_interrupt_is_enabled (arch_nvic c) irq (Some False) (arch_interrupt_irq_invalid c w) = (FWK_SUCCESS, Some True)"
    using other assms(3) by metis
  moreover have "fwk_interrupt_is_enabled (arch_nvic c) (irq + 16) (Some True) (arch_interrupt_irq_invalid c w) = (FWK_SUCCESS, Some False)"
    if "irq + 16 < irq_count w"
    using that enabled [OF that] lines by (simp add: fwk_interrupt_is_enabled_def arch_nvic_def nvic_is_enabled_def)
  ultimately show ?thesis using other by blast
qed

text \<open>A processor whose state is its exception number and the enables of its lines.\<close>

definition example_lines :: "(32 word \<times> (32 word \<Rightarrow> bool)) cmsis" where
  "example_lines = \<lparr>NVIC_USER_IRQ_OFFSET = 16, NonMaskableInt_IRQn = - 14, fault_IRQns = [- 13, - 12, - 11, - 10],
     NVIC_GetEnableIRQ = (\<lambda>n h. snd h n), NVIC_EnableIRQ = (\<lambda>n h. (fst h, (snd h)(n := True))),
     NVIC_DisableIRQ = (\<lambda>n h. (fst h, (snd h)(n := False))),
     NVIC_GetPendingIRQ = (\<lambda>_ _. False), NVIC_SetPendingIRQ = (\<lambda>_ h. h), NVIC_ClearPendingIRQ = (\<lambda>_ h. h),
     NVIC_SetVector = (\<lambda>_ _ h. h), get_IPSR = fst, ICTR_INTLINESNUM = (\<lambda>_. 0),
     install_vector_table = (\<lambda>h. h), enable_faults = (\<lambda>h. h), irq_global_isr = 1, irq_invalid_isr = 2\<rparr>"

theorem spurious_irq_disables_other_line_witness:
  "let w = \<lparr>irq_count = 32, isr_count = 48, callback = [], hw = (21, \<lambda>_. True)\<rparr>; w' = arch_interrupt_irq_invalid example_lines w in
     fwk_interrupt_is_enabled (arch_nvic example_lines) 5 (Some False) w' = (FWK_SUCCESS, Some True) \<and>
     fwk_interrupt_is_enabled (arch_nvic example_lines) 21 (Some True) w' = (FWK_SUCCESS, Some False) \<and>
     fwk_interrupt_is_enabled (arch_nvic example_lines) 22 (Some False) w' = (FWK_SUCCESS, Some True)"
proof -
  let ?w = "\<lparr>irq_count = 32, isr_count = 48, callback = [], hw = (21, \<lambda>_. True)\<rparr> :: (32 word \<times> (32 word \<Rightarrow> bool)) nvic"
  have "get_IPSR example_lines (hw ?w) = 5 + 16" by (simp add: example_lines_def)
  moreover have "NVIC_GetEnableIRQ example_lines j (NVIC_DisableIRQ example_lines n h) \<longleftrightarrow> j \<noteq> n \<and> NVIC_GetEnableIRQ example_lines j h" for n j h
    by (simp add: example_lines_def)
  moreover have on: "fwk_interrupt_is_enabled (arch_nvic example_lines) j (Some False) ?w = (FWK_SUCCESS, Some True)" if "j < 32" for j
    using that by (simp add: fwk_interrupt_is_enabled_def arch_nvic_def nvic_is_enabled_def example_lines_def)
  ultimately show ?thesis
    using spurious_irq_disables_other_line [of example_lines ?w 5] on [of 5] on [of 22] by simp
qed

end
