(* ===== verification/Mod_Timer.thy ===== *)
theory Mod_Timer
  imports Fwk_Module Fwk_Interrupt
begin

text \<open>
  The timer module, \<^verbatim>\<open>module/timer/src/mod_timer.c\<close>: time conversions and delays on a timer
  device, and alarms multiplexed on its single comparator through a queue of active alarms
  sorted by expiry time.

  The state \<open>timer_ctx\<close> extends the framework's module state with the module's context table,
  the heap of the list links of its alarm queues, the state \<open>irq_hw\<close> of the interrupt controller
  and the state \<open>dev_hw\<close> of the timer devices. The driver of a device and the alarm callbacks
  are reached through function pointers: they are numbers that the environment \<open>timer_env\<close>
  resolves. A driver works on \<open>dev_hw\<close>; a callback is any function on the whole state.
  Critical sections (the timer's interrupt is disabled around every access to a queue) make
  each operation one step.
\<close>

section \<open>State\<close>

datatype timer_addr = ActiveQ nat | AlarmNode nat nat

record mod_timer_dev_config =
  config_id :: fwk_id
  timer_irq :: "32 word"

record alarm_ctx =
  microseconds :: "32 word"
  timestamp :: "64 word"
  alarm_callback :: "nat option"
  alarm_param :: "32 word"
  periodic :: bool
  activated :: bool
  bound :: bool
  started :: bool

record timer_dev_ctx =
  dev_config :: "mod_timer_dev_config option"
  driver :: "nat option"
  driver_dev_id :: fwk_id
  alarm_pool :: "alarm_ctx list"

record ('d, 'i, 'w) timer_ctx = "'d fwk_module_ctx" +
  timer_heap :: "timer_addr list_heap"
  ctx_table :: "timer_dev_ctx list"
  irq_hw :: 'i
  dev_hw :: 'w

text \<open>The driver interface \<^verbatim>\<open>struct mod_timer_driver_api\<close>. Output values come with the status.\<close>

record 'w timer_driver =
  drv_enable :: "(fwk_id \<Rightarrow> 'w \<Rightarrow> (int \<times> 'w) option) option"
  drv_disable :: "(fwk_id \<Rightarrow> 'w \<Rightarrow> (int \<times> 'w) option) option"
  drv_set_timer :: "(fwk_id \<Rightarrow> 64 word \<Rightarrow> 'w \<Rightarrow> (int \<times> 'w) option) option"
  drv_get_counter :: "(fwk_id \<Rightarrow> 'w \<Rightarrow> ((int \<times> 64 word) \<times> 'w) option) option"
  drv_get_frequency :: "(fwk_id \<Rightarrow> 'w \<Rightarrow> ((int \<times> 32 word) \<times> 'w) option) option"
  drv_overflow_handler :: "(fwk_id \<Rightarrow> 'w \<Rightarrow> (unit \<times> 'w) option) option"

text \<open>
  The environment: build, interrupt controller, drivers and callbacks by address, the meaning
  of configuration data, the module's index, and the addresses of its interrupt handler and of
  its two APIs.
\<close>

record ('s, 'd, 'i, 'w) timer_env =
  env_build :: build
  env_arch :: "'i arch_interrupt"
  env_drivers :: "nat \<Rightarrow> 'w timer_driver"
  env_code :: "nat \<Rightarrow> 32 word \<Rightarrow> 's \<Rightarrow> 's option"
  env_config :: "'d \<Rightarrow> mod_timer_dev_config"
  env_module_idx :: "32 word"
  env_timer_isr :: nat
  env_timer_api :: nat
  env_alarm_api :: nat

type_synonym ('d, 'i, 'w, 'z) tenv = "(('d, 'i, 'w, 'z) timer_ctx_scheme, 'd, 'i, 'w) timer_env"

definition zero_alarm :: alarm_ctx where
  "zero_alarm = \<lparr>microseconds = 0, timestamp = 0, alarm_callback = None, alarm_param = 0, periodic = False,
     activated = False, bound = False, started = False\<rparr>"

definition zero_dev :: timer_dev_ctx where
  "zero_dev = \<lparr>dev_config = None, driver = None, driver_dev_id = 0, alarm_pool = []\<rparr>"

text \<open>Access to the context of a device and of an alarm; beyond the tables, \<open>None\<close>.\<close>

definition get_dev :: "nat \<Rightarrow> ('d, 'i, 'w, 'z) timer_ctx_scheme \<Rightarrow> timer_dev_ctx option" where
  "get_dev d s = (if d < length (ctx_table s) then Some (ctx_table s ! d) else None)"

definition get_alarm :: "nat \<Rightarrow> nat \<Rightarrow> ('d, 'i, 'w, 'z) timer_ctx_scheme \<Rightarrow> alarm_ctx option" where
  "get_alarm d a s =
     do {
       c \<leftarrow> get_dev d s;
       if a < length (alarm_pool c) then Some (alarm_pool c ! a) else None
     }"

definition upd_dev :: "nat \<Rightarrow> (timer_dev_ctx \<Rightarrow> timer_dev_ctx) \<Rightarrow> ('d, 'i, 'w, 'z) timer_ctx_scheme \<Rightarrow> ('d, 'i, 'w, 'z) timer_ctx_scheme" where
  "upd_dev d f s = s\<lparr>ctx_table := (ctx_table s)[d := f (ctx_table s ! d)]\<rparr>"

definition upd_alarm :: "nat \<Rightarrow> nat \<Rightarrow> (alarm_ctx \<Rightarrow> alarm_ctx) \<Rightarrow> ('d, 'i, 'w, 'z) timer_ctx_scheme \<Rightarrow> ('d, 'i, 'w, 'z) timer_ctx_scheme" where
  "upd_alarm d a f = upd_dev d (\<lambda>c. c\<lparr>alarm_pool := (alarm_pool c)[a := f (alarm_pool c ! a)]\<rparr>)"

text \<open>The device a driver identifier or an alarm identifier selects.\<close>

definition dev_index :: "fwk_id \<Rightarrow> ('d, 'i, 'w, 'z) timer_ctx_scheme \<Rightarrow> nat option" where
  "dev_index i s = do { e \<leftarrow> fwk_id_get_element_idx i; get_dev (unat e) s; Some (unat e) }"

definition alarm_index :: "fwk_id \<Rightarrow> ('d, 'i, 'w, 'z) timer_ctx_scheme \<Rightarrow> (nat \<times> nat) option" where
  "alarm_index i s =
     do { d \<leftarrow> dev_index i s; e \<leftarrow> fwk_id_get_sub_element_idx i; get_alarm d (unat e) s; Some (d, unat e) }"

text \<open>A call through the driver of a device.\<close>

definition call_driver ::
  "('d, 'i, 'w, 'z) tenv \<Rightarrow> nat \<Rightarrow> ('w timer_driver \<Rightarrow> (fwk_id \<Rightarrow> 'w \<Rightarrow> ('r \<times> 'w) option) option) \<Rightarrow>
   ('d, 'i, 'w, 'z) timer_ctx_scheme \<Rightarrow> ('r \<times> ('d, 'i, 'w, 'z) timer_ctx_scheme) option" where
  "call_driver env d sel s =
     do {
       c \<leftarrow> get_dev d s;
       p \<leftarrow> driver c;
       f \<leftarrow> sel (env_drivers env p);
       (r, w) \<leftarrow> f (driver_dev_id c) (dev_hw s);
       Some (r, s\<lparr>dev_hw := w\<rparr>)
     }"

definition get_irq :: "nat \<Rightarrow> ('d, 'i, 'w, 'z) timer_ctx_scheme \<Rightarrow> 32 word option" where
  "get_irq d s = do { c \<leftarrow> get_dev d s; map_option timer_irq (dev_config c) }"

section \<open>Internal functions\<close>

text \<open>The functions whose names start with an underscore in the source end in \<open>_ctx\<close> here.\<close>

definition time_to_timestamp_ctx ::
  "('d, 'i, 'w, 'z) tenv \<Rightarrow> nat \<Rightarrow> 32 word \<Rightarrow> 64 word \<Rightarrow> ('d, 'i, 'w, 'z) timer_ctx_scheme \<Rightarrow>
   ((int \<times> 64 word) \<times> ('d, 'i, 'w, 'z) timer_ctx_scheme) option" where
  "time_to_timestamp_ctx env d us ts s =
     do {
       ((status, frequency), s) \<leftarrow> call_driver env d drv_get_frequency s;
       Some (if status \<noteq> FWK_SUCCESS then (status, ts) else (FWK_SUCCESS, (ucast frequency * ucast us) div 1000000), s)
     }"

definition timestamp_from_now_ctx ::
  "('d, 'i, 'w, 'z) tenv \<Rightarrow> nat \<Rightarrow> 32 word \<Rightarrow> 64 word \<Rightarrow> ('d, 'i, 'w, 'z) timer_ctx_scheme \<Rightarrow>
   ((int \<times> 64 word) \<times> ('d, 'i, 'w, 'z) timer_ctx_scheme) option" where
  "timestamp_from_now_ctx env d us ts s =
     do {
       ((status, ts), s) \<leftarrow> time_to_timestamp_ctx env d us ts s;
       if status \<noteq> FWK_SUCCESS then Some ((status, ts), s)
       else do {
         ((status, counter), s) \<leftarrow> call_driver env d drv_get_counter s;
         Some (if status \<noteq> FWK_SUCCESS then (status, ts) else (FWK_SUCCESS, ts + counter), s)
       }
     }"

definition remaining_ctx ::
  "('d, 'i, 'w, 'z) tenv \<Rightarrow> nat \<Rightarrow> 64 word \<Rightarrow> 64 word \<Rightarrow> ('d, 'i, 'w, 'z) timer_ctx_scheme \<Rightarrow>
   ((int \<times> 64 word) \<times> ('d, 'i, 'w, 'z) timer_ctx_scheme) option" where
  "remaining_ctx env d ts remaining_ticks s =
     do {
       ((status, counter), s) \<leftarrow> call_driver env d drv_get_counter s;
       ok \<leftarrow> fwk_expect (env_build env) (status = FWK_SUCCESS);
       Some (if \<not> ok then (status, remaining_ticks) else (FWK_SUCCESS, if ts < counter then 0 else ts - counter), s)
     }"

text \<open>The alarm whose list node is \<open>nd\<close>: the node is the first member of the structure.\<close>

fun alarm_of :: "timer_addr \<Rightarrow> (nat \<times> nat) option" where
  "alarm_of (AlarmNode d a) = Some (d, a)"
| "alarm_of _ = None"

definition node_alarm :: "timer_addr \<Rightarrow> ('d, 'i, 'w, 'z) timer_ctx_scheme \<Rightarrow> alarm_ctx option" where
  "node_alarm nd s = do { (d, a) \<leftarrow> alarm_of nd; get_alarm d a s }"

definition configure_timer_with_next_alarm ::
  "('d, 'i, 'w, 'z) tenv \<Rightarrow> nat \<Rightarrow> ('d, 'i, 'w, 'z) timer_ctx_scheme \<Rightarrow> ('d, 'i, 'w, 'z) timer_ctx_scheme option" where
  "configure_timer_with_next_alarm env d s =
     do {
       alarm_head \<leftarrow> fwk_slist_head (ActiveQ d) (timer_heap s);
       (case alarm_head of
          None \<Rightarrow> Some s
        | Some nd \<Rightarrow> do {
            alarm \<leftarrow> node_alarm nd s;
            (status, s) \<leftarrow> call_driver env d (\<lambda>drv. map_option (\<lambda>f i. f i (timestamp alarm)) (drv_set_timer drv)) s;
            (status, s) \<leftarrow> call_driver env d drv_enable s;
            Some s
          })
     }"

text \<open>The search for the first active alarm that does not expire before the new one.\<close>

partial_function (option) insert_position ::
  "nat \<Rightarrow> 64 word \<Rightarrow> timer_addr option \<Rightarrow> ('d, 'i, 'w, 'z) timer_ctx_scheme \<Rightarrow> timer_addr option option" where
  "insert_position d ts alarm_node s =
     (case alarm_node of
        None \<Rightarrow> Some None
      | Some nd \<Rightarrow> Option.bind (node_alarm nd s) (\<lambda>alarm.
          if ts > timestamp alarm
          then Option.bind (fwk_slist_next (ActiveQ d) nd (timer_heap s)) (\<lambda>nxt. insert_position d ts nxt s)
          else Some (Some nd)))"

text \<open>The alarm is number \<open>a\<close> of the pool of device \<open>e\<close>; the callers pass an alarm of \<open>d\<close> itself.\<close>

definition insert_alarm_ctx_into_active_queue ::
  "('d, 'i, 'w, 'z) tenv \<Rightarrow> nat \<Rightarrow> nat \<Rightarrow> nat \<Rightarrow> ('d, 'i, 'w, 'z) timer_ctx_scheme \<Rightarrow> ('d, 'i, 'w, 'z) timer_ctx_scheme option" where
  "insert_alarm_ctx_into_active_queue env d e a s =
     do {
       alarm_new \<leftarrow> get_alarm e a s;
       first \<leftarrow> fwk_slist_head (ActiveQ d) (timer_heap s);
       alarm_node \<leftarrow> insert_position d (timestamp alarm_new) first s;
       h \<leftarrow> fwk_dlist_insert (env_build env) (ActiveQ d) (AlarmNode e a) alarm_node (timer_heap s);
       Some (upd_alarm e a (\<lambda>x. x\<lparr>activated := True\<rparr>) (s\<lparr>timer_heap := h\<rparr>))
     }"

section \<open>The timer API\<close>

definition get_frequency ::
  "('d, 'i, 'w, 'z) tenv \<Rightarrow> fwk_id \<Rightarrow> 32 word option \<Rightarrow> ('d, 'i, 'w, 'z) timer_ctx_scheme \<Rightarrow>
   ((int \<times> 32 word option) \<times> ('d, 'i, 'w, 'z) timer_ctx_scheme) option" where
  "get_frequency env dev_id frequency s =
     do {
       d \<leftarrow> dev_index dev_id s;
       (case frequency of
          None \<Rightarrow> Some ((FWK_E_PARAM, None), s)
        | Some _ \<Rightarrow> do { ((status, f), s) \<leftarrow> call_driver env d drv_get_frequency s; Some ((status, Some f), s) })
     }"

definition time_to_timestamp ::
  "('d, 'i, 'w, 'z) tenv \<Rightarrow> fwk_id \<Rightarrow> 32 word \<Rightarrow> 64 word option \<Rightarrow> ('d, 'i, 'w, 'z) timer_ctx_scheme \<Rightarrow>
   ((int \<times> 64 word option) \<times> ('d, 'i, 'w, 'z) timer_ctx_scheme) option" where
  "time_to_timestamp env dev_id us ts s =
     (case ts of
        None \<Rightarrow> Some ((FWK_E_PARAM, None), s)
      | Some t \<Rightarrow> do {
          d \<leftarrow> dev_index dev_id s;
          ((status, t), s) \<leftarrow> time_to_timestamp_ctx env d us t s;
          Some ((status, Some t), s)
        })"

definition get_counter ::
  "('d, 'i, 'w, 'z) tenv \<Rightarrow> fwk_id \<Rightarrow> 64 word option \<Rightarrow> ('d, 'i, 'w, 'z) timer_ctx_scheme \<Rightarrow>
   ((int \<times> 64 word option) \<times> ('d, 'i, 'w, 'z) timer_ctx_scheme) option" where
  "get_counter env dev_id counter s =
     do {
       d \<leftarrow> dev_index dev_id s;
       (case counter of
          None \<Rightarrow> Some ((FWK_E_PARAM, None), s)
        | Some _ \<Rightarrow> do { ((status, c), s) \<leftarrow> call_driver env d drv_get_counter s; Some ((status, Some c), s) })
     }"

text \<open>The polling loops of \<^verbatim>\<open>delay\<close> and \<^verbatim>\<open>wait\<close>; they end only if the counter advances.\<close>

partial_function (option) delay_loop ::
  "('d, 'i, 'w, 'z) tenv \<Rightarrow> nat \<Rightarrow> 64 word \<Rightarrow> ('d, 'i, 'w, 'z) timer_ctx_scheme \<Rightarrow>
   (int \<times> ('d, 'i, 'w, 'z) timer_ctx_scheme) option" where
  "delay_loop env d counter_limit s =
     Option.bind (call_driver env d drv_get_counter s) (\<lambda>((status, counter), s).
       if status \<noteq> FWK_SUCCESS then Some (status, s)
       else if counter < counter_limit then delay_loop env d counter_limit s
       else Some (FWK_SUCCESS, s))"

definition delay ::
  "('d, 'i, 'w, 'z) tenv \<Rightarrow> fwk_id \<Rightarrow> 32 word \<Rightarrow> ('d, 'i, 'w, 'z) timer_ctx_scheme \<Rightarrow>
   (int \<times> ('d, 'i, 'w, 'z) timer_ctx_scheme) option" where
  "delay env dev_id us s =
     do {
       d \<leftarrow> dev_index dev_id s;
       ((status, counter_limit), s) \<leftarrow> timestamp_from_now_ctx env d us 0 s;
       if status \<noteq> FWK_SUCCESS then Some (status, s) else delay_loop env d counter_limit s
     }"

partial_function (option) wait_loop ::
  "('d, 'i, 'w, 'z) tenv \<Rightarrow> nat \<Rightarrow> 64 word \<Rightarrow>
   (('d, 'i, 'w, 'z) timer_ctx_scheme \<Rightarrow> (bool \<times> ('d, 'i, 'w, 'z) timer_ctx_scheme) option) \<Rightarrow>
   ('d, 'i, 'w, 'z) timer_ctx_scheme \<Rightarrow> (int \<times> ('d, 'i, 'w, 'z) timer_ctx_scheme) option" where
  "wait_loop env d counter_limit cond s =
     Option.bind (cond s) (\<lambda>(met, s).
       if met then Some (FWK_SUCCESS, s)
       else Option.bind (call_driver env d drv_get_counter s) (\<lambda>((status, counter), s).
         if status \<noteq> FWK_SUCCESS then Some (FWK_E_DEVICE, s)
         else if counter > counter_limit
         then Option.bind (cond s) (\<lambda>(met, s). Some (if met then FWK_SUCCESS else FWK_E_TIMEOUT, s))
         else wait_loop env d counter_limit cond s))"

definition wait ::
  "('d, 'i, 'w, 'z) tenv \<Rightarrow> fwk_id \<Rightarrow> 32 word \<Rightarrow>
   (('d, 'i, 'w, 'z) timer_ctx_scheme \<Rightarrow> (bool \<times> ('d, 'i, 'w, 'z) timer_ctx_scheme) option) \<Rightarrow>
   ('d, 'i, 'w, 'z) timer_ctx_scheme \<Rightarrow> (int \<times> ('d, 'i, 'w, 'z) timer_ctx_scheme) option" where
  "wait env dev_id us cond s =
     do {
       d \<leftarrow> dev_index dev_id s;
       ((status, counter_limit), s) \<leftarrow> timestamp_from_now_ctx env d us 0 s;
       if status \<noteq> FWK_SUCCESS then Some (status, s) else wait_loop env d counter_limit cond s
     }"

definition remaining ::
  "('d, 'i, 'w, 'z) tenv \<Rightarrow> fwk_id \<Rightarrow> 64 word \<Rightarrow> 64 word option \<Rightarrow> ('d, 'i, 'w, 'z) timer_ctx_scheme \<Rightarrow>
   ((int \<times> 64 word option) \<times> ('d, 'i, 'w, 'z) timer_ctx_scheme) option" where
  "remaining env dev_id ts remaining_ticks s =
     do {
       d \<leftarrow> dev_index dev_id s;
       (case remaining_ticks of
          None \<Rightarrow> Some ((FWK_E_PARAM, None), s)
        | Some r \<Rightarrow> do { ((status, r), s) \<leftarrow> remaining_ctx env d ts r s; Some ((status, Some r), s) })
     }"

text \<open>The outputs \<^verbatim>\<open>has_alarm\<close> and \<^verbatim>\<open>remaining_ticks\<close> are the two options.\<close>

definition get_next_alarm_remaining ::
  "('d, 'i, 'w, 'z) tenv \<Rightarrow> fwk_id \<Rightarrow> bool option \<Rightarrow> 64 word option \<Rightarrow> ('d, 'i, 'w, 'z) timer_ctx_scheme \<Rightarrow>
   ((int \<times> bool option \<times> 64 word option) \<times> ('d, 'i, 'w, 'z) timer_ctx_scheme) option" where
  "get_next_alarm_remaining env dev_id has_alarm remaining_ticks s =
     (case has_alarm of
        None \<Rightarrow> Some ((FWK_E_PARAM, None, remaining_ticks), s)
      | Some h \<Rightarrow> (case remaining_ticks of
        None \<Rightarrow> Some ((FWK_E_PARAM, Some h, None), s)
      | Some r \<Rightarrow> do {
          d \<leftarrow> dev_index dev_id s;
          (status, s) \<leftarrow> call_driver env d drv_disable s;
          if status \<noteq> FWK_SUCCESS then Some ((FWK_E_DEVICE, Some h, Some r), s)
          else do {
            empty \<leftarrow> fwk_slist_is_empty (ActiveQ d) (timer_heap s);
            ((exit_status, r), s) \<leftarrow>
              (if \<not> empty
               then do {
                 node \<leftarrow> fwk_slist_head (ActiveQ d) (timer_heap s);
                 nd \<leftarrow> node;
                 alarm \<leftarrow> node_alarm nd s;
                 remaining_ctx env d (timestamp alarm) r s
               }
               else Some ((FWK_E_PARAM, r), s));
            (status, s) \<leftarrow> call_driver env d drv_enable s;
            Some ((if status \<noteq> FWK_SUCCESS then FWK_E_DEVICE else exit_status, Some (\<not> empty), Some r), s)
          }
        }))"

section \<open>The alarm API\<close>

text \<open>
  Alarms may be stopped by thread code and by the handler of their own timer's interrupt, and by
  no other interrupt handler.
\<close>

definition stop_allowed :: "('d, 'i, 'w, 'z) tenv \<Rightarrow> nat \<Rightarrow> ('d, 'i, 'w, 'z) timer_ctx_scheme \<Rightarrow> bool option" where
  "stop_allowed env d s =
     (case fwk_interrupt_get_current (env_arch env) (Some 0) (irq_hw s) of
        (status, interrupt) \<Rightarrow>
          if status = FWK_E_STATE then Some True
          else if status = FWK_SUCCESS then do { irq \<leftarrow> get_irq d s; Some (interrupt = Some irq) }
          else Some False)"

text \<open>
  \<^verbatim>\<open>alarm_stop\<close> in two parts: what it does with an alarm that is started, and the whole function.
\<close>

definition stop_started_alarm ::
  "('d, 'i, 'w, 'z) tenv \<Rightarrow> nat \<Rightarrow> nat \<Rightarrow> ('d, 'i, 'w, 'z) timer_ctx_scheme \<Rightarrow> (int \<times> ('d, 'i, 'w, 'z) timer_ctx_scheme) option" where
  "stop_started_alarm env d a s =
     do {
       let s = upd_alarm d a (\<lambda>x. x\<lparr>started := False\<rparr>) s;
       alarm \<leftarrow> get_alarm d a s;
       if \<not> activated alarm then Some (FWK_SUCCESS, s)
       else do {
         irq \<leftarrow> get_irq d s;
         let (status, i) = fwk_interrupt_clear_pending (env_arch env) irq (irq_hw s);
         let s = s\<lparr>irq_hw := i\<rparr>;
         if status \<noteq> FWK_SUCCESS then Some (status, s)
         else do {
           h \<leftarrow> fwk_dlist_remove (env_build env) (ActiveQ d) (AlarmNode d a) (timer_heap s);
           let s = upd_alarm d a (\<lambda>x. x\<lparr>activated := False\<rparr>) (s\<lparr>timer_heap := h\<rparr>);
           s \<leftarrow> configure_timer_with_next_alarm env d s;
           Some (FWK_SUCCESS, s)
         }
       }
     }"

definition alarm_stop ::
  "('d, 'i, 'w, 'z) tenv \<Rightarrow> (('d, 'i, 'w, 'z) timer_ctx_scheme, 'd) fwk_image \<Rightarrow> fwk_id \<Rightarrow>
   ('d, 'i, 'w, 'z) timer_ctx_scheme \<Rightarrow> (int \<times> ('d, 'i, 'w, 'z) timer_ctx_scheme) option" where
  "alarm_stop env im alarm_id s =
     do {
       v \<leftarrow> fwk_module_is_valid_sub_element_id im alarm_id s;
       fwk_assert v;
       d \<leftarrow> dev_index alarm_id s;
       allowed \<leftarrow> stop_allowed env d s;
       if \<not> allowed then Some (FWK_E_ACCESS, s)
       else do {
         (_, a) \<leftarrow> alarm_index alarm_id s;
         (status, s) \<leftarrow> call_driver env d drv_disable s;
         if status \<noteq> FWK_SUCCESS then Some (FWK_E_DEVICE, s)
         else do {
           alarm \<leftarrow> get_alarm d a s;
           if \<not> started alarm
           then do {
             (status, s) \<leftarrow> call_driver env d drv_enable s;
             Some (if status \<noteq> FWK_SUCCESS then FWK_E_DEVICE else FWK_E_STATE, s)
           }
           else stop_started_alarm env d a s
         }
       }
     }"

datatype mod_timer_alarm_type = MOD_TIMER_ALARM_TYPE_ONCE | MOD_TIMER_ALARM_TYPE_PERIODIC

text \<open>\<^verbatim>\<open>alarm_start\<close> in two parts: what it does once the alarm is stopped, and the whole function.\<close>

definition start_stopped_alarm ::
  "('d, 'i, 'w, 'z) tenv \<Rightarrow> nat \<Rightarrow> nat \<Rightarrow> 32 word \<Rightarrow> mod_timer_alarm_type \<Rightarrow> nat option \<Rightarrow> 32 word \<Rightarrow>
   ('d, 'i, 'w, 'z) timer_ctx_scheme \<Rightarrow> (int \<times> ('d, 'i, 'w, 'z) timer_ctx_scheme) option" where
  "start_stopped_alarm env d a us type cb param s =
     do {
       let s = upd_alarm d a (\<lambda>x. x\<lparr>microseconds := us, alarm_callback := cb, alarm_param := param,
         periodic := (type = MOD_TIMER_ALARM_TYPE_PERIODIC), started := True\<rparr>) s;
       alarm \<leftarrow> get_alarm d a s;
       ((status, ts), s) \<leftarrow> timestamp_from_now_ctx env d us (timestamp alarm) s;
       let s = upd_alarm d a (\<lambda>x. x\<lparr>timestamp := ts\<rparr>) s;
       if status \<noteq> FWK_SUCCESS then Some (status, s)
       else do {
         (status, s) \<leftarrow> call_driver env d drv_disable s;
         if status \<noteq> FWK_SUCCESS then Some (FWK_E_DEVICE, s)
         else do {
           s \<leftarrow> insert_alarm_ctx_into_active_queue env d d a s;
           s \<leftarrow> configure_timer_with_next_alarm env d s;
           Some (FWK_SUCCESS, s)
         }
       }
     }"

definition alarm_start ::
  "('d, 'i, 'w, 'z) tenv \<Rightarrow> (('d, 'i, 'w, 'z) timer_ctx_scheme, 'd) fwk_image \<Rightarrow> fwk_id \<Rightarrow> 32 word \<Rightarrow>
   mod_timer_alarm_type \<Rightarrow> nat option \<Rightarrow> 32 word \<Rightarrow> ('d, 'i, 'w, 'z) timer_ctx_scheme \<Rightarrow>
   (int \<times> ('d, 'i, 'w, 'z) timer_ctx_scheme) option" where
  "alarm_start env im alarm_id us type cb param s =
     do {
       v \<leftarrow> fwk_module_is_valid_sub_element_id im alarm_id s;
       fwk_assert v;
       if fst (fwk_interrupt_get_current (env_arch env) (Some 0) (irq_hw s)) \<noteq> FWK_E_STATE
       then Some (FWK_E_ACCESS, s)
       else do {
         (d, a) \<leftarrow> alarm_index alarm_id s;
         alarm \<leftarrow> get_alarm d a s;
         (status, s) \<leftarrow> (if started alarm then alarm_stop env im alarm_id s else Some (FWK_SUCCESS, s));
         if status \<noteq> FWK_SUCCESS then Some (status, s)
         else start_stopped_alarm env d a us type cb param s
       }
     }"

section \<open>The interrupt handler\<close>

text \<open>
  What the handler does with the alarm it took off the queue, once the callback has returned.
\<close>

definition requeue_periodic ::
  "('d, 'i, 'w, 'z) tenv \<Rightarrow> nat \<Rightarrow> nat \<Rightarrow> nat \<Rightarrow> ('d, 'i, 'w, 'z) timer_ctx_scheme \<Rightarrow> ('d, 'i, 'w, 'z) timer_ctx_scheme option" where
  "requeue_periodic env d e a s =
     do {
       alarm \<leftarrow> get_alarm e a s;
       if periodic alarm \<and> started alarm
       then do {
         ((status, ts), s) \<leftarrow> time_to_timestamp_ctx env d (microseconds alarm) 0 s;
         if status = FWK_SUCCESS
         then insert_alarm_ctx_into_active_queue env d e a (upd_alarm e a (\<lambda>x. x\<lparr>timestamp := timestamp x + ts\<rparr>) s)
         else Some s
       }
       else Some s
     }"

text \<open>An interrupt with no active alarm, and one with an alarm at the head of the queue.\<close>

definition isr_without_alarm ::
  "('d, 'i, 'w, 'z) tenv \<Rightarrow> nat \<Rightarrow> ('d, 'i, 'w, 'z) timer_ctx_scheme \<Rightarrow> ('d, 'i, 'w, 'z) timer_ctx_scheme option" where
  "isr_without_alarm env d s =
     do {
       c \<leftarrow> get_dev d s;
       p \<leftarrow> driver c;
       (if drv_overflow_handler (env_drivers env p) \<noteq> None
        then do { (_, s) \<leftarrow> call_driver env d drv_overflow_handler s; Some s }
        else do { fwk_unexpected (env_build env); Some s })
     }"

definition fire_alarm ::
  "('d, 'i, 'w, 'z) tenv \<Rightarrow> nat \<Rightarrow> timer_addr \<Rightarrow> ('d, 'i, 'w, 'z) timer_ctx_scheme \<Rightarrow> ('d, 'i, 'w, 'z) timer_ctx_scheme option" where
  "fire_alarm env d nd s =
     do {
       (e, a) \<leftarrow> alarm_of nd;
       alarm \<leftarrow> get_alarm e a s;
       let s = upd_alarm e a (\<lambda>x. x\<lparr>activated := False\<rparr>) s;
       cb \<leftarrow> alarm_callback alarm;
       s \<leftarrow> env_code env cb (alarm_param alarm) s;
       s \<leftarrow> requeue_periodic env d e a s;
       configure_timer_with_next_alarm env d s
     }"

definition timer_isr ::
  "('d, 'i, 'w, 'z) tenv \<Rightarrow> nat \<Rightarrow> ('d, 'i, 'w, 'z) timer_ctx_scheme \<Rightarrow> ('d, 'i, 'w, 'z) timer_ctx_scheme option" where
  "timer_isr env d s =
     do {
       (status, s) \<leftarrow> call_driver env d drv_disable s;
       irq \<leftarrow> get_irq d s;
       let s = s\<lparr>irq_hw := snd (fwk_interrupt_clear_pending (env_arch env) irq (irq_hw s))\<rparr>;
       (popped, h) \<leftarrow> fwk_dlist_pop_head (env_build env) (ActiveQ d) (timer_heap s);
       let s = s\<lparr>timer_heap := h\<rparr>;
       (case popped of
          None \<Rightarrow> isr_without_alarm env d s
        | Some nd \<Rightarrow> fire_alarm env d nd s)
     }"

section \<open>The module interface\<close>

text \<open>Zeroed memory: the links of the headers and of the alarms of a new table are null.\<close>

definition zero_links :: "(timer_addr \<Rightarrow> bool) \<Rightarrow> timer_addr list_heap \<Rightarrow> timer_addr list_heap" where
  "zero_links P h = h\<lparr>next_of := (\<lambda>p. if P p then None else next_of h p), prev_of := (\<lambda>p. if P p then None else prev_of h p)\<rparr>"

definition timer_init ::
  "(('d, 'i, 'w, 'z) timer_ctx_scheme, 'd) fwk_image \<Rightarrow> fwk_id \<Rightarrow> nat \<Rightarrow> 'd option \<Rightarrow> ('d, 'i, 'w, 'z) timer_ctx_scheme \<Rightarrow>
   (int \<times> ('d, 'i, 'w, 'z) timer_ctx_scheme) option" where
  "timer_init im module_id elements data s =
     do {
       s \<leftarrow> fwk_mm_calloc im elements s;
       Some (FWK_SUCCESS, s\<lparr>timer_heap := zero_links (\<lambda>p. case p of ActiveQ d \<Rightarrow> d < elements | _ \<Rightarrow> False) (timer_heap s),
         ctx_table := replicate elements zero_dev\<rparr>)
     }"

definition timer_device_init ::
  "('d, 'i, 'w, 'z) tenv \<Rightarrow> (('d, 'i, 'w, 'z) timer_ctx_scheme, 'd) fwk_image \<Rightarrow> fwk_id \<Rightarrow> nat \<Rightarrow> 'd \<Rightarrow> ('d, 'i, 'w, 'z) timer_ctx_scheme \<Rightarrow>
   (int \<times> ('d, 'i, 'w, 'z) timer_ctx_scheme) option" where
  "timer_device_init env im element_id alarm_count data s =
     do {
       d \<leftarrow> dev_index element_id s;
       let s = upd_dev d (\<lambda>c. c\<lparr>dev_config := Some (env_config env data)\<rparr>) s;
       s \<leftarrow> (if alarm_count > 0
             then do {
               s \<leftarrow> fwk_mm_calloc im alarm_count s;
               Some (upd_dev d (\<lambda>c. c\<lparr>alarm_pool := replicate alarm_count zero_alarm\<rparr>)
                 (s\<lparr>timer_heap := zero_links (\<lambda>p. case p of AlarmNode e a \<Rightarrow> e = d \<and> a < alarm_count | _ \<Rightarrow> False) (timer_heap s)\<rparr>))
             }
             else Some s);
       Some (FWK_SUCCESS, s)
     }"

definition timer_bind ::
  "('d, 'i, 'w, 'z) tenv \<Rightarrow> (('d, 'i, 'w, 'z) timer_ctx_scheme, 'd) fwk_image \<Rightarrow> fwk_id \<Rightarrow> nat \<Rightarrow> ('d, 'i, 'w, 'z) timer_ctx_scheme \<Rightarrow>
   (int \<times> ('d, 'i, 'w, 'z) timer_ctx_scheme) option" where
  "timer_bind env im i round s =
     (if round > 0 then Some (FWK_SUCCESS, s)
      else do {
        is_mod \<leftarrow> fwk_id_is_type i FWK_ID_TYPE_MODULE;
        if is_mod then Some (FWK_SUCCESS, s)
        else do {
          d \<leftarrow> dev_index i s;
          c \<leftarrow> get_dev d s;
          config \<leftarrow> dev_config c;
          let s = upd_dev d (\<lambda>c. c\<lparr>driver_dev_id := config_id config\<rparr>) s;
          driver_module_idx \<leftarrow> fwk_id_get_module_idx (config_id config);
          (status, api, s) \<leftarrow> fwk_module_bind im (config_id config) (FWK_ID_API driver_module_idx 0) (Some None) s;
          if status \<noteq> FWK_SUCCESS then Some (status, s)
          else do {
            p \<leftarrow> Option.bind api id;
            let drv = env_drivers env p;
            if drv_enable drv = None \<or> drv_disable drv = None \<or> drv_get_counter drv = None \<or> drv_get_frequency drv = None
            then Some (FWK_E_DEVICE, s)
            else Some (FWK_SUCCESS, upd_dev d (\<lambda>c. c\<lparr>driver := Some p\<rparr>) s)
          }
        }
      })"

definition timer_process_bind_request ::
  "('d, 'i, 'w, 'z) tenv \<Rightarrow> (('d, 'i, 'w, 'z) timer_ctx_scheme, 'd) fwk_image \<Rightarrow> fwk_id \<Rightarrow> fwk_id \<Rightarrow> fwk_id \<Rightarrow> nat option \<Rightarrow>
   ('d, 'i, 'w, 'z) timer_ctx_scheme \<Rightarrow> (int \<times> nat option \<times> ('d, 'i, 'w, 'z) timer_ctx_scheme) option" where
  "timer_process_bind_request env im requester_id i api_id api s =
     do {
       is_timer \<leftarrow> fwk_id_is_equal api_id (FWK_ID_API (env_module_idx env) 0);
       if is_timer
       then do {
         v \<leftarrow> fwk_module_is_valid_element_id im i s;
         if \<not> v then do { fwk_unexpected (env_build env); Some (FWK_E_PARAM, api, s) }
         else Some (FWK_SUCCESS, Some (env_timer_api env), s)
       }
       else do {
         v \<leftarrow> fwk_module_is_valid_sub_element_id im i s;
         if \<not> v then do { fwk_unexpected (env_build env); Some (FWK_E_PARAM, api, s) }
         else do {
           (d, a) \<leftarrow> alarm_index i s;
           alarm \<leftarrow> get_alarm d a s;
           if bound alarm then do { fwk_unexpected (env_build env); Some (FWK_E_STATE, api, s) }
           else Some (FWK_SUCCESS, Some (env_alarm_api env), upd_alarm d a (\<lambda>x. x\<lparr>bound := True\<rparr>) s)
         }
       }
     }"

definition timer_start ::
  "('d, 'i, 'w, 'z) tenv \<Rightarrow> (('d, 'i, 'w, 'z) timer_ctx_scheme, 'd) fwk_image \<Rightarrow> fwk_id \<Rightarrow> ('d, 'i, 'w, 'z) timer_ctx_scheme \<Rightarrow>
   (int \<times> ('d, 'i, 'w, 'z) timer_ctx_scheme) option" where
  "timer_start env im i s =
     do {
       v \<leftarrow> fwk_module_is_valid_element_id im i s;
       if \<not> v then Some (FWK_SUCCESS, s)
       else do {
         d \<leftarrow> dev_index i s;
         let s = s\<lparr>timer_heap := fwk_slist_init (env_build env) (ActiveQ d) (timer_heap s)\<rparr>;
         irq \<leftarrow> get_irq d s;
         (status, i') \<leftarrow> fwk_interrupt_set_isr_param (env_arch env) irq (Some (env_timer_isr env)) (of_nat d) (irq_hw s);
         let s = s\<lparr>irq_hw := i'\<rparr>;
         if status \<noteq> FWK_SUCCESS then Some (status, s)
         else (let (status, i') = fwk_interrupt_enable (env_arch env) irq (irq_hw s) in Some (status, s\<lparr>irq_hw := i'\<rparr>))
       }
     }"

definition module_timer ::
  "('d, 'i, 'w, 'z) tenv \<Rightarrow> (('d, 'i, 'w, 'z) timer_ctx_scheme, 'd) fwk_image \<Rightarrow> (('d, 'i, 'w, 'z) timer_ctx_scheme, 'd) fwk_module" where
  "module_timer env im =
     \<lparr>mod_type = 0, api_count = 2, event_count = 0, notification_count = 0,
      cb_init = Some (timer_init im), cb_element_init = Some (timer_device_init env im), cb_post_init = None,
      cb_bind = Some (timer_bind env im), cb_start = Some (timer_start env im), cb_stop = None,
      cb_process_bind_request = Some (timer_process_bind_request env im),
      cb_process_event = None, cb_process_notification = None\<rparr>"

end
