(* ===== verification/Mod_Alarm.thy ===== *)
theory Mod_Alarm
  imports Mod_Timer
begin

text \<open>
  The alarm queues of the timer module: what the active queue of a device represents, how each
  operation of \<open>Mod_Timer\<close> changes it, the invariant of all queues, and two interfaces. The locale
  \<open>alarm_service\<close> is the timer module over an interrupt controller that keeps its lines and callbacks
  that only use the alarm interface; in it every run of calls and interrupts keeps the invariant. The
  locale \<open>timer_device\<close> is what the module relies on in a driver whose counter runs; in it an
  alarm that is started is armed and the busy waits end.
\<close>

section \<open>What a queue of active alarms represents\<close>

abbreviation pool_of :: "('d, 'i, 'w, 'z) timer_ctx_scheme \<Rightarrow> nat \<Rightarrow> alarm_ctx list" where
  "pool_of s d \<equiv> alarm_pool (ctx_table s ! d)"

abbreviation expiry :: "('d, 'i, 'w, 'z) timer_ctx_scheme \<Rightarrow> nat \<Rightarrow> nat \<Rightarrow> 64 word" where
  "expiry s d a \<equiv> timestamp (pool_of s d ! a)"

text \<open>
  \<open>alarm_queue s d xs\<close>: the queue of device \<open>d\<close> holds the alarms \<open>xs\<close>, in the order of their
  expiry times; they are the alarms marked as activated, all of them are started, and the
  nodes of the others are on no list.
\<close>

definition alarm_queue :: "('d, 'i, 'w, 'z) timer_ctx_scheme \<Rightarrow> nat \<Rightarrow> nat list \<Rightarrow> bool" where
  "alarm_queue s d xs \<longleftrightarrow>
     d < length (ctx_table s) \<and>
     dlist_rep (timer_heap s) (ActiveQ d) (map (AlarmNode d) xs) \<and>
     set xs = {a. a < length (pool_of s d) \<and> activated (pool_of s d ! a)} \<and>
     sorted (map (expiry s d) xs) \<and>
     (\<forall>a \<in> set xs. started (pool_of s d ! a)) \<and>
     (\<forall>a < length (pool_of s d). a \<notin> set xs \<longrightarrow> dlist_detached (timer_heap s) (AlarmNode d a))"

lemma alarm_queueD:
  assumes "alarm_queue s d xs"
  shows "d < length (ctx_table s)" "dlist_rep (timer_heap s) (ActiveQ d) (map (AlarmNode d) xs)"
    "sorted (map (expiry s d) xs)" "distinct xs"
    "a \<in> set xs \<Longrightarrow> a < length (pool_of s d) \<and> activated (pool_of s d ! a) \<and> started (pool_of s d ! a)"
    "a < length (pool_of s d) \<Longrightarrow> activated (pool_of s d ! a) \<Longrightarrow> a \<in> set xs"
    "a < length (pool_of s d) \<Longrightarrow> a \<notin> set xs \<Longrightarrow> dlist_detached (timer_heap s) (AlarmNode d a)"
proof -
  have "distinct (map (AlarmNode d) xs)" 
    by (rule dlist_rep_D(2)) (use assms in \<open>unfold alarm_queue_def, blast\<close>)
  then show "distinct xs" by (simp add: distinct_map)
qed (use assms in \<open>unfold alarm_queue_def, blast+\<close>)

lemma get_alarm_in [simp]:
  "d < length (ctx_table s) \<Longrightarrow> a < length (pool_of s d) \<Longrightarrow> get_alarm d a s = Some (pool_of s d ! a)"
  by (simp add: get_alarm_def get_dev_def)

lemma node_alarm_AlarmNode [simp]: "node_alarm (AlarmNode d a) s = get_alarm d a s"
  by (simp add: node_alarm_def)

lemma queue_head:
  "alarm_queue s d xs \<Longrightarrow>
     fwk_slist_head (ActiveQ d) (timer_heap s) = Some (if xs = [] then None else Some (AlarmNode d (hd xs)))"
  using slist_head_rep [OF dlist_slist_rep [OF alarm_queueD(2)], of s d xs] by (simp add: hd_map)

section \<open>Insertion\<close>

text \<open>The loop stops at the first alarm that does not expire before the new one.\<close>

lemma insert_position_walk:
  assumes "slist_rep (timer_heap s) (ActiveQ d) (map (AlarmNode d) (as @ bs))"
    and "\<And>b. b \<in> set bs \<Longrightarrow> get_alarm d b s = Some (pool_of s d ! b)"
  shows "insert_position d ts (if bs = [] then None else Some (AlarmNode d (hd bs))) s =
    Some (map_option (AlarmNode d) (find (\<lambda>b. ts \<le> expiry s d b) bs))"
  using assms
proof (induction bs arbitrary: as)
  case Nil
  then show ?case by (simp add: insert_position.simps)
next
  case (Cons b bs)
  have nxt: "fwk_slist_next (ActiveQ d) (AlarmNode d b) (timer_heap s) =
      Some (if bs = [] then None else Some (AlarmNode d (hd bs)))"
    using slist_next_rep [of "timer_heap s" "ActiveQ d" "map (AlarmNode d) as" "AlarmNode d b" "map (AlarmNode d) bs"]
      Cons.prems(1) by (simp add: hd_map)
  have IH: "insert_position d ts (if bs = [] then None else Some (AlarmNode d (hd bs))) s =
      Some (map_option (AlarmNode d) (find (\<lambda>b. ts \<le> expiry s d b) bs))"
    by (rule Cons.IH [of "as @ [b]"]) (use Cons.prems in auto)
  show ?case
    using nxt IH Cons.prems(2) [of b]
    by (cases "ts \<le> expiry s d b")
      (auto simp: insert_position.simps [of d ts "Some (AlarmNode d b)"] dest: leD)
qed

lemma insort_key_split:
  "\<exists>as bs. xs = as @ bs \<and> insort_key f x xs = as @ x # bs \<and>
     find (\<lambda>y. f x \<le> f y) xs = (if bs = [] then None else Some (hd bs))"
proof (induction xs)
  case (Cons y ys)
  then obtain as bs where ab: "ys = as @ bs" "insort_key f x ys = as @ x # bs"
    "find (\<lambda>y. f x \<le> f y) ys = (if bs = [] then None else Some (hd bs))" by blast
  show ?case
  proof (cases "f x \<le> f y")
    case True
    then show ?thesis by (intro exI [of _ "[]"] exI [of _ "y # ys"]) simp
  next
    case False
    then show ?thesis using ab by (intro exI [of _ "y # as"] exI [of _ bs]) simp
  qed
qed simp

lemma upd_alarm_table [simp]:
  "length (ctx_table (upd_alarm d a f s)) = length (ctx_table s)"
  "e \<noteq> d \<Longrightarrow> ctx_table (upd_alarm d a f s) ! e = ctx_table s ! e"
  "d < length (ctx_table s) \<Longrightarrow> ctx_table (upd_alarm d a f s) ! d =
     (ctx_table s ! d)\<lparr>alarm_pool := (pool_of s d)[a := f (pool_of s d ! a)]\<rparr>"
  by (simp_all add: upd_alarm_def upd_dev_def)

lemma upd_alarm_fields [simp]:
  "timer_heap (upd_alarm d a f s) = timer_heap s" "irq_hw (upd_alarm d a f s) = irq_hw s"
  "dev_hw (upd_alarm d a f s) = dev_hw s"
  by (simp_all add: upd_alarm_def upd_dev_def)

text \<open>An operation on device \<open>d\<close> leaves the other devices and the configuration alone.\<close>

definition dev_nodes :: "nat \<Rightarrow> timer_addr set" where
  "dev_nodes d = insert (ActiveQ d) (range (AlarmNode d))"

definition only_dev :: "nat \<Rightarrow> ('d, 'i, 'w, 'z) timer_ctx_scheme \<Rightarrow> ('d, 'i, 'w, 'z) timer_ctx_scheme \<Rightarrow> bool" where
  "only_dev d s s' \<longleftrightarrow>
     length (ctx_table s') = length (ctx_table s) \<and>
     (\<forall>e. e \<noteq> d \<longrightarrow> ctx_table s' ! e = ctx_table s ! e) \<and>
     dev_config (ctx_table s' ! d) = dev_config (ctx_table s ! d) \<and>
     driver (ctx_table s' ! d) = driver (ctx_table s ! d) \<and>
     driver_dev_id (ctx_table s' ! d) = driver_dev_id (ctx_table s ! d) \<and>
     length (pool_of s' d) = length (pool_of s d) \<and>
     same_outside (dev_nodes d) (timer_heap s) (timer_heap s')"

lemma only_dev_refl [simp]: "only_dev d s s"
  by (simp add: only_dev_def)

lemma only_dev_trans: "only_dev d s t \<Longrightarrow> only_dev d t u \<Longrightarrow> only_dev d s u"
  by (auto simp: only_dev_def intro: same_outside_trans)

lemma only_dev_upd_alarm [simp]: "d < length (ctx_table s) \<Longrightarrow> only_dev d s (upd_alarm d a f s)"
  by (simp add: only_dev_def)

lemma only_dev_heap: "same_outside (dev_nodes d) (timer_heap s) h \<Longrightarrow> only_dev d s (s\<lparr>timer_heap := h\<rparr>)"
  by (simp add: only_dev_def)

lemma only_dev_hw [simp]: "only_dev d s (s\<lparr>dev_hw := w\<rparr>)" "only_dev d s (s\<lparr>irq_hw := i\<rparr>)"
  by (simp_all add: only_dev_def)

lemma dev_nodes_map: "set (ActiveQ d # map (AlarmNode d) xs) \<subseteq> dev_nodes d"
  by (auto simp: dev_nodes_def)

lemma only_dev_queue:
  assumes "alarm_queue s e xs" and "only_dev d s s'" and "e \<noteq> d"
  shows "alarm_queue s' e xs"
proof -
  have so: "same_outside (dev_nodes d) (timer_heap s) (timer_heap s')" using assms(2) by (simp add: only_dev_def)
  have "dev_nodes d \<inter> set (ActiveQ e # map (AlarmNode e) ys) = {}" for ys
    using assms(3) by (auto simp: dev_nodes_def)
  then have "dlist_rep (timer_heap s') (ActiveQ e) (map (AlarmNode e) xs)"
    by (intro dlist_rep_frame [OF alarm_queueD(2) [OF assms(1)] so])
  moreover have "dlist_detached (timer_heap s') (AlarmNode e a)" if "dlist_detached (timer_heap s) (AlarmNode e a)" for a
    using detached_frames(2) [OF that so] assms(3) by (auto simp: dev_nodes_def)
  ultimately show ?thesis
    using assms by (simp add: alarm_queue_def only_dev_def)
qed

text \<open>Only the heap, the alarms and the number of devices matter to a queue.\<close>

lemma alarm_queue_cong:
  "timer_heap t = timer_heap s \<Longrightarrow> ctx_table t = ctx_table s \<Longrightarrow> alarm_queue t d xs = alarm_queue s d xs"
  by (simp add: alarm_queue_def)

lemma alarm_queue_hw [simp]:
  "alarm_queue (s\<lparr>dev_hw := w\<rparr>) d xs = alarm_queue s d xs" "alarm_queue (s\<lparr>irq_hw := i\<rparr>) d xs = alarm_queue s d xs"
  by (simp_all add: alarm_queue_def)

text \<open>Changing an alarm that is not in the queue, without activating it.\<close>

lemma alarm_queue_upd_idle:
  assumes q: "alarm_queue s d xs" and a: "a \<notin> set xs" and f: "\<And>x. activated (f x) = activated x"
  shows "alarm_queue (upd_alarm d a f s) d xs"
proof -
  have d: "d < length (ctx_table s)" by (rule alarm_queueD(1) [OF q])
  let ?p = "pool_of s d" and ?p' = "(pool_of s d)[a := f (pool_of s d ! a)]"
  have same: "?p' ! b = ?p ! b" if "b \<noteq> a" for b using that by simp
  have act: "activated (?p' ! b) = activated (?p ! b)" for b
    by (cases "b = a"; cases "b < length ?p") (simp_all add: f list_update_beyond)
  have "map (\<lambda>b. timestamp (?p' ! b)) xs = map (expiry s d) xs" by (intro map_cong refl) (metis a same)
  then have "sorted (map (\<lambda>b. timestamp (?p' ! b)) xs)" using alarm_queueD(3) [OF q] by metis
  moreover have "\<forall>b \<in> set xs. started (?p' ! b)" using alarm_queueD(5) [OF q] a same by metis
  ultimately show ?thesis
    using q d act by (simp add: alarm_queue_def)
qed

lemma insert_alarm_queue:
  assumes q: "alarm_queue s d xs" and a: "a < length (pool_of s d)" "\<not> activated (pool_of s d ! a)" "started (pool_of s d ! a)"
  shows "\<exists>h. insert_alarm_ctx_into_active_queue env d d a s = Some (upd_alarm d a (\<lambda>x. x\<lparr>activated := True\<rparr>) (s\<lparr>timer_heap := h\<rparr>)) \<and>
    alarm_queue (upd_alarm d a (\<lambda>x. x\<lparr>activated := True\<rparr>) (s\<lparr>timer_heap := h\<rparr>)) d (insort_key (expiry s d) a xs) \<and>
    same_outside (dev_nodes d) (timer_heap s) h"
proof -
  note D = alarm_queueD [OF q]
  have na: "a \<notin> set xs" using D(5) a by blast
  obtain as bs where ab: "xs = as @ bs" "insort_key (expiry s d) a xs = as @ a # bs"
    "find (\<lambda>b. expiry s d a \<le> expiry s d b) xs = (if bs = [] then None else Some (hd bs))"
    using insort_key_split [of xs "expiry s d" a] by auto
  have pos: "insert_position d (expiry s d a) (if xs = [] then None else Some (AlarmNode d (hd xs))) s =
      Some (if map (AlarmNode d) bs = [] then None else Some (hd (map (AlarmNode d) bs)))"
    using insert_position_walk [of s d "[]" xs "expiry s d a"] dlist_slist_rep [OF D(2)] D(1,5) ab(3)
    by (simp add: hd_map)
  obtain h where h: "fwk_dlist_insert (env_build env) (ActiveQ d) (AlarmNode d a)
        (if map (AlarmNode d) bs = [] then None else Some (hd (map (AlarmNode d) bs))) (timer_heap s) = Some h"
      "dlist_rep h (ActiveQ d) (map (AlarmNode d) (as @ a # bs))"
      "same_outside (set (ActiveQ d # map (AlarmNode d) (a # xs))) (timer_heap s) h"
    using dlist_insert_at_rep [of "timer_heap s" "ActiveQ d" "map (AlarmNode d) as" "map (AlarmNode d) bs" "AlarmNode d a" "env_build env"]
      D(2,7) ab(1) na a(1) by auto
  let ?s = "upd_alarm d a (\<lambda>x. x\<lparr>activated := True\<rparr>) (s\<lparr>timer_heap := h\<rparr>)"
  let ?p' = "(pool_of s d)[a := (pool_of s d ! a)\<lparr>activated := True\<rparr>]"
  have p': "timestamp (?p' ! b) = expiry s d b" "started (?p' ! b) = started (pool_of s d ! b)"
      "activated (?p' ! b) \<longleftrightarrow> b = a \<or> activated (pool_of s d ! b)" for b
    using a(1) by (cases "b = a"; simp)+
  have "sorted (map (expiry s d) (insort_key (expiry s d) a xs))" using D(3) by (rule sorted_insort_key [THEN iffD2])
  then have "sorted (map (expiry s d) (as @ a # bs))" using ab(2) by simp
  moreover have "dlist_detached h (AlarmNode d b)" if "b < length (pool_of s d)" "b \<noteq> a \<and> \<not> activated (pool_of s d ! b)" for b
    using detached_frames(2) [OF D(7) h(3)] D(5) that by auto
  moreover have "set (as @ a # bs) = {b. b < length (pool_of s d) \<and> (b = a \<or> activated (pool_of s d ! b))}"
    using D(5,6) a(1) ab(1) by auto
  moreover have "\<forall>b \<in> set (as @ a # bs). started (pool_of s d ! b)" using D(5) a(3) ab(1) by auto
  ultimately have "alarm_queue ?s d (as @ a # bs)"
    using D(1) h(2) ab(1) by (simp add: alarm_queue_def p')
  moreover have "insert_alarm_ctx_into_active_queue env d d a s = Some ?s"
    using queue_head [OF q] pos h(1) D(1) a(1) by (simp add: insert_alarm_ctx_into_active_queue_def)
  moreover have "same_outside (dev_nodes d) (timer_heap s) h"
    by (rule same_outside_mono [OF h(3) dev_nodes_map])
  ultimately show ?thesis using ab(2) by auto
qed

section \<open>Removal\<close>

lemma remove_alarm_queue:
  assumes q: "alarm_queue s d xs" and a: "a \<in> set xs"
  shows "\<exists>h. fwk_dlist_remove bc (ActiveQ d) (AlarmNode d a) (timer_heap s) = Some h \<and>
    same_outside (dev_nodes d) (timer_heap s) h \<and>
    (\<forall>f. (\<forall>x. \<not> activated (f x)) \<longrightarrow> alarm_queue (upd_alarm d a f (s\<lparr>timer_heap := h\<rparr>)) d (remove1 a xs))"
proof -
  note D = alarm_queueD [OF q]
  obtain h where h: "fwk_dlist_remove bc (ActiveQ d) (AlarmNode d a) (timer_heap s) = Some h"
      "dlist_rep h (ActiveQ d) (remove1 (AlarmNode d a) (map (AlarmNode d) xs))" "dlist_detached h (AlarmNode d a)"
      "same_outside (set (ActiveQ d # map (AlarmNode d) xs)) (timer_heap s) h"
    using dlist_remove_rep [OF D(2), of "AlarmNode d a" bc] a by auto
  have rep: "dlist_rep h (ActiveQ d) (map (AlarmNode d) (remove1 a xs))"
    using h(2) map_remove1_distinct [of "AlarmNode d" xs a] D(4) a by (simp add: distinct_map inj_on_def)
  have "alarm_queue (upd_alarm d a f (s\<lparr>timer_heap := h\<rparr>)) d (remove1 a xs)" if f: "\<And>x. \<not> activated (f x)" for f
  proof -
    let ?p' = "(pool_of s d)[a := f (pool_of s d ! a)]"
    have same: "?p' ! b = pool_of s d ! b" if "b \<noteq> a" for b using that by simp
    have set: "set (remove1 a xs) = set xs - {a}" using D(4) by (rule set_remove1_eq)
    have "map (\<lambda>b. timestamp (?p' ! b)) (remove1 a xs) = map (expiry s d) (remove1 a xs)"
      by (intro map_cong refl) (metis set same Diff_iff singletonI)
    moreover have "sorted (map (expiry s d) (remove1 a xs))" by (rule sorted_map_remove1 [OF D(3)])
    ultimately have "sorted (map (\<lambda>b. timestamp (?p' ! b)) (remove1 a xs))" by metis
    moreover have "set (remove1 a xs) = {b. b < length (pool_of s d) \<and> activated (?p' ! b)}"
      using D(5,6) a f same unfolding set by (auto simp: nth_list_update)
    moreover have "\<forall>b \<in> set (remove1 a xs). started (?p' ! b)" using D(5) same unfolding set by auto
    moreover have "dlist_detached h (AlarmNode d b)" if "b < length (pool_of s d)" "b \<notin> set (remove1 a xs)" for b
      using detached_frames(2) [OF D(7) h(4), of b] h(3) that unfolding set by auto
    ultimately show ?thesis using D(1) rep by (simp add: alarm_queue_def)
  qed
  then show ?thesis using h(1) same_outside_mono [OF h(4) dev_nodes_map] by blast
qed

text \<open>Taking the first alarm off the queue, as the interrupt handler does.\<close>

lemma pop_alarm_queue:
  assumes q: "alarm_queue s d (a # xs)"
  shows "\<exists>h. fwk_dlist_pop_head bc (ActiveQ d) (timer_heap s) = Some (Some (AlarmNode d a), h) \<and>
    same_outside (dev_nodes d) (timer_heap s) h \<and>
    alarm_queue (upd_alarm d a (\<lambda>x. x\<lparr>activated := False\<rparr>) (s\<lparr>timer_heap := h\<rparr>)) d xs"
proof -
  note D = alarm_queueD [OF q]
  obtain h where h: "fwk_dlist_pop_head bc (ActiveQ d) (timer_heap s) = Some (Some (AlarmNode d a), h)"
      "dlist_rep h (ActiveQ d) (map (AlarmNode d) xs)" "dlist_detached h (AlarmNode d a)"
      "same_outside (set (ActiveQ d # map (AlarmNode d) (a # xs))) (timer_heap s) h"
    using dlist_pop_head_rep [of "timer_heap s" "ActiveQ d" "AlarmNode d a" "map (AlarmNode d) xs" bc] D(2) by auto
  let ?p' = "(pool_of s d)[a := (pool_of s d ! a)\<lparr>activated := False\<rparr>]"
  have p': "timestamp (?p' ! b) = expiry s d b" "started (?p' ! b) = started (pool_of s d ! b)"
      "activated (?p' ! b) \<longleftrightarrow> b \<noteq> a \<and> activated (pool_of s d ! b)" for b
    using D(5) [of a] by (cases "b = a"; simp)+
  have "set xs = {b. b < length (pool_of s d) \<and> b \<noteq> a \<and> activated (pool_of s d ! b)}"
    using D(4,5,6) by auto
  moreover have "dlist_detached h (AlarmNode d b)" if "b < length (pool_of s d)" "b \<notin> set xs" for b
    using detached_frames(2) [OF D(7) h(4), of b] h(3) that by auto
  moreover have "\<forall>b \<in> set xs. started (pool_of s d ! b)" "sorted (map (expiry s d) xs)" using D(3,5) by auto
  ultimately have "alarm_queue (upd_alarm d a (\<lambda>x. x\<lparr>activated := False\<rparr>) (s\<lparr>timer_heap := h\<rparr>)) d xs"
    using D(1) h(2) by (simp add: alarm_queue_def p')
  then show ?thesis using h(1) same_outside_mono [OF h(4) dev_nodes_map] by blast
qed

section \<open>Calls to the driver change the hardware only\<close>

named_theorems driver_frames \<open>results of the functions that only call the driver\<close>

lemma dev_hw_same [simp]:
  "\<exists>w. s = s\<lparr>dev_hw := w\<rparr>" "\<exists>w. s\<lparr>dev_hw := v\<rparr> = s\<lparr>dev_hw := w\<rparr>"
  by (rule exI [of _ "dev_hw s"]) auto

lemma call_driver_frame [driver_frames]:
  "call_driver env d sel s = Some (r, s') \<Longrightarrow> \<exists>w. s' = s\<lparr>dev_hw := w\<rparr>"
  by (auto simp: call_driver_def bind_Some_iff)

lemma time_to_timestamp_frame [driver_frames]:
  "time_to_timestamp_ctx env d us ts s = Some (r, s') \<Longrightarrow> \<exists>w. s' = s\<lparr>dev_hw := w\<rparr>"
  by (auto simp: time_to_timestamp_ctx_def bind_Some_iff dest!: call_driver_frame)

lemma timestamp_from_now_frame [driver_frames]:
  "timestamp_from_now_ctx env d us ts s = Some (r, s') \<Longrightarrow> \<exists>w. s' = s\<lparr>dev_hw := w\<rparr>"
  by (auto simp: timestamp_from_now_ctx_def bind_Some_iff split: if_splits dest!: call_driver_frame time_to_timestamp_frame)

lemma remaining_frame [driver_frames]:
  "remaining_ctx env d ts x s = Some (r, s') \<Longrightarrow> \<exists>w. s' = s\<lparr>dev_hw := w\<rparr>"
  by (auto simp: remaining_ctx_def bind_Some_iff dest!: call_driver_frame)

lemma configure_frame [driver_frames]:
  "configure_timer_with_next_alarm env d s = Some s' \<Longrightarrow> \<exists>w. s' = s\<lparr>dev_hw := w\<rparr>"
  by (auto simp: configure_timer_with_next_alarm_def bind_Some_iff split: option.splits dest!: call_driver_frame)

lemma get_hw [simp]:
  "get_alarm d a (s\<lparr>dev_hw := w\<rparr>) = get_alarm d a s" "get_alarm d a (s\<lparr>irq_hw := i\<rparr>) = get_alarm d a s"
  "get_irq d (s\<lparr>dev_hw := w\<rparr>) = get_irq d s" "get_irq d (s\<lparr>irq_hw := i\<rparr>) = get_irq d s"
  "get_alarm d a (s\<lparr>timer_heap := h\<rparr>) = get_alarm d a s" "get_irq d (s\<lparr>timer_heap := h\<rparr>) = get_irq d s"
  by (simp_all add: get_alarm_def get_dev_def get_irq_def)

lemma get_irq_upd_alarm [simp]: "get_irq e (upd_alarm d a f s) = get_irq e s"
  by (cases "e = d") (auto simp: get_irq_def get_dev_def)

lemma get_alarm_SomeD:
  "get_alarm d a s = Some x \<Longrightarrow> d < length (ctx_table s) \<and> a < length (pool_of s d) \<and> x = pool_of s d ! a"
  by (auto simp: get_alarm_def get_dev_def bind_Some_iff split: if_splits)

lemma alarm_index_SomeD:
  "alarm_index i s = Some (d, a) \<Longrightarrow> dev_index i s = Some d \<and> d < length (ctx_table s) \<and> a < length (pool_of s d)"
  by (auto simp: alarm_index_def bind_Some_iff dest!: get_alarm_SomeD)

section \<open>Stopping an alarm\<close>

text \<open>Every way \<^verbatim>\<open>alarm_stop\<close> can return, for any driver and any interrupt controller.\<close>

definition stop_outcome ::
  "('d, 'i, 'w, 'z) tenv \<Rightarrow> nat \<Rightarrow> nat \<Rightarrow> ('d, 'i, 'w, 'z) timer_ctx_scheme \<Rightarrow> int \<Rightarrow> ('d, 'i, 'w, 'z) timer_ctx_scheme \<Rightarrow> bool" where
  "stop_outcome env d a s st s' \<longleftrightarrow>
     (\<exists>w. st \<noteq> FWK_SUCCESS \<and> s' = s\<lparr>dev_hw := w\<rparr>) \<or>
     (\<exists>w. started (pool_of s d ! a) \<and> \<not> activated (pool_of s d ! a) \<and> st = FWK_SUCCESS \<and>
        s' = upd_alarm d a (\<lambda>x. x\<lparr>started := False\<rparr>) (s\<lparr>dev_hw := w\<rparr>)) \<or>
     (\<exists>irq i w. activated (pool_of s d ! a) \<and> get_irq d s = Some irq \<and> st \<noteq> FWK_SUCCESS \<and>
        arch_clear_pending (env_arch env) irq (irq_hw s) = (st, i) \<and>
        s' = (upd_alarm d a (\<lambda>x. x\<lparr>started := False\<rparr>) (s\<lparr>dev_hw := w\<rparr>))\<lparr>irq_hw := i\<rparr>) \<or>
     (\<exists>irq i h w. activated (pool_of s d ! a) \<and> get_irq d s = Some irq \<and> st = FWK_SUCCESS \<and>
        arch_clear_pending (env_arch env) irq (irq_hw s) = (FWK_SUCCESS, i) \<and>
        fwk_dlist_remove (env_build env) (ActiveQ d) (AlarmNode d a) (timer_heap s) = Some h \<and>
        s' = upd_alarm d a (\<lambda>x. x\<lparr>started := False, activated := False\<rparr>) (s\<lparr>timer_heap := h, irq_hw := i, dev_hw := w\<rparr>))"

lemma status_neq [simp]:
  "FWK_E_ACCESS \<noteq> FWK_SUCCESS" "FWK_E_DEVICE \<noteq> FWK_SUCCESS" "FWK_E_STATE \<noteq> FWK_SUCCESS" "FWK_E_PARAM \<noteq> FWK_SUCCESS"
  "FWK_E_TIMEOUT \<noteq> FWK_SUCCESS"
  by (simp_all add: fwk_status_defs)

lemma upd_alarm_commute:
  "d < length (ctx_table s) \<Longrightarrow> a < length (pool_of s d) \<Longrightarrow>
     (upd_alarm d a f ((upd_alarm d a g (s\<lparr>dev_hw := v\<rparr>))\<lparr>irq_hw := i, timer_heap := h\<rparr>))\<lparr>dev_hw := w\<rparr> =
     upd_alarm d a (\<lambda>x. f (g x)) (s\<lparr>timer_heap := h, irq_hw := i, dev_hw := w\<rparr>)"
  by (simp add: upd_alarm_def upd_dev_def)

lemma stop_started_result:
  assumes "stop_started_alarm env d a (s\<lparr>dev_hw := w\<rparr>) = Some (st, s')" and "started (pool_of s d ! a)"
    and in_range: "d < length (ctx_table s)" "a < length (pool_of s d)"
  shows "stop_outcome env d a s st s'"
proof (cases "activated (pool_of s d ! a)")
  case False
  then show ?thesis using assms by (auto simp: stop_started_alarm_def Let_def stop_outcome_def)
next
  case True
  obtain irq where irq: "get_irq d s = Some irq"
    using assms True by (cases "get_irq d s") (auto simp: stop_started_alarm_def Let_def)
  obtain c i where ci: "arch_clear_pending (env_arch env) irq (irq_hw s) = (c, i)" by fastforce
  show ?thesis
  proof (cases "c = FWK_SUCCESS")
    case ok: True
    then obtain h t where h: "fwk_dlist_remove (env_build env) (ActiveQ d) (AlarmNode d a) (timer_heap s) = Some h"
        "configure_timer_with_next_alarm env d (upd_alarm d a (\<lambda>x. x\<lparr>activated := False\<rparr>)
           ((upd_alarm d a (\<lambda>x. x\<lparr>started := False\<rparr>) (s\<lparr>dev_hw := w\<rparr>))\<lparr>irq_hw := i, timer_heap := h\<rparr>)) = Some t" "s' = t" "st = FWK_SUCCESS"
      using assms True irq ci
      by (auto simp: stop_started_alarm_def Let_def bind_Some_iff fwk_interrupt_clear_pending_def)
    obtain v where "t = upd_alarm d a (\<lambda>x. x\<lparr>started := False, activated := False\<rparr>) (s\<lparr>timer_heap := h, irq_hw := i, dev_hw := v\<rparr>)"
      using configure_frame [OF h(2)] in_range by (auto simp: upd_alarm_commute)
    then show ?thesis
      using h True irq ci ok unfolding stop_outcome_def by blast
  next
    case fail: False
    then show ?thesis
      using assms True irq ci by (auto simp: stop_started_alarm_def Let_def stop_outcome_def fwk_interrupt_clear_pending_def)
  qed
qed

lemma alarm_stop_result:
  assumes "alarm_stop env im i s = Some (st, s')"
  shows "(\<exists>w. st \<noteq> FWK_SUCCESS \<and> s' = s\<lparr>dev_hw := w\<rparr>) \<or>
    (\<exists>d a. alarm_index i s = Some (d, a) \<and> stop_outcome env d a s st s')"
proof -
  from assms obtain d al where d: "dev_index i s = Some d" and
    al: "(if \<not> al then Some (FWK_E_ACCESS, s) else do {
         (_, a) \<leftarrow> alarm_index i s;
         (status, s) \<leftarrow> call_driver env d drv_disable s;
         if status \<noteq> FWK_SUCCESS then Some (FWK_E_DEVICE, s)
         else do {
           alarm \<leftarrow> get_alarm d a s;
           if \<not> started alarm
           then do {
             (status, s) \<leftarrow> call_driver env d drv_enable s;
             Some (if status \<noteq> FWK_SUCCESS then FWK_E_DEVICE else FWK_E_STATE, s)
           }
           else stop_started_alarm env d a s
         }}) = Some (st, s')"
    by (auto simp: alarm_stop_def bind_Some_iff bind_assert_iff)
  show ?thesis
  proof (cases al)
    case True
    then obtain e a c t where e: "alarm_index i s = Some (e, a)" and c: "call_driver env d drv_disable s = Some (c, t)"
      using al by (auto simp: bind_Some_iff)
    have a: "alarm_index i s = Some (d, a)" using alarm_index_SomeD [OF e] d e by simp
    obtain w where t: "t = s\<lparr>dev_hw := w\<rparr>" using call_driver_frame [OF c] by blast
    note rng = alarm_index_SomeD [OF a]
    show ?thesis
    proof (cases "c = FWK_SUCCESS \<and> started (pool_of s d ! a)")
      case True
      then have "stop_started_alarm env d a (s\<lparr>dev_hw := w\<rparr>) = Some (st, s')"
        using al \<open>al\<close> a c rng t by simp
      from stop_started_result [OF this] have "stop_outcome env d a s st s'" using True rng by simp
      then show ?thesis using a by blast
    next
      case False
      then show ?thesis
        using al \<open>al\<close> a c rng t by (auto simp: bind_Some_iff split: if_splits dest!: call_driver_frame)
    qed
  qed (use al in simp)
qed

section \<open>The invariant\<close>

definition timer_inv :: "('d, 'i, 'w, 'z) timer_ctx_scheme \<Rightarrow> bool" where
  "timer_inv s \<longleftrightarrow> (\<forall>d < length (ctx_table s). \<exists>xs. alarm_queue s d xs)"

lemma timer_inv_queue: "timer_inv s \<Longrightarrow> d < length (ctx_table s) \<Longrightarrow> \<exists>xs. alarm_queue s d xs"
  by (simp add: timer_inv_def)

lemma timer_inv_only_dev:
  assumes "timer_inv s" and "only_dev d s s'" and "alarm_queue s' d xs"
  shows "timer_inv s'"
  unfolding timer_inv_def
proof (intro allI impI)
  fix e assume e: "e < length (ctx_table s')"
  show "\<exists>xs. alarm_queue s' e xs"
  proof (cases "e = d")
    case False
    have "e < length (ctx_table s)" using e assms(2) by (simp add: only_dev_def)
    then obtain ys where "alarm_queue s e ys" using timer_inv_queue [OF assms(1)] by blast
    then show ?thesis using only_dev_queue [OF _ assms(2) False] by blast
  qed (use assms(3) in blast)
qed

lemma timer_inv_cong: "timer_heap t = timer_heap s \<Longrightarrow> ctx_table t = ctx_table s \<Longrightarrow> timer_inv t = timer_inv s"
  by (simp add: timer_inv_def alarm_queue_def)

lemma timer_inv_hw [simp]:
  "timer_inv (s\<lparr>dev_hw := w\<rparr>) = timer_inv s" "timer_inv (s\<lparr>irq_hw := i\<rparr>) = timer_inv s"
  by (rule timer_inv_cong; simp)+

text \<open>
  The interrupt lines of all devices are implemented by the controller; no operation activates an
  alarm except a start and the rearming of a periodic alarm.
\<close>

definition lines_ok :: "(32 word \<Rightarrow> 'i \<Rightarrow> bool) \<Rightarrow> ('d, 'i, 'w, 'z) timer_ctx_scheme \<Rightarrow> bool" where
  "lines_ok line_ok s \<longleftrightarrow> (\<forall>d irq. get_irq d s = Some irq \<longrightarrow> line_ok irq (irq_hw s))"

definition calmer :: "('d, 'i, 'w, 'z) timer_ctx_scheme \<Rightarrow> ('d, 'i, 'w, 'z) timer_ctx_scheme \<Rightarrow> bool" where
  "calmer s s' \<longleftrightarrow> length (ctx_table s') = length (ctx_table s) \<and>
     (\<forall>d a x'. get_alarm d a s' = Some x' \<longrightarrow> (\<exists>x. get_alarm d a s = Some x \<and> (activated x' \<longrightarrow> activated x))) \<and>
     (\<forall>d a x. get_alarm d a s = Some x \<longrightarrow> (\<exists>x'. get_alarm d a s' = Some x'))"

lemma calmer_refl [simp]: "calmer s s"
  by (simp add: calmer_def)

lemma calmer_trans: "calmer s t \<Longrightarrow> calmer t u \<Longrightarrow> calmer s u"
  unfolding calmer_def by metis

lemma calmer_same: "ctx_table s' = ctx_table s \<Longrightarrow> calmer s s'"
  by (auto simp: calmer_def get_alarm_def get_dev_def)

lemma calmer_upd:
  assumes "d < length (ctx_table s)" and "a < length (pool_of s d)" and "\<And>x. activated (f x) \<Longrightarrow> activated x"
    and "ctx_table t = ctx_table s"
  shows "calmer s (upd_alarm d a f t)"
proof -
  have "get_alarm e b (upd_alarm d a f t) = (if e = d \<and> b = a then map_option f (get_alarm e b s) else get_alarm e b s)" for e b
    using assms by (cases "e = d"; cases "b = a") (auto simp: get_alarm_def get_dev_def)
  then show ?thesis using assms by (auto simp: calmer_def)
qed

lemma stop_success_idle:
  assumes "alarm_stop env im i s = Some (FWK_SUCCESS, s')" and "alarm_index i s = Some (d, a)"
  shows "d < length (ctx_table s') \<and> a < length (pool_of s' d) \<and> \<not> activated (pool_of s' d ! a)"
  using alarm_stop_result [OF assms(1)] alarm_index_SomeD [OF assms(2)] assms(2)
  by (auto simp: stop_outcome_def)

text \<open>Starting an alarm that is not in the queue, for any driver.\<close>

lemma start_stopped_keeps:
  assumes run: "start_stopped_alarm env d a us type cb param s = Some (st, s')" and q: "alarm_queue s d xs"
    and a: "a < length (pool_of s d)" "\<not> activated (pool_of s d ! a)"
  shows "(\<exists>ys. alarm_queue s' d ys) \<and> only_dev d s s' \<and> irq_hw s' = irq_hw s"
proof -
  have d: "d < length (ctx_table s)" by (rule alarm_queueD(1) [OF q])
  have na: "a \<notin> set xs" using alarm_queueD(5) [OF q] a(2) by blast
  define s1 where "s1 = upd_alarm d a (\<lambda>x. x\<lparr>microseconds := us, alarm_callback := cb, alarm_param := param,
         periodic := (type = MOD_TIMER_ALARM_TYPE_PERIODIC), started := True\<rparr>) s"
  have q1: "alarm_queue s1 d xs" unfolding s1_def by (rule alarm_queue_upd_idle [OF q na]) simp
  have o1: "only_dev d s s1" unfolding s1_def by (rule only_dev_upd_alarm [OF d])
  obtain status ts t0 where t0: "timestamp_from_now_ctx env d us (expiry s1 d a) s1 = Some ((status, ts), t0)"
    using run by (auto simp: start_stopped_alarm_def s1_def [symmetric] bind_Some_iff dest!: get_alarm_SomeD)
  then obtain w where t: "timestamp_from_now_ctx env d us (expiry s1 d a) s1 = Some ((status, ts), s1\<lparr>dev_hw := w\<rparr>)"
    using timestamp_from_now_frame [OF t0] by blast
  define s2 where "s2 = upd_alarm d a (\<lambda>x. x\<lparr>timestamp := ts\<rparr>) (s1\<lparr>dev_hw := w\<rparr>)"
  have q2: "alarm_queue s2 d xs" unfolding s2_def by (rule alarm_queue_upd_idle [OF _ na]) (use q1 in simp_all)
  have d1: "d < length (ctx_table s1)" "a < length (pool_of s1 d)" using d a by (simp_all add: s1_def)
  have o2: "only_dev d s s2"
    unfolding s2_def by (rule only_dev_trans [OF only_dev_trans [OF o1 only_dev_hw(1)] only_dev_upd_alarm]) (use d1 in simp)
  have p2: "a < length (pool_of s2 d)" "\<not> activated (pool_of s2 d ! a)" "started (pool_of s2 d ! a)"
    using d a by (simp_all add: s2_def s1_def)
  have i2: "irq_hw s2 = irq_hw s" by (simp add: s2_def s1_def)
  have rest: "(if status \<noteq> FWK_SUCCESS then Some (status, s2)
     else do {
         (status, s) \<leftarrow> call_driver env d drv_disable s2;
         if status \<noteq> FWK_SUCCESS then Some (FWK_E_DEVICE, s)
         else do {
           s \<leftarrow> insert_alarm_ctx_into_active_queue env d d a s;
           s \<leftarrow> configure_timer_with_next_alarm env d s;
           Some (FWK_SUCCESS, s)
         }
       }) = Some (st, s')"
    using run d1 t by (simp add: start_stopped_alarm_def s1_def [symmetric] s2_def [symmetric])
  show ?thesis
  proof (cases "status = FWK_SUCCESS")
    case False
    then show ?thesis using rest q2 o2 i2 by auto
  next
    case True
    then obtain c t3 where c0: "call_driver env d drv_disable s2 = Some (c, t3)"
      using rest by (auto simp: bind_Some_iff)
    then obtain v where c: "call_driver env d drv_disable s2 = Some (c, s2\<lparr>dev_hw := v\<rparr>)"
      using call_driver_frame [OF c0] by blast
    let ?s3 = "s2\<lparr>dev_hw := v\<rparr>"
    obtain h where h: "insert_alarm_ctx_into_active_queue env d d a ?s3 =
          Some (upd_alarm d a (\<lambda>x. x\<lparr>activated := True\<rparr>) (?s3\<lparr>timer_heap := h\<rparr>))"
        "alarm_queue (upd_alarm d a (\<lambda>x. x\<lparr>activated := True\<rparr>) (?s3\<lparr>timer_heap := h\<rparr>)) d (insort_key (expiry ?s3 d) a xs)"
        "same_outside (dev_nodes d) (timer_heap ?s3) h"
      using insert_alarm_queue [of ?s3 d xs a env] q2 p2 by auto
    have "only_dev d s2 (upd_alarm d a (\<lambda>x. x\<lparr>activated := True\<rparr>) (?s3\<lparr>timer_heap := h\<rparr>))"
      using h(3) alarm_queueD(1) [OF q2] by (simp add: only_dev_def)
    then have o4: "only_dev d s (upd_alarm d a (\<lambda>x. x\<lparr>activated := True\<rparr>) (?s3\<lparr>timer_heap := h\<rparr>))"
      by (rule only_dev_trans [OF o2])
    show ?thesis
      using rest True c h(1,2) o4 q2 o2 i2 only_dev_trans [OF o2 only_dev_hw(1)] only_dev_trans [OF o4 only_dev_hw(1)]
      by (auto simp: bind_Some_iff split: if_splits dest!: configure_frame)
  qed
qed

text \<open>Rearming a periodic alarm, for any driver.\<close>

lemma requeue_keeps:
  assumes run: "requeue_periodic env d d a s = Some s'" and q: "alarm_queue s d xs"
    and a: "a < length (pool_of s d)" "\<not> activated (pool_of s d ! a)"
  shows "(\<exists>ys. alarm_queue s' d ys) \<and> only_dev d s s' \<and> irq_hw s' = irq_hw s"
proof (cases "periodic (pool_of s d ! a) \<and> started (pool_of s d ! a)")
  case False
  then show ?thesis using run q a alarm_queueD(1) [OF q] by (auto simp: requeue_periodic_def)
next
  case True
  have d: "d < length (ctx_table s)" by (rule alarm_queueD(1) [OF q])
  have na: "a \<notin> set xs" using alarm_queueD(5) [OF q] a(2) by blast
  obtain c ts t0 where t0: "time_to_timestamp_ctx env d (microseconds (pool_of s d ! a)) 0 s = Some ((c, ts), t0)"
    using run d a True by (auto simp: requeue_periodic_def bind_Some_iff)
  then obtain w where w: "t0 = s\<lparr>dev_hw := w\<rparr>" using time_to_timestamp_frame [OF t0] by blast
  let ?t = "upd_alarm d a (\<lambda>x. x\<lparr>timestamp := timestamp x + ts\<rparr>) (s\<lparr>dev_hw := w\<rparr>)"
  have qt: "alarm_queue ?t d xs" by (rule alarm_queue_upd_idle [OF _ na]) (use q in simp_all)
  have rest: "(if c = FWK_SUCCESS then insert_alarm_ctx_into_active_queue env d d a ?t else Some (s\<lparr>dev_hw := w\<rparr>)) = Some s'"
    using run d a True t0 w by (simp add: requeue_periodic_def)
  show ?thesis
  proof (cases "c = FWK_SUCCESS")
    case False
    then show ?thesis using rest q by auto
  next
    case c: True
    obtain h where h: "insert_alarm_ctx_into_active_queue env d d a ?t =
          Some (upd_alarm d a (\<lambda>x. x\<lparr>activated := True\<rparr>) (?t\<lparr>timer_heap := h\<rparr>))"
        "alarm_queue (upd_alarm d a (\<lambda>x. x\<lparr>activated := True\<rparr>) (?t\<lparr>timer_heap := h\<rparr>)) d (insort_key (expiry ?t d) a xs)"
        "same_outside (dev_nodes d) (timer_heap s) h"
      using insert_alarm_queue [OF qt, of a env] a d True by auto
    moreover have "only_dev d s (upd_alarm d a (\<lambda>x. x\<lparr>activated := True\<rparr>) (?t\<lparr>timer_heap := h\<rparr>))"
      using h(3) d by (simp add: only_dev_def)
    ultimately show ?thesis using rest c by auto
  qed
qed

section \<open>Steps of the module\<close>

text \<open>
  What an alarm callback may do to the module's state: stop alarms, and anything that leaves the
  alarms alone. Starting an alarm is refused in interrupt context, so it is a step of the
  second kind.
\<close>

inductive callback_step ::
  "('d, 'i, 'w, 'z) tenv \<Rightarrow> (('d, 'i, 'w, 'z) timer_ctx_scheme, 'd) fwk_image \<Rightarrow> (32 word \<Rightarrow> 'i \<Rightarrow> bool) \<Rightarrow>
   ('d, 'i, 'w, 'z) timer_ctx_scheme \<Rightarrow> ('d, 'i, 'w, 'z) timer_ctx_scheme \<Rightarrow> bool" for env im line_ok where
  cb_stop: "alarm_stop env im i s = Some (st, s') \<Longrightarrow> callback_step env im line_ok s s'"
| cb_other: "timer_heap s' = timer_heap s \<Longrightarrow> ctx_table s' = ctx_table s \<Longrightarrow>
    (\<forall>irq. line_ok irq (irq_hw s) \<longrightarrow> line_ok irq (irq_hw s')) \<Longrightarrow> callback_step env im line_ok s s'"

definition callbacks_use_api ::
  "('d, 'i, 'w, 'z) tenv \<Rightarrow> (('d, 'i, 'w, 'z) timer_ctx_scheme, 'd) fwk_image \<Rightarrow> (32 word \<Rightarrow> 'i \<Rightarrow> bool) \<Rightarrow> bool" where
  "callbacks_use_api env im line_ok \<longleftrightarrow>
     (\<forall>cb p s s'. env_code env cb p s = Some s' \<longrightarrow> (callback_step env im line_ok)\<^sup>*\<^sup>* s s')"

text \<open>
  A step of the module: a call of the alarm API, an interrupt of one of the timers, or anything
  that leaves the alarms alone (time passing, the other functions of the timer API, the rest of
  the firmware).
\<close>

inductive timer_step ::
  "('d, 'i, 'w, 'z) tenv \<Rightarrow> (('d, 'i, 'w, 'z) timer_ctx_scheme, 'd) fwk_image \<Rightarrow> (32 word \<Rightarrow> 'i \<Rightarrow> bool) \<Rightarrow>
   ('d, 'i, 'w, 'z) timer_ctx_scheme \<Rightarrow> ('d, 'i, 'w, 'z) timer_ctx_scheme \<Rightarrow> bool" for env im line_ok where
  step_start: "alarm_start env im i us type cb p s = Some (st, s') \<Longrightarrow> timer_step env im line_ok s s'"
| step_stop: "alarm_stop env im i s = Some (st, s') \<Longrightarrow> timer_step env im line_ok s s'"
| step_isr: "d < length (ctx_table s) \<Longrightarrow> timer_isr env d s = Some s' \<Longrightarrow> timer_step env im line_ok s s'"
| step_remaining: "get_next_alarm_remaining env i x y s = Some (r, s') \<Longrightarrow> timer_step env im line_ok s s'"
| step_other: "timer_heap s' = timer_heap s \<Longrightarrow> ctx_table s' = ctx_table s \<Longrightarrow>
    (\<forall>irq. line_ok irq (irq_hw s) \<longrightarrow> line_ok irq (irq_hw s')) \<Longrightarrow> timer_step env im line_ok s s'"

lemma next_alarm_frame [driver_frames]:
  "get_next_alarm_remaining env i x y s = Some (r, s') \<Longrightarrow> \<exists>w. s' = s\<lparr>dev_hw := w\<rparr>"
proof -
  assume run: "get_next_alarm_remaining env i x y s = Some (r, s')"
  show ?thesis
  proof (cases "x = None \<or> y = None")
    case True
    then show ?thesis using run by (auto simp: get_next_alarm_remaining_def split: option.splits)
  next
    case False
    then obtain d c t where c: "call_driver env d drv_disable s = Some (c, t)"
        and rest: "c \<noteq> FWK_SUCCESS \<and> s' = t \<or> (\<exists>b e u z.
          (e = None \<and> u = t \<or> (\<exists>ts v. remaining_ctx env d ts v t = Some (z, u))) \<and> call_driver env d drv_enable u = Some (b, s'))"
      using run by (auto simp: get_next_alarm_remaining_def bind_Some_iff split: if_splits) blast+
    then show ?thesis by (auto dest!: call_driver_frame remaining_frame)
  qed
qed

lemma other_keeps:
  assumes "timer_heap s' = timer_heap s" "ctx_table s' = ctx_table s" "\<forall>irq. line_ok irq (irq_hw s) \<longrightarrow> line_ok irq (irq_hw s')"
    and "timer_inv s" "lines_ok line_ok s"
  shows "timer_inv s' \<and> lines_ok line_ok s' \<and> calmer s s'"
proof -
  have "get_irq d s' = get_irq d s" for d using assms(2) by (simp add: get_irq_def get_dev_def)
  then show ?thesis using assms timer_inv_cong [of s' s] by (simp add: lines_ok_def calmer_same)
qed

lemma only_dev_lines:
  "only_dev d s s' \<Longrightarrow> irq_hw s' = irq_hw s \<Longrightarrow> lines_ok line_ok s \<Longrightarrow> lines_ok line_ok s'"
proof -
  assume o: "only_dev d s s'" "irq_hw s' = irq_hw s" "lines_ok line_ok s"
  have "get_irq e s' = get_irq e s" for e
    using o(1) by (cases "e = d") (auto simp: get_irq_def get_dev_def only_dev_def)
  then show ?thesis using o(2,3) by (simp add: lines_ok_def)
qed

locale alarm_service = irq_controller arch line_ok
  for arch :: "'i arch_interrupt" and line_ok +
  fixes env :: "('d, 'i, 'w, 'z) tenv" and im :: "(('d, 'i, 'w, 'z) timer_ctx_scheme, 'd) fwk_image"
  assumes arch_env: "env_arch env = arch"
begin

lemma stop_keeps:
  assumes "alarm_stop env im i s = Some (st, s')" and inv: "timer_inv s" and lines: "lines_ok line_ok s"
  shows "timer_inv s' \<and> lines_ok line_ok s' \<and> calmer s s'"
proof (rule disjE [OF alarm_stop_result [OF assms(1)]])
  assume "\<exists>w. st \<noteq> FWK_SUCCESS \<and> s' = s\<lparr>dev_hw := w\<rparr>"
  then show ?thesis using inv lines by (auto simp: lines_ok_def calmer_same)
next
  assume "\<exists>d a. alarm_index i s = Some (d, a) \<and> stop_outcome env d a s st s'"
  then obtain d a where idx: "alarm_index i s = Some (d, a)" and out: "stop_outcome env d a s st s'" by blast
  note rng = alarm_index_SomeD [OF idx]
  obtain xs where q: "alarm_queue s d xs" using timer_inv_queue [OF inv] rng by blast
  have clr: "c = FWK_SUCCESS" if "get_irq d s = Some irq" "arch_clear_pending (env_arch env) irq (irq_hw s) = (c, i)" for irq c i
    using clear_pending_ok [of irq "irq_hw s"] lines arch_env that by (simp add: lines_ok_def)
  from out consider (same) w where "s' = s\<lparr>dev_hw := w\<rparr>"
    | (idle) w where "\<not> activated (pool_of s d ! a)" "s' = upd_alarm d a (\<lambda>x. x\<lparr>started := False\<rparr>) (s\<lparr>dev_hw := w\<rparr>)"
    | (removed) irq i h w where "activated (pool_of s d ! a)" "get_irq d s = Some irq"
        "arch_clear_pending (env_arch env) irq (irq_hw s) = (FWK_SUCCESS, i)"
        "fwk_dlist_remove (env_build env) (ActiveQ d) (AlarmNode d a) (timer_heap s) = Some h"
        "s' = upd_alarm d a (\<lambda>x. x\<lparr>started := False, activated := False\<rparr>) (s\<lparr>timer_heap := h, irq_hw := i, dev_hw := w\<rparr>)"
    unfolding stop_outcome_def using clr by (elim disjE exE conjE) blast+
  then show ?thesis
  proof cases
    case same
    then show ?thesis using inv lines by (auto simp: lines_ok_def calmer_same)
  next
    case idle
    have "a \<notin> set xs" using alarm_queueD(5) [OF q] idle(1) by blast
    then have "alarm_queue s' d xs" unfolding idle(2) by (intro alarm_queue_upd_idle) (use q in simp_all)
    moreover have "only_dev d s s'"
      unfolding idle(2) by (rule only_dev_trans [OF only_dev_hw(1) only_dev_upd_alarm]) (use rng in simp)
    ultimately have "timer_inv s'" using timer_inv_only_dev [OF inv] by blast
    moreover have "calmer s s'" unfolding idle(2) by (rule calmer_upd) (use rng in auto)
    ultimately show ?thesis using lines by (auto simp: idle(2) lines_ok_def)
  next
    case removed
    have a: "a \<in> set xs" using alarm_queueD(6) [OF q] removed(1) rng by blast
    obtain h' where h': "fwk_dlist_remove (env_build env) (ActiveQ d) (AlarmNode d a) (timer_heap s) = Some h'"
        "same_outside (dev_nodes d) (timer_heap s) h'"
        "\<And>f. (\<And>x. \<not> activated (f x)) \<Longrightarrow> alarm_queue (upd_alarm d a f (s\<lparr>timer_heap := h'\<rparr>)) d (remove1 a xs)"
      using remove_alarm_queue [OF q a, of "env_build env"] by blast
    have h: "h' = h" using h'(1) removed(4) by simp
    let ?t = "upd_alarm d a (\<lambda>x. x\<lparr>started := False, activated := False\<rparr>) (s\<lparr>timer_heap := h\<rparr>)"
    have "alarm_queue ?t d (remove1 a xs)" using h'(3) h by simp
    moreover have "alarm_queue s' d ys = alarm_queue ?t d ys" for ys
      by (rule alarm_queue_cong) (simp_all add: removed(5) upd_alarm_def upd_dev_def)
    ultimately have "alarm_queue s' d (remove1 a xs)" by simp
    moreover have "only_dev d s s'"
      unfolding removed(5) using h'(2) h rng by (simp add: only_dev_def)
    ultimately have "timer_inv s'" using timer_inv_only_dev [OF inv] by blast
    moreover have "calmer s s'" unfolding removed(5) by (rule calmer_upd) (use rng in auto)
    moreover have "line_ok j i" if "line_ok j (irq_hw s)" for j
      using clear_pending_keeps [OF that, of irq] removed(3) arch_env by simp
    ultimately show ?thesis using lines by (auto simp: removed(5) lines_ok_def)
  qed
qed

lemma start_keeps:
  assumes run: "alarm_start env im i us type cb param s = Some (st, s')" and inv: "timer_inv s" and lines: "lines_ok line_ok s"
  shows "timer_inv s' \<and> lines_ok line_ok s'"
proof (cases "fst (fwk_interrupt_get_current (env_arch env) (Some 0) (irq_hw s)) = FWK_E_STATE")
  case False
  then show ?thesis using run inv lines by (auto simp: alarm_start_def bind_Some_iff bind_assert_iff)
next
  case True
  then obtain d a x c t where idx: "alarm_index i s = Some (d, a)" and x: "get_alarm d a s = Some x"
      and t: "(if started x then alarm_stop env im i s else Some (FWK_SUCCESS, s)) = Some (c, t)"
      and rest: "(if c \<noteq> FWK_SUCCESS then Some (c, t) else start_stopped_alarm env d a us type cb param t) = Some (st, s')"
    using run by (auto simp: alarm_start_def bind_Some_iff bind_assert_iff)
  note rng = alarm_index_SomeD [OF idx]
  obtain xs where q: "alarm_queue s d xs" using timer_inv_queue [OF inv] rng by blast
  have t_ok: "timer_inv t \<and> lines_ok line_ok t"
    using t inv lines stop_keeps by (auto split: if_splits)
  show ?thesis
  proof (cases "c = FWK_SUCCESS")
    case False
    then show ?thesis using rest t_ok by simp
  next
    case c: True
    have idle: "d < length (ctx_table t) \<and> a < length (pool_of t d) \<and> \<not> activated (pool_of t d ! a)"
    proof (cases "started x")
      case True
      then show ?thesis using stop_success_idle [OF _ idx] t c by simp
    next
      case False
      have "x = pool_of s d ! a" using get_alarm_SomeD [OF x] by simp
      then have "\<not> activated (pool_of s d ! a)" using False alarm_queueD(5,6) [OF q, of a] rng by blast
      then show ?thesis using False t rng by simp
    qed
    obtain ys where ys: "alarm_queue t d ys" using timer_inv_queue [of t d] t_ok idle by blast
    have "start_stopped_alarm env d a us type cb param t = Some (st, s')" using rest c by simp
    from start_stopped_keeps [OF this ys] idle
    obtain zs where zs: "alarm_queue s' d zs" "only_dev d t s'" "irq_hw s' = irq_hw t" by blast
    show ?thesis
      using timer_inv_only_dev [OF _ zs(2,1)] only_dev_lines [OF zs(2,3)] t_ok by blast
  qed
qed

lemma callbacks_keep:
  assumes "(callback_step env im line_ok)\<^sup>*\<^sup>* s s'" and "timer_inv s" and "lines_ok line_ok s"
  shows "timer_inv s' \<and> lines_ok line_ok s' \<and> calmer s s'"
  using assms
proof (induction rule: rtranclp_induct)
  case (step t u)
  then have t: "timer_inv t" "lines_ok line_ok t" "calmer s t" by auto
  from step.hyps(2) have "timer_inv u \<and> lines_ok line_ok u \<and> calmer t u"
  proof cases
    case cb_stop
    then show ?thesis using stop_keeps t by blast
  next
    case cb_other
    then show ?thesis using other_keeps t by blast
  qed
  then show ?case using calmer_trans t(3) by blast
qed simp

lemma isr_keeps:
  assumes run: "timer_isr env d s = Some s'" and d: "d < length (ctx_table s)" and cbs: "callbacks_use_api env im line_ok"
    and inv: "timer_inv s" and lines: "lines_ok line_ok s"
  shows "timer_inv s' \<and> lines_ok line_ok s'"
proof -
  obtain xs where q: "alarm_queue s d xs" using timer_inv_queue [OF inv d] by blast
  obtain c t0 where c: "call_driver env d drv_disable s = Some (c, t0)"
    using run by (auto simp: timer_isr_def bind_Some_iff)
  then obtain w where w: "t0 = s\<lparr>dev_hw := w\<rparr>" using call_driver_frame [OF c] by blast
  obtain irq where irq: "get_irq d s = Some irq" using run c w by (auto simp: timer_isr_def bind_Some_iff)
  define i where "i = snd (arch_clear_pending arch irq (irq_hw s))"
  define s1 where "s1 = s\<lparr>dev_hw := w, irq_hw := i\<rparr>"
  have i: "line_ok j i" if "line_ok j (irq_hw s)" for j unfolding i_def by (rule clear_pending_keeps [OF that])
  have ok1: "timer_inv s1" "lines_ok line_ok s1" "alarm_queue s1 d xs"
    using inv lines q i by (auto simp: s1_def lines_ok_def)
  have d1: "d < length (ctx_table s1)" using d by (simp add: s1_def)
  have cl: "snd (fwk_interrupt_clear_pending (env_arch env) irq (irq_hw s)) = i"
    by (simp add: fwk_interrupt_clear_pending_def arch_env i_def)
  have isr: "do { (popped, h) \<leftarrow> fwk_dlist_pop_head (env_build env) (ActiveQ d) (timer_heap s1);
      (case popped of None \<Rightarrow> isr_without_alarm env d (s1\<lparr>timer_heap := h\<rparr>) | Some nd \<Rightarrow> fire_alarm env d nd (s1\<lparr>timer_heap := h\<rparr>)) } = Some s'"
    using run c w irq cl by (simp add: timer_isr_def s1_def Let_def cong: option.case_cong)
  then obtain p h where ph: "fwk_dlist_pop_head (env_build env) (ActiveQ d) (timer_heap s1) = Some (p, h)"
    by (auto simp: bind_Some_iff)
  show ?thesis
  proof (cases xs)
    case Nil
    obtain h' where h': "fwk_dlist_pop_head (env_build env) (ActiveQ d) (timer_heap s1) = Some (None, h')"
        "dlist_rep h' (ActiveQ d) []" "same_outside {ActiveQ d} (timer_heap s1) h'"
      using dlist_pop_head_empty [of "timer_heap s1" "ActiveQ d" "env_build env"] alarm_queueD(2) [OF ok1(3)] Nil by auto
    have p: "p = None" "h = h'" using ph h'(1) by auto
    have "same_outside (dev_nodes d) (timer_heap s1) h"
      by (rule same_outside_mono [OF h'(3) [folded p(2)]]) (simp add: dev_nodes_def)
    then have o: "only_dev d s1 (s1\<lparr>timer_heap := h\<rparr>)" by (rule only_dev_heap)
    have "dlist_detached h (AlarmNode d a)" if "dlist_detached (timer_heap s1) (AlarmNode d a)" for a
      using detached_frames(2) [OF that h'(3)] p(2) by simp
    then have qh: "alarm_queue (s1\<lparr>timer_heap := h\<rparr>) d []"
      using ok1(3) h'(2) p(2) Nil by (simp add: alarm_queue_def)
    have "\<exists>v. s' = s1\<lparr>timer_heap := h, dev_hw := v\<rparr>"
      using isr ph p by (auto simp: isr_without_alarm_def bind_Some_iff split: if_splits dest!: call_driver_frame)
    then show ?thesis
      using timer_inv_only_dev [OF ok1(1) o qh] only_dev_lines [OF o _ ok1(2)] by (auto simp: lines_ok_def)
  next
    case (Cons a ys)
    obtain h' where h': "fwk_dlist_pop_head (env_build env) (ActiveQ d) (timer_heap s1) = Some (Some (AlarmNode d a), h')"
        "same_outside (dev_nodes d) (timer_heap s1) h'"
        "alarm_queue (upd_alarm d a (\<lambda>x. x\<lparr>activated := False\<rparr>) (s1\<lparr>timer_heap := h'\<rparr>)) d ys"
      using pop_alarm_queue [of s1 d a ys "env_build env"] ok1(3) Cons by auto
    have p: "p = Some (AlarmNode d a)" "h = h'" using ph h'(1) by auto
    define s2 where "s2 = upd_alarm d a (\<lambda>x. x\<lparr>activated := False\<rparr>) (s1\<lparr>timer_heap := h\<rparr>)"
    have a: "a < length (pool_of s1 d)" using alarm_queueD(5) [OF ok1(3), of a] Cons by simp
    have o2: "only_dev d s1 s2" using h'(2) p(2) d1 by (simp add: s2_def only_dev_def)
    have ok2: "timer_inv s2" "lines_ok line_ok s2"
      using timer_inv_only_dev [OF ok1(1) o2] h'(3) only_dev_lines [OF o2 _ ok1(2)] by (auto simp: s2_def p(2))
    obtain cb t u where t: "env_code env cb (alarm_param (pool_of s1 d ! a)) s2 = Some t"
        and u: "requeue_periodic env d d a t = Some u" "configure_timer_with_next_alarm env d u = Some s'"
      using isr ph p d1 a by (auto simp: fire_alarm_def s2_def bind_Some_iff Let_def)
    have t_ok: "timer_inv t" "lines_ok line_ok t" "calmer s2 t"
      using callbacks_keep [of s2 t] cbs t ok2 by (auto simp: callbacks_use_api_def)
    have "get_alarm d a s2 = Some ((pool_of s1 d ! a)\<lparr>activated := False\<rparr>)" using d1 a by (simp add: s2_def)
    then obtain x where x: "get_alarm d a t = Some x" "\<not> activated x"
      using t_ok(3) unfolding calmer_def by fastforce
    note xt = get_alarm_SomeD [OF x(1)]
    obtain zs where zs: "alarm_queue t d zs" using timer_inv_queue [OF t_ok(1)] xt by blast
    obtain vs where vs: "alarm_queue u d vs" "only_dev d t u" "irq_hw u = irq_hw t"
      using requeue_keeps [OF u(1) zs] xt x(2) by blast
    have "timer_inv u" "lines_ok line_ok u"
      using timer_inv_only_dev [OF t_ok(1) vs(2,1)] only_dev_lines [OF vs(2,3) t_ok(2)] by auto
    then show ?thesis using configure_frame [OF u(2)] by (auto simp: lines_ok_def)
  qed
qed

lemma steps_keep:
  assumes "(timer_step env im line_ok)\<^sup>*\<^sup>* s s'" and "timer_inv s" and "lines_ok line_ok s" and "callbacks_use_api env im line_ok"
  shows "timer_inv s' \<and> lines_ok line_ok s'"
  using assms
proof (induction rule: rtranclp_induct)
  case (step t u)
  then have t: "timer_inv t" "lines_ok line_ok t" by auto
  from step.hyps(2) show ?case
  proof cases
    case step_start
    then show ?thesis using start_keeps t by blast
  next
    case step_stop
    then show ?thesis using stop_keeps t by blast
  next
    case step_isr
    then show ?thesis using isr_keeps t step.prems(3) by blast
  next
    case step_remaining
    then show ?thesis using next_alarm_frame t by (fastforce simp: lines_ok_def)
  next
    case step_other
    then show ?thesis using other_keeps t by blast
  qed
qed simp

end

section \<open>The contract of a driver\<close>

text \<open>The device \<open>d\<close> of the module is bound to a driver; the length of a period in ticks.\<close>

definition driven_by :: "('d, 'i, 'w, 'z) tenv \<Rightarrow> 'w timer_driver \<Rightarrow> fwk_id \<Rightarrow> nat \<Rightarrow> ('d, 'i, 'w, 'z) timer_ctx_scheme \<Rightarrow> bool" where
  "driven_by env drv dev_id d s \<longleftrightarrow>
     (\<exists>c p. get_dev d s = Some c \<and> driver c = Some p \<and> env_drivers env p = drv \<and> driver_dev_id c = dev_id)"

definition ticks_of :: "32 word \<Rightarrow> 32 word \<Rightarrow> 64 word" where
  "ticks_of frequency us = (ucast frequency * ucast us) div 1000000"

lemma driven_frames [simp]:
  "driven_by env drv i d (s\<lparr>dev_hw := w\<rparr>) = driven_by env drv i d s" "driven_by env drv i d (s\<lparr>timer_heap := h\<rparr>) = driven_by env drv i d s"
  "driven_by env drv i d (s\<lparr>irq_hw := j\<rparr>) = driven_by env drv i d s"
  by (simp_all add: driven_by_def get_dev_def)

lemma driven_upd_alarm [simp]: "driven_by env drv i d (upd_alarm e a f s) = driven_by env drv i d s"
  by (cases "e = d") (auto simp: driven_by_def get_dev_def)

text \<open>Nothing but the links, the device table and the timer hardware differs.\<close>

definition only_timer :: "('d, 'i, 'w, 'z) timer_ctx_scheme \<Rightarrow> ('d, 'i, 'w, 'z) timer_ctx_scheme \<Rightarrow> bool" where
  "only_timer t s \<longleftrightarrow> s = t\<lparr>timer_heap := timer_heap s, ctx_table := ctx_table s, dev_hw := dev_hw s\<rparr>"

lemma only_timer_hw [simp]: "only_timer t (t\<lparr>dev_hw := w\<rparr>)" "only_timer t t"
  by (simp_all add: only_timer_def)

lemma only_timer_allocs: "only_timer t s \<Longrightarrow> allocs s = allocs t"
  unfolding only_timer_def by (erule ssubst) simp

lemma driven_table: "ctx_table t = ctx_table s \<Longrightarrow> driven_by env drv i d t = driven_by env drv i d s"
  by (simp add: driven_by_def get_dev_def)

text \<open>
  What the timer module expects of a driver, on the states \<open>hw_ok\<close> of the hardware: every call
  succeeds; enabling and disabling switch \<open>armed\<close>; the comparator is set to the requested time,
  or to \<open>margin\<close> ticks from now when that is later; a counter value that is read lies between the
  values before and after the call.
\<close>

locale timer_device =
  fixes drv :: "'w timer_driver" and dev_id :: fwk_id and hw_ok :: "'w \<Rightarrow> bool" and armed :: "'w \<Rightarrow> bool"
    and compare_value :: "'w \<Rightarrow> 64 word" and clock_now :: "'w \<Rightarrow> 64 word" and ticks_per_second :: "32 word" and margin :: "64 word"
  assumes enable_law: "hw_ok w \<Longrightarrow> \<exists>f w'. drv_enable drv = Some f \<and> f dev_id w = Some (FWK_SUCCESS, w') \<and> hw_ok w' \<and>
      armed w' \<and> compare_value w' = compare_value w \<and> clock_now w' = clock_now w"
    and disable_law: "hw_ok w \<Longrightarrow> \<exists>f w'. drv_disable drv = Some f \<and> f dev_id w = Some (FWK_SUCCESS, w') \<and> hw_ok w' \<and>
      \<not> armed w' \<and> clock_now w' = clock_now w"
    and set_timer_law: "hw_ok w \<Longrightarrow> \<exists>f w' u. drv_set_timer drv = Some f \<and> f dev_id ts w = Some (FWK_SUCCESS, w') \<and> hw_ok w' \<and>
      compare_value w' = max (u + margin) ts \<and> clock_now w \<le> u \<and> u \<le> clock_now w'"
    and counter_law: "hw_ok w \<Longrightarrow> \<exists>f v w'. drv_get_counter drv = Some f \<and> f dev_id w = Some ((FWK_SUCCESS, v), w') \<and> hw_ok w' \<and>
      clock_now w \<le> v \<and> v \<le> clock_now w'"
    and frequency_law: "hw_ok w \<Longrightarrow> \<exists>f. drv_get_frequency drv = Some f \<and> f dev_id w = Some ((FWK_SUCCESS, ticks_per_second), w)"
begin

lemma driven_call:
  "driven_by env drv dev_id d s \<Longrightarrow> sel drv = Some f \<Longrightarrow> f dev_id (dev_hw s) = Some (r, w) \<Longrightarrow>
     call_driver env d sel s = Some (r, s\<lparr>dev_hw := w\<rparr>)"
  by (auto simp: driven_by_def call_driver_def)

lemma call_enable:
  assumes "driven_by env drv dev_id d s" "hw_ok (dev_hw s)"
  shows "\<exists>w. call_driver env d drv_enable s = Some (FWK_SUCCESS, s\<lparr>dev_hw := w\<rparr>) \<and> hw_ok w \<and> armed w \<and>
    compare_value w = compare_value (dev_hw s) \<and> clock_now w = clock_now (dev_hw s)"
  using enable_law [OF assms(2)] driven_call [OF assms(1), of drv_enable] by blast

lemma call_disable:
  assumes "driven_by env drv dev_id d s" "hw_ok (dev_hw s)"
  shows "\<exists>w. call_driver env d drv_disable s = Some (FWK_SUCCESS, s\<lparr>dev_hw := w\<rparr>) \<and> hw_ok w \<and> \<not> armed w \<and>
    clock_now w = clock_now (dev_hw s)"
  using disable_law [OF assms(2)] driven_call [OF assms(1), of drv_disable] by blast

lemma call_counter:
  assumes "driven_by env drv dev_id d s" "hw_ok (dev_hw s)"
  shows "\<exists>v w. call_driver env d drv_get_counter s = Some ((FWK_SUCCESS, v), s\<lparr>dev_hw := w\<rparr>) \<and> hw_ok w \<and>
    clock_now (dev_hw s) \<le> v \<and> v \<le> clock_now w"
  using counter_law [OF assms(2)] driven_call [OF assms(1), of drv_get_counter] by blast

lemma call_set_timer:
  assumes "driven_by env drv dev_id d s" "hw_ok (dev_hw s)"
  shows "\<exists>w u. call_driver env d (\<lambda>x. map_option (\<lambda>f i. f i ts) (drv_set_timer x)) s = Some (FWK_SUCCESS, s\<lparr>dev_hw := w\<rparr>) \<and>
    hw_ok w \<and> compare_value w = max (u + margin) ts \<and> clock_now (dev_hw s) \<le> u \<and> u \<le> clock_now w"
proof -
  obtain f w u where "drv_set_timer drv = Some f" "f dev_id ts (dev_hw s) = Some (FWK_SUCCESS, w)" "hw_ok w"
      "compare_value w = max (u + margin) ts" "clock_now (dev_hw s) \<le> u" "u \<le> clock_now w"
    using set_timer_law [OF assms(2)] by blast
  then show ?thesis
    using driven_call [OF assms(1), of "\<lambda>x. map_option (\<lambda>f i. f i ts) (drv_set_timer x)" "\<lambda>i. f i ts"] by (intro exI [of _ w] exI [of _ u]) simp
qed

lemma time_to_timestamp_ok:
  assumes "driven_by env drv dev_id d s" "hw_ok (dev_hw s)"
  shows "time_to_timestamp_ctx env d us ts s = Some ((FWK_SUCCESS, ticks_of ticks_per_second us), s)"
proof -
  obtain f where "drv_get_frequency drv = Some f" "f dev_id (dev_hw s) = Some ((FWK_SUCCESS, ticks_per_second), dev_hw s)"
    using frequency_law [OF assms(2)] by blast
  then have "call_driver env d drv_get_frequency s = Some ((FWK_SUCCESS, ticks_per_second), s)"
    using driven_call [OF assms(1), of drv_get_frequency f] by simp
  then show ?thesis by (simp add: time_to_timestamp_ctx_def ticks_of_def)
qed

lemma timestamp_from_now_ok:
  assumes "driven_by env drv dev_id d s" "hw_ok (dev_hw s)"
  shows "\<exists>v w. timestamp_from_now_ctx env d us ts s = Some ((FWK_SUCCESS, ticks_of ticks_per_second us + v), s\<lparr>dev_hw := w\<rparr>) \<and> hw_ok w \<and>
    clock_now (dev_hw s) \<le> v \<and> v \<le> clock_now w"
  using call_counter [OF assms] time_to_timestamp_ok [OF assms, of us ts] by (auto simp: timestamp_from_now_ctx_def)

text \<open>With alarms in the queue, the hardware is armed for the first of them: neither early nor late.\<close>

lemma configure_arms:
  assumes q: "alarm_queue s d xs" "xs \<noteq> []" and "driven_by env drv dev_id d s" "hw_ok (dev_hw s)"
  shows "\<exists>w u. configure_timer_with_next_alarm env d s = Some (s\<lparr>dev_hw := w\<rparr>) \<and> hw_ok w \<and> armed w \<and>
    compare_value w = max (u + margin) (expiry s d (hd xs)) \<and> clock_now (dev_hw s) \<le> u \<and> u \<le> clock_now w"
proof -
  have a: "get_alarm d (hd xs) s = Some (pool_of s d ! hd xs)"
    using alarm_queueD(1,5) [OF q(1)] q(2) by simp
  obtain w1 u where w1: "call_driver env d (\<lambda>x. map_option (\<lambda>f i. f i (expiry s d (hd xs))) (drv_set_timer x)) s =
      Some (FWK_SUCCESS, s\<lparr>dev_hw := w1\<rparr>)" "hw_ok w1" "compare_value w1 = max (u + margin) (expiry s d (hd xs))"
      "clock_now (dev_hw s) \<le> u" "u \<le> clock_now w1"
    using call_set_timer [OF assms(3,4)] by blast
  obtain w2 where "call_driver env d drv_enable (s\<lparr>dev_hw := w1\<rparr>) = Some (FWK_SUCCESS, s\<lparr>dev_hw := w2\<rparr>)"
      "hw_ok w2" "armed w2" "compare_value w2 = compare_value w1" "clock_now w2 = clock_now w1"
    using call_enable [of env d "s\<lparr>dev_hw := w1\<rparr>"] assms(3) w1(2) by auto
  then show ?thesis
    using queue_head [OF q(1)] q(2) a w1 by (intro exI [of _ w2] exI [of _ u]) (simp add: configure_timer_with_next_alarm_def)
qed

lemma configure_empty:
  "alarm_queue s d [] \<Longrightarrow> configure_timer_with_next_alarm env d s = Some s"
  using queue_head [of s d "[]"] by (simp add: configure_timer_with_next_alarm_def)

text \<open>Starting an alarm that is not queued succeeds and arms the hardware.\<close>

lemma start_stopped_ok:
  assumes q: "alarm_queue s d xs" and a: "a < length (pool_of s d)" "\<not> activated (pool_of s d ! a)"
    and drv: "driven_by env drv dev_id d s" "hw_ok (dev_hw s)"
  shows "\<exists>s' ys v u. start_stopped_alarm env d a us type cb p s = Some (FWK_SUCCESS, s') \<and>
    alarm_queue s' d ys \<and> set ys = insert a (set xs) \<and> expiry s' d a = ticks_of ticks_per_second us + v \<and>
    hw_ok (dev_hw s') \<and> armed (dev_hw s') \<and> compare_value (dev_hw s') = max (u + margin) (expiry s' d (hd ys)) \<and>
    clock_now (dev_hw s) \<le> v \<and> v \<le> u \<and> u \<le> clock_now (dev_hw s')"
proof -
  have d: "d < length (ctx_table s)" by (rule alarm_queueD(1) [OF q])
  have na: "a \<notin> set xs" using alarm_queueD(5) [OF q] a(2) by blast
  define s1 where "s1 = upd_alarm d a (\<lambda>x. x\<lparr>microseconds := us, alarm_callback := cb, alarm_param := p,
         periodic := (type = MOD_TIMER_ALARM_TYPE_PERIODIC), started := True\<rparr>) s"
  have q1: "alarm_queue s1 d xs" unfolding s1_def by (rule alarm_queue_upd_idle [OF q na]) simp
  have g1: "get_alarm d a s1 = Some (pool_of s1 d ! a)" using d a(1) by (simp add: s1_def)
  obtain v w where vw: "timestamp_from_now_ctx env d us (expiry s1 d a) s1 = Some ((FWK_SUCCESS, ticks_of ticks_per_second us + v), s1\<lparr>dev_hw := w\<rparr>)"
      "hw_ok w" "clock_now (dev_hw s) \<le> v" "v \<le> clock_now w"
    using timestamp_from_now_ok [of env d s1 us "expiry s1 d a"] drv by (auto simp: s1_def)
  define s2 where "s2 = upd_alarm d a (\<lambda>x. x\<lparr>timestamp := ticks_of ticks_per_second us + v\<rparr>) (s1\<lparr>dev_hw := w\<rparr>)"
  have q2: "alarm_queue s2 d xs" unfolding s2_def by (rule alarm_queue_upd_idle [OF _ na]) (use q1 in simp_all)
  obtain u where u: "call_driver env d drv_disable s2 = Some (FWK_SUCCESS, s2\<lparr>dev_hw := u\<rparr>)" "hw_ok u" "clock_now u = clock_now w"
    using call_disable [of env d s2] drv vw(2) by (auto simp: s2_def s1_def)
  let ?s3 = "s2\<lparr>dev_hw := u\<rparr>"
  have p2: "a < length (pool_of s2 d)" "\<not> activated (pool_of s2 d ! a)" "started (pool_of s2 d ! a)" "expiry s2 d a = ticks_of ticks_per_second us + v"
    using d a by (simp_all add: s2_def s1_def)
  obtain h where h: "insert_alarm_ctx_into_active_queue env d d a ?s3 =
          Some (upd_alarm d a (\<lambda>x. x\<lparr>activated := True\<rparr>) (?s3\<lparr>timer_heap := h\<rparr>))"
        "alarm_queue (upd_alarm d a (\<lambda>x. x\<lparr>activated := True\<rparr>) (?s3\<lparr>timer_heap := h\<rparr>)) d (insort_key (expiry ?s3 d) a xs)"
    using insert_alarm_queue [of ?s3 d xs a env] q2 p2 by auto
  let ?ys = "insort_key (expiry ?s3 d) a xs"
  let ?s4 = "upd_alarm d a (\<lambda>x. x\<lparr>activated := True\<rparr>) (?s3\<lparr>timer_heap := h\<rparr>)"
  have "?ys \<noteq> []" by (cases xs) auto
  moreover have "driven_by env drv dev_id d ?s4" "hw_ok (dev_hw ?s4)" "dev_hw ?s4 = u" using drv u(2) by (simp_all add: s2_def s1_def)
  ultimately obtain w4 n where w4: "configure_timer_with_next_alarm env d ?s4 = Some (?s4\<lparr>dev_hw := w4\<rparr>)" "hw_ok w4" "armed w4"
      "compare_value w4 = max (n + margin) (expiry ?s4 d (hd ?ys))" "clock_now u \<le> n" "n \<le> clock_now w4"
    using configure_arms [OF h(2)] by metis
  have run: "start_stopped_alarm env d a us type cb p s = Some (FWK_SUCCESS, ?s4\<lparr>dev_hw := w4\<rparr>)"
    using vw(1) u(1) h(1) w4(1) g1 by (simp add: start_stopped_alarm_def s1_def [symmetric] s2_def [symmetric])
  have "expiry (?s4\<lparr>dev_hw := w4\<rparr>) d a = ticks_of ticks_per_second us + v"
    using p2 alarm_queueD(1) [OF q2] by simp
  then show ?thesis
    using run h(2) w4 vw(3,4) u(3)
    by (intro exI [of _ "?s4\<lparr>dev_hw := w4\<rparr>"] exI [of _ ?ys] exI [of _ v] exI [of _ n]) (simp add: set_insort_key)
qed

text \<open>
  The interrupt handler with an alarm in the queue, when the callback leaves the alarms and the
  timer hardware alone.
\<close>

lemma isr_fires:
  assumes q: "alarm_queue s d (a # xs)" and drv: "driven_by env drv dev_id d s" "hw_ok (dev_hw s)"
    and irq: "get_irq d s = Some irq" and cb: "alarm_callback (pool_of s d ! a) = Some cb"
    and quiet: "\<And>t. \<exists>u. env_code env cb (alarm_param (pool_of s d ! a)) t = Some u \<and> timer_heap u = timer_heap t \<and>
      ctx_table u = ctx_table t \<and> dev_hw u = dev_hw t"
  shows "\<exists>w h t0 t s' ys u.
    t0 = upd_alarm d a (\<lambda>x. x\<lparr>activated := False\<rparr>)
      (s\<lparr>dev_hw := w, irq_hw := snd (fwk_interrupt_clear_pending (env_arch env) irq (irq_hw s)), timer_heap := h\<rparr>) \<and>
    alarm_queue t0 d xs \<and> \<not> armed w \<and> clock_now w = clock_now (dev_hw s) \<and>
    env_code env cb (alarm_param (pool_of s d ! a)) t0 = Some t \<and>
    timer_isr env d s = Some s' \<and> only_timer t s' \<and>
    alarm_queue s' d ys \<and>
    ys = (if periodic (pool_of s d ! a) then insort_key (expiry s' d) a xs else xs) \<and>
    (periodic (pool_of s d ! a) \<longrightarrow> expiry s' d a = expiry s d a + ticks_of ticks_per_second (microseconds (pool_of s d ! a))) \<and>
    (if ys = [] then \<not> armed (dev_hw s')
     else armed (dev_hw s') \<and> compare_value (dev_hw s') = max (u + margin) (expiry s' d (hd ys)) \<and>
       clock_now (dev_hw s) \<le> u \<and> u \<le> clock_now (dev_hw s'))"
proof -
  note D = alarm_queueD [OF q]
  obtain w where w: "call_driver env d drv_disable s = Some (FWK_SUCCESS, s\<lparr>dev_hw := w\<rparr>)" "hw_ok w"
      "\<not> armed w" "clock_now w = clock_now (dev_hw s)"
    using call_disable [OF drv] by blast
  define i where "i = snd (fwk_interrupt_clear_pending (env_arch env) irq (irq_hw s))"
  define s1 where "s1 = s\<lparr>dev_hw := w, irq_hw := i\<rparr>"
  have q1: "alarm_queue s1 d (a # xs)" using q by (simp add: s1_def)
  obtain h where h: "fwk_dlist_pop_head (env_build env) (ActiveQ d) (timer_heap s1) = Some (Some (AlarmNode d a), h)"
      "alarm_queue (upd_alarm d a (\<lambda>x. x\<lparr>activated := False\<rparr>) (s1\<lparr>timer_heap := h\<rparr>)) d xs"
    using pop_alarm_queue [OF q1, of "env_build env"] by blast
  define s2 where "s2 = upd_alarm d a (\<lambda>x. x\<lparr>activated := False\<rparr>) (s1\<lparr>timer_heap := h\<rparr>)"
  obtain t where t: "env_code env cb (alarm_param (pool_of s d ! a)) s2 = Some t" "timer_heap t = timer_heap s2"
      "ctx_table t = ctx_table s2" "dev_hw t = dev_hw s2"
    using quiet [of s2] by blast
  have s2: "s2 = upd_alarm d a (\<lambda>x. x\<lparr>activated := False\<rparr>)
      (s\<lparr>dev_hw := w, irq_hw := snd (fwk_interrupt_clear_pending (env_arch env) irq (irq_hw s)), timer_heap := h\<rparr>)"
    by (simp add: s2_def s1_def i_def)
  have w_t: "dev_hw t = w" using t(4) by (simp add: s2_def s1_def)
  have q2: "alarm_queue s2 d xs" using h(2) by (simp add: s2_def)
  have qt: "alarm_queue t d xs" using h(2) alarm_queue_cong [OF t(2,3)] by (simp add: s2_def)
  have drvt: "driven_by env drv dev_id d t" "hw_ok (dev_hw t)"
    using drv w(2) driven_table [OF t(3)] t(4) by (simp_all add: s2_def s1_def)
  have pa: "a < length (pool_of s d)" "started (pool_of s d ! a)" and na: "a \<notin> set xs" using D(4,5) by auto
  have pt: "pool_of t d = (pool_of s d)[a := (pool_of s d ! a)\<lparr>activated := False\<rparr>]"
    using D(1) t(3) by (simp add: s2_def s1_def)
  have dt: "d < length (ctx_table t)" using D(1) t(3) by (simp add: s2_def s1_def)
  have isr: "timer_isr env d s = do { s \<leftarrow> requeue_periodic env d d a t; configure_timer_with_next_alarm env d s }"
  proof -
    have "timer_isr env d s = fire_alarm env d (AlarmNode d a) (s1\<lparr>timer_heap := h\<rparr>)"
      using w(1) irq h(1) by (simp add: timer_isr_def Let_def s1_def i_def)
    moreover have "get_alarm d a s1 = Some (pool_of s d ! a)" using D(1) pa(1) by (simp add: s1_def)
    ultimately show ?thesis using cb t(1) by (simp add: fire_alarm_def Let_def s2_def)
  qed
  note ran = s2 q2 w(3,4) t(1)
  show ?thesis
  proof (cases "periodic (pool_of s d ! a)")
    case False
    then have rq: "timer_isr env d s = configure_timer_with_next_alarm env d t"
      using isr dt pt pa(1) by (simp add: requeue_periodic_def)
    show ?thesis
    proof (cases "xs = []")
      case True
      then have "timer_isr env d s = Some t" using rq qt configure_empty [of t d env] by simp
      then show ?thesis
        using ran False True qt w_t
        by (intro exI [of _ w] exI [of _ h] exI [of _ s2] exI [of _ t] exI [of _ "[]"] exI [of _ 0]) simp
    next
      case xs: False
      obtain v u where v: "configure_timer_with_next_alarm env d t = Some (t\<lparr>dev_hw := v\<rparr>)" "armed v"
          "compare_value v = max (u + margin) (expiry t d (hd xs))" "clock_now (dev_hw t) \<le> u" "u \<le> clock_now v"
        using configure_arms [OF qt xs drvt] by blast
      then show ?thesis
        using ran rq False xs qt w_t
        by (intro exI [of _ w] exI [of _ h] exI [of _ s2] exI [of _ t] exI [of _ "t\<lparr>dev_hw := v\<rparr>"] exI [of _ xs] exI [of _ u]) simp
    qed
  next
    case True
    let ?ts = "ticks_of ticks_per_second (microseconds (pool_of s d ! a))"
    define t1 where "t1 = upd_alarm d a (\<lambda>x. x\<lparr>timestamp := timestamp x + ?ts\<rparr>) t"
    have q3: "alarm_queue t1 d xs" unfolding t1_def by (rule alarm_queue_upd_idle [OF qt na]) simp
    have p3: "a < length (pool_of t1 d)" "\<not> activated (pool_of t1 d ! a)" "started (pool_of t1 d ! a)"
        "expiry t1 d a = expiry s d a + ?ts"
      using dt pt pa by (simp_all add: t1_def)
    obtain g where g: "insert_alarm_ctx_into_active_queue env d d a t1 =
          Some (upd_alarm d a (\<lambda>x. x\<lparr>activated := True\<rparr>) (t1\<lparr>timer_heap := g\<rparr>))"
        "alarm_queue (upd_alarm d a (\<lambda>x. x\<lparr>activated := True\<rparr>) (t1\<lparr>timer_heap := g\<rparr>)) d (insort_key (expiry t1 d) a xs)"
      using insert_alarm_queue [OF q3 p3(1,2,3), of env] by blast
    let ?u = "upd_alarm d a (\<lambda>x. x\<lparr>activated := True\<rparr>) (t1\<lparr>timer_heap := g\<rparr>)"
    have eu: "expiry (?u\<lparr>dev_hw := v\<rparr>) d = expiry t1 d" for v
      using alarm_queueD(1) [OF q3] p3(1) by (auto simp: fun_eq_iff nth_list_update)
    have "requeue_periodic env d d a t = Some ?u"
      using time_to_timestamp_ok [OF drvt, of "microseconds (pool_of s d ! a)" 0] g(1) dt pt pa True
      by (simp add: requeue_periodic_def t1_def)
    moreover have "insort_key (expiry t1 d) a xs \<noteq> []" by (cases xs) auto
    moreover have "driven_by env drv dev_id d ?u" "hw_ok (dev_hw ?u)" using drvt by (simp_all add: t1_def)
    ultimately obtain v u where cf: "configure_timer_with_next_alarm env d ?u = Some (?u\<lparr>dev_hw := v\<rparr>)" "armed v"
        "compare_value v = max (u + margin) (expiry ?u d (hd (insort_key (expiry t1 d) a xs)))" "clock_now (dev_hw ?u) \<le> u" "u \<le> clock_now v"
      and rq: "requeue_periodic env d d a t = Some ?u"
      using configure_arms [OF g(2)] by blast
    have "dev_hw ?u = w" using w_t by (simp add: t1_def)
    then have v: "timer_isr env d s = Some (?u\<lparr>dev_hw := v\<rparr>)" "clock_now w \<le> u"
      using isr rq cf(1,4) by simp_all
    note v = v cf(2,3,5)
    define s' where "s' = ?u\<lparr>dev_hw := v\<rparr>"
    have "only_timer t s'" by (simp add: only_timer_def s'_def t1_def upd_alarm_def upd_dev_def)
    moreover have "alarm_queue s' d (insort_key (expiry s' d) a xs)"
      using g(2) unfolding s'_def eu by simp
    moreover have ex: "expiry s' d b = expiry t1 d b" "expiry ?u d b = expiry t1 d b" for b
      using eu [of v] eu [of "dev_hw ?u"] by (simp_all add: s'_def fun_eq_iff)
    moreover have "dev_hw s' = v" by (simp add: s'_def)
    moreover have "insort_key (expiry s' d) a xs \<noteq> []" by (cases xs) auto
    moreover have "timer_isr env d s = Some s'" using v(1) by (simp add: s'_def)
    ultimately show ?thesis
      using ran v(2-5) True p3(4) unfolding ex
      by (intro exI [of _ w] exI [of _ h] exI [of _ s2] exI [of _ t] exI [of _ s']
          exI [of _ "insort_key (expiry t1 d) a xs"] exI [of _ u]) (simp add: ex)
  qed
qed

end

end
