(* ===== verification/Mod_Gtimer.thy ===== *)
theory Mod_Gtimer
  imports Mod_Alarm
begin

unbundle bit_operations_syntax

text \<open>
  The driver for Arm generic timers, \<^verbatim>\<open>module/gtimer/src/mod_gtimer.c\<close>, as a provider of the timer
  module's driver interface.

  The hardware is a set of register frames, selected by their base address. The 64-bit counter
  runs on its own: \<open>count n\<close> is its value when the processor makes its \<open>n\<close>-th read of a counter
  register, and the two halves are read by separate accesses.
\<close>

section \<open>Registers, configuration and contexts\<close>

record cntbase_reg =
  P_CTL :: "32 word"
  P_CVALL :: "32 word"
  P_CVALH :: "32 word"

record cntctl_reg =
  CTL_FRQ :: "32 word"
  CTL_ACR :: "32 word"

record cntcontrol_reg =
  CONTROL_CR :: "32 word"
  CONTROL_FID0 :: "32 word"
  CONTROL_impdef :: "8 word \<Rightarrow> 32 word"

record impdef_config =
  impdef_offset :: "8 word"
  impdef_value :: "32 word"

record mod_gtimer_dev_config =
  cfg_hw_timer :: "32 word"
  cfg_hw_counter :: "32 word"
  cfg_control :: "32 word"
  cfg_frequency :: "32 word"
  cfg_clock_id :: fwk_id
  cfg_skip_cntcontrol_init :: bool
  cfg_syscnt_impdef_cfg :: "impdef_config list option"
  cfg_syscnt_impdef_cfg_cnt :: "8 word"

record gtimer_dev_ctx =
  hw_timer :: "32 word"
  hw_counter :: "32 word"
  control :: "32 word"
  gt_config :: "mod_gtimer_dev_config option"

record gtimer_hw =
  gt_initialized :: bool
  gt_table :: "gtimer_dev_ctx list"
  cntbase :: "32 word \<Rightarrow> cntbase_reg"
  cntctl :: "32 word \<Rightarrow> cntctl_reg"
  cntcontrol :: "32 word \<Rightarrow> cntcontrol_reg"
  count :: "nat \<Rightarrow> 64 word"
  reads :: nat

named_theorems gtimer_consts \<open>register bits of the generic timer\<close>

definition CNTBASE_P_CTL_ENABLE :: "32 word" where [gtimer_consts]: "CNTBASE_P_CTL_ENABLE = 1"
definition CNTBASE_P_CTL_IMASK :: "32 word" where [gtimer_consts]: "CNTBASE_P_CTL_IMASK = 2"
definition CNTCONTROL_CR_EN :: "32 word" where [gtimer_consts]: "CNTCONTROL_CR_EN = 1"
definition CNTCONTROL_CR_FCREQ :: "32 word" where [gtimer_consts]: "CNTCONTROL_CR_FCREQ = 0x100"
definition GTIMER_FREQUENCY_MIN_HZ :: "32 word" where [gtimer_consts]: "GTIMER_FREQUENCY_MIN_HZ = 1"
definition GTIMER_FREQUENCY_MAX_HZ :: "32 word" where [gtimer_consts]: "GTIMER_FREQUENCY_MAX_HZ = 1000000000"
definition GTIMER_MIN_TIMESTAMP :: "64 word" where [gtimer_consts]: "GTIMER_MIN_TIMESTAMP = 2000"
definition MAX_IMPDEF_CFG_CNT :: "8 word" where [gtimer_consts]: "MAX_IMPDEF_CFG_CNT = 16"

definition IS_IMPDEF_OFFSET_VALID :: "8 word \<Rightarrow> bool" where
  "IS_IMPDEF_OFFSET_VALID off \<longleftrightarrow> off \<ge> 0xC0 \<and> off \<le> 0xFC \<and> off AND 3 = 0"

definition gt_dev :: "fwk_id \<Rightarrow> gtimer_hw \<Rightarrow> (nat \<times> gtimer_dev_ctx) option" where
  "gt_dev dev_id w =
     do {
       e \<leftarrow> fwk_id_get_element_idx dev_id;
       if unat e < length (gt_table w) then Some (unat e, gt_table w ! unat e) else None
     }"

section \<open>The counter\<close>

definition read_PCTH :: "gtimer_hw \<Rightarrow> 32 word \<times> gtimer_hw" where
  "read_PCTH w = (ucast (drop_bit 32 (count w (reads w))), w\<lparr>reads := Suc (reads w)\<rparr>)"

definition read_PCTL :: "gtimer_hw \<Rightarrow> 32 word \<times> gtimer_hw" where
  "read_PCTL w = (ucast (count w (reads w)), w\<lparr>reads := Suc (reads w)\<rparr>)"

partial_function (option) mod_gtimer_get_counter :: "gtimer_hw \<Rightarrow> (64 word \<times> gtimer_hw) option" where
  "mod_gtimer_get_counter w =
     (case read_PCTH w of (counter_high, w) \<Rightarrow>
      case read_PCTL w of (counter_low, w) \<Rightarrow>
      case read_PCTH w of (again, w) \<Rightarrow>
        if counter_high \<noteq> again then mod_gtimer_get_counter w
        else Some (push_bit 32 (ucast counter_high) OR ucast counter_low, w))"

section \<open>The driver interface\<close>

definition upd_cntbase :: "32 word \<Rightarrow> (cntbase_reg \<Rightarrow> cntbase_reg) \<Rightarrow> gtimer_hw \<Rightarrow> gtimer_hw" where
  "upd_cntbase b f w = w\<lparr>cntbase := (cntbase w)(b := f (cntbase w b))\<rparr>"

definition gt_enable :: "fwk_id \<Rightarrow> gtimer_hw \<Rightarrow> (int \<times> gtimer_hw) option" where
  "gt_enable dev_id w =
     do {
       (_, ctx) \<leftarrow> gt_dev dev_id w;
       let w = upd_cntbase (hw_timer ctx) (\<lambda>r. r\<lparr>P_CTL := P_CTL r AND NOT CNTBASE_P_CTL_IMASK\<rparr>) w;
       let w = upd_cntbase (hw_timer ctx) (\<lambda>r. r\<lparr>P_CTL := P_CTL r OR CNTBASE_P_CTL_ENABLE\<rparr>) w;
       Some (FWK_SUCCESS, w)
     }"

definition gt_disable :: "fwk_id \<Rightarrow> gtimer_hw \<Rightarrow> (int \<times> gtimer_hw) option" where
  "gt_disable dev_id w =
     do {
       (_, ctx) \<leftarrow> gt_dev dev_id w;
       let w = upd_cntbase (hw_timer ctx) (\<lambda>r. r\<lparr>P_CTL := P_CTL r OR CNTBASE_P_CTL_IMASK\<rparr>) w;
       let w = upd_cntbase (hw_timer ctx) (\<lambda>r. r\<lparr>P_CTL := P_CTL r AND NOT CNTBASE_P_CTL_ENABLE\<rparr>) w;
       Some (FWK_SUCCESS, w)
     }"

definition gt_get_counter :: "fwk_id \<Rightarrow> gtimer_hw \<Rightarrow> ((int \<times> 64 word) \<times> gtimer_hw) option" where
  "gt_get_counter dev_id w =
     do {
       _ \<leftarrow> gt_dev dev_id w;
       (value, w) \<leftarrow> mod_gtimer_get_counter w;
       Some ((FWK_SUCCESS, value), w)
     }"

definition gt_set_timer :: "fwk_id \<Rightarrow> 64 word \<Rightarrow> gtimer_hw \<Rightarrow> (int \<times> gtimer_hw) option" where
  "gt_set_timer dev_id ts w =
     do {
       ((status, counter), w) \<leftarrow> gt_get_counter dev_id w;
       if status \<noteq> FWK_SUCCESS then Some (status, w)
       else do {
         let ts = max (counter + GTIMER_MIN_TIMESTAMP) ts;
         (_, ctx) \<leftarrow> gt_dev dev_id w;
         let w = upd_cntbase (hw_timer ctx) (\<lambda>r. r\<lparr>P_CVALL := ucast (ts AND 0xFFFFFFFF)\<rparr>) w;
         let w = upd_cntbase (hw_timer ctx) (\<lambda>r. r\<lparr>P_CVALH := ucast (drop_bit 32 ts)\<rparr>) w;
         Some (FWK_SUCCESS, w)
       }
     }"

definition gt_get_timer :: "fwk_id \<Rightarrow> gtimer_hw \<Rightarrow> ((int \<times> 64 word) \<times> gtimer_hw) option" where
  "gt_get_timer dev_id w =
     do {
       (_, ctx) \<leftarrow> gt_dev dev_id w;
       let counter_low = P_CVALL (cntbase w (hw_timer ctx));
       let counter_high = P_CVALH (cntbase w (hw_timer ctx));
       Some ((FWK_SUCCESS, push_bit 32 (ucast counter_high) OR ucast counter_low), w)
     }"

definition gt_get_frequency :: "fwk_id \<Rightarrow> gtimer_hw \<Rightarrow> ((int \<times> 32 word) \<times> gtimer_hw) option" where
  "gt_get_frequency dev_id w =
     do {
       (_, ctx) \<leftarrow> gt_dev dev_id w;
       config \<leftarrow> gt_config ctx;
       Some ((FWK_SUCCESS, cfg_frequency config), w)
     }"

definition gtimer_driver :: "gtimer_hw timer_driver" where
  "gtimer_driver =
     \<lparr>drv_enable = Some gt_enable, drv_disable = Some gt_disable, drv_set_timer = Some gt_set_timer,
      drv_get_counter = Some gt_get_counter, drv_get_frequency = Some gt_get_frequency, drv_overflow_handler = None\<rparr>"

section \<open>The module interface\<close>

definition gtimer_init :: "fwk_id \<Rightarrow> nat \<Rightarrow> gtimer_hw \<Rightarrow> int \<times> gtimer_hw" where
  "gtimer_init module_id elements w =
     (FWK_SUCCESS, w\<lparr>gt_initialized := True,
       gt_table := replicate elements \<lparr>hw_timer = 0, hw_counter = 0, control = 0, gt_config = None\<rparr>\<rparr>)"

text \<open>The entries of the table of implementation-defined registers; beyond its end, \<open>None\<close>.\<close>

definition impdef_entries :: "mod_gtimer_dev_config \<Rightarrow> impdef_config list option" where
  "impdef_entries config =
     (let n = unat (cfg_syscnt_impdef_cfg_cnt config)
      in if n = 0 then Some []
         else do { t \<leftarrow> cfg_syscnt_impdef_cfg config; if n \<le> length t then Some (take n t) else None })"

definition gtimer_device_init :: "fwk_id \<Rightarrow> mod_gtimer_dev_config \<Rightarrow> gtimer_hw \<Rightarrow> (int \<times> gtimer_hw) option" where
  "gtimer_device_init element_id config w =
     do {
       (e, ctx) \<leftarrow> gt_dev element_id w;
       let w = w\<lparr>gt_table := (gt_table w)[e := ctx\<lparr>gt_config := Some config\<rparr>]\<rparr>;
       if cfg_hw_timer config = 0 \<or> cfg_hw_counter config = 0 \<or>
          cfg_frequency config < GTIMER_FREQUENCY_MIN_HZ \<or> cfg_frequency config > GTIMER_FREQUENCY_MAX_HZ \<or>
          (\<not> cfg_skip_cntcontrol_init config \<and> cfg_control config = 0)
       then Some (FWK_E_DEVICE, w)
       else if cfg_syscnt_impdef_cfg_cnt config > MAX_IMPDEF_CFG_CNT then Some (FWK_E_PARAM, w)
       else if cfg_syscnt_impdef_cfg_cnt config \<noteq> 0 \<and> cfg_syscnt_impdef_cfg config = None then Some (FWK_E_PARAM, w)
       else do {
         entries \<leftarrow> impdef_entries config;
         if \<not> list_all (\<lambda>x. IS_IMPDEF_OFFSET_VALID (impdef_offset x)) entries then Some (FWK_E_PARAM, w)
         else do {
           let w = w\<lparr>gt_table := (gt_table w)[e := ctx\<lparr>hw_timer := cfg_hw_timer config, hw_counter := cfg_hw_counter config,
             control := cfg_control config, gt_config := Some config\<rparr>]\<rparr>;
           (status, w) \<leftarrow> gt_disable element_id w;
           fwk_assert (status = FWK_SUCCESS);
           Some (FWK_SUCCESS, w\<lparr>cntctl := (cntctl w)(cfg_hw_counter config := \<lparr>CTL_FRQ = cfg_frequency config, CTL_ACR = 0x2F\<rparr>)\<rparr>)
         }
       }
     }"

definition gtimer_process_bind_request ::
  "(('d, 'z) fwk_module_ctx_scheme, 'd) fwk_image \<Rightarrow> nat \<Rightarrow> fwk_id \<Rightarrow> fwk_id \<Rightarrow> fwk_id \<Rightarrow> nat option \<Rightarrow> (int \<times> nat option) option" where
  "gtimer_process_bind_request im module_api requester_id i api_type api =
     do {
       v \<leftarrow> fwk_module_is_valid_module_id im i;
       if v then Some (FWK_E_ACCESS, api)
       else do {
         api_idx \<leftarrow> fwk_id_get_api_idx api_type;
         Some (if api_idx = 0 then (FWK_SUCCESS, Some module_api) else (FWK_E_PARAM, api))
       }
     }"

definition upd_control :: "32 word \<Rightarrow> (cntcontrol_reg \<Rightarrow> cntcontrol_reg) \<Rightarrow> gtimer_hw \<Rightarrow> gtimer_hw" where
  "upd_control b f w = w\<lparr>cntcontrol := (cntcontrol w)(b := f (cntcontrol w b))\<rparr>"

definition gtimer_control_init :: "gtimer_dev_ctx \<Rightarrow> gtimer_hw \<Rightarrow> gtimer_hw option" where
  "gtimer_control_init ctx w =
     do {
       config \<leftarrow> gt_config ctx;
       let w = upd_control (control ctx) (\<lambda>r. r\<lparr>CONTROL_CR := CONTROL_CR r AND NOT CNTCONTROL_CR_EN\<rparr>) w;
       entries \<leftarrow> impdef_entries config;
       let w = fold (\<lambda>x. upd_control (control ctx) (\<lambda>r. r\<lparr>CONTROL_impdef := (CONTROL_impdef r)(impdef_offset x := impdef_value x)\<rparr>)) entries w;
       let w = upd_control (control ctx) (\<lambda>r. r\<lparr>CONTROL_FID0 := cfg_frequency config\<rparr>) w;
       Some (upd_control (control ctx) (\<lambda>r. r\<lparr>CONTROL_CR := CONTROL_CR r OR CNTCONTROL_CR_FCREQ OR CNTCONTROL_CR_EN\<rparr>) w)
     }"

text \<open>
  Starting a device. \<open>subscribe\<close> is \<^verbatim>\<open>fwk_notification_subscribe\<close> for the clock's state
  notification when the firmware has the clock module, and is absent otherwise; \<open>n\<close> is the
  framework's state.
\<close>

definition gtimer_start ::
  "(fwk_id \<Rightarrow> fwk_id \<Rightarrow> 'n \<Rightarrow> (int \<times> 'n) option) option \<Rightarrow> fwk_id \<Rightarrow> 'n \<Rightarrow> gtimer_hw \<Rightarrow> (int \<times> 'n \<times> gtimer_hw) option" where
  "gtimer_start subscribe i n w =
     do {
       is_elem \<leftarrow> fwk_id_is_type i FWK_ID_TYPE_ELEMENT;
       if \<not> is_elem then Some (FWK_SUCCESS, n, w)
       else do {
         (_, ctx) \<leftarrow> gt_dev i w;
         config \<leftarrow> gt_config ctx;
         if cfg_skip_cntcontrol_init config then Some (FWK_SUCCESS, n, w)
         else do {
           no_clock \<leftarrow> fwk_id_is_type (cfg_clock_id config) FWK_ID_TYPE_NONE;
           if \<not> no_clock
           then (case subscribe of
                   None \<Rightarrow> Some (FWK_E_PARAM, n, w)
                 | Some f \<Rightarrow> do { (status, n) \<leftarrow> f (cfg_clock_id config) i n; Some (status, n, w) })
           else do { w \<leftarrow> gtimer_control_init ctx w; Some (FWK_SUCCESS, n, w) }
         }
       }
     }"

text \<open>
  The clock of the counter has changed state; \<open>running\<close> reads the new state off the parameters of
  the event. Without the clock module the handler refuses every notification.
\<close>

definition gtimer_process_notification ::
  "(fwk_id \<times> (fwk_event \<Rightarrow> bool)) option \<Rightarrow> fwk_event \<Rightarrow> gtimer_hw \<Rightarrow> (int \<times> gtimer_hw) option" where
  "gtimer_process_notification clock event w =
     (case clock of
        None \<Rightarrow> Some (FWK_E_PARAM, w)
      | Some (state_changed, running) \<Rightarrow> do {
          same \<leftarrow> fwk_id_is_equal (event_id event) state_changed;
          fwk_assert same;
          is_elem \<leftarrow> fwk_id_is_type (target_id event) FWK_ID_TYPE_ELEMENT;
          fwk_assert is_elem;
          if running event
          then do { (_, ctx) \<leftarrow> gt_dev (target_id event) w; w \<leftarrow> gtimer_control_init ctx w; Some (FWK_SUCCESS, w) }
          else Some (FWK_SUCCESS, w)
        })"

text \<open>The timestamp source of the firmware, in nanoseconds.\<close>

definition mod_gtimer_timestamp :: "mod_gtimer_dev_config \<Rightarrow> gtimer_hw \<Rightarrow> (64 word \<times> gtimer_hw) option" where
  "mod_gtimer_timestamp cfg w =
     (if gt_initialized w
      then do {
        (counter, w) \<leftarrow> mod_gtimer_get_counter w;
        if cfg_frequency cfg = 0 then None else Some ((1000000000 div ucast (cfg_frequency cfg)) * counter, w)
      }
      else Some (0, w))"

section \<open>The counter is read whole\<close>

abbreviation hi32 :: "64 word \<Rightarrow> 32 word" where
  "hi32 x \<equiv> ucast (drop_bit 32 x)"

lemma split_join_64: "push_bit 32 (ucast (hi32 x)) OR ucast (ucast x :: 32 word) = (x :: 64 word)"
  by (rule bit_word_eqI) (auto simp: bit_simps)

lemma unat_hi32: "unat (hi32 x) = unat x div 2 ^ 32"
proof -
  have "unat x < 2 ^ LENGTH(64)" by (rule unsigned_less)
  then have "unat x div 2 ^ 32 < 2 ^ 32" by (simp add: less_mult_imp_div_less)
  then show ?thesis by (simp add: unsigned_ucast_eq unat_drop_bit_eq drop_bit_eq_div unat_div take_bit_nat_eq_self)
qed

lemma hi32_mono: "x \<le> y \<Longrightarrow> hi32 x \<le> hi32 y"
  by (simp add: word_le_nat_alt unat_hi32 div_le_mono)

text \<open>
  The counter never runs backwards, and its upper half does not change in two consecutive rounds of
  the reading loop (each round makes three accesses; the upper half changes once every \<open>2 ^ 32\<close>
  ticks).
\<close>

definition counter_sane :: "(nat \<Rightarrow> 64 word) \<Rightarrow> bool" where
  "counter_sane c \<longleftrightarrow> (\<forall>n. c n \<le> c (Suc n)) \<and> (\<forall>n. hi32 (c n) \<noteq> hi32 (c (n + 2)) \<longrightarrow> hi32 (c (n + 3)) = hi32 (c (n + 5)))"

lemma counter_mono: "counter_sane c \<Longrightarrow> m \<le> n \<Longrightarrow> c m \<le> c n"
  unfolding counter_sane_def by (rule lift_Suc_mono_le [of c]) auto

lemma get_counter_unfold:
  "mod_gtimer_get_counter w =
     (let n = reads w; w' = w\<lparr>reads := n + 3\<rparr>
      in if hi32 (count w n) \<noteq> hi32 (count w (n + 2)) then mod_gtimer_get_counter w'
         else Some (push_bit 32 (ucast (hi32 (count w n))) OR ucast (ucast (count w (n + 1)) :: 32 word), w'))"
  by (subst mod_gtimer_get_counter.simps) (simp add: read_PCTH_def read_PCTL_def Let_def eval_nat_numeral)

lemma get_counter_whole:
  assumes mono: "\<And>n. c n \<le> c (Suc n)" and c: "count w = c" and eq: "hi32 (c (reads w)) = hi32 (c (reads w + 2))"
  shows "mod_gtimer_get_counter w = Some (c (reads w + 1), w\<lparr>reads := reads w + 3\<rparr>)"
proof -
  have "hi32 (c (reads w)) \<le> hi32 (c (reads w + 1))" "hi32 (c (reads w + 1)) \<le> hi32 (c (reads w + 2))"
    using hi32_mono [OF mono [of "reads w"]] hi32_mono [OF mono [of "reads w + 1"]] by simp_all
  then have "hi32 (c (reads w)) = hi32 (c (reads w + 1))" using eq by simp
  then show ?thesis
    using eq c split_join_64 [of "c (reads w + 1)"] by (subst get_counter_unfold) (simp add: Let_def)
qed

lemma get_counter_sane:
  assumes "counter_sane (count w)"
  shows "\<exists>k n. mod_gtimer_get_counter w = Some (count w n, w\<lparr>reads := k\<rparr>) \<and> reads w \<le> n \<and> n < k \<and> k \<le> reads w + 6"
proof (cases "hi32 (count w (reads w)) = hi32 (count w (reads w + 2))")
  case True
  then show ?thesis
    using get_counter_whole [of "count w" w] assms unfolding counter_sane_def
    by (intro exI [of _ "reads w + 3"] exI [of _ "reads w + 1"]) auto
next
  case False
  let ?w = "w\<lparr>reads := reads w + 3\<rparr>"
  have "mod_gtimer_get_counter w = mod_gtimer_get_counter ?w"
    using False by (subst get_counter_unfold) (simp add: Let_def)
  also have "\<dots> = Some (count w (reads w + 4), w\<lparr>reads := reads w + 6\<rparr>)"
    using get_counter_whole [of "count w" ?w] assms False unfolding counter_sane_def
    by (simp add: eval_nat_numeral)
  finally show ?thesis by (intro exI [of _ "reads w + 6"] exI [of _ "reads w + 4"]) simp
qed

section \<open>The driver fulfils the timer module's contract\<close>

definition gt_ok :: "fwk_id \<Rightarrow> 32 word \<Rightarrow> 32 word \<Rightarrow> gtimer_hw \<Rightarrow> bool" where
  "gt_ok dev_id base freq w \<longleftrightarrow>
     (\<exists>e ctx cfg. gt_dev dev_id w = Some (e, ctx) \<and> hw_timer ctx = base \<and> gt_config ctx = Some cfg \<and> cfg_frequency cfg = freq) \<and>
     counter_sane (count w)"

definition gt_armed :: "32 word \<Rightarrow> gtimer_hw \<Rightarrow> bool" where
  "gt_armed base w \<longleftrightarrow> P_CTL (cntbase w base) AND (CNTBASE_P_CTL_ENABLE OR CNTBASE_P_CTL_IMASK) = CNTBASE_P_CTL_ENABLE"

definition gt_compare :: "32 word \<Rightarrow> gtimer_hw \<Rightarrow> 64 word" where
  "gt_compare base w = push_bit 32 (ucast (P_CVALH (cntbase w base))) OR ucast (P_CVALL (cntbase w base))"

definition gt_now :: "gtimer_hw \<Rightarrow> 64 word" where
  "gt_now w = count w (reads w)"

lemma bit_3_int [simp]: "bit (3 :: int) n \<longleftrightarrow> n = 0 \<or> n = 1"
proof -
  have m: "(3 :: int) = mask 2" by (simp add: mask_eq_exp_minus_1)
  show ?thesis unfolding m bit_mask_iff by (auto simp: less_2_cases_iff)
qed

lemma armed_bits:
  "((x AND NOT CNTBASE_P_CTL_IMASK) OR CNTBASE_P_CTL_ENABLE) AND (CNTBASE_P_CTL_ENABLE OR CNTBASE_P_CTL_IMASK) = CNTBASE_P_CTL_ENABLE"
  "((x OR CNTBASE_P_CTL_IMASK) AND NOT CNTBASE_P_CTL_ENABLE) AND (CNTBASE_P_CTL_ENABLE OR CNTBASE_P_CTL_IMASK) \<noteq> CNTBASE_P_CTL_ENABLE"
proof -
  show "((x AND NOT CNTBASE_P_CTL_IMASK) OR CNTBASE_P_CTL_ENABLE) AND (CNTBASE_P_CTL_ENABLE OR CNTBASE_P_CTL_IMASK) = CNTBASE_P_CTL_ENABLE"
    by (rule bit_word_eqI) (auto simp: gtimer_consts bit_simps)
  show "((x OR CNTBASE_P_CTL_IMASK) AND NOT CNTBASE_P_CTL_ENABLE) AND (CNTBASE_P_CTL_ENABLE OR CNTBASE_P_CTL_IMASK) \<noteq> CNTBASE_P_CTL_ENABLE"
    by (auto simp: gtimer_consts bit_eq_iff bit_simps intro: exI [of _ 0])
qed

lemma upd_cntbase_simps [simp]:
  "cntbase (upd_cntbase b f w) c = (if c = b then f (cntbase w b) else cntbase w c)"
  "gt_dev i (upd_cntbase b f w) = gt_dev i w" "count (upd_cntbase b f w) = count w" "reads (upd_cntbase b f w) = reads w"
  by (simp_all add: upd_cntbase_def gt_dev_def cong: if_cong)

lemma gt_dev_reads [simp]: "gt_dev i (w\<lparr>reads := n\<rparr>) = gt_dev i w"
  by (simp add: gt_dev_def cong: if_cong)

lemma gt_ok_frames [simp]:
  "gt_ok i b f (upd_cntbase c g w) = gt_ok i b f w" "gt_ok i b f (w\<lparr>reads := n\<rparr>) = gt_ok i b f w"
  by (simp_all add: gt_ok_def)

lemma gt_get_counter_ok:
  assumes "gt_ok i b f w"
  shows "\<exists>n k. gt_get_counter i w = Some ((FWK_SUCCESS, count w n), w\<lparr>reads := k\<rparr>) \<and> reads w \<le> n \<and> n < k \<and> k \<le> reads w + 6"
proof -
  have "counter_sane (count w)" using assms by (simp add: gt_ok_def)
  then obtain n k where "mod_gtimer_get_counter w = Some (count w n, w\<lparr>reads := k\<rparr>)" "reads w \<le> n" "n < k" "k \<le> reads w + 6"
    using get_counter_sane by blast
  then show ?thesis
    using assms by (intro exI [of _ n] exI [of _ k]) (auto simp: gt_get_counter_def gt_ok_def)
qed

lemma gt_set_timer_ok:
  assumes "gt_ok i b f w"
  shows "\<exists>w' u. gt_set_timer i ts w = Some (FWK_SUCCESS, w') \<and> gt_ok i b f w' \<and>
    gt_compare b w' = max (u + GTIMER_MIN_TIMESTAMP) ts \<and> gt_now w \<le> u \<and> u \<le> gt_now w'"
proof -
  obtain n k where c: "gt_get_counter i w = Some ((FWK_SUCCESS, count w n), w\<lparr>reads := k\<rparr>)" and k: "reads w \<le> n" "n < k"
    using gt_get_counter_ok [OF assms] by blast
  have now: "count w (reads w) \<le> count w n" "count w n \<le> count w k" using assms counter_mono k by (auto simp: gt_ok_def)
  obtain e ctx where d: "gt_dev i w = Some (e, ctx)" "hw_timer ctx = b" using assms by (auto simp: gt_ok_def)
  let ?t = "max (count w n + GTIMER_MIN_TIMESTAMP) ts"
  have m: "(0xFFFFFFFF :: 64 word) = mask 32" by (simp add: mask_eq_exp_minus_1)
  have low: "ucast (x AND 0xFFFFFFFF) = (ucast x :: 32 word)" for x :: "64 word"
    unfolding m by (rule bit_word_eqI, unfold bit_unsigned_iff bit_and_iff bit_mask_iff) auto
  let ?w = "upd_cntbase b (\<lambda>r. r\<lparr>P_CVALH := ucast (drop_bit 32 ?t)\<rparr>)
    (upd_cntbase b (\<lambda>r. r\<lparr>P_CVALL := ucast (?t AND 0xFFFFFFFF)\<rparr>) (w\<lparr>reads := k\<rparr>))"
  have "gt_set_timer i ts w = Some (FWK_SUCCESS, ?w)" using c d by (simp add: gt_set_timer_def Let_def)
  moreover have "gt_compare b ?w = ?t" by (simp add: gt_compare_def low split_join_64)
  ultimately show ?thesis using assms now by (intro exI [of _ ?w] exI [of _ "count w n"]) (simp add: gt_now_def)
qed

interpretation gt: timer_device gtimer_driver dev_id "gt_ok dev_id base freq" "gt_armed base" "gt_compare base" gt_now freq
    GTIMER_MIN_TIMESTAMP
  for dev_id base freq
proof
  fix w assume ok: "gt_ok dev_id base freq w"
  obtain e ctx cfg where d: "gt_dev dev_id w = Some (e, ctx)" "hw_timer ctx = base" "gt_config ctx = Some cfg" "cfg_frequency cfg = freq"
    using ok by (auto simp: gt_ok_def)
  show "\<exists>f w'. drv_enable gtimer_driver = Some f \<and> f dev_id w = Some (FWK_SUCCESS, w') \<and> gt_ok dev_id base freq w' \<and>
      gt_armed base w' \<and> gt_compare base w' = gt_compare base w \<and> gt_now w' = gt_now w"
    using d ok by (auto simp: gtimer_driver_def gt_enable_def gt_armed_def armed_bits gt_compare_def gt_now_def)
  show "\<exists>f w'. drv_disable gtimer_driver = Some f \<and> f dev_id w = Some (FWK_SUCCESS, w') \<and> gt_ok dev_id base freq w' \<and>
      \<not> gt_armed base w' \<and> gt_now w' = gt_now w"
    using d ok by (auto simp: gtimer_driver_def gt_disable_def gt_armed_def armed_bits gt_now_def)
  show "\<exists>f v w'. drv_get_counter gtimer_driver = Some f \<and> f dev_id w = Some ((FWK_SUCCESS, v), w') \<and> gt_ok dev_id base freq w' \<and>
      gt_now w \<le> v \<and> v \<le> gt_now w'"
  proof -
    obtain n k where "gt_get_counter dev_id w = Some ((FWK_SUCCESS, count w n), w\<lparr>reads := k\<rparr>)" "reads w \<le> n" "n < k"
      using gt_get_counter_ok [OF ok] by blast
    then show ?thesis
      using ok counter_mono [of "count w"] by (auto simp: gtimer_driver_def gt_now_def gt_ok_def)
  qed
  show "\<exists>f. drv_get_frequency gtimer_driver = Some f \<and> f dev_id w = Some ((FWK_SUCCESS, freq), w)"
    using d by (auto simp: gtimer_driver_def gt_get_frequency_def)
next
  fix w ts assume "gt_ok dev_id base freq w"
  then show "\<exists>f w' u. drv_set_timer gtimer_driver = Some f \<and> f dev_id ts w = Some (FWK_SUCCESS, w') \<and> gt_ok dev_id base freq w' \<and>
      gt_compare base w' = max (u + GTIMER_MIN_TIMESTAMP) ts \<and> gt_now w \<le> u \<and> u \<le> gt_now w'"
    using gt_set_timer_ok by (simp add: gtimer_driver_def)
qed

section \<open>Delays end\<close>

lemma driven_counter:
  assumes "driven_by env gtimer_driver i d s" "gt_ok i b f (dev_hw s)"
  shows "\<exists>n k. call_driver env d drv_get_counter s =
      Some ((FWK_SUCCESS, count (dev_hw s) n), s\<lparr>dev_hw := (dev_hw s)\<lparr>reads := k\<rparr>\<rparr>) \<and>
    reads (dev_hw s) \<le> n \<and> n < k \<and> k \<le> reads (dev_hw s) + 6"
proof -
  obtain n k where "gt_get_counter i (dev_hw s) = Some ((FWK_SUCCESS, count (dev_hw s) n), (dev_hw s)\<lparr>reads := k\<rparr>)"
      and nk: "reads (dev_hw s) \<le> n \<and> n < k \<and> k \<le> reads (dev_hw s) + 6"
    using gt_get_counter_ok [OF assms(2)] by blast
  then have "call_driver env d drv_get_counter s =
      Some ((FWK_SUCCESS, count (dev_hw s) n), s\<lparr>dev_hw := (dev_hw s)\<lparr>reads := k\<rparr>\<rparr>)"
    using gt.driven_call [OF assms(1), of drv_get_counter gt_get_counter] by (simp add: gtimer_driver_def)
  then show ?thesis using nk by blast
qed

lemma delay_loop_ends:
  assumes "driven_by env gtimer_driver i d s" "gt_ok i b f (dev_hw s)" "limit \<le> count (dev_hw s) N"
  shows "\<exists>k. delay_loop env d limit s = Some (FWK_SUCCESS, s\<lparr>dev_hw := (dev_hw s)\<lparr>reads := k\<rparr>\<rparr>) \<and> limit \<le> count (dev_hw s) k"
  using assms
proof (induction "N - reads (dev_hw s)" arbitrary: s rule: less_induct)
  case less
  obtain n k where c: "call_driver env d drv_get_counter s =
      Some ((FWK_SUCCESS, count (dev_hw s) n), s\<lparr>dev_hw := (dev_hw s)\<lparr>reads := k\<rparr>\<rparr>)" "reads (dev_hw s) \<le> n" "n < k"
    using driven_counter [OF less.prems(1,2)] by blast
  have mono: "m \<le> l \<Longrightarrow> count (dev_hw s) m \<le> count (dev_hw s) l" for m l
    using less.prems(2) counter_mono by (auto simp: gt_ok_def)
  show ?case
  proof (cases "count (dev_hw s) n < limit")
    case False
    then have "limit \<le> count (dev_hw s) k" using mono [of n k] c(3) by simp
    then show ?thesis using c(1) False by (subst delay_loop.simps) auto
  next
    case True
    have "n < N" using True less.prems(3) mono [of N n] by (meson leD leI order_trans)
    let ?s = "s\<lparr>dev_hw := (dev_hw s)\<lparr>reads := k\<rparr>\<rparr>"
    have "N - reads (dev_hw ?s) < N - reads (dev_hw s)" using c(2,3) \<open>n < N\<close> by simp
    then have "\<exists>j. delay_loop env d limit ?s = Some (FWK_SUCCESS, ?s\<lparr>dev_hw := (dev_hw ?s)\<lparr>reads := j\<rparr>\<rparr>) \<and> limit \<le> count (dev_hw ?s) j"
      by (rule less.hyps) (use less.prems in simp_all)
    then show ?thesis using c(1) True by (subst delay_loop.simps) auto
  qed
qed

text \<open>The condition of a wait is a test \<open>P\<close> of the state that has no side effects.\<close>

lemma wait_loop_ends:
  assumes "driven_by env gtimer_driver i d s" "gt_ok i b f (dev_hw s)" "limit < count (dev_hw s) N"
  shows "\<exists>st k. wait_loop env d limit (\<lambda>s. Some (P s, s)) s = Some (st, s\<lparr>dev_hw := (dev_hw s)\<lparr>reads := k\<rparr>\<rparr>) \<and>
    (st = FWK_SUCCESS \<and> P (s\<lparr>dev_hw := (dev_hw s)\<lparr>reads := k\<rparr>\<rparr>) \<or>
     st = FWK_E_TIMEOUT \<and> \<not> P (s\<lparr>dev_hw := (dev_hw s)\<lparr>reads := k\<rparr>\<rparr>) \<and> limit < count (dev_hw s) k)"
  using assms
proof (induction "N - reads (dev_hw s)" arbitrary: s rule: less_induct)
  case less
  show ?case
  proof (cases "P s")
    case True
    then show ?thesis by (subst wait_loop.simps) (auto intro!: exI [of _ "reads (dev_hw s)"])
  next
    case notP: False
    obtain n k where c: "call_driver env d drv_get_counter s =
        Some ((FWK_SUCCESS, count (dev_hw s) n), s\<lparr>dev_hw := (dev_hw s)\<lparr>reads := k\<rparr>\<rparr>)" "reads (dev_hw s) \<le> n" "n < k"
      using driven_counter [OF less.prems(1,2)] by blast
    have mono: "m \<le> l \<Longrightarrow> count (dev_hw s) m \<le> count (dev_hw s) l" for m l
      using less.prems(2) counter_mono by (auto simp: gt_ok_def)
    let ?s = "s\<lparr>dev_hw := (dev_hw s)\<lparr>reads := k\<rparr>\<rparr>"
    show ?thesis
    proof (cases "limit < count (dev_hw s) n")
      case True
      then have "limit < count (dev_hw s) k" using mono [of n k] c(3) by simp
      then show ?thesis using c(1) True notP by (subst wait_loop.simps) auto
    next
      case False
      have "n < N" using False less.prems(3) mono [of N n] by (meson leI order.strict_trans2)
      then have "N - reads (dev_hw ?s) < N - reads (dev_hw s)" using c(2,3) by simp
      then have "\<exists>st j. wait_loop env d limit (\<lambda>s. Some (P s, s)) ?s = Some (st, ?s\<lparr>dev_hw := (dev_hw ?s)\<lparr>reads := j\<rparr>\<rparr>) \<and>
          (st = FWK_SUCCESS \<and> P (?s\<lparr>dev_hw := (dev_hw ?s)\<lparr>reads := j\<rparr>\<rparr>) \<or>
           st = FWK_E_TIMEOUT \<and> \<not> P (?s\<lparr>dev_hw := (dev_hw ?s)\<lparr>reads := j\<rparr>\<rparr>) \<and> limit < count (dev_hw ?s) j)"
        by (rule less.hyps) (use less.prems in simp_all)
      then show ?thesis using c(1) False notP by (subst wait_loop.simps) auto
    qed
  qed
qed

lemma gt_timestamp_from_now:
  assumes "driven_by env gtimer_driver i d s" "gt_ok i b f (dev_hw s)"
  shows "\<exists>n k. timestamp_from_now_ctx env d us ts s =
      Some ((FWK_SUCCESS, ticks_of f us + count (dev_hw s) n), s\<lparr>dev_hw := (dev_hw s)\<lparr>reads := k\<rparr>\<rparr>) \<and>
    reads (dev_hw s) \<le> n \<and> n < k \<and> k \<le> reads (dev_hw s) + 6"
proof -
  obtain n k where "call_driver env d drv_get_counter s =
      Some ((FWK_SUCCESS, count (dev_hw s) n), s\<lparr>dev_hw := (dev_hw s)\<lparr>reads := k\<rparr>\<rparr>)"
      and nk: "reads (dev_hw s) \<le> n \<and> n < k \<and> k \<le> reads (dev_hw s) + 6"
    using driven_counter [OF assms] by blast
  then have "timestamp_from_now_ctx env d us ts s =
      Some ((FWK_SUCCESS, ticks_of f us + count (dev_hw s) n), s\<lparr>dev_hw := (dev_hw s)\<lparr>reads := k\<rparr>\<rparr>)"
    using gt.time_to_timestamp_ok [OF assms, of us ts] by (simp add: timestamp_from_now_ctx_def)
  then show ?thesis using nk by blast
qed

lemma sum_at_most: "unat (x + y) = unat x + unat y" if "unat x + unat y \<le> unat (z :: 64 word)" for x y z :: "64 word"
  using that unsigned_less [of z, where 'a = nat] by (simp add: unat_word_ariths)

lemma sum_below: "unat (x + y) = unat x + unat y" if "unat x + unat y < unat (z :: 64 word)" for x y z :: "64 word"
  using that unsigned_less [of z, where 'a = nat] by (simp add: unat_word_ariths)

text \<open>
  Bounded waits. \<^verbatim>\<open>wait\<close> returns, with success exactly when the condition holds in the state it
  returns in; when it reports a timeout the counter has passed the requested time.
\<close>

theorem wait_returns_verdict:
  assumes "dev_index dev_id s = Some d" and "driven_by env gtimer_driver i d s" and "gt_ok i base freq (dev_hw s)"
    and "\<forall>m < reads (dev_hw s) + 6. \<exists>n. unat (ticks_of freq us) + unat (count (dev_hw s) m) < unat (count (dev_hw s) n)"
  shows "\<exists>st k. wait env dev_id us (\<lambda>s. Some (P s, s)) s = Some (st, s\<lparr>dev_hw := (dev_hw s)\<lparr>reads := k\<rparr>\<rparr>) \<and>
    (st = FWK_SUCCESS \<and> P (s\<lparr>dev_hw := (dev_hw s)\<lparr>reads := k\<rparr>\<rparr>) \<or>
     st = FWK_E_TIMEOUT \<and> \<not> P (s\<lparr>dev_hw := (dev_hw s)\<lparr>reads := k\<rparr>\<rparr>) \<and>
       unat (gt_now (dev_hw s)) + unat (ticks_of freq us) < unat (gt_now ((dev_hw s)\<lparr>reads := k\<rparr>)))"
proof -
  obtain n k where nk: "timestamp_from_now_ctx env d us 0 s =
      Some ((FWK_SUCCESS, ticks_of freq us + count (dev_hw s) n), s\<lparr>dev_hw := (dev_hw s)\<lparr>reads := k\<rparr>\<rparr>)"
      "reads (dev_hw s) \<le> n" "n < k" "k \<le> reads (dev_hw s) + 6"
    using gt_timestamp_from_now [OF assms(2,3)] by blast
  let ?s = "s\<lparr>dev_hw := (dev_hw s)\<lparr>reads := k\<rparr>\<rparr>" and ?v = "count (dev_hw s) n"
  obtain N where N: "unat (ticks_of freq us) + unat ?v < unat (count (dev_hw s) N)" using assms(4) nk by (meson order.strict_trans2)
  then have sum: "unat (ticks_of freq us + ?v) = unat (ticks_of freq us) + unat ?v" by (rule sum_below)
  obtain st j where "wait_loop env d (ticks_of freq us + ?v) (\<lambda>s. Some (P s, s)) ?s = Some (st, ?s\<lparr>dev_hw := (dev_hw ?s)\<lparr>reads := j\<rparr>\<rparr>)"
      "st = FWK_SUCCESS \<and> P (?s\<lparr>dev_hw := (dev_hw ?s)\<lparr>reads := j\<rparr>\<rparr>) \<or>
       st = FWK_E_TIMEOUT \<and> \<not> P (?s\<lparr>dev_hw := (dev_hw ?s)\<lparr>reads := j\<rparr>\<rparr>) \<and> ticks_of freq us + ?v < count (dev_hw ?s) j"
    using wait_loop_ends [of env i d ?s base freq "ticks_of freq us + ?v" N P] assms(2,3) N sum by (auto simp: word_less_nat_alt)
  moreover have "gt_now (dev_hw s) \<le> ?v"
    using counter_mono [of "count (dev_hw s)"] assms(3) nk(2) by (simp add: gt_ok_def gt_now_def)
  ultimately show ?thesis
    using assms(1) nk(1) sum by (intro exI [of _ st] exI [of _ j]) (auto simp: wait_def gt_now_def word_less_nat_alt word_le_nat_alt)
qed

end
