(* ===== verification/Timer_Stack.thy ===== *)
theory Timer_Stack
  imports Mod_Gtimer
begin

text \<open>
  The timer module on its hardware: the module of \<^verbatim>\<open>Mod_Timer\<close> over the generic timer driver of
  \<^verbatim>\<open>Mod_Gtimer\<close> and the interrupt controller of \<^verbatim>\<open>Fwk_Interrupt\<close>. The two contracts are
  interpreted, and the properties of alarms are stated of the three components together.
\<close>

section \<open>The module on the M-profile interrupt controller\<close>

interpretation nva: alarm_service "arch_nvic c" "nvic_line c" "env\<lparr>env_arch := arch_nvic c\<rparr>" im
  for c :: "'h cmsis" and env :: "('d, 'h nvic, 'w, 'z) tenv" and im
  by unfold_locales simp

lemma env_arch_same: "env_arch env = a \<Longrightarrow> env\<lparr>env_arch := a\<rparr> = env"
  by auto

section \<open>Alarms on the generic timer\<close>

text \<open>
  The situation of a call for the alarm \<open>(d, a)\<close> from thread code: the identifier is valid, device
  \<open>d\<close> is bound to a generic timer, its line is implemented, and its queue holds \<open>xs\<close>.
\<close>

definition alarm_call ::
  "('d, 'h nvic, gtimer_hw, 'z) tenv \<Rightarrow> (('d, 'h nvic, gtimer_hw, 'z) timer_ctx_scheme, 'd) fwk_image \<Rightarrow> 'h cmsis \<Rightarrow>
   fwk_id \<Rightarrow> fwk_id \<Rightarrow> 32 word \<Rightarrow> 32 word \<Rightarrow> nat \<Rightarrow> nat \<Rightarrow> nat list \<Rightarrow> ('d, 'h nvic, gtimer_hw, 'z) timer_ctx_scheme \<Rightarrow> bool" where
  "alarm_call env im c alarm_id i base freq d a xs s \<longleftrightarrow>
     env_arch env = arch_nvic c \<and> fwk_module_is_valid_sub_element_id im alarm_id s = Some True \<and>
     get_IPSR c (hw (irq_hw s)) = 0 \<and> alarm_index alarm_id s = Some (d, a) \<and>
     (\<exists>irq. get_irq d s = Some irq \<and> nvic_line c irq (irq_hw s)) \<and>
     driven_by env gtimer_driver i d s \<and> gt_ok i base freq (dev_hw s) \<and> alarm_queue s d xs"

lemma nvic_thread:
  "env_arch env = arch_nvic c \<Longrightarrow> get_IPSR c (hw (irq_hw s)) = 0 \<Longrightarrow>
     fwk_interrupt_get_current (env_arch env) (Some 0) (irq_hw s) = (FWK_E_STATE, Some 0)"
  unfolding fwk_interrupt_get_current_def by (simp add: arch_nvic_def nvic_get_current_def)

lemma nvic_clear:
  assumes "nvic_line c irq w"
  shows "fwk_interrupt_clear_pending (arch_nvic c) irq w = (FWK_SUCCESS, upd_hw (NVIC_ClearPendingIRQ c irq) w)"
  using assms leD by (auto simp: fwk_interrupt_clear_pending_def arch_nvic_def nvic_clear_pending_def nvic_line_def)

lemma stop_prefix:
  assumes "alarm_call env im c alarm_id i base freq d a xs s" and st: "started (pool_of s d ! a)"
  shows "\<exists>w. alarm_stop env im alarm_id s = stop_started_alarm env d a (s\<lparr>dev_hw := w\<rparr>) \<and>
    gt_ok i base freq w \<and> \<not> gt_armed base w \<and> gt_now w = gt_now (dev_hw s)"
proof -
  have call: "env_arch env = arch_nvic c" "fwk_module_is_valid_sub_element_id im alarm_id s = Some True"
      "get_IPSR c (hw (irq_hw s)) = 0" "alarm_index alarm_id s = Some (d, a)"
      "driven_by env gtimer_driver i d s" "gt_ok i base freq (dev_hw s)"
    using assms(1) by (auto simp: alarm_call_def)
  obtain w where w: "call_driver env d drv_disable s = Some (FWK_SUCCESS, s\<lparr>dev_hw := w\<rparr>)" "gt_ok i base freq w" "\<not> gt_armed base w"
      "gt_now w = gt_now (dev_hw s)"
    using gt.call_disable [OF call(5,6)] by blast
  have "stop_allowed env d s = Some True"
    using nvic_thread [OF call(1,3)] by (simp add: stop_allowed_def)
  then have "alarm_stop env im alarm_id s = stop_started_alarm env d a (s\<lparr>dev_hw := w\<rparr>)"
    using call(2,4) alarm_index_SomeD [OF call(4)] w(1) st by (simp add: alarm_stop_def)
  then show ?thesis using w by blast
qed

lemma stop_queued:
  assumes "alarm_call env im c alarm_id i base freq d a xs s" and st: "started (pool_of s d ! a)" "activated (pool_of s d ! a)"
  shows "\<exists>s'. alarm_stop env im alarm_id s = Some (FWK_SUCCESS, s') \<and> alarm_queue s' d (remove1 a xs) \<and>
    driven_by env gtimer_driver i d s' \<and> gt_ok i base freq (dev_hw s') \<and> gt_now (dev_hw s) \<le> gt_now (dev_hw s') \<and>
    (remove1 a xs \<noteq> [] \<longrightarrow> gt_armed base (dev_hw s') \<and>
      (\<exists>u. gt_compare base (dev_hw s') = max (u + GTIMER_MIN_TIMESTAMP) (expiry s' d (hd (remove1 a xs))) \<and> gt_now (dev_hw s) \<le> u))"
proof -
  obtain irq where call: "env_arch env = arch_nvic c" "alarm_index alarm_id s = Some (d, a)"
      "get_irq d s = Some irq" "nvic_line c irq (irq_hw s)"
      "driven_by env gtimer_driver i d s" "gt_ok i base freq (dev_hw s)" "alarm_queue s d xs"
    using assms(1) by (auto simp: alarm_call_def)
  note rng = alarm_index_SomeD [OF call(2)]
  obtain w where w: "alarm_stop env im alarm_id s = stop_started_alarm env d a (s\<lparr>dev_hw := w\<rparr>)" "gt_ok i base freq w"
      "gt_now w = gt_now (dev_hw s)"
    using stop_prefix [OF assms(1) st(1)] by blast
  define s1 where "s1 = upd_alarm d a (\<lambda>x. x\<lparr>started := False\<rparr>) (s\<lparr>dev_hw := w\<rparr>)"
  have a: "a \<in> set xs" using alarm_queueD(6) [OF call(7)] st(2) rng by blast
  obtain h where h: "fwk_dlist_remove (env_build env) (ActiveQ d) (AlarmNode d a) (timer_heap s) = Some h"
      "\<And>f. (\<And>x. \<not> activated (f x)) \<Longrightarrow> alarm_queue (upd_alarm d a f (s\<lparr>timer_heap := h\<rparr>)) d (remove1 a xs)"
    using remove_alarm_queue [OF call(7) a, of "env_build env"] by blast
  let ?i = "upd_hw (NVIC_ClearPendingIRQ c irq) (irq_hw s)"
  define s2 where "s2 = upd_alarm d a (\<lambda>x. x\<lparr>activated := False\<rparr>) (s1\<lparr>irq_hw := ?i, timer_heap := h\<rparr>)"
  let ?t = "upd_alarm d a (\<lambda>x. x\<lparr>started := False, activated := False\<rparr>) (s\<lparr>timer_heap := h\<rparr>)"
  have "alarm_queue ?t d (remove1 a xs)" using h(2) by simp
  moreover have "alarm_queue s2 d ys = alarm_queue ?t d ys" for ys
    by (rule alarm_queue_cong) (use rng in \<open>simp_all add: s2_def s1_def upd_alarm_def upd_dev_def\<close>)
  ultimately have q2: "alarm_queue s2 d (remove1 a xs)" by simp
  have drv2: "driven_by env gtimer_driver i d s2" "gt_ok i base freq (dev_hw s2)" "gt_now (dev_hw s2) = gt_now (dev_hw s)"
    using call(5) w(2,3) by (simp_all add: s2_def s1_def)
  have run: "stop_started_alarm env d a (s\<lparr>dev_hw := w\<rparr>) = do { s \<leftarrow> configure_timer_with_next_alarm env d s2; Some (FWK_SUCCESS, s) }"
  proof -
    have "get_alarm d a s1 = Some ((pool_of s d ! a)\<lparr>started := False\<rparr>)" using rng by (simp add: s1_def)
    moreover have "get_irq d s1 = Some irq" "irq_hw s1 = irq_hw s" "timer_heap s1 = timer_heap s" using call(3) by (simp_all add: s1_def)
    ultimately show ?thesis
      using st(2) h(1) call(1) nvic_clear [OF call(4)]
      by (simp add: stop_started_alarm_def s1_def [symmetric] s2_def [symmetric])
  qed
  show ?thesis
  proof (cases "remove1 a xs = []")
    case True
    then show ?thesis using run w(1) gt.configure_empty [of s2 d env] q2 drv2 by auto
  next
    case False
    then obtain v u where "configure_timer_with_next_alarm env d s2 = Some (s2\<lparr>dev_hw := v\<rparr>)" "gt_ok i base freq v" "gt_armed base v"
        "gt_compare base v = max (u + GTIMER_MIN_TIMESTAMP) (expiry s2 d (hd (remove1 a xs)))" "gt_now (dev_hw s2) \<le> u" "u \<le> gt_now v"
      using gt.configure_arms [OF q2 False drv2(1,2)] by blast
    then show ?thesis using run w(1) q2 drv2 by (intro exI [of _ "s2\<lparr>dev_hw := v\<rparr>"]) auto
  qed
qed

lemma alarm_start_ok:
  assumes call: "alarm_call env im c alarm_id i base freq d a xs s"
  shows "\<exists>s' ys v u. alarm_start env im alarm_id us type cb p s = Some (FWK_SUCCESS, s') \<and>
    alarm_queue s' d ys \<and> set ys = insert a (set xs) \<and> expiry s' d a = ticks_of freq us + v \<and>
    gt_armed base (dev_hw s') \<and> gt_compare base (dev_hw s') = max (u + GTIMER_MIN_TIMESTAMP) (expiry s' d (hd ys)) \<and>
    gt_now (dev_hw s) \<le> v \<and> v \<le> u \<and> u \<le> gt_now (dev_hw s')"
proof -
  have c: "env_arch env = arch_nvic c" "fwk_module_is_valid_sub_element_id im alarm_id s = Some True"
      "get_IPSR c (hw (irq_hw s)) = 0" "alarm_index alarm_id s = Some (d, a)"
      "driven_by env gtimer_driver i d s" "gt_ok i base freq (dev_hw s)" "alarm_queue s d xs"
    using call by (auto simp: alarm_call_def)
  note rng = alarm_index_SomeD [OF c(4)]
  have start: "alarm_start env im alarm_id us type cb p s =
      do { (status, s) \<leftarrow> (if started (pool_of s d ! a) then alarm_stop env im alarm_id s else Some (FWK_SUCCESS, s));
           if status \<noteq> FWK_SUCCESS then Some (status, s) else start_stopped_alarm env d a us type cb p s }"
    using c(2,4) nvic_thread [OF c(1,3)] rng by (simp add: alarm_start_def)
  obtain t zs where t: "(if started (pool_of s d ! a) then alarm_stop env im alarm_id s else Some (FWK_SUCCESS, s)) = Some (FWK_SUCCESS, t)"
      "alarm_queue t d zs" "set zs = set xs - {a}" "a < length (pool_of t d)" "driven_by env gtimer_driver i d t"
      "gt_ok i base freq (dev_hw t)" "gt_now (dev_hw s) \<le> gt_now (dev_hw t)"
  proof (cases "started (pool_of s d ! a)")
    case False
    then have "a \<notin> set xs" using alarm_queueD(5) [OF c(7), of a] by blast
    then show ?thesis using that [of s xs] False c rng by auto
  next
    case st: True
    show ?thesis
    proof (cases "activated (pool_of s d ! a)")
      case True
      obtain t where t: "alarm_stop env im alarm_id s = Some (FWK_SUCCESS, t)" "alarm_queue t d (remove1 a xs)"
          "driven_by env gtimer_driver i d t" "gt_ok i base freq (dev_hw t)" "gt_now (dev_hw s) \<le> gt_now (dev_hw t)"
        using stop_queued [OF call st True] by blast
      have "set (remove1 a xs) = set xs - {a}" using alarm_queueD(4) [OF c(7)] by (rule set_remove1_eq)
      then show ?thesis using that [of t "remove1 a xs"] t st stop_success_idle [OF t(1) c(4)] by simp
    next
      case False
      obtain w where w: "alarm_stop env im alarm_id s = stop_started_alarm env d a (s\<lparr>dev_hw := w\<rparr>)" "gt_ok i base freq w"
          "gt_now w = gt_now (dev_hw s)"
        using stop_prefix [OF call st] by blast
      let ?t = "upd_alarm d a (\<lambda>x. x\<lparr>started := False\<rparr>) (s\<lparr>dev_hw := w\<rparr>)"
      have na: "a \<notin> set xs" using alarm_queueD(5) [OF c(7), of a] False by blast
      have "alarm_queue ?t d xs" by (rule alarm_queue_upd_idle [OF _ na]) (use c(7) in simp_all)
      moreover have "alarm_stop env im alarm_id s = Some (FWK_SUCCESS, ?t)"
        using w(1) False rng by (simp add: stop_started_alarm_def)
      ultimately show ?thesis using that [of ?t xs] st na rng c(5) w(2,3) by simp
    qed
  qed
  have na: "\<not> activated (pool_of t d ! a)" using alarm_queueD(6) [OF t(2,4)] t(3) by blast
  obtain s' ys v u where "start_stopped_alarm env d a us type cb p t = Some (FWK_SUCCESS, s')"
      "alarm_queue s' d ys" "set ys = insert a (set zs)" "expiry s' d a = ticks_of freq us + v"
      "gt_armed base (dev_hw s')" "gt_compare base (dev_hw s') = max (u + GTIMER_MIN_TIMESTAMP) (expiry s' d (hd ys))"
      "gt_now (dev_hw t) \<le> v" "v \<le> u" "u \<le> gt_now (dev_hw s')"
    using gt.start_stopped_ok [OF t(2,4) na t(5,6)] by blast
  then show ?thesis
    using start t(1,3,7) by (intro exI [of _ s'] exI [of _ ys] exI [of _ v] exI [of _ u]) auto
qed

section \<open>An example system\<close>

text \<open>
  One timer device with two alarms on one generic timer of 1 MHz. Alarm 0 is a one-shot alarm that
  has fired; alarm 1 is periodic, in the queue, and expires at tick 50.
\<close>

definition ex_alarm :: alarm_ctx where
  "ex_alarm = \<lparr>microseconds = 20, timestamp = 50, alarm_callback = Some 1, alarm_param = 9, periodic = True,
     activated = True, bound = True, started = True\<rparr>"

definition ex_dev :: timer_dev_ctx where
  "ex_dev = \<lparr>dev_config = Some \<lparr>config_id = FWK_ID_ELEMENT 1 0, timer_irq = 5\<rparr>, driver = Some 0,
     driver_dev_id = FWK_ID_ELEMENT 1 0,
     alarm_pool = [ex_alarm\<lparr>periodic := False, activated := False\<rparr>, ex_alarm]\<rparr>"

definition ex_hw :: gtimer_hw where
  "ex_hw = \<lparr>gt_initialized = True,
     gt_table = [\<lparr>hw_timer = 0x1000, hw_counter = 0x2000, control = 0x3000,
       gt_config = Some \<lparr>cfg_hw_timer = 0x1000, cfg_hw_counter = 0x2000, cfg_control = 0x3000, cfg_frequency = 1000000,
         cfg_clock_id = FWK_ID_NONE, cfg_skip_cntcontrol_init = False, cfg_syscnt_impdef_cfg = None, cfg_syscnt_impdef_cfg_cnt = 0\<rparr>\<rparr>],
     cntbase = (\<lambda>_. \<lparr>P_CTL = 1, P_CVALL = 50, P_CVALH = 0\<rparr>), cntctl = (\<lambda>_. \<lparr>CTL_FRQ = 0, CTL_ACR = 0\<rparr>),
     cntcontrol = (\<lambda>_. \<lparr>CONTROL_CR = 0, CONTROL_FID0 = 0, CONTROL_impdef = (\<lambda>_. 0)\<rparr>),
     count = (\<lambda>n. if n < 1000 then of_nat n else 1000), reads = 0\<rparr>"

definition ex_heap :: "timer_addr list_heap" where
  "ex_heap = \<lparr>next_of = (\<lambda>_. None)(ActiveQ 0 := Some (AlarmNode 0 1), AlarmNode 0 1 := Some (ActiveQ 0)),
     prev_of = (\<lambda>_. None)(ActiveQ 0 := Some (AlarmNode 0 1), AlarmNode 0 1 := Some (ActiveQ 0)),
     marks_of = (\<lambda>_. \<lparr>current_count = 0, max_count = 0\<rparr>)\<rparr>"

definition ex_state :: "(unit, (32 word) nvic, gtimer_hw) timer_ctx" where
  "ex_state = \<lparr>heap = \<lparr>next_of = \<lambda>_. None, prev_of = \<lambda>_. None, marks_of = \<lambda>_. \<lparr>current_count = 0, max_count = 0\<rparr>\<rparr>,
     allocs = 0, in_isr = False, mod_initialized = True,
     module_ctx_table = [\<lparr>ctx_id = FWK_ID_MODULE 0, ctx_state = STARTED, element_count = 1,
       element_ctx_table = [\<lparr>e_state = STARTED, e_desc = \<lparr>elem_name = None, elem_sub_count = 2, elem_data = None\<rparr>,
         e_sub_count = 2, e_subs = 0\<rparr>], m_subs = 0\<rparr>],
     stage = STAGE_START, bind_id = FWK_ID_MODULE 0,
     timer_heap = ex_heap, ctx_table = [ex_dev], irq_hw = example_nvic, dev_hw = ex_hw\<rparr>"

definition ex_env :: "((unit, (32 word) nvic, gtimer_hw) timer_ctx, unit, (32 word) nvic, gtimer_hw) timer_env" where
  "ex_env = \<lparr>env_build = example_build, env_arch = arch_nvic example_cmsis, env_drivers = (\<lambda>_. gtimer_driver),
     env_code = (\<lambda>_ _ s. Some s), env_config = (\<lambda>_. \<lparr>config_id = FWK_ID_ELEMENT 1 0, timer_irq = 5\<rparr>), env_module_idx = 0,
     env_timer_isr = 3, env_timer_api = 4, env_alarm_api = 5\<rparr>"

definition ex_timer_module :: "((unit, (32 word) nvic, gtimer_hw) timer_ctx, unit) fwk_module" where
  "ex_timer_module = \<lparr>mod_type = 0, api_count = 2, event_count = 0, notification_count = 0, cb_init = None, cb_element_init = None,
     cb_post_init = None, cb_bind = None, cb_start = None, cb_stop = None, cb_process_bind_request = None,
     cb_process_event = None, cb_process_notification = None\<rparr>"

definition ex_timer_image :: "((unit, (32 word) nvic, gtimer_hw) timer_ctx, unit) fwk_image" where
  "ex_timer_image = \<lparr>image_build = example_build, module_table = [ex_timer_module],
     module_config_table = [\<lparr>cfg_data = None, cfg_elements = NO_ELEMENTS\<rparr>], calloc_ok = (\<lambda>_ _. True)\<rparr>"

lemma ex_counter_sane: "counter_sane (count ex_hw)"
proof -
  have w: "unat (of_nat n :: 64 word) = n" if "n < 1000" for n using that by (simp add: unat_of_nat take_bit_nat_eq_self)
  have "unat (count ex_hw n) = min n 1000" for n by (simp add: ex_hw_def w)
  moreover have "hi32 (count ex_hw n) = 0" for n
    using unat_hi32 [of "count ex_hw n"] calculation [of n] by (simp add: word_unat_eq_iff)
  ultimately show ?thesis by (auto simp: counter_sane_def word_le_nat_alt)
qed

lemma ex_gt_ok: "gt_ok (FWK_ID_ELEMENT 1 0) 0x1000 1000000 ex_hw"
  using ex_counter_sane unfolding gt_ok_def
  by (auto simp: gt_dev_def ex_hw_def fwk_id_get_element_idx_def)

lemma ex_ids:
  "fwk_id_get_element_idx (FWK_ID_SUB_ELEMENT 0 0 0) = Some 0" "fwk_id_get_sub_element_idx (FWK_ID_SUB_ELEMENT 0 0 0) = Some 0"
  "fwk_id_get_element_idx (FWK_ID_ELEMENT 0 0) = Some 0"
  by code_simp+

lemma ex_queue: "alarm_queue ex_state 0 [1]"
proof -
  have pool: "pool_of ex_state 0 = [ex_alarm\<lparr>periodic := False, activated := False\<rparr>, ex_alarm]"
    by (simp add: ex_state_def ex_dev_def)
  have "dlist_rep ex_heap (ActiveQ 0) [AlarmNode 0 1]" by (simp add: dlist_rep_def ex_heap_def)
  moreover have "{a. a < length (pool_of ex_state 0) \<and> activated (pool_of ex_state 0 ! a)} = {1}"
    unfolding pool by (auto simp: ex_alarm_def less_Suc_eq)
  moreover have "dlist_detached ex_heap (AlarmNode 0 a)" if "a \<noteq> 1" for a using that by (simp add: dlist_detached_def ex_heap_def)
  moreover have "timer_heap ex_state = ex_heap" "length (ctx_table ex_state) = 1" by (simp_all add: ex_state_def)
  ultimately show ?thesis by (simp add: alarm_queue_def) (simp add: pool ex_alarm_def)
qed

lemma ex_alarm_call:
  "alarm_call ex_env ex_timer_image example_cmsis (FWK_ID_SUB_ELEMENT 0 0 0) (FWK_ID_ELEMENT 1 0) 0x1000 1000000 0 0 [1] ex_state"
proof -
  have "fwk_module_is_valid_sub_element_id ex_timer_image (FWK_ID_SUB_ELEMENT 0 0 0) ex_state = Some True" by code_simp
  moreover have "alarm_index (FWK_ID_SUB_ELEMENT 0 0 0) ex_state = Some (0, 0)"
    by (simp add: alarm_index_def dev_index_def ex_ids get_alarm_def get_dev_def ex_state_def ex_dev_def)
  moreover have "get_irq 0 ex_state = Some 5" by (simp add: get_irq_def get_dev_def ex_state_def ex_dev_def)
  moreover have "nvic_line example_cmsis 5 (irq_hw ex_state)"
    by (simp add: ex_state_def nvic_line_def example_cmsis_def example_nvic_def)
  moreover have "driven_by ex_env gtimer_driver (FWK_ID_ELEMENT 1 0) 0 ex_state"
    by (simp add: driven_by_def get_dev_def ex_state_def ex_dev_def ex_env_def)
  ultimately show ?thesis
    using ex_gt_ok ex_queue by (simp add: alarm_call_def) (simp add: ex_env_def ex_state_def example_cmsis_def example_nvic_def)
qed

section \<open>Properties\<close>

text \<open>
  C14. The alarm queues stay sound. From the state in which every device is started with no
  alarm, through any sequence of alarm starts and stops, timer interrupts with callbacks that use
  the alarm API, and changes elsewhere, the queue of every device holds exactly the alarms
  marked as activated, in the order of their expiry times, each of them started, on a well-formed
  doubly-linked list; every error path of the driver is included.
\<close>

theorem alarm_queues_sound:
  assumes "env_arch env = arch_nvic c" and "callbacks_use_api env im (nvic_line c)"
    and "\<forall>d < length (ctx_table s). alarm_queue s d []" and "lines_ok (nvic_line c) s"
    and "(timer_step env im (nvic_line c))\<^sup>*\<^sup>* s s'" and "d < length (ctx_table s')"
  shows "\<exists>xs. alarm_queue s' d xs"
proof -
  have env: "env\<lparr>env_arch := arch_nvic c\<rparr> = env" by (rule env_arch_same [OF assms(1)])
  have "timer_inv s" using assms(3) by (auto simp: timer_inv_def)
  from nva.steps_keep [of c env im s s', unfolded env, OF assms(5) this assms(4,2)]
  have "timer_inv s'" by blast
  then show ?thesis using timer_inv_queue assms(6) by blast
qed

definition ex_idle :: "(unit, (32 word) nvic, gtimer_hw) timer_ctx" where
  "ex_idle = ex_state\<lparr>timer_heap := fwk_slist_init example_build (ActiveQ 0) (zero_links (\<lambda>_. True) ex_heap),
     ctx_table := [ex_dev\<lparr>alarm_pool := [zero_alarm, zero_alarm]\<rparr>]\<rparr>"

lemma ex_idle_queue: "alarm_queue ex_idle 0 []"
proof -
  have "{a. a < length (pool_of ex_idle 0) \<and> activated (pool_of ex_idle 0 ! a)} = {}"
    by (auto simp: ex_idle_def zero_alarm_def nth_Cons split: nat.splits)
  moreover have "dlist_detached (timer_heap ex_idle) (AlarmNode 0 a)" for a
    by (simp add: ex_idle_def dlist_detached_def fwk_slist_init_def zero_links_def)
  moreover have "dlist_rep (timer_heap ex_idle) (ActiveQ 0) []" by (simp add: ex_idle_def)
  ultimately show ?thesis by (simp add: alarm_queue_def) (simp add: ex_idle_def)
qed

lemma ex_idle_call:
  "alarm_call ex_env ex_timer_image example_cmsis (FWK_ID_SUB_ELEMENT 0 0 0) (FWK_ID_ELEMENT 1 0) 0x1000 1000000 0 0 [] ex_idle"
proof -
  have "module_ctx_table ex_idle = module_ctx_table ex_state" by (simp add: ex_idle_def)
  then have "fwk_module_is_valid_sub_element_id ex_timer_image (FWK_ID_SUB_ELEMENT 0 0 0) ex_idle =
      fwk_module_is_valid_sub_element_id ex_timer_image (FWK_ID_SUB_ELEMENT 0 0 0) ex_state"
    by (simp add: fwk_module_is_valid_sub_element_id_def cong: if_cong)
  moreover have "alarm_index (FWK_ID_SUB_ELEMENT 0 0 0) ex_idle = Some (0, 0)"
    by (simp add: alarm_index_def dev_index_def ex_ids get_alarm_def get_dev_def ex_idle_def)
  moreover have "get_irq 0 ex_idle = get_irq 0 ex_state" "irq_hw ex_idle = irq_hw ex_state" "dev_hw ex_idle = dev_hw ex_state"
    by (simp_all add: ex_idle_def ex_state_def get_irq_def get_dev_def)
  moreover have "driven_by ex_env gtimer_driver (FWK_ID_ELEMENT 1 0) 0 ex_idle"
    by (simp add: driven_by_def get_dev_def ex_idle_def ex_dev_def ex_env_def)
  ultimately show ?thesis using ex_alarm_call ex_idle_queue by (simp add: alarm_call_def)
qed

theorem alarm_queues_sound_witness:
  "\<exists>s' xs. alarm_start ex_env ex_timer_image (FWK_ID_SUB_ELEMENT 0 0 0) 7 MOD_TIMER_ALARM_TYPE_ONCE (Some 1) 0 ex_idle = Some (FWK_SUCCESS, s') \<and>
     alarm_queue s' 0 xs"
proof -
  obtain s' where s': "alarm_start ex_env ex_timer_image (FWK_ID_SUB_ELEMENT 0 0 0) 7 MOD_TIMER_ALARM_TYPE_ONCE (Some 1) 0 ex_idle = Some (FWK_SUCCESS, s')"
      "0 < length (ctx_table s')"
    using alarm_start_ok [OF ex_idle_call] alarm_queueD(1) by blast
  have "callbacks_use_api ex_env ex_timer_image (nvic_line example_cmsis)"
    by (simp add: callbacks_use_api_def ex_env_def)
  moreover have "\<forall>d < length (ctx_table ex_idle). alarm_queue ex_idle d []" using ex_idle_queue by (simp add: ex_idle_def)
  moreover have "lines_ok (nvic_line example_cmsis) ex_idle"
    by (auto simp: lines_ok_def get_irq_def get_dev_def ex_idle_def ex_state_def ex_dev_def nvic_line_def example_cmsis_def example_nvic_def split: if_splits)
  moreover have "(timer_step ex_env ex_timer_image (nvic_line example_cmsis))\<^sup>*\<^sup>* ex_idle s'"
    using step_start [OF s'(1)] by (rule r_into_rtranclp)
  ultimately have "\<exists>xs. alarm_queue s' 0 xs"
    using alarm_queues_sound [of ex_env example_cmsis ex_timer_image ex_idle s' 0] s'(2) by (simp add: ex_env_def)
  then show ?thesis using s'(1) by blast
qed

text \<open>
  C15. Starting an alarm. From thread code, whether the alarm is idle, queued or has fired,
  \<^verbatim>\<open>alarm_start\<close> succeeds; the alarm joins the queue, to expire the requested number of ticks
  after a counter value \<open>v\<close> of the time of the call, and the hardware is left enabled with its
  comparator at exactly the expiry time of the first alarm, or, where that is too close or already
  past, at the shortest distance the driver allows from a later counter value \<open>u\<close> of the call.
\<close>

theorem alarm_start_arms:
  assumes "alarm_call env im c alarm_id i base freq d a xs s"
  shows "\<exists>s' ys v u. alarm_start env im alarm_id us type cb p s = Some (FWK_SUCCESS, s') \<and>
    alarm_queue s' d ys \<and> set ys = insert a (set xs) \<and> expiry s' d a = ticks_of freq us + v \<and>
    gt_armed base (dev_hw s') \<and> gt_compare base (dev_hw s') = max (u + GTIMER_MIN_TIMESTAMP) (expiry s' d (hd ys)) \<and>
    gt_now (dev_hw s) \<le> v \<and> v \<le> u \<and> u \<le> gt_now (dev_hw s')"
  by (rule alarm_start_ok [OF assms])

theorem alarm_start_arms_witness:
  "\<exists>s' ys v u. alarm_start ex_env ex_timer_image (FWK_ID_SUB_ELEMENT 0 0 0) 30 MOD_TIMER_ALARM_TYPE_ONCE (Some 1) 4 ex_state = Some (FWK_SUCCESS, s') \<and>
     alarm_queue s' 0 ys \<and> set ys = {0, 1} \<and> expiry s' 0 0 = ticks_of 1000000 30 + v \<and>
     gt_armed 0x1000 (dev_hw s') \<and> gt_compare 0x1000 (dev_hw s') = max (u + GTIMER_MIN_TIMESTAMP) (expiry s' 0 (hd ys)) \<and>
     gt_now (dev_hw ex_state) \<le> v \<and> v \<le> u \<and> u \<le> gt_now (dev_hw s')"
  using alarm_start_arms [OF ex_alarm_call, of 30 MOD_TIMER_ALARM_TYPE_ONCE "Some 1" 4] by (simp add: insert_commute)

text \<open>
  C16. A timer interrupt with alarms in the queue. The alarm that expires first is taken out of the
  queue and its callback is called with its parameter, with the timer disarmed and the interrupt
  cleared; what the callback does to the rest of the state stays. A periodic alarm goes back to its
  place in the queue with its expiry time advanced by exactly one period, and the hardware is armed
  with its comparator at the expiry time of the alarm that is now first (or at the shortest
  distance the driver allows from the present); with no alarm left it stays disarmed.
  (The callback is one that leaves the alarms and the timer alone.)
\<close>

theorem isr_fires_earliest:
  assumes "alarm_queue s d (a # xs)" and "driven_by env gtimer_driver i d s" and "gt_ok i base freq (dev_hw s)"
    and "get_irq d s = Some irq" and "alarm_callback (pool_of s d ! a) = Some cb"
    and "\<forall>t. \<exists>u. env_code env cb (alarm_param (pool_of s d ! a)) t = Some u \<and> timer_heap u = timer_heap t \<and>
      ctx_table u = ctx_table t \<and> dev_hw u = dev_hw t"
  shows "(\<forall>b \<in> set xs. expiry s d a \<le> expiry s d b) \<and>
    (\<exists>w h t0 t s' ys u.
      t0 = upd_alarm d a (\<lambda>x. x\<lparr>activated := False\<rparr>)
        (s\<lparr>dev_hw := w, irq_hw := snd (fwk_interrupt_clear_pending (env_arch env) irq (irq_hw s)), timer_heap := h\<rparr>) \<and>
      alarm_queue t0 d xs \<and> \<not> gt_armed base w \<and> gt_now w = gt_now (dev_hw s) \<and>
      env_code env cb (alarm_param (pool_of s d ! a)) t0 = Some t \<and>
      timer_isr env d s = Some s' \<and> only_timer t s' \<and>
      alarm_queue s' d ys \<and>
      ys = (if periodic (pool_of s d ! a) then insort_key (expiry s' d) a xs else xs) \<and>
      (periodic (pool_of s d ! a) \<longrightarrow> expiry s' d a = expiry s d a + ticks_of freq (microseconds (pool_of s d ! a))) \<and>
      (if ys = [] then \<not> gt_armed base (dev_hw s')
       else gt_armed base (dev_hw s') \<and> gt_compare base (dev_hw s') = max (u + GTIMER_MIN_TIMESTAMP) (expiry s' d (hd ys)) \<and>
         gt_now (dev_hw s) \<le> u \<and> u \<le> gt_now (dev_hw s')))"
proof (rule conjI)
  show "\<forall>b \<in> set xs. expiry s d a \<le> expiry s d b" using alarm_queueD(3) [OF assms(1)] by simp
qed (rule gt.isr_fires [OF assms(1-5) assms(6) [rule_format]])

definition ex_counting_env :: "((unit, (32 word) nvic, gtimer_hw) timer_ctx, unit, (32 word) nvic, gtimer_hw) timer_env" where
  "ex_counting_env = ex_env\<lparr>env_code := (\<lambda>_ p s. Some (s\<lparr>allocs := allocs s + unat p\<rparr>))\<rparr>"

theorem isr_fires_earliest_witness:
  "\<exists>s' u. timer_isr ex_counting_env 0 ex_state = Some s' \<and> allocs s' = 9 \<and> alarm_queue s' 0 [1] \<and> expiry s' 0 1 = 70 \<and>
     gt_armed 0x1000 (dev_hw s') \<and> gt_compare 0x1000 (dev_hw s') = max (u + GTIMER_MIN_TIMESTAMP) 70 \<and>
     gt_now ex_hw \<le> u \<and> u \<le> gt_now (dev_hw s')"
proof -
  have pool: "pool_of ex_state 0 ! 1 = ex_alarm" by (simp add: ex_state_def ex_dev_def)
  have q: "alarm_queue ex_state 0 (1 # [])" using ex_queue by simp
  have "driven_by ex_env gtimer_driver (FWK_ID_ELEMENT 1 0) 0 ex_state" using ex_alarm_call by (simp add: alarm_call_def)
  then have drv: "driven_by ex_counting_env gtimer_driver (FWK_ID_ELEMENT 1 0) 0 ex_state"
    by (simp add: driven_by_def ex_counting_env_def)
  have hw: "gt_ok (FWK_ID_ELEMENT 1 0) 0x1000 1000000 (dev_hw ex_state)" "get_irq 0 ex_state = Some 5"
    using ex_alarm_call by (auto simp: alarm_call_def get_irq_def get_dev_def ex_state_def ex_dev_def)
  have cb: "alarm_callback (pool_of ex_state 0 ! 1) = Some 1" unfolding pool by (simp add: ex_alarm_def)
  have code: "env_code ex_counting_env 1 (alarm_param (pool_of ex_state 0 ! 1)) t = Some (t\<lparr>allocs := allocs t + 9\<rparr>)"
    for t :: "(unit, (32 word) nvic, gtimer_hw) timer_ctx"
    unfolding pool by (simp add: ex_counting_env_def ex_alarm_def)
  have quiet: "\<forall>t. \<exists>u. env_code ex_counting_env 1 (alarm_param (pool_of ex_state 0 ! 1)) t = Some u \<and> timer_heap u = timer_heap t \<and>
      ctx_table u = ctx_table t \<and> dev_hw u = dev_hw t"
    by (intro allI exI conjI, rule code) simp_all
  obtain w h t0 t s' ys u where run: "t0 = upd_alarm 0 1 (\<lambda>x. x\<lparr>activated := False\<rparr>)
        (ex_state\<lparr>dev_hw := w, irq_hw := snd (fwk_interrupt_clear_pending (env_arch ex_counting_env) 5 (irq_hw ex_state)), timer_heap := h\<rparr>)"
      "env_code ex_counting_env 1 (alarm_param (pool_of ex_state 0 ! 1)) t0 = Some t"
      "timer_isr ex_counting_env 0 ex_state = Some s'" "only_timer t s'" "alarm_queue s' 0 ys"
      "ys = (if periodic (pool_of ex_state 0 ! 1) then insort_key (expiry s' 0) 1 [] else [])"
      "periodic (pool_of ex_state 0 ! 1) \<longrightarrow> expiry s' 0 1 = expiry ex_state 0 1 + ticks_of 1000000 (microseconds (pool_of ex_state 0 ! 1))"
      "if ys = [] then \<not> gt_armed 0x1000 (dev_hw s')
       else gt_armed 0x1000 (dev_hw s') \<and> gt_compare 0x1000 (dev_hw s') = max (u + GTIMER_MIN_TIMESTAMP) (expiry s' 0 (hd ys)) \<and>
         gt_now (dev_hw ex_state) \<le> u \<and> u \<le> gt_now (dev_hw s')"
    using isr_fires_earliest [OF q drv hw cb quiet, THEN conjunct2] by (elim exE conjE) (rule that)
  have "allocs s' = allocs t" using run(4) by (metis only_timer_allocs)
  moreover have "allocs t = 9" using run(1,2) code by (auto simp: upd_alarm_def upd_dev_def ex_state_def)
  moreover have "ys = [1]" "expiry s' 0 1 = 70" using run(6,7) unfolding pool by (simp_all add: ex_alarm_def ticks_of_def)
  moreover have "dev_hw ex_state = ex_hw" by (simp add: ex_state_def)
  ultimately show ?thesis using run(3,5,8) by auto
qed

text \<open>
  C20. Stopping an alarm that has already fired disarms the timer for the others. A one-shot alarm
  keeps its started flag when it fires. Stopping it then succeeds, but the function returns
  without enabling the timer again that it disabled on entry: the queue of the other alarms is
  unchanged and their timer no longer interrupts.
\<close>

theorem stop_fired_alarm_disarms:
  assumes "alarm_call env im c alarm_id i base freq d a xs s" and "started (pool_of s d ! a)" and "\<not> activated (pool_of s d ! a)"
  shows "\<exists>s'. alarm_stop env im alarm_id s = Some (FWK_SUCCESS, s') \<and> alarm_queue s' d xs \<and> \<not> gt_armed base (dev_hw s')"
proof -
  have c: "alarm_index alarm_id s = Some (d, a)" "alarm_queue s d xs" using assms(1) by (auto simp: alarm_call_def)
  obtain w where w: "alarm_stop env im alarm_id s = stop_started_alarm env d a (s\<lparr>dev_hw := w\<rparr>)" "\<not> gt_armed base w"
    using stop_prefix [OF assms(1,2)] by blast
  let ?t = "upd_alarm d a (\<lambda>x. x\<lparr>started := False\<rparr>) (s\<lparr>dev_hw := w\<rparr>)"
  have na: "a \<notin> set xs" using alarm_queueD(5) [OF c(2), of a] assms(3) by blast
  have "alarm_queue ?t d xs" by (rule alarm_queue_upd_idle [OF _ na]) (use c(2) in simp_all)
  then show ?thesis
    using w alarm_index_SomeD [OF c(1)] assms(3) by (intro exI [of _ ?t]) (simp add: stop_started_alarm_def)
qed

theorem stop_fired_alarm_disarms_witness:
  "gt_armed 0x1000 (dev_hw ex_state) \<and>
   (\<exists>s'. alarm_stop ex_env ex_timer_image (FWK_ID_SUB_ELEMENT 0 0 0) ex_state = Some (FWK_SUCCESS, s') \<and> alarm_queue s' 0 [1] \<and>
     \<not> gt_armed 0x1000 (dev_hw s'))"
proof
  show "gt_armed 0x1000 (dev_hw ex_state)" by (simp add: gt_armed_def ex_state_def ex_hw_def gtimer_consts)
  have "pool_of ex_state 0 ! 0 = ex_alarm\<lparr>periodic := False, activated := False\<rparr>" by (simp add: ex_state_def ex_dev_def)
  then show "\<exists>s'. alarm_stop ex_env ex_timer_image (FWK_ID_SUB_ELEMENT 0 0 0) ex_state = Some (FWK_SUCCESS, s') \<and> alarm_queue s' 0 [1] \<and>
     \<not> gt_armed 0x1000 (dev_hw s')"
    using stop_fired_alarm_disarms [OF ex_alarm_call] by (simp add: ex_alarm_def)
qed

text \<open>
  C18. Reading the counter. The two halves of the running 64-bit counter are read by separate
  accesses; the value returned is nevertheless one the counter really had at one moment of the
  call, and the call returns.
\<close>

theorem gtimer_counter_not_torn:
  assumes "counter_sane (count w)"
  shows "\<exists>n k. mod_gtimer_get_counter w = Some (count w n, w\<lparr>reads := k\<rparr>) \<and> reads w \<le> n \<and> n < k"
  using get_counter_sane [OF assms] by blast

theorem gtimer_counter_not_torn_witness:
  "\<exists>n k. mod_gtimer_get_counter ex_hw = Some (count ex_hw n, ex_hw\<lparr>reads := k\<rparr>) \<and> reads ex_hw \<le> n \<and> n < k"
  by (rule gtimer_counter_not_torn [OF ex_counter_sane])

text \<open>
  C17. Delays. On a generic timer whose counter runs for the requested period, \<^verbatim>\<open>delay\<close> returns,
  reports success, and does so only once the counter has advanced, from its value at the call, by at
  least the number of ticks that the period lasts (counted in natural numbers, without wrap-around);
  nothing but the number of counter reads changes.
\<close>

theorem delay_waits_long_enough:
  assumes "dev_index dev_id s = Some d" and "driven_by env gtimer_driver i d s" and "gt_ok i base freq (dev_hw s)"
    and "\<forall>m < reads (dev_hw s) + 6. \<exists>n. unat (ticks_of freq us) + unat (count (dev_hw s) m) \<le> unat (count (dev_hw s) n)"
  shows "\<exists>k. delay env dev_id us s = Some (FWK_SUCCESS, s\<lparr>dev_hw := (dev_hw s)\<lparr>reads := k\<rparr>\<rparr>) \<and>
    unat (gt_now (dev_hw s)) + unat (ticks_of freq us) \<le> unat (gt_now ((dev_hw s)\<lparr>reads := k\<rparr>))"
proof -
  obtain n k where nk: "timestamp_from_now_ctx env d us 0 s =
      Some ((FWK_SUCCESS, ticks_of freq us + count (dev_hw s) n), s\<lparr>dev_hw := (dev_hw s)\<lparr>reads := k\<rparr>\<rparr>)"
      "reads (dev_hw s) \<le> n" "n < k" "k \<le> reads (dev_hw s) + 6"
    using gt_timestamp_from_now [OF assms(2,3)] by blast
  let ?s = "s\<lparr>dev_hw := (dev_hw s)\<lparr>reads := k\<rparr>\<rparr>" and ?v = "count (dev_hw s) n"
  obtain N where N: "unat (ticks_of freq us) + unat ?v \<le> unat (count (dev_hw s) N)" using assms(4) nk by (meson order.strict_trans2)
  then have sum: "unat (ticks_of freq us + ?v) = unat (ticks_of freq us) + unat ?v" by (rule sum_at_most)
  obtain j where "delay_loop env d (ticks_of freq us + ?v) ?s = Some (FWK_SUCCESS, ?s\<lparr>dev_hw := (dev_hw ?s)\<lparr>reads := j\<rparr>\<rparr>)"
      "ticks_of freq us + ?v \<le> count (dev_hw ?s) j"
    using delay_loop_ends [of env i d ?s base freq "ticks_of freq us + ?v" N] assms(2,3) N sum by (auto simp: word_le_nat_alt)
  moreover have "gt_now (dev_hw s) \<le> ?v"
    using counter_mono [of "count (dev_hw s)"] assms(3) nk(2) by (simp add: gt_ok_def gt_now_def)
  ultimately show ?thesis
    using assms(1) nk(1) sum by (intro exI [of _ j]) (simp add: delay_def gt_now_def word_le_nat_alt)
qed

theorem delay_waits_long_enough_witness:
  "\<exists>k. delay ex_env (FWK_ID_ELEMENT 0 0) 100 ex_state = Some (FWK_SUCCESS, ex_state\<lparr>dev_hw := ex_hw\<lparr>reads := k\<rparr>\<rparr>) \<and>
     100 \<le> unat (gt_now (ex_hw\<lparr>reads := k\<rparr>))"
proof -
  have hw: "dev_hw ex_state = ex_hw" by (simp add: ex_state_def)
  have "dev_index (FWK_ID_ELEMENT 0 0) ex_state = Some 0"
    by (simp add: dev_index_def ex_ids get_dev_def ex_state_def)
  moreover have "driven_by ex_env gtimer_driver (FWK_ID_ELEMENT 1 0) 0 ex_state" using ex_alarm_call by (simp add: alarm_call_def)
  moreover have "unat (ticks_of 1000000 100) + unat (count ex_hw m) \<le> unat (count ex_hw 500)" if "m < reads ex_hw + 6" for m
  proof -
    have "m = 0 \<or> m = 1 \<or> m = 2 \<or> m = 3 \<or> m = 4 \<or> m = 5" using that by (auto simp: ex_hw_def)
    then show ?thesis by (elim disjE) (simp_all add: ex_hw_def ticks_of_def)
  qed
  moreover have "unat (gt_now ex_hw) + unat (ticks_of 1000000 100) = 100" by (simp add: gt_now_def ex_hw_def ticks_of_def)
  ultimately show ?thesis
    using delay_waits_long_enough [of "FWK_ID_ELEMENT 0 0" ex_state 0 ex_env "FWK_ID_ELEMENT 1 0" "0x1000" 1000000 100] ex_gt_ok hw
    by auto
qed

text \<open>
  C19. The search loop that places an alarm is insertion into a sorted list. Adding an alarm to the
  queue, over the links of the list, is the textbook insertion \<^const>\<open>insort_key\<close> by expiry time
  (before the alarms that expire at the same moment), and the list stays sorted.
\<close>

theorem insert_alarm_is_insort:
  assumes "alarm_queue s d xs" and "a < length (pool_of s d)" and "\<not> activated (pool_of s d ! a)" and "started (pool_of s d ! a)"
  shows "\<exists>s'. insert_alarm_ctx_into_active_queue env d d a s = Some s' \<and> alarm_queue s' d (insort_key (expiry s d) a xs)"
  using insert_alarm_queue [OF assms] by blast

theorem insert_alarm_is_insort_witness:
  "\<exists>s'. insert_alarm_ctx_into_active_queue ex_env 0 0 0 ex_state = Some s' \<and> alarm_queue s' 0 [0, 1]"
proof -
  have pool: "pool_of ex_state 0 = [ex_alarm\<lparr>periodic := False, activated := False\<rparr>, ex_alarm]"
    by (simp add: ex_state_def ex_dev_def)
  then show ?thesis
    using insert_alarm_is_insort [OF ex_queue, of 0 ex_env] by (simp add: ex_alarm_def)
qed

end
