(* ===== verification/Fwk_Services.thy ===== *)
theory Fwk_Services
  imports Fwk_Module
begin

text \<open>
  What a module sees of the framework: the calls of \<^verbatim>\<open>fwk_core.h\<close>, \<^verbatim>\<open>fwk_module.h\<close> and
  \<^verbatim>\<open>fwk_notification.h\<close> as a record of functions over the state \<open>'w\<close> of everything outside the
  module (the framework, the other modules, the hardware), so that the model of a module can
  be used with any of them; \<open>Fwk_Framework\<close> fills the record with the models of the framework.
  Also the parameters of events: a C structure laid over the array of bytes \<^verbatim>\<open>params\<close>, on a
  little-endian processor.
\<close>

section \<open>Structures in event parameters\<close>

unbundle bit_operations_syntax

definition get_u32 :: "nat \<Rightarrow> 8 word list \<Rightarrow> 32 word option" where
  "get_u32 off ps =
     (if off + 4 \<le> length ps
      then Some (ucast (ps ! off) OR push_bit 8 (ucast (ps ! (off + 1))) OR
                 push_bit 16 (ucast (ps ! (off + 2))) OR push_bit 24 (ucast (ps ! (off + 3))))
      else None)"

definition put_u32 :: "nat \<Rightarrow> 32 word \<Rightarrow> 8 word list \<Rightarrow> 8 word list option" where
  "put_u32 off v ps =
     (if off + 4 \<le> length ps
      then Some (ps[off := ucast v, off + 1 := ucast (drop_bit 8 v), off + 2 := ucast (drop_bit 16 v), off + 3 := ucast (drop_bit 24 v)])
      else None)"

definition get_status :: "nat \<Rightarrow> 8 word list \<Rightarrow> int option" where
  "get_status off ps = map_option sint (get_u32 off ps)"

definition put_status :: "nat \<Rightarrow> int \<Rightarrow> 8 word list \<Rightarrow> 8 word list option" where
  "put_status off st ps = put_u32 off (word_of_int st) ps"

lemma word32_of_bytes:
  fixes v :: "32 word"
  shows "ucast (ucast v :: 8 word) OR push_bit 8 (ucast (ucast (drop_bit 8 v) :: 8 word)) OR
    push_bit 16 (ucast (ucast (drop_bit 16 v) :: 8 word)) OR push_bit 24 (ucast (ucast (drop_bit 24 v) :: 8 word)) = v" (is "?l = v")
proof (rule bit_word_eqI)
  fix n assume n: "n < LENGTH(32)"
  consider "n < 8" | "8 \<le> n" "n < 16" | "16 \<le> n" "n < 24" | "24 \<le> n" by linarith
  then show "bit ?l n = bit v n"
    by cases (use n in \<open>auto simp: bit_simps\<close>)
qed

lemma put_u32_length: "put_u32 off v ps = Some qs \<Longrightarrow> length qs = length ps"
  by (auto simp: put_u32_def split: if_splits)

lemma put_u32_ok: "off + 4 \<le> length ps \<Longrightarrow> \<exists>qs. put_u32 off v ps = Some qs"
  by (simp add: put_u32_def)

lemma get_put_u32: "put_u32 off v ps = Some qs \<Longrightarrow> get_u32 off qs = Some v"
  by (auto simp: put_u32_def get_u32_def nth_list_update word32_of_bytes split: if_splits)

lemma get_put_u32_other:
  "put_u32 off v ps = Some qs \<Longrightarrow> off' + 4 \<le> off \<or> off + 4 \<le> off' \<Longrightarrow> get_u32 off' qs = get_u32 off' ps"
  by (auto simp: put_u32_def get_u32_def nth_list_update split: if_splits)

lemma get_put_status:
  "put_status off st ps = Some qs \<Longrightarrow> - (2 ^ 31) \<le> st \<Longrightarrow> st < 2 ^ 31 \<Longrightarrow> get_status off qs = Some st"
  by (auto simp: put_status_def get_status_def get_put_u32 sint_sbintrunc' signed_take_bit_int_eq_self)

definition no_params :: "8 word list" where
  "no_params = replicate 16 0"

definition zeroed_event :: fwk_event where
  "zeroed_event = \<lparr>source_id = 0, target_id = 0, cookie = 0, is_response = False, response_requested = False,
     is_notification = False, is_delayed_response = False, event_id = 0, params = no_params\<rparr>"

text \<open>Writes into the parameters of an event.\<close>

definition event_put_u32 :: "nat \<Rightarrow> 32 word \<Rightarrow> fwk_event \<Rightarrow> fwk_event option" where
  "event_put_u32 off v e = map_option (\<lambda>ps. e\<lparr>params := ps\<rparr>) (put_u32 off v (params e))"

definition event_put_status :: "nat \<Rightarrow> int \<Rightarrow> fwk_event \<Rightarrow> fwk_event option" where
  "event_put_status off st e = map_option (\<lambda>ps. e\<lparr>params := ps\<rparr>) (put_status off st (params e))"

lemma event_put_u32_params:
  "event_put_u32 off v e = Some e' \<longleftrightarrow> (\<exists>ps. put_u32 off v (params e) = Some ps \<and> e' = e\<lparr>params := ps\<rparr>)"
  by (auto simp: event_put_u32_def)

lemma event_put_status_params:
  "event_put_status off st e = Some e' \<longleftrightarrow> (\<exists>ps. put_status off st (params e) = Some ps \<and> e' = e\<lparr>params := ps\<rparr>)"
  by (auto simp: event_put_status_def)

lemma put_u32_no_params [simp]: "off + 4 \<le> 16 \<Longrightarrow> put_u32 off v no_params \<noteq> None"
  by (simp add: put_u32_def no_params_def)

section \<open>The framework as a record of calls\<close>

text \<open>
  \<open>srv_put_event\<close> and \<open>srv_notify\<close> return the caller's event as the call leaves it; \<open>srv_notify\<close> takes
  and returns the counter; \<open>srv_get_delayed_response\<close> takes and returns the caller's event; \<open>srv_bind\<close>
  returns the interface's address.
\<close>

record 'w fwk_services =
  srv_put_event :: "fwk_event \<Rightarrow> 'w \<Rightarrow> (int \<times> fwk_event \<times> 'w) option"
  srv_put_event_light :: "fwk_event_light \<Rightarrow> 'w \<Rightarrow> (int \<times> 'w) option"
  srv_notify :: "fwk_event \<Rightarrow> 32 word \<Rightarrow> 'w \<Rightarrow> (int \<times> 32 word \<times> 'w) option"
  srv_subscribe :: "fwk_id \<Rightarrow> fwk_id \<Rightarrow> fwk_id \<Rightarrow> 'w \<Rightarrow> (int \<times> 'w) option"
  srv_get_delayed_response :: "fwk_id \<Rightarrow> 32 word \<Rightarrow> fwk_event \<Rightarrow> 'w \<Rightarrow> (int \<times> fwk_event) option"
  srv_is_valid_element_id :: "fwk_id \<Rightarrow> 'w \<Rightarrow> bool option"
  srv_bind :: "fwk_id \<Rightarrow> fwk_id \<Rightarrow> 'w \<Rightarrow> (int \<times> nat option \<times> 'w) option"
  srv_calloc :: "nat \<Rightarrow> 'w \<Rightarrow> 'w option"

end
