(* ===== verification/Mod_Pd_State.thy ===== *)
theory Mod_Pd_State
  imports Fwk_Services
begin

text \<open>
  The power domain module, \<^verbatim>\<open>module/power_domain\<close>: its data (\<^verbatim>\<open>mod_power_domain.h\<close> and the internal
  header \<^verbatim>\<open>power_domain.h\<close>) and the state checks of \<^verbatim>\<open>power_domain_state_checks.c\<close>. The operations are
  in \<open>Mod_Power_Domain\<close>.

  A power domain is its index in \<^verbatim>\<open>pd_ctx_table\<close>, and so is a pointer to a context; the list of the
  children of a domain is a list of the framework over the addresses \<open>Children\<close> and \<open>ChildNode\<close>.
  The state of the module holds the state \<open>'w\<close> of everything outside it: the framework, reached
  through the record of its calls, and the drivers. Reading past a table, following a null
  pointer or shifting by more than the width of the type is \<open>None\<close>.
\<close>

named_theorems pd_states \<open>power states as words\<close>

section \<open>Data\<close>

datatype mod_pd_type =
  MOD_PD_TYPE_CORE | MOD_PD_TYPE_CLUSTER | MOD_PD_TYPE_DEVICE | MOD_PD_TYPE_DEVICE_DEBUG | MOD_PD_TYPE_SYSTEM | MOD_PD_TYPE_COUNT

text \<open>Power states are \<^verbatim>\<open>unsigned int\<close>; platforms add states to those of \<^verbatim>\<open>enum mod_pd_state\<close>.\<close>

definition MOD_PD_STATE_OFF :: "32 word" where [pd_states]: "MOD_PD_STATE_OFF = 0"
definition MOD_PD_STATE_ON :: "32 word" where [pd_states]: "MOD_PD_STATE_ON = 1"
definition MOD_PD_STATE_SLEEP :: "32 word" where [pd_states]: "MOD_PD_STATE_SLEEP = 2"
definition MOD_PD_STATE_OFF_0 :: "32 word" where [pd_states]: "MOD_PD_STATE_OFF_0 = 3"
definition MOD_PD_STATE_OFF_1 :: "32 word" where [pd_states]: "MOD_PD_STATE_OFF_1 = 4"
definition MOD_PD_STATE_OFF_2 :: "32 word" where [pd_states]: "MOD_PD_STATE_OFF_2 = 5"
definition MOD_PD_STATE_COUNT_MAX :: "32 word" where [pd_states]: "MOD_PD_STATE_COUNT_MAX = 16"
definition MOD_PD_CS_STATE_MASK :: "32 word" where [pd_states]: "MOD_PD_CS_STATE_MASK = 15"
definition MOD_PD_CS_LEVEL_SHIFT :: nat where [pd_states]: "MOD_PD_CS_LEVEL_SHIFT = 16"
definition MOD_PD_SYSTEM_WARM_RESET :: "8 word" where [pd_states]: "MOD_PD_SYSTEM_WARM_RESET = 2"

datatype pd_addr = Children nat | ChildNode nat

record mod_power_domain_config =
  authorized_id_table :: "fwk_id list option"
  authorized_id_table_size :: nat
  enable_system_suspend_notification :: bool

record mod_power_domain_element_config =
  cfg_parent_idx :: "32 word"
  cfg_driver_id :: fwk_id
  cfg_api_id :: fwk_id
  cfg_pd_type :: mod_pd_type
  cfg_allowed_state_mask_table :: "32 word list option"
  cfg_composite_state_levels_mask :: "32 word"
  cfg_composite_state_mask_table :: "32 word list option"
  cfg_composite_state_mask_table_size :: nat
  cfg_allowed_state_mask_table_size :: nat
  cfg_disable_state_transition_notifications :: bool
  cfg_pd_state_mapping_table :: "32 word list option"

record response_ctx =
  rsp_pending :: bool
  rsp_cookie :: "32 word"

record transition_notification_ctx =
  tn_pending_responses :: "32 word"
  tn_state :: "32 word"
  tn_previous_state :: "32 word"

record pre_transition_notification_ctx =
  pn_pending_responses :: "32 word"
  pn_state :: "32 word"
  pn_response_status :: int
  pn_valid :: bool

record pd_ctx =
  pd_id :: fwk_id
  pd_driver_api :: "nat option"
  pd_driver_id :: fwk_id
  pd_config :: "mod_power_domain_element_config option"
  valid_state_mask :: "32 word"
  allowed_state_mask_table :: "32 word list"
  allowed_state_mask_table_size :: nat
  cs_support :: bool
  composite_state_mask_table :: "32 word list"
  composite_state_mask_table_size :: nat
  composite_state_levels_mask :: "32 word"
  pd_parent :: "nat option"
  requested_state :: "32 word"
  state_requested_to_driver :: "32 word"
  current_state :: "32 word"
  driver_state :: "32 word"
  response :: response_ctx
  transition_ntf :: transition_notification_ctx
  pre_transition_ntf :: pre_transition_notification_ctx

record system_suspend_ctx =
  last_core_off_ongoing :: bool
  suspend_ongoing :: bool
  last_core_pd :: "nat option"
  suspend_state :: "32 word"

text \<open>\<open>shutdown_response_event\<close> is what the pointer \<^verbatim>\<open>response_event\<close> refers to.\<close>

record system_shutdown_ctx =
  shutdown_ongoing :: bool
  shutdown_notifications_count :: "32 word"
  shutdown_type :: "8 word"
  is_response_requested :: bool
  shutdown_is_delayed_response :: bool
  shutdown_cookie :: "32 word"
  shutdown_response_event :: "fwk_event option"

record 'w pd_mod_ctx =
  pd_module_config :: "mod_power_domain_config option"
  pd_ctx_table :: "pd_ctx list"
  pd_count :: nat
  system_pd_ctx :: nat
  system_suspend :: system_suspend_ctx
  system_shutdown :: system_shutdown_ctx
  suspend_notifications_count :: "32 word"
  pd_heap :: "pd_addr list_heap"
  world :: 'w

text \<open>The driver interface \<^verbatim>\<open>struct mod_pd_driver_api\<close>; a null entry is \<open>None\<close>.\<close>

record 'w pd_driver =
  pd_set_state_fn :: "(fwk_id \<Rightarrow> 32 word \<Rightarrow> 'w \<Rightarrow> (int \<times> 'w) option) option"
  pd_get_state_fn :: "(fwk_id \<Rightarrow> 'w \<Rightarrow> ((int \<times> 32 word) \<times> 'w) option) option"
  pd_reset_fn :: "(fwk_id \<Rightarrow> 'w \<Rightarrow> (int \<times> 'w) option) option"
  pd_deny_fn :: "(fwk_id \<Rightarrow> 32 word \<Rightarrow> 'w \<Rightarrow> (bool \<times> 'w) option) option"
  pd_prepare_core_fn :: "(fwk_id \<Rightarrow> 'w \<Rightarrow> (int \<times> 'w) option) option"
  pd_shutdown_fn :: "(fwk_id \<Rightarrow> 8 word \<Rightarrow> 'w \<Rightarrow> (int \<times> 'w) option) option"

text \<open>Build, framework, drivers by address, the module's index and the addresses of its interfaces.\<close>

record 'w pd_env =
  pd_build :: build
  pd_srv :: "'w fwk_services"
  pd_drivers :: "nat \<Rightarrow> 'w pd_driver"
  pd_module_idx :: "32 word"
  pd_public_api :: nat
  pd_restricted_api :: nat
  pd_driver_input_api :: nat

definition get_pd :: "nat \<Rightarrow> 'w pd_mod_ctx \<Rightarrow> pd_ctx option" where
  "get_pd i s = (if i < length (pd_ctx_table s) then Some (pd_ctx_table s ! i) else None)"

definition upd_pd :: "nat \<Rightarrow> (pd_ctx \<Rightarrow> pd_ctx) \<Rightarrow> 'w pd_mod_ctx \<Rightarrow> 'w pd_mod_ctx" where
  "upd_pd i f s = s\<lparr>pd_ctx_table := (pd_ctx_table s)[i := f (pd_ctx_table s ! i)]\<rparr>"

text \<open>The context a power domain identifier names, and its configuration.\<close>

definition pd_index :: "fwk_id \<Rightarrow> 'w pd_mod_ctx \<Rightarrow> nat option" where
  "pd_index i s = do { e \<leftarrow> fwk_id_get_element_idx i; get_pd (unat e) s; Some (unat e) }"

definition get_config :: "nat \<Rightarrow> 'w pd_mod_ctx \<Rightarrow> mod_power_domain_element_config option" where
  "get_config i s = do { pd \<leftarrow> get_pd i s; pd_config pd }"

text \<open>A call through the driver interface of a power domain.\<close>

definition call_pd_driver ::
  "'w pd_env \<Rightarrow> nat \<Rightarrow> ('w pd_driver \<Rightarrow> (fwk_id \<Rightarrow> 'w \<Rightarrow> ('r \<times> 'w) option) option) \<Rightarrow> 'w pd_mod_ctx \<Rightarrow> ('r \<times> 'w pd_mod_ctx) option" where
  "call_pd_driver env i sel s =
     do {
       pd \<leftarrow> get_pd i s;
       api \<leftarrow> pd_driver_api pd;
       f \<leftarrow> sel (pd_drivers env api);
       (r, w) \<leftarrow> f (pd_driver_id pd) (world s);
       Some (r, s\<lparr>world := w\<rparr>)
     }"

definition driver_has :: "'w pd_env \<Rightarrow> nat \<Rightarrow> ('w pd_driver \<Rightarrow> 'f option) \<Rightarrow> 'w pd_mod_ctx \<Rightarrow> bool option" where
  "driver_has env i sel s = do { pd \<leftarrow> get_pd i s; api \<leftarrow> pd_driver_api pd; Some (sel (pd_drivers env api) \<noteq> None) }"

text \<open>\<^verbatim>\<open>FWK_LIST_GET\<close>: the power domain a node of a list of children belongs to.\<close>

fun child_of :: "pd_addr \<Rightarrow> nat option" where
  "child_of (ChildNode i) = Some i"
| "child_of _ = None"

text \<open>The loop \<^verbatim>\<open>FWK_LIST_FOR_EACH\<close> over the children of a domain that ends at the first one the test holds for.\<close>

definition exists_child :: "(nat \<Rightarrow> bool option) \<Rightarrow> nat \<Rightarrow> 'w pd_mod_ctx \<Rightarrow> bool option" where
  "exists_child P i s =
     map_option (\<lambda>n. n \<noteq> None) (fwk_list_find (\<lambda>nd. do { c \<leftarrow> child_of nd; P c }) (Children i) (pd_heap s))"

section \<open>State checks\<close>

text \<open>The mask of one state: shifting by the width of the type or more is undefined.\<close>

definition state_bit :: "32 word \<Rightarrow> 32 word option" where
  "state_bit state = (if state < 32 then Some (push_bit (unat state) 1) else None)"

definition is_valid_state :: "pd_ctx \<Rightarrow> 32 word \<Rightarrow> bool" where
  "is_valid_state pd state \<longleftrightarrow>
     state < MOD_PD_STATE_COUNT_MAX \<and> valid_state_mask pd AND push_bit (unat state) 1 \<noteq> 0"

definition normalize_state :: "32 word \<Rightarrow> 32 word" where
  "normalize_state state =
     (if state = MOD_PD_STATE_OFF then MOD_PD_STATE_COUNT_MAX + 4
      else if state = MOD_PD_STATE_OFF_2 then MOD_PD_STATE_COUNT_MAX + 3
      else if state = MOD_PD_STATE_OFF_1 then MOD_PD_STATE_COUNT_MAX + 2
      else if state = MOD_PD_STATE_OFF_0 then MOD_PD_STATE_COUNT_MAX + 1
      else if state = MOD_PD_STATE_SLEEP then MOD_PD_STATE_COUNT_MAX
      else state)"

definition is_deeper_state :: "32 word \<Rightarrow> 32 word \<Rightarrow> bool" where
  "is_deeper_state state state_to_compare_to \<longleftrightarrow> normalize_state state > normalize_state state_to_compare_to"

definition is_shallower_state :: "32 word \<Rightarrow> 32 word \<Rightarrow> bool" where
  "is_shallower_state state state_to_compare_to \<longleftrightarrow> normalize_state state < normalize_state state_to_compare_to"

definition is_allowed_by_child :: "pd_ctx \<Rightarrow> 32 word \<Rightarrow> 32 word \<Rightarrow> bool option" where
  "is_allowed_by_child child parent_state child_state =
     (if unat parent_state \<ge> allowed_state_mask_table_size child then Some False
      else if unat parent_state \<ge> length (allowed_state_mask_table child) then None
      else do {
        b \<leftarrow> state_bit child_state;
        Some (allowed_state_mask_table child ! unat parent_state AND b \<noteq> 0)
      })"

definition is_allowed_by_children :: "nat \<Rightarrow> 32 word \<Rightarrow> 'w pd_mod_ctx \<Rightarrow> bool option" where
  "is_allowed_by_children i state s =
     map_option Not (exists_child (\<lambda>c. do {
       child \<leftarrow> get_pd c s;
       ok \<leftarrow> is_allowed_by_child child state (requested_state child);
       Some (\<not> ok)
     }) i s)"

definition is_allowed_by_parent_and_children :: "nat \<Rightarrow> 32 word \<Rightarrow> 'w pd_mod_ctx \<Rightarrow> bool option" where
  "is_allowed_by_parent_and_children i state s =
     do {
       pd \<leftarrow> get_pd i s;
       ok \<leftarrow> (case pd_parent pd of
                None \<Rightarrow> Some True
              | Some p \<Rightarrow> do { parent \<leftarrow> get_pd p s; is_allowed_by_child pd (current_state parent) state });
       if \<not> ok then Some False
       else map_option Not (exists_child (\<lambda>c. do {
              child \<leftarrow> get_pd c s;
              ok \<leftarrow> is_allowed_by_child child state (current_state child);
              Some (\<not> ok)
            }) i s)
     }"

text \<open>
  The loop that shifts the mask until its lowest bit is set. The code tests for zero once, before
  the loop: a mask that is not zero stays so until the bit is found.
\<close>

function number_of_bits_to_shift :: "32 word \<Rightarrow> nat" where
  "number_of_bits_to_shift m =
     (if m = 0 then 0
      else if m AND 1 = 0 then Suc (number_of_bits_to_shift (drop_bit 1 m))
      else 0)"
  by auto
termination
proof (relation "measure unat")
  fix m :: "32 word"
  assume "m \<noteq> 0"
  then have "0 < unat m" by (simp add: unat_gt_0)
  moreover have "unat (drop_bit 1 m) = unat m div 2" by (simp add: drop_bit_eq_div unat_div)
  ultimately show "(drop_bit 1 m, m) \<in> measure unat" by simp
qed simp

declare number_of_bits_to_shift.simps [simp del]

definition retrieve_mapped_state :: "nat \<Rightarrow> 32 word \<Rightarrow> 'w pd_mod_ctx \<Rightarrow> 32 word option" where
  "retrieve_mapped_state i state s =
     do {
       config \<leftarrow> get_config i s;
       (case cfg_pd_state_mapping_table config of
          None \<Rightarrow> Some state
        | Some t \<Rightarrow> if unat state < length t then Some (t ! unat state) else None)
     }"

definition get_level_state_from_composite_state :: "32 word list \<Rightarrow> 32 word \<Rightarrow> nat \<Rightarrow> 32 word option" where
  "get_level_state_from_composite_state table composite_state level =
     (if level < length table
      then Some (drop_bit (number_of_bits_to_shift (table ! level)) (composite_state AND table ! level))
      else None)"

text \<open>The loop over the levels of a composite state that has no field for its highest level.\<close>

function count_valid_levels :: "32 word list \<Rightarrow> nat \<Rightarrow> 32 word \<Rightarrow> nat \<Rightarrow> nat option \<Rightarrow> 'w pd_mod_ctx \<Rightarrow> nat option" where
  "count_valid_levels table table_size composite_state level pd s =
     (case pd of
        None \<Rightarrow> Some level
      | Some i \<Rightarrow>
          if level < table_size
          then do {
            state \<leftarrow> get_level_state_from_composite_state table composite_state level;
            pd \<leftarrow> get_pd i s;
            if \<not> is_valid_state pd state then Some level
            else count_valid_levels table table_size composite_state (level + 1) (pd_parent pd) s
          }
          else Some level)"
  by pat_completeness auto
termination
  by (relation "measure (\<lambda>(table, table_size, cs, level, pd, s). table_size - level)") auto

declare count_valid_levels.simps [simp del]

definition get_highest_level_from_composite_state :: "nat \<Rightarrow> 32 word \<Rightarrow> 'w pd_mod_ctx \<Rightarrow> nat option" where
  "get_highest_level_from_composite_state i composite_state s =
     do {
       pd \<leftarrow> get_pd i s;
       if \<not> cs_support pd then Some 0
       else if composite_state_levels_mask pd \<noteq> 0
       then (let shift = number_of_bits_to_shift (composite_state_levels_mask pd)
             in Some (unat (drop_bit shift (composite_state_levels_mask pd AND composite_state))))
       else do {
         level \<leftarrow> count_valid_levels (composite_state_mask_table pd) (composite_state_mask_table_size pd) composite_state 0 (Some i) s;
         Some (if level > 0 then level - 1 else level)
       }
     }"

text \<open>
  The walk of \<open>is_valid_composite_state\<close> up the tree: \<open>child\<close> is the domain of the level below and
  the state composed for it.
\<close>

fun valid_levels ::
  "32 word list \<Rightarrow> 32 word \<Rightarrow> nat list \<Rightarrow> nat option \<Rightarrow> (pd_ctx \<times> 32 word) option \<Rightarrow> 'w pd_mod_ctx \<Rightarrow> bool option" where
  "valid_levels table composite_state [] pd child s = Some True"
| "valid_levels table composite_state (level # levels) pd child s =
     (case pd of
        None \<Rightarrow> Some False
      | Some i \<Rightarrow> do {
          state \<leftarrow> get_level_state_from_composite_state table composite_state level;
          pd \<leftarrow> get_pd i s;
          if \<not> is_valid_state pd state then Some False
          else do {
            ok \<leftarrow> (case child of None \<Rightarrow> Some True | Some (c, child_state) \<Rightarrow> is_allowed_by_child c state child_state);
            if \<not> ok then Some False
            else valid_levels table composite_state levels (pd_parent pd) (Some (pd, state)) s
          }
        })"

definition is_valid_composite_state :: "nat \<Rightarrow> 32 word \<Rightarrow> 'w pd_mod_ctx \<Rightarrow> bool option" where
  "is_valid_composite_state i composite_state s =
     do {
       pd \<leftarrow> get_pd i s;
       if \<not> cs_support pd then Some False
       else do {
         highest_level \<leftarrow> get_highest_level_from_composite_state i composite_state s;
         if highest_level \<ge> composite_state_mask_table_size pd then Some False
         else valid_levels (composite_state_mask_table pd) composite_state [0..<highest_level + 1] (Some i) None s
       }
     }"

fun upwards_from ::
  "32 word list \<Rightarrow> 32 word \<Rightarrow> nat list \<Rightarrow> nat option \<Rightarrow> 'w pd_mod_ctx \<Rightarrow> bool option" where
  "upwards_from table composite_state [] pd s = Some False"
| "upwards_from table composite_state (level # levels) pd s =
     (case pd of
        None \<Rightarrow> Some False
      | Some i \<Rightarrow> do {
          state \<leftarrow> get_level_state_from_composite_state table composite_state level;
          pd \<leftarrow> get_pd i s;
          if state = requested_state pd then upwards_from table composite_state levels (pd_parent pd) s
          else Some (is_deeper_state state (requested_state pd))
        })"

definition is_upwards_transition_propagation :: "nat \<Rightarrow> 32 word \<Rightarrow> 'w pd_mod_ctx \<Rightarrow> bool option" where
  "is_upwards_transition_propagation i composite_state s =
     do {
       highest_level \<leftarrow> get_highest_level_from_composite_state i composite_state s;
       pd \<leftarrow> get_pd i s;
       if \<not> cs_support pd then Some (is_deeper_state composite_state (requested_state pd))
       else upwards_from (composite_state_mask_table pd) composite_state [0..<highest_level + 1] (Some i) s
     }"

definition is_state_in_transition :: "nat \<Rightarrow> 32 word \<Rightarrow> 'w pd_mod_ctx \<Rightarrow> bool option" where
  "is_state_in_transition i state s =
     do {
       pd \<leftarrow> get_pd i s;
       mapped \<leftarrow> retrieve_mapped_state i state s;
       Some (requested_state pd \<noteq> state \<or> current_state pd \<noteq> mapped \<or> state_requested_to_driver pd \<noteq> state)
     }"

end
