(* ===== verification/Mod_Power_Domain.thy ===== *)
theory Mod_Power_Domain
  imports Mod_Pd_State
begin

text \<open>
  The operations of the power domain module: \<^verbatim>\<open>mod_power_domain.c\<close> and
  \<^verbatim>\<open>power_domain_notifications.c\<close>, on the state of \<open>Mod_Pd_State\<close>. The response buffer of a handler
  is passed and returned; the framework passes a buffer of indeterminate content, here zeroed, when
  no response is requested.
\<close>

section \<open>Transitions and their notifications\<close>

definition notification_id :: "'w pd_env \<Rightarrow> 32 word \<Rightarrow> fwk_id" where
  "notification_id env k = FWK_ID_NOTIFICATION (pd_module_idx env) k"

definition initiate_power_state_transition :: "'w pd_env \<Rightarrow> nat \<Rightarrow> 'w pd_mod_ctx \<Rightarrow> (int \<times> 'w pd_mod_ctx) option" where
  "initiate_power_state_transition env i s =
     do {
       pd \<leftarrow> get_pd i s;
       let state = requested_state pd;
       has_deny \<leftarrow> driver_has env i pd_deny_fn s;
       (denied, s) \<leftarrow> (if has_deny then call_pd_driver env i (\<lambda>d. map_option (\<lambda>f j. f j state) (pd_deny_fn d)) s else Some (False, s));
       if denied then Some (FWK_E_DEVICE, s)
       else do {
         mapped_state \<leftarrow> retrieve_mapped_state i state s;
         (status, s) \<leftarrow> call_pd_driver env i (\<lambda>d. map_option (\<lambda>f j. f j mapped_state) (pd_set_state_fn d)) s;
         Some (status, if status = FWK_SUCCESS
           then upd_pd i (\<lambda>p. p\<lparr>state_requested_to_driver := state, driver_state := mapped_state\<rparr>) s else s)
       }
     }"

definition check_power_state_pre_transition_notification :: "pd_ctx \<Rightarrow> 32 word \<Rightarrow> bool" where
  "check_power_state_pre_transition_notification pd state =
     (if state = pn_state (pre_transition_ntf pd) \<and> pn_valid (pre_transition_ntf pd)
      then pn_response_status (pre_transition_ntf pd) \<noteq> FWK_SUCCESS
      else True)"

definition initiate_power_state_pre_transition_notification :: "'w pd_env \<Rightarrow> nat \<Rightarrow> 'w pd_mod_ctx \<Rightarrow> (bool \<times> 'w pd_mod_ctx) option" where
  "initiate_power_state_pre_transition_notification env i s =
     do {
       pd \<leftarrow> get_pd i s;
       config \<leftarrow> pd_config pd;
       if cfg_disable_state_transition_notifications config then Some (False, s)
       else (let state = requested_state pd
             in if \<not> check_power_state_pre_transition_notification pd state then Some (False, s)
                else if pn_pending_responses (pre_transition_ntf pd) \<noteq> 0 then Some (True, s)
                else do {
                  let event = zeroed_event\<lparr>source_id := pd_id pd, response_requested := True, event_id := notification_id env 2\<rparr>;
                  event \<leftarrow> event_put_u32 0 (current_state pd) event;
                  event \<leftarrow> event_put_u32 4 state event;
                  (status, count, w) \<leftarrow> srv_notify (pd_srv env) event (pn_pending_responses (pre_transition_ntf pd)) (world s);
                  let s = upd_pd i (\<lambda>p. p\<lparr>pre_transition_ntf := \<lparr>pn_pending_responses = count, pn_state = state,
                    pn_response_status = FWK_SUCCESS, pn_valid = True\<rparr>\<rparr>) (s\<lparr>world := w\<rparr>);
                  Some (count \<noteq> 0, s)
                })
     }"

definition power_state_pre_transition_notification_wrapper :: "'w pd_env \<Rightarrow> nat \<Rightarrow> 'w pd_mod_ctx \<Rightarrow> (bool \<times> 'w pd_mod_ctx) option" where
  "power_state_pre_transition_notification_wrapper env i s =
     (if has_notification (pd_build env) then initiate_power_state_pre_transition_notification env i s else Some (False, s))"

text \<open>
  The delayed response to a request. \<^verbatim>\<open>req_params\<close> and \<^verbatim>\<open>resp_params\<close> point to the same bytes: the
  composite state of the request is at offset 0, that of the response at offset 4.
\<close>

definition send_pd_set_state_delayed_response :: "'w pd_env \<Rightarrow> nat \<Rightarrow> int \<Rightarrow> 'w pd_mod_ctx \<Rightarrow> 'w pd_mod_ctx option" where
  "send_pd_set_state_delayed_response env i resp_status s =
     do {
       pd \<leftarrow> get_pd i s;
       if \<not> rsp_pending (response pd) then Some s
       else do {
         (status, resp_event) \<leftarrow> srv_get_delayed_response (pd_srv env) (pd_id pd) (rsp_cookie (response pd)) zeroed_event (world s);
         let s = upd_pd i (\<lambda>p. p\<lparr>response := (response p)\<lparr>rsp_pending := False\<rparr>\<rparr>) s;
         if status \<noteq> FWK_SUCCESS then Some s
         else do {
           composite_state \<leftarrow> get_u32 0 (params resp_event);
           resp_event \<leftarrow> event_put_u32 4 composite_state resp_event;
           resp_event \<leftarrow> event_put_status 0 resp_status resp_event;
           (status, _, w) \<leftarrow> srv_put_event (pd_srv env) resp_event (world s);
           Some (s\<lparr>world := w\<rparr>)
         }
       }
     }"

section \<open>Requests for a state\<close>

text \<open>The variables of \<^verbatim>\<open>process_set_state_request\<close> that outlive an iteration of its loop.\<close>

record set_state_locals =
  sl_status :: int
  sl_in_charge :: "nat option"
  sl_initiated :: bool

text \<open>The second half of the loop body: the domain's requested state has been changed from \<open>prev_state\<close>.\<close>

definition drive_requested_state ::
  "'w pd_env \<Rightarrow> nat \<Rightarrow> 32 word \<Rightarrow> 32 word \<Rightarrow> set_state_locals \<Rightarrow> 'w pd_mod_ctx \<Rightarrow> (bool \<times> set_state_locals \<times> 'w pd_mod_ctx) option" where
  "drive_requested_state env i state prev_state loc s =
     do {
       pd \<leftarrow> get_pd i s;
       if state_requested_to_driver pd = state then Some (False, loc, s)
       else (let loc = loc\<lparr>sl_in_charge := Some i\<rparr>
             in if sl_initiated loc then Some (False, loc, s)
                else do {
                  ok \<leftarrow> is_allowed_by_parent_and_children i state s;
                  if \<not> ok then Some (False, loc, s)
                  else do {
                    (deferred, s) \<leftarrow> power_state_pre_transition_notification_wrapper env i s;
                    if deferred then Some (False, loc, s)
                    else do {
                      (status, s) \<leftarrow> initiate_power_state_transition env i s;
                      if status \<noteq> FWK_SUCCESS
                      then Some (True, loc\<lparr>sl_status := status, sl_in_charge := None\<rparr>, upd_pd i (\<lambda>p. p\<lparr>requested_state := prev_state\<rparr>) s)
                      else Some (False, loc\<lparr>sl_status := status, sl_initiated := True\<rparr>, s)
                    }
                  }
                })
     }"

text \<open>The loop body for one domain; the first component tells whether the loop is left.\<close>

definition set_state_level ::
  "'w pd_env \<Rightarrow> nat \<Rightarrow> 32 word \<Rightarrow> set_state_locals \<Rightarrow> 'w pd_mod_ctx \<Rightarrow> (bool \<times> set_state_locals \<times> 'w pd_mod_ctx) option" where
  "set_state_level env i state loc s =
     do {
       pd \<leftarrow> get_pd i s;
       if state = requested_state pd then Some (False, loc, s)
       else do {
         ok \<leftarrow> (case pd_parent pd of
                  None \<Rightarrow> Some True
                | Some p \<Rightarrow> do { parent \<leftarrow> get_pd p s; is_allowed_by_child pd (requested_state parent) state });
         if \<not> ok then Some (True, loc\<lparr>sl_status := FWK_E_PWRSTATE\<rparr>, s)
         else do {
           ok \<leftarrow> is_allowed_by_children i state s;
           if \<not> ok then Some (False, loc, s)
           else do {
             let prev_state = requested_state pd;
             let s = upd_pd i (\<lambda>p. p\<lparr>requested_state := state, pre_transition_ntf := (pre_transition_ntf p)\<lparr>pn_valid := False\<rparr>\<rparr>) s;
             s \<leftarrow> send_pd_set_state_delayed_response env i FWK_E_OVERWRITTEN s;
             drive_requested_state env i state prev_state loc s
           }
         }
       }
     }"

primrec pd_ancestor :: "nat \<Rightarrow> nat \<Rightarrow> 'w pd_mod_ctx \<Rightarrow> nat option" where
  "pd_ancestor 0 i s = Some i"
| "pd_ancestor (Suc n) i s = do { pd \<leftarrow> get_pd i s; p \<leftarrow> pd_parent pd; pd_ancestor n p s }"

fun set_state_walk ::
  "'w pd_env \<Rightarrow> nat \<Rightarrow> 32 word \<Rightarrow> bool \<Rightarrow> nat \<Rightarrow> nat list \<Rightarrow> nat option \<Rightarrow> set_state_locals \<Rightarrow> 'w pd_mod_ctx \<Rightarrow>
   (set_state_locals \<times> 'w pd_mod_ctx) option" where
  "set_state_walk env lowest composite_state up highest_level [] pd loc s = Some (loc, s)"
| "set_state_walk env lowest composite_state up highest_level (k # rest) pd loc s =
     do {
       let level = (if up then k else highest_level - k);
       i \<leftarrow> (if up then pd else pd_ancestor level lowest s);
       low \<leftarrow> get_pd lowest s;
       state \<leftarrow> (if cs_support low then get_level_state_from_composite_state (composite_state_mask_table low) composite_state level
                 else Some composite_state);
       (stop, loc, s) \<leftarrow> set_state_level env i state loc s;
       if stop then Some (loc, s)
       else do {
         pd \<leftarrow> get_pd i s;
         set_state_walk env lowest composite_state up highest_level rest (pd_parent pd) loc s
       }
     }"

definition process_set_state_request ::
  "'w pd_env \<Rightarrow> nat \<Rightarrow> fwk_event \<Rightarrow> fwk_event \<Rightarrow> 'w pd_mod_ctx \<Rightarrow> (fwk_event \<times> 'w pd_mod_ctx) option" where
  "process_set_state_request env lowest_pd event resp_event s =
     do {
       let s = s\<lparr>system_suspend := (system_suspend s)\<lparr>last_core_off_ongoing := False\<rparr>\<rparr>;
       composite_state \<leftarrow> get_u32 0 (params event);
       up \<leftarrow> is_upwards_transition_propagation lowest_pd composite_state s;
       highest_level \<leftarrow> get_highest_level_from_composite_state lowest_pd composite_state s;
       (loc, s) \<leftarrow> set_state_walk env lowest_pd composite_state up highest_level [0..<highest_level + 1] (Some lowest_pd)
         \<lparr>sl_status = FWK_SUCCESS, sl_in_charge = None, sl_initiated = False\<rparr> s;
       if \<not> response_requested event then Some (resp_event, s)
       else (case sl_in_charge loc of
               Some i \<Rightarrow> do {
                 pd \<leftarrow> get_pd i s;
                 let s = upd_pd i (\<lambda>p. p\<lparr>response := \<lparr>rsp_pending = True, rsp_cookie = cookie resp_event\<rparr>\<rparr>) s;
                 Some (resp_event\<lparr>is_delayed_response := True, source_id := pd_id pd\<rparr>, s)
               }
             | None \<Rightarrow> do {
                 resp_event \<leftarrow> event_put_status 0 (sl_status loc) resp_event;
                 resp_event \<leftarrow> event_put_u32 4 composite_state resp_event;
                 Some (resp_event, s)
               })
     }"

text \<open>
  The loop that composes the states of a domain and its ancestors, for the levels of the table;
  it gives the composite state and the number of levels visited, at least one.
\<close>

function compose_levels ::
  "(pd_ctx \<Rightarrow> 32 word) \<Rightarrow> 32 word list \<Rightarrow> nat \<Rightarrow> nat \<Rightarrow> nat \<Rightarrow> 'w pd_mod_ctx \<Rightarrow> (32 word \<times> nat) option" where
  "compose_levels f table table_size level i s =
     (if level < length table
      then do {
        pd \<leftarrow> get_pd i s;
        let c = push_bit (number_of_bits_to_shift (table ! level)) (f pd);
        (case pd_parent pd of
           None \<Rightarrow> Some (c, level + 1)
         | Some p \<Rightarrow>
             if level + 1 < table_size
             then do { (c', n) \<leftarrow> compose_levels f table table_size (level + 1) p s; Some (c OR c', n) }
             else Some (c, level + 1))
      }
      else None)"
  by pat_completeness auto
termination
  by (relation "measure (\<lambda>(f, table, table_size, level, i, s). table_size - level)") auto

declare compose_levels.simps [simp del]

text \<open>The last loop of \<^verbatim>\<open>complete_system_suspend\<close>, up the tree to its root.\<close>

partial_function (option) settle_ancestors :: "nat option \<Rightarrow> 'w pd_mod_ctx \<Rightarrow> 'w pd_mod_ctx option" where
  "settle_ancestors i s =
     (case i of
        None \<Rightarrow> Some s
      | Some i \<Rightarrow> Option.bind (get_pd i s) (\<lambda>pd.
          settle_ancestors (pd_parent pd)
            (upd_pd i (\<lambda>p. p\<lparr>state_requested_to_driver := requested_state p, current_state := requested_state p\<rparr>) s)))"

definition complete_system_suspend :: "'w pd_env \<Rightarrow> nat \<Rightarrow> 'w pd_mod_ctx \<Rightarrow> (int \<times> 'w pd_mod_ctx) option" where
  "complete_system_suspend env target_pd s =
     do {
       pd \<leftarrow> get_pd target_pd s;
       if \<not> cs_support pd then Some (FWK_E_PARAM, s)
       else do {
         let s = s\<lparr>system_suspend := (system_suspend s)\<lparr>suspend_ongoing := True\<rparr>\<rparr>;
         (c, n) \<leftarrow> compose_levels (\<lambda>p. if pd_parent p \<noteq> None then MOD_PD_STATE_OFF else suspend_state (system_suspend s))
           (composite_state_mask_table pd) (composite_state_mask_table_size pd) 0 target_pd s;
         let composite_state = c OR push_bit MOD_PD_CS_LEVEL_SHIFT (of_nat (n - 1));
         event \<leftarrow> event_put_u32 0 composite_state zeroed_event;
         (resp_event, s) \<leftarrow> process_set_state_request env target_pd event zeroed_event s;
         s \<leftarrow> settle_ancestors (Some target_pd) s;
         status \<leftarrow> get_status 0 (params resp_event);
         Some (status, s)
       }
     }"

definition process_get_state_request :: "nat \<Rightarrow> 'w pd_mod_ctx \<Rightarrow> 32 word option" where
  "process_get_state_request i s =
     do {
       pd \<leftarrow> get_pd i s;
       if \<not> cs_support pd
       then do {
         config \<leftarrow> pd_config pd;
         Some (if cfg_pd_state_mapping_table config \<noteq> None then state_requested_to_driver pd else current_state pd)
       }
       else do {
         (c, n) \<leftarrow> compose_levels current_state (composite_state_mask_table pd) (composite_state_mask_table_size pd) 0 i s;
         Some (if composite_state_levels_mask pd \<noteq> 0
               then c OR push_bit (number_of_bits_to_shift (composite_state_levels_mask pd)) (of_nat (n - 1)) else c)
       }
     }"

definition process_reset_request :: "'w pd_env \<Rightarrow> nat \<Rightarrow> 'w pd_mod_ctx \<Rightarrow> (int \<times> 'w pd_mod_ctx) option" where
  "process_reset_request env i s =
     do {
       pd \<leftarrow> get_pd i s;
       if requested_state pd = MOD_PD_STATE_OFF then Some (FWK_E_PWRSTATE, s)
       else do {
         busy \<leftarrow> exists_child (\<lambda>c. do { child \<leftarrow> get_pd c s; Some (requested_state child \<noteq> MOD_PD_STATE_OFF \<or> current_state child \<noteq> MOD_PD_STATE_OFF) }) i s;
         if busy then Some (FWK_E_PWRSTATE, s) else call_pd_driver env i pd_reset_fn s
       }
     }"

section \<open>Reports of the drivers\<close>

definition process_power_state_transition_report_deeper_state :: "'w pd_env \<Rightarrow> nat \<Rightarrow> 'w pd_mod_ctx \<Rightarrow> 'w pd_mod_ctx option" where
  "process_power_state_transition_report_deeper_state env i s =
     do {
       pd \<leftarrow> get_pd i s;
       (case pd_parent pd of
          None \<Rightarrow> Some s
        | Some p \<Rightarrow> do {
            parent \<leftarrow> get_pd p s;
            let state = requested_state parent;
            if state_requested_to_driver parent = state then Some s
            else do {
              ok \<leftarrow> is_allowed_by_parent_and_children p state s;
              if \<not> ok then Some s
              else do {
                (deferred, s) \<leftarrow> power_state_pre_transition_notification_wrapper env p s;
                if deferred then Some s
                else do { (status, s) \<leftarrow> initiate_power_state_transition env p s; Some s }
              }
            }
          })
     }"

partial_function (option) drive_children :: "'w pd_env \<Rightarrow> nat \<Rightarrow> pd_addr option \<Rightarrow> 'w pd_mod_ctx \<Rightarrow> 'w pd_mod_ctx option" where
  "drive_children env i node s =
     (case node of
        None \<Rightarrow> Some s
      | Some nd \<Rightarrow>
          Option.bind (child_of nd) (\<lambda>c.
          Option.bind (get_pd c s) (\<lambda>child.
            if state_requested_to_driver child = requested_state child
            then Option.bind (fwk_slist_next (Children i) nd (pd_heap s)) (\<lambda>nxt. drive_children env i nxt s)
            else Option.bind (is_allowed_by_parent_and_children c (requested_state child) s) (\<lambda>ok.
              if \<not> ok then Some s
              else Option.bind (power_state_pre_transition_notification_wrapper env c s) (\<lambda>(deferred, s).
                Option.bind (if deferred then Some s else map_option snd (initiate_power_state_transition env c s)) (\<lambda>s.
                Option.bind (fwk_slist_next (Children i) nd (pd_heap s)) (\<lambda>nxt. drive_children env i nxt s)))))))"

definition process_power_state_transition_report_shallower_state :: "'w pd_env \<Rightarrow> nat \<Rightarrow> 'w pd_mod_ctx \<Rightarrow> 'w pd_mod_ctx option" where
  "process_power_state_transition_report_shallower_state env i s =
     do { node \<leftarrow> fwk_slist_head (Children i) (pd_heap s); drive_children env i node s }"

text \<open>What follows a transition from \<open>previous_state\<close> to \<open>new_state\<close>.\<close>

definition propagate_transition :: "'w pd_env \<Rightarrow> nat \<Rightarrow> 32 word \<Rightarrow> 32 word \<Rightarrow> 'w pd_mod_ctx \<Rightarrow> 'w pd_mod_ctx option" where
  "propagate_transition env i new_state previous_state s =
     (if is_deeper_state new_state previous_state then process_power_state_transition_report_deeper_state env i s
      else if is_shallower_state new_state previous_state then process_power_state_transition_report_shallower_state env i s
      else Some s)"

text \<open>The notification of a transition, and the one that takes the place of the end of a suspend.\<close>

definition notify_transition :: "'w pd_env \<Rightarrow> nat \<Rightarrow> 32 word \<Rightarrow> 'w pd_mod_ctx \<Rightarrow> (int \<times> 'w pd_mod_ctx) option" where
  "notify_transition env i new_state s =
     do {
       pd \<leftarrow> get_pd i s;
       event \<leftarrow> event_put_u32 0 new_state (zeroed_event\<lparr>source_id := FWK_ID_NONE, response_requested := True, event_id := notification_id env 0\<rparr>);
       (status, n, w) \<leftarrow> srv_notify (pd_srv env) event (tn_pending_responses (transition_ntf pd)) (world s);
       Some (status, upd_pd i (\<lambda>p. p\<lparr>transition_ntf := (transition_ntf p)\<lparr>tn_pending_responses := n, tn_state := new_state\<rparr>\<rparr>) (s\<lparr>world := w\<rparr>))
     }"

definition report_notification :: "'w pd_env \<Rightarrow> nat \<Rightarrow> 32 word \<Rightarrow> 'w pd_mod_ctx \<Rightarrow> 'w pd_mod_ctx option" where
  "report_notification env i new_state s =
     do {
       pd \<leftarrow> get_pd i s;
       if has_notification (pd_build env) \<and> tn_pending_responses (transition_ntf pd) = 0
       then do {
         config \<leftarrow> pd_config pd;
         if cfg_disable_state_transition_notifications config then Some s
         else do { (status, s) \<leftarrow> notify_transition env i new_state s; Some s }
       }
       else Some s
     }"

definition finish_system_suspend :: "'w pd_env \<Rightarrow> nat \<Rightarrow> 'w pd_mod_ctx \<Rightarrow> 'w pd_mod_ctx option" where
  "finish_system_suspend env i s =
     do {
       let s = s\<lparr>system_suspend := (system_suspend s)\<lparr>last_core_off_ongoing := False\<rparr>\<rparr>;
       suspend_here \<leftarrow> (if has_notification (pd_build env)
         then map_option (\<lambda>c. \<not> enable_system_suspend_notification c) (pd_module_config s) else Some True);
       if suspend_here then do { (status, s) \<leftarrow> complete_system_suspend env i s; Some s }
       else do {
         (status, n, w) \<leftarrow> srv_notify (pd_srv env) (zeroed_event\<lparr>source_id := FWK_ID_MODULE (pd_module_idx env), event_id := notification_id env 1\<rparr>)
           (suspend_notifications_count s) (world s);
         Some (s\<lparr>suspend_notifications_count := n, world := w\<rparr>)
       }
     }"

definition process_power_state_transition_report :: "'w pd_env \<Rightarrow> nat \<Rightarrow> 32 word \<Rightarrow> 'w pd_mod_ctx \<Rightarrow> 'w pd_mod_ctx option" where
  "process_power_state_transition_report env i report_state s =
     do {
       pd \<leftarrow> get_pd i s;
       let req = state_requested_to_driver pd;
       s \<leftarrow> (if report_state = driver_state pd then send_pd_set_state_delayed_response env i FWK_SUCCESS s else Some s);
       let previous_state = current_state pd;
       let s = upd_pd i (\<lambda>p. p\<lparr>current_state := report_state\<rparr>) s;
       s \<leftarrow> report_notification env i report_state s;
       if last_core_off_ongoing (system_suspend s) \<and> last_core_pd (system_suspend s) = Some i
       then finish_system_suspend env i s
       else do {
         let s = (if pd_parent pd = None \<and> suspend_state (system_suspend s) \<noteq> MOD_PD_STATE_ON
                  then s\<lparr>system_suspend := (system_suspend s)\<lparr>suspend_ongoing := False\<rparr>\<rparr> else s);
         pd \<leftarrow> get_pd i s;
         if has_notification (pd_build env) \<and> tn_pending_responses (transition_ntf pd) > 0
         then Some (upd_pd i (\<lambda>p. p\<lparr>transition_ntf := (transition_ntf p)\<lparr>tn_previous_state := previous_state\<rparr>\<rparr>) s)
         else propagate_transition env i report_state previous_state
                (upd_pd i (\<lambda>p. p\<lparr>requested_state := req, state_requested_to_driver := req\<rparr>) s)
       }
     }"

section \<open>System suspend and shutdown\<close>

text \<open>
  The search for the last standing core and cluster; \<open>Some None\<close> when there are two of a kind.
\<close>

fun last_standing ::
  "nat list \<Rightarrow> nat option \<Rightarrow> nat option \<Rightarrow> 'w pd_mod_ctx \<Rightarrow> (nat option \<times> nat option) option option" where
  "last_standing [] core cluster s = Some (Some (core, cluster))"
| "last_standing (i # is) core cluster s =
     do {
       pd \<leftarrow> get_pd i s;
       if requested_state pd = MOD_PD_STATE_OFF \<and> current_state pd = MOD_PD_STATE_OFF then last_standing is core cluster s
       else do {
         config \<leftarrow> pd_config pd;
         if cfg_pd_type config = MOD_PD_TYPE_CORE
         then (if core \<noteq> None then Some None else last_standing is (Some i) cluster s)
         else if cfg_pd_type config = MOD_PD_TYPE_CLUSTER
         then (if cluster \<noteq> None then Some None else last_standing is core (Some i) s)
         else last_standing is core cluster s
       }
     }"

definition process_system_suspend_request :: "'w pd_env \<Rightarrow> 32 word \<Rightarrow> 'w pd_mod_ctx \<Rightarrow> (int \<times> 'w pd_mod_ctx) option" where
  "process_system_suspend_request env state s =
     do {
       found \<leftarrow> last_standing [0..<pd_count s] None None s;
       (case found of
          None \<Rightarrow> Some (FWK_E_STATE, s)
        | Some (None, cluster) \<Rightarrow> complete_system_suspend env (case cluster of Some c \<Rightarrow> c | None \<Rightarrow> system_pd_ctx s) s
        | Some (Some core, _) \<Rightarrow> do {
            (status, s) \<leftarrow> call_pd_driver env core pd_prepare_core_fn s;
            Some (status, if status = FWK_SUCCESS
              then upd_pd core (\<lambda>p. p\<lparr>requested_state := MOD_PD_STATE_OFF, state_requested_to_driver := MOD_PD_STATE_OFF\<rparr>)
                (s\<lparr>system_suspend := (system_suspend s)\<lparr>last_core_off_ongoing := True, last_core_pd := Some core, suspend_state := state\<rparr>\<rparr>)
              else s)
          })
     }"

definition perform_shutdown_send_response :: "'w pd_env \<Rightarrow> 'w pd_mod_ctx \<Rightarrow> (int \<times> 'w pd_mod_ctx) option" where
  "perform_shutdown_send_response env s =
     (let ctx = system_shutdown s
      in if shutdown_is_delayed_response ctx
         then do {
           (status, delayed_resp) \<leftarrow> srv_get_delayed_response (pd_srv env) (FWK_ID_MODULE (pd_module_idx env)) (shutdown_cookie ctx) zeroed_event (world s);
           if status \<noteq> FWK_SUCCESS then Some (status, s)
           else do {
             resp \<leftarrow> event_put_status 0 FWK_E_PANIC (delayed_resp\<lparr>source_id := FWK_ID_MODULE (pd_module_idx env)\<rparr>);
             (status, _, w) \<leftarrow> srv_put_event (pd_srv env) resp (world s);
             Some (status, s\<lparr>world := w\<rparr>)
           }
         }
         else do {
           resp \<leftarrow> shutdown_response_event ctx;
           resp \<leftarrow> event_put_status 0 FWK_E_PANIC resp;
           (status, resp, w) \<leftarrow> srv_put_event (pd_srv env) resp (world s);
           Some (status, s\<lparr>system_shutdown := ctx\<lparr>shutdown_response_event := Some resp\<rparr>, world := w\<rparr>)
         })"

text \<open>Shutting down one domain; \<open>True\<close> when its driver defers the request.\<close>

definition shutdown_domain :: "'w pd_env \<Rightarrow> 8 word \<Rightarrow> nat \<Rightarrow> 'w pd_mod_ctx \<Rightarrow> (bool \<times> 'w pd_mod_ctx) option" where
  "shutdown_domain env kind i s =
     do {
       has_shutdown \<leftarrow> driver_has env i pd_shutdown_fn s;
       (status, s) \<leftarrow>
         (if has_shutdown then call_pd_driver env i (\<lambda>d. map_option (\<lambda>f j. f j kind) (pd_shutdown_fn d)) s
          else do {
            has_deny \<leftarrow> driver_has env i pd_deny_fn s;
            (denied, s) \<leftarrow> (if has_deny then call_pd_driver env i (\<lambda>d. map_option (\<lambda>f j. f j MOD_PD_STATE_OFF) (pd_deny_fn d)) s else Some (False, s));
            if denied then Some (FWK_E_DEVICE, s)
            else call_pd_driver env i (\<lambda>d. map_option (\<lambda>f j. f j MOD_PD_STATE_OFF) (pd_set_state_fn d)) s
          });
       if has_shutdown \<and> status = FWK_PENDING then Some (True, s)
       else Some (False, upd_pd i (\<lambda>p. p\<lparr>requested_state := MOD_PD_STATE_OFF, state_requested_to_driver := MOD_PD_STATE_OFF,
              current_state := MOD_PD_STATE_OFF\<rparr>) s)
     }"

fun shutdown_domains :: "'w pd_env \<Rightarrow> 8 word \<Rightarrow> nat list \<Rightarrow> 'w pd_mod_ctx \<Rightarrow> (bool \<times> 'w pd_mod_ctx) option" where
  "shutdown_domains env kind [] s = Some (False, s)"
| "shutdown_domains env kind (i # is) s =
     do { (deferred, s) \<leftarrow> shutdown_domain env kind i s; if deferred then Some (True, s) else shutdown_domains env kind is s }"

definition perform_shutdown :: "'w pd_env \<Rightarrow> 8 word \<Rightarrow> 'w pd_mod_ctx \<Rightarrow> 'w pd_mod_ctx option" where
  "perform_shutdown env kind s =
     do {
       (deferred, s) \<leftarrow> shutdown_domains env kind [0..<pd_count s] s;
       if deferred then Some s
       else do {
         s \<leftarrow> (if is_response_requested (system_shutdown s)
               then do { (status, s) \<leftarrow> perform_shutdown_send_response env s; fwk_assert (status = FWK_SUCCESS); Some s }
               else Some s);
         Some (s\<lparr>system_shutdown := (system_shutdown s)\<lparr>shutdown_ongoing := False\<rparr>\<rparr>)
       }
     }"

definition check_and_notify_system_shutdown :: "'w pd_env \<Rightarrow> 8 word \<Rightarrow> 'w pd_mod_ctx \<Rightarrow> (bool \<times> 'w pd_mod_ctx) option" where
  "check_and_notify_system_shutdown env kind s =
     do {
       (status, n, w) \<leftarrow> srv_notify (pd_srv env)
         (zeroed_event\<lparr>source_id := FWK_ID_MODULE (pd_module_idx env), response_requested := True,
            event_id := notification_id env 3, params := no_params[0 := kind]\<rparr>)
         (shutdown_notifications_count (system_shutdown s)) (world s);
       Some (n \<noteq> 0, s\<lparr>system_shutdown := (system_shutdown s)\<lparr>shutdown_notifications_count := n\<rparr>, world := w\<rparr>)
     }"

definition notify_warm_reset :: "'w pd_env \<Rightarrow> 'w pd_mod_ctx \<Rightarrow> (int \<times> 'w pd_mod_ctx) option" where
  "notify_warm_reset env s =
     do {
       (status, n, w) \<leftarrow> srv_notify (pd_srv env)
         (zeroed_event\<lparr>source_id := FWK_ID_MODULE (pd_module_idx env), event_id := notification_id env 4\<rparr>) 0 (world s);
       Some (status, s\<lparr>world := w\<rparr>)
     }"

text \<open>
  Enumerations occupy one byte in the firmware's builds. The pointer to the response is not valid
  once the handler has returned.
\<close>

definition process_system_shutdown_request :: "'w pd_env \<Rightarrow> fwk_event \<Rightarrow> fwk_event \<Rightarrow> 'w pd_mod_ctx \<Rightarrow> (fwk_event \<times> 'w pd_mod_ctx) option" where
  "process_system_shutdown_request env event resp s =
     do {
       kind \<leftarrow> (if 0 < length (params event) then Some (params event ! 0) else None);
       if kind = MOD_PD_SYSTEM_WARM_RESET
       then do {
         (status, s) \<leftarrow> (if has_notification (pd_build env) then notify_warm_reset env s else Some (FWK_SUCCESS, s));
         resp \<leftarrow> event_put_status 0 status resp;
         Some (resp, s)
       }
       else do {
         (deferred, s) \<leftarrow> (if has_notification (pd_build env) then check_and_notify_system_shutdown env kind s else Some (False, s));
         if deferred
         then (let s = s\<lparr>system_shutdown := (system_shutdown s)\<lparr>shutdown_ongoing := True, shutdown_type := kind\<rparr>\<rparr>
               in if response_requested event
                  then Some (resp\<lparr>is_delayed_response := True\<rparr>,
                    s\<lparr>system_shutdown := (system_shutdown s)\<lparr>shutdown_is_delayed_response := True, shutdown_cookie := cookie event\<rparr>\<rparr>)
                  else Some (resp, s))
         else do {
           let s = (if response_requested event
                    then s\<lparr>system_shutdown := (system_shutdown s)\<lparr>shutdown_is_delayed_response := False, shutdown_response_event := Some resp\<rparr>\<rparr>
                    else s);
           s \<leftarrow> perform_shutdown env kind (s\<lparr>system_shutdown := (system_shutdown s)\<lparr>is_response_requested := response_requested event\<rparr>\<rparr>);
           resp \<leftarrow> event_put_status 0 FWK_E_PANIC
             (if response_requested event then (case shutdown_response_event (system_shutdown s) of Some r \<Rightarrow> r | None \<Rightarrow> resp) else resp);
           Some (resp, s\<lparr>system_shutdown := (system_shutdown s)\<lparr>shutdown_response_event := None\<rparr>\<rparr>)
         }
       }
     }"

section \<open>Responses to notifications\<close>

definition process_pre_shutdown_notification_response :: "'w pd_env \<Rightarrow> 'w pd_mod_ctx \<Rightarrow> (int \<times> 'w pd_mod_ctx) option" where
  "process_pre_shutdown_notification_response env s =
     (if shutdown_ongoing (system_shutdown s)
      then do {
        let n = shutdown_notifications_count (system_shutdown s) - 1;
        let s = s\<lparr>system_shutdown := (system_shutdown s)\<lparr>shutdown_notifications_count := n\<rparr>\<rparr>;
        s \<leftarrow> (if n = 0 then perform_shutdown env (shutdown_type (system_shutdown s)) s else Some s);
        Some (FWK_SUCCESS, s)
      }
      else Some (FWK_E_PARAM, s))"

definition process_power_state_pre_transition_notification_response ::
  "'w pd_env \<Rightarrow> nat \<Rightarrow> int \<Rightarrow> 'w pd_mod_ctx \<Rightarrow> (int \<times> 'w pd_mod_ctx) option" where
  "process_power_state_pre_transition_notification_response env i resp_status s =
     do {
       pd \<leftarrow> get_pd i s;
       let ntf = pre_transition_ntf pd;
       if pn_pending_responses ntf = 0 then do { fwk_unexpected (pd_build env); Some (FWK_E_PANIC, s) }
       else do {
         let ntf = ntf\<lparr>pn_pending_responses := pn_pending_responses ntf - 1,
           pn_response_status := (if resp_status \<noteq> FWK_SUCCESS then FWK_E_DEVICE else pn_response_status ntf)\<rparr>;
         let s = upd_pd i (\<lambda>p. p\<lparr>pre_transition_ntf := ntf\<rparr>) s;
         if pn_pending_responses ntf \<noteq> 0 then Some (FWK_SUCCESS, s)
         else if pn_valid ntf
         then (if pn_response_status ntf = FWK_SUCCESS then initiate_power_state_transition env i s else Some (FWK_SUCCESS, s))
         else if requested_state pd = state_requested_to_driver pd then Some (FWK_SUCCESS, s)
         else do {
           ok \<leftarrow> is_allowed_by_parent_and_children i (requested_state pd) s;
           if \<not> ok then Some (FWK_SUCCESS, s)
           else do {
             (deferred, s) \<leftarrow> initiate_power_state_pre_transition_notification env i s;
             if deferred then Some (FWK_SUCCESS, s) else initiate_power_state_transition env i s
           }
         }
       }
     }"

definition process_power_state_transition_notification_response :: "'w pd_env \<Rightarrow> nat \<Rightarrow> 'w pd_mod_ctx \<Rightarrow> (int \<times> 'w pd_mod_ctx) option" where
  "process_power_state_transition_notification_response env i s =
     do {
       pd \<leftarrow> get_pd i s;
       let ntf = transition_ntf pd;
       if tn_pending_responses ntf = 0 then do { fwk_unexpected (pd_build env); Some (FWK_E_PANIC, s) }
       else do {
         let ntf = ntf\<lparr>tn_pending_responses := tn_pending_responses ntf - 1\<rparr>;
         let s = upd_pd i (\<lambda>p. p\<lparr>transition_ntf := ntf\<rparr>) s;
         if tn_pending_responses ntf \<noteq> 0 then Some (FWK_SUCCESS, s)
         else if tn_state ntf = current_state pd
         then do {
           let s = upd_pd i (\<lambda>p. p\<lparr>transition_ntf := ntf\<lparr>tn_previous_state := current_state pd\<rparr>\<rparr>) s;
           s \<leftarrow> propagate_transition env i (current_state pd) (tn_previous_state ntf) s;
           Some (FWK_SUCCESS, s)
         }
         else notify_transition env i (current_state pd) s
       }
     }"

definition pd_process_notification :: "'w pd_env \<Rightarrow> fwk_event \<Rightarrow> 'w pd_mod_ctx \<Rightarrow> (int \<times> 'w pd_mod_ctx) option" where
  "pd_process_notification env event s =
     (if \<not> is_response event then do { fwk_unexpected (pd_build env); Some (FWK_E_SUPPORT, s) }
      else do {
        pre_shutdown \<leftarrow> fwk_id_is_equal (event_id event) (notification_id env 3);
        if pre_shutdown then process_pre_shutdown_notification_response env s
        else do {
          v \<leftarrow> srv_is_valid_element_id (pd_srv env) (target_id event) (world s);
          if \<not> v then do { fwk_unexpected (pd_build env); Some (FWK_E_PARAM, s) }
          else do {
            i \<leftarrow> pd_index (target_id event) s;
            transition \<leftarrow> fwk_id_is_equal (event_id event) (notification_id env 0);
            if transition then process_power_state_transition_notification_response env i s
            else do {
              status \<leftarrow> get_status 0 (params event);
              process_power_state_pre_transition_notification_response env i status s
            }
          }
        }
      })"

section \<open>The interfaces of the module\<close>

definition pd_get_domain_type :: "'w pd_env \<Rightarrow> fwk_id \<Rightarrow> mod_pd_type option \<Rightarrow> 'w pd_mod_ctx \<Rightarrow> (int \<times> mod_pd_type option) option" where
  "pd_get_domain_type env i type_p s =
     (if type_p = None then Some (FWK_E_PARAM, None)
      else do {
        v \<leftarrow> srv_is_valid_element_id (pd_srv env) i (world s);
        if \<not> v then Some (FWK_E_PARAM, type_p)
        else do { k \<leftarrow> pd_index i s; config \<leftarrow> get_config k s; Some (FWK_SUCCESS, Some (cfg_pd_type config)) }
      })"

definition pd_get_domain_parent_id :: "'w pd_env \<Rightarrow> fwk_id \<Rightarrow> fwk_id option \<Rightarrow> 'w pd_mod_ctx \<Rightarrow> (int \<times> fwk_id option) option" where
  "pd_get_domain_parent_id env i parent_pd_id s =
     (if parent_pd_id = None then Some (FWK_E_PARAM, None)
      else do {
        v \<leftarrow> srv_is_valid_element_id (pd_srv env) i (world s);
        if \<not> v then Some (FWK_E_PARAM, parent_pd_id)
        else do {
          k \<leftarrow> pd_index i s;
          pd \<leftarrow> get_pd k s;
          (case pd_parent pd of
             None \<Rightarrow> Some (FWK_SUCCESS, Some FWK_ID_NONE)
           | Some p \<Rightarrow> do { parent \<leftarrow> get_pd p s; Some (FWK_SUCCESS, Some (pd_id parent)) })
        }
      })"

definition pd_put :: "'w pd_env \<Rightarrow> fwk_event \<Rightarrow> 'w pd_mod_ctx \<Rightarrow> (int \<times> 'w pd_mod_ctx) option" where
  "pd_put env event s = do { (status, _, w) \<leftarrow> srv_put_event (pd_srv env) event (world s); Some (status, s\<lparr>world := w\<rparr>) }"

definition pd_set_state :: "'w pd_env \<Rightarrow> fwk_id \<Rightarrow> bool \<Rightarrow> 32 word \<Rightarrow> 'w pd_mod_ctx \<Rightarrow> (int \<times> 'w pd_mod_ctx) option" where
  "pd_set_state env i resp_requested state s =
     do {
       k \<leftarrow> pd_index i s;
       pd \<leftarrow> get_pd k s;
       valid \<leftarrow> (if cs_support pd then is_valid_composite_state k state s else Some (is_valid_state pd state));
       if \<not> valid then Some (FWK_E_PARAM, s)
       else do {
         req \<leftarrow> event_put_u32 0 state (zeroed_event\<lparr>source_id := pd_driver_id pd, target_id := i, response_requested := resp_requested,
           event_id := FWK_ID_EVENT (pd_module_idx env) 0\<rparr>);
         pd_put env req s
       }
     }"

definition pd_get_state :: "fwk_id \<Rightarrow> 32 word option \<Rightarrow> 'w pd_mod_ctx \<Rightarrow> (int \<times> 32 word option) option" where
  "pd_get_state i state s =
     (if state = None then Some (FWK_E_PARAM, None)
      else do { k \<leftarrow> pd_index i s; st \<leftarrow> process_get_state_request k s; Some (FWK_SUCCESS, Some st) })"

fun count_active_cores :: "nat list \<Rightarrow> nat \<Rightarrow> 'w pd_mod_ctx \<Rightarrow> nat option" where
  "count_active_cores [] active_cores s = Some active_cores"
| "count_active_cores (i # is) active_cores s =
     do {
       config \<leftarrow> get_config i s;
       active \<leftarrow> (if cfg_pd_type config = MOD_PD_TYPE_CORE then is_state_in_transition i MOD_PD_STATE_OFF s else Some False);
       count_active_cores is (if active then active_cores + 1 else active_cores) s
     }"

definition pd_system_suspend :: "'w pd_env \<Rightarrow> 32 word \<Rightarrow> 'w pd_mod_ctx \<Rightarrow> (int \<times> 'w pd_mod_ctx) option" where
  "pd_system_suspend env state s =
     do {
       active_cores \<leftarrow> count_active_cores [0..<pd_count s] 0 s;
       if active_cores > 1 then Some (FWK_E_STATE, s)
       else do {
         req \<leftarrow> event_put_u32 0 state (zeroed_event\<lparr>target_id := FWK_ID_MODULE (pd_module_idx env), event_id := FWK_ID_EVENT (pd_module_idx env) 3\<rparr>);
         pd_put env req s
       }
     }"

definition pd_system_shutdown :: "'w pd_env \<Rightarrow> 8 word \<Rightarrow> 'w pd_mod_ctx \<Rightarrow> (int \<times> 'w pd_mod_ctx) option" where
  "pd_system_shutdown env kind s =
     do {
       (status, s) \<leftarrow> pd_put env (zeroed_event\<lparr>target_id := FWK_ID_MODULE (pd_module_idx env), event_id := FWK_ID_EVENT (pd_module_idx env) 4,
         params := no_params[0 := kind]\<rparr>) s;
       Some (if status = FWK_SUCCESS then FWK_PENDING else status, s)
     }"

definition pd_reset :: "'w pd_env \<Rightarrow> fwk_id \<Rightarrow> bool \<Rightarrow> 'w pd_mod_ctx \<Rightarrow> (int \<times> 'w pd_mod_ctx) option" where
  "pd_reset env i resp_requested s =
     do {
       k \<leftarrow> pd_index i s;
       pd \<leftarrow> get_pd k s;
       (status, w) \<leftarrow> srv_put_event_light (pd_srv env) \<lparr>light_source_id = pd_driver_id pd, light_target_id = i,
         light_event_id = FWK_ID_EVENT (pd_module_idx env) 1, light_response_requested = resp_requested\<rparr> (world s);
       Some (status, s\<lparr>world := w\<rparr>)
     }"

definition report_power_state_transition :: "'w pd_env \<Rightarrow> nat \<Rightarrow> 32 word \<Rightarrow> 'w pd_mod_ctx \<Rightarrow> (int \<times> 'w pd_mod_ctx) option" where
  "report_power_state_transition env k state s =
     do {
       pd \<leftarrow> get_pd k s;
       report \<leftarrow> event_put_u32 0 state (zeroed_event\<lparr>source_id := pd_driver_id pd, target_id := pd_id pd, event_id := FWK_ID_EVENT (pd_module_idx env) 2\<rparr>);
       pd_put env report s
     }"

definition pd_report_power_state_transition :: "'w pd_env \<Rightarrow> fwk_id \<Rightarrow> 32 word \<Rightarrow> 'w pd_mod_ctx \<Rightarrow> (int \<times> 'w pd_mod_ctx) option" where
  "pd_report_power_state_transition env i state s = do { k \<leftarrow> pd_index i s; report_power_state_transition env k state s }"

definition pd_get_last_core_pd_id :: "fwk_id option \<Rightarrow> 'w pd_mod_ctx \<Rightarrow> (int \<times> fwk_id option) option" where
  "pd_get_last_core_pd_id last_core_pd_id s =
     (if last_core_pd_id = None then Some (FWK_E_PARAM, None)
      else if \<not> suspend_ongoing (system_suspend s) then Some (FWK_E_PWRSTATE, last_core_pd_id)
      else do { k \<leftarrow> last_core_pd (system_suspend s); pd \<leftarrow> get_pd k s; Some (FWK_SUCCESS, Some (pd_id pd)) })"

section \<open>The handlers of the framework\<close>

definition zero_pd :: pd_ctx where
  "zero_pd = \<lparr>pd_id = 0, pd_driver_api = None, pd_driver_id = 0, pd_config = None, valid_state_mask = 0,
     allowed_state_mask_table = [], allowed_state_mask_table_size = 0, cs_support = False, composite_state_mask_table = [],
     composite_state_mask_table_size = 0, composite_state_levels_mask = 0, pd_parent = None, requested_state = 0,
     state_requested_to_driver = 0, current_state = 0, driver_state = 0, response = \<lparr>rsp_pending = False, rsp_cookie = 0\<rparr>,
     transition_ntf = \<lparr>tn_pending_responses = 0, tn_state = 0, tn_previous_state = 0\<rparr>,
     pre_transition_ntf = \<lparr>pn_pending_responses = 0, pn_state = 0, pn_response_status = 0, pn_valid = False\<rparr>\<rparr>"

definition zero_pd_links :: "nat \<Rightarrow> pd_addr list_heap \<Rightarrow> pd_addr list_heap" where
  "zero_pd_links n h = h\<lparr>next_of := (\<lambda>a. case a of Children i \<Rightarrow> if i < n then None else next_of h a
     | ChildNode i \<Rightarrow> if i < n then None else next_of h a)\<rparr>"

definition pd_init :: "'w pd_env \<Rightarrow> nat \<Rightarrow> mod_power_domain_config option \<Rightarrow> 'w pd_mod_ctx \<Rightarrow> (int \<times> 'w pd_mod_ctx) option" where
  "pd_init env dev_count data s =
     (case data of
        None \<Rightarrow> Some (FWK_E_PARAM, s)
      | Some config \<Rightarrow>
          if dev_count = 0 then Some (FWK_E_PARAM, s)
          else (let s = s\<lparr>pd_module_config := Some config\<rparr>
                in if authorized_id_table config = None \<and> authorized_id_table_size config \<noteq> 0 then Some (FWK_E_PARAM, s)
                   else do {
                     w \<leftarrow> srv_calloc (pd_srv env) dev_count (world s);
                     Some (FWK_SUCCESS, s\<lparr>pd_ctx_table := replicate dev_count zero_pd, pd_count := dev_count, system_pd_ctx := dev_count - 1,
                       pd_heap := zero_pd_links dev_count (pd_heap s), world := w\<rparr>)
                   }))"

definition core_composite_state_mask_table :: "32 word list" where
  "core_composite_state_mask_table = map (\<lambda>level. push_bit (4 * level) MOD_PD_CS_STATE_MASK) [0..<4]"

definition core_tables :: "mod_power_domain_element_config \<Rightarrow> (32 word list \<times> nat \<times> 32 word) option" where
  "core_tables config =
     (if cfg_pd_type config = MOD_PD_TYPE_CORE
      then Some (core_composite_state_mask_table, length core_composite_state_mask_table, push_bit MOD_PD_CS_LEVEL_SHIFT MOD_PD_CS_STATE_MASK)
      else None)"

text \<open>The table of a domain: its own, the default one of a core, or none.\<close>

definition composite_tables :: "mod_power_domain_element_config \<Rightarrow> (32 word list \<times> nat \<times> 32 word) option" where
  "composite_tables config =
     (case cfg_composite_state_mask_table config of
        Some t \<Rightarrow>
          if cfg_composite_state_mask_table_size config > 0
          then Some (t, cfg_composite_state_mask_table_size config, cfg_composite_state_levels_mask config)
          else core_tables config
      | None \<Rightarrow> core_tables config)"

definition pd_power_domain_init :: "'w pd_env \<Rightarrow> fwk_id \<Rightarrow> mod_power_domain_element_config \<Rightarrow> 'w pd_mod_ctx \<Rightarrow> (int \<times> 'w pd_mod_ctx) option" where
  "pd_power_domain_init env i config s =
     do {
       k \<leftarrow> pd_index i s;
       let s = s\<lparr>pd_heap := fwk_slist_init (pd_build env) (Children k) (pd_heap s)\<rparr>;
       if cfg_pd_type config = MOD_PD_TYPE_COUNT then Some (FWK_E_PARAM, s)
       else (case cfg_allowed_state_mask_table config of
         None \<Rightarrow> Some (FWK_E_PARAM, s)
       | Some allowed \<Rightarrow>
           if cfg_allowed_state_mask_table_size config = 0 then Some (FWK_E_PARAM, s)
           else if cfg_allowed_state_mask_table_size config > length allowed then None
           else do {
             let n = cfg_allowed_state_mask_table_size config;
             let s = upd_pd k (\<lambda>p. p\<lparr>valid_state_mask := fold (OR) (take n allowed) (valid_state_mask p),
               allowed_state_mask_table := allowed, allowed_state_mask_table_size := n\<rparr>) s;
             let s =
               (case composite_tables config of
                  None \<Rightarrow> upd_pd k (\<lambda>p. p\<lparr>cs_support := False\<rparr>) s
                | Some (t, sz, levels_mask) \<Rightarrow>
                    upd_pd k (\<lambda>p. p\<lparr>cs_support := True, composite_state_mask_table := t, composite_state_mask_table_size := sz,
                      composite_state_levels_mask := levels_mask\<rparr>) s);
             Some (FWK_SUCCESS, upd_pd k (\<lambda>p. p\<lparr>pd_id := i, pd_config := Some config\<rparr>) s)
           })
     }"

definition connect_pd :: "'w pd_env \<Rightarrow> nat \<Rightarrow> 'w pd_mod_ctx \<Rightarrow> 'w pd_mod_ctx option" where
  "connect_pd env i s =
     do {
       config \<leftarrow> get_config i s;
       let p = unat (cfg_parent_idx config);
       if p \<ge> pd_count s then Some (upd_pd i (\<lambda>x. x\<lparr>pd_parent := None\<rparr>) s)
       else do {
         h \<leftarrow> fwk_slist_push_tail (pd_build env) (Children p) (ChildNode i) (pd_heap s);
         Some (upd_pd i (\<lambda>x. x\<lparr>pd_parent := Some p\<rparr>) (s\<lparr>pd_heap := h\<rparr>))
       }
     }"

definition connect_pd_tree :: "'w pd_env \<Rightarrow> 'w pd_mod_ctx \<Rightarrow> (int \<times> 'w pd_mod_ctx) option" where
  "connect_pd_tree env s = map_option (Pair FWK_SUCCESS) (foldM (connect_pd env) [0..<pd_count s] s)"

definition pd_post_init :: "'w pd_env \<Rightarrow> 'w pd_mod_ctx \<Rightarrow> (int \<times> 'w pd_mod_ctx) option" where
  "pd_post_init env s = connect_pd_tree env s"

definition pd_bind :: "'w pd_env \<Rightarrow> fwk_id \<Rightarrow> nat \<Rightarrow> 'w pd_mod_ctx \<Rightarrow> (int \<times> 'w pd_mod_ctx) option" where
  "pd_bind env i round s =
     (if round \<noteq> 0 then Some (FWK_SUCCESS, s)
      else do {
        is_module \<leftarrow> fwk_id_is_type i FWK_ID_TYPE_MODULE;
        if is_module then Some (FWK_SUCCESS, s)
        else do {
          k \<leftarrow> pd_index i s;
          config \<leftarrow> get_config k s;
          (status, api, w) \<leftarrow> srv_bind (pd_srv env) (cfg_driver_id config) (cfg_api_id config) (world s);
          let s = s\<lparr>world := w\<rparr>;
          if status \<noteq> FWK_SUCCESS then Some (status, s)
          else do {
            let s = upd_pd k (\<lambda>p. p\<lparr>pd_driver_id := cfg_driver_id config\<rparr>) s;
            a \<leftarrow> api;
            let d = pd_drivers env a;
            if pd_set_state_fn d = None \<or> pd_get_state_fn d = None \<or> pd_reset_fn d = None \<or>
               (cfg_pd_type config = MOD_PD_TYPE_CORE \<and> pd_prepare_core_fn d = None)
            then Some (FWK_E_PARAM, s)
            else Some (FWK_SUCCESS, upd_pd k (\<lambda>p. p\<lparr>pd_driver_api := Some a\<rparr>) s)
          }
        }
      })"

text \<open>One iteration of the loop of \<^verbatim>\<open>pd_start\<close>, which runs from the last domain to the first.\<close>

definition start_domain :: "'w pd_env \<Rightarrow> nat \<Rightarrow> 'w pd_mod_ctx \<Rightarrow> 'w pd_mod_ctx option" where
  "start_domain env k s =
     do {
       pd \<leftarrow> get_pd k s;
       let s = upd_pd k (\<lambda>p. p\<lparr>requested_state := MOD_PD_STATE_OFF, state_requested_to_driver := MOD_PD_STATE_OFF, current_state := MOD_PD_STATE_OFF\<rparr>) s;
       parent_off \<leftarrow> (case pd_parent pd of
                        None \<Rightarrow> Some False
                      | Some p \<Rightarrow> map_option (\<lambda>x. requested_state x = MOD_PD_STATE_OFF) (get_pd p s));
       if parent_off then Some s
       else do {
         ((status, state), s) \<leftarrow> call_pd_driver env k pd_get_state_fn s;
         if status \<noteq> FWK_SUCCESS then Some s
         else do {
           let s = upd_pd k (\<lambda>p. p\<lparr>requested_state := state, state_requested_to_driver := state, current_state := state, driver_state := state\<rparr>) s;
           if state = MOD_PD_STATE_OFF then Some s
           else do { (status, s) \<leftarrow> report_power_state_transition env k state s; Some s }
         }
       }
     }"

definition pd_start :: "'w pd_env \<Rightarrow> fwk_id \<Rightarrow> 'w pd_mod_ctx \<Rightarrow> (int \<times> 'w pd_mod_ctx) option" where
  "pd_start env i s =
     do {
       v \<leftarrow> srv_is_valid_element_id (pd_srv env) i (world s);
       if v then Some (FWK_SUCCESS, s)
       else do { s \<leftarrow> foldM (start_domain env) (rev [0..<pd_count s]) s; Some (FWK_SUCCESS, s) }
     }"

fun id_authorized :: "fwk_id \<Rightarrow> fwk_id list \<Rightarrow> bool option" where
  "id_authorized i [] = Some False"
| "id_authorized i (j # js) = do { same \<leftarrow> fwk_id_is_equal i j; if same then Some True else id_authorized i js }"

definition pd_process_bind_request :: "'w pd_env \<Rightarrow> fwk_id \<Rightarrow> fwk_id \<Rightarrow> fwk_id \<Rightarrow> nat option \<Rightarrow> 'w pd_mod_ctx \<Rightarrow> (int \<times> nat option) option" where
  "pd_process_bind_request env src tgt api_id api s =
     do {
       idx \<leftarrow> fwk_id_get_api_idx api_id;
       if idx = 0
       then do {
         is_module \<leftarrow> fwk_id_is_type tgt FWK_ID_TYPE_MODULE;
         Some (if \<not> is_module then (FWK_E_ACCESS, api) else (FWK_SUCCESS, Some (pd_public_api env)))
       }
       else if idx = 1
       then do {
         is_module \<leftarrow> fwk_id_is_type tgt FWK_ID_TYPE_MODULE;
         if \<not> is_module then Some (FWK_E_ACCESS, api)
         else do {
           config \<leftarrow> pd_module_config s;
           if authorized_id_table_size config = 0 then Some (FWK_SUCCESS, Some (pd_restricted_api env))
           else do {
             ids \<leftarrow> authorized_id_table config;
             granted \<leftarrow> (if authorized_id_table_size config \<le> length ids then id_authorized src (take (authorized_id_table_size config) ids) else None);
             Some (if granted then (FWK_SUCCESS, Some (pd_restricted_api env)) else (FWK_E_ACCESS, api))
           }
         }
       }
       else if idx = 2
       then do {
         is_element \<leftarrow> fwk_id_is_type tgt FWK_ID_TYPE_ELEMENT;
         if \<not> is_element then Some (FWK_E_ACCESS, api)
         else do {
           k \<leftarrow> pd_index tgt s;
           pd \<leftarrow> get_pd k s;
           same \<leftarrow> fwk_id_is_equal src (pd_driver_id pd);
           Some (if same then (FWK_SUCCESS, Some (pd_driver_input_api env)) else (FWK_E_ACCESS, api))
         }
       }
       else Some (FWK_E_PARAM, api)
     }"

definition pd_process_event :: "'w pd_env \<Rightarrow> fwk_event \<Rightarrow> fwk_event \<Rightarrow> 'w pd_mod_ctx \<Rightarrow> (int \<times> fwk_event \<times> 'w pd_mod_ctx) option" where
  "pd_process_event env event resp s =
     do {
       is_element \<leftarrow> fwk_id_is_type (target_id event) FWK_ID_TYPE_ELEMENT;
       pd \<leftarrow> (if is_element then map_option Some (pd_index (target_id event) s) else Some None);
       idx \<leftarrow> fwk_id_get_event_idx (event_id event);
       if idx = 0 then do { i \<leftarrow> pd; (resp, s) \<leftarrow> process_set_state_request env i event resp s; Some (FWK_SUCCESS, resp, s) }
       else if idx = 1
       then do { i \<leftarrow> pd; (status, s) \<leftarrow> process_reset_request env i s; resp \<leftarrow> event_put_status 0 status resp; Some (FWK_SUCCESS, resp, s) }
       else if idx = 2
       then do { i \<leftarrow> pd; state \<leftarrow> get_u32 0 (params event); s \<leftarrow> process_power_state_transition_report env i state s; Some (FWK_SUCCESS, resp, s) }
       else if idx = 3
       then do {
         state \<leftarrow> get_u32 0 (params event);
         (status, s) \<leftarrow> process_system_suspend_request env state s;
         resp \<leftarrow> event_put_status 0 status resp;
         Some (FWK_SUCCESS, resp, s)
       }
       else if idx = 4 then do { (resp, s) \<leftarrow> process_system_shutdown_request env event resp s; Some (FWK_SUCCESS, resp, s) }
       else Some (FWK_E_PARAM, resp, s)
     }"

end
