(* ===== verification/Mod_Pd_Tree.thy ===== *)
theory Mod_Pd_Tree
  imports Mod_Power_Domain
begin

text \<open>
  The tree of power domains: how it is built, what the lists of children represent, which states
  the requests and the drivers can reach, and the round trip of composite states.
\<close>

section \<open>Children\<close>

abbreviation domains :: "'w pd_mod_ctx \<Rightarrow> nat" where
  "domains s \<equiv> length (pd_ctx_table s)"

abbreviation pd_at :: "'w pd_mod_ctx \<Rightarrow> nat \<Rightarrow> pd_ctx" where
  "pd_at s i \<equiv> pd_ctx_table s ! i"

definition children_idx :: "'w pd_mod_ctx \<Rightarrow> nat \<Rightarrow> nat list" where
  "children_idx s p = filter (\<lambda>i. pd_parent (pd_at s i) = Some p) [0..<domains s]"

text \<open>
  \<open>pd_tree s\<close>: parents come after their children in the table, the list of children of a domain
  holds exactly the domains it is the parent of, and the tables are as long as their sizes say.
\<close>

definition pd_tree :: "'w pd_mod_ctx \<Rightarrow> bool" where
  "pd_tree s \<longleftrightarrow> pd_count s = domains s \<and>
     (\<forall>i < domains s. (\<forall>p. pd_parent (pd_at s i) = Some p \<longrightarrow> i < p \<and> p < domains s) \<and>
        slist_rep (pd_heap s) (Children i) (map ChildNode (children_idx s i)) \<and>
        allowed_state_mask_table_size (pd_at s i) \<le> length (allowed_state_mask_table (pd_at s i)) \<and>
        pd_config (pd_at s i) \<noteq> None)"

lemma pd_treeD:
  assumes "pd_tree s" and "i < domains s"
  shows "pd_parent (pd_at s i) = Some p \<Longrightarrow> i < p \<and> p < domains s"
    and "slist_rep (pd_heap s) (Children i) (map ChildNode (children_idx s i))"
    and "allowed_state_mask_table_size (pd_at s i) \<le> length (allowed_state_mask_table (pd_at s i))"
    and "pd_config (pd_at s i) \<noteq> None"
  using assms unfolding pd_tree_def by blast+

lemma get_pd_Some [simp]: "i < domains s \<Longrightarrow> get_pd i s = Some (pd_at s i)"
  by (simp add: get_pd_def)

lemma get_pd_Some_iff: "get_pd i s = Some pd \<longleftrightarrow> i < domains s \<and> pd = pd_at s i"
  by (auto simp: get_pd_def)

lemma upd_pd_sel [simp]:
  "domains (upd_pd i f s) = domains s" "pd_heap (upd_pd i f s) = pd_heap s" "pd_count (upd_pd i f s) = pd_count s"
  "world (upd_pd i f s) = world s" "system_suspend (upd_pd i f s) = system_suspend s"
  "system_shutdown (upd_pd i f s) = system_shutdown s" "pd_module_config (upd_pd i f s) = pd_module_config s"
  by (simp_all add: upd_pd_def)

lemma upd_pd_nth: "i < domains s \<Longrightarrow> pd_at (upd_pd i f s) j = (if j = i then f (pd_at s i) else pd_at s j)"
  by (simp add: upd_pd_def nth_list_update)

lemma children_idx_mem: "c \<in> set (children_idx s p) \<longleftrightarrow> c < domains s \<and> pd_parent (pd_at s c) = Some p"
  by (auto simp: children_idx_def)

lemma list_find_from_none:
  assumes "slist_rep h l (as @ bs)" and "list_find_from P l h (if bs = [] then None else Some (hd bs)) = Some None"
  shows "\<forall>x \<in> set bs. P x = Some False"
  using assms
proof (induction bs arbitrary: as)
  case Nil
  then show ?case by simp
next
  case (Cons b bs)
  have "Option.bind (P b) (\<lambda>found. if found then Some (Some b)
      else list_find_from P l h (if bs = [] then None else Some (hd bs))) = Some None"
    using Cons.prems(2) slist_next_rep [OF Cons.prems(1)] list_find_from.simps [of P l h "Some b"] by (simp cong: if_cong)
  then have "P b = Some False" and r: "list_find_from P l h (if bs = [] then None else Some (hd bs)) = Some None"
    by (cases "P b"; simp split: if_splits)+
  moreover have "\<forall>x \<in> set bs. P x = Some False"
    by (rule Cons.IH [of "as @ [b]"]) (use Cons.prems(1) r in auto)
  ultimately show ?case by simp
qed

lemma no_child:
  assumes "pd_tree s" and "i < domains s" and "exists_child P i s = Some False" and "c \<in> set (children_idx s i)"
  shows "P c = Some False"
proof -
  have rep: "slist_rep (pd_heap s) (Children i) ([] @ map ChildNode (children_idx s i))"
    using pd_treeD(2) [OF assms(1,2)] by simp
  have "fwk_list_find (\<lambda>nd. Option.bind (child_of nd) P) (Children i) (pd_heap s) = Some None"
    using assms(3) by (simp add: exists_child_def)
  then have "list_find_from (\<lambda>nd. Option.bind (child_of nd) P) (Children i) (pd_heap s)
      (if map ChildNode (children_idx s i) = [] then None else Some (hd (map ChildNode (children_idx s i)))) = Some None"
    using slist_head_rep [OF rep] unfolding fwk_list_find_def by (simp split: if_splits)
  from list_find_from_none [OF rep this] show ?thesis using assms(4) by simp
qed

text \<open>With a test that fails no assertion, the loop decides whether some child satisfies it.\<close>

lemma exists_child_eq:
  assumes "pd_tree s" and "i < domains s" and "\<And>c. c \<in> set (children_idx s i) \<Longrightarrow> P c = Some (p c)"
  shows "exists_child P i s = Some (\<exists>c \<in> set (children_idx s i). p c)"
proof -
  have rep: "slist_rep (pd_heap s) (Children i) (map ChildNode (children_idx s i))"
    using pd_treeD(2) [OF assms(1,2)] by simp
  have "fwk_list_find (\<lambda>nd. Option.bind (child_of nd) P) (Children i) (pd_heap s) =
      Some (find (\<lambda>nd. case nd of ChildNode c \<Rightarrow> p c | Children _ \<Rightarrow> False) (map ChildNode (children_idx s i)))"
    by (rule fwk_list_find_rep [OF rep]) (use assms(3) in auto)
  moreover have "find (\<lambda>nd. case nd of ChildNode c \<Rightarrow> p c | Children _ \<Rightarrow> False) (map ChildNode cs) \<noteq> None \<longleftrightarrow> (\<exists>c \<in> set cs. p c)" for cs
    by (induction cs) auto
  ultimately show ?thesis by (simp add: exists_child_def)
qed

section \<open>What an operation leaves alone\<close>

text \<open>\<open>pd_static p\<close>: the fields of a context that requests and transitions do not change.\<close>

definition pd_static :: "pd_ctx \<Rightarrow> pd_ctx" where
  "pd_static p = p\<lparr>requested_state := 0, state_requested_to_driver := 0, driver_state := 0, response := response zero_pd,
     transition_ntf := transition_ntf zero_pd, pre_transition_ntf := pre_transition_ntf zero_pd\<rparr>"

lemma pd_static_sel [simp]:
  "pd_parent (pd_static p) = pd_parent p" "current_state (pd_static p) = current_state p"
  "allowed_state_mask_table (pd_static p) = allowed_state_mask_table p"
  "allowed_state_mask_table_size (pd_static p) = allowed_state_mask_table_size p"
  "pd_config (pd_static p) = pd_config p" "pd_id (pd_static p) = pd_id p"
  "cs_support (pd_static p) = cs_support p" "composite_state_mask_table (pd_static p) = composite_state_mask_table p"
  "pd_driver_api (pd_static p) = pd_driver_api p" "valid_state_mask (pd_static p) = valid_state_mask p"
  by (simp_all add: pd_static_def)

lemma is_allowed_by_child_static: "is_allowed_by_child (pd_static p) = is_allowed_by_child p"
  by (simp add: is_allowed_by_child_def fun_eq_iff)

definition same_tree :: "'w pd_mod_ctx \<Rightarrow> 'w pd_mod_ctx \<Rightarrow> bool" where
  "same_tree s t \<longleftrightarrow> pd_heap t = pd_heap s \<and> pd_count t = pd_count s \<and> map pd_static (pd_ctx_table t) = map pd_static (pd_ctx_table s)"

lemma same_tree_refl [simp]: "same_tree s s"
  by (simp add: same_tree_def)

lemma same_tree_trans: "same_tree s t \<Longrightarrow> same_tree t u \<Longrightarrow> same_tree s u"
  by (simp add: same_tree_def)

lemma same_tree_domains: "same_tree s t \<Longrightarrow> domains t = domains s"
  unfolding same_tree_def by (metis length_map)

lemma same_tree_nth: "same_tree s t \<Longrightarrow> i < domains s \<Longrightarrow> pd_static (pd_at t i) = pd_static (pd_at s i)"
  unfolding same_tree_def by (metis length_map nth_map)

lemma same_tree_sel:
  assumes "same_tree s t" and "i < domains s"
  shows "pd_parent (pd_at t i) = pd_parent (pd_at s i)" "current_state (pd_at t i) = current_state (pd_at s i)"
    "is_allowed_by_child (pd_at t i) = is_allowed_by_child (pd_at s i)"
    "allowed_state_mask_table (pd_at t i) = allowed_state_mask_table (pd_at s i)"
    "allowed_state_mask_table_size (pd_at t i) = allowed_state_mask_table_size (pd_at s i)"
    "pd_config (pd_at t i) = pd_config (pd_at s i)"
  using same_tree_nth [OF assms] pd_static_sel is_allowed_by_child_static by metis+

lemma same_tree_upd:
  assumes "\<And>p. pd_static (f p) = pd_static p"
  shows "same_tree s (upd_pd i f s)"
proof -
  have "map pd_static ((pd_ctx_table s)[i := f (pd_at s i)]) = map pd_static (pd_ctx_table s)"
    by (cases "i < domains s") (simp_all add: map_update assms list_update_same_conv list_update_beyond)
  then show ?thesis by (simp add: same_tree_def upd_pd_def)
qed

lemma same_tree_world [simp]: "same_tree s (s\<lparr>world := w\<rparr>)" "same_tree s (s\<lparr>system_suspend := x\<rparr>)"
  by (simp_all add: same_tree_def)

lemma children_idx_same:
  assumes "same_tree s t"
  shows "children_idx t i = children_idx s i"
  unfolding children_idx_def
  by (rule filter_cong) (simp_all add: same_tree_domains [OF assms] same_tree_sel(1) [OF assms])

lemma pd_tree_same:
  assumes "same_tree s t" and "pd_tree s"
  shows "pd_tree t"
proof -
  note sel = same_tree_domains [OF assms(1)] same_tree_sel [OF assms(1)] children_idx_same [OF assms(1)]
  have "pd_heap t = pd_heap s" "pd_count t = pd_count s" using assms(1) by (simp_all add: same_tree_def)
  then show ?thesis
    unfolding pd_tree_def sel(1)
    using pd_treeD [OF assms(2)] assms(2) [unfolded pd_tree_def] by (metis sel(2,5-8))
qed

lemma allowed_by_parent_and_children_same:
  assumes "same_tree s t"
  shows "is_allowed_by_parent_and_children i state t = is_allowed_by_parent_and_children i state s"
proof -
  note sel = same_tree_domains [OF assms] same_tree_sel(1-3) [OF assms]
  have get: "(\<lambda>c. Option.bind (get_pd c t) (\<lambda>child. Option.bind (is_allowed_by_child child state (current_state child)) F)) =
      (\<lambda>c. Option.bind (get_pd c s) (\<lambda>child. Option.bind (is_allowed_by_child child state (current_state child)) F))" for F :: "bool \<Rightarrow> bool option"
    by (rule ext) (simp add: get_pd_def sel)
  have ex: "exists_child P i t = exists_child P i s" for P using assms by (simp add: exists_child_def same_tree_def)
  show ?thesis
  proof (cases "i < domains s")
    case True
    have parent: "Option.bind (get_pd p t) (\<lambda>parent. is_allowed_by_child (pd_at t i) (current_state parent) state) =
        Option.bind (get_pd p s) (\<lambda>parent. is_allowed_by_child (pd_at s i) (current_state parent) state)" for p
      using True by (simp add: get_pd_def sel)
    show ?thesis
      using True unfolding is_allowed_by_parent_and_children_def get ex
      by (cases "pd_parent (pd_at s i)") (simp_all add: sel get_pd_def)
  next
    case False
    then show ?thesis by (simp add: is_allowed_by_parent_and_children_def get_pd_def sel)
  qed
qed

section \<open>What a transition changes\<close>

text \<open>\<open>quiet\<close>: no state a domain has requested or has asked of its driver changes; \<open>drives i\<close>: only domain \<open>i\<close> is driven, to its requested state.\<close>

abbreviation requests :: "'w pd_mod_ctx \<Rightarrow> 32 word list" where
  "requests s \<equiv> map requested_state (pd_ctx_table s)"

abbreviation driven :: "'w pd_mod_ctx \<Rightarrow> 32 word list" where
  "driven s \<equiv> map state_requested_to_driver (pd_ctx_table s)"

definition quiet :: "'w pd_mod_ctx \<Rightarrow> 'w pd_mod_ctx \<Rightarrow> bool" where
  "quiet s t \<longleftrightarrow> same_tree s t \<and> map requested_state (pd_ctx_table t) = map requested_state (pd_ctx_table s) \<and>
     map state_requested_to_driver (pd_ctx_table t) = map state_requested_to_driver (pd_ctx_table s)"

definition drives :: "nat \<Rightarrow> 'w pd_mod_ctx \<Rightarrow> 'w pd_mod_ctx \<Rightarrow> bool" where
  "drives i s t \<longleftrightarrow> same_tree s t \<and> map requested_state (pd_ctx_table t) = map requested_state (pd_ctx_table s) \<and>
     map state_requested_to_driver (pd_ctx_table t) = (map state_requested_to_driver (pd_ctx_table s))[i := requested_state (pd_at s i)]"

lemma quiet_refl [simp]: "quiet s s"
  by (simp add: quiet_def)

lemma quiet_trans: "quiet s t \<Longrightarrow> quiet t u \<Longrightarrow> quiet s u"
  unfolding quiet_def using same_tree_trans by metis

lemma quiet_world [simp]: "quiet s (s\<lparr>world := w\<rparr>)"
  by (simp add: quiet_def)

lemma quiet_upd:
  assumes "\<And>p. pd_static (f p) = pd_static p" and "\<And>p. requested_state (f p) = requested_state p"
    and "\<And>p. state_requested_to_driver (f p) = state_requested_to_driver p"
  shows "quiet s (upd_pd i f s)"
proof -
  have "(map g (pd_ctx_table s))[i := g (pd_at s i)] = map g (pd_ctx_table s)" for g :: "pd_ctx \<Rightarrow> 32 word"
    by (cases "i < domains s") (simp_all add: list_update_same_conv list_update_beyond)
  then show ?thesis using same_tree_upd [of f] assms by (simp add: quiet_def upd_pd_def map_update)
qed

lemma quiet_sel:
  assumes "quiet s t" and "j < domains s"
  shows "requested_state (pd_at t j) = requested_state (pd_at s j)" "state_requested_to_driver (pd_at t j) = state_requested_to_driver (pd_at s j)"
  using assms unfolding quiet_def by (metis length_map nth_map)+

lemma drives_sel:
  assumes "drives i s t" and "j < domains s"
  shows "requested_state (pd_at t j) = requested_state (pd_at s j)"
    "state_requested_to_driver (pd_at t j) = (if j = i then requested_state (pd_at s i) else state_requested_to_driver (pd_at s j))"
proof -
  have l: "domains t = domains s" using assms(1) same_tree_domains by (auto simp: drives_def)
  show "requested_state (pd_at t j) = requested_state (pd_at s j)"
    using assms l unfolding drives_def by (metis nth_map)
  have "state_requested_to_driver (pd_at t j) = map state_requested_to_driver (pd_ctx_table t) ! j" using assms(2) l by simp
  also have "\<dots> = ((map state_requested_to_driver (pd_ctx_table s))[i := requested_state (pd_at s i)]) ! j"
    using assms(1) by (simp add: drives_def)
  also have "\<dots> = (if j = i then requested_state (pd_at s i) else state_requested_to_driver (pd_at s j))"
    using assms(2) by (auto simp: nth_list_update)
  finally show "state_requested_to_driver (pd_at t j) = (if j = i then requested_state (pd_at s i) else state_requested_to_driver (pd_at s j))" .
qed

lemma call_pd_driver_world: "call_pd_driver env i sel s = Some (r, t) \<Longrightarrow> i < domains s \<and> (\<exists>w. t = s\<lparr>world := w\<rparr>)"
  by (auto simp: call_pd_driver_def bind_Some_iff get_pd_Some_iff)

lemma quiet_world_upd:
  assumes "\<And>p. pd_static (f p) = pd_static p" and "\<And>p. requested_state (f p) = requested_state p"
    and "\<And>p. state_requested_to_driver (f p) = state_requested_to_driver p"
  shows "quiet s (upd_pd i f (s\<lparr>world := w\<rparr>))" "quiet s ((upd_pd i f s)\<lparr>world := w\<rparr>)"
  by (rule quiet_trans [OF quiet_world quiet_upd] quiet_trans [OF quiet_upd quiet_world]; fact assms)+

lemma deny_world:
  assumes "(if has_deny then call_pd_driver env i sel s else Some (False, s)) = Some (r, t)"
  shows "\<exists>w. t = s\<lparr>world := w\<rparr>"
proof (cases has_deny)
  case True
  then show ?thesis using assms call_pd_driver_world [of env i sel s r t] by simp
next
  case False
  then have "t = s\<lparr>world := world s\<rparr>" using assms by simp
  then show ?thesis by blast
qed

lemma drives_upd:
  assumes "i < domains s"
  shows "drives i s (upd_pd i (\<lambda>p. p\<lparr>state_requested_to_driver := requested_state (pd_at s i), driver_state := m\<rparr>) (s\<lparr>world := w\<rparr>))"
proof -
  have "same_tree s (upd_pd i (\<lambda>p. p\<lparr>state_requested_to_driver := requested_state (pd_at s i), driver_state := m\<rparr>) (s\<lparr>world := w\<rparr>))"
    by (rule same_tree_trans [OF same_tree_world(1) same_tree_upd]) (simp add: pd_static_def)
  then show ?thesis using assms by (simp add: drives_def upd_pd_def map_update list_update_same_conv)
qed

lemma initiate_effect:
  assumes "initiate_power_state_transition env i s = Some (status, t)"
  shows "i < domains s \<and> (if status = FWK_SUCCESS then drives i s t else quiet s t)"
proof -
  have e: "FWK_E_DEVICE \<noteq> FWK_SUCCESS" by (simp add: fwk_status_defs)
  show ?thesis
    using assms e unfolding initiate_power_state_transition_def Let_def
    by (simp split: bind_splits if_splits prod.splits add: get_pd_Some_iff)
       (auto dest!: call_pd_driver_world intro: drives_upd)
qed

lemma pre_transition_quiet:
  assumes "initiate_power_state_pre_transition_notification env i s = Some (b, t)"
  shows "quiet s t"
  using assms unfolding initiate_power_state_pre_transition_notification_def Let_def
  by (simp split: bind_splits if_splits prod.splits) (auto intro!: quiet_world_upd simp: pd_static_def)

lemma wrapper_quiet: "power_state_pre_transition_notification_wrapper env i s = Some (b, t) \<Longrightarrow> quiet s t"
  by (auto simp: power_state_pre_transition_notification_wrapper_def dest: pre_transition_quiet split: if_splits)

lemma delayed_response_quiet:
  assumes "send_pd_set_state_delayed_response env i st s = Some t"
  shows "quiet s t"
  using assms unfolding send_pd_set_state_delayed_response_def Let_def
  by (simp split: bind_splits if_splits prod.splits) (auto intro!: quiet_world_upd quiet_upd simp: pd_static_def)

section \<open>A request for a state\<close>

text \<open>
  \<open>accepts i state s\<close>: the states requested for the parent and the children of \<open>i\<close> allow the new state.
\<close>

definition accepts :: "nat \<Rightarrow> 32 word \<Rightarrow> 'w pd_mod_ctx \<Rightarrow> bool" where
  "accepts i state s \<longleftrightarrow>
     (\<forall>p. pd_parent (pd_at s i) = Some p \<longrightarrow> p < domains s \<and> is_allowed_by_child (pd_at s i) (requested_state (pd_at s p)) state = Some True) \<and>
     is_allowed_by_children i state s = Some True"

lemma drive_requested_state_cases:
  assumes "drive_requested_state env i state prev loc s = Some (stop, loc', t)" and "requested_state (pd_at s i) = state"
  shows "i < domains s \<and> same_tree s t \<and>
    (requests t = requests s \<and> driven t = driven s \<and> sl_initiated loc' = sl_initiated loc \<or>
     requests t = requests s \<and> driven t = (driven s)[i := state] \<and> \<not> sl_initiated loc \<and> sl_initiated loc' \<and>
       is_allowed_by_parent_and_children i state s = Some True \<or>
     requests t = (requests s)[i := prev] \<and> driven t = driven s \<and> sl_initiated loc' = sl_initiated loc)"
proof -
  obtain pd where i: "i < domains s" and pd: "get_pd i s = Some pd" "pd = pd_at s i"
    using assms(1) unfolding drive_requested_state_def bind_Some_iff get_pd_Some_iff by auto
  consider (skip) "t = s" "sl_initiated loc' = sl_initiated loc"
    | (deferred) "power_state_pre_transition_notification_wrapper env i s = Some (True, t)" "sl_initiated loc' = sl_initiated loc"
    | (tried) s1 status s2 where "\<not> sl_initiated loc" "is_allowed_by_parent_and_children i state s = Some True"
        "power_state_pre_transition_notification_wrapper env i s = Some (False, s1)"
        "initiate_power_state_transition env i s1 = Some (status, s2)"
        "if status \<noteq> FWK_SUCCESS then sl_initiated loc' = sl_initiated loc \<and> t = upd_pd i (\<lambda>p. p\<lparr>requested_state := prev\<rparr>) s2
         else sl_initiated loc' \<and> t = s2"
    using assms(1) pd unfolding drive_requested_state_def Let_def
    by (auto split: bind_splits if_splits)
  then show ?thesis
  proof cases
    case skip
    then show ?thesis using i by simp
  next
    case deferred
    then show ?thesis using wrapper_quiet i by (fastforce simp: quiet_def)
  next
    case tried
    have q: "quiet s s1" by (rule wrapper_quiet [OF tried(3)])
    have r1: "requested_state (pd_at s1 i) = state" using quiet_sel(1) [OF q i] assms(2) by simp
    have e: "if status = FWK_SUCCESS then drives i s1 s2 else quiet s1 s2" using initiate_effect [OF tried(4)] by simp
    show ?thesis
    proof (cases "status = FWK_SUCCESS")
      case True
      then have "drives i s1 t" using e tried(5) by simp
      then show ?thesis
        using q r1 tried(1,2,5) True i same_tree_trans [of s s1 t] by (simp add: drives_def quiet_def)
    next
      case False
      then have "quiet s s2" using e q quiet_trans by auto
      moreover have "same_tree s2 t" using False tried(5) by (auto intro!: same_tree_upd simp: pd_static_def)
      moreover have "requests t = (requests s2)[i := prev]" "driven t = driven s2"
        using False tried(5) by (cases "i < domains s2"; simp add: upd_pd_def map_update list_update_same_conv list_update_beyond)+
      ultimately show ?thesis using False tried(5) i same_tree_trans [of s s2 t] by (simp add: quiet_def)
    qed
  qed
qed

lemma set_state_level_cases:
  assumes "set_state_level env i state loc s = Some (stop, loc', t)"
  shows "i < domains s \<and> same_tree s t \<and>
    (requests t = requests s \<and> driven t = driven s \<and> sl_initiated loc' = sl_initiated loc \<or>
     accepts i state s \<and> requests t = (requests s)[i := state] \<and>
       (driven t = driven s \<and> sl_initiated loc' = sl_initiated loc \<or>
        driven t = (driven s)[i := state] \<and> \<not> sl_initiated loc \<and> sl_initiated loc' \<and> is_allowed_by_parent_and_children i state s = Some True))"
proof -
  let ?s = "upd_pd i (\<lambda>p. p\<lparr>requested_state := state, pre_transition_ntf := (pre_transition_ntf p)\<lparr>pn_valid := False\<rparr>\<rparr>) s"
  obtain pd where i: "i < domains s" and pd: "get_pd i s = Some pd" "pd = pd_at s i"
    using assms unfolding set_state_level_def bind_Some_iff get_pd_Some_iff by auto
  consider (skip) "t = s" "sl_initiated loc' = sl_initiated loc"
    | (accepted) s1 where "accepts i state s" "send_pd_set_state_delayed_response env i FWK_E_OVERWRITTEN ?s = Some s1"
        "drive_requested_state env i state (requested_state pd) loc s1 = Some (stop, loc', t)"
    using assms pd unfolding set_state_level_def Let_def accepts_def
    by (cases "pd_parent pd") (auto simp: get_pd_Some_iff split: bind_splits if_splits)
  then show ?thesis
  proof cases
    case skip
    then show ?thesis using i by simp
  next
    case accepted
    have q: "quiet ?s s1" by (rule delayed_response_quiet [OF accepted(2)])
    have st: "same_tree s ?s" by (rule same_tree_upd) (simp add: pd_static_def)
    have u: "requests ?s = (requests s)[i := state]" "driven ?s = driven s"
      using i by (simp_all add: upd_pd_def map_update list_update_same_conv)
    have r1: "requested_state (pd_at s1 i) = state" using quiet_sel(1) [OF q, of i] i by (simp add: upd_pd_nth)
    have s1: "same_tree s s1" using same_tree_trans [OF st] q by (simp add: quiet_def)
    have al: "is_allowed_by_parent_and_children i state s1 = is_allowed_by_parent_and_children i state s"
      by (rule allowed_by_parent_and_children_same [OF s1])
    have "(requests s)[i := requested_state pd] = requests s" using i pd(2) by (simp add: list_update_same_conv)
    then show ?thesis
      using drive_requested_state_cases [OF accepted(3) r1] same_tree_trans [OF s1] q u i accepted(1) al
      by (auto simp: quiet_def)
  qed
qed

text \<open>The requests are compatible: the state requested for a domain is allowed in the state requested for its parent.\<close>

definition requests_ok :: "'w pd_mod_ctx \<Rightarrow> bool" where
  "requests_ok s \<longleftrightarrow>
     (\<forall>i p. i < domains s \<longrightarrow> pd_parent (pd_at s i) = Some p \<longrightarrow>
        is_allowed_by_child (pd_at s i) (requested_state (pd_at s p)) (requested_state (pd_at s i)) = Some True)"

lemma requests_nth: "requests t = (requests s)[i := st] \<Longrightarrow> j < domains s \<Longrightarrow> domains t = domains s \<Longrightarrow>
    requested_state (pd_at t j) = (if j = i then st else requested_state (pd_at s j))"
  using nth_map [of j "pd_ctx_table t" requested_state] by (auto simp: nth_list_update)

lemma requests_nth_same: "requests t = requests s \<Longrightarrow> j < domains s \<Longrightarrow> requested_state (pd_at t j) = requested_state (pd_at s j)"
  by (metis length_map nth_map)

lemma requests_ok_same:
  assumes "requests_ok s" and "pd_tree s" and "same_tree s t" and "requests t = requests s"
  shows "requests_ok t"
  unfolding requests_ok_def same_tree_domains [OF assms(3)]
proof (intro allI impI)
  fix i p
  assume i: "i < domains s" and p: "pd_parent (pd_at t i) = Some p"
  then have p': "pd_parent (pd_at s i) = Some p" using same_tree_sel(1) [OF assms(3) i] by simp
  then have "p < domains s" using pd_treeD(1) [OF assms(2) i] by blast
  then show "is_allowed_by_child (pd_at t i) (requested_state (pd_at t p)) (requested_state (pd_at t i)) = Some True"
    using assms(1) [unfolded requests_ok_def, rule_format, OF i p'] same_tree_sel(3) [OF assms(3) i]
      requests_nth_same [OF assms(4)] i by simp
qed

lemma allowed_by_children_each:
  assumes "pd_tree s" and "i < domains s" and "is_allowed_by_children i state s = Some True"
    and "c < domains s" and "pd_parent (pd_at s c) = Some i"
  shows "is_allowed_by_child (pd_at s c) state (requested_state (pd_at s c)) = Some True"
proof -
  have "exists_child (\<lambda>c. do { child \<leftarrow> get_pd c s; ok \<leftarrow> is_allowed_by_child child state (requested_state child); Some (\<not> ok) }) i s = Some False"
    using assms(3) by (auto simp: is_allowed_by_children_def)
  from no_child [OF assms(1,2) this, of c] show ?thesis using assms(4,5) by (auto simp: children_idx_mem split: bind_splits)
qed

lemma accepts_requests_ok:
  assumes "pd_tree s" and "requests_ok s" and "accepts i state s" and "i < domains s" and "same_tree s t"
    and "requests t = (requests s)[i := state]"
  shows "requests_ok t"
  unfolding requests_ok_def same_tree_domains [OF assms(5)]
proof (intro allI impI)
  fix j p
  assume j: "j < domains s" and p: "pd_parent (pd_at t j) = Some p"
  note req = requests_nth [OF assms(6) _ same_tree_domains [OF assms(5)]] and sel = same_tree_sel [OF assms(5) j]
  have p': "pd_parent (pd_at s j) = Some p" using p sel(1) by simp
  then have pl: "j < p" "p < domains s" using pd_treeD(1) [OF assms(1) j] by blast+
  have old: "is_allowed_by_child (pd_at s j) (requested_state (pd_at s p)) (requested_state (pd_at s j)) = Some True"
    by (rule assms(2) [unfolded requests_ok_def, rule_format, OF j p'])
  show "is_allowed_by_child (pd_at t j) (requested_state (pd_at t p)) (requested_state (pd_at t j)) = Some True"
  proof (cases "j = i")
    case True
    then show ?thesis using assms(3) p' pl req j sel(3) by (simp add: accepts_def)
  next
    case False
    then show ?thesis
      using old req j pl sel(3) assms(3,4) p' allowed_by_children_each [OF assms(1) assms(4) _ j] by (auto simp: accepts_def)
  qed
qed

text \<open>An invariant of the loop body of a request is an invariant of the request.\<close>

lemma set_state_walk_inv:
  assumes "set_state_walk env lowest cs up hl ks pd loc s = Some (loc', t)" and "P loc s"
    and step: "\<And>i state loc s stop loc' t. set_state_level env i state loc s = Some (stop, loc', t) \<Longrightarrow> P loc s \<Longrightarrow> P loc' t"
  shows "P loc' t"
  using assms(1,2)
proof (induction ks arbitrary: pd loc s)
  case Nil
  then show ?case by simp
next
  case (Cons k ks)
  obtain i state stop loc1 s1 where lv: "set_state_level env i state loc s = Some (stop, loc1, s1)"
      and rest: "(if stop then Some (loc1, s1)
        else do { pd \<leftarrow> get_pd i s1; set_state_walk env lowest cs up hl ks (pd_parent pd) loc1 s1 }) = Some (loc', t)"
    using Cons.prems(1) by (auto simp: Let_def bind_Some_iff simp del: set_state_walk.simps(1))
  have "P loc1 s1" by (rule step [OF lv Cons.prems(2)])
  then show ?case using rest Cons.IH by (auto simp: bind_Some_iff split: if_splits)
qed

lemma process_set_state_parts:
  assumes "process_set_state_request env k event resp s = Some (resp', t)"
  obtains cs up hl loc u i c where
    "set_state_walk env k cs up hl [0..<hl + 1] (Some k) \<lparr>sl_status = FWK_SUCCESS, sl_in_charge = None, sl_initiated = False\<rparr>
       (s\<lparr>system_suspend := (system_suspend s)\<lparr>last_core_off_ongoing := False\<rparr>\<rparr>) = Some (loc, u)"
    "t = u \<or> t = upd_pd i (\<lambda>p. p\<lparr>response := c\<rparr>) u"
  using assms unfolding process_set_state_request_def Let_def
  by (simp split: bind_splits if_splits prod.splits option.splits) metis+

definition driven_from :: "'w pd_mod_ctx \<Rightarrow> set_state_locals \<Rightarrow> 'w pd_mod_ctx \<Rightarrow> bool" where
  "driven_from s0 loc s \<longleftrightarrow> same_tree s0 s \<and>
     (if sl_initiated loc
      then \<exists>i state. i < domains s0 \<and> driven s = (driven s0)[i := state] \<and> is_allowed_by_parent_and_children i state s0 = Some True
      else driven s = driven s0)"

lemma set_state_level_driven:
  assumes "set_state_level env i state loc s = Some (stop, loc', t)" and "driven_from s0 loc s"
  shows "driven_from s0 loc' t"
proof -
  have s0: "same_tree s0 s" using assms(2) by (simp add: driven_from_def)
  then have i: "i < domains s0" "same_tree s0 t"
    using set_state_level_cases [OF assms(1)] same_tree_domains [OF s0] same_tree_trans [OF s0] by simp_all
  have "is_allowed_by_parent_and_children i state s = is_allowed_by_parent_and_children i state s0"
    using assms(2) by (intro allowed_by_parent_and_children_same) (simp add: driven_from_def)
  then show ?thesis using set_state_level_cases [OF assms(1)] assms(2) i by (auto simp: driven_from_def) metis
qed

lemma set_state_requests:
  assumes "pd_tree s" and "requests_ok s" and "process_set_state_request env k event resp s = Some (resp', t)"
  shows "pd_tree t \<and> requests_ok t"
proof -
  let ?s = "s\<lparr>system_suspend := (system_suspend s)\<lparr>last_core_off_ongoing := False\<rparr>\<rparr>"
  let ?P = "\<lambda>(_::set_state_locals) u. pd_tree u \<and> requests_ok u"
  obtain cs up hl loc u i c where walk: "set_state_walk env k cs up hl [0..<hl + 1] (Some k)
       \<lparr>sl_status = FWK_SUCCESS, sl_in_charge = None, sl_initiated = False\<rparr> ?s = Some (loc, u)"
    and t: "t = u \<or> t = upd_pd i (\<lambda>p. p\<lparr>response := c\<rparr>) u"
    using process_set_state_parts [OF assms(3)] by blast
  have s: "pd_tree ?s" "requests_ok ?s"
    using pd_tree_same [OF same_tree_world(2) assms(1)] requests_ok_same [OF assms(2,1) same_tree_world(2)] by simp_all
  have u: "?P loc u"
  proof (rule set_state_walk_inv [OF walk, of ?P])
    fix i state loc1 v stop loc2 w
    assume lv: "set_state_level env i state loc1 v = Some (stop, loc2, w)" and P: "?P loc1 v"
    show "?P loc2 w"
      using set_state_level_cases [OF lv] P pd_tree_same [of v w] requests_ok_same [of v w] accepts_requests_ok [of v i state w] by auto
  qed (use s in simp)
  have "same_tree u (upd_pd i (\<lambda>p. p\<lparr>response := c\<rparr>) u)" "requests (upd_pd i (\<lambda>p. p\<lparr>response := c\<rparr>) u) = requests u"
    by (auto intro!: same_tree_upd simp: pd_static_def)
       (cases "i < domains u"; simp add: upd_pd_def map_update list_update_same_conv list_update_beyond)
  then show ?thesis using t u pd_tree_same [of u] requests_ok_same [of u] by auto
qed

text \<open>\<open>drives_allowed s t\<close>: every domain whose driver was asked for another state was asked for one that its parent and children allow.\<close>

definition drives_allowed :: "'w pd_mod_ctx \<Rightarrow> 'w pd_mod_ctx \<Rightarrow> bool" where
  "drives_allowed s t \<longleftrightarrow> same_tree s t \<and> requests t = requests s \<and>
     (\<forall>i < domains s. state_requested_to_driver (pd_at t i) \<noteq> state_requested_to_driver (pd_at s i) \<longrightarrow>
        state_requested_to_driver (pd_at t i) = requested_state (pd_at t i) \<and>
        is_allowed_by_parent_and_children i (state_requested_to_driver (pd_at t i)) t = Some True)"

lemma drives_allowed_refl [simp]: "drives_allowed s s"
  by (simp add: drives_allowed_def)

lemma drives_allowed_quiet: "quiet s t \<Longrightarrow> drives_allowed s t"
  using quiet_sel(2) by (fastforce simp: drives_allowed_def quiet_def)

lemma drives_allowed_trans:
  assumes "drives_allowed s t" and "drives_allowed t u"
  shows "drives_allowed s u"
proof -
  have st: "same_tree s t" "same_tree t u" using assms by (simp_all add: drives_allowed_def)
  have d: "domains t = domains s" by (rule same_tree_domains [OF st(1)])
  have rq: "requests t = requests s" "requests u = requests t" using assms by (simp_all add: drives_allowed_def)
  have al: "is_allowed_by_parent_and_children i x u = is_allowed_by_parent_and_children i x t" for i x
    by (rule allowed_by_parent_and_children_same [OF st(2)])
  have "state_requested_to_driver (pd_at u i) = requested_state (pd_at u i) \<and>
      is_allowed_by_parent_and_children i (state_requested_to_driver (pd_at u i)) u = Some True"
    if "i < domains s" "state_requested_to_driver (pd_at u i) \<noteq> state_requested_to_driver (pd_at s i)" for i
    using assms that d al requests_nth_same [OF rq(2)]
    by (cases "state_requested_to_driver (pd_at u i) = state_requested_to_driver (pd_at t i)") (auto simp: drives_allowed_def)
  then show ?thesis using same_tree_trans [OF st] rq by (simp add: drives_allowed_def)
qed

lemma initiate_drives_allowed:
  assumes "initiate_power_state_transition env i s = Some (status, t)"
    and "is_allowed_by_parent_and_children i (requested_state (pd_at s i)) s = Some True"
  shows "drives_allowed s t"
proof (cases "status = FWK_SUCCESS")
  case True
  then have d: "drives i s t" using initiate_effect [OF assms(1)] by simp
  then have "same_tree s t" by (simp add: drives_def)
  then show ?thesis
    using d drives_sel [OF d] assms(2) allowed_by_parent_and_children_same [of s t] by (simp add: drives_allowed_def drives_def)
next
  case False
  then show ?thesis using initiate_effect [OF assms(1)] by (simp add: drives_allowed_quiet)
qed

text \<open>The transition of a domain, unless its pre-transition notification defers it.\<close>

lemma guarded_drive:
  assumes "is_allowed_by_parent_and_children i (requested_state (pd_at s i)) s = Some True" and "i < domains s"
    and "power_state_pre_transition_notification_wrapper env i s = Some (deferred, s1)"
    and "(if deferred then Some s1 else map_option snd (initiate_power_state_transition env i s1)) = Some t"
  shows "drives_allowed s t"
proof -
  have q: "quiet s s1" by (rule wrapper_quiet [OF assms(3)])
  have al: "is_allowed_by_parent_and_children i (requested_state (pd_at s1 i)) s1 = Some True"
    using assms(1) quiet_sel(1) [OF q assms(2)] allowed_by_parent_and_children_same [of s s1] q by (simp add: quiet_def)
  show ?thesis
  proof (cases deferred)
    case True
    then show ?thesis using assms(4) q by (simp add: drives_allowed_quiet)
  next
    case False
    then obtain st where "initiate_power_state_transition env i s1 = Some (st, t)" using assms(4) by auto
    from initiate_drives_allowed [OF this al] show ?thesis using drives_allowed_trans [OF drives_allowed_quiet [OF q]] by blast
  qed
qed

lemma deeper_drives_allowed:
  assumes "process_power_state_transition_report_deeper_state env i s = Some t"
  shows "drives_allowed s t"
proof -
  consider "t = s" | p deferred s1 where "p < domains s" "is_allowed_by_parent_and_children p (requested_state (pd_at s p)) s = Some True"
      "power_state_pre_transition_notification_wrapper env p s = Some (deferred, s1)"
      "(if deferred then Some s1 else map_option snd (initiate_power_state_transition env p s1)) = Some t"
    using assms unfolding process_power_state_transition_report_deeper_state_def Let_def
    by (auto simp: get_pd_Some_iff split: bind_splits if_splits option.splits)
  then show ?thesis by cases (auto intro: guarded_drive)
qed

lemma children_drives_allowed:
  assumes "drive_children env i node s = Some t"
  shows "drives_allowed s t"
  using assms
proof (induction rule: drive_children.raw_induct [rotated, consumes 1])
  case (1 rec env i node s t)
  show ?case
  proof (cases node)
    case None
    then show ?thesis using 1(2) by simp
  next
    case (Some nd)
    obtain c child where c: "child_of nd = Some c" "c < domains s" "child = pd_at s c"
      using 1(2) Some by (auto simp: bind_Some_iff get_pd_Some_iff)
    consider (settled) nxt where "rec env i nxt s = Some t" | (refused) "t = s"
      | (driven) deferred s1 s2 nxt where
          "is_allowed_by_parent_and_children c (requested_state (pd_at s c)) s = Some True"
          "power_state_pre_transition_notification_wrapper env c s = Some (deferred, s1)"
          "(if deferred then Some s1 else map_option snd (initiate_power_state_transition env c s1)) = Some s2"
          "rec env i nxt s2 = Some t"
      using 1(2) Some c by (auto simp: bind_Some_iff split: if_splits)
    then show ?thesis
    proof cases
      case settled
      then show ?thesis by (rule 1(1))
    next
      case refused
      then show ?thesis by simp
    next
      case driven
      from guarded_drive [OF driven(1) c(2) driven(2,3)] 1(1) [OF driven(4)] show ?thesis by (rule drives_allowed_trans)
    qed
  qed
qed

lemma propagate_drives_allowed:
  assumes "propagate_transition env i new_state previous_state s = Some t"
  shows "drives_allowed s t"
  using assms unfolding propagate_transition_def process_power_state_transition_report_shallower_state_def
  by (auto simp: bind_Some_iff split: if_splits dest: deeper_drives_allowed children_drives_allowed)

lemma report_notification_quiet:
  assumes "report_notification env i state s = Some t"
  shows "quiet s t"
  using assms unfolding report_notification_def notify_transition_def Let_def
  by (simp split: bind_splits if_splits prod.splits) (auto intro!: quiet_world_upd simp: pd_static_def)

lemma report_suspend [simp]:
  "send_pd_set_state_delayed_response env i st s = Some t \<Longrightarrow> system_suspend t = system_suspend s"
  "report_notification env i state s = Some t \<Longrightarrow> system_suspend t = system_suspend s"
  unfolding send_pd_set_state_delayed_response_def report_notification_def notify_transition_def Let_def
  by (auto split: bind_splits if_splits prod.splits)

text \<open>The state in which a report is propagated: the domain's current state is the reported one, and its request that of its driver.\<close>

definition reported :: "nat \<Rightarrow> 32 word \<Rightarrow> 'w pd_mod_ctx \<Rightarrow> 'w pd_mod_ctx" where
  "reported i state s = upd_pd i (\<lambda>p. p\<lparr>current_state := state\<rparr>) s"

lemma report_parts:
  assumes "process_power_state_transition_report env i state s = Some t"
    and "\<not> (last_core_off_ongoing (system_suspend s) \<and> last_core_pd (system_suspend s) = Some i)"
  obtains s1 s2 x where "i < domains s" "quiet s s1" "system_suspend s1 = system_suspend s"
    "quiet (reported i state s1) s2"
    "(has_notification (pd_build env) \<and> tn_pending_responses (transition_ntf (pd_at s2 i)) > 0 \<and>
        t = upd_pd i (\<lambda>p. p\<lparr>transition_ntf := (transition_ntf p)\<lparr>tn_previous_state := current_state (pd_at s i)\<rparr>\<rparr>) (s2\<lparr>system_suspend := x\<rparr>)) \<or>
     (\<not> (has_notification (pd_build env) \<and> tn_pending_responses (transition_ntf (pd_at s2 i)) > 0) \<and>
      propagate_transition env i state (current_state (pd_at s i))
        (upd_pd i (\<lambda>p. p\<lparr>requested_state := state_requested_to_driver (pd_at s i), state_requested_to_driver := state_requested_to_driver (pd_at s i)\<rparr>)
          (s2\<lparr>system_suspend := x\<rparr>)) = Some t)"
proof -
  note fs = assms(1) [unfolded process_power_state_transition_report_def Let_def]
  obtain pd where pd: "get_pd i s = Some pd" using fs unfolding bind_Some_iff by blast
  then have i: "i < domains s" "pd = pd_at s i" by (simp_all add: get_pd_Some_iff)
  obtain s1 where d: "(if state = driver_state pd then send_pd_set_state_delayed_response env i FWK_SUCCESS s else Some s) = Some s1"
    using fs pd by (simp add: bind_Some_iff) blast
  have q1: "quiet s s1" using d by (auto split: if_splits dest: delayed_response_quiet)
  have ss1: "system_suspend s1 = system_suspend s" using d report_suspend(1) [of env i FWK_SUCCESS s s1] by (auto split: if_splits)
  have d1: "i < domains s1" using same_tree_domains [of s s1] q1 i(1) by (simp add: quiet_def)
  obtain s2 where s2: "report_notification env i state (reported i state s1) = Some s2"
    and rest: "(if last_core_off_ongoing (system_suspend s2) \<and> last_core_pd (system_suspend s2) = Some i
       then finish_system_suspend env i s2
       else do {
         let s = (if pd_parent pd = None \<and> suspend_state (system_suspend s2) \<noteq> MOD_PD_STATE_ON
                  then s2\<lparr>system_suspend := (system_suspend s2)\<lparr>suspend_ongoing := False\<rparr>\<rparr> else s2);
         p \<leftarrow> get_pd i s;
         if has_notification (pd_build env) \<and> tn_pending_responses (transition_ntf p) > 0
         then Some (upd_pd i (\<lambda>p. p\<lparr>transition_ntf := (transition_ntf p)\<lparr>tn_previous_state := current_state pd\<rparr>\<rparr>) s)
         else propagate_transition env i state (current_state pd)
                (upd_pd i (\<lambda>p. p\<lparr>requested_state := state_requested_to_driver pd, state_requested_to_driver := state_requested_to_driver pd\<rparr>) s)
       }) = Some t"
    using fs unfolding reported_def Let_def by (simp only: pd d bind.bind_lunit bind_Some_iff) blast
  have q2: "quiet (reported i state s1) s2" by (rule report_notification_quiet [OF s2])
  have ss2: "system_suspend s2 = system_suspend s" using report_suspend(2) [OF s2] ss1 by (simp add: reported_def)
  have d2: "i < domains s2" using same_tree_domains [of "reported i state s1" s2] q2 d1 by (simp add: quiet_def reported_def)
  obtain x where x: "(if pd_parent pd = None \<and> suspend_state (system_suspend s2) \<noteq> MOD_PD_STATE_ON
      then s2\<lparr>system_suspend := (system_suspend s2)\<lparr>suspend_ongoing := False\<rparr>\<rparr> else s2) = s2\<lparr>system_suspend := x\<rparr>"
    by (cases "pd_parent pd = None \<and> suspend_state (system_suspend s2) \<noteq> MOD_PD_STATE_ON") (simp, metis pd_mod_ctx.surjective pd_mod_ctx.update_convs(5))
  have g: "get_pd i (s2\<lparr>system_suspend := x\<rparr>) = Some (pd_at s2 i)" using d2 by (simp add: get_pd_def)
  have "\<not> (last_core_off_ongoing (system_suspend s2) \<and> last_core_pd (system_suspend s2) = Some i)" using assms(2) ss2 by simp
  then have "(if has_notification (pd_build env) \<and> tn_pending_responses (transition_ntf (pd_at s2 i)) > 0
         then Some (upd_pd i (\<lambda>p. p\<lparr>transition_ntf := (transition_ntf p)\<lparr>tn_previous_state := current_state pd\<rparr>\<rparr>) (s2\<lparr>system_suspend := x\<rparr>))
         else propagate_transition env i state (current_state pd)
                (upd_pd i (\<lambda>p. p\<lparr>requested_state := state_requested_to_driver pd, state_requested_to_driver := state_requested_to_driver pd\<rparr>)
                  (s2\<lparr>system_suspend := x\<rparr>))) = Some t"
    using rest by (simp only: Let_def x g if_False bind.bind_lunit)
  then show thesis
    by (intro that [OF i(1) q1 ss1 q2, of x]) (simp only: i(2), auto split: if_splits)
qed

text \<open>What a report changes: beyond the domain's own current state, drivers are asked only for allowed states.\<close>

lemma report_drives_allowed:
  assumes "process_power_state_transition_report env i state s = Some t"
    and "\<not> (last_core_off_ongoing (system_suspend s) \<and> last_core_pd (system_suspend s) = Some i)" and "j < domains s"
    and "state_requested_to_driver (pd_at t j) \<noteq> state_requested_to_driver (pd_at s j)"
  shows "is_allowed_by_parent_and_children j (state_requested_to_driver (pd_at t j)) t = Some True"
  using assms(1,2)
proof (cases rule: report_parts)
  case (1 s1 s2 x)
  let ?s3 = "upd_pd i (\<lambda>p. p\<lparr>requested_state := state_requested_to_driver (pd_at s i), state_requested_to_driver := state_requested_to_driver (pd_at s i)\<rparr>)
      (s2\<lparr>system_suspend := x\<rparr>)"
  have d1: "domains s1 = domains s" using same_tree_domains 1(2) by (auto simp: quiet_def)
  have d2: "domains s2 = domains s" using same_tree_domains [of "reported i state s1" s2] 1(4) d1 by (simp add: quiet_def reported_def)
  have r2: "state_requested_to_driver (pd_at s2 j) = state_requested_to_driver (pd_at s j)"
    using quiet_sel(2) [OF 1(4), of j] quiet_sel(2) [OF 1(2) assms(3)] assms(3) d1 1(1)
    by (simp add: reported_def upd_pd_nth split: if_splits)
  show ?thesis
  proof (cases "has_notification (pd_build env) \<and> tn_pending_responses (transition_ntf (pd_at s2 i)) > 0")
    case True
    then have "state_requested_to_driver (pd_at t j) = state_requested_to_driver (pd_at s2 j)"
      using 1(1,5) d2 by (auto simp: upd_pd_def nth_list_update)
    then show ?thesis using r2 assms(4) by simp
  next
    case False
    then have "drives_allowed ?s3 t" using 1(5) propagate_drives_allowed by blast
    moreover have "state_requested_to_driver (pd_at ?s3 j) = state_requested_to_driver (pd_at s j)"
      using r2 1(1) d2 by (simp add: upd_pd_def nth_list_update)
    ultimately show ?thesis using assms(3,4) d2 by (simp add: drives_allowed_def)
  qed
qed

text \<open>What follows a transition leaves the state of the transition notifications alone.\<close>

abbreviation ntfs :: "'w pd_mod_ctx \<Rightarrow> transition_notification_ctx list" where
  "ntfs s \<equiv> map transition_ntf (pd_ctx_table s)"

lemma ntfs_upd: "(\<And>p. transition_ntf (f p) = transition_ntf p) \<Longrightarrow> ntfs (upd_pd i f s) = ntfs s"
  by (cases "i < domains s") (simp_all add: upd_pd_def map_update list_update_same_conv list_update_beyond)

lemma initiate_ntfs: "initiate_power_state_transition env i s = Some (st, t) \<Longrightarrow> ntfs t = ntfs s"
  unfolding initiate_power_state_transition_def Let_def
  by (simp split: bind_splits if_splits prod.splits) (auto dest!: call_pd_driver_world simp: ntfs_upd)

lemma wrapper_ntfs: "power_state_pre_transition_notification_wrapper env i s = Some (b, t) \<Longrightarrow> ntfs t = ntfs s"
  unfolding power_state_pre_transition_notification_wrapper_def initiate_power_state_pre_transition_notification_def Let_def
  by (simp split: bind_splits if_splits prod.splits) (auto simp: ntfs_upd)

lemma deeper_ntfs: "process_power_state_transition_report_deeper_state env i s = Some t \<Longrightarrow> ntfs t = ntfs s"
  unfolding process_power_state_transition_report_deeper_state_def Let_def
  by (auto split: bind_splits if_splits option.splits dest!: wrapper_ntfs initiate_ntfs)

lemma children_ntfs:
  assumes "drive_children env i node s = Some t"
  shows "ntfs t = ntfs s"
  using assms
proof (induction rule: drive_children.raw_induct [rotated, consumes 1])
  case (1 rec env i node s t)
  show ?case
  proof (cases node)
    case None
    then show ?thesis using 1(2) by simp
  next
    case (Some nd)
    then show ?thesis using 1(2)
      by (auto simp: bind_Some_iff split: if_splits dest!: 1(1) wrapper_ntfs initiate_ntfs)
  qed
qed

lemma propagate_ntfs: "propagate_transition env i new_state previous_state s = Some t \<Longrightarrow> ntfs t = ntfs s"
  unfolding propagate_transition_def process_power_state_transition_report_shallower_state_def
  by (auto simp: bind_Some_iff split: if_splits dest: deeper_ntfs children_ntfs)

text \<open>
  A report overwrites the request of its domain with the state last asked of its driver, except while
  responses to the notification of the transition are pending: then the request stays.
\<close>

lemma report_forgets_request:
  assumes "process_power_state_transition_report env i state s = Some t"
    and "\<not> (last_core_off_ongoing (system_suspend s) \<and> last_core_pd (system_suspend s) = Some i)"
  shows "i < domains s \<and> state_requested_to_driver (pd_at t i) = state_requested_to_driver (pd_at s i) \<and>
    requested_state (pd_at t i) =
      (if has_notification (pd_build env) \<and> 0 < tn_pending_responses (transition_ntf (pd_at t i))
       then requested_state (pd_at s i) else state_requested_to_driver (pd_at s i))"
  using assms
proof (cases rule: report_parts)
  case (1 s1 s2 x)
  let ?s3 = "upd_pd i (\<lambda>p. p\<lparr>requested_state := state_requested_to_driver (pd_at s i), state_requested_to_driver := state_requested_to_driver (pd_at s i)\<rparr>)
      (s2\<lparr>system_suspend := x\<rparr>)"
  have d1: "domains s1 = domains s" using same_tree_domains 1(2) by (auto simp: quiet_def)
  have d2: "domains s2 = domains s" using same_tree_domains [of "reported i state s1" s2] 1(4) d1 by (simp add: quiet_def reported_def)
  have s2: "requested_state (pd_at s2 i) = requested_state (pd_at s i)" "state_requested_to_driver (pd_at s2 i) = state_requested_to_driver (pd_at s i)"
    using quiet_sel [OF 1(4), of i] quiet_sel [OF 1(2,1)] 1(1) d1 by (simp_all add: reported_def upd_pd_nth)
  show ?thesis
  proof (cases "has_notification (pd_build env) \<and> tn_pending_responses (transition_ntf (pd_at s2 i)) > 0")
    case True
    then have t: "t = upd_pd i (\<lambda>p. p\<lparr>transition_ntf := (transition_ntf p)\<lparr>tn_previous_state := current_state (pd_at s i)\<rparr>\<rparr>) (s2\<lparr>system_suspend := x\<rparr>)"
      using 1(5) by blast
    show ?thesis using True s2 1(1) d2 by (simp add: t upd_pd_nth)
  next
    case False
    then have run: "propagate_transition env i state (current_state (pd_at s i)) ?s3 = Some t" using 1(5) by blast
    have at: "requested_state (pd_at ?s3 i) = state_requested_to_driver (pd_at s i)"
        "state_requested_to_driver (pd_at ?s3 i) = state_requested_to_driver (pd_at s i)"
      using 1(1) d2 by (simp_all add: upd_pd_nth)
    have da: "drives_allowed ?s3 t" by (rule propagate_drives_allowed [OF run])
    then have d3: "domains t = domains s" using same_tree_domains [of ?s3 t] d2 by (simp add: drives_allowed_def)
    have "transition_ntf (pd_at t i) = ntfs t ! i" using d3 1(1) by simp
    also have "\<dots> = ntfs s2 ! i" unfolding propagate_ntfs [OF run] by (subst ntfs_upd) simp_all
    finally have "transition_ntf (pd_at t i) = transition_ntf (pd_at s2 i)" using d2 1(1) by simp
    then show ?thesis
      using False da at 1(1) d2 requests_nth_same [of t ?s3 i] by (auto simp: drives_allowed_def)
  qed
qed

section \<open>Building the tree\<close>

text \<open>The parent of a domain as its configuration gives it.\<close>

definition parent_of :: "'w pd_mod_ctx \<Rightarrow> nat \<Rightarrow> nat option" where
  "parent_of s i = (case pd_config (pd_at s i) of None \<Rightarrow> None
     | Some c \<Rightarrow> if unat (cfg_parent_idx c) < pd_count s then Some (unat (cfg_parent_idx c)) else None)"

text \<open>The state before the tree is built: the lists of children are empty and the nodes on no list.\<close>

definition pd_unconnected :: "'w pd_mod_ctx \<Rightarrow> bool" where
  "pd_unconnected s \<longleftrightarrow> pd_count s = domains s \<and>
     (\<forall>i < domains s. pd_config (pd_at s i) \<noteq> None \<and> slist_rep (pd_heap s) (Children i) [] \<and> slist_detached (pd_heap s) (ChildNode i))"

definition children_below :: "'w pd_mod_ctx \<Rightarrow> nat \<Rightarrow> nat \<Rightarrow> nat list" where
  "children_below s k p = filter (\<lambda>i. parent_of s i = Some p) [0..<k]"

lemma slist_detached_frame: "slist_detached h n \<Longrightarrow> same_outside S h h' \<Longrightarrow> n \<notin> S \<Longrightarrow> slist_detached h' n"
  by (rule sl.detached_frame)

definition connected_to :: "'w pd_mod_ctx \<Rightarrow> nat \<Rightarrow> 'w pd_mod_ctx \<Rightarrow> bool" where
  "connected_to s0 k s \<longleftrightarrow> pd_count s = pd_count s0 \<and> domains s = domains s0 \<and>
     (\<forall>i < domains s0. pd_at s i = (if i < k then pd_at s0 i\<lparr>pd_parent := parent_of s0 i\<rparr> else pd_at s0 i)) \<and>
     (\<forall>i < domains s0. slist_rep (pd_heap s) (Children i) (map ChildNode (children_below s0 k i))) \<and>
     (\<forall>i < domains s0. k \<le> i \<longrightarrow> slist_detached (pd_heap s) (ChildNode i))"

lemma connect_pd_step:
  assumes "pd_unconnected s0" and "k < domains s0" and "connected_to s0 k s"
  shows "\<exists>t. connect_pd env k s = Some t \<and> connected_to s0 (Suc k) t"
proof -
  obtain c where c: "pd_config (pd_at s0 k) = Some c" using assms(1,2) by (auto simp: pd_unconnected_def)
  have ks: "k < domains s" "pd_at s k = pd_at s0 k" "pd_count s = pd_count s0" "pd_count s0 = domains s0"
    using assms by (simp_all add: connected_to_def pd_unconnected_def)
  have nth: "\<And>i. i < domains s0 \<Longrightarrow> pd_at s i = (if i < k then pd_at s0 i\<lparr>pd_parent := parent_of s0 i\<rparr> else pd_at s0 i)"
    and rep: "\<And>i. i < domains s0 \<Longrightarrow> slist_rep (pd_heap s) (Children i) (map ChildNode (children_below s0 k i))"
    and det: "\<And>i. i < domains s0 \<Longrightarrow> k \<le> i \<Longrightarrow> slist_detached (pd_heap s) (ChildNode i)"
    and dom: "domains s = domains s0"
    using assms(3) by (simp_all add: connected_to_def)
  have cfg: "get_config k s = Some c" using ks c by (simp add: get_config_def)
  have below: "children_below s0 (Suc k) i = children_below s0 k i @ (if parent_of s0 k = Some i then [k] else [])" for i
    by (simp add: children_below_def)
  show ?thesis
  proof (cases "parent_of s0 k")
    case None
    then have "unat (cfg_parent_idx c) \<ge> pd_count s" using c ks by (auto simp: parent_of_def split: if_splits)
    then have "connect_pd env k s = Some (upd_pd k (\<lambda>x. x\<lparr>pd_parent := None\<rparr>) s)" using cfg by (simp add: connect_pd_def)
    moreover have "connected_to s0 (Suc k) (upd_pd k (\<lambda>x. x\<lparr>pd_parent := None\<rparr>) s)"
      unfolding connected_to_def using nth rep det dom None ks below by (auto simp: upd_pd_nth less_Suc_eq)
    ultimately show ?thesis by blast
  next
    case (Some p)
    then have p: "p = unat (cfg_parent_idx c)" "p < domains s0" using c ks by (auto simp: parent_of_def split: if_splits)
    obtain h where h: "fwk_slist_push_tail (pd_build env) (Children p) (ChildNode k) (pd_heap s) = Some h"
        "slist_rep h (Children p) (map ChildNode (children_below s0 k p) @ [ChildNode k])"
        "same_outside (set (Children p # ChildNode k # map ChildNode (children_below s0 k p))) (pd_heap s) h"
      using slist_push_tail_rep [OF rep [OF p(2)] _ det [OF assms(2) order_refl]] by (fastforce simp: children_below_def)
    let ?t = "upd_pd k (\<lambda>x. x\<lparr>pd_parent := Some p\<rparr>) (s\<lparr>pd_heap := h\<rparr>)"
    have call: "connect_pd env k s = Some ?t" using cfg h(1) p ks by (simp add: connect_pd_def)
    have rep': "slist_rep h (Children i) (map ChildNode (children_below s0 (Suc k) i))" if "i < domains s0" for i
    proof (cases "i = p")
      case True
      then show ?thesis using h(2) below Some by simp
    next
      case False
      have "slist_rep h (Children i) (map ChildNode (children_below s0 k i))"
        by (rule slist_rep_frame [OF rep [OF that] h(3)]) (use False in \<open>auto simp: children_below_def\<close>)
      then show ?thesis using below Some False by simp
    qed
    have det': "slist_detached h (ChildNode i)" if "i < domains s0" "Suc k \<le> i" for i
      by (rule slist_detached_frame [OF det h(3)]) (use that in \<open>auto simp: children_below_def\<close>)
    have at': "pd_at ?t i = (if i < Suc k then pd_at s0 i\<lparr>pd_parent := parent_of s0 i\<rparr> else pd_at s0 i)" if "i < domains s0" for i
      using nth [OF that] Some ks that by (auto simp: upd_pd_def nth_list_update less_Suc_eq)
    have "connected_to s0 (Suc k) ?t"
      unfolding connected_to_def using rep' det' at' dom ks by (simp add: upd_pd_def)
    then show ?thesis using call by blast
  qed
qed

lemma connect_pd_tree_ok:
  assumes "pd_unconnected s"
  shows "\<exists>t. connect_pd_tree env s = Some (FWK_SUCCESS, t) \<and> connected_to s (domains s) t"
proof -
  have "connected_to s 0 s"
    using assms by (auto simp: connected_to_def pd_unconnected_def children_below_def)
  from foldM_upt_ok [of "\<lambda>k. connected_to s k", OF this, of "domains s" "connect_pd env"] connect_pd_step [OF assms]
  obtain t where "foldM (connect_pd env) [0..<domains s] s = Some t" "connected_to s (domains s) t" by blast
  moreover have "pd_count s = domains s" using assms by (simp add: pd_unconnected_def)
  ultimately show ?thesis by (simp add: connect_pd_tree_def)
qed

text \<open>With parents after their children and tables of the stated sizes, the result is a tree.\<close>

lemma connected_pd_tree:
  assumes "connected_to s (domains s) t" and "pd_unconnected s"
    and "\<And>i p. i < domains s \<Longrightarrow> parent_of s i = Some p \<Longrightarrow> i < p"
    and "\<And>i. i < domains s \<Longrightarrow> allowed_state_mask_table_size (pd_at s i) \<le> length (allowed_state_mask_table (pd_at s i))"
  shows "pd_tree t"
proof -
  have d: "domains t = domains s" "pd_count t = pd_count s" "pd_count s = domains s"
    and at: "\<And>i. i < domains s \<Longrightarrow> pd_at t i = pd_at s i\<lparr>pd_parent := parent_of s i\<rparr>"
    and rep: "\<And>i. i < domains s \<Longrightarrow> slist_rep (pd_heap t) (Children i) (map ChildNode (children_below s (domains s) i))"
    using assms(1,2) by (simp_all add: connected_to_def pd_unconnected_def)
  have "children_idx t i = children_below s (domains s) i" for i
    unfolding children_idx_def children_below_def by (rule filter_cong) (simp_all add: d at)
  moreover have "p < domains s" if "parent_of s i = Some p" for i p
    using that d by (auto simp: parent_of_def split: option.splits if_splits)
  ultimately show ?thesis
    unfolding pd_tree_def using d at rep assms(2,3,4) by (auto simp: pd_unconnected_def)
qed

end
