(* ===== verification/Mod_Pd_Composite.thy ===== *)
theory Mod_Pd_Composite
  imports Mod_Pd_Tree
begin

text \<open>
  Composite states: what \<open>process_get_state_request\<close> composes is read back level by level, and a
  request that passed the validity check of \<open>pd_set_state\<close> is processed without failing.
\<close>

section \<open>Composing and reading back\<close>

text \<open>A state fits a mask when shifting it there loses nothing and stays inside the mask.\<close>

definition fits :: "32 word \<Rightarrow> 32 word \<Rightarrow> bool" where
  "fits m st \<longleftrightarrow> push_bit (number_of_bits_to_shift m) st AND m = push_bit (number_of_bits_to_shift m) st \<and>
     drop_bit (number_of_bits_to_shift m) (push_bit (number_of_bits_to_shift m) st) = st"

lemma fits_disjoint: "fits m st \<Longrightarrow> m AND m' = 0 \<Longrightarrow> push_bit (number_of_bits_to_shift m) st AND m' = 0"
  unfolding fits_def by (metis and.assoc and_zero_eq bit.conj_zero_right)

lemma compose_cases:
  assumes "compose_levels f table sz level i s = Some (c, n)"
  obtains (last) "level < length table" "i < domains s" "c = push_bit (number_of_bits_to_shift (table ! level)) (f (pd_at s i))"
      "n = level + 1" "pd_parent (pd_at s i) = None \<or> sz \<le> level + 1"
    | (more) p c' where "level < length table" "i < domains s" "pd_parent (pd_at s i) = Some p" "level + 1 < sz"
      "compose_levels f table sz (level + 1) p s = Some (c', n)"
      "c = push_bit (number_of_bits_to_shift (table ! level)) (f (pd_at s i)) OR c'"
  using assms unfolding compose_levels.simps [of f table sz level i s]
  by (auto simp: get_pd_Some_iff Let_def split: if_splits bind_splits option.splits)

lemma ancestor_step:
  assumes "Suc level \<le> k" and "i < domains s" and "pd_parent (pd_at s i) = Some p"
  shows "pd_ancestor (k - level) i s = pd_ancestor (k - Suc level) p s"
proof -
  have "k - level = Suc (k - Suc level)" using assms(1) by simp
  then show ?thesis using assms(2,3) by simp
qed

lemma compose_range:
  assumes "compose_levels f table sz level i s = Some (c, n)" and "level < sz"
  shows "level < n \<and> n \<le> sz \<and> n \<le> length table \<and>
    (\<forall>l. level \<le> l \<longrightarrow> l < sz \<longrightarrow> (l < n \<longleftrightarrow> pd_ancestor (l - level) i s \<noteq> None))"
  using assms
proof (induction "sz - level" arbitrary: level i c)
  case 0
  then show ?case by simp
next
  case (Suc k)
  from Suc.prems(1) show ?case
  proof (cases rule: compose_cases)
    case last
    have "l < n \<longleftrightarrow> pd_ancestor (l - level) i s \<noteq> None" if "level \<le> l" "l < sz" for l
      using last that by (cases "l - level") auto
    then show ?thesis using last Suc.prems(2) by auto
  next
    case (more p c')
    have IH: "level + 1 < n \<and> n \<le> sz \<and> n \<le> length table \<and>
        (\<forall>l. level + 1 \<le> l \<longrightarrow> l < sz \<longrightarrow> (l < n \<longleftrightarrow> pd_ancestor (l - (level + 1)) p s \<noteq> None))"
      by (rule Suc.hyps(1) [OF _ more(5,4)]) (use Suc.hyps(2) in simp)
    have "l < n \<longleftrightarrow> pd_ancestor (l - level) i s \<noteq> None" if "level \<le> l" "l < sz" for l
    proof (cases "l = level")
      case False
      then have "Suc level \<le> l" using that by simp
      then show ?thesis using IH that ancestor_step [OF _ more(2,3)] by simp
    qed (use IH in simp)
    then show ?thesis using IH by auto
  qed
qed

lemma compose_outside:
  assumes "compose_levels f table sz level i s = Some (c, n)"
    and "\<And>k a. level \<le> k \<Longrightarrow> k < n \<Longrightarrow> pd_ancestor (k - level) i s = Some a \<Longrightarrow> fits (table ! k) (f (pd_at s a))"
    and "\<And>k. level \<le> k \<Longrightarrow> k < n \<Longrightarrow> table ! k AND m = 0" and "level < sz"
  shows "c AND m = 0"
  using assms
proof (induction "sz - level" arbitrary: level i c)
  case 0
  then show ?case by simp
next
  case (Suc k)
  have lv: "level < n" using compose_range [OF Suc.prems(1,4)] by simp
  have here: "push_bit (number_of_bits_to_shift (table ! level)) (f (pd_at s i)) AND m = 0"
    by (rule fits_disjoint) (use Suc.prems(2) [of level i] Suc.prems(3) [of level] lv in simp_all)
  from Suc.prems(1) show ?case
  proof (cases rule: compose_cases)
    case last
    then show ?thesis using here by simp
  next
    case (more p c')
    have "c' AND m = 0"
    proof (rule Suc.hyps(1) [OF _ more(5)])
      fix k a assume "level + 1 \<le> k" "k < n" "pd_ancestor (k - (level + 1)) p s = Some a"
      then show "fits (table ! k) (f (pd_at s a))"
        using Suc.prems(2) [of k a] ancestor_step [OF _ more(2,3), of level k] by simp
    qed (use Suc.hyps(2) Suc.prems(3) more(4) in auto)
    then show ?thesis using here more(6) by (simp add: bit.conj_disj_distrib2)
  qed
qed

lemma compose_level:
  assumes "compose_levels f table sz level i s = Some (c, n)"
    and "\<And>k a. level \<le> k \<Longrightarrow> k < n \<Longrightarrow> pd_ancestor (k - level) i s = Some a \<Longrightarrow> fits (table ! k) (f (pd_at s a))"
    and "\<And>k l. k < n \<Longrightarrow> l < n \<Longrightarrow> k \<noteq> l \<Longrightarrow> table ! k AND table ! l = 0" and "level < sz"
    and "level \<le> l" and "l < n" and "pd_ancestor (l - level) i s = Some a"
  shows "c AND table ! l = push_bit (number_of_bits_to_shift (table ! l)) (f (pd_at s a))"
  using assms
proof (induction "sz - level" arbitrary: level i c)
  case 0
  then show ?case by simp
next
  case (Suc k)
  have lv: "level < n" using compose_range [OF Suc.prems(1,4)] by simp
  from Suc.prems(1) show ?case
  proof (cases rule: compose_cases)
    case last
    then have "l = level" "a = i" using Suc.prems(5,6,7) by auto
    then show ?thesis using last Suc.prems(2) [of level i] by (simp add: fits_def)
  next
    case (more p c')
    have fit: "fits (table ! k) (f (pd_at s a))" if "level + 1 \<le> k" "k < n" "pd_ancestor (k - (level + 1)) p s = Some a" for k a
      using Suc.prems(2) [of k a] ancestor_step [OF _ more(2,3), of level k] that by simp
    show ?thesis
    proof (cases "l = level")
      case True
      have "c' AND table ! level = 0"
        by (rule compose_outside [OF more(5) fit]) (use Suc.prems(3) lv more(4) in auto)
      moreover have "a = i" using Suc.prems(7) True by simp
      ultimately show ?thesis
        using more(6) True Suc.prems(2) [of level i] lv by (simp add: fits_def bit.conj_disj_distrib2)
    next
      case False
      have anc: "pd_ancestor (l - (level + 1)) p s = Some a"
        using Suc.prems(5,7) False ancestor_step [OF _ more(2,3), of level l] by simp
      have "c' AND table ! l = push_bit (number_of_bits_to_shift (table ! l)) (f (pd_at s a))"
        by (rule Suc.hyps(1) [OF _ more(5) fit Suc.prems(3) more(4) _ Suc.prems(6) anc]) (use Suc.hyps(2) Suc.prems(5) False in auto)
      moreover have "push_bit (number_of_bits_to_shift (table ! level)) (f (pd_at s i)) AND table ! l = 0"
        by (rule fits_disjoint) (use Suc.prems(2) [of level i] Suc.prems(3) [of level l] Suc.prems(6) False lv in auto)
      ultimately show ?thesis using more(6) by (simp add: bit.conj_disj_distrib2)
    qed
  qed
qed

lemma unat_of_nat32: "m < 2 ^ 32 \<Longrightarrow> unat (of_nat m :: 32 word) = m"
  by (simp add: unat_of_nat take_bit_nat_eq_self)

lemma get_state_levels:
  assumes "process_get_state_request i s = Some cs" and "cs_support (pd_at s i)"
    and T: "T = composite_state_mask_table (pd_at s i)" and sz: "sz = composite_state_mask_table_size (pd_at s i)"
    and lm: "lm = composite_state_levels_mask (pd_at s i)" and "0 < sz" and "sz < 2 ^ 32"
    and disj: "\<And>k l. k < sz \<Longrightarrow> l < sz \<Longrightarrow> k \<noteq> l \<Longrightarrow> T ! k AND T ! l = 0" and disjL: "\<And>k. k < sz \<Longrightarrow> T ! k AND lm = 0"
    and fit: "\<And>k a. k < sz \<Longrightarrow> pd_ancestor k i s = Some a \<Longrightarrow> fits (T ! k) (current_state (pd_at s a))"
    and fitL: "\<And>k. lm \<noteq> 0 \<Longrightarrow> k < sz \<Longrightarrow> fits lm (of_nat k)"
  shows "\<exists>n. 0 < n \<and> n \<le> sz \<and> (\<forall>l < sz. l < n \<longleftrightarrow> pd_ancestor l i s \<noteq> None) \<and>
    (\<forall>l a. l < n \<longrightarrow> pd_ancestor l i s = Some a \<longrightarrow> get_level_state_from_composite_state T cs l = Some (current_state (pd_at s a))) \<and>
    (lm \<noteq> 0 \<longrightarrow> get_highest_level_from_composite_state i cs s = Some (n - 1))"
proof -
  obtain pd where i: "i < domains s" using assms(1) by (auto simp: process_get_state_request_def bind_Some_iff get_pd_Some_iff)
  obtain c n where c: "compose_levels current_state T sz 0 i s = Some (c, n)"
    and cs: "cs = c OR (if lm \<noteq> 0 then push_bit (number_of_bits_to_shift lm) (of_nat (n - 1)) else 0)"
    using assms(1,2) i T sz lm by (auto simp: process_get_state_request_def split: bind_splits)
  have rng: "0 < n" "n \<le> sz" "n \<le> length T" "\<And>l. l < sz \<Longrightarrow> l < n \<longleftrightarrow> pd_ancestor l i s \<noteq> None"
    using compose_range [OF c] assms(6) by auto
  have fit': "fits (T ! k) (current_state (pd_at s a))" if "0 \<le> k" "k < n" "pd_ancestor (k - 0) i s = Some a" for k a
    using fit that rng(2) by simp
  let ?f = "if lm \<noteq> 0 then push_bit (number_of_bits_to_shift lm) (of_nat (n - 1)) else 0"
  have level: "get_level_state_from_composite_state T cs l = Some (current_state (pd_at s a))" if "l < n" "pd_ancestor l i s = Some a" for l a
  proof -
    have f: "fits (T ! l) (current_state (pd_at s a))" using fit that rng(2) by simp
    have "c AND T ! l = push_bit (number_of_bits_to_shift (T ! l)) (current_state (pd_at s a))"
      by (rule compose_level [OF c fit']) (use disj rng(2) assms(6) that in auto)
    moreover have "?f AND T ! l = 0"
      using fits_disjoint [OF fitL [of "n - 1"], of "T ! l"] disjL [of l] that rng by (auto simp: and.commute)
    ultimately have "cs AND T ! l = push_bit (number_of_bits_to_shift (T ! l)) (current_state (pd_at s a))"
      using cs by (simp add: bit.conj_disj_distrib2)
    then show ?thesis using f that rng(3) by (simp add: get_level_state_from_composite_state_def fits_def)
  qed
  have highest: "get_highest_level_from_composite_state i cs s = Some (n - 1)" if "lm \<noteq> 0"
  proof -
    have "c AND lm = 0" by (rule compose_outside [OF c fit']) (use disjL rng(2) assms(6) in auto)
    then have "lm AND cs = push_bit (number_of_bits_to_shift lm) (of_nat (n - 1))"
      using cs that fitL [OF that, of "n - 1"] rng by (simp add: bit.conj_disj_distrib fits_def and.commute)
    moreover obtain m where m: "n = Suc m" using rng(1) by (cases n) auto
    moreover have "unat (of_nat m :: 32 word) = m"
      by (rule unat_of_nat32) (use assms(7) rng m in simp)
    ultimately show ?thesis
      using that i assms(2) lm fitL [OF that, of m] rng
      by (simp add: get_highest_level_from_composite_state_def fits_def Let_def)
  qed
  show ?thesis using rng level highest by (intro exI [of _ n]) auto
qed

section \<open>Requests that were accepted do not fail\<close>

text \<open>What the code relies on in its environment: the calls into the framework and the drivers return.\<close>

definition calls_return :: "'w pd_env \<Rightarrow> bool" where
  "calls_return env \<longleftrightarrow>
     (\<forall>e w. srv_put_event (pd_srv env) e w \<noteq> None) \<and> (\<forall>e n w. srv_notify (pd_srv env) e n w \<noteq> None) \<and>
     (\<forall>i c e w. \<exists>st e'. srv_get_delayed_response (pd_srv env) i c e w = Some (st, e') \<and> (st = FWK_SUCCESS \<longrightarrow> 8 \<le> length (params e'))) \<and>
     (\<forall>a. \<exists>f. pd_set_state_fn (pd_drivers env a) = Some f \<and> (\<forall>j st w. f j st w \<noteq> None)) \<and>
     (\<forall>a f. pd_deny_fn (pd_drivers env a) = Some f \<longrightarrow> (\<forall>j st w. f j st w \<noteq> None))"

text \<open>Every domain is bound to its driver, its states are in range and its mapping table covers the states.\<close>

definition pd_states_ok :: "'w pd_mod_ctx \<Rightarrow> bool" where
  "pd_states_ok s \<longleftrightarrow>
     (\<forall>i < domains s. requested_state (pd_at s i) < MOD_PD_STATE_COUNT_MAX \<and> current_state (pd_at s i) < 32 \<and> pd_driver_api (pd_at s i) \<noteq> None \<and>
        (\<forall>c t. pd_config (pd_at s i) = Some c \<longrightarrow> cfg_pd_state_mapping_table c = Some t \<longrightarrow> 16 \<le> length t))"

lemma pd_states_okD:
  assumes "pd_states_ok s" and "i < domains s"
  shows "requested_state (pd_at s i) < MOD_PD_STATE_COUNT_MAX" "current_state (pd_at s i) < 32" "pd_driver_api (pd_at s i) \<noteq> None"
    "pd_config (pd_at s i) = Some c \<Longrightarrow> cfg_pd_state_mapping_table c = Some t \<Longrightarrow> 16 \<le> length t"
  using assms unfolding pd_states_ok_def by blast+

lemma calls_returnD:
  assumes "calls_return env"
  shows "\<exists>st e' w'. srv_put_event (pd_srv env) e w = Some (st, e', w')" "\<exists>st n' w'. srv_notify (pd_srv env) e n w = Some (st, n', w')"
    "\<exists>st e'. srv_get_delayed_response (pd_srv env) i c e w = Some (st, e') \<and> (st = FWK_SUCCESS \<longrightarrow> 8 \<le> length (params e'))"
    "\<exists>f. pd_set_state_fn (pd_drivers env a) = Some f \<and> (\<exists>st w'. f j x w = Some (st, w'))"
    "pd_deny_fn (pd_drivers env a) = Some g \<Longrightarrow> \<exists>r w'. g j x w = Some (r, w')"
  using assms unfolding calls_return_def by (metis not_None_eq surj_pair)+

lemma state_range: "(st :: 32 word) < MOD_PD_STATE_COUNT_MAX \<Longrightarrow> st < 32 \<and> unat st < 16"
  by (simp add: pd_states word_less_nat_alt)

lemma allowed_by_child_total:
  "allowed_state_mask_table_size p \<le> length (allowed_state_mask_table p) \<Longrightarrow> cs < 32 \<Longrightarrow> is_allowed_by_child p ps cs \<noteq> None"
  by (auto simp: is_allowed_by_child_def state_bit_def)

lemma exists_child_total:
  assumes "pd_tree s" and "i < domains s" and "\<And>c. c < domains s \<Longrightarrow> P c \<noteq> None"
  shows "exists_child P i s \<noteq> None"
proof -
  have "exists_child P i s = Some (\<exists>c \<in> set (children_idx s i). the (P c))"
    by (rule exists_child_eq [OF assms(1,2)]) (use assms(3) in \<open>auto simp: children_idx_mem\<close>)
  then show ?thesis by simp
qed

lemma children_check_total:
  assumes "pd_tree s" and "i < domains s" and "\<And>c. c < domains s \<Longrightarrow> st (pd_at s c) < 32"
  shows "exists_child (\<lambda>c. do { child \<leftarrow> get_pd c s; ok \<leftarrow> is_allowed_by_child child state (st child); Some (\<not> ok) }) i s \<noteq> None"
proof (rule exists_child_total [OF assms(1,2)])
  fix c assume "c < domains s"
  moreover obtain y where "is_allowed_by_child (pd_at s c) state (st (pd_at s c)) = Some y"
    using allowed_by_child_total [OF pd_treeD(3) [OF assms(1) \<open>c < domains s\<close>] assms(3) [OF \<open>c < domains s\<close>]] by blast
  ultimately show "(do { child \<leftarrow> get_pd c s; ok \<leftarrow> is_allowed_by_child child state (st child); Some (\<not> ok) }) \<noteq> None" by simp
qed

lemma allowed_by_children_total:
  assumes "pd_tree s" and "pd_states_ok s" and "i < domains s"
  shows "is_allowed_by_children i state s \<noteq> None"
  using children_check_total [OF assms(1,3), of requested_state state] assms(2) state_range
  by (auto simp: is_allowed_by_children_def pd_states_ok_def)

lemma allowed_by_parent_and_children_total:
  assumes "pd_tree s" and "pd_states_ok s" and "i < domains s" and "state < 32"
  shows "is_allowed_by_parent_and_children i state s \<noteq> None"
proof -
  have "exists_child (\<lambda>c. do { child \<leftarrow> get_pd c s; ok \<leftarrow> is_allowed_by_child child state (current_state child); Some (\<not> ok) }) i s \<noteq> None"
    using children_check_total [OF assms(1,3), of current_state state] assms(2) by (auto simp: pd_states_ok_def)
  moreover have "is_allowed_by_child (pd_at s i) ps state \<noteq> None" for ps
    by (rule allowed_by_child_total [OF pd_treeD(3) [OF assms(1,3)] assms(4)])
  ultimately show ?thesis
    using assms(3) pd_treeD(1) [OF assms(1,3)]
    by (cases "pd_parent (pd_at s i)") (auto simp: is_allowed_by_parent_and_children_def split: bind_splits)
qed

lemma wrapper_total:
  assumes "calls_return env" and "i < domains s" and "pd_config (pd_at s i) \<noteq> None"
  shows "power_state_pre_transition_notification_wrapper env i s \<noteq> None"
proof -
  obtain e1 where e1: "event_put_u32 0 (current_state (pd_at s i))
      (zeroed_event\<lparr>source_id := pd_id (pd_at s i), response_requested := True, event_id := notification_id env 2\<rparr>) = Some e1" "length (params e1) = 16"
    by (auto simp: event_put_u32_def zeroed_event_def no_params_def put_u32_def)
  obtain e2 where e2: "event_put_u32 4 (requested_state (pd_at s i)) e1 = Some e2" using e1(2) by (simp add: event_put_u32_def put_u32_def)
  have n: "\<exists>r n w. srv_notify (pd_srv env) e2 k (world s) = Some (r, n, w)" for k
    using calls_returnD(2) [OF assms(1)] by blast
  obtain c where c: "pd_config (pd_at s i) = Some c" using assms(3) by blast
  show ?thesis
    using e1(1) e2 n [of 0] c assms(2)
    by (auto simp: power_state_pre_transition_notification_wrapper_def initiate_power_state_pre_transition_notification_def Let_def)
qed

lemma delayed_response_total:
  assumes "calls_return env" and "i < domains s"
  shows "send_pd_set_state_delayed_response env i st s \<noteq> None"
proof (cases "rsp_pending (response (pd_at s i))")
  case True
  obtain r e where r: "srv_get_delayed_response (pd_srv env) (pd_id (pd_at s i)) (rsp_cookie (response (pd_at s i))) zeroed_event (world s) = Some (r, e)"
      "r = FWK_SUCCESS \<Longrightarrow> 8 \<le> length (params e)"
    using calls_returnD(3) [OF assms(1)] by metis
  show ?thesis
  proof (cases "r = FWK_SUCCESS")
    case ok: True
    obtain v e1 e2 where e: "get_u32 0 (params e) = Some v" "event_put_u32 4 v e = Some e1" "event_put_status 0 st e1 = Some e2"
      using r(2) [OF ok] by (auto simp: get_u32_def event_put_u32_def event_put_status_def put_status_def put_u32_def)
    obtain st' e' w' where "srv_put_event (pd_srv env) e2 (world s) = Some (st', e', w')"
      using calls_returnD(1) [OF assms(1)] by blast
    then show ?thesis using True assms(2) r(1) ok e by (simp add: send_pd_set_state_delayed_response_def Let_def)
  next
    case False
    then show ?thesis using True assms(2) r(1) by (simp add: send_pd_set_state_delayed_response_def Let_def)
  qed
next
  case False
  then show ?thesis using assms(2) by (simp add: send_pd_set_state_delayed_response_def)
qed

lemma initiate_total:
  assumes "calls_return env" and "pd_tree s" and "pd_states_ok s" and "i < domains s"
  shows "initiate_power_state_transition env i s \<noteq> None"
proof -
  let ?st = "requested_state (pd_at s i)"
  obtain a where a: "pd_driver_api (pd_at s i) = Some a" using pd_states_okD(3) [OF assms(3,4)] by blast
  obtain c where c: "pd_config (pd_at s i) = Some c" using pd_treeD(4) [OF assms(2,4)] by blast
  have "unat ?st < 16" using state_range [OF pd_states_okD(1) [OF assms(3,4)]] by simp
  then have m: "\<exists>m. retrieve_mapped_state i ?st (s\<lparr>world := w\<rparr>) = Some m" for w
    using c assms(4) pd_states_okD(4) [OF assms(3,4) c]
    by (cases "cfg_pd_state_mapping_table c") (auto simp: retrieve_mapped_state_def get_config_def get_pd_def)
  have set: "\<exists>st w'. call_pd_driver env i (\<lambda>d. map_option (\<lambda>f j. f j m) (pd_set_state_fn d)) (s\<lparr>world := w\<rparr>) = Some (st, s\<lparr>world := w'\<rparr>)" for m w
    using calls_returnD(4) [OF assms(1), of a "pd_driver_id (pd_at s i)" m w] a assms(4) by (auto simp: call_pd_driver_def get_pd_def)
  have has: "driver_has env i pd_deny_fn s = Some (pd_deny_fn (pd_drivers env a) \<noteq> None)" using a assms(4) by (simp add: driver_has_def)
  have "\<exists>r w. (if pd_deny_fn (pd_drivers env a) \<noteq> None then call_pd_driver env i (\<lambda>d. map_option (\<lambda>f j. f j ?st) (pd_deny_fn d)) s else Some (False, s))
      = Some (r, s\<lparr>world := w\<rparr>)"
  proof (cases "pd_deny_fn (pd_drivers env a)")
    case None
    have "s = s\<lparr>world := world s\<rparr>" by simp
    then show ?thesis using None by (metis (no_types))
  next
    case (Some f)
    then obtain r w where "f (pd_driver_id (pd_at s i)) ?st (world s) = Some (r, w)" using calls_returnD(5) [OF assms(1)] by metis
    then show ?thesis using Some a assms(4) by (auto simp: call_pd_driver_def)
  qed
  then obtain r w where rw: "(if pd_deny_fn (pd_drivers env a) \<noteq> None then call_pd_driver env i (\<lambda>d. map_option (\<lambda>f j. f j ?st) (pd_deny_fn d)) s
      else Some (False, s)) = Some (r, s\<lparr>world := w\<rparr>)" by blast
  obtain mp where mp: "retrieve_mapped_state i ?st (s\<lparr>world := w\<rparr>) = Some mp" using m by blast
  obtain st w' where st: "call_pd_driver env i (\<lambda>d. map_option (\<lambda>f j. f j mp) (pd_set_state_fn d)) (s\<lparr>world := w\<rparr>) = Some (st, s\<lparr>world := w'\<rparr>)"
    using set by blast
  show ?thesis
    unfolding initiate_power_state_transition_def Let_def get_pd_Some [OF assms(4)] bind.bind_lunit has rw
    using mp st by simp
qed


text \<open>What a step keeps: the static part, and requested states in range.\<close>

lemma pd_states_ok_same:
  assumes "pd_states_ok s" and "same_tree s t" and "\<And>i. i < domains s \<Longrightarrow> requested_state (pd_at t i) < MOD_PD_STATE_COUNT_MAX"
  shows "pd_states_ok t"
  unfolding pd_states_ok_def same_tree_domains [OF assms(2)]
proof (intro allI impI)
  fix i assume i: "i < domains s"
  have d: "pd_driver_api (pd_at t i) = pd_driver_api (pd_at s i)"
    using same_tree_nth [OF assms(2) i] pd_static_sel(9) by metis
  show "requested_state (pd_at t i) < MOD_PD_STATE_COUNT_MAX \<and> current_state (pd_at t i) < 32 \<and> pd_driver_api (pd_at t i) \<noteq> None \<and>
      (\<forall>c tb. pd_config (pd_at t i) = Some c \<longrightarrow> cfg_pd_state_mapping_table c = Some tb \<longrightarrow> 16 \<le> length tb)"
    using assms(3) [OF i] pd_states_okD [OF assms(1) i] same_tree_sel(2,6) [OF assms(2) i] d by auto
qed

lemma pd_states_ok_quiet: "pd_states_ok s \<Longrightarrow> quiet s t \<Longrightarrow> pd_states_ok t"
  by (rule pd_states_ok_same) (auto simp: quiet_def quiet_sel pd_states_okD)

lemma drive_total:
  assumes "calls_return env" and "pd_tree s" and "pd_states_ok s" and "i < domains s" and "st < 32"
  shows "drive_requested_state env i st prev loc s \<noteq> None"
proof -
  obtain ok where ok: "is_allowed_by_parent_and_children i st s = Some ok"
    using allowed_by_parent_and_children_total [OF assms(2-5)] by blast
  obtain d s1 where w: "power_state_pre_transition_notification_wrapper env i s = Some (d, s1)"
    using wrapper_total [OF assms(1,4) pd_treeD(4) [OF assms(2,4)]] by auto
  have q: "quiet s s1" by (rule wrapper_quiet [OF w])
  have "pd_tree s1" using pd_tree_same [OF _ assms(2)] q by (simp add: quiet_def)
  moreover have "i < domains s1" using same_tree_domains [of s s1] q assms(4) by (simp add: quiet_def)
  ultimately obtain r s2 where "initiate_power_state_transition env i s1 = Some (r, s2)"
    using initiate_total [OF assms(1) _ pd_states_ok_quiet [OF assms(3) q], of i] by fastforce
  then show ?thesis using ok w assms(4) by (auto simp: drive_requested_state_def Let_def)
qed

lemma set_state_level_total:
  assumes "calls_return env" and "pd_tree s" and "pd_states_ok s" and "i < domains s" and "st < MOD_PD_STATE_COUNT_MAX"
  shows "set_state_level env i st loc s \<noteq> None"
proof -
  let ?s = "upd_pd i (\<lambda>p. p\<lparr>requested_state := st, pre_transition_ntf := (pre_transition_ntf p)\<lparr>pn_valid := False\<rparr>\<rparr>) s"
  have st: "st < 32" using state_range [OF assms(5)] by simp
  have same: "same_tree s ?s" by (rule same_tree_upd) (simp add: pd_static_def)
  have ok: "pd_states_ok ?s"
    by (rule pd_states_ok_same [OF assms(3) same]) (use assms(4,5) pd_states_okD(1) [OF assms(3)] in \<open>simp add: upd_pd_nth\<close>)
  obtain s1 where s1: "send_pd_set_state_delayed_response env i FWK_E_OVERWRITTEN ?s = Some s1"
    using delayed_response_total [OF assms(1), of i ?s] assms(4) by auto
  have q: "quiet ?s s1" by (rule delayed_response_quiet [OF s1])
  have t1: "same_tree s s1" using same_tree_trans [OF same] q by (simp add: quiet_def)
  have "drive_requested_state env i st (requested_state (pd_at s i)) loc s1 \<noteq> None"
    by (rule drive_total [OF assms(1) pd_tree_same [OF t1 assms(2)] pd_states_ok_quiet [OF ok q] _ st])
       (use same_tree_domains [OF t1] assms(4) in simp)
  then obtain x where x: "drive_requested_state env i st (requested_state (pd_at s i)) loc s1 = Some x" by blast
  obtain y where y: "is_allowed_by_children i st s = Some y" using allowed_by_children_total [OF assms(2-4)] by blast
  obtain z where z: "(case pd_parent (pd_at s i) of None \<Rightarrow> Some True
      | Some p \<Rightarrow> do { parent \<leftarrow> get_pd p s; is_allowed_by_child (pd_at s i) (requested_state parent) st }) = Some z"
    using allowed_by_child_total [OF pd_treeD(3) [OF assms(2,4)] st] pd_treeD(1) [OF assms(2,4)]
    by (cases "pd_parent (pd_at s i)") auto
  show ?thesis unfolding set_state_level_def Let_def get_pd_Some [OF assms(4)] bind.bind_lunit z y s1 x by (cases x) auto
qed

lemma set_state_level_keeps:
  assumes "set_state_level env i st loc s = Some (stop, loc', t)" and "pd_states_ok s" and "st < MOD_PD_STATE_COUNT_MAX"
  shows "same_tree s t \<and> pd_states_ok t"
proof -
  have r: "same_tree s t" "requests t = requests s \<or> requests t = (requests s)[i := st]"
    using set_state_level_cases [OF assms(1)] by auto
  have "requested_state (pd_at t j) < MOD_PD_STATE_COUNT_MAX" if "j < domains s" for j
    using r(2) requests_nth [OF _ that same_tree_domains [OF r(1)]] requests_nth_same [OF _ that] pd_states_okD(1) [OF assms(2) that] assms(3)
    by (metis (no_types, lifting))
  then show ?thesis using r(1) pd_states_ok_same [OF assms(2)] by blast
qed

section \<open>The levels of a request\<close>

lemma pd_ancestor_snoc: "pd_ancestor (Suc n) i s = do { a \<leftarrow> pd_ancestor n i s; pd \<leftarrow> get_pd a s; pd_parent pd }"
proof (induction n arbitrary: i)
  case (Suc n)
  show ?case by (subst (1 2) pd_ancestor.simps(2)) (simp only: Suc.IH bind_assoc)
qed simp

lemma pd_ancestor_same: "same_tree s t \<Longrightarrow> pd_ancestor n i t = pd_ancestor n i s"
proof (induction n arbitrary: i)
  case (Suc n)
  then show ?case
    by (cases "i < domains s") (simp_all add: get_pd_def same_tree_domains same_tree_sel(1))
qed simp

lemma pd_ancestor_domain:
  assumes "pd_tree s" and "i < domains s" and "pd_ancestor n i s = Some a"
  shows "a < domains s"
  using assms(3)
proof (induction n arbitrary: a)
  case (Suc n)
  then obtain b where "pd_ancestor n i s = Some b" "b < domains s" "pd_parent (pd_at s b) = Some a"
    by (auto simp: pd_ancestor_snoc get_pd_Some_iff split: bind_splits simp del: pd_ancestor.simps(2))
  then show ?case using pd_treeD(1) [OF assms(1)] by blast
qed (use assms(2) in simp)

text \<open>The state a request asks of a level, and the requests all of whose levels are domains asked for a state in range.\<close>

definition level_state :: "pd_ctx \<Rightarrow> 32 word \<Rightarrow> nat \<Rightarrow> 32 word option" where
  "level_state pd cs level = (if cs_support pd then get_level_state_from_composite_state (composite_state_mask_table pd) cs level else Some cs)"

definition levels_ok :: "nat \<Rightarrow> 32 word \<Rightarrow> nat \<Rightarrow> 'w pd_mod_ctx \<Rightarrow> bool" where
  "levels_ok i cs hl s \<longleftrightarrow>
     (\<forall>l \<le> hl. \<exists>a st. pd_ancestor l i s = Some a \<and> level_state (pd_at s i) cs l = Some st \<and> st < MOD_PD_STATE_COUNT_MAX)"

lemma level_state_same: "same_tree s t \<Longrightarrow> i < domains s \<Longrightarrow> level_state (pd_at t i) = level_state (pd_at s i)"
  unfolding level_state_def fun_eq_iff by (metis same_tree_nth pd_static_sel(7,8))

lemma levels_ok_same:
  "same_tree s t \<Longrightarrow> i < domains s \<Longrightarrow> levels_ok i cs hl s \<Longrightarrow> levels_ok i cs hl t"
  by (simp add: levels_ok_def level_state_same pd_ancestor_same)

lemma walk_total:
  assumes "calls_return env" and "pd_tree s" and "pd_states_ok s" and "i < domains s" and "levels_ok i cs hl s"
    and "up \<Longrightarrow> m \<le> hl \<Longrightarrow> pd = pd_ancestor m i s"
  shows "set_state_walk env i cs up hl [m..<hl + 1] pd loc s \<noteq> None"
  using assms(2-6)
proof (induction "hl + 1 - m" arbitrary: m pd loc s)
  case 0
  then show ?case by simp
next
  case (Suc n)
  have m: "m \<le> hl" using Suc.hyps(2) by simp
  then have upt: "[m..<hl + 1] = m # [Suc m..<hl + 1]" by (simp add: upt_conv_Cons del: upt_Suc)
  let ?l = "if up then m else hl - m"
  obtain a st where a: "pd_ancestor ?l i s = Some a" and st: "level_state (pd_at s i) cs ?l = Some st" "st < MOD_PD_STATE_COUNT_MAX"
    using Suc.prems(4) m unfolding levels_ok_def by (cases up) (simp, blast, metis diff_le_self)
  have a': "(if up then pd else pd_ancestor ?l i s) = Some a" using a Suc.prems(5) m by (cases up) auto
  have ad: "a < domains s" by (rule pd_ancestor_domain [OF Suc.prems(1,3) a])
  obtain stop loc1 s1 where lv: "set_state_level env a st loc s = Some (stop, loc1, s1)"
    using set_state_level_total [OF assms(1) Suc.prems(1,2) ad st(2)] by (metis not_None_eq surj_pair)
  have k: "same_tree s s1" "pd_states_ok s1" using set_state_level_keeps [OF lv Suc.prems(2) st(2)] by simp_all
  have d1: "domains s1 = domains s" by (rule same_tree_domains [OF k(1)])
  have next_up: "pd_parent (pd_at s1 a) = pd_ancestor (Suc m) i s1" if up
    using that a ad d1 pd_ancestor_same [OF k(1)] same_tree_sel(1) [OF k(1) ad] by (simp add: pd_ancestor_snoc del: pd_ancestor.simps(2))
  have "set_state_walk env i cs up hl [Suc m..<hl + 1] (pd_parent (pd_at s1 a)) loc1 s1 \<noteq> None"
  proof (rule Suc.hyps(1) [OF _ pd_tree_same [OF k(1) Suc.prems(1)] k(2)])
    show "n = hl + 1 - Suc m" using Suc.hyps(2) m by simp
  qed (use Suc.prems(3) d1 levels_ok_same [OF k(1) Suc.prems(3,4)] next_up in simp_all)
  then obtain y where y: "set_state_walk env i cs up hl [Suc m..<hl + 1] (pd_parent (pd_at s1 a)) loc1 s1 = Some y" by blast
  have "a < domains s1" using ad d1 by simp
  note walk = get_pd_Some [OF Suc.prems(3)] get_pd_Some [OF this] a' st(1) [unfolded level_state_def] lv y
  show ?case unfolding upt set_state_walk.simps Let_def walk bind.bind_lunit prod.case by simp
qed


lemma valid_levels_states:
  assumes "valid_levels table cs [m..<n] (pd_ancestor m i s) child s = Some True" and "m \<le> l" and "l < n"
  shows "\<exists>a st. pd_ancestor l i s = Some a \<and> get_level_state_from_composite_state table cs l = Some st \<and> st < MOD_PD_STATE_COUNT_MAX"
  using assms
proof (induction "n - m" arbitrary: m child)
  case 0
  then show ?case by simp
next
  case (Suc k)
  then have upt: "[m..<n] = m # [Suc m..<n]" by (simp add: upt_conv_Cons)
  obtain a st ok where a: "pd_ancestor m i s = Some a" "get_level_state_from_composite_state table cs m = Some st"
      "a < domains s" "is_valid_state (pd_at s a) st"
    and r: "valid_levels table cs [Suc m..<n] (pd_parent (pd_at s a)) (Some (pd_at s a, st)) s = Some True"
    using Suc.prems(1) by (auto simp: upt get_pd_Some_iff simp del: upt.simps split: option.splits bind_splits if_splits)
  have p: "pd_parent (pd_at s a) = pd_ancestor (Suc m) i s"
    using a by (simp add: pd_ancestor_snoc del: pd_ancestor.simps(2))
  show ?case
  proof (cases "l = m")
    case True
    then show ?thesis using a by (simp add: is_valid_state_def)
  next
    case False
    show ?thesis
      by (rule Suc.hyps(1) [OF _ r [unfolded p]]) (use Suc.hyps(2) Suc.prems False in simp_all)
  qed
qed

text \<open>What \<open>pd_set_state\<close> checks of a state before it posts the request.\<close>

definition valid_request :: "nat \<Rightarrow> 32 word \<Rightarrow> 'w pd_mod_ctx \<Rightarrow> bool" where
  "valid_request i cs s \<longleftrightarrow> i < domains s \<and>
     (if cs_support (pd_at s i) then is_valid_composite_state i cs s = Some True else is_valid_state (pd_at s i) cs)"

lemma valid_request_levels:
  assumes "valid_request i cs s"
  shows "\<exists>hl. get_highest_level_from_composite_state i cs s = Some hl \<and> levels_ok i cs hl s"
proof (cases "cs_support (pd_at s i)")
  case True
  then obtain hl where hl: "get_highest_level_from_composite_state i cs s = Some hl"
      and v: "valid_levels (composite_state_mask_table (pd_at s i)) cs [0..<hl + 1] (pd_ancestor 0 i s) None s = Some True"
    using assms by (auto simp: valid_request_def is_valid_composite_state_def simp del: upt.simps split: bind_splits if_splits)
  show ?thesis
    using hl valid_levels_states [OF v] True by (auto simp: levels_ok_def level_state_def)
next
  case False
  then show ?thesis
    using assms by (auto simp: valid_request_def get_highest_level_from_composite_state_def levels_ok_def level_state_def is_valid_state_def)
qed

lemma upwards_from_total:
  assumes "pd_tree s" and "i < domains s"
    and "\<And>l. m \<le> l \<Longrightarrow> l < n \<Longrightarrow> \<exists>a st. pd_ancestor l i s = Some a \<and> get_level_state_from_composite_state table cs l = Some st"
    and "m < n \<Longrightarrow> pd = pd_ancestor m i s"
  shows "upwards_from table cs [m..<n] pd s \<noteq> None"
  using assms(3,4)
proof (induction "n - m" arbitrary: m pd)
  case 0
  then show ?case by simp
next
  case (Suc k)
  then have upt: "[m..<n] = m # [Suc m..<n]" by (simp add: upt_conv_Cons)
  obtain a st where a: "pd_ancestor m i s = Some a" "get_level_state_from_composite_state table cs m = Some st"
    using Suc.prems(1) [of m] Suc.hyps(2) by (metis order_refl zero_less_Suc zero_less_diff)
  have ad: "a < domains s" by (rule pd_ancestor_domain [OF assms(1,2) a(1)])
  have "upwards_from table cs [Suc m..<n] (pd_parent (pd_at s a)) s \<noteq> None"
    by (rule Suc.hyps(1)) (use Suc.hyps(2) Suc.prems(1) a ad in \<open>simp_all add: pd_ancestor_snoc del: pd_ancestor.simps(2)\<close>)
  then show ?case using a ad Suc.prems(2) Suc.hyps(2) by (auto simp: upt simp del: upt.simps)
qed

lemma count_valid_levels_suspend:
  "count_valid_levels table sz cs l pd (s\<lparr>system_suspend := x\<rparr>) = count_valid_levels table sz cs l pd s"
proof (induction table sz cs l pd s rule: count_valid_levels.induct)
  case (1 table sz cs l pd s)
  then show ?case
    by (subst (1 2) count_valid_levels.simps) (simp add: get_pd_def split: option.splits bind_splits)
qed

lemma highest_level_suspend:
  "get_highest_level_from_composite_state i cs (s\<lparr>system_suspend := x\<rparr>) = get_highest_level_from_composite_state i cs s"
  by (simp add: get_highest_level_from_composite_state_def get_pd_def count_valid_levels_suspend)

lemma drive_in_charge:
  "drive_requested_state env i st prev loc s = Some (stop, loc', t) \<Longrightarrow> sl_in_charge loc' \<in> {sl_in_charge loc, Some i, None}"
  unfolding drive_requested_state_def Let_def by (auto split: bind_splits if_splits prod.splits)

lemma set_state_level_in_charge:
  "set_state_level env i st loc s = Some (stop, loc', t) \<Longrightarrow> sl_in_charge loc' \<in> {sl_in_charge loc, Some i, None}"
  unfolding set_state_level_def Let_def by (simp split: bind_splits if_splits) (auto dest: drive_in_charge)

text \<open>The walk decides its direction, and processes every level.\<close>

lemma set_state_request_total:
  assumes "calls_return env" and "pd_tree s" and "pd_states_ok s" and "valid_request i cs s"
    and "get_u32 0 (params event) = Some cs" and "8 \<le> length (params resp)"
  shows "process_set_state_request env i event resp s \<noteq> None"
proof -
  let ?s = "s\<lparr>system_suspend := (system_suspend s)\<lparr>last_core_off_ongoing := False\<rparr>\<rparr>"
  let ?loc = "\<lparr>sl_status = FWK_SUCCESS, sl_in_charge = None, sl_initiated = False\<rparr>"
  obtain hl where hl: "get_highest_level_from_composite_state i cs s = Some hl" and lv: "levels_ok i cs hl s"
    using valid_request_levels [OF assms(4)] by blast
  have i: "i < domains s" using assms(4) by (simp add: valid_request_def)
  note hl' = hl [folded highest_level_suspend [of i cs "(system_suspend s)\<lparr>last_core_off_ongoing := False\<rparr>" s]]
  have s: "pd_tree ?s" "pd_states_ok ?s" "levels_ok i cs hl ?s" "i < domains ?s"
    using pd_tree_same [OF same_tree_world(2) assms(2)] levels_ok_same [OF same_tree_world(2) i lv] assms(3) i
    by (simp_all add: pd_states_ok_def)
  have "upwards_from (composite_state_mask_table (pd_at ?s i)) cs [0..<hl + 1] (Some i) ?s \<noteq> None" if "cs_support (pd_at ?s i)"
  proof (rule upwards_from_total [OF s(1,4)])
    fix l assume "l < hl + 1"
    then show "\<exists>a st. pd_ancestor l i ?s = Some a \<and> get_level_state_from_composite_state (composite_state_mask_table (pd_at ?s i)) cs l = Some st"
      using s(3) that unfolding levels_ok_def level_state_def by (metis Suc_eq_plus1 less_Suc_eq_le)
  qed simp
  then obtain up where up: "is_upwards_transition_propagation i cs ?s = Some up"
    using hl' i by (cases "cs_support (pd_at s i)") (auto simp: is_upwards_transition_propagation_def simp del: upt.simps)
  obtain loc t where w: "set_state_walk env i cs up hl [0..<hl + 1] (Some i) ?loc ?s = Some (loc, t)"
    using walk_total [OF assms(1) s(1,2,4,3), of up 0 "Some i" ?loc] by auto
  have "same_tree ?s t \<and> (\<forall>j. sl_in_charge loc = Some j \<longrightarrow> j < domains ?s)"
  proof (rule set_state_walk_inv [OF w, where P = "\<lambda>l u. same_tree ?s u \<and> (\<forall>j. sl_in_charge l = Some j \<longrightarrow> j < domains ?s)"])
    fix a st l1 u stop l2 v
    assume l: "set_state_level env a st l1 u = Some (stop, l2, v)" and P: "same_tree ?s u \<and> (\<forall>j. sl_in_charge l1 = Some j \<longrightarrow> j < domains ?s)"
    show "same_tree ?s v \<and> (\<forall>j. sl_in_charge l2 = Some j \<longrightarrow> j < domains ?s)"
      using set_state_level_in_charge [OF l] set_state_level_cases [OF l] P same_tree_trans [of ?s u v] same_tree_domains [of ?s u] by auto
  qed simp
  then have charge: "j < domains t" if "sl_in_charge loc = Some j" for j
    using that same_tree_domains [of ?s t] by simp
  obtain e1 e2 where e: "event_put_status 0 (sl_status loc) resp = Some e1" "event_put_u32 4 cs e1 = Some e2"
    using assms(6) by (auto simp: event_put_u32_def event_put_status_def put_status_def put_u32_def)
  have "process_set_state_request env i event resp s =
      (if \<not> response_requested event then Some (resp, t)
       else (case sl_in_charge loc of
               Some i \<Rightarrow> do {
                 pd \<leftarrow> get_pd i t;
                 Some (resp\<lparr>is_delayed_response := True, source_id := pd_id pd\<rparr>,
                   upd_pd i (\<lambda>p. p\<lparr>response := \<lparr>rsp_pending = True, rsp_cookie = cookie resp\<rparr>\<rparr>) t)
               }
             | None \<Rightarrow> Some (e2, t)))"
    unfolding process_set_state_request_def Let_def assms(5) bind.bind_lunit up hl' w prod.case e by simp
  then show ?thesis using charge by (cases "sl_in_charge loc") auto
qed

end
