(* ===== verification/Mod_Pd_Calls.thy ===== *)
theory Mod_Pd_Calls
  imports Mod_Pd_Composite
begin

text \<open>
  The calls the power domain module makes of its drivers. The world the services and the drivers act
  on is given a view \<open>asked\<close>, the sequence of the states drivers have been asked for; what a request
  and a transition add to it is derived from their definitions. The module also keeps, in
  \<^verbatim>\<open>state_requested_to_driver\<close>, the last state a driver has accepted: the two are related here.
\<close>

section \<open>Recording the calls\<close>

text \<open>
  \<open>records_calls env asked\<close>: every call of a driver's \<^verbatim>\<open>set_state\<close> appends the identifier and the
  state it was given, whatever it returns; the other calls of this part of the module append nothing.
\<close>

definition records_calls :: "'w pd_env \<Rightarrow> ('w \<Rightarrow> (fwk_id \<times> 32 word) list) \<Rightarrow> bool" where
  "records_calls env asked \<longleftrightarrow>
     (\<forall>a f j st w r w'. pd_set_state_fn (pd_drivers env a) = Some f \<longrightarrow> f j st w = Some (r, w') \<longrightarrow> asked w' = asked w @ [(j, st)]) \<and>
     (\<forall>a f j st w r w'. pd_deny_fn (pd_drivers env a) = Some f \<longrightarrow> f j st w = Some (r, w') \<longrightarrow> asked w' = asked w) \<and>
     (\<forall>e w r e' w'. srv_put_event (pd_srv env) e w = Some (r, e', w') \<longrightarrow> asked w' = asked w) \<and>
     (\<forall>e n w r n' w'. srv_notify (pd_srv env) e n w = Some (r, n', w') \<longrightarrow> asked w' = asked w)"

lemma records_callsD:
  assumes "records_calls env asked"
  shows "pd_set_state_fn (pd_drivers env a) = Some f \<Longrightarrow> f j st w = Some (r, w') \<Longrightarrow> asked w' = asked w @ [(j, st)]"
    "pd_deny_fn (pd_drivers env a) = Some g \<Longrightarrow> g j st w = Some (b, w') \<Longrightarrow> asked w' = asked w"
    "srv_put_event (pd_srv env) e w = Some (r, e', w') \<Longrightarrow> asked w' = asked w"
    "srv_notify (pd_srv env) e n w = Some (r, n', w') \<Longrightarrow> asked w' = asked w"
proof -
  note D = assms [unfolded records_calls_def]
  show "pd_set_state_fn (pd_drivers env a) = Some f \<Longrightarrow> f j st w = Some (r, w') \<Longrightarrow> asked w' = asked w @ [(j, st)]"
    by (rule D [THEN conjunct1, rule_format])
  show "pd_deny_fn (pd_drivers env a) = Some g \<Longrightarrow> g j st w = Some (b, w') \<Longrightarrow> asked w' = asked w"
    by (rule D [THEN conjunct2, THEN conjunct1, rule_format])
  show "srv_put_event (pd_srv env) e w = Some (r, e', w') \<Longrightarrow> asked w' = asked w"
    by (rule D [THEN conjunct2, THEN conjunct2, THEN conjunct1, rule_format])
  show "srv_notify (pd_srv env) e n w = Some (r, n', w') \<Longrightarrow> asked w' = asked w"
    by (rule D [THEN conjunct2, THEN conjunct2, THEN conjunct2, rule_format])
qed

text \<open>The call that asks the driver of domain \<open>i\<close> for a state: its identifier and the state its mapping table gives.\<close>

definition call_of :: "'w pd_mod_ctx \<Rightarrow> nat \<Rightarrow> 32 word \<Rightarrow> (fwk_id \<times> 32 word) option" where
  "call_of s i state = map_option (Pair (pd_driver_id (pd_at s i))) (retrieve_mapped_state i state s)"

lemma pd_static_driver [simp]: "pd_driver_id (pd_static p) = pd_driver_id p"
  by (simp add: pd_static_def)

lemma call_of_cong:
  assumes "domains t = domains s" and "pd_driver_id (pd_at t i) = pd_driver_id (pd_at s i)" and "pd_config (pd_at t i) = pd_config (pd_at s i)"
  shows "call_of t i state = call_of s i state"
  using assms by (simp add: call_of_def retrieve_mapped_state_def get_config_def get_pd_def)

lemma call_of_same:
  assumes "same_tree s t" and "i < domains s"
  shows "call_of t i state = call_of s i state"
proof (rule call_of_cong)
  note st = same_tree_nth [OF assms]
  show "pd_driver_id (pd_at t i) = pd_driver_id (pd_at s i)" using st pd_static_driver by metis
  show "pd_config (pd_at t i) = pd_config (pd_at s i)" using st pd_static_sel(5) by metis
qed (rule same_tree_domains [OF assms(1)])

abbreviation asked_of :: "('w \<Rightarrow> (fwk_id \<times> 32 word) list) \<Rightarrow> 'w pd_mod_ctx \<Rightarrow> (fwk_id \<times> 32 word) list" where
  "asked_of asked s \<equiv> asked (world s)"

lemma delayed_response_asks_nothing:
  assumes "records_calls env asked" and "send_pd_set_state_delayed_response env i st s = Some t"
  shows "asked_of asked t = asked_of asked s"
  using assms(2) unfolding send_pd_set_state_delayed_response_def Let_def
  by (auto split: bind_splits if_splits prod.splits dest: records_callsD(3) [OF assms(1)])

lemma wrapper_asks_nothing:
  assumes "records_calls env asked" and "power_state_pre_transition_notification_wrapper env i s = Some (b, t)"
  shows "asked_of asked t = asked_of asked s"
  using assms(2) unfolding power_state_pre_transition_notification_wrapper_def initiate_power_state_pre_transition_notification_def Let_def
  by (auto split: bind_splits if_splits prod.splits dest: records_callsD(4) [OF assms(1)])

lemma report_notification_asks_nothing:
  assumes "records_calls env asked" and "report_notification env i state s = Some t"
  shows "asked_of asked t = asked_of asked s"
  using assms(2) unfolding report_notification_def notify_transition_def Let_def
  by (auto split: bind_splits if_splits prod.splits dest: records_callsD(4) [OF assms(1)])

text \<open>A transition asks its driver once, for the mapped state, unless the driver denies it before.\<close>

lemma initiate_asks:
  assumes rec: "records_calls env asked" and run: "initiate_power_state_transition env i s = Some (status, t)"
  shows "status \<noteq> FWK_SUCCESS \<and> asked_of asked t = asked_of asked s \<or>
    (\<exists>call. call_of s i (requested_state (pd_at s i)) = Some call \<and> asked_of asked t = asked_of asked s @ [call])"
proof -
  let ?st = "requested_state (pd_at s i)"
  have e: "FWK_E_DEVICE \<noteq> FWK_SUCCESS" by (simp add: fwk_status_defs)
  have i: "i < domains s" using initiate_effect [OF run] by blast
  obtain has_deny where hd: "driver_has env i pd_deny_fn s = Some has_deny"
    using run i by (auto simp: initiate_power_state_transition_def bind_Some_iff Let_def)
  obtain denied s1 where d: "(if has_deny then call_pd_driver env i (\<lambda>d. map_option (\<lambda>f j. f j ?st) (pd_deny_fn d)) s else Some (False, s)) = Some (denied, s1)"
    and rest: "(if denied then Some (FWK_E_DEVICE, s1)
       else do {
         mapped_state \<leftarrow> retrieve_mapped_state i ?st s1;
         (status, s) \<leftarrow> call_pd_driver env i (\<lambda>d. map_option (\<lambda>f j. f j mapped_state) (pd_set_state_fn d)) s1;
         Some (status, if status = FWK_SUCCESS
           then upd_pd i (\<lambda>p. p\<lparr>state_requested_to_driver := ?st, driver_state := mapped_state\<rparr>) s else s)
       }) = Some (status, t)"
    using run i hd unfolding initiate_power_state_transition_def Let_def by (simp add: bind_Some_iff) blast
  have a1: "asked_of asked s1 = asked_of asked s"
    using d records_callsD(2) [OF rec] by (auto simp: call_pd_driver_def bind_Some_iff split: if_splits)
  obtain w where s1: "s1 = s\<lparr>world := w\<rparr>" using deny_world [OF d] by blast
  show ?thesis
  proof (cases denied)
    case True
    then show ?thesis using rest a1 e by simp
  next
    case False
    then obtain m s2 where m: "retrieve_mapped_state i ?st s1 = Some m"
        and c: "call_pd_driver env i (\<lambda>d. map_option (\<lambda>f j. f j m) (pd_set_state_fn d)) s1 = Some (status, s2)"
        and t: "t = (if status = FWK_SUCCESS
           then upd_pd i (\<lambda>p. p\<lparr>state_requested_to_driver := ?st, driver_state := m\<rparr>) s2 else s2)"
      using rest by (auto simp: bind_Some_iff)
    have "asked_of asked s2 = asked_of asked s1 @ [(pd_driver_id (pd_at s i), m)]"
      using c records_callsD(1) [OF rec] i
      by (auto simp: s1 call_pd_driver_def bind_Some_iff get_pd_def)
    moreover have "call_of s i ?st = Some (pd_driver_id (pd_at s i), m)"
      using m call_of_cong [of s1 s i ?st] by (simp add: call_of_def s1)
    moreover have "world t = world s2" by (simp add: t)
    ultimately show ?thesis using a1 by simp
  qed
qed

section \<open>The calls of a request\<close>

text \<open>
  The body of the loop: nothing is asked and nothing recorded; or one driver is asked for an allowed
  state, with no driver asked before, and either the loop is left or the request remembers it.
\<close>

definition asks_one :: "('w \<Rightarrow> (fwk_id \<times> 32 word) list) \<Rightarrow> nat \<Rightarrow> 32 word \<Rightarrow> 'w pd_mod_ctx \<Rightarrow> 'w pd_mod_ctx \<Rightarrow> bool" where
  "asks_one asked i state s t \<longleftrightarrow> i < domains s \<and> is_allowed_by_parent_and_children i state s = Some True \<and>
     (\<exists>call. call_of s i state = Some call \<and> asked_of asked t = asked_of asked s @ [call])"

lemma asks_one_same:
  assumes "same_tree s0 s" and "asked_of asked s = asked_of asked s0"
  shows "asks_one asked i state s t \<longleftrightarrow> asks_one asked i state s0 t"
  unfolding asks_one_def assms(2) same_tree_domains [OF assms(1)] allowed_by_parent_and_children_same [OF assms(1)]
  using call_of_same [OF assms(1)] by (cases "i < domains s0") auto

lemma drive_requested_state_asks:
  assumes rec: "records_calls env asked" and run: "drive_requested_state env i state prev loc s = Some (stop, loc', t)"
    and req: "requested_state (pd_at s i) = state"
  shows "asked_of asked t = asked_of asked s \<and> driven t = driven s \<and> sl_initiated loc' = sl_initiated loc \<or>
    asks_one asked i state s t \<and> \<not> sl_initiated loc \<and>
      (stop \<and> driven t = driven s \<or> sl_initiated loc' \<and> driven t = (driven s)[i := state])"
proof -
  obtain pd where i: "i < domains s" and pd: "get_pd i s = Some pd" "pd = pd_at s i"
    using run unfolding drive_requested_state_def bind_Some_iff get_pd_Some_iff by auto
  consider (skip) "t = s" "sl_initiated loc' = sl_initiated loc"
    | (deferred) "power_state_pre_transition_notification_wrapper env i s = Some (True, t)" "sl_initiated loc' = sl_initiated loc"
    | (tried) s1 status s2 where "\<not> sl_initiated loc" "is_allowed_by_parent_and_children i state s = Some True"
        "power_state_pre_transition_notification_wrapper env i s = Some (False, s1)"
        "initiate_power_state_transition env i s1 = Some (status, s2)"
        "if status \<noteq> FWK_SUCCESS then stop \<and> sl_initiated loc' = sl_initiated loc \<and> t = upd_pd i (\<lambda>p. p\<lparr>requested_state := prev\<rparr>) s2
         else sl_initiated loc' \<and> t = s2"
    using run pd unfolding drive_requested_state_def Let_def
    by (auto split: bind_splits if_splits)
  then show ?thesis
  proof cases
    case skip
    then show ?thesis by simp
  next
    case deferred
    then show ?thesis using wrapper_quiet [OF deferred(1)] wrapper_asks_nothing [OF rec deferred(1)] by (simp add: quiet_def)
  next
    case tried
    have q: "quiet s s1" and a1: "asked_of asked s1 = asked_of asked s"
      by (rule wrapper_quiet [OF tried(3)], rule wrapper_asks_nothing [OF rec tried(3)])
    have r1: "requested_state (pd_at s1 i) = state" using quiet_sel(1) [OF q i] req by simp
    have call: "call_of s1 i state = call_of s i state" using q call_of_same [of s s1 i] i by (simp add: quiet_def)
    have eff: "if status = FWK_SUCCESS then drives i s1 s2 else quiet s1 s2" using initiate_effect [OF tried(4)] by simp
    have w: "world t = world s2" using tried(5) by (auto split: if_splits)
    have asked: "status \<noteq> FWK_SUCCESS \<and> asked_of asked t = asked_of asked s \<or> asks_one asked i state s t"
      using initiate_asks [OF rec tried(4)] r1 call a1 w i tried(2) by (auto simp: asks_one_def)
    have keep: "driven (upd_pd i (\<lambda>p. p\<lparr>requested_state := prev\<rparr>) s2) = driven s2"
      by (cases "i < domains s2") (simp_all add: upd_pd_def map_update list_update_same_conv list_update_beyond)
    have dr: "if status = FWK_SUCCESS then driven t = (driven s)[i := state] else driven t = driven s"
      using eff q r1 tried(5) keep by (simp add: quiet_def drives_def split: if_splits)
    show ?thesis using asked dr tried(1,5) by (cases "status = FWK_SUCCESS") auto
  qed
qed

lemma set_state_level_asks:
  assumes rec: "records_calls env asked" and run: "set_state_level env i state loc s = Some (stop, loc', t)"
  shows "asked_of asked t = asked_of asked s \<and> driven t = driven s \<and> sl_initiated loc' = sl_initiated loc \<or>
    asks_one asked i state s t \<and> \<not> sl_initiated loc \<and>
      (stop \<and> driven t = driven s \<or> sl_initiated loc' \<and> driven t = (driven s)[i := state])"
proof -
  let ?s = "upd_pd i (\<lambda>p. p\<lparr>requested_state := state, pre_transition_ntf := (pre_transition_ntf p)\<lparr>pn_valid := False\<rparr>\<rparr>) s"
  obtain pd where i: "i < domains s" and pd: "get_pd i s = Some pd" "pd = pd_at s i"
    using run unfolding set_state_level_def bind_Some_iff get_pd_Some_iff by auto
  consider (skip) "t = s" "sl_initiated loc' = sl_initiated loc"
    | (accepted) s1 where "send_pd_set_state_delayed_response env i FWK_E_OVERWRITTEN ?s = Some s1"
        "drive_requested_state env i state (requested_state pd) loc s1 = Some (stop, loc', t)"
    using run pd unfolding set_state_level_def Let_def
    by (cases "pd_parent pd") (auto simp: get_pd_Some_iff split: bind_splits if_splits)
  then show ?thesis
  proof cases
    case skip
    then show ?thesis by simp
  next
    case accepted
    have q: "quiet ?s s1" by (rule delayed_response_quiet [OF accepted(1)])
    have a: "asked_of asked s1 = asked_of asked s" using delayed_response_asks_nothing [OF rec accepted(1)] by simp
    have st: "same_tree s ?s" by (rule same_tree_upd) (simp add: pd_static_def)
    have dr: "driven s1 = driven s"
      using q i by (simp add: quiet_def upd_pd_def map_update list_update_same_conv)
    have r1: "requested_state (pd_at s1 i) = state" using quiet_sel(1) [OF q, of i] i by (simp add: upd_pd_nth)
    have s1: "same_tree s s1" using same_tree_trans [OF st] q by (simp add: quiet_def)
    show ?thesis
      using drive_requested_state_asks [OF rec accepted(2) r1] a dr asks_one_same [OF s1 a] by simp
  qed
qed

text \<open>The result of the walk: no call and nothing driven, or one call, of the one domain whose driver may have accepted.\<close>

definition asked_at_most_once :: "('w \<Rightarrow> (fwk_id \<times> 32 word) list) \<Rightarrow> 'w pd_mod_ctx \<Rightarrow> 'w pd_mod_ctx \<Rightarrow> bool" where
  "asked_at_most_once asked s t \<longleftrightarrow> asked_of asked t = asked_of asked s \<and> driven t = driven s \<or>
     (\<exists>i state. asks_one asked i state s t \<and> (driven t = driven s \<or> driven t = (driven s)[i := state]))"

definition still_unasked :: "('w \<Rightarrow> (fwk_id \<times> 32 word) list) \<Rightarrow> 'w pd_mod_ctx \<Rightarrow> set_state_locals \<Rightarrow> 'w pd_mod_ctx \<Rightarrow> bool" where
  "still_unasked asked s0 loc s \<longleftrightarrow> same_tree s0 s \<and>
     (if sl_initiated loc then asked_at_most_once asked s0 s else asked_of asked s = asked_of asked s0 \<and> driven s = driven s0)"

lemma set_state_level_unasked:
  assumes rec: "records_calls env asked" and run: "set_state_level env i state loc s = Some (stop, loc', t)"
    and inv: "still_unasked asked s0 loc s"
  shows "asked_at_most_once asked s0 t \<and> (stop \<or> still_unasked asked s0 loc' t)"
proof -
  have s0: "same_tree s0 s" using inv by (simp add: still_unasked_def)
  have t0: "same_tree s0 t" using set_state_level_cases [OF run] same_tree_trans [OF s0] by simp
  from set_state_level_asks [OF rec run] show ?thesis
  proof (elim disjE conjE)
    assume "asked_of asked t = asked_of asked s" "driven t = driven s" "sl_initiated loc' = sl_initiated loc"
    then show ?thesis
      using inv t0 by (auto simp: still_unasked_def asked_at_most_once_def asks_one_def split: if_splits)
  next
    assume one: "asks_one asked i state s t" and first: "\<not> sl_initiated loc"
    have u: "asked_of asked s = asked_of asked s0" "driven s = driven s0" using inv first by (simp_all add: still_unasked_def)
    have one0: "asks_one asked i state s0 t" using one asks_one_same [OF s0 u(1)] by simp
    { assume "stop" "driven t = driven s"
      then show ?thesis using one0 u by (auto simp: asked_at_most_once_def) }
    { assume "sl_initiated loc'" "driven t = (driven s)[i := state]"
      then show ?thesis using one0 u t0 by (auto simp: asked_at_most_once_def still_unasked_def) }
  qed
qed

lemma set_state_walk_asks:
  assumes rec: "records_calls env asked" and "set_state_walk env lowest cs up hl ks pd loc s = Some (loc', t)"
    and "still_unasked asked s0 loc s"
  shows "asked_at_most_once asked s0 t"
  using assms(2,3)
proof (induction ks arbitrary: pd loc s)
  case Nil
  then show ?case by (auto simp: still_unasked_def asked_at_most_once_def split: if_splits)
next
  case (Cons k ks)
  obtain i state stop loc1 s1 where lv: "set_state_level env i state loc s = Some (stop, loc1, s1)"
      and rest: "(if stop then Some (loc1, s1)
        else do { pd \<leftarrow> get_pd i s1; set_state_walk env lowest cs up hl ks (pd_parent pd) loc1 s1 }) = Some (loc', t)"
    using Cons.prems(1) by (auto simp: Let_def bind_Some_iff simp del: set_state_walk.simps(1))
  have "asked_at_most_once asked s0 s1 \<and> (stop \<or> still_unasked asked s0 loc1 s1)"
    by (rule set_state_level_unasked [OF rec lv Cons.prems(2)])
  then show ?case using rest Cons.IH by (auto simp: bind_Some_iff split: if_splits)
qed

lemma set_state_request_asks:
  assumes "records_calls env asked" and "process_set_state_request env k event resp s = Some (resp', t)"
  shows "asked_at_most_once asked s t"
proof -
  let ?s = "s\<lparr>system_suspend := (system_suspend s)\<lparr>last_core_off_ongoing := False\<rparr>\<rparr>"
  obtain cs up hl loc u i c where walk: "set_state_walk env k cs up hl [0..<hl + 1] (Some k)
       \<lparr>sl_status = FWK_SUCCESS, sl_in_charge = None, sl_initiated = False\<rparr> ?s = Some (loc, u)"
    and t: "t = u \<or> t = upd_pd i (\<lambda>p. p\<lparr>response := c\<rparr>) u"
    using process_set_state_parts [OF assms(2)] by blast
  have "asked_at_most_once asked s u"
    by (rule set_state_walk_asks [OF assms(1) walk]) (simp add: still_unasked_def)
  moreover have "driven (upd_pd i (\<lambda>p. p\<lparr>response := c\<rparr>) u) = driven u"
    by (cases "i < domains u") (simp_all add: upd_pd_def map_update list_update_same_conv list_update_beyond)
  then have "driven t = driven u" using t by auto
  moreover have "world t = world u" using t by auto
  ultimately show ?thesis by (simp add: asked_at_most_once_def asks_one_def)
qed

section \<open>Notifications that hold nothing up\<close>

text \<open>
  A transition waits while responses to a notification of its domain are pending. \<open>unheld\<close>: the build
  has no notifications, or nobody has subscribed to those of the power domains (so that every
  notification counts no response to wait for) and none is pending.
\<close>

definition no_pending :: "pd_ctx \<Rightarrow> bool" where
  "no_pending p \<longleftrightarrow> pn_pending_responses (pre_transition_ntf p) = 0 \<and> tn_pending_responses (transition_ntf p) = 0"

definition unheld :: "'w pd_env \<Rightarrow> 'w pd_mod_ctx \<Rightarrow> bool" where
  "unheld env s \<longleftrightarrow> (has_notification (pd_build env) \<longrightarrow>
     (\<forall>e n w st n' w'. srv_notify (pd_srv env) e n w = Some (st, n', w') \<longrightarrow> n' = 0) \<and> (\<forall>p \<in> set (pd_ctx_table s). no_pending p))"

lemma unheld_frames [simp]:
  "unheld env (s\<lparr>world := w\<rparr>) = unheld env s" "unheld env (s\<lparr>system_suspend := x\<rparr>) = unheld env s"
  by (simp_all add: unheld_def)

lemma unheld_upd:
  assumes "unheld env s" and "\<And>p. has_notification (pd_build env) \<Longrightarrow> no_pending p \<Longrightarrow> no_pending (f p)"
  shows "unheld env (upd_pd i f s)"
proof (cases "i < domains s")
  case True
  then show ?thesis
    using assms set_update_subset_insert [of "pd_ctx_table s" i "f (pd_at s i)"] nth_mem [of i "pd_ctx_table s"]
    by (auto simp: unheld_def upd_pd_def)
next
  case False
  then show ?thesis using assms(1) by (simp add: upd_pd_def list_update_beyond)
qed

lemma unheld_initiate: "initiate_power_state_transition env i s = Some (st, t) \<Longrightarrow> unheld env s \<Longrightarrow> unheld env t"
  unfolding initiate_power_state_transition_def Let_def
  by (simp split: bind_splits if_splits prod.splits)
     (auto dest!: call_pd_driver_world intro!: unheld_upd simp: no_pending_def)

lemma unheld_delayed_response: "send_pd_set_state_delayed_response env i st s = Some t \<Longrightarrow> unheld env s \<Longrightarrow> unheld env t"
  unfolding send_pd_set_state_delayed_response_def Let_def
  by (simp split: bind_splits if_splits prod.splits) (auto intro!: unheld_upd simp: no_pending_def)

lemma unheld_notify:
  "unheld env s \<Longrightarrow> has_notification (pd_build env) \<Longrightarrow> srv_notify (pd_srv env) e n w = Some (st, n', w') \<Longrightarrow> n' = 0"
  unfolding unheld_def by blast

lemma unheld_report_notification:
  assumes "report_notification env i state s = Some t" and "unheld env s"
  shows "unheld env t"
  using assms unheld_notify [OF assms(2)]
  unfolding report_notification_def notify_transition_def Let_def
  by (simp split: bind_splits if_splits prod.splits) (auto intro!: unheld_upd simp: no_pending_def)

lemma unheld_wrapper:
  assumes "power_state_pre_transition_notification_wrapper env i s = Some (b, t)" and "unheld env s"
  shows "\<not> b \<and> unheld env t"
proof (cases "has_notification (pd_build env)")
  case False
  then show ?thesis using assms by (simp add: power_state_pre_transition_notification_wrapper_def)
next
  case True
  have idle: "pn_pending_responses (pre_transition_ntf p) = 0" if "get_pd i s = Some p" for p
    using assms(2) True that by (auto simp: unheld_def no_pending_def get_pd_Some_iff)
  show ?thesis
    using assms True idle unheld_notify [OF assms(2) True]
    unfolding power_state_pre_transition_notification_wrapper_def initiate_power_state_pre_transition_notification_def Let_def
    by (simp split: bind_splits if_splits prod.splits) (auto intro!: unheld_upd simp: no_pending_def)
qed

end
