(* ===== verification/Mod_Pd_Report.thy ===== *)
theory Mod_Pd_Report
  imports Mod_Pd_Calls
begin

text \<open>
  What a driver's report sets off: a domain that has gone deeper lets its parent go on, one that has
  become shallower its children, in the order of their list and up to the first that is refused. What
  goes on is seen in the calls of the drivers, recorded by the view \<open>asked\<close> of \<open>Mod_Pd_Calls\<close>.
\<close>

section \<open>Drivers that do as they are asked\<close>

definition driver_accepts :: "'w pd_env \<Rightarrow> 'w pd_mod_ctx \<Rightarrow> nat \<Rightarrow> bool" where
  "driver_accepts env s i \<longleftrightarrow>
     (\<exists>a f. pd_driver_api (pd_at s i) = Some a \<and> pd_deny_fn (pd_drivers env a) = None \<and> pd_set_state_fn (pd_drivers env a) = Some f \<and>
        (\<forall>j st w. \<exists>w'. f j st w = Some (FWK_SUCCESS, w')))"

lemma driver_accepts_same:
  assumes "same_tree s t" and "i < domains s"
  shows "driver_accepts env t i = driver_accepts env s i"
proof -
  have "pd_driver_api (pd_at t i) = pd_driver_api (pd_at s i)" using same_tree_nth [OF assms] pd_static_sel(9) by metis
  then show ?thesis by (simp add: driver_accepts_def)
qed

lemma initiate_accepted:
  assumes "driver_accepts env s i" and "pd_tree s" and "pd_states_ok s" and "i < domains s"
  shows "\<exists>t. initiate_power_state_transition env i s = Some (FWK_SUCCESS, t) \<and> drives i s t"
proof -
  let ?st = "requested_state (pd_at s i)"
  obtain a f where a: "pd_driver_api (pd_at s i) = Some a" "pd_deny_fn (pd_drivers env a) = None" "pd_set_state_fn (pd_drivers env a) = Some f"
      "\<And>j st w. \<exists>w'. f j st w = Some (FWK_SUCCESS, w')"
    using assms(1) by (auto simp: driver_accepts_def)
  obtain c where c: "pd_config (pd_at s i) = Some c" using pd_treeD(4) [OF assms(2,4)] by blast
  have "unat ?st < 16" using state_range [OF pd_states_okD(1) [OF assms(3,4)]] by simp
  then obtain m where m: "retrieve_mapped_state i ?st s = Some m"
    using c assms(4) pd_states_okD(4) [OF assms(3,4) c]
    by (cases "cfg_pd_state_mapping_table c") (auto simp: retrieve_mapped_state_def get_config_def)
  obtain w where "f (pd_driver_id (pd_at s i)) m (world s) = Some (FWK_SUCCESS, w)" using a(4) by blast
  then have "call_pd_driver env i (\<lambda>d. map_option (\<lambda>f j. f j m) (pd_set_state_fn d)) s = Some (FWK_SUCCESS, s\<lparr>world := w\<rparr>)"
    using a assms(4) by (simp add: call_pd_driver_def)
  then have "\<exists>t. initiate_power_state_transition env i s = Some (FWK_SUCCESS, t)"
    using a m assms(4) by (simp add: initiate_power_state_transition_def driver_has_def Let_def)
  then show ?thesis using initiate_effect by fastforce
qed

lemma wrapper_unheld:
  assumes "calls_return env" and "unheld env s" and "pd_tree s" and "i < domains s" and "records_calls env asked"
  shows "\<exists>t. power_state_pre_transition_notification_wrapper env i s = Some (False, t) \<and> quiet s t \<and> unheld env t \<and>
    asked_of asked t = asked_of asked s"
proof -
  obtain b t where w: "power_state_pre_transition_notification_wrapper env i s = Some (b, t)"
    using wrapper_total [OF assms(1,4) pd_treeD(4) [OF assms(3,4)]] by auto
  then show ?thesis using unheld_wrapper [OF w assms(2)] wrapper_quiet [OF w] wrapper_asks_nothing [OF assms(5) w] by simp
qed

text \<open>A domain that is let go on: its driver is asked, and accepts, the state requested for it.\<close>

definition goes_on :: "('w \<Rightarrow> (fwk_id \<times> 32 word) list) \<Rightarrow> nat \<Rightarrow> 'w pd_mod_ctx \<Rightarrow> 'w pd_mod_ctx \<Rightarrow> bool" where
  "goes_on asked i s t \<longleftrightarrow> drives i s t \<and>
     (\<exists>call. call_of s i (requested_state (pd_at s i)) = Some call \<and> asked_of asked t = asked_of asked s @ [call])"

lemma let_go_on:
  assumes "calls_return env" and "records_calls env asked" and "unheld env s" and "driver_accepts env s i"
    and "pd_tree s" and "pd_states_ok s" and "i < domains s"
  shows "\<exists>s1 t. power_state_pre_transition_notification_wrapper env i s = Some (False, s1) \<and>
    initiate_power_state_transition env i s1 = Some (FWK_SUCCESS, t) \<and> goes_on asked i s t \<and> unheld env t"
proof -
  obtain s1 where w: "power_state_pre_transition_notification_wrapper env i s = Some (False, s1)" "quiet s s1" "unheld env s1"
      "asked_of asked s1 = asked_of asked s"
    using wrapper_unheld [OF assms(1,3,5,7,2)] by blast
  have st: "same_tree s s1" using w(2) by (simp add: quiet_def)
  have r: "requested_state (pd_at s1 i) = requested_state (pd_at s i)" by (rule quiet_sel(1) [OF w(2) assms(7)])
  obtain t where t: "initiate_power_state_transition env i s1 = Some (FWK_SUCCESS, t)" "drives i s1 t"
    using initiate_accepted [of env s1 i] driver_accepts_same [OF st assms(7)] assms(4) pd_tree_same [OF st assms(5)]
      pd_states_ok_quiet [OF assms(6) w(2)] same_tree_domains [OF st] assms(7) by auto
  have "drives i s t" using t(2) w(2) r same_tree_trans [OF st] by (simp add: drives_def quiet_def)
  then show ?thesis
    using w t(1) initiate_asks [OF assms(2) t(1)] r call_of_same [OF st assms(7)] unheld_initiate [OF t(1) w(3)]
    by (auto simp: goes_on_def)
qed

section \<open>Waking the children\<close>

text \<open>A domain waits when its driver has not been asked for the state requested for it.\<close>

definition waiting :: "'w pd_mod_ctx \<Rightarrow> nat \<Rightarrow> bool" where
  "waiting s c \<longleftrightarrow> state_requested_to_driver (pd_at s c) \<noteq> requested_state (pd_at s c)"

text \<open>
  \<open>woken asked s cs n t\<close>: of the first \<open>n\<close> domains of \<open>cs\<close> those that were waiting have had their drivers
  asked, in this order, for the requested state; the next one is refused; no other driver has been asked.
\<close>

definition calls_for :: "'w pd_mod_ctx \<Rightarrow> nat list \<Rightarrow> (fwk_id \<times> 32 word) option list" where
  "calls_for s cs = map (\<lambda>c. call_of s c (requested_state (pd_at s c))) (filter (waiting s) cs)"

definition woken :: "('w \<Rightarrow> (fwk_id \<times> 32 word) list) \<Rightarrow> 'w pd_mod_ctx \<Rightarrow> nat list \<Rightarrow> nat \<Rightarrow> 'w pd_mod_ctx \<Rightarrow> bool" where
  "woken asked s cs n t \<longleftrightarrow> same_tree s t \<and> requests t = requests s \<and> n \<le> length cs \<and>
     (\<forall>c \<in> set (take n cs). \<not> waiting t c) \<and>
     (n < length cs \<longrightarrow> waiting t (cs ! n) \<and> is_allowed_by_parent_and_children (cs ! n) (requested_state (pd_at t (cs ! n))) t = Some False) \<and>
     (\<forall>j < domains s. j \<notin> set (take n cs) \<longrightarrow> state_requested_to_driver (pd_at t j) = state_requested_to_driver (pd_at s j)) \<and>
     (\<exists>calls. asked_of asked t = asked_of asked s @ calls \<and> map Some calls = calls_for s (take n cs))"

lemma woken_Nil [simp]: "woken asked s [] 0 s"
  by (simp add: woken_def calls_for_def)

lemma woken_refused:
  "waiting s b \<Longrightarrow> is_allowed_by_parent_and_children b (requested_state (pd_at s b)) s = Some False \<Longrightarrow> woken asked s (b # bs) 0 s"
  by (simp add: woken_def calls_for_def)

lemma woken_skip:
  assumes "woken asked s bs n t" and "\<not> waiting s b" and "b < domains s" and "b \<notin> set bs"
  shows "woken asked s (b # bs) (Suc n) t"
proof -
  have "b \<notin> set (take n bs)" using assms(4) by (meson in_set_takeD)
  then have "\<not> waiting t b" using assms(1-3) requests_nth_same [of t s b] by (auto simp: woken_def waiting_def)
  moreover have "calls_for s (take (Suc n) (b # bs)) = calls_for s (take n bs)" using assms(2) by (simp add: calls_for_def)
  ultimately show ?thesis using assms(1) by (auto simp: woken_def)
qed

lemma calls_for_goes_on:
  assumes "goes_on asked b s u" and "b < domains s" and "b \<notin> set cs" and "\<And>c. c \<in> set cs \<Longrightarrow> c < domains s"
  shows "calls_for u cs = calls_for s cs"
proof -
  have u: "same_tree s u" "drives b s u" using assms(1) by (simp_all add: goes_on_def drives_def)
  have w: "waiting u c = waiting s c" "call_of u c (requested_state (pd_at u c)) = call_of s c (requested_state (pd_at s c))" if "c \<in> set cs" for c
    using drives_sel [OF u(2) assms(4) [OF that]] call_of_same [OF u(1) assms(4) [OF that]] that assms(3)
    by (auto simp: waiting_def)
  then have "filter (waiting u) cs = filter (waiting s) cs" by (intro filter_cong) auto
  then show ?thesis using w(2) by (auto simp: calls_for_def)
qed

lemma woken_drive:
  assumes "woken asked u bs n t" and "goes_on asked b s u" and "waiting s b" and "b < domains s" and "b \<notin> set bs"
    and "\<And>c. c \<in> set bs \<Longrightarrow> c < domains s"
  shows "woken asked s (b # bs) (Suc n) t"
proof -
  have dr: "drives b s u" using assms(2) by (simp add: goes_on_def)
  have st: "same_tree s u" "requests u = requests s" "domains u = domains s" using dr same_tree_domains by (auto simp: drives_def)
  have nb: "b \<notin> set (take n bs)" using assms(5) by (meson in_set_takeD)
  have "state_requested_to_driver (pd_at t b) = requested_state (pd_at s b)"
    using assms(1,4) nb drives_sel(2) [OF dr assms(4)] st(3) by (simp add: woken_def)
  moreover have "requested_state (pd_at t b) = requested_state (pd_at s b)"
    using assms(1,4) requests_nth_same [of t s b] st(2) by (simp add: woken_def)
  ultimately have "\<not> waiting t b" by (simp add: waiting_def)
  moreover have "state_requested_to_driver (pd_at t j) = state_requested_to_driver (pd_at s j)" if "j < domains s" "j \<notin> set (take n bs)" "j \<noteq> b" for j
    using assms(1) that drives_sel(2) [OF dr that(1)] st(3) by (simp add: woken_def)
  moreover have "\<exists>calls. asked_of asked t = asked_of asked s @ calls \<and> map Some calls = calls_for s (b # take n bs)"
  proof -
    obtain call where call: "call_of s b (requested_state (pd_at s b)) = Some call" "asked_of asked u = asked_of asked s @ [call]"
      using assms(2) by (auto simp: goes_on_def)
    obtain calls where "asked_of asked t = asked_of asked u @ calls" "map Some calls = calls_for u (take n bs)"
      using assms(1) by (auto simp: woken_def)
    moreover have "calls_for u (take n bs) = calls_for s (take n bs)"
      by (rule calls_for_goes_on [OF assms(2,4) nb]) (use assms(6) in \<open>auto dest: in_set_takeD\<close>)
    moreover have "calls_for s (b # take n bs) = Some call # calls_for s (take n bs)" using call(1) assms(3) by (simp add: calls_for_def)
    ultimately show ?thesis using call(2) by (intro exI [of _ "call # calls"]) simp
  qed
  ultimately show ?thesis
    using assms(1) same_tree_trans [OF st(1)] st(2) by (auto simp: woken_def)
qed

lemma drive_children_wakes:
  assumes "calls_return env" and "records_calls env asked" and "unheld env s" and "i < domains s" and "pd_tree s" and "pd_states_ok s"
    and "children_idx s i = as @ bs" and "\<And>c. c \<in> set bs \<Longrightarrow> driver_accepts env s c"
  shows "\<exists>n t. drive_children env i (if bs = [] then None else Some (ChildNode (hd bs))) s = Some t \<and> woken asked s bs n t"
  using assms(3-8)
proof (induction bs arbitrary: as s)
  case Nil
  then show ?case by (auto simp: drive_children.simps intro: woken_Nil)
next
  case (Cons b bs)
  have mem: "c < domains s" if "c \<in> set (b # bs)" for c using that Cons.prems(5) children_idx_mem [of c s i] by auto
  then have b: "b < domains s" by simp
  have nb: "b \<notin> set bs" using Cons.prems(5) distinct_filter [OF distinct_upt, of _ 0 "domains s"] unfolding children_idx_def
    by (metis distinct.simps(2) distinct_append)
  have rep: "slist_rep (pd_heap s) (Children i) (map ChildNode as @ ChildNode b # map ChildNode bs)"
    using pd_treeD(2) [OF Cons.prems(3,2)] Cons.prems(5) by simp
  let ?next = "if bs = [] then None else Some (ChildNode (hd bs))"
  have nxt: "fwk_slist_next (Children i) (ChildNode b) (pd_heap s) = Some ?next"
    using slist_next_rep [OF rep] by (simp add: hd_map)
  show ?case
  proof (cases "waiting s b")
    case False
    have "children_idx s i = (as @ [b]) @ bs" using Cons.prems(5) by simp
    from Cons.IH [OF Cons.prems(1-4) this] Cons.prems(6)
    obtain n t where "drive_children env i ?next s = Some t" "woken asked s bs n t" by auto
    moreover from this(2) have "woken asked s (b # bs) (Suc n) t" by (rule woken_skip [OF _ False b nb])
    moreover have "drive_children env i (Some (ChildNode b)) s = drive_children env i ?next s"
      using False b nxt by (subst drive_children.simps) (simp add: waiting_def)
    ultimately show ?thesis by auto
  next
    case True
    obtain ok where ok: "is_allowed_by_parent_and_children b (requested_state (pd_at s b)) s = Some ok"
      using allowed_by_parent_and_children_total [OF Cons.prems(3,4) b] pd_states_okD(1) [OF Cons.prems(4) b] state_range by blast
    show ?thesis
    proof (cases ok)
      case refused: False
      have "drive_children env i (Some (ChildNode b)) s = Some s"
        using True b ok refused by (subst drive_children.simps) (simp add: waiting_def)
      moreover have "woken asked s (b # bs) 0 s" using True ok refused by (intro woken_refused) simp_all
      ultimately show ?thesis by auto
    next
      case allowed: True
      obtain s1 u where u: "power_state_pre_transition_notification_wrapper env b s = Some (False, s1)"
          "initiate_power_state_transition env b s1 = Some (FWK_SUCCESS, u)" "goes_on asked b s u" "unheld env u"
        using let_go_on [OF assms(1,2) Cons.prems(1,6,3,4) b] by auto
      have st: "same_tree s u" "requests u = requests s" using u(3) by (simp_all add: goes_on_def drives_def)
      have d: "domains u = domains s" by (rule same_tree_domains [OF st(1)])
      have ok': "pd_states_ok u"
        by (rule pd_states_ok_same [OF Cons.prems(4) st(1)]) (use requests_nth_same [OF st(2)] pd_states_okD(1) [OF Cons.prems(4)] in simp)
      have acc: "driver_accepts env u c" if "c \<in> set bs" for c
        using that mem [of c] driver_accepts_same [OF st(1)] Cons.prems(6) by simp
      have "children_idx u i = (as @ [b]) @ bs" using Cons.prems(5) children_idx_same [OF st(1)] by simp
      from Cons.IH [OF u(4) _ pd_tree_same [OF st(1) Cons.prems(3)] ok' this acc] Cons.prems(2) d
      obtain n t where t: "drive_children env i ?next u = Some t" "woken asked u bs n t" by auto
      have "pd_heap u = pd_heap s" using st(1) by (simp add: same_tree_def)
      then have "drive_children env i (Some (ChildNode b)) s = drive_children env i ?next u"
        using True b ok allowed u(1,2) nxt by (subst drive_children.simps) (simp add: waiting_def)
      then show ?thesis using t woken_drive [OF t(2) u(3) True b nb] mem by auto
    qed
  qed
qed

lemma shallower_wakes_children:
  assumes "calls_return env" and "records_calls env asked" and "unheld env s" and "i < domains s" and "pd_tree s" and "pd_states_ok s"
    and "\<And>c. c \<in> set (children_idx s i) \<Longrightarrow> driver_accepts env s c"
  shows "\<exists>n t. process_power_state_transition_report_shallower_state env i s = Some t \<and> woken asked s (children_idx s i) n t"
proof -
  have "fwk_slist_head (Children i) (pd_heap s) = Some (if children_idx s i = [] then None else Some (ChildNode (hd (children_idx s i))))"
    using slist_head_rep [OF pd_treeD(2) [OF assms(5,4)]] by (simp add: hd_map)
  then show ?thesis
    using drive_children_wakes [OF assms(1-6), of "[]" "children_idx s i"] assms(7)
    by (simp add: process_power_state_transition_report_shallower_state_def)
qed

lemma deeper_wakes_parent:
  assumes "calls_return env" and "records_calls env asked" and "unheld env s" and "i < domains s" and "pd_tree s" and "pd_states_ok s"
    and "\<And>p. pd_parent (pd_at s i) = Some p \<Longrightarrow> driver_accepts env s p"
  shows "\<exists>n t. process_power_state_transition_report_deeper_state env i s = Some t \<and>
    woken asked s (case pd_parent (pd_at s i) of None \<Rightarrow> [] | Some p \<Rightarrow> [p]) n t"
proof (cases "pd_parent (pd_at s i)")
  case None
  then show ?thesis using assms(4) by (auto simp: process_power_state_transition_report_deeper_state_def intro: woken_Nil)
next
  case (Some p)
  have p: "p < domains s" using pd_treeD(1) [OF assms(5,4) Some] by simp
  obtain ok where ok: "is_allowed_by_parent_and_children p (requested_state (pd_at s p)) s = Some ok"
    using allowed_by_parent_and_children_total [OF assms(5,6) p] pd_states_okD(1) [OF assms(6) p] state_range by blast
  obtain s1 u where u: "power_state_pre_transition_notification_wrapper env p s = Some (False, s1)"
      "initiate_power_state_transition env p s1 = Some (FWK_SUCCESS, u)" "goes_on asked p s u"
    using let_go_on [OF assms(1-3) assms(7) [OF Some] assms(5,6) p] by auto
  note call = process_power_state_transition_report_deeper_state_def get_pd_Some [OF assms(4)] Some get_pd_Some [OF p] ok u(1,2)
  consider "\<not> waiting s p" | "waiting s p" "\<not> ok" | "waiting s p" ok by blast
  then show ?thesis
  proof cases
    case 1
    have "woken asked s [p] (Suc 0) s" by (rule woken_skip [OF _ 1 p]) simp_all
    then show ?thesis using 1 Some by (auto simp: call waiting_def)
  next
    case 2
    then have "woken asked s [p] 0 s" using ok by (intro woken_refused) simp_all
    then show ?thesis using 2 Some by (auto simp: call waiting_def)
  next
    case 3
    have "woken asked s [p] (Suc 0) u" by (rule woken_drive [OF _ u(3) 3(1) p]) simp_all
    then show ?thesis using 3 Some by (auto simp: call waiting_def Let_def)
  qed
qed


section \<open>A report\<close>

text \<open>An update of a context that leaves the tree alone.\<close>

lemma upd_keeps_tree:
  assumes "pd_tree s"
    and "\<And>p. pd_parent (f p) = pd_parent p" "\<And>p. pd_config (f p) = pd_config p"
      "\<And>p. allowed_state_mask_table (f p) = allowed_state_mask_table p" "\<And>p. allowed_state_mask_table_size (f p) = allowed_state_mask_table_size p"
  shows "pd_tree (upd_pd i f s)" "children_idx (upd_pd i f s) c = children_idx s c"
proof -
  have at: "pd_at (upd_pd i f s) j = (if j = i then f (pd_at s i) else pd_at s j)" if "j < domains s" for j
    using that by (cases "j = i") (simp_all add: upd_pd_def)
  have idx: "children_idx (upd_pd i f s) c = children_idx s c" for c
    unfolding children_idx_def by (rule filter_cong) (auto simp: at assms(2))
  have same: "pd_parent (pd_at (upd_pd i f s) j) = pd_parent (pd_at s j)" "pd_config (pd_at (upd_pd i f s) j) = pd_config (pd_at s j)"
      "allowed_state_mask_table (pd_at (upd_pd i f s) j) = allowed_state_mask_table (pd_at s j)"
      "allowed_state_mask_table_size (pd_at (upd_pd i f s) j) = allowed_state_mask_table_size (pd_at s j)" if "j < domains s" for j
    using at [OF that] assms(2-5) by auto
  have "pd_count s = domains s" using assms(1) unfolding pd_tree_def by blast
  then show "pd_tree (upd_pd i f s)"
    unfolding pd_tree_def upd_pd_sel idx using pd_treeD [OF assms(1)] same by metis
  show "children_idx (upd_pd i f s) c = children_idx s c" by (rule idx)
qed

text \<open>The domains a report lets go on: the parent when the domain has gone deeper, its children when it is shallower.\<close>

definition affected :: "'w pd_mod_ctx \<Rightarrow> nat \<Rightarrow> 32 word \<Rightarrow> nat list" where
  "affected s i state =
     (if is_deeper_state state (current_state (pd_at s i)) then (case pd_parent (pd_at s i) of None \<Rightarrow> [] | Some p \<Rightarrow> [p])
      else if is_shallower_state state (current_state (pd_at s i)) then children_idx s i else [])"

text \<open>
  The state in which the report is propagated: the domain's current state is the reported one, its
  requested state the one its driver was asked for, and otherwise the tree and the requests are those before.
\<close>

definition settled :: "nat \<Rightarrow> 32 word \<Rightarrow> 'w pd_mod_ctx \<Rightarrow> 'w pd_mod_ctx \<Rightarrow> bool" where
  "settled i state s v \<longleftrightarrow> same_tree (reported i state s) v \<and>
     map requested_state (pd_ctx_table v) = (map requested_state (pd_ctx_table s))[i := state_requested_to_driver (pd_at s i)] \<and>
     map state_requested_to_driver (pd_ctx_table v) = map state_requested_to_driver (pd_ctx_table s)"

lemma same_tree_reported:
  assumes "same_tree s t"
  shows "same_tree (reported i state s) (reported i state t)"
proof (cases "i < domains s")
  case True
  have "pd_static (p\<lparr>current_state := state\<rparr>) = (pd_static p)\<lparr>current_state := state\<rparr>" for p
    by (simp add: pd_static_def)
  then show ?thesis
    using assms same_tree_nth [OF assms True] by (simp add: same_tree_def reported_def upd_pd_def map_update)
next
  case False
  then show ?thesis using assms same_tree_domains [OF assms] by (simp add: reported_def upd_pd_def list_update_beyond)
qed

lemma settled_facts:
  assumes "settled i state s v" and "pd_tree s" and "pd_states_ok s" and "i < domains s" and "state < 32"
    and "state_requested_to_driver (pd_at s i) < MOD_PD_STATE_COUNT_MAX"
  shows "pd_tree v" "pd_states_ok v" "domains v = domains s" "children_idx v c = children_idx s c" "current_state (pd_at v i) = state"
    and "j < domains s \<Longrightarrow> pd_static (pd_at v j) = pd_static (pd_at (reported i state s) j)"
    and "j < domains s \<Longrightarrow> pd_parent (pd_at v j) = pd_parent (pd_at s j)"
    and "j < domains s \<Longrightarrow> driver_accepts env v j = driver_accepts env s j"
    and "j < domains s \<Longrightarrow> call_of v j x = call_of s j x"
    and "j < domains s \<Longrightarrow> state_requested_to_driver (pd_at v j) = state_requested_to_driver (pd_at s j)"
    and "j < domains s \<Longrightarrow> requested_state (pd_at v j) = (if j = i then state_requested_to_driver (pd_at s i) else requested_state (pd_at s j))"
proof -
  let ?r = "reported i state s"
  have st: "same_tree ?r v" using assms(1) by (simp add: settled_def)
  have dr: "domains ?r = domains s" by (simp add: reported_def)
  show d: "domains v = domains s" using same_tree_domains [OF st] dr by simp
  have at: "pd_at ?r j = (if j = i then (pd_at s i)\<lparr>current_state := state\<rparr> else pd_at s j)" for j
    using assms(4) by (simp add: reported_def upd_pd_nth)
  have tree: "pd_tree ?r" "children_idx ?r c = children_idx s c"
    unfolding reported_def by (rule upd_keeps_tree [OF assms(2)]; simp)+
  show "pd_tree v" by (rule pd_tree_same [OF st tree(1)])
  show "children_idx v c = children_idx s c" using children_idx_same [OF st] tree(2) by simp
  show static: "pd_static (pd_at v j) = pd_static (pd_at ?r j)" if "j < domains s" for j
    using same_tree_nth [OF st] that dr by simp
  show parent: "pd_parent (pd_at v j) = pd_parent (pd_at s j)" if "j < domains s" for j
    using same_tree_sel(1) [OF st, of j] that dr at [of j] by (simp split: if_splits)
  show cur: "current_state (pd_at v i) = state" using same_tree_sel(2) [OF st, of i] dr assms(4) at [of i] by simp
  have api: "pd_driver_api (pd_at v j) = pd_driver_api (pd_at s j)" "pd_config (pd_at v j) = pd_config (pd_at s j)"
      "pd_driver_id (pd_at v j) = pd_driver_id (pd_at s j)" if "j < domains s" for j
    using static [OF that] pd_static_sel(5,9) [of "pd_at v j"] pd_static_sel(5,9) [of "pd_at ?r j"] pd_static_driver [of "pd_at v j"]
      pd_static_driver [of "pd_at ?r j"] at [of j] by (simp_all split: if_splits)
  show "driver_accepts env v j = driver_accepts env s j" if "j < domains s" using api [OF that] by (simp add: driver_accepts_def)
  show "call_of v j x = call_of s j x" if "j < domains s" by (rule call_of_cong [OF d api(3,2) [OF that]])
  show "state_requested_to_driver (pd_at v j) = state_requested_to_driver (pd_at s j)" if "j < domains s" for j
    using assms(1) that d nth_map [of j "pd_ctx_table v" state_requested_to_driver] by (simp add: settled_def)
  show req: "requested_state (pd_at v j) = (if j = i then state_requested_to_driver (pd_at s i) else requested_state (pd_at s j))"
    if "j < domains s" for j
    using requests_nth [of v s i "state_requested_to_driver (pd_at s i)" j] assms(1) that d by (simp add: settled_def)
  have "current_state (pd_at v j) < 32" if "j < domains s" for j
    using same_tree_sel(2) [OF st, of j] dr that at [of j] pd_states_okD(2) [OF assms(3) that] assms(5) by (simp split: if_splits)
  then show "pd_states_ok v"
    unfolding pd_states_ok_def d using req api pd_states_okD [OF assms(3)] assms(6) by simp
qed

lemma report_notification_total:
  assumes "calls_return env" and "i < domains s" and "pd_config (pd_at s i) \<noteq> None"
  shows "report_notification env i state s \<noteq> None"
proof -
  obtain e where e: "event_put_u32 0 state
      (zeroed_event\<lparr>source_id := FWK_ID_NONE, response_requested := True, event_id := notification_id env 0\<rparr>) = Some e"
    by (auto simp: event_put_u32_def zeroed_event_def no_params_def put_u32_def)
  obtain st n' w' where "srv_notify (pd_srv env) e 0 (world s) = Some (st, n', w')"
    using calls_returnD(2) [OF assms(1)] by blast
  then show ?thesis using e assms(2,3) by (auto simp: report_notification_def notify_transition_def Let_def)
qed

lemma report_steps:
  assumes env: "calls_return env" "records_calls env asked" "unheld env s" and tree: "pd_tree s" and i: "i < domains s"
    and susp: "\<not> (last_core_off_ongoing (system_suspend s) \<and> last_core_pd (system_suspend s) = Some i)"
  shows "\<exists>v. process_power_state_transition_report env i state s = propagate_transition env i state (current_state (pd_at s i)) v \<and>
    settled i state s v \<and> unheld env v \<and> asked_of asked v = asked_of asked s"
proof -
  let ?req = "state_requested_to_driver (pd_at s i)"
  obtain s1 where d: "(if state = driver_state (pd_at s i) then send_pd_set_state_delayed_response env i FWK_SUCCESS s else Some s) = Some s1"
    using delayed_response_total [OF env(1) i] by (cases "state = driver_state (pd_at s i)") auto
  then have q: "quiet s s1" and ss1: "system_suspend s1 = system_suspend s" and un1: "unheld env s1" and a1: "asked_of asked s1 = asked_of asked s"
    using report_suspend(1) [of env i FWK_SUCCESS s s1] env(3)
    by (auto split: if_splits dest: delayed_response_quiet unheld_delayed_response delayed_response_asks_nothing [OF env(2)])
  have st1: "same_tree s s1" using q by (simp add: quiet_def)
  have d1: "domains s1 = domains s" by (rule same_tree_domains [OF st1])
  have rpd: "domains (reported i state s1) = domains s" "pd_at (reported i state s1) i = (pd_at s1 i)\<lparr>current_state := state\<rparr>"
    using d1 i by (simp_all add: reported_def upd_pd_nth)
  have c1: "pd_config (pd_at s1 i) \<noteq> None" using pd_treeD(4) [OF tree i] same_tree_sel(6) [OF st1 i] by simp
  obtain s2 where n: "report_notification env i state (reported i state s1) = Some s2"
    using report_notification_total [OF env(1), of i "reported i state s1" state] rpd c1 i by auto
  have q2: "quiet (reported i state s1) s2" by (rule report_notification_quiet [OF n])
  have un2: "unheld env s2"
    by (rule unheld_report_notification [OF n]) (unfold reported_def, rule unheld_upd [OF un1], simp add: no_pending_def)
  have a2: "asked_of asked s2 = asked_of asked s" using report_notification_asks_nothing [OF env(2) n] a1 by (simp add: reported_def)
  have d2: "domains s2 = domains s" using same_tree_domains [of "reported i state s1" s2] q2 rpd(1) by (simp add: quiet_def)
  have ss2: "system_suspend s2 = system_suspend s" using report_suspend(2) [OF n] ss1 by (simp add: reported_def)
  let ?x = "if pd_parent (pd_at s i) = None \<and> suspend_state (system_suspend s) \<noteq> MOD_PD_STATE_ON
      then (system_suspend s)\<lparr>suspend_ongoing := False\<rparr> else system_suspend s"
  define v where "v = upd_pd i (\<lambda>p. p\<lparr>requested_state := ?req, state_requested_to_driver := ?req\<rparr>) (s2\<lparr>system_suspend := ?x\<rparr>)"
  have x: "(if pd_parent (pd_at s i) = None \<and> suspend_state (system_suspend s2) \<noteq> MOD_PD_STATE_ON
      then s2\<lparr>system_suspend := (system_suspend s2)\<lparr>suspend_ongoing := False\<rparr>\<rparr> else s2) = s2\<lparr>system_suspend := ?x\<rparr>"
    using ss2 by simp
  have g: "get_pd i (s2\<lparr>system_suspend := ?x\<rparr>) = Some (pd_at s2 i)" using d2 i by (simp add: get_pd_def)
  have idle: "\<not> (has_notification (pd_build env) \<and> tn_pending_responses (transition_ntf (pd_at s2 i)) > 0)"
    using un2 d2 i nth_mem [of i "pd_ctx_table s2"] by (auto simp: unheld_def no_pending_def)
  have susp2: "\<not> (last_core_off_ongoing (system_suspend s2) \<and> last_core_pd (system_suspend s2) = Some i)" using susp ss2 by simp
  have "process_power_state_transition_report env i state s = propagate_transition env i state (current_state (pd_at s i)) v"
    unfolding process_power_state_transition_report_def Let_def get_pd_Some [OF i] bind.bind_lunit d
      reported_def [symmetric] n if_not_P [OF susp2] x g if_not_P [OF idle] v_def by (rule refl)
  moreover have "settled i state s v"
  proof -
    have "same_tree (reported i state s) s2"
      using same_tree_trans [OF same_tree_reported [OF st1]] q2 by (simp add: quiet_def)
    moreover have "same_tree s2 v"
      unfolding v_def by (rule same_tree_trans [OF same_tree_world(2) same_tree_upd]) (simp add: pd_static_def)
    moreover have "requests s2 = requests s" "driven s2 = driven s"
      using q q2 i d1 quiet_sel [OF q i] by (simp_all add: quiet_def reported_def upd_pd_def map_update list_update_same_conv)
    moreover from this(2) have "driven s2 ! i = driven s ! i" by simp
    then have "state_requested_to_driver (pd_at s2 i) = ?req" using d2 i by simp
    ultimately show ?thesis
      using same_tree_trans [of _ s2 v] i d2
      by (simp add: settled_def v_def upd_pd_def map_update list_update_same_conv)
  qed
  moreover have "unheld env v" unfolding v_def by (rule unheld_upd) (use un2 in \<open>simp_all add: no_pending_def\<close>)
  moreover have "asked_of asked v = asked_of asked s" using a2 by (simp add: v_def)
  ultimately show ?thesis by blast
qed

text \<open>
  A report lets the affected domains go on, in order and up to the first that its parent or
  children refuse: of the first \<open>n\<close> of them the drivers of those that wait are asked, and no other.
\<close>

lemma affected_other:
  assumes "pd_tree s" and "i < domains s" and "c \<in> set (affected s i state)"
  shows "c < domains s \<and> c \<noteq> i"
proof -
  consider "pd_parent (pd_at s i) = Some c" | "c < domains s" "pd_parent (pd_at s c) = Some i"
    using assms(3) by (auto simp: affected_def children_idx_mem split: if_splits option.splits)
  then show ?thesis
  proof cases
    case 1
    then show ?thesis using pd_treeD(1) [OF assms(1,2)] by auto
  next
    case 2
    then show ?thesis using pd_treeD(1) [OF assms(1) 2(1)] by auto
  qed
qed

lemma report_wakes:
  assumes env: "calls_return env" "records_calls env asked" "unheld env s" and tree: "pd_tree s" "pd_states_ok s" and i: "i < domains s"
    and susp: "\<not> (last_core_off_ongoing (system_suspend s) \<and> last_core_pd (system_suspend s) = Some i)"
    and range: "state < 32" "state_requested_to_driver (pd_at s i) < MOD_PD_STATE_COUNT_MAX"
    and acc: "\<And>c. c \<in> set (affected s i state) \<Longrightarrow> driver_accepts env s c"
  shows "\<exists>n t. process_power_state_transition_report env i state s = Some t \<and> current_state (pd_at t i) = state \<and>
    n \<le> length (affected s i state) \<and> (\<forall>c \<in> set (take n (affected s i state)). \<not> waiting t c) \<and>
    (n < length (affected s i state) \<longrightarrow> waiting t (affected s i state ! n) \<and>
       is_allowed_by_parent_and_children (affected s i state ! n) (requested_state (pd_at t (affected s i state ! n))) t = Some False) \<and>
    (\<forall>j < domains s. j \<notin> set (take n (affected s i state)) \<longrightarrow> state_requested_to_driver (pd_at t j) = state_requested_to_driver (pd_at s j)) \<and>
    (\<exists>calls. asked_of asked t = asked_of asked s @ calls \<and> map Some calls = calls_for s (take n (affected s i state)))"
proof -
  obtain v where v: "process_power_state_transition_report env i state s = propagate_transition env i state (current_state (pd_at s i)) v"
      "settled i state s v" "unheld env v" "asked_of asked v = asked_of asked s"
    using report_steps [OF env tree(1) i susp] by blast
  note fact = settled_facts [OF v(2) tree i range]
  let ?cs = "affected s i state"
  have c: "c < domains s" "c \<noteq> i" "driver_accepts env v c" if "c \<in> set ?cs" for c
    using affected_other [OF tree(1) i that] fact(8) acc [OF that] by simp_all
  have "\<exists>n t. propagate_transition env i state (current_state (pd_at s i)) v = Some t \<and> woken asked v ?cs n t"
  proof -
    consider (deeper) "is_deeper_state state (current_state (pd_at s i))"
      | (shallower) "\<not> is_deeper_state state (current_state (pd_at s i))" "is_shallower_state state (current_state (pd_at s i))"
      | (same) "\<not> is_deeper_state state (current_state (pd_at s i))" "\<not> is_shallower_state state (current_state (pd_at s i))" by blast
    then show ?thesis
    proof cases
      case deeper
      then show ?thesis
        using deeper_wakes_parent [OF env(1,2) v(3), of i] fact(1,2,3) fact(7) [OF i] i c(3)
        by (simp add: propagate_transition_def affected_def)
    next
      case shallower
      then show ?thesis
        using shallower_wakes_children [OF env(1,2) v(3), of i] fact(1,2,3) fact(4) [of i] i c(3)
        by (simp add: propagate_transition_def affected_def)
    next
      case same
      then have "propagate_transition env i state (current_state (pd_at s i)) v = Some v" "?cs = []"
        by (simp_all add: propagate_transition_def affected_def)
      then show ?thesis using woken_Nil by metis
    qed
  qed
  then obtain n t where t: "process_power_state_transition_report env i state s = Some t" and w: "woken asked v ?cs n t"
    using v(1) by auto
  have "same_tree v t" using w by (simp add: woken_def)
  then have cur: "current_state (pd_at t i) = state" using same_tree_sel(2) [of v t i] fact(3,5) i by simp
  have "calls_for v (take n ?cs) = calls_for s (take n ?cs)"
  proof -
    have same: "waiting v b = waiting s b" "call_of v b (requested_state (pd_at v b)) = call_of s b (requested_state (pd_at s b))"
      if "b \<in> set (take n ?cs)" for b
      using c(1,2) [OF in_set_takeD [OF that]] fact(9,10,11) by (simp_all add: waiting_def)
    then have "filter (waiting v) (take n ?cs) = filter (waiting s) (take n ?cs)" by (intro filter_cong) auto
    then show ?thesis using same(2) by (auto simp: calls_for_def)
  qed
  then show ?thesis using t w cur fact(3,10) v(4) by (intro exI [of _ n] exI [of _ t]) (simp add: woken_def)
qed

end
