(* ===== verification/Mod_Pd_Utils.thy ===== *)
theory Mod_Pd_Utils
  imports Mod_Pd_Tree
begin

text \<open>
  \<^verbatim>\<open>module/power_domain/src/power_domain_utils.c\<close>: the table of elements a platform builds for its
  cores, clusters and static domains, and the tree that the power domain module makes of it. An
  allocation that fails traps in \<^verbatim>\<open>fwk_mm_calloc\<close>; the tests for a null result are never true.
\<close>

section \<open>The code\<close>

definition PD_NAME_SIZE :: nat where "PD_NAME_SIZE = 25"
definition MAX_CORES_COUNT :: nat where "MAX_CORES_COUNT = 64"
definition MAX_STATIC_ELEMENTS_COUNT :: nat where "MAX_STATIC_ELEMENTS_COUNT = 32"

type_synonym pd_element = "mod_power_domain_element_config fwk_element"

definition zero_pd_config :: mod_power_domain_element_config where
  "zero_pd_config = \<lparr>cfg_parent_idx = 0, cfg_driver_id = 0, cfg_api_id = 0, cfg_pd_type = MOD_PD_TYPE_CORE,
     cfg_allowed_state_mask_table = None, cfg_composite_state_levels_mask = 0, cfg_composite_state_mask_table = None,
     cfg_composite_state_mask_table_size = 0, cfg_allowed_state_mask_table_size = 0,
     cfg_disable_state_transition_notifications = False, cfg_pd_state_mapping_table = None\<rparr>"

definition zero_element :: pd_element where
  "zero_element = \<lparr>elem_name = None, elem_sub_count = 0, elem_data = None\<rparr>"

text \<open>The parameters the cores and the clusters are configured with.\<close>

record pd_table_params =
  prm_core_count :: nat
  prm_cluster_count :: nat
  prm_driver_idx :: "32 word"
  prm_api_idx :: "32 word"
  prm_core_state_table :: "32 word list option"
  prm_core_state_table_size :: nat
  prm_cluster_state_table :: "32 word list option"
  prm_cluster_state_table_size :: nat

definition core_element :: "pd_table_params \<Rightarrow> nat \<Rightarrow> nat \<Rightarrow> nat \<Rightarrow> pd_element" where
  "core_element p cluster_idx core_idx counter =
     \<lparr>elem_name = Some (take (PD_NAME_SIZE - 1) (''CLUS'' @ dec_digits cluster_idx @ ''CORE'' @ dec_digits core_idx)),
      elem_sub_count = 0,
      elem_data = Some (zero_pd_config\<lparr>cfg_parent_idx := of_nat (cluster_idx + prm_core_count p),
        cfg_driver_id := FWK_ID_ELEMENT (prm_driver_idx p) (of_nat counter), cfg_api_id := FWK_ID_API (prm_driver_idx p) (prm_api_idx p),
        cfg_pd_type := MOD_PD_TYPE_CORE, cfg_allowed_state_mask_table := prm_core_state_table p,
        cfg_allowed_state_mask_table_size := prm_core_state_table_size p\<rparr>)\<rparr>"

definition cluster_element :: "pd_table_params \<Rightarrow> nat \<Rightarrow> pd_element" where
  "cluster_element p cluster_idx =
     \<lparr>elem_name = Some (take (PD_NAME_SIZE - 1) (''CLUS'' @ dec_digits cluster_idx)),
      elem_sub_count = 0,
      elem_data = Some (zero_pd_config\<lparr>cfg_driver_id := FWK_ID_ELEMENT (prm_driver_idx p) (of_nat (cluster_idx + prm_core_count p)),
        cfg_api_id := FWK_ID_API (prm_driver_idx p) (prm_api_idx p), cfg_pd_type := MOD_PD_TYPE_CLUSTER,
        cfg_allowed_state_mask_table := prm_cluster_state_table p, cfg_allowed_state_mask_table_size := prm_cluster_state_table_size p\<rparr>)\<rparr>"

definition put_element :: "nat \<Rightarrow> pd_element \<Rightarrow> pd_element list \<Rightarrow> pd_element list option" where
  "put_element i e t = (if i < length t then Some (t[i := e]) else None)"

definition create_core :: "pd_table_params \<Rightarrow> nat \<Rightarrow> nat \<Rightarrow> pd_element list \<times> nat \<Rightarrow> (pd_element list \<times> nat) option" where
  "create_core p cluster_idx core_idx = (\<lambda>(t, counter).
     do { t \<leftarrow> put_element counter (core_element p cluster_idx core_idx counter) t; Some (t, Suc counter) })"

definition create_cluster :: "pd_table_params \<Rightarrow> nat \<Rightarrow> nat \<Rightarrow> pd_element list \<times> nat \<Rightarrow> (pd_element list \<times> nat) option" where
  "create_cluster p cores_per_cluster cluster_idx st =
     do {
       (t, counter) \<leftarrow> foldM (create_core p cluster_idx) [0..<cores_per_cluster] st;
       t \<leftarrow> put_element (cluster_idx + prm_core_count p) (cluster_element p cluster_idx) t;
       Some (t, counter)
     }"

definition create_core_cluster_pd_element_table :: "pd_table_params \<Rightarrow> pd_element list \<Rightarrow> (int \<times> pd_element list) option" where
  "create_core_cluster_pd_element_table p t =
     (if prm_cluster_count p = 0 then Some (FWK_E_PARAM, t)
      else do {
        (t, _) \<leftarrow> foldM (create_cluster p (prm_core_count p div prm_cluster_count p)) [0..<prm_cluster_count p] (t, 0);
        Some (FWK_SUCCESS, t)
      })"

definition set_systop_parent :: "nat \<Rightarrow> nat \<Rightarrow> pd_element list \<Rightarrow> pd_element list option" where
  "set_systop_parent systop_idx element_idx t =
     (if element_idx < length t
      then do { c \<leftarrow> elem_data (t ! element_idx); Some (t[element_idx := (t ! element_idx)\<lparr>elem_data := Some (c\<lparr>cfg_parent_idx := of_nat systop_idx\<rparr>)\<rparr>]) }
      else None)"

text \<open>
  The remainder is taken before the number of clusters is tested for zero. \<open>Some None\<close> is the null
  result.
\<close>

definition create_power_domain_element_table :: "pd_table_params \<Rightarrow> pd_element list \<Rightarrow> nat \<Rightarrow> pd_element list option option" where
  "create_power_domain_element_table p static_table static_table_size =
     (if prm_cluster_count p = 0 then None
      else if prm_core_count p mod prm_cluster_count p \<noteq> 0 \<or> prm_core_count p > MAX_CORES_COUNT \<or>
        static_table_size > MAX_STATIC_ELEMENTS_COUNT
      then Some None
      else do {
        let n = prm_core_count p + prm_cluster_count p;
        (status, t) \<leftarrow> create_core_cluster_pd_element_table p (replicate (n + static_table_size + 1) zero_element);
        if status \<noteq> FWK_SUCCESS then Some None
        else if static_table_size > length static_table then None
        else do {
          let t = take n t @ take static_table_size static_table @ drop (n + static_table_size) t;
          let systop_idx = n + static_table_size - 1;
          t \<leftarrow> foldM (set_systop_parent systop_idx) [prm_core_count p..<systop_idx] t;
          Some (Some t)
        }
      })"

section \<open>The table\<close>

text \<open>The core at index \<open>n\<close> of the table.\<close>

abbreviation core_at :: "pd_table_params \<Rightarrow> nat \<Rightarrow> nat \<Rightarrow> pd_element" where
  "core_at p per n \<equiv> core_element p (n div per) (n mod per) n"

definition filled :: "pd_table_params \<Rightarrow> nat \<Rightarrow> pd_element list \<Rightarrow> nat \<Rightarrow> nat \<Rightarrow> pd_element list \<Rightarrow> bool" where
  "filled p per t0 cores clusters t \<longleftrightarrow> length t = length t0 \<and>
     (\<forall>i < length t0. t ! i =
        (if i < cores then core_at p per i
         else if prm_core_count p \<le> i \<and> i < prm_core_count p + clusters then cluster_element p (i - prm_core_count p)
         else t0 ! i))"

lemma create_core_ok:
  assumes "filled p per t0 (k * per + m) clusters t" and "m < per" and "k * per + m < prm_core_count p" and "prm_core_count p \<le> length t0"
  shows "\<exists>u. create_core p k m (t, k * per + m) = Some (u, k * per + Suc m) \<and> filled p per t0 (k * per + Suc m) clusters u"
proof -
  have "core_at p per (k * per + m) = core_element p k m (k * per + m)" using assms(2) by simp
  then show ?thesis using assms by (auto simp: create_core_def put_element_def filled_def nth_list_update less_Suc_eq)
qed

lemma create_cores_ok:
  assumes "filled p per t0 (k * per) clusters t" and "Suc k * per \<le> prm_core_count p" and "prm_core_count p \<le> length t0"
  shows "\<exists>u. foldM (create_core p k) [0..<per] (t, k * per) = Some (u, Suc k * per) \<and> filled p per t0 (Suc k * per) clusters u"
proof -
  have "\<exists>v. foldM (create_core p k) [0..<per] (t, k * per) = Some v \<and> snd v = k * per + per \<and> filled p per t0 (k * per + per) clusters (fst v)"
  proof (rule foldM_upt_ok [where P = "\<lambda>m v. snd v = k * per + m \<and> filled p per t0 (k * per + m) clusters (fst v)"])
    fix m v assume "m < per" "snd v = k * per + m \<and> filled p per t0 (k * per + m) clusters (fst v)"
    then show "\<exists>w. create_core p k m v = Some w \<and> snd w = k * per + Suc m \<and> filled p per t0 (k * per + Suc m) clusters (fst w)"
      using create_core_ok [of p per t0 k m clusters "fst v"] assms(2,3) by (cases v) fastforce
  qed (use assms(1) in simp)
  then show ?thesis by (auto simp: add.commute)
qed

lemma create_cluster_ok:
  assumes "filled p per t0 (k * per) k t" and "Suc k * per \<le> prm_core_count p" and "prm_core_count p + k < length t0"
  shows "\<exists>u. create_cluster p per k (t, k * per) = Some (u, Suc k * per) \<and> filled p per t0 (Suc k * per) (Suc k) u"
proof -
  obtain u where u: "foldM (create_core p k) [0..<per] (t, k * per) = Some (u, Suc k * per)" "filled p per t0 (Suc k * per) k u"
    using create_cores_ok [OF assms(1,2)] assms(3) by auto
  let ?v = "u[k + prm_core_count p := cluster_element p k]"
  have l: "length u = length t0" using u(2) by (simp add: filled_def)
  have "?v ! i = (if i < Suc k * per then core_at p per i
         else if prm_core_count p \<le> i \<and> i < prm_core_count p + Suc k then cluster_element p (i - prm_core_count p) else t0 ! i)"
    if "i < length t0" for i
    using u(2) that assms(2,3) l by (cases "i = k + prm_core_count p") (auto simp: filled_def)
  then have "filled p per t0 (Suc k * per) (Suc k) ?v" using l by (simp add: filled_def)
  then show ?thesis using u(1) l assms(3) by (simp add: create_cluster_def put_element_def add.commute)
qed

lemma create_core_cluster_ok:
  assumes "0 < prm_cluster_count p" and "prm_core_count p = per * prm_cluster_count p" and "prm_core_count p + prm_cluster_count p \<le> length t0"
  shows "\<exists>u. create_core_cluster_pd_element_table p t0 = Some (FWK_SUCCESS, u) \<and> filled p per t0 (prm_core_count p) (prm_cluster_count p) u"
proof -
  have "\<exists>v. foldM (create_cluster p per) [0..<prm_cluster_count p] (t0, 0) = Some v \<and>
      snd v = prm_cluster_count p * per \<and> filled p per t0 (prm_cluster_count p * per) (prm_cluster_count p) (fst v)"
  proof (rule foldM_upt_ok [where P = "\<lambda>k v. snd v = k * per \<and> filled p per t0 (k * per) k (fst v)"])
    fix k v assume k: "k < prm_cluster_count p" and v: "snd v = k * per \<and> filled p per t0 (k * per) k (fst v)"
    have "Suc k * per \<le> prm_core_count p" using k assms(2) by (metis Suc_leI mult.commute mult_le_mono2)
    then show "\<exists>w. create_cluster p per k v = Some w \<and> snd w = Suc k * per \<and> filled p per t0 (Suc k * per) (Suc k) (fst w)"
      using create_cluster_ok [of p per t0 k "fst v"] v k assms(3) by (cases v) fastforce
  qed (auto simp: filled_def)
  moreover have "prm_core_count p div prm_cluster_count p = per" using assms(1,2) by simp
  ultimately show ?thesis using assms(1,2) by (auto simp: create_core_cluster_pd_element_table_def mult.commute)
qed


text \<open>What the table holds at each index: the cores, the clusters and static domains below the system domain, that domain, the terminator.\<close>

definition table_element :: "pd_table_params \<Rightarrow> nat \<Rightarrow> pd_element list \<Rightarrow> nat \<Rightarrow> pd_element" where
  "table_element p per static i =
     (if i < prm_core_count p then core_at p per i
      else if i < prm_core_count p + prm_cluster_count p then cluster_element p (i - prm_core_count p)
      else if i < prm_core_count p + prm_cluster_count p + length static then static ! (i - prm_core_count p - prm_cluster_count p)
      else zero_element)"

definition below_systop :: "nat \<Rightarrow> pd_element \<Rightarrow> pd_element" where
  "below_systop n e = e\<lparr>elem_data := map_option (\<lambda>c. c\<lparr>cfg_parent_idx := of_nat n\<rparr>) (elem_data e)\<rparr>"

lemma set_parents_ok:
  assumes "\<And>i. a \<le> i \<Longrightarrow> i < n \<Longrightarrow> elem_data (t ! i) \<noteq> None" and "a \<le> n" and "n \<le> length t"
  shows "\<exists>u. foldM (set_systop_parent n) [a..<n] t = Some u \<and> length u = length t \<and>
    (\<forall>i < length t. u ! i = (if a \<le> i \<and> i < n then below_systop n (t ! i) else t ! i))"
proof -
  have step: "\<exists>w. set_systop_parent n (a + k) v = Some w \<and> length w = length t \<and>
        (\<forall>i < length t. w ! i = (if a \<le> i \<and> i < a + Suc k then below_systop n (t ! i) else t ! i))"
    if lt: "a + k < n" "length v = length t" "\<forall>i < length t. v ! i = (if a \<le> i \<and> i < a + k then below_systop n (t ! i) else t ! i)" for k v
  proof -
    obtain c where "elem_data (t ! (a + k)) = Some c" using assms(1) [of "a + k"] lt(1) by (cases "elem_data (t ! (a + k))") auto
    then show ?thesis
      using lt assms(3) by (auto simp: set_systop_parent_def nth_list_update below_systop_def less_Suc_eq)
  qed
  have "foldM (set_systop_parent n) [a..<n] t = foldM (\<lambda>k. set_systop_parent n (a + k)) [0..<n - a] t"
  proof -
    have "[a..<n] = map ((+) a) [0..<n - a]" using assms(2) by (intro nth_equalityI) simp_all
    moreover have "foldM f (map g xs) v = foldM (\<lambda>k. f (g k)) xs v" for f :: "nat \<Rightarrow> pd_element list \<Rightarrow> pd_element list option" and g :: "nat \<Rightarrow> nat" and xs v
      by (induction xs arbitrary: v) (simp_all cong: Option.bind_cong)
    ultimately show ?thesis by simp
  qed
  moreover have "\<exists>u. foldM (\<lambda>k. set_systop_parent n (a + k)) [0..<n - a] t = Some u \<and> (length u = length t \<and>
        (\<forall>i < length t. u ! i = (if a \<le> i \<and> i < a + (n - a) then below_systop n (t ! i) else t ! i)))"
    by (rule foldM_upt_ok [where P = "\<lambda>k v. length v = length t \<and>
        (\<forall>i < length t. v ! i = (if a \<le> i \<and> i < a + k then below_systop n (t ! i) else t ! i))"]) (use step in auto)
  ultimately show ?thesis using assms(2) by auto
qed

lemma create_table_ok:
  assumes "0 < prm_cluster_count p" and "prm_core_count p = per * prm_cluster_count p" and "prm_core_count p \<le> 64"
    and "length static \<le> 32" and "\<And>e. e \<in> set static \<Longrightarrow> elem_data e \<noteq> None"
    and n: "n = prm_core_count p + prm_cluster_count p + length static - 1"
  shows "\<exists>t. create_power_domain_element_table p static (length static) = Some (Some t) \<and> length t = n + 2 \<and>
    (\<forall>i < n + 2. t ! i = (if prm_core_count p \<le> i \<and> i < n then below_systop n (table_element p per static i) else table_element p per static i))"
proof -
  let ?c = "prm_core_count p + prm_cluster_count p"
  let ?t0 = "replicate (?c + length static + 1) zero_element"
  obtain u where u: "create_core_cluster_pd_element_table p ?t0 = Some (FWK_SUCCESS, u)"
      "filled p per ?t0 (prm_core_count p) (prm_cluster_count p) u"
    using create_core_cluster_ok [OF assms(1,2), of ?t0] by auto
  let ?t = "take ?c u @ take (length static) static @ drop (?c + length static) u"
  have l: "length u = ?c + length static + 1" using u(2) by (simp add: filled_def)
  have len: "length ?t = n + 2" using l n assms(1) by simp
  have at: "?t ! i = table_element p per static i" if "i < n + 2" for i
    using u(2) that n l assms(1) by (auto simp: filled_def table_element_def nth_append)
  have some: "elem_data (?t ! i) \<noteq> None" if "prm_core_count p \<le> i" "i < n" for i
  proof -
    have "elem_data (static ! (i - prm_core_count p - prm_cluster_count p)) \<noteq> None" if "?c \<le> i" "i < n"
      by (rule assms(5)) (use that n in auto)
    then show ?thesis using that at [of i] n by (auto simp: table_element_def cluster_element_def)
  qed
  have "\<exists>v. foldM (set_systop_parent n) [prm_core_count p..<n] ?t = Some v \<and> length v = length ?t \<and>
      (\<forall>i < length ?t. v ! i = (if prm_core_count p \<le> i \<and> i < n then below_systop n (?t ! i) else ?t ! i))"
    by (rule set_parents_ok [OF some]) (use len n assms(1) in simp_all)
  then obtain v where v: "foldM (set_systop_parent n) [prm_core_count p..<n] ?t = Some v" "length v = n + 2"
      "\<forall>i < n + 2. v ! i = (if prm_core_count p \<le> i \<and> i < n then below_systop n (?t ! i) else ?t ! i)"
    unfolding len by blast
  have "create_power_domain_element_table p static (length static) = Some (Some v)"
    using assms(1-4) u(1) v(1) n by (simp add: create_power_domain_element_table_def MAX_CORES_COUNT_def MAX_STATIC_ELEMENTS_COUNT_def)
  moreover have "\<forall>i < n + 2. v ! i = (if prm_core_count p \<le> i \<and> i < n then below_systop n (table_element p per static i) else table_element p per static i)"
    using v(3) at by auto
  ultimately show ?thesis using v(2) by blast
qed

section \<open>The tree the module makes of it\<close>

text \<open>The parent of domain \<open>i\<close> of a platform with \<open>per\<close> cores in a cluster.\<close>

definition platform_parent :: "pd_table_params \<Rightarrow> nat \<Rightarrow> nat \<Rightarrow> nat \<Rightarrow> nat option" where
  "platform_parent p per n i =
     (if i < prm_core_count p then Some (prm_core_count p + i div per) else if i < n then Some n else None)"

text \<open>The contexts hold the configurations of the table, terminator excluded.\<close>

definition configured_by :: "pd_element list \<Rightarrow> 'w pd_mod_ctx \<Rightarrow> bool" where
  "configured_by t s \<longleftrightarrow> domains s = length t - 1 \<and> (\<forall>i < domains s. pd_config (pd_at s i) = elem_data (t ! i))"

lemma platform_tree:
  assumes "0 < prm_cluster_count p" and "prm_core_count p = per * prm_cluster_count p" and "prm_core_count p \<le> 64" and "0 < prm_core_count p"
    and "length static \<le> 32" and "\<And>e. e \<in> set static \<Longrightarrow> elem_data e \<noteq> None" and "static \<noteq> []"
    and n: "n = prm_core_count p + prm_cluster_count p + length static - 1"
    and root: "\<And>c. elem_data (last static) = Some c \<Longrightarrow> n < unat (cfg_parent_idx c)"
  shows "\<exists>t. create_power_domain_element_table p static (length static) = Some (Some t) \<and>
    (\<forall>s :: 'w pd_mod_ctx. pd_unconnected s \<and> configured_by t s \<and>
        (\<forall>i < domains s. allowed_state_mask_table_size (pd_at s i) \<le> length (allowed_state_mask_table (pd_at s i))) \<longrightarrow>
       (\<exists>u. connect_pd_tree env s = Some (FWK_SUCCESS, u) \<and> pd_tree u \<and> (\<forall>i < domains u. pd_parent (pd_at u i) = platform_parent p per n i)))"
proof -
  obtain t where t: "create_power_domain_element_table p static (length static) = Some (Some t)" "length t = n + 2"
      "\<forall>i < n + 2. t ! i = (if prm_core_count p \<le> i \<and> i < n then below_systop n (table_element p per static i) else table_element p per static i)"
    using create_table_ok [OF assms(1-3,5,6) n] by blast
  have "prm_cluster_count p \<le> prm_core_count p" using assms(2,4) by simp
  then have n160: "n < 160" using n assms(3,5) by simp
  have w: "unat (of_nat m :: 32 word) = m" if "m < 160" for m using that by (simp add: unat_of_nat take_bit_nat_eq_self)
  have parent: "(case elem_data (t ! i) of None \<Rightarrow> None | Some c \<Rightarrow> if unat (cfg_parent_idx c) < n + 1 then Some (unat (cfg_parent_idx c)) else None) =
      platform_parent p per n i" if ilt: "i < n + 1" for i
  proof -
    consider (core) "i < prm_core_count p" | (mid) "prm_core_count p \<le> i" "i < n" | (root) "i = n" using ilt by linarith
    then show ?thesis
    proof cases
      case core
      then have q: "i div per < prm_cluster_count p" using assms(2) by (simp add: less_mult_imp_div_less mult.commute)
      have "t ! i = core_at p per i" using t(3) core n by (simp add: table_element_def)
      moreover have "i div per + prm_core_count p < n + 1" using q n assms(7) by simp
      ultimately show ?thesis using core w [of "i div per + prm_core_count p"] n160
        by (simp add: platform_parent_def core_element_def add.commute del: of_nat_add)
    next
      case mid
      have "elem_data (table_element p per static i) \<noteq> None"
      proof -
        have "elem_data (static ! (i - prm_core_count p - prm_cluster_count p)) \<noteq> None" if "prm_core_count p + prm_cluster_count p \<le> i"
          by (rule assms(6)) (use that mid n in auto)
        then show ?thesis using mid n by (auto simp: table_element_def cluster_element_def)
      qed
      then show ?thesis using t(3) mid w [OF n160] by (auto simp: platform_parent_def below_systop_def)
    next
      case root
      have "table_element p per static n = last static"
      proof -
        obtain k where k: "length static = Suc k" using assms(7) by (cases static) auto
        then have "n = prm_core_count p + prm_cluster_count p + k" using n by simp
        then show ?thesis using k assms(7) by (simp add: table_element_def last_conv_nth)
      qed
      moreover obtain c where "elem_data (last static) = Some c" using assms(6) [of "last static"] assms(7) by auto
      moreover have "prm_core_count p \<le> n" using n assms(7) by (cases static) auto
      ultimately show ?thesis using t(3) root assms(9) [of c] by (auto simp: platform_parent_def)
    qed
  qed
  have "\<exists>u. connect_pd_tree env s = Some (FWK_SUCCESS, u) \<and> pd_tree u \<and> (\<forall>i < domains u. pd_parent (pd_at u i) = platform_parent p per n i)"
    if s: "pd_unconnected s" "configured_by t s"
      "\<forall>i < domains s. allowed_state_mask_table_size (pd_at s i) \<le> length (allowed_state_mask_table (pd_at s i))" for s :: "'w pd_mod_ctx"
  proof -
    have d: "domains s = n + 1" "pd_count s = n + 1" using s(1,2) t(2) by (simp_all add: configured_by_def pd_unconnected_def)
    have po: "parent_of s i = platform_parent p per n i" if "i < domains s" for i
    proof -
      have "pd_config (pd_at s i) = elem_data (t ! i)" "i < n + 1" using that s(2) d(1) by (simp_all add: configured_by_def)
      then show ?thesis using parent [of i] unfolding parent_of_def d(2) by simp
    qed
    obtain u where u: "connect_pd_tree env s = Some (FWK_SUCCESS, u)" "connected_to s (domains s) u"
      using connect_pd_tree_ok [OF s(1)] by blast
    have "i < q" if "i < domains s" "parent_of s i = Some q" for i q
      using that po [OF that(1)] by (auto simp: platform_parent_def split: if_splits)
    then have "pd_tree u" using connected_pd_tree [OF u(2) s(1)] s(3) by blast
    moreover have "\<forall>i < domains u. pd_parent (pd_at u i) = platform_parent p per n i"
      using u(2) po by (simp add: connected_to_def)
    ultimately show ?thesis using u(1) by blast
  qed
  then show ?thesis using t(1) by blast
qed

end
