(* ===== verification/Fwk_Framework.thy ===== *)
theory Fwk_Framework
  imports Fwk_Notification Fwk_Services
begin

text \<open>
  The calls of \<open>Fwk_Services\<close>, filled with the models of the framework: a module's operations then
  run on the framework's own state. The framework's calls return the caller's event only where they
  change it.
\<close>

definition framework :: "('d, 'z) ntf_image \<Rightarrow> ('d, 'z) notification_ctx_scheme fwk_services" where
  "framework im =
     \<lparr>srv_put_event = (\<lambda>e w. do {
        (status, ev, w) \<leftarrow> fwk_put_event im (Some e) w;
        (case ev of Some (STD e) \<Rightarrow> Some (status, e, w) | _ \<Rightarrow> None)
      }),
      srv_put_event_light = (\<lambda>e w. do { (status, ev, w) \<leftarrow> fwk_put_event_light im (Some e) w; Some (status, w) }),
      srv_notify = (\<lambda>e n w. do {
        (status, ev, n, w) \<leftarrow> fwk_notification_notify im (Some e) (Some n) w;
        n \<leftarrow> n;
        Some (status, n, w)
      }),
      srv_subscribe = fwk_notification_subscribe im,
      srv_get_delayed_response = (\<lambda>i c e w. do { (status, e) \<leftarrow> fwk_get_delayed_response im i c (Some e) w; e \<leftarrow> e; Some (status, e) }),
      srv_is_valid_element_id = fwk_module_is_valid_element_id im,
      srv_bind = (\<lambda>i api w. do { (status, p, w) \<leftarrow> fwk_module_bind im i api (Some None) w; p \<leftarrow> p; Some (status, p, w) }),
      srv_calloc = fwk_mm_calloc im\<rparr>"

text \<open>Posting through the record: an event from thread context goes to the tail of the event queue.\<close>

lemma framework_put_event:
  assumes "event_pool im n w Q held" and "Q FreeEventQ = i # fs" and "i \<notin> held" and "\<not> in_isr w" and "\<not> mode_debug (image_build im)"
    and "event_source im (source_id e) w = Some (Some sid)" and "\<not> is_delayed_response e"
  shows "\<exists>h. srv_put_event (framework im) e w =
      Some (FWK_SUCCESS, e\<lparr>source_id := sid, cookie := event_cookie_counter w\<rparr>, posted (STD (e\<lparr>source_id := sid\<rparr>)) i h w) \<and>
    event_pool im n (posted (STD (e\<lparr>source_id := sid\<rparr>)) i h w) (Q(FreeEventQ := fs, EventQ := Q EventQ @ [i])) held"
proof -
  have "\<not> delayed_put (STD (e\<lparr>source_id := sid\<rparr>))" using assms(7) by (simp add: delayed_put_def)
  from put_event_new [OF assms(1) this assms(2,3), of NOT_INTERRUPT_STATE] show ?thesis
    using assms(4-6) by (auto simp: framework_def fwk_put_event_def put_queue_def stamped_def)
qed

end
