(* ===== verification/Mod_Pd_Props.thy ===== *)
theory Mod_Pd_Props
  imports Mod_Pd_Report Mod_Pd_Utils Fwk_Framework
begin

text \<open>
  The properties of the power domain module, with an example platform that shows their hypotheses
  to be satisfiable: two cores below a system domain, whose drivers record the calls they get.
\<close>

section \<open>An example platform\<close>

definition pdx_build :: build where
  "pdx_build = \<lparr>strict_checks = True, mode_debug = False, marked_list = False, has_notification = False\<rparr>"

text \<open>The world of the example is the log of the states the drivers were asked for.\<close>

type_synonym pdx_world = "(fwk_id \<times> 32 word) list"

definition pdx_services :: "pdx_world fwk_services" where
  "pdx_services = \<lparr>srv_put_event = (\<lambda>e w. Some (FWK_SUCCESS, e, w)), srv_put_event_light = (\<lambda>e w. Some (FWK_SUCCESS, w)),
     srv_notify = (\<lambda>e n w. Some (FWK_SUCCESS, 0, w)), srv_subscribe = (\<lambda>n src tgt w. Some (FWK_SUCCESS, w)),
     srv_get_delayed_response = (\<lambda>i c e w. Some (FWK_SUCCESS, zeroed_event)), srv_is_valid_element_id = (\<lambda>i w. Some True),
     srv_bind = (\<lambda>i a w. Some (FWK_SUCCESS, Some 0, w)), srv_calloc = (\<lambda>n w. Some w)\<rparr>"

definition pdx_driver :: "pdx_world pd_driver" where
  "pdx_driver = \<lparr>pd_set_state_fn = Some (\<lambda>i st w. Some (FWK_SUCCESS, w @ [(i, st)])), pd_get_state_fn = Some (\<lambda>i w. Some ((FWK_SUCCESS, 0), w)),
     pd_reset_fn = Some (\<lambda>i w. Some (FWK_SUCCESS, w)), pd_deny_fn = None, pd_prepare_core_fn = None, pd_shutdown_fn = None\<rparr>"

definition pdx_env :: "pdx_world pd_env" where
  "pdx_env = \<lparr>pd_build = pdx_build, pd_srv = pdx_services, pd_drivers = (\<lambda>_. pdx_driver), pd_module_idx = 1, pd_public_api = 0,
     pd_restricted_api = 1, pd_driver_input_api = 2\<rparr>"

definition pdx_core :: "nat \<Rightarrow> 32 word \<Rightarrow> 32 word \<Rightarrow> 32 word \<Rightarrow> pd_ctx" where
  "pdx_core k req drv cur = zero_pd\<lparr>pd_id := FWK_ID_ELEMENT 1 (of_nat k), pd_driver_api := Some 0, pd_driver_id := FWK_ID_ELEMENT 2 (of_nat k),
     pd_config := Some (zero_pd_config\<lparr>cfg_parent_idx := 2, cfg_pd_type := MOD_PD_TYPE_CORE\<rparr>),
     valid_state_mask := 3, allowed_state_mask_table := [1, 3], allowed_state_mask_table_size := 2,
     cs_support := True, composite_state_mask_table := core_composite_state_mask_table, composite_state_mask_table_size := 4,
     composite_state_levels_mask := push_bit MOD_PD_CS_LEVEL_SHIFT MOD_PD_CS_STATE_MASK, pd_parent := Some 2,
     requested_state := req, state_requested_to_driver := drv, current_state := cur, driver_state := drv\<rparr>"

definition pdx_system :: "32 word \<Rightarrow> 32 word \<Rightarrow> 32 word \<Rightarrow> pd_ctx" where
  "pdx_system req drv cur = zero_pd\<lparr>pd_id := FWK_ID_ELEMENT 1 2, pd_driver_api := Some 0, pd_driver_id := FWK_ID_ELEMENT 2 2,
     pd_config := Some (zero_pd_config\<lparr>cfg_parent_idx := 99, cfg_pd_type := MOD_PD_TYPE_SYSTEM\<rparr>),
     valid_state_mask := 3, allowed_state_mask_table := [3], allowed_state_mask_table_size := 1,
     requested_state := req, state_requested_to_driver := drv, current_state := cur, driver_state := drv\<rparr>"

definition pdx_heap :: "pd_addr list_heap" where
  "pdx_heap = \<lparr>next_of = (\<lambda>a. case a of Children i \<Rightarrow> Some (if i = 2 then ChildNode 0 else Children i)
       | ChildNode i \<Rightarrow> if i = 0 then Some (ChildNode 1) else if i = 1 then Some (Children 2) else None),
     prev_of = (\<lambda>a. case a of Children i \<Rightarrow> Some (if i = 2 then ChildNode 1 else Children i) | ChildNode i \<Rightarrow> None),
     marks_of = (\<lambda>_. \<lparr>current_count = 0, max_count = 0\<rparr>)\<rparr>"

definition pdx_state :: "pd_ctx list \<Rightarrow> 'w \<Rightarrow> 'w pd_mod_ctx" where
  "pdx_state table w = \<lparr>pd_module_config = None, pd_ctx_table = table, pd_count = 3, system_pd_ctx = 2,
     system_suspend = \<lparr>last_core_off_ongoing = False, suspend_ongoing = False, last_core_pd = None, suspend_state = 0\<rparr>,
     system_shutdown = \<lparr>shutdown_ongoing = False, shutdown_notifications_count = 0, shutdown_type = 0, is_response_requested = False,
       shutdown_is_delayed_response = False, shutdown_cookie = 0, shutdown_response_event = None\<rparr>,
     suspend_notifications_count = 0, pd_heap = pdx_heap, world = w\<rparr>"

text \<open>Everything off, and a request that would turn on core 0 and the system.\<close>

definition pdx_off :: "pdx_world pd_mod_ctx" where
  "pdx_off = pdx_state [pdx_core 0 0 0 0, pdx_core 1 0 0 0, pdx_system 0 0 0] []"

definition pdx_request :: fwk_event where
  "pdx_request = zeroed_event\<lparr>params := 17 # 0 # 1 # replicate 13 0\<rparr>"

lemmas pdx_defs = pdx_env_def pdx_build_def pdx_services_def pdx_driver_def pdx_core_def pdx_system_def pdx_state_def zero_pd_def zero_pd_config_def

lemma less_3: "(i::nat) < 3 \<longleftrightarrow> i = 0 \<or> i = 1 \<or> i = 2" by auto

lemma pdx_state_sel [simp]:
  "domains (pdx_state [x, y, z] w) = 3" "pd_at (pdx_state [x, y, z] w) 0 = x" "pd_at (pdx_state [x, y, z] w) 1 = y"
  "pd_at (pdx_state [x, y, z] w) (Suc 0) = y" "pd_at (pdx_state [x, y, z] w) 2 = z" "pd_count (pdx_state [x, y, z] w) = 3"
  "pd_heap (pdx_state [x, y, z] w) = pdx_heap" "world (pdx_state [x, y, z] w) = w"
  by (simp_all add: pdx_state_def)

lemma upt_3: "[0..<3] = [0, Suc 0, 2::nat]"
  by (simp add: upt_rec)

lemma pdx_all: "(\<forall>i < 3. P i) \<longleftrightarrow> P 0 \<and> P 1 \<and> P (2::nat)"
  by (auto simp: less_3)

lemma pdx_tree: "pd_tree (pdx_state [pdx_core 0 a b c, pdx_core 1 a' b' c', pdx_system d e f] w)" (is "pd_tree ?s")
proof -
  have idx: "children_idx ?s i = (if i = 2 then [0, 1] else [])" for i
    by (auto simp: children_idx_def upt_3 pdx_core_def pdx_system_def zero_pd_def)
  have "slist_rep pdx_heap (Children i) (map ChildNode (children_idx ?s i))" for i
    unfolding idx slist_rep_def pdx_heap_def by auto
  then show ?thesis by (simp add: pd_tree_def pdx_all pdx_core_def pdx_system_def zero_pd_def)
qed

lemma pdx_calls_return: "calls_return pdx_env"
  by (simp add: calls_return_def pdx_defs zeroed_event_def no_params_def)

lemma pdx_states_ok:
  "a < 16 \<Longrightarrow> c < 32 \<Longrightarrow> a' < 16 \<Longrightarrow> c' < 32 \<Longrightarrow> d < 16 \<Longrightarrow> f < 32 \<Longrightarrow>
     pd_states_ok (pdx_state [pdx_core 0 a b c, pdx_core 1 a' b' c', pdx_system d e f] w)"
  by (simp add: pd_states_ok_def pdx_all pdx_core_def pdx_system_def zero_pd_def zero_pd_config_def pd_states)

lemma pdx_request_state: "get_u32 0 (params pdx_request) = Some 0x10011"
  by (simp add: get_u32_def pdx_request_def zeroed_event_def no_params_def)

lemma pdx_shifts: "number_of_bits_to_shift 15 = 0" "number_of_bits_to_shift 240 = 4" "number_of_bits_to_shift 3840 = 8"
    "number_of_bits_to_shift 61440 = 12" "number_of_bits_to_shift 983040 = 16"
  by (simp_all add: number_of_bits_to_shift.simps)

lemma pdx_table: "core_composite_state_mask_table = [15, 240, 3840, 61440]" "push_bit MOD_PD_CS_LEVEL_SHIFT MOD_PD_CS_STATE_MASK = 983040"
  by (simp_all add: core_composite_state_mask_table_def pd_states upt_rec)

lemma pdx_valid: "valid_request 0 0x10011 pdx_off"
  by (simp add: valid_request_def pdx_off_def is_valid_composite_state_def get_highest_level_from_composite_state_def get_pd_def
      get_level_state_from_composite_state_def pdx_defs pdx_table pdx_shifts Let_def is_valid_state_def is_allowed_by_child_def state_bit_def pd_states upt_rec)


lemma pdx_requests_ok: "d = 0 \<or> d = 1 \<Longrightarrow> requests_ok (pdx_state [pdx_core 0 0 b c, pdx_core 1 0 b' c', pdx_system d e f] w)"
  by (auto simp: requests_ok_def less_3 pdx_core_def pdx_system_def zero_pd_def is_allowed_by_child_def state_bit_def)

section \<open>Properties\<close>

text \<open>C23. A request that passed the checks of \<^verbatim>\<open>pd_set_state\<close> is processed to the end:
  \<^verbatim>\<open>process_set_state_request\<close> returns, whatever the statuses its drivers and the framework return.
  No table is read past its end, no null parent or driver is followed and no state is shifted out
  of range, on a tree of domains whose states are in range and in an environment whose calls return.\<close>

theorem accepted_request_completes:
  assumes "calls_return env" and "pd_tree s" and "pd_states_ok s" and "valid_request i cs s"
    and "get_u32 0 (params event) = Some cs" and "8 \<le> length (params resp)"
  shows "\<exists>resp' t. process_set_state_request env i event resp s = Some (resp', t)"
  using set_state_request_total [OF assms] by auto

theorem accepted_request_completes_witness:
  "\<exists>resp' t. process_set_state_request pdx_env 0 pdx_request zeroed_event pdx_off = Some (resp', t)"
proof (rule accepted_request_completes [OF pdx_calls_return _ _ pdx_valid pdx_request_state])
  show "pd_tree pdx_off" unfolding pdx_off_def by (rule pdx_tree)
  show "pd_states_ok pdx_off" unfolding pdx_off_def by (rule pdx_states_ok) simp_all
qed (simp add: zeroed_event_def no_params_def)

lemma pdx_request_done: "\<exists>resp t. process_set_state_request pdx_env 0 pdx_request zeroed_event pdx_off = Some (resp, t)"
proof -
  have "pd_tree pdx_off" unfolding pdx_off_def by (rule pdx_tree)
  moreover have "pd_states_ok pdx_off" unfolding pdx_off_def by (rule pdx_states_ok) simp_all
  ultimately show ?thesis
    using set_state_request_total [OF pdx_calls_return _ _ pdx_valid pdx_request_state, of zeroed_event]
    by (auto simp: zeroed_event_def no_params_def)
qed

text \<open>C24. Requests stay compatible. Whenever the state requested for every domain is allowed in the
  state requested for its parent, this is so again after a request has been processed, on every path:
  refused, deferred by a notification, denied by the driver, or failed halfway up or down the tree.
  The tree itself is unchanged.\<close>

theorem set_state_keeps_requests:
  assumes "pd_tree s" and "requests_ok s" and "process_set_state_request env k event resp s = Some (resp', t)"
  shows "pd_tree t \<and> requests_ok t"
  using set_state_requests [OF assms] .

theorem set_state_keeps_requests_witness:
  "\<exists>resp t. process_set_state_request pdx_env 0 pdx_request zeroed_event pdx_off = Some (resp, t) \<and> pd_tree t \<and> requests_ok t"
proof -
  obtain resp t where r: "process_set_state_request pdx_env 0 pdx_request zeroed_event pdx_off = Some (resp, t)"
    using pdx_request_done by blast
  have "pd_tree pdx_off" unfolding pdx_off_def by (rule pdx_tree)
  moreover have "requests_ok pdx_off" unfolding pdx_off_def by (rule pdx_requests_ok) simp
  ultimately show ?thesis using set_state_keeps_requests [OF _ _ r] r by blast
qed


lemma pdx_records: "records_calls pdx_env (\<lambda>w. w)"
  by (auto simp: records_calls_def pdx_env_def pdx_services_def pdx_driver_def)



text \<open>Core 0 waits for the system domain, whose driver is on its way.\<close>

definition pdx_wait :: "pdx_world pd_mod_ctx" where
  "pdx_wait = pdx_state [pdx_core 0 1 0 0, pdx_core 1 0 0 0, pdx_system 1 1 0] []"

lemma pdx_wait_ok: "pd_tree pdx_wait" "pd_states_ok pdx_wait" "\<not> last_core_off_ongoing (system_suspend pdx_wait)"
  "domains pdx_wait = 3" "state_requested_to_driver (pd_at pdx_wait 2) = 1"
proof -
  show "pd_tree pdx_wait" unfolding pdx_wait_def by (rule pdx_tree)
  show "pd_states_ok pdx_wait" unfolding pdx_wait_def by (rule pdx_states_ok) simp_all
qed (simp_all add: pdx_wait_def pdx_state_def pdx_system_def)

text \<open>The example environment in any build, with or without notifications.\<close>

abbreviation pdx_built :: "build \<Rightarrow> pdx_world pd_env" where
  "pdx_built b \<equiv> pdx_env\<lparr>pd_build := b\<rparr>"

lemma pdx_built_env: "pdx_built pdx_build = pdx_env"
  by (simp add: pdx_env_def)

lemma pdx_accepts: "i < 3 \<Longrightarrow> driver_accepts (pdx_built b) pdx_wait i"
  by (auto simp: driver_accepts_def less_3 pdx_wait_def pdx_core_def pdx_system_def pdx_env_def pdx_driver_def)

lemma pdx_built_ok: "calls_return (pdx_built b)" "records_calls (pdx_built b) (\<lambda>w. w)" "unheld (pdx_built b) pdx_wait"
proof -
  show "calls_return (pdx_built b)" using pdx_calls_return by (simp add: calls_return_def)
  show "records_calls (pdx_built b) (\<lambda>w. w)" using pdx_records by (simp add: records_calls_def)
  show "unheld (pdx_built b) pdx_wait"
    by (simp add: unheld_def no_pending_def pdx_wait_def pdx_state_def pdx_core_def pdx_system_def zero_pd_def pdx_env_def pdx_services_def)
qed

lemma pdx_affected: "set (affected pdx_wait i 1) \<subseteq> {..<3}" if "i < 3"
  using that pd_treeD(1) [OF pdx_wait_ok(1), of i] pdx_wait_ok(4)
  by (auto simp: affected_def children_idx_mem split: option.splits)

lemma pdx_report_at: "2 < domains pdx_wait" "\<not> (last_core_off_ongoing (system_suspend pdx_wait) \<and> last_core_pd (system_suspend pdx_wait) = Some i)"
  "(1 :: 32 word) < 32" "state_requested_to_driver (pd_at pdx_wait 2) < MOD_PD_STATE_COUNT_MAX"
  "c \<in> set (affected pdx_wait 2 1) \<Longrightarrow> driver_accepts (pdx_built b) pdx_wait c"
  using pdx_wait_ok(3,4,5) pdx_accepts pdx_affected [of 2] by (auto simp: pd_states)

text \<open>Evaluating the report on the example, one domain at a time.\<close>

lemma pdx_ctx_sel:
  "requested_state (pdx_core k r d c) = r" "state_requested_to_driver (pdx_core k r d c) = d" "current_state (pdx_core k r d c) = c"
  "pd_parent (pdx_core k r d c) = Some 2" "allowed_state_mask_table (pdx_core k r d c) = [1, 3]" "allowed_state_mask_table_size (pdx_core k r d c) = 2"
  "pd_driver_api (pdx_core k r d c) = Some 0" "\<exists>cfg. pd_config (pdx_core k r d c) = Some cfg \<and> cfg_pd_state_mapping_table cfg = None"
  "requested_state (pdx_system r d c) = r" "state_requested_to_driver (pdx_system r d c) = d" "current_state (pdx_system r d c) = c"
  "driver_state (pdx_system r d c) = d" "rsp_pending (response (pdx_system r d c)) = False" "pd_parent (pdx_system r d c) = None"
  by (simp_all add: pdx_core_def pdx_system_def zero_pd_def zero_pd_config_def)

lemma pdx_children: "children_idx pdx_wait 0 = []" "children_idx pdx_wait 2 = [0, 1]"
  by (simp_all add: children_idx_def pdx_wait_def upt_3 pdx_ctx_sel)

lemma pdx_wait_calls: "waiting pdx_wait 0" "\<not> waiting pdx_wait (Suc 0)"
  "call_of pdx_wait 0 (requested_state (pd_at pdx_wait 0)) = Some (FWK_ID_ELEMENT 2 0, 1)"
  by (simp_all add: waiting_def call_of_def retrieve_mapped_state_def get_config_def pdx_wait_def pdx_ctx_sel get_pd_def)
     (simp add: pdx_core_def zero_pd_config_def)

lemma pdx_woken: "\<exists>t. process_power_state_transition_report (pdx_built b) 2 1 pdx_wait = Some t \<and> state_requested_to_driver (pd_at t 0) = 1 \<and>
    world t = [(FWK_ID_ELEMENT 2 0, 1)]"
proof -
  obtain v where v: "process_power_state_transition_report (pdx_built b) 2 1 pdx_wait =
      propagate_transition (pdx_built b) 2 1 (current_state (pd_at pdx_wait 2)) v"
      "settled 2 1 pdx_wait v" "unheld (pdx_built b) v" "world v = world pdx_wait"
    using report_steps [OF pdx_built_ok pdx_wait_ok(1) pdx_report_at(1,2)] by blast
  note fact = settled_facts [OF v(2) pdx_wait_ok(1,2) pdx_report_at(1,3,4)]
  have at: "pd_static (pd_at v 0) = pd_static (pd_at pdx_wait 0)"
    using fact(6) [of 0] pdx_wait_ok(4) by (simp add: reported_def upd_pd_nth)
  have child: "allowed_state_mask_table (pd_at v 0) = [1, 3]" "allowed_state_mask_table_size (pd_at v 0) = 2" "pd_parent (pd_at v 0) = Some 2"
    using at pd_static_sel(1,3,4) [of "pd_at v 0"] pd_static_sel(1,3,4) [of "pd_at pdx_wait 0"] by (simp_all add: pdx_wait_def pdx_ctx_sel)
  have req: "requested_state (pd_at v 0) = 1" using fact(11) [of 0] pdx_wait_ok(4) by (simp add: pdx_wait_def pdx_ctx_sel)
  have ok: "is_allowed_by_parent_and_children 0 1 v = Some True"
  proof -
    have "children_idx v 0 = []" using fact(4) [of 0] pdx_children by simp
    then have "exists_child P 0 v = Some False" for P
      using exists_child_eq [OF fact(1), of 0 P "\<lambda>_. False"] fact(3) pdx_wait_ok(4) by simp
    then show ?thesis
      using child fact(3,5) pdx_wait_ok(4) by (simp add: is_allowed_by_parent_and_children_def is_allowed_by_child_def state_bit_def)
  qed
  have "children_idx v 2 = [0, 1]" using fact(4) [of 2] pdx_children by simp
  moreover have "driver_accepts (pdx_built b) v c" if "c \<in> set (children_idx v 2)" for c
    using that calculation fact(8) [of c] pdx_wait_ok(4) pdx_accepts [of c] by auto
  ultimately obtain n t where t: "process_power_state_transition_report_shallower_state (pdx_built b) 2 v = Some t" "woken (\<lambda>w. w) v [0, 1] n t"
    using shallower_wakes_children [OF pdx_built_ok(1,2) v(3) _ fact(1,2), of 2] fact(3) pdx_wait_ok(4) by force
  have run: "process_power_state_transition_report (pdx_built b) 2 1 pdx_wait = Some t"
    using v(1) t(1) by (simp add: propagate_transition_def pdx_wait_def pdx_ctx_sel is_deeper_state_def is_shallower_state_def
        normalize_state_def pd_states)
  have same: "same_tree v t" "requested_state (pd_at t 0) = 1"
    using t(2) req requests_nth_same [of t v 0] fact(3) pdx_wait_ok(4) by (simp_all add: woken_def)
  then have "is_allowed_by_parent_and_children 0 (requested_state (pd_at t 0)) t = Some True"
    using ok allowed_by_parent_and_children_same [OF same(1)] by simp
  then have n0: "n \<noteq> 0" using t(2) unfolding woken_def by (intro notI) simp
  then have "\<not> waiting t 0" using t(2) by (cases n) (auto simp: woken_def)
  then have drv: "state_requested_to_driver (pd_at t 0) = 1" using same(2) by (simp add: waiting_def)
  have n: "n = 1 \<or> n = 2" using n0 t(2) by (auto simp: woken_def)
  have "calls_for v [0] = [Some (FWK_ID_ELEMENT 2 0, 1)]" "calls_for v [0, 1] = [Some (FWK_ID_ELEMENT 2 0, 1)]"
  proof -
    have same: "waiting v c = waiting pdx_wait c" "call_of v c (requested_state (pd_at v c)) = call_of pdx_wait c (requested_state (pd_at pdx_wait c))"
      if "c = 0 \<or> c = 1" for c
      using that fact(9,10,11) [of c] pdx_wait_ok(4) by (auto simp: waiting_def)
    show "calls_for v [0] = [Some (FWK_ID_ELEMENT 2 0, 1)]" "calls_for v [0, 1] = [Some (FWK_ID_ELEMENT 2 0, 1)]"
      using pdx_wait_calls same(1) [of 0] same(1) [of "Suc 0"] same(2) [of 0] by (simp_all add: calls_for_def)
  qed
  moreover obtain calls where "world t = world v @ calls" "map Some calls = calls_for v (take n [0, 1])"
    using t(2) unfolding woken_def by blast
  ultimately have "world t = [(FWK_ID_ELEMENT 2 0, 1)]"
    using n v(4) by (auto simp: pdx_wait_def)
  then show ?thesis using run drv by blast
qed



text \<open>C27. What a report sets in motion is safe, with or without notifications: a driver asked for a
  different state than before is asked for one that the current states of the parent and of the
  children of its domain, the reported one included, allow.\<close>

theorem report_asks_allowed:
  assumes "process_power_state_transition_report env i state s = Some t"
    and "\<not> (last_core_off_ongoing (system_suspend s) \<and> last_core_pd (system_suspend s) = Some i)" and "j < length (pd_ctx_table s)"
    and "state_requested_to_driver (pd_ctx_table t ! j) \<noteq> state_requested_to_driver (pd_ctx_table s ! j)"
  shows "is_allowed_by_parent_and_children j (state_requested_to_driver (pd_ctx_table t ! j)) t = Some True"
  using report_drives_allowed [OF assms] .

theorem report_asks_allowed_witness:
  "\<exists>t. process_power_state_transition_report pdx_env 2 1 pdx_wait = Some t \<and> state_requested_to_driver (pd_ctx_table t ! 0) = 1 \<and>
     is_allowed_by_parent_and_children 0 1 t = Some True"
proof -
  obtain t where t: "process_power_state_transition_report pdx_env 2 1 pdx_wait = Some t" "state_requested_to_driver (pd_at t 0) = 1"
    using pdx_woken [of pdx_build] unfolding pdx_built_env by blast
  have "state_requested_to_driver (pd_at pdx_wait 0) = 0" by (simp add: pdx_wait_def pdx_ctx_sel)
  then show ?thesis using report_asks_allowed [OF t(1) pdx_report_at(2), of 0] t pdx_wait_ok(4) by simp
qed

text \<open>C31. A report overwrites the request of its domain: afterwards the requested state is the one
  last asked of the driver, unless responses to the notification of the transition are pending, in
  which case the request stays until they have come. So in a build without notifications, and in one
  with them when nobody answers, a request that was accepted and waits for the parent or the children
  is lost when the driver reports in the meantime. The state last asked of the driver stays the same.\<close>

theorem report_drops_request:
  assumes "process_power_state_transition_report env i state s = Some t"
    and "\<not> (last_core_off_ongoing (system_suspend s) \<and> last_core_pd (system_suspend s) = Some i)"
  shows "i < length (pd_ctx_table s) \<and> state_requested_to_driver (pd_ctx_table t ! i) = state_requested_to_driver (pd_ctx_table s ! i) \<and>
    requested_state (pd_ctx_table t ! i) =
      (if has_notification (pd_build env) \<and> 0 < tn_pending_responses (transition_ntf (pd_ctx_table t ! i))
       then requested_state (pd_ctx_table s ! i) else state_requested_to_driver (pd_ctx_table s ! i))"
  using report_forgets_request [OF assms] .

theorem report_drops_request_witness:
  "\<exists>t. process_power_state_transition_report pdx_env 0 0 pdx_wait = Some t \<and>
     requested_state (pd_ctx_table pdx_wait ! 0) = 1 \<and> requested_state (pd_ctx_table t ! 0) = 0"
proof -
  have e: "affected pdx_wait 0 0 = []"
    by (simp add: affected_def pdx_wait_def pdx_core_def is_deeper_state_def is_shallower_state_def)
  have r: "requested_state (pd_at pdx_wait 0) = 1" "state_requested_to_driver (pd_at pdx_wait 0) = 0"
    by (simp_all add: pdx_wait_def pdx_core_def)
  obtain t where t: "process_power_state_transition_report pdx_env 0 0 pdx_wait = Some t"
    using report_wakes [OF pdx_built_ok [of pdx_build, unfolded pdx_built_env] pdx_wait_ok(1,2), of 0 0] pdx_wait_ok(3,4) r e
    by (auto simp: pd_states)
  moreover have "\<not> has_notification (pd_build pdx_env)" by (simp add: pdx_env_def pdx_build_def)
  ultimately have "requested_state (pd_at t 0) = 0" using report_drops_request [OF t] pdx_wait_ok(3) r by simp
  then show ?thesis using t r by blast
qed


text \<open>C28. Composite states read back. With masks that do not overlap and states that fit them, the
  composite state \<^verbatim>\<open>process_get_state_request\<close> builds gives back, through the functions that decode a
  request, the current state of the domain and of each of its ancestors at its level, and the
  highest level, which is the number of ancestors the table has a level for.\<close>

theorem get_state_reads_back:
  assumes "process_get_state_request i s = Some cs" and "cs_support (pd_ctx_table s ! i)"
    and "0 < composite_state_mask_table_size (pd_ctx_table s ! i)" and "composite_state_mask_table_size (pd_ctx_table s ! i) < 2 ^ 32"
    and "\<And>k l. k < composite_state_mask_table_size (pd_ctx_table s ! i) \<Longrightarrow> l < composite_state_mask_table_size (pd_ctx_table s ! i) \<Longrightarrow> k \<noteq> l \<Longrightarrow>
       composite_state_mask_table (pd_ctx_table s ! i) ! k AND composite_state_mask_table (pd_ctx_table s ! i) ! l = 0"
    and "\<And>k. k < composite_state_mask_table_size (pd_ctx_table s ! i) \<Longrightarrow>
       composite_state_mask_table (pd_ctx_table s ! i) ! k AND composite_state_levels_mask (pd_ctx_table s ! i) = 0"
    and "\<And>k a. k < composite_state_mask_table_size (pd_ctx_table s ! i) \<Longrightarrow> pd_ancestor k i s = Some a \<Longrightarrow>
       fits (composite_state_mask_table (pd_ctx_table s ! i) ! k) (current_state (pd_ctx_table s ! a))"
    and "\<And>k. composite_state_levels_mask (pd_ctx_table s ! i) \<noteq> 0 \<Longrightarrow> k < composite_state_mask_table_size (pd_ctx_table s ! i) \<Longrightarrow>
       fits (composite_state_levels_mask (pd_ctx_table s ! i)) (of_nat k)"
  shows "\<exists>n. 0 < n \<and> n \<le> composite_state_mask_table_size (pd_ctx_table s ! i) \<and>
    (\<forall>l < composite_state_mask_table_size (pd_ctx_table s ! i). l < n \<longleftrightarrow> pd_ancestor l i s \<noteq> None) \<and>
    (\<forall>l a. l < n \<longrightarrow> pd_ancestor l i s = Some a \<longrightarrow>
       get_level_state_from_composite_state (composite_state_mask_table (pd_ctx_table s ! i)) cs l = Some (current_state (pd_ctx_table s ! a))) \<and>
    (composite_state_levels_mask (pd_ctx_table s ! i) \<noteq> 0 \<longrightarrow> get_highest_level_from_composite_state i cs s = Some (n - 1))"
  using get_state_levels [OF assms(1,2) refl refl refl assms(3-8)] .

definition pdx_on :: "pdx_world pd_mod_ctx" where
  "pdx_on = pdx_state [pdx_core 0 1 1 1, pdx_core 1 0 0 0, pdx_system 1 1 1] []"

lemma pdx_core_cs:
  "cs_support (pdx_core k r d c)" "composite_state_mask_table (pdx_core k r d c) = [15, 240, 3840, 61440]"
  "composite_state_mask_table_size (pdx_core k r d c) = 4" "composite_state_levels_mask (pdx_core k r d c) = 983040"
  by (simp_all add: pdx_core_def zero_pd_def pdx_table)

lemma less_4: "(i::nat) < 4 \<longleftrightarrow> i = 0 \<or> i = 1 \<or> i = 2 \<or> i = 3" by auto

lemma pdx_get_on: "process_get_state_request 0 pdx_on = Some 0x10011"
  by (simp add: process_get_state_request_def pdx_on_def pdx_core_cs pdx_ctx_sel compose_levels.simps pdx_shifts get_pd_def)

theorem get_state_reads_back_witness:
  "process_get_state_request 0 pdx_on = Some 0x10011 \<and>
   (\<exists>n. 0 < n \<and> n \<le> 4 \<and> (\<forall>l < 4. l < n \<longleftrightarrow> pd_ancestor l 0 pdx_on \<noteq> None) \<and>
     get_highest_level_from_composite_state 0 0x10011 pdx_on = Some (n - 1))"
proof -
  have at: "pd_ctx_table pdx_on ! 0 = pdx_core 0 1 1 1" by (simp add: pdx_on_def)
  have anc: "current_state (pd_at pdx_on a) = 1" if "pd_ancestor k 0 pdx_on = Some a" "k < 4" for k a
  proof -
    have "pd_ancestor (Suc 0) 0 pdx_on = Some 2" "pd_ancestor (Suc (Suc m)) 0 pdx_on = None" for m
      by (simp_all add: pdx_on_def get_pd_def pdx_ctx_sel)
    moreover have "current_state (pd_at pdx_on 0) = 1" "current_state (pd_at pdx_on 2) = 1" by (simp_all add: pdx_on_def pdx_ctx_sel)
    moreover have "k = 0 \<or> k = Suc 0 \<or> (\<exists>m. k = Suc (Suc m))" by presburger
    ultimately show ?thesis using that(1) by auto
  qed
  have disj: "[15, 240, 3840, 61440::32 word] ! k AND [15, 240, 3840, 61440] ! l = 0" if "k < 4" "l < 4" "k \<noteq> l" for k l :: nat
    using that by (auto simp: less_4)
  have dl: "[15, 240, 3840, 61440::32 word] ! k AND 983040 = 0" if "k < 4" for k :: nat
    using that by (auto simp: less_4)
  have fit: "fits ([15, 240, 3840, 61440] ! k) 1" if "k < 4" for k :: nat
    using that by (auto simp: less_4 fits_def pdx_shifts)
  have fitL: "fits 983040 (of_nat k)" if "k < 4" for k :: nat
    using that by (auto simp: less_4 fits_def pdx_shifts)
  have "\<exists>n. 0 < n \<and> n \<le> 4 \<and> (\<forall>l < 4. l < n \<longleftrightarrow> pd_ancestor l 0 pdx_on \<noteq> None) \<and>
      (\<forall>l a. l < n \<longrightarrow> pd_ancestor l 0 pdx_on = Some a \<longrightarrow>
         get_level_state_from_composite_state [15, 240, 3840, 61440] 0x10011 l = Some (current_state (pd_ctx_table pdx_on ! a))) \<and>
      ((983040::32 word) \<noteq> 0 \<longrightarrow> get_highest_level_from_composite_state 0 0x10011 pdx_on = Some (n - 1))"
    by (rule get_state_reads_back [OF pdx_get_on, unfolded at pdx_core_cs]) (use disj dl fit fitL anc in \<open>auto simp: pdx_core_cs(1)\<close>)
  then show ?thesis using pdx_get_on by auto
qed

text \<open>C29. The table a platform builds with \<^verbatim>\<open>create_power_domain_element_table\<close> becomes the expected
  tree. The call succeeds; after the initialisation of the module on this table, \<^verbatim>\<open>connect_pd_tree\<close>
  makes each core a child of its cluster, and each cluster and static domain a child of the last
  one, the system domain, which has no parent; lists of children and parents agree.\<close>

theorem platform_tree_built:
  assumes "0 < prm_cluster_count p" and "prm_core_count p = per * prm_cluster_count p" and "prm_core_count p \<le> 64" and "0 < prm_core_count p"
    and "length static \<le> 32" and "\<And>e. e \<in> set static \<Longrightarrow> elem_data e \<noteq> None" and "static \<noteq> []"
    and "n = prm_core_count p + prm_cluster_count p + length static - 1"
    and "\<And>c. elem_data (last static) = Some c \<Longrightarrow> n < unat (cfg_parent_idx c)"
    and "create_power_domain_element_table p static (length static) = table" and "pd_unconnected s" and "configured_by (the (the table)) s"
    and "\<And>i. i < length (pd_ctx_table s) \<Longrightarrow> allowed_state_mask_table_size (pd_ctx_table s ! i) \<le> length (allowed_state_mask_table (pd_ctx_table s ! i))"
  shows "(\<exists>t. table = Some (Some t) \<and> length t = n + 2) \<and>
    (\<exists>u. connect_pd_tree env s = Some (FWK_SUCCESS, u) \<and> pd_tree u \<and>
       (\<forall>i < length (pd_ctx_table u). pd_parent (pd_ctx_table u ! i) = platform_parent p per n i))"
proof -
  obtain t where t: "create_power_domain_element_table p static (length static) = Some (Some t)" "length t = n + 2"
    using create_table_ok [OF assms(1-3,5,6,8)] by blast
  obtain t' where t': "create_power_domain_element_table p static (length static) = Some (Some t')"
    "\<forall>s. pd_unconnected s \<and> configured_by t' s \<and> (\<forall>i < domains s. allowed_state_mask_table_size (pd_at s i) \<le> length (allowed_state_mask_table (pd_at s i))) \<longrightarrow>
       (\<exists>u. connect_pd_tree env s = Some (FWK_SUCCESS, u) \<and> pd_tree u \<and> (\<forall>i < domains u. pd_parent (pd_at u i) = platform_parent p per n i))"
    using platform_tree [OF assms(1-9), of env] by blast
  have "table = Some (Some t)" "t' = t" using t(1) t'(1) assms(10) by simp_all
  then show ?thesis using t(2) t'(2) assms(11-13) by simp
qed


text \<open>Two cores in one cluster, below a system domain.\<close>

definition pdx_params :: pd_table_params where
  "pdx_params = \<lparr>prm_core_count = 2, prm_cluster_count = 1, prm_driver_idx = 2, prm_api_idx = 0, prm_core_state_table = Some [1, 3],
     prm_core_state_table_size = 2, prm_cluster_state_table = Some [1, 3], prm_cluster_state_table_size = 2\<rparr>"

definition pdx_static :: "pd_element list" where
  "pdx_static = [\<lparr>elem_name = Some ''SYSTOP'', elem_sub_count = 0, elem_data = Some (zero_pd_config\<lparr>cfg_parent_idx := 0xFFFFFFFF\<rparr>)\<rparr>]"

definition pdx_loaded :: "pdx_world pd_mod_ctx" where
  "pdx_loaded = (pdx_state [] [])\<lparr>pd_count := 4,
     pd_ctx_table := map (\<lambda>e. zero_pd\<lparr>pd_config := elem_data e\<rparr>) (take 4 (the (the (create_power_domain_element_table pdx_params pdx_static 1)))),
     pd_heap := \<lparr>next_of = (\<lambda>a. case a of Children i \<Rightarrow> Some (Children i) | ChildNode i \<Rightarrow> None),
       prev_of = (\<lambda>a. case a of Children i \<Rightarrow> Some (Children i) | ChildNode i \<Rightarrow> None), marks_of = marks_of pdx_heap\<rparr>\<rparr>"

theorem platform_tree_built_witness:
  "\<exists>u. connect_pd_tree pdx_env pdx_loaded = Some (FWK_SUCCESS, u) \<and> pd_tree u \<and>
     (\<forall>i < length (pd_ctx_table u). pd_parent (pd_ctx_table u ! i) = platform_parent pdx_params 2 3 i)"
proof -
  have p: "0 < prm_cluster_count pdx_params" "prm_core_count pdx_params = 2 * prm_cluster_count pdx_params" "prm_core_count pdx_params \<le> 64"
      "0 < prm_core_count pdx_params" "3 = prm_core_count pdx_params + prm_cluster_count pdx_params + length pdx_static - 1"
    by (simp_all add: pdx_params_def pdx_static_def)
  have st: "length pdx_static = 1" "length pdx_static \<le> 32" "\<And>e. e \<in> set pdx_static \<Longrightarrow> elem_data e \<noteq> None" "pdx_static \<noteq> []"
      "\<And>c. elem_data (last pdx_static) = Some c \<Longrightarrow> 3 < unat (cfg_parent_idx c)"
    by (auto simp: pdx_static_def)
  obtain t where t: "create_power_domain_element_table pdx_params pdx_static (length pdx_static) = Some (Some t)" "length t = 3 + 2"
      "\<forall>i < 3 + 2. t ! i = (if prm_core_count pdx_params \<le> i \<and> i < 3 then below_systop 3 (table_element pdx_params 2 pdx_static i)
         else table_element pdx_params 2 pdx_static i)"
    using create_table_ok [OF p(1-3) st(2,3) p(5)] by blast
  have tab: "pd_ctx_table pdx_loaded = map (\<lambda>e. zero_pd\<lparr>pd_config := elem_data e\<rparr>) (take 4 t)"
    using t(1) st(1) by (simp add: pdx_loaded_def)
  have some: "elem_data (t ! i) \<noteq> None" if "i < 4" for i
    using that t(3) by (auto simp: less_4 table_element_def pdx_params_def pdx_static_def core_element_def cluster_element_def below_systop_def)
  have conf: "configured_by (the (the (Some (Some t)))) pdx_loaded" using t(2) tab by (simp add: configured_by_def)
  have heap: "slist_rep (pd_heap pdx_loaded) (Children i) []" "slist_detached (pd_heap pdx_loaded) (ChildNode i)" for i
    by (simp_all add: pdx_loaded_def slist_rep_def slist_detached_def)
  have "pd_count pdx_loaded = 4" by (simp add: pdx_loaded_def pdx_state_def)
  then have un: "pd_unconnected pdx_loaded" using tab t(2) some heap by (simp add: pd_unconnected_def)
  have sz: "allowed_state_mask_table_size (pd_ctx_table pdx_loaded ! i) \<le> length (allowed_state_mask_table (pd_ctx_table pdx_loaded ! i))"
    if "i < length (pd_ctx_table pdx_loaded)" for i
    using that tab by (simp add: zero_pd_def)
  show ?thesis
    using platform_tree_built [OF p(1-4) st(2-4) p(5) st(5) t(1) un conf sz, of pdx_env] by simp
qed

text \<open>C30. \<^verbatim>\<open>pd_set_state\<close> on the framework: a valid state makes the call succeed and leaves, at the
  tail of the event queue and in the first free event structure, the request \<^verbatim>\<open>pd_process_event\<close>
  decodes: addressed to the domain, with the composite state and the wish for a response.\<close>

theorem set_state_posts_request:
  assumes "pd_srv env = framework im" and "event_pool im n (world s) Q {}" and "Q FreeEventQ = e # fs" and "\<not> in_isr (world s)"
    and "\<not> mode_debug (image_build im)" and "pd_index i s = Some k" and "valid_request k state s"
    and "event_source im (pd_driver_id (pd_ctx_table s ! k)) (world s) = Some (Some sid)"
  shows "\<exists>w. pd_set_state env i r state s = Some (FWK_SUCCESS, s\<lparr>world := w\<rparr>) \<and>
    event_pool im n w (Q(FreeEventQ := fs, EventQ := Q EventQ @ [e])) {} \<and>
    target_id (event_table w e) = i \<and> event_id (event_table w e) = FWK_ID_EVENT (pd_module_idx env) 0 \<and>
    response_requested (event_table w e) = r \<and> \<not> is_response (event_table w e) \<and> get_u32 0 (params (event_table w e)) = Some state"
proof -
  obtain ps where ps: "put_u32 0 state no_params = Some ps" using put_u32_ok [of 0 no_params state] by (auto simp: no_params_def)
  define ev where "ev = zeroed_event\<lparr>source_id := pd_driver_id (pd_at s k), target_id := i, response_requested := r,
      event_id := FWK_ID_EVENT (pd_module_idx env) 0, params := ps\<rparr>"
  have k: "k < domains s" using assms(7) by (simp add: valid_request_def)
  have "\<not> is_delayed_response ev" "source_id ev = pd_driver_id (pd_at s k)" by (simp_all add: ev_def zeroed_event_def)
  then obtain h where h: "srv_put_event (framework im) ev (world s) =
      Some (FWK_SUCCESS, ev\<lparr>source_id := sid, cookie := event_cookie_counter (world s)\<rparr>, posted (STD (ev\<lparr>source_id := sid\<rparr>)) e h (world s))"
    "event_pool im n (posted (STD (ev\<lparr>source_id := sid\<rparr>)) e h (world s)) (Q(FreeEventQ := fs, EventQ := Q EventQ @ [e])) {}"
    using framework_put_event [OF assms(2,3) _ assms(4,5), of ev sid] assms(8) by auto
  let ?w = "posted (STD (ev\<lparr>source_id := sid\<rparr>)) e h (world s)"
  have valid: "(if cs_support (pd_at s k) then is_valid_composite_state k state s else Some (is_valid_state (pd_at s k) state)) = Some True"
    using assms(7) by (simp add: valid_request_def split: if_splits)
  have "event_put_u32 0 state (zeroed_event\<lparr>source_id := pd_driver_id (pd_at s k), target_id := i, response_requested := r,
      event_id := FWK_ID_EVENT (pd_module_idx env) 0\<rparr>) = Some ev"
    using ps by (simp add: event_put_u32_def ev_def zeroed_event_def)
  then have "pd_set_state env i r state s = Some (FWK_SUCCESS, s\<lparr>world := ?w\<rparr>)"
    using assms(1,6) k valid h(1) by (simp add: pd_set_state_def pd_put_def)
  moreover have "event_table ?w e = ev\<lparr>source_id := sid, cookie := event_cookie_counter (world s)\<rparr>"
    by (simp add: stored_event_def ev_def zeroed_event_def)
  moreover have "get_u32 0 ps = Some state" by (rule get_put_u32 [OF ps])
  ultimately show ?thesis using h(2) by (intro exI [of _ ?w]) (simp add: ev_def zeroed_event_def)
qed


text \<open>The example on the framework: a module image of one module, two free event structures.\<close>

definition pdx_image :: "(unit notification_ctx, unit) fwk_image" where
  "pdx_image = sub_image\<lparr>image_build := pdx_build\<rparr>"

definition pdx_fw_env :: "unit notification_ctx pd_env" where
  "pdx_fw_env = \<lparr>pd_build = pdx_build, pd_srv = framework pdx_image,
     pd_drivers = (\<lambda>_. \<lparr>pd_set_state_fn = None, pd_get_state_fn = None, pd_reset_fn = None, pd_deny_fn = None, pd_prepare_core_fn = None, pd_shutdown_fn = None\<rparr>),
     pd_module_idx = 1, pd_public_api = 0, pd_restricted_api = 1, pd_driver_input_api = 2\<rparr>"

definition pdx_fw_state :: "unit notification_ctx \<Rightarrow> unit notification_ctx pd_mod_ctx" where
  "pdx_fw_state w = pdx_state [(pdx_core 0 0 0 0)\<lparr>pd_driver_id := FWK_ID_MODULE 0\<rparr>, pdx_core 1 0 0 0, pdx_system 0 0 0] w"

lemma pdx_fw_valid: "valid_request 0 0x10011 (pdx_fw_state w)"
  by (simp add: valid_request_def pdx_fw_state_def is_valid_composite_state_def get_highest_level_from_composite_state_def get_pd_def
      get_level_state_from_composite_state_def pdx_core_def pdx_system_def zero_pd_def pdx_table pdx_shifts Let_def is_valid_state_def
      is_allowed_by_child_def state_bit_def pd_states upt_rec)

theorem set_state_posts_request_witness:
  "\<exists>s w. pd_set_state pdx_fw_env (FWK_ID_ELEMENT 1 0) True 0x10011 s = Some (FWK_SUCCESS, s\<lparr>world := w\<rparr>) \<and>
     target_id (event_table w 0) = FWK_ID_ELEMENT 1 0 \<and> get_u32 0 (params (event_table w 0)) = Some 0x10011"
proof -
  obtain w Q where w: "event_pool sub_image 2 w ((\<lambda>_. [])(FreeEventQ := [0, 1])) {}" "module_ctx_table w = module_ctx_table sub_blank"
      "in_isr w = in_isr sub_blank" "current_event w = current_event sub_blank"
    using sub_example_state by blast
  have pool: "event_pool pdx_image 2 (world (pdx_fw_state w)) ((\<lambda>_. [])(FreeEventQ := [0, 1])) {}"
    using w(1) by (simp add: event_pool_def event_headers_def pdx_image_def pdx_fw_state_def)
  have isr: "\<not> in_isr (world (pdx_fw_state w))" using w(3) by (simp add: pdx_fw_state_def sub_blank_def)
  have idx: "pd_index (FWK_ID_ELEMENT 1 0) (pdx_fw_state w) = Some 0"
    by (simp add: pd_index_def fwk_id_get_element_idx_def assert_id_iff get_pd_def pdx_fw_state_def)
  have src: "event_source pdx_image (pd_driver_id (pd_ctx_table (pdx_fw_state w) ! 0)) (world (pdx_fw_state w)) = Some (Some (FWK_ID_MODULE 0))"
    using w(4) by (simp add: event_source_def pdx_fw_state_def sub_blank_def pdx_image_def fwk_module_is_valid_entity_id_def
        fwk_module_is_valid_module_id_def fwk_id_get_type_def fwk_id_is_type_valid fwk_id_get_module_idx_def assert_id_iff)
  have "pd_srv pdx_fw_env = framework pdx_image" "\<not> mode_debug (image_build pdx_image)"
    by (simp_all add: pdx_fw_env_def pdx_image_def pdx_build_def)
  from set_state_posts_request [OF this(1) pool _ isr this(2) idx pdx_fw_valid src, of 0 "[1]" True] show ?thesis by auto
qed

end
