(* ===== verification/Mod_Scmi_State.thy ===== *)
theory Mod_Scmi_State
  imports Fwk_Services
begin

text \<open>
  The SCMI module, \<^verbatim>\<open>module/scmi\<close>: its data (\<^verbatim>\<open>mod_scmi.h\<close>, \<^verbatim>\<open>mod_scmi_std.h\<close>, \<^verbatim>\<open>mod_scmi_header.h\<close> and
  the internal headers) and the format of message headers. The interfaces it offers are in
  \<open>Mod_Scmi_Api\<close>, the Base protocol in \<open>Mod_Scmi_Base\<close>, notifications in \<open>Mod_Scmi_Notify\<close> and the
  framework's entry points in \<open>Mod_Scmi\<close>.

  The state of the module holds the state \<open>'w\<close> of everything outside it. Interfaces of other
  modules are at addresses, and the environment says what is there; a null function pointer is
  \<open>None\<close>. A message handler takes and returns the whole state, because it calls back into the
  module. A payload is the bytes from a pointer to the end of the object it points into, \<open>None\<close>
  for the null pointer; sizes are natural numbers below \<open>2 ^ 32\<close>. Logging is left out.
\<close>

named_theorems scmi_consts \<open>constants of the SCMI headers\<close>

section \<open>Constants\<close>

definition SCMI_SUCCESS :: int where [scmi_consts]: "SCMI_SUCCESS = 0"
definition SCMI_NOT_SUPPORTED :: int where [scmi_consts]: "SCMI_NOT_SUPPORTED = -1"
definition SCMI_INVALID_PARAMETERS :: int where [scmi_consts]: "SCMI_INVALID_PARAMETERS = -2"
definition SCMI_DENIED :: int where [scmi_consts]: "SCMI_DENIED = -3"
definition SCMI_NOT_FOUND :: int where [scmi_consts]: "SCMI_NOT_FOUND = -4"
definition SCMI_GENERIC_ERROR :: int where [scmi_consts]: "SCMI_GENERIC_ERROR = -8"
definition SCMI_PROTOCOL_ERROR :: int where [scmi_consts]: "SCMI_PROTOCOL_ERROR = -10"

definition MOD_SCMI_PLATFORM_ID :: "32 word" where [scmi_consts]: "MOD_SCMI_PLATFORM_ID = 0"
definition MOD_SCMI_AGENT_ID_MAX :: "32 word" where [scmi_consts]: "MOD_SCMI_AGENT_ID_MAX = 0xFF"
definition MOD_SCMI_PLATFORM_PROTOCOL_ID_MIN :: "8 word" where [scmi_consts]: "MOD_SCMI_PLATFORM_PROTOCOL_ID_MIN = 0x80"
definition MOD_SCMI_PROTOCOL_DAYNAMIC_PAYLOAD_SIZE :: nat where
  [scmi_consts]: "MOD_SCMI_PROTOCOL_DAYNAMIC_PAYLOAD_SIZE = 2 ^ 32 - 1"
definition MOD_SCMI_MESSAGE_ID_ATTRIBUTE :: "32 word" where [scmi_consts]: "MOD_SCMI_MESSAGE_ID_ATTRIBUTE = 3"
definition MOD_SCMI_PROTOCOL_ID_BASE :: "8 word" where [scmi_consts]: "MOD_SCMI_PROTOCOL_ID_BASE = 0x10"

definition MOD_SCMI_MESSAGE_TYPE_COMMAND :: "8 word" where [scmi_consts]: "MOD_SCMI_MESSAGE_TYPE_COMMAND = 0"
definition MOD_SCMI_MESSAGE_TYPE_DELAYED_RESPONSE :: "8 word" where [scmi_consts]: "MOD_SCMI_MESSAGE_TYPE_DELAYED_RESPONSE = 2"
definition MOD_SCMI_MESSAGE_TYPE_NOTIFICATION :: "8 word" where [scmi_consts]: "MOD_SCMI_MESSAGE_TYPE_NOTIFICATION = 3"

definition MOD_SCMI_ROLE_PLATFORM :: "32 word" where [scmi_consts]: "MOD_SCMI_ROLE_PLATFORM = 0"
definition MOD_SCMI_ROLE_AGENT :: "32 word" where [scmi_consts]: "MOD_SCMI_ROLE_AGENT = 1"

definition SCMI_AGENT_TYPE_PSCI :: "32 word" where [scmi_consts]: "SCMI_AGENT_TYPE_PSCI = 0"
definition SCMI_AGENT_TYPE_COUNT :: "32 word" where [scmi_consts]: "SCMI_AGENT_TYPE_COUNT = 4"

definition MOD_RES_PERMS_ACCESS_ALLOWED :: "32 word" where [scmi_consts]: "MOD_RES_PERMS_ACCESS_ALLOWED = 0"
definition MOD_RES_PERMS_ACCESS_DENIED :: "32 word" where [scmi_consts]: "MOD_RES_PERMS_ACCESS_DENIED = 1"
definition MOD_RES_PERMS_PERMISSIONS_MASK :: "32 word" where [scmi_consts]: "MOD_RES_PERMS_PERMISSIONS_MASK = 1"

text \<open>The protocols of the specification that the module knows, by identifier.\<close>

definition valid_protocol_ids :: "8 word list" where
  "valid_protocol_ids = [0x10, 0x11, 0x12, 0x13, 0x14, 0x15, 0x16, 0x17, 0x18, 0x19, 0x1B]"

definition PROTOCOL_TABLE_BASE_PROTOCOL_IDX :: nat where [scmi_consts]: "PROTOCOL_TABLE_BASE_PROTOCOL_IDX = 1"
definition PROTOCOL_TABLE_RESERVED_ENTRIES_COUNT :: nat where [scmi_consts]: "PROTOCOL_TABLE_RESERVED_ENTRIES_COUNT = 2"
definition MOD_SCMI_PROTOCOL_MAX_OPERATION_ID :: "32 word" where [scmi_consts]: "MOD_SCMI_PROTOCOL_MAX_OPERATION_ID = 0x20"
definition MOD_SCMI_PROTOCOL_OPERATION_IDX_INVALID :: "8 word" where [scmi_consts]: "MOD_SCMI_PROTOCOL_OPERATION_IDX_INVALID = 0xFF"

section \<open>Data\<close>

record mod_scmi_agent =
  ag_type :: "32 word"
  ag_name :: "string option"

record mod_scmi_config =
  protocol_count_max :: "32 word"
  protocol_requester_count_max :: "32 word"
  dis_protocol_count_psci :: "32 word"
  dis_protocol_list_psci :: "32 word list option"
  agent_count :: "32 word"
  agent_table :: "mod_scmi_agent list"
  vendor_identifier :: "string option"
  sub_vendor_identifier :: "string option"

record mod_scmi_service_config =
  cfg_transport_id :: fwk_id
  cfg_transport_api_id :: fwk_id
  cfg_transport_notification_init_id :: fwk_id
  cfg_scmi_agent_id :: "32 word"
  cfg_scmi_p2a_id :: fwk_id
  cfg_scmi_entity_role :: "32 word"

text \<open>
  \<open>svc_respond\<close> and \<open>svc_transmit\<close> are the copies of two functions of a transport interface: the
  address of the interface they were copied from.
\<close>

record scmi_service_ctx =
  svc_config :: "mod_scmi_service_config option"
  svc_transport_id :: fwk_id
  svc_transport_api :: "nat option"
  svc_respond :: "nat option"
  svc_transmit :: "nat option"
  scmi_token :: "16 word"
  scmi_protocol_id :: "32 word"
  scmi_message_id :: "32 word"
  scmi_message_type :: "8 word"

text \<open>A message handler is that of the Base protocol or that of the protocol interface at an address.\<close>

datatype handler_ref = BASE_HANDLER | API_HANDLER nat

record scmi_protocol =
  message_handler :: "handler_ref option"
  protocol_fwk_id :: fwk_id
  notification_handler :: "nat option"

record scmi_notification_subscribers =
  ns_agent_count :: "32 word"
  ns_element_count :: "32 word"
  ns_operation_count :: "32 word"
  ns_operation_idx :: "32 word"
  operation_id_to_idx :: "8 word list"
  agent_service_ids :: "fwk_id list"

text \<open>
  \<open>base_protocol_api\<close> says that the two static pointers of \<^verbatim>\<open>mod_scmi_base.c\<close> are set: they only
  ever hold the module's own interface and context.
\<close>

record 'w scmi_ctx =
  scmi_config :: "mod_scmi_config option"
  protocol_table :: "scmi_protocol list"
  protocol_count :: "32 word"
  protocol_requester_table :: "scmi_protocol list"
  protocol_requester_count :: "32 word"
  scmi_protocol_id_to_idx :: "8 word list"
  scmi_protocol_requester_id_to_idx :: "8 word list"
  service_ctx_table :: "scmi_service_ctx list"
  res_perms_api :: "nat option"
  scmi_notif_subscribers :: "scmi_notification_subscribers list"
  base_protocol_api :: bool
  scmi_world :: 'w

section \<open>Interfaces of other modules\<close>

text \<open>The transport interface \<^verbatim>\<open>struct mod_scmi_to_transport_api\<close>: output parameters are returned.\<close>

record 'w scmi_transport =
  tr_get_secure :: "(fwk_id \<Rightarrow> 'w \<Rightarrow> ((int \<times> bool) \<times> 'w) option) option"
  tr_get_max_payload_size :: "(fwk_id \<Rightarrow> 'w \<Rightarrow> ((int \<times> nat) \<times> 'w) option) option"
  tr_get_message_header :: "(fwk_id \<Rightarrow> 'w \<Rightarrow> ((int \<times> 32 word) \<times> 'w) option) option"
  tr_get_payload :: "(fwk_id \<Rightarrow> 'w \<Rightarrow> ((int \<times> 8 word list option \<times> nat) \<times> 'w) option) option"
  tr_write_payload :: "(fwk_id \<Rightarrow> nat \<Rightarrow> 8 word list option \<Rightarrow> nat \<Rightarrow> 'w \<Rightarrow> (int \<times> 'w) option) option"
  tr_respond :: "(fwk_id \<Rightarrow> 8 word list option \<Rightarrow> nat \<Rightarrow> 'w \<Rightarrow> (int \<times> 'w) option) option"
  tr_transmit :: "(fwk_id \<Rightarrow> 32 word \<Rightarrow> 8 word list option \<Rightarrow> nat \<Rightarrow> bool \<Rightarrow> 'w \<Rightarrow> (int \<times> 'w) option) option"
  tr_release :: "(fwk_id \<Rightarrow> 'w \<Rightarrow> (int \<times> 'w) option) option"

type_synonym 'w scmi_handler = "fwk_id \<Rightarrow> fwk_id \<Rightarrow> 8 word list option \<Rightarrow> nat \<Rightarrow> 32 word \<Rightarrow> 'w scmi_ctx \<Rightarrow> (int \<times> 'w scmi_ctx) option"

text \<open>The protocol interface \<^verbatim>\<open>struct mod_scmi_to_protocol_api\<close>.\<close>

record 'w scmi_protocol_api =
  get_scmi_protocol_id_fn :: "(fwk_id \<Rightarrow> 'w \<Rightarrow> ((int \<times> 8 word) \<times> 'w) option) option"
  message_handler_fn :: "'w scmi_handler option"
  notification_handler_fn :: "'w scmi_handler option"

text \<open>The calls the module makes to the interface of the resource permissions module.\<close>

record 'w res_perms_calls =
  rp_agent_has_protocol_permission :: "32 word \<Rightarrow> 32 word \<Rightarrow> 'w \<Rightarrow> (32 word \<times> 'w) option"
  rp_agent_set_device_permission :: "32 word \<Rightarrow> 32 word \<Rightarrow> 32 word \<Rightarrow> 'w \<Rightarrow> (int \<times> 'w) option"
  rp_agent_set_device_protocol_permission :: "32 word \<Rightarrow> 32 word \<Rightarrow> 32 word \<Rightarrow> 32 word \<Rightarrow> 'w \<Rightarrow> (int \<times> 'w) option"
  rp_agent_reset_config :: "32 word \<Rightarrow> 32 word \<Rightarrow> 'w \<Rightarrow> (int \<times> 'w) option"

text \<open>
  The build: \<open>has_resource_perms\<close>, \<open>has_base_protocol\<close> and \<open>has_scmi_notifications\<close> are the switches
  BUILD_HAS_MOD_RESOURCE_PERMS, BUILD_HAS_BASE_PROTOCOL and BUILD_HAS_SCMI_NOTIFICATIONS.
\<close>

record scmi_build = build +
  has_resource_perms :: bool
  has_base_protocol :: bool
  has_scmi_notifications :: bool

record 'w scmi_env =
  scmi_bc :: scmi_build
  scmi_srv :: "'w fwk_services"
  srv_element_name :: "fwk_id \<Rightarrow> 'w \<Rightarrow> string option option"
  srv_service_config :: "fwk_id \<Rightarrow> 'w \<Rightarrow> mod_scmi_service_config option option"
  scmi_transports :: "nat \<Rightarrow> 'w scmi_transport"
  scmi_protocols :: "nat \<Rightarrow> 'w scmi_protocol_api"
  scmi_res_perms :: "nat \<Rightarrow> 'w res_perms_calls"
  scmi_module_idx :: "32 word"
  res_perms_module_idx :: "32 word"
  from_protocol_api :: nat
  from_protocol_req_api :: nat
  from_transport_api :: nat
  notification_api :: nat
  fwk_build_version :: "32 word"

section \<open>Access to the state\<close>

text \<open>Reading an array: past its end is undefined.\<close>

definition elem_at :: "'a list \<Rightarrow> nat \<Rightarrow> 'a option" where
  "elem_at xs i = (if i < length xs then Some (xs ! i) else None)"

lemma elem_at_Some_iff [simp]: "elem_at xs i = Some x \<longleftrightarrow> i < length xs \<and> x = xs ! i"
  by (auto simp: elem_at_def)

lemma elem_at_ok: "i < length xs \<Longrightarrow> elem_at xs i = Some (xs ! i)"
  by (simp add: elem_at_def)

definition service_index :: "fwk_id \<Rightarrow> 'w scmi_ctx \<Rightarrow> nat option" where
  "service_index service_id s = do { e \<leftarrow> fwk_id_get_element_idx service_id; elem_at (service_ctx_table s) (unat e); Some (unat e) }"

definition get_service :: "nat \<Rightarrow> 'w scmi_ctx \<Rightarrow> scmi_service_ctx option" where
  "get_service i s = elem_at (service_ctx_table s) i"

definition upd_service :: "nat \<Rightarrow> (scmi_service_ctx \<Rightarrow> scmi_service_ctx) \<Rightarrow> 'w scmi_ctx \<Rightarrow> 'w scmi_ctx" where
  "upd_service i f s = s\<lparr>service_ctx_table := (service_ctx_table s)[i := f (service_ctx_table s ! i)]\<rparr>"

definition service_of :: "fwk_id \<Rightarrow> 'w scmi_ctx \<Rightarrow> scmi_service_ctx option" where
  "service_of service_id s = do { i \<leftarrow> service_index service_id s; get_service i s }"

text \<open>A call into the world, through a function pointer.\<close>

definition call_world :: "('w \<Rightarrow> ('r \<times> 'w) option) \<Rightarrow> 'w scmi_ctx \<Rightarrow> ('r \<times> 'w scmi_ctx) option" where
  "call_world f s = do { (r, w) \<leftarrow> f (scmi_world s); Some (r, s\<lparr>scmi_world := w\<rparr>) }"

definition call_transport ::
  "'w scmi_env \<Rightarrow> scmi_service_ctx \<Rightarrow> ('w scmi_transport \<Rightarrow> (fwk_id \<Rightarrow> 'w \<Rightarrow> ('r \<times> 'w) option) option) \<Rightarrow> 'w scmi_ctx \<Rightarrow> ('r \<times> 'w scmi_ctx) option" where
  "call_transport env svc sel s =
     do {
       api \<leftarrow> svc_transport_api svc;
       f \<leftarrow> sel (scmi_transports env api);
       call_world (f (svc_transport_id svc)) s
     }"

text \<open>A call through the copy of the transport's \<^verbatim>\<open>respond\<close> in the service context.\<close>

definition call_respond :: "'w scmi_env \<Rightarrow> scmi_service_ctx \<Rightarrow> 8 word list option \<Rightarrow> nat \<Rightarrow> 'w scmi_ctx \<Rightarrow> (int \<times> 'w scmi_ctx) option" where
  "call_respond env svc payload len s =
     do {
       api \<leftarrow> svc_respond svc;
       f \<leftarrow> tr_respond (scmi_transports env api);
       call_world (f (svc_transport_id svc) payload len) s
     }"

text \<open>The bytes of 32-bit values and of character arrays of 16 bytes, as \<^verbatim>\<open>strncpy\<close> of 15 fills them.\<close>

definition le32 :: "32 word \<Rightarrow> 8 word list" where
  "le32 v = [ucast v, ucast (drop_bit 8 v), ucast (drop_bit 16 v), ucast (drop_bit 24 v)]"

definition status_bytes :: "int \<Rightarrow> 8 word list" where
  "status_bytes st = le32 (word_of_int st)"

definition name16 :: "string \<Rightarrow> 8 word list" where
  "name16 s = (let cs = take 15 (map of_char s) in cs @ replicate (16 - length cs) 0)"

lemma le32_length [simp]: "length (le32 v) = 4"
  by (simp add: le32_def)

lemma status_bytes_length [simp]: "length (status_bytes st) = 4"
  by (simp add: status_bytes_def)

lemma name16_length [simp]: "length (name16 s) = 16"
  by (simp add: name16_def Let_def)

lemma get_u32_le32 [simp]: "get_u32 0 (le32 v @ bs) = Some v"
  by (simp add: get_u32_def le32_def word32_of_bytes)

lemma get_status_bytes [simp]:
  "- (2 ^ 31) \<le> st \<Longrightarrow> st < 2 ^ 31 \<Longrightarrow> get_status 0 (status_bytes st @ bs) = Some st"
  by (simp add: get_status_def status_bytes_def sint_sbintrunc' signed_take_bit_int_eq_self)

section \<open>Message headers\<close>

definition SCMI_MESSAGE_HEADER_MESSAGE_ID_MASK :: "32 word" where [scmi_consts]: "SCMI_MESSAGE_HEADER_MESSAGE_ID_MASK = 0xFF"
definition SCMI_MESSAGE_HEADER_MESSAGE_TYPE_MASK :: "32 word" where [scmi_consts]: "SCMI_MESSAGE_HEADER_MESSAGE_TYPE_MASK = push_bit 8 0x3"
definition SCMI_MESSAGE_HEADER_PROTOCOL_ID_MASK :: "32 word" where [scmi_consts]: "SCMI_MESSAGE_HEADER_PROTOCOL_ID_MASK = push_bit 10 0xFF"
definition SCMI_MESSAGE_HEADER_TOKEN_MASK :: "32 word" where [scmi_consts]: "SCMI_MESSAGE_HEADER_TOKEN_MASK = push_bit 18 0x3FF"

definition scmi_message_header :: "8 word \<Rightarrow> 8 word \<Rightarrow> 8 word \<Rightarrow> 8 word \<Rightarrow> 32 word" where
  "scmi_message_header message_id message_type protocol_id token =
     (push_bit 0 (ucast message_id) AND SCMI_MESSAGE_HEADER_MESSAGE_ID_MASK) OR
     (push_bit 8 (ucast message_type) AND SCMI_MESSAGE_HEADER_MESSAGE_TYPE_MASK) OR
     (push_bit 10 (ucast protocol_id) AND SCMI_MESSAGE_HEADER_PROTOCOL_ID_MASK) OR
     (push_bit 18 (ucast token) AND SCMI_MESSAGE_HEADER_TOKEN_MASK)"

definition read_message_id :: "32 word \<Rightarrow> 16 word" where
  "read_message_id h = ucast (drop_bit 0 (h AND SCMI_MESSAGE_HEADER_MESSAGE_ID_MASK))"

definition read_message_type :: "32 word \<Rightarrow> 8 word" where
  "read_message_type h = ucast (drop_bit 8 (h AND SCMI_MESSAGE_HEADER_MESSAGE_TYPE_MASK))"

definition read_protocol_id :: "32 word \<Rightarrow> 8 word" where
  "read_protocol_id h = ucast (drop_bit 10 (h AND SCMI_MESSAGE_HEADER_PROTOCOL_ID_MASK))"

definition read_token :: "32 word \<Rightarrow> 16 word" where
  "read_token h = ucast (drop_bit 18 (h AND SCMI_MESSAGE_HEADER_TOKEN_MASK))"

text \<open>What the reads see of a header that was put together.\<close>

lemma header_masks:
  "SCMI_MESSAGE_HEADER_MESSAGE_ID_MASK = mask 8" "SCMI_MESSAGE_HEADER_MESSAGE_TYPE_MASK = push_bit 8 (mask 2)"
  "SCMI_MESSAGE_HEADER_PROTOCOL_ID_MASK = push_bit 10 (mask 8)" "SCMI_MESSAGE_HEADER_TOKEN_MASK = push_bit 18 (mask 10)"
  by (simp_all add: scmi_consts mask_eq_exp_minus_1)

lemmas header_bits = scmi_message_header_def read_message_id_def read_message_type_def read_protocol_id_def read_token_def header_masks

lemma read_message_id_header: "read_message_id (scmi_message_header m t p k) = ucast m"
  by (rule bit_word_eqI) (auto simp: header_bits bit_simps dest: bit_imp_le_length)

lemma read_message_type_header: "read_message_type (scmi_message_header m t p k) = take_bit 2 t"
  by (rule bit_word_eqI) (auto simp: header_bits bit_simps dest: bit_imp_le_length)

lemma read_protocol_id_header: "read_protocol_id (scmi_message_header m t p k) = p"
  by (rule bit_word_eqI) (auto simp: header_bits bit_simps dest: bit_imp_le_length)

lemma read_token_header: "read_token (scmi_message_header m t p k) = ucast k"
  by (rule bit_word_eqI) (auto simp: header_bits bit_simps dest: bit_imp_le_length)

lemmas read_header = read_message_id_header read_message_type_header read_protocol_id_header read_token_header

end
