(* ===== verification/Mod_Scmi_Api.thy ===== *)
theory Mod_Scmi_Api
  imports Mod_Scmi_State
begin

text \<open>
  The interfaces the SCMI module offers, from \<^verbatim>\<open>module/scmi/src/mod_scmi.c\<close>: to transports (a
  message arrived), to protocols (agents, payloads, responses, validation, notification) and to
  requesters (send a command, release the channel). The facts at the end say what each does with the
  transport of a service that is in a given situation.
\<close>

section \<open>Message types\<close>

definition is_message_type_valid :: "scmi_service_ctx \<Rightarrow> bool" where
  "is_message_type_valid svc \<longleftrightarrow>
     scmi_message_type svc = MOD_SCMI_MESSAGE_TYPE_COMMAND \<or>
     scmi_message_type svc = MOD_SCMI_MESSAGE_TYPE_DELAYED_RESPONSE \<or>
     scmi_message_type svc = MOD_SCMI_MESSAGE_TYPE_NOTIFICATION"

section \<open>From transports\<close>

definition signal_error :: "'w scmi_env \<Rightarrow> fwk_id \<Rightarrow> 'w scmi_ctx \<Rightarrow> (int \<times> 'w scmi_ctx) option" where
  "signal_error env service_id s =
     do {
       svc \<leftarrow> service_of service_id s;
       call_respond env svc (Some (status_bytes SCMI_PROTOCOL_ERROR)) 4 s
     }"

definition scmi_message_event :: "'w scmi_env \<Rightarrow> fwk_id \<Rightarrow> fwk_event_light" where
  "scmi_message_event env service_id =
     \<lparr>light_source_id = FWK_ID_MODULE (scmi_module_idx env), light_target_id = service_id,
      light_event_id = FWK_ID_EVENT (scmi_module_idx env) 0, light_response_requested = False\<rparr>"

definition signal_message :: "'w scmi_env \<Rightarrow> fwk_id \<Rightarrow> 'w scmi_ctx \<Rightarrow> (int \<times> 'w scmi_ctx) option" where
  "signal_message env service_id s =
     do {
       svc \<leftarrow> service_of service_id s;
       ((status, header), s) \<leftarrow> call_transport env svc tr_get_message_header s;
       if status \<noteq> FWK_SUCCESS then Some (status, s)
       else call_world (srv_put_event_light (scmi_srv env) (scmi_message_event env service_id)) s
     }"

section \<open>From protocols\<close>

text \<open>An output parameter is \<open>None\<close> for the null pointer and holds the caller's value otherwise.\<close>

definition get_agent_count :: "32 word option \<Rightarrow> 'w scmi_ctx \<Rightarrow> (int \<times> 32 word option) option" where
  "get_agent_count out s =
     (if out = None then Some (FWK_E_PARAM, out)
      else do { config \<leftarrow> scmi_config s; Some (FWK_SUCCESS, Some (agent_count config + 1)) })"

definition get_agent_id :: "fwk_id \<Rightarrow> 32 word option \<Rightarrow> 'w scmi_ctx \<Rightarrow> (int \<times> 32 word option) option" where
  "get_agent_id service_id out s =
     (if out = None then Some (FWK_E_PARAM, out)
      else do {
        svc \<leftarrow> service_of service_id s;
        config \<leftarrow> svc_config svc;
        Some (FWK_SUCCESS, Some (cfg_scmi_agent_id config))
      })"

definition get_agent_type :: "32 word \<Rightarrow> 32 word option \<Rightarrow> 'w scmi_ctx \<Rightarrow> (int \<times> 32 word option) option" where
  "get_agent_type scmi_agent_id out s =
     (if out = None then Some (FWK_E_PARAM, out)
      else do {
        config \<leftarrow> scmi_config s;
        if scmi_agent_id > agent_count config \<or> scmi_agent_id = MOD_SCMI_PLATFORM_ID then Some (FWK_E_PARAM, out)
        else do {
          agent \<leftarrow> elem_at (agent_table config) (unat scmi_agent_id);
          Some (FWK_SUCCESS, Some (ag_type agent))
        }
      })"

definition get_max_payload_size :: "'w scmi_env \<Rightarrow> fwk_id \<Rightarrow> nat option \<Rightarrow> 'w scmi_ctx \<Rightarrow> ((int \<times> nat option) \<times> 'w scmi_ctx) option" where
  "get_max_payload_size env service_id out s =
     (if out = None then Some ((FWK_E_PARAM, out), s)
      else do {
        svc \<leftarrow> service_of service_id s;
        ((status, len), s) \<leftarrow> call_transport env svc tr_get_max_payload_size s;
        Some ((status, Some len), s)
      })"

definition write_payload :: "'w scmi_env \<Rightarrow> fwk_id \<Rightarrow> nat \<Rightarrow> 8 word list option \<Rightarrow> nat \<Rightarrow> 'w scmi_ctx \<Rightarrow> (int \<times> 'w scmi_ctx) option" where
  "write_payload env service_id offset payload len s =
     do {
       svc \<leftarrow> service_of service_id s;
       api \<leftarrow> svc_transport_api svc;
       f \<leftarrow> tr_write_payload (scmi_transports env api);
       call_world (f (svc_transport_id svc) offset payload len) s
     }"

text \<open>The code reads the first 32 bits of a payload, to log a status below zero.\<close>

definition respond :: "'w scmi_env \<Rightarrow> fwk_id \<Rightarrow> 8 word list option \<Rightarrow> nat \<Rightarrow> 'w scmi_ctx \<Rightarrow> (int \<times> 'w scmi_ctx) option" where
  "respond env service_id payload len s =
     do {
       svc \<leftarrow> service_of service_id s;
       status \<leftarrow> (case payload of None \<Rightarrow> Some SCMI_SUCCESS | Some bs \<Rightarrow> get_status 0 bs);
       call_respond env svc payload len s
     }"

definition scmi_permissions_handler :: "'w scmi_env \<Rightarrow> fwk_id \<Rightarrow> 32 word \<Rightarrow> 32 word \<Rightarrow> 'w scmi_ctx \<Rightarrow> (int \<times> 'w scmi_ctx) option" where
  "scmi_permissions_handler env service_id message_id protocol_id s =
     do {
       (status, agent_id) \<leftarrow> get_agent_id service_id (Some 0) s;
       if status \<noteq> FWK_SUCCESS then Some (FWK_E_PARAM, s)
       else if message_id < MOD_SCMI_MESSAGE_ID_ATTRIBUTE
       then do {
         agent_id \<leftarrow> agent_id;
         api \<leftarrow> res_perms_api s;
         (perms, s) \<leftarrow> call_world (rp_agent_has_protocol_permission (scmi_res_perms env api) agent_id protocol_id) s;
         Some (if perms = MOD_RES_PERMS_ACCESS_DENIED then FWK_E_ACCESS else FWK_SUCCESS, s)
       }
       else Some (FWK_SUCCESS, s)
     }"

definition is_valid_protocol_id :: "8 word \<Rightarrow> bool" where
  "is_valid_protocol_id protocol_id \<longleftrightarrow>
     protocol_id \<ge> MOD_SCMI_PLATFORM_PROTOCOL_ID_MIN \<or> protocol_id \<in> set valid_protocol_ids"

definition scmi_message_validation ::
  "'w scmi_env \<Rightarrow> 8 word \<Rightarrow> fwk_id \<Rightarrow> 8 word list option \<Rightarrow> nat \<Rightarrow> nat \<Rightarrow> nat list option \<Rightarrow> nat \<Rightarrow> 'h option list \<Rightarrow> 'w scmi_ctx \<Rightarrow>
   (int \<times> 'w scmi_ctx) option" where
  "scmi_message_validation env protocol_id service_id payload payload_size message_id payload_size_table command_count handler_table s =
     do {
       fwk_assert (payload \<noteq> None);
       (case payload_size_table of
          None \<Rightarrow> Some (SCMI_INVALID_PARAMETERS, s)
        | Some sizes \<Rightarrow>
            if \<not> is_valid_protocol_id protocol_id then Some (SCMI_INVALID_PARAMETERS, s)
            else if message_id \<ge> command_count then Some (SCMI_NOT_FOUND, s)
            else do {
              expected \<leftarrow> elem_at sizes message_id;
              if payload_size \<noteq> expected \<and> expected \<noteq> MOD_SCMI_PROTOCOL_DAYNAMIC_PAYLOAD_SIZE then Some (SCMI_PROTOCOL_ERROR, s)
              else do {
                handler \<leftarrow> elem_at handler_table message_id;
                if handler = None then Some (SCMI_NOT_SUPPORTED, s)
                else if has_resource_perms (scmi_bc env)
                then do {
                  (status, s) \<leftarrow> scmi_permissions_handler env service_id (of_nat message_id) (ucast protocol_id) s;
                  Some (if status = FWK_E_PARAM then SCMI_INVALID_PARAMETERS
                        else if status = FWK_E_ACCESS then SCMI_DENIED else SCMI_SUCCESS, s)
                }
                else Some (SCMI_SUCCESS, s)
              }
            })
     }"

definition scmi_notify :: "'w scmi_env \<Rightarrow> fwk_id \<Rightarrow> 32 word \<Rightarrow> 32 word \<Rightarrow> 8 word list option \<Rightarrow> nat \<Rightarrow> 'w scmi_ctx \<Rightarrow> 'w scmi_ctx option" where
  "scmi_notify env service_id protocol_id message_id payload len s =
     do {
       none \<leftarrow> fwk_id_is_equal service_id FWK_ID_NONE;
       if none then Some s
       else do {
         svc \<leftarrow> service_of service_id s;
         (case svc_config svc of
            None \<Rightarrow> Some s
          | Some config \<Rightarrow> do {
              no_p2a \<leftarrow> fwk_id_is_equal (cfg_scmi_p2a_id config) FWK_ID_NONE;
              if no_p2a then Some s
              else do {
                p2a \<leftarrow> service_of (cfg_scmi_p2a_id config) s;
                (case Option.bind (svc_transmit p2a) (\<lambda>api. tr_transmit (scmi_transports env api)) of
                   None \<Rightarrow> Some s
                 | Some f \<Rightarrow> do {
                     let header = scmi_message_header (ucast message_id) MOD_SCMI_MESSAGE_TYPE_NOTIFICATION (ucast protocol_id) 0;
                     (status, s) \<leftarrow> call_world (f (svc_transport_id p2a) header payload len False) s;
                     Some s
                   })
              }
            })
       }
     }"

section \<open>From requesters\<close>

definition scmi_send_message ::
  "'w scmi_env \<Rightarrow> 8 word \<Rightarrow> 8 word \<Rightarrow> 8 word \<Rightarrow> fwk_id \<Rightarrow> 8 word list option \<Rightarrow> nat \<Rightarrow> bool \<Rightarrow> 'w scmi_ctx \<Rightarrow> (int \<times> 'w scmi_ctx) option" where
  "scmi_send_message env message_id protocol_id token service_id payload payload_size request_ack s =
     do {
       let header = scmi_message_header message_id 0 protocol_id token;
       none \<leftarrow> fwk_id_is_equal service_id FWK_ID_NONE;
       if none then Some (FWK_E_DATA, s)
       else do {
         svc \<leftarrow> service_of service_id s;
         (case svc_transport_api svc of
            None \<Rightarrow> Some (FWK_E_DATA, s)
          | Some api \<Rightarrow> do {
              f \<leftarrow> tr_transmit (scmi_transports env api);
              call_world (f (svc_transport_id svc) header payload payload_size request_ack) s
            })
       }
     }"

definition response_message_handler :: "'w scmi_env \<Rightarrow> fwk_id \<Rightarrow> 'w scmi_ctx \<Rightarrow> (int \<times> 'w scmi_ctx) option" where
  "response_message_handler env service_id s =
     do {
       svc \<leftarrow> service_of service_id s;
       call_transport env svc tr_release s
     }"

section \<open>Frame facts\<close>

text \<open>A call into the world changes nothing of the module.\<close>

definition same_scmi :: "'w scmi_ctx \<Rightarrow> 'w scmi_ctx \<Rightarrow> bool" where
  "same_scmi s t \<longleftrightarrow> t = s\<lparr>scmi_world := scmi_world t\<rparr>"

lemma same_scmi_refl [simp]: "same_scmi s s"
  by (simp add: same_scmi_def)

lemma same_scmi_world [simp]: "same_scmi s (s\<lparr>scmi_world := w\<rparr>)"
  by (simp add: same_scmi_def)

lemma same_scmi_iff: "same_scmi s t \<longleftrightarrow> (\<exists>w. t = s\<lparr>scmi_world := w\<rparr>)"
  by (metis same_scmi_def same_scmi_world scmi_ctx.surjective scmi_ctx.update_convs(12))

lemma same_scmi_trans: "same_scmi s t \<Longrightarrow> same_scmi t u \<Longrightarrow> same_scmi s u"
  by (auto simp: same_scmi_iff)

lemma call_world_same: "call_world f s = Some (r, t) \<Longrightarrow> same_scmi s t"
  by (auto simp: call_world_def bind_Some_iff)

lemma call_respond_same: "call_respond env svc p n s = Some (st, t) \<Longrightarrow> same_scmi s t"
  by (auto simp: call_respond_def bind_Some_iff dest: call_world_same)

lemma call_transport_same: "call_transport env svc sel s = Some (r, t) \<Longrightarrow> same_scmi s t"
  unfolding call_transport_def by (auto simp: bind_Some_iff intro: call_world_same)

lemma respond_same: "respond env i p n s = Some (st, t) \<Longrightarrow> same_scmi s t"
  by (auto simp: respond_def bind_Some_iff dest: call_respond_same)

lemma scmi_notify_same: "scmi_notify env i p m bs n s = Some t \<Longrightarrow> same_scmi s t"
  unfolding scmi_notify_def Let_def
  by (auto simp: bind_Some_iff split: if_splits option.splits; erule call_world_same)

lemma service_of_same: "same_scmi s t \<Longrightarrow> service_of i t = service_of i s"
  by (auto simp: same_scmi_iff service_of_def service_index_def get_service_def)

lemma service_of_world [simp]: "service_of i (s\<lparr>scmi_world := w\<rparr>) = service_of i s"
  by (simp add: service_of_def service_index_def get_service_def)

end
