(* ===== verification/Mod_Scmi_Base.thy ===== *)
theory Mod_Scmi_Base
  imports Mod_Scmi_Api
begin

text \<open>
  The SCMI Base protocol, \<^verbatim>\<open>module/scmi/src/mod_scmi_base.c\<close>: one definition per command, the two
  tables and the message handler. A handler in the table is named by a value of \<open>base_handler\<close>, so
  that the code's comparison of function pointers is an equation. The static pointers to the module's
  interface and context are checked once, by the message handler, before it uses them.
\<close>

section \<open>Tables\<close>

datatype base_handler =
    PROTOCOL_VERSION_HANDLER | PROTOCOL_ATTRIBUTES_HANDLER | MESSAGE_ATTRIBUTES_HANDLER
  | DISCOVER_VENDOR_HANDLER | DISCOVER_SUB_VENDOR_HANDLER | IMPLEMENTATION_VERSION_HANDLER
  | LIST_PROTOCOLS_HANDLER | DISCOVER_AGENT_HANDLER | MESSAGE_NOT_SUPPORTED
  | SET_DEVICE_PERMISSIONS_HANDLER | SET_PROTOCOL_PERMISSIONS_HANDLER | RESET_AGENT_CONFIG_HANDLER

definition MOD_SCMI_BASE_COMMAND_COUNT :: nat where [scmi_consts]: "MOD_SCMI_BASE_COMMAND_COUNT = 12"
definition SCMI_PROTOCOL_VERSION_BASE :: "32 word" where [scmi_consts]: "SCMI_PROTOCOL_VERSION_BASE = 0x20000"

definition base_payload_size_table :: "bool \<Rightarrow> nat list" where
  "base_payload_size_table resource_perms =
     [0, 0, 4, 0, 0, 0, 4, 4, 0] @ (if resource_perms then [12, 16, 8] else [0, 0, 0])"

definition base_handler_table :: "bool \<Rightarrow> base_handler option list" where
  "base_handler_table resource_perms =
     map Some ([PROTOCOL_VERSION_HANDLER, PROTOCOL_ATTRIBUTES_HANDLER, MESSAGE_ATTRIBUTES_HANDLER,
       DISCOVER_VENDOR_HANDLER, DISCOVER_SUB_VENDOR_HANDLER, IMPLEMENTATION_VERSION_HANDLER,
       LIST_PROTOCOLS_HANDLER, DISCOVER_AGENT_HANDLER, MESSAGE_NOT_SUPPORTED] @
       (if resource_perms
        then [SET_DEVICE_PERMISSIONS_HANDLER, SET_PROTOCOL_PERMISSIONS_HANDLER, RESET_AGENT_CONFIG_HANDLER]
        else [MESSAGE_NOT_SUPPORTED, MESSAGE_NOT_SUPPORTED, MESSAGE_NOT_SUPPORTED]))"

definition default_agent_names :: "string list" where
  "default_agent_names = [''PSCI'', ''MANAGEMENT'', ''OSPM'', ''OTHER'']"

text \<open>
  The response of a command whose structure is its status followed by \<open>rest\<close>: the whole structure
  on success, the status alone otherwise.
\<close>

definition respond_values :: "'w scmi_env \<Rightarrow> fwk_id \<Rightarrow> int \<Rightarrow> 8 word list \<Rightarrow> 'w scmi_ctx \<Rightarrow> (int \<times> 'w scmi_ctx) option" where
  "respond_values env service_id status rest s =
     respond env service_id (Some (status_bytes status @ rest)) (if status = SCMI_SUCCESS then 4 + length rest else 4) s"

text \<open>A parameter of a command: a 32-bit word at an offset of the payload.\<close>

definition parameter :: "nat \<Rightarrow> 8 word list option \<Rightarrow> 32 word option" where
  "parameter off payload = do { bs \<leftarrow> payload; get_u32 off bs }"

section \<open>Version, attributes, vendor\<close>

definition scmi_base_protocol_version_handler :: "'w scmi_env \<Rightarrow> fwk_id \<Rightarrow> 8 word list option \<Rightarrow> 'w scmi_ctx \<Rightarrow> (int \<times> 'w scmi_ctx) option" where
  "scmi_base_protocol_version_handler env service_id payload s =
     respond env service_id (Some (status_bytes SCMI_SUCCESS @ le32 SCMI_PROTOCOL_VERSION_BASE)) 8 s"

text \<open>The disabled protocols of PSCI agents: a loop over the table that ends at the first match.\<close>

fun scan_disabled :: "32 word list \<Rightarrow> nat \<Rightarrow> 32 word \<Rightarrow> bool option" where
  "scan_disabled ds 0 p = Some False"
| "scan_disabled [] (Suc n) p = None"
| "scan_disabled (d # ds) (Suc n) p = (if p = d then Some True else scan_disabled ds n p)"

definition psci_disabled :: "mod_scmi_config \<Rightarrow> 32 word \<Rightarrow> bool option" where
  "psci_disabled config protocol_id =
     scan_disabled (case dis_protocol_list_psci config of None \<Rightarrow> [] | Some ds \<Rightarrow> ds)
       (unat (dis_protocol_count_psci config)) protocol_id"

text \<open>The loop that counts the protocols the agent has access to, with the resource permissions module.\<close>

fun count_allowed :: "'w scmi_env \<Rightarrow> 32 word \<Rightarrow> nat list \<Rightarrow> nat \<Rightarrow> nat \<Rightarrow> 'w scmi_ctx \<Rightarrow> (nat \<times> 'w scmi_ctx) option" where
  "count_allowed env agent_id [] global count s = Some (count, s)"
| "count_allowed env agent_id (index # is) global count s =
     (if global \<ge> unat (protocol_count s) then Some (count, s)
      else do {
        idx \<leftarrow> elem_at (scmi_protocol_id_to_idx s) index;
        if idx = 0 \<or> index = unat MOD_SCMI_PROTOCOL_ID_BASE then count_allowed env agent_id is global count s
        else do {
          api \<leftarrow> res_perms_api s;
          (perms, s) \<leftarrow> call_world (rp_agent_has_protocol_permission (scmi_res_perms env api) agent_id (of_nat index)) s;
          count_allowed env agent_id is (global + 1) (if perms = MOD_RES_PERMS_ACCESS_ALLOWED then count + 1 else count) s
        }
      })"

definition SCMI_BASE_PROTOCOL_ATTRIBUTES :: "32 word \<Rightarrow> 32 word \<Rightarrow> 32 word" where
  "SCMI_BASE_PROTOCOL_ATTRIBUTES num_protocols num_agents = (num_protocols AND 0xFF) OR (push_bit 8 num_agents AND 0xFF00)"

definition scmi_base_protocol_attributes_handler :: "'w scmi_env \<Rightarrow> fwk_id \<Rightarrow> 8 word list option \<Rightarrow> 'w scmi_ctx \<Rightarrow> (int \<times> 'w scmi_ctx) option" where
  "scmi_base_protocol_attributes_handler env service_id payload s =
     do {
       (status, agent_id) \<leftarrow> get_agent_id service_id (Some 0) s;
       if status \<noteq> FWK_SUCCESS then Some (status, s)
       else do {
         agent_id \<leftarrow> agent_id;
         (status, count, s) \<leftarrow>
           (if has_resource_perms (scmi_bc env)
            then do {
              (count, s) \<leftarrow> count_allowed env agent_id [0..<256] 0 0 s;
              Some (FWK_SUCCESS, of_nat count, s)
            }
            else do {
              (status, agent_type) \<leftarrow> get_agent_type agent_id (Some 0) s;
              if status \<noteq> FWK_SUCCESS then Some (status, 0, s)
              else do {
                agent_type \<leftarrow> agent_type;
                if agent_type = SCMI_AGENT_TYPE_PSCI
                then do {
                  config \<leftarrow> scmi_config s;
                  fwk_assert (protocol_count s > dis_protocol_count_psci config);
                  Some (FWK_SUCCESS, protocol_count s - dis_protocol_count_psci config, s)
                }
                else Some (FWK_SUCCESS, protocol_count s, s)
              }
            });
         if status \<noteq> FWK_SUCCESS then Some (status, s)
         else do {
           config \<leftarrow> scmi_config s;
           respond env service_id
             (Some (status_bytes SCMI_SUCCESS @ le32 (SCMI_BASE_PROTOCOL_ATTRIBUTES count (agent_count config)))) 8 s
         }
       }
     }"

definition scmi_base_protocol_message_attributes_handler :: "'w scmi_env \<Rightarrow> fwk_id \<Rightarrow> 8 word list option \<Rightarrow> 'w scmi_ctx \<Rightarrow> (int \<times> 'w scmi_ctx) option" where
  "scmi_base_protocol_message_attributes_handler env service_id payload s =
     do {
       message_id \<leftarrow> parameter 0 payload;
       let table = base_handler_table (has_resource_perms (scmi_bc env));
       let known = unat message_id < length table \<and> table ! unat message_id \<noteq> None \<and> table ! unat message_id \<noteq> Some MESSAGE_NOT_SUPPORTED;
       respond_values env service_id (if known then SCMI_SUCCESS else SCMI_NOT_FOUND) (le32 0) s
     }"

definition scmi_base_discover_vendor_handler :: "'w scmi_env \<Rightarrow> fwk_id \<Rightarrow> 8 word list option \<Rightarrow> 'w scmi_ctx \<Rightarrow> (int \<times> 'w scmi_ctx) option" where
  "scmi_base_discover_vendor_handler env service_id payload s =
     do {
       config \<leftarrow> scmi_config s;
       respond env service_id
         (Some (status_bytes SCMI_SUCCESS @ (case vendor_identifier config of None \<Rightarrow> replicate 16 0 | Some v \<Rightarrow> name16 v))) 20 s
     }"

definition scmi_base_discover_sub_vendor_handler :: "'w scmi_env \<Rightarrow> fwk_id \<Rightarrow> 8 word list option \<Rightarrow> 'w scmi_ctx \<Rightarrow> (int \<times> 'w scmi_ctx) option" where
  "scmi_base_discover_sub_vendor_handler env service_id payload s =
     do {
       config \<leftarrow> scmi_config s;
       respond env service_id
         (Some (status_bytes SCMI_SUCCESS @ (case sub_vendor_identifier config of None \<Rightarrow> replicate 16 0 | Some v \<Rightarrow> name16 v))) 20 s
     }"

definition scmi_base_discover_implementation_version_handler :: "'w scmi_env \<Rightarrow> fwk_id \<Rightarrow> 8 word list option \<Rightarrow> 'w scmi_ctx \<Rightarrow> (int \<times> 'w scmi_ctx) option" where
  "scmi_base_discover_implementation_version_handler env service_id payload s =
     respond env service_id (Some (status_bytes SCMI_SUCCESS @ le32 (fwk_build_version env))) 8 s"

section \<open>Listing the protocols\<close>

text \<open>Whether an agent may see a protocol: a permission, or the PSCI agents' table of disabled protocols.\<close>

definition list_entry_allowed :: "'w scmi_env \<Rightarrow> 32 word \<Rightarrow> 32 word \<Rightarrow> 32 word \<Rightarrow> 'w scmi_ctx \<Rightarrow> (bool \<times> 'w scmi_ctx) option" where
  "list_entry_allowed env agent_id agent_type protocol_id s =
     (if has_resource_perms (scmi_bc env)
      then do {
        api \<leftarrow> res_perms_api s;
        (perms, s) \<leftarrow> call_world (rp_agent_has_protocol_permission (scmi_res_perms env api) agent_id protocol_id) s;
        Some (perms \<noteq> MOD_RES_PERMS_ACCESS_DENIED, s)
      }
      else if agent_type = SCMI_AGENT_TYPE_PSCI
      then do {
        config \<leftarrow> scmi_config s;
        fwk_assert (dis_protocol_list_psci config \<noteq> None \<or> dis_protocol_count_psci config = 0);
        disabled \<leftarrow> psci_disabled config protocol_id;
        Some (\<not> disabled, s)
      }
      else Some (True, s))"

text \<open>
  The loop over the identifiers: \<open>count\<close> is \<^verbatim>\<open>protocol_count\<close>, \<open>avail\<close> is \<^verbatim>\<open>avail_protocol_count\<close>, and the
  payload written so far ends at \<open>8 + avail\<close>, the code's \<^verbatim>\<open>payload_size\<close>.
\<close>

fun list_protocols_loop ::
  "'w scmi_env \<Rightarrow> fwk_id \<Rightarrow> 32 word \<Rightarrow> 32 word \<Rightarrow> nat \<Rightarrow> nat \<Rightarrow> nat list \<Rightarrow> nat \<times> nat \<times> nat \<Rightarrow> 'w scmi_ctx \<Rightarrow>
   (int \<times> (nat \<times> nat \<times> nat) \<times> 'w scmi_ctx) option" where
  "list_protocols_loop env service_id agent_id agent_type skip count_max [] c s = Some (FWK_SUCCESS, c, s)"
| "list_protocols_loop env service_id agent_id agent_type skip count_max (index # is) (count, payload_size, avail) s =
     (if count \<ge> count_max then Some (FWK_SUCCESS, (count, payload_size, avail), s)
      else do {
        idx \<leftarrow> elem_at (scmi_protocol_id_to_idx s) index;
        if idx = 0 \<or> index = unat MOD_SCMI_PROTOCOL_ID_BASE
        then list_protocols_loop env service_id agent_id agent_type skip count_max is (count, payload_size, avail) s
        else do {
          (allowed, s) \<leftarrow> list_entry_allowed env agent_id agent_type (of_nat index) s;
          if \<not> allowed
          then list_protocols_loop env service_id agent_id agent_type skip count_max is (count, payload_size, avail) s
          else if count + 1 \<le> skip
          then list_protocols_loop env service_id agent_id agent_type skip count_max is (count + 1, payload_size, avail) s
          else do {
            (status, s) \<leftarrow> write_payload env service_id payload_size (Some [of_nat index]) 1 s;
            if status \<noteq> FWK_SUCCESS then Some (status, (count + 1, payload_size, avail), s)
            else list_protocols_loop env service_id agent_id agent_type skip count_max is (count + 1, payload_size + 1, avail + 1) s
          }
        }
      })"

text \<open>The label \<^verbatim>\<open>error\<close>: the response, then the status of the failed step.\<close>

definition list_protocols_error :: "'w scmi_env \<Rightarrow> fwk_id \<Rightarrow> int \<Rightarrow> nat \<Rightarrow> int \<Rightarrow> 'w scmi_ctx \<Rightarrow> (int \<times> 'w scmi_ctx) option" where
  "list_protocols_error env service_id return_status num_protocols status s =
     do {
       (respond_status, s) \<leftarrow> respond_values env service_id return_status (le32 (of_nat num_protocols)) s;
       Some (status, s)
     }"

text \<open>The number of protocols an agent is told of at most, before the size of the payload bounds it.\<close>

definition list_protocol_count :: "'w scmi_env \<Rightarrow> 32 word \<Rightarrow> 'w scmi_ctx \<Rightarrow> nat option" where
  "list_protocol_count env agent_type s =
     (if \<not> has_resource_perms (scmi_bc env) \<and> agent_type = SCMI_AGENT_TYPE_PSCI
      then do {
        config \<leftarrow> scmi_config s;
        fwk_assert (protocol_count s > dis_protocol_count_psci config);
        Some (unat (protocol_count s - dis_protocol_count_psci config))
      }
      else Some (unat (protocol_count s)))"

definition scmi_base_discover_list_protocols_handler :: "'w scmi_env \<Rightarrow> fwk_id \<Rightarrow> 8 word list option \<Rightarrow> 'w scmi_ctx \<Rightarrow> (int \<times> 'w scmi_ctx) option" where
  "scmi_base_discover_list_protocols_handler env service_id payload s =
     do {
       (status, agent_id) \<leftarrow> get_agent_id service_id (Some 0) s;
       if status \<noteq> FWK_SUCCESS then list_protocols_error env service_id SCMI_GENERIC_ERROR 0 status s
       else do {
         agent_id \<leftarrow> agent_id;
         (status, agent_type) \<leftarrow> (if has_resource_perms (scmi_bc env) then Some (FWK_SUCCESS, Some 0) else get_agent_type agent_id (Some 0) s);
         if status \<noteq> FWK_SUCCESS then list_protocols_error env service_id SCMI_GENERIC_ERROR 0 status s
         else do {
           agent_type \<leftarrow> agent_type;
           ((status, max_payload_size), s) \<leftarrow> get_max_payload_size env service_id (Some 0) s;
           if status \<noteq> FWK_SUCCESS then list_protocols_error env service_id SCMI_GENERIC_ERROR 0 status s
           else do {
             max_payload_size \<leftarrow> max_payload_size;
             if max_payload_size < 12 then list_protocols_error env service_id SCMI_GENERIC_ERROR 0 FWK_E_SIZE s
             else do {
               let entry_count = max_payload_size - 8;
               skip \<leftarrow> parameter 0 payload;
               protocols \<leftarrow> list_protocol_count env agent_type s;
               let count_max = min protocols (size_add (unat skip) entry_count);
               (status, (count, payload_size, avail), s) \<leftarrow>
                 list_protocols_loop env service_id agent_id agent_type (unat skip) count_max [0..<256] (0, 8, 0) s;
               if status \<noteq> FWK_SUCCESS then list_protocols_error env service_id SCMI_GENERIC_ERROR 0 status s
               else if unat skip > count then list_protocols_error env service_id SCMI_INVALID_PARAMETERS 0 status s
               else do {
                 (status, s) \<leftarrow> write_payload env service_id 0 (Some (status_bytes SCMI_SUCCESS @ le32 (of_nat avail))) 8 s;
                 if status \<noteq> FWK_SUCCESS then list_protocols_error env service_id SCMI_SUCCESS avail status s
                 else respond env service_id None ((payload_size + 3) div 4 * 4) s
               }
             }
           }
         }
       }
     }"

section \<open>Agents\<close>

definition scmi_base_discover_agent_handler :: "'w scmi_env \<Rightarrow> fwk_id \<Rightarrow> 8 word list option \<Rightarrow> 'w scmi_ctx \<Rightarrow> (int \<times> 'w scmi_ctx) option" where
  "scmi_base_discover_agent_handler env service_id payload s =
     do {
       id \<leftarrow> parameter 0 payload;
       config \<leftarrow> scmi_config s;
       if id > agent_count config \<and> id \<noteq> 0xFFFFFFFF
       then respond_values env service_id SCMI_NOT_FOUND (le32 0 @ replicate 16 0) s
       else if id = MOD_SCMI_PLATFORM_ID
       then respond_values env service_id SCMI_SUCCESS (le32 MOD_SCMI_PLATFORM_ID @ name16 ''platform'') s
       else if id = 0xFFFFFFFF
       then do {
         (status, agent_id) \<leftarrow> get_agent_id service_id (Some 0) s;
         if status \<noteq> FWK_SUCCESS then Some (FWK_E_ACCESS, s)
         else do {
           agent_id \<leftarrow> agent_id;
           name \<leftarrow> srv_element_name env service_id (scmi_world s);
           name \<leftarrow> name;
           respond_values env service_id SCMI_SUCCESS (le32 agent_id @ name16 name) s
         }
       }
       else do {
         agent \<leftarrow> elem_at (agent_table config) (unat id);
         name \<leftarrow> (case ag_name agent of Some n \<Rightarrow> Some n | None \<Rightarrow> elem_at default_agent_names (unat (ag_type agent)));
         respond_values env service_id SCMI_SUCCESS (le32 id @ name16 name) s
       }
     }"

definition scmi_base_message_not_supported :: "'w scmi_env \<Rightarrow> fwk_id \<Rightarrow> 8 word list option \<Rightarrow> 'w scmi_ctx \<Rightarrow> (int \<times> 'w scmi_ctx) option" where
  "scmi_base_message_not_supported env service_id payload s = Some (FWK_E_SUPPORT, s)"

section \<open>Permissions\<close>

text \<open>The SCMI status for a status of the resource permissions module.\<close>

definition permission_status :: "int \<Rightarrow> int" where
  "permission_status status =
     (if status = FWK_SUCCESS then SCMI_SUCCESS
      else if status = FWK_E_PARAM then SCMI_INVALID_PARAMETERS
      else if status = FWK_E_ACCESS then SCMI_NOT_FOUND
      else SCMI_NOT_SUPPORTED)"

text \<open>The label \<^verbatim>\<open>exit\<close>: the response, then the status.\<close>

definition permissions_exit :: "'w scmi_env \<Rightarrow> fwk_id \<Rightarrow> int \<Rightarrow> int \<Rightarrow> 'w scmi_ctx \<Rightarrow> (int \<times> 'w scmi_ctx) option" where
  "permissions_exit env service_id return_status status s =
     do {
       (respond_status, s) \<leftarrow> respond_values env service_id return_status [] s;
       Some (status, s)
     }"

definition scmi_base_set_device_permissions :: "'w scmi_env \<Rightarrow> fwk_id \<Rightarrow> 8 word list option \<Rightarrow> 'w scmi_ctx \<Rightarrow> (int \<times> 'w scmi_ctx) option" where
  "scmi_base_set_device_permissions env service_id payload s =
     do {
       agent_id \<leftarrow> parameter 0 payload;
       config \<leftarrow> scmi_config s;
       if agent_id > agent_count config then permissions_exit env service_id SCMI_NOT_FOUND FWK_E_ACCESS s
       else if agent_id = MOD_SCMI_PLATFORM_ID then permissions_exit env service_id SCMI_SUCCESS FWK_SUCCESS s
       else do {
         flags \<leftarrow> parameter 8 payload;
         if flags AND NOT MOD_RES_PERMS_PERMISSIONS_MASK \<noteq> 0 then permissions_exit env service_id SCMI_INVALID_PARAMETERS FWK_E_PARAM s
         else do {
           device_id \<leftarrow> parameter 4 payload;
           api \<leftarrow> res_perms_api s;
           (status, s) \<leftarrow> call_world (rp_agent_set_device_permission (scmi_res_perms env api) agent_id device_id flags) s;
           permissions_exit env service_id (permission_status status) status s
         }
       }
     }"

definition scmi_base_set_protocol_permissions :: "'w scmi_env \<Rightarrow> fwk_id \<Rightarrow> 8 word list option \<Rightarrow> 'w scmi_ctx \<Rightarrow> (int \<times> 'w scmi_ctx) option" where
  "scmi_base_set_protocol_permissions env service_id payload s =
     do {
       agent_id \<leftarrow> parameter 0 payload;
       config \<leftarrow> scmi_config s;
       if agent_id > agent_count config then permissions_exit env service_id SCMI_NOT_FOUND FWK_E_ACCESS s
       else if agent_id = MOD_SCMI_PLATFORM_ID then permissions_exit env service_id SCMI_SUCCESS FWK_SUCCESS s
       else do {
         flags \<leftarrow> parameter 12 payload;
         if flags AND NOT MOD_RES_PERMS_PERMISSIONS_MASK \<noteq> 0 then permissions_exit env service_id SCMI_INVALID_PARAMETERS FWK_E_PARAM s
         else do {
           command_id \<leftarrow> parameter 8 payload;
           if command_id = ucast MOD_SCMI_PROTOCOL_ID_BASE then permissions_exit env service_id SCMI_DENIED FWK_SUCCESS s
           else do {
             device_id \<leftarrow> parameter 4 payload;
             api \<leftarrow> res_perms_api s;
             (status, s) \<leftarrow> call_world (rp_agent_set_device_protocol_permission (scmi_res_perms env api) agent_id device_id command_id flags) s;
             permissions_exit env service_id (permission_status status) status s
           }
         }
       }
     }"

definition scmi_base_reset_agent_config :: "'w scmi_env \<Rightarrow> fwk_id \<Rightarrow> 8 word list option \<Rightarrow> 'w scmi_ctx \<Rightarrow> (int \<times> 'w scmi_ctx) option" where
  "scmi_base_reset_agent_config env service_id payload s =
     do {
       agent_id \<leftarrow> parameter 0 payload;
       config \<leftarrow> scmi_config s;
       if agent_id > agent_count config then respond_values env service_id SCMI_NOT_FOUND [] s
       else if agent_id = MOD_SCMI_PLATFORM_ID then respond_values env service_id SCMI_SUCCESS [] s
       else do {
         flags \<leftarrow> parameter 4 payload;
         if flags AND NOT MOD_RES_PERMS_PERMISSIONS_MASK \<noteq> 0 then respond_values env service_id SCMI_INVALID_PARAMETERS [] s
         else do {
           api \<leftarrow> res_perms_api s;
           (status, s) \<leftarrow> call_world (rp_agent_reset_config (scmi_res_perms env api) agent_id flags) s;
           respond_values env service_id (permission_status status) [] s
         }
       }
     }"

section \<open>The message handler\<close>

fun run_base_handler :: "base_handler \<Rightarrow> 'w scmi_env \<Rightarrow> fwk_id \<Rightarrow> 8 word list option \<Rightarrow> 'w scmi_ctx \<Rightarrow> (int \<times> 'w scmi_ctx) option" where
  "run_base_handler PROTOCOL_VERSION_HANDLER = scmi_base_protocol_version_handler"
| "run_base_handler PROTOCOL_ATTRIBUTES_HANDLER = scmi_base_protocol_attributes_handler"
| "run_base_handler MESSAGE_ATTRIBUTES_HANDLER = scmi_base_protocol_message_attributes_handler"
| "run_base_handler DISCOVER_VENDOR_HANDLER = scmi_base_discover_vendor_handler"
| "run_base_handler DISCOVER_SUB_VENDOR_HANDLER = scmi_base_discover_sub_vendor_handler"
| "run_base_handler IMPLEMENTATION_VERSION_HANDLER = scmi_base_discover_implementation_version_handler"
| "run_base_handler LIST_PROTOCOLS_HANDLER = scmi_base_discover_list_protocols_handler"
| "run_base_handler DISCOVER_AGENT_HANDLER = scmi_base_discover_agent_handler"
| "run_base_handler MESSAGE_NOT_SUPPORTED = scmi_base_message_not_supported"
| "run_base_handler SET_DEVICE_PERMISSIONS_HANDLER = scmi_base_set_device_permissions"
| "run_base_handler SET_PROTOCOL_PERMISSIONS_HANDLER = scmi_base_set_protocol_permissions"
| "run_base_handler RESET_AGENT_CONFIG_HANDLER = scmi_base_reset_agent_config"

definition scmi_base_message_handler :: "'w scmi_env \<Rightarrow> 'w scmi_handler" where
  "scmi_base_message_handler env protocol_id service_id payload payload_size message_id s =
     do {
       fwk_assert (base_protocol_api s);
       let rp = has_resource_perms (scmi_bc env);
       (validation_result, s) \<leftarrow>
         scmi_message_validation env MOD_SCMI_PROTOCOL_ID_BASE service_id payload payload_size (unat message_id)
           (Some (base_payload_size_table rp)) MOD_SCMI_BASE_COMMAND_COUNT (base_handler_table rp) s;
       if validation_result \<noteq> SCMI_SUCCESS then respond env service_id (Some (status_bytes validation_result)) 4 s
       else do {
         handler \<leftarrow> elem_at (base_handler_table rp) (unat message_id);
         if handler = Some MESSAGE_NOT_SUPPORTED then respond env service_id (Some (status_bytes SCMI_NOT_SUPPORTED)) 4 s
         else do { handler \<leftarrow> handler; run_base_handler handler env service_id payload s }
       }
     }"

definition scmi_base_set_api :: "'w scmi_ctx \<Rightarrow> 'w scmi_ctx" where
  "scmi_base_set_api s = s\<lparr>base_protocol_api := True\<rparr>"

end
