(* ===== verification/Mod_Scmi.thy ===== *)
theory Mod_Scmi
  imports Mod_Scmi_Base Mod_Scmi_Notify
begin

text \<open>
  The entry points of the SCMI module, \<^verbatim>\<open>module/scmi/src/mod_scmi.c\<close>: initialisation, binding,
  requests to bind, start, the event of a message that arrived, and the transport's notification.
\<close>

section \<open>Initialisation\<close>

definition zero_protocol :: scmi_protocol where
  "zero_protocol = \<lparr>message_handler = None, protocol_fwk_id = 0, notification_handler = None\<rparr>"

definition zero_service :: scmi_service_ctx where
  "zero_service = \<lparr>svc_config = None, svc_transport_id = 0, svc_transport_api = None, svc_respond = None, svc_transmit = None,
     scmi_token = 0, scmi_protocol_id = 0, scmi_message_id = 0, scmi_message_type = 0\<rparr>"

definition zero_subscribers :: scmi_notification_subscribers where
  "zero_subscribers = \<lparr>ns_agent_count = 0, ns_element_count = 0, ns_operation_count = 0, ns_operation_idx = 0,
     operation_id_to_idx = replicate 32 0, agent_service_ids = []\<rparr>"

text \<open>The static context before the firmware runs.\<close>

definition scmi_reset :: "'w \<Rightarrow> 'w scmi_ctx" where
  "scmi_reset w = \<lparr>scmi_config = None, protocol_table = [], protocol_count = 0, protocol_requester_table = [], protocol_requester_count = 0,
     scmi_protocol_id_to_idx = replicate 256 0, scmi_protocol_requester_id_to_idx = replicate 256 0, service_ctx_table = [],
     res_perms_api = None, scmi_notif_subscribers = [], base_protocol_api = False, scmi_world = w\<rparr>"

text \<open>The loop over the agents, which the platform's entry is not part of.\<close>

definition agent_types_valid :: "mod_scmi_config \<Rightarrow> bool option" where
  "agent_types_valid config =
     foldM (\<lambda>i ok. if \<not> ok then Some False
       else do { agent \<leftarrow> elem_at (agent_table config) i; Some (ag_type agent < SCMI_AGENT_TYPE_COUNT) })
       [1..<unat (agent_count config) + 1] True"

definition scmi_init :: "'w scmi_env \<Rightarrow> nat \<Rightarrow> mod_scmi_config option \<Rightarrow> 'w scmi_ctx \<Rightarrow> (int \<times> 'w scmi_ctx) option" where
  "scmi_init env service_count data s =
     (case data of
        None \<Rightarrow> Some (FWK_E_PARAM, s)
      | Some config \<Rightarrow>
          if agent_count config > MOD_SCMI_AGENT_ID_MAX then Some (FWK_E_PARAM, s)
          else do {
            ok \<leftarrow> agent_types_valid config;
            if \<not> ok then Some (FWK_E_PARAM, s)
            else do {
              let n = unat (protocol_count_max config + of_nat PROTOCOL_TABLE_RESERVED_ENTRIES_COUNT);
              w \<leftarrow> srv_calloc (scmi_srv env) n (scmi_world s);
              let s = s\<lparr>protocol_table := replicate n zero_protocol, scmi_world := w\<rparr>;
              let m = unat (protocol_requester_count_max config);
              w \<leftarrow> (if m \<noteq> 0 then srv_calloc (scmi_srv env) m (scmi_world s) else Some (scmi_world s));
              let s = s\<lparr>protocol_requester_table := replicate m zero_protocol, scmi_world := w\<rparr>;
              w \<leftarrow> srv_calloc (scmi_srv env) service_count (scmi_world s);
              let s = s\<lparr>service_ctx_table := replicate service_count zero_service, scmi_world := w\<rparr>;
              s \<leftarrow> (if has_base_protocol (scmi_bc env)
                    then do {
                      p \<leftarrow> elem_at (protocol_table s) PROTOCOL_TABLE_BASE_PROTOCOL_IDX;
                      Some (scmi_base_set_api
                        (s\<lparr>protocol_table := (protocol_table s)[PROTOCOL_TABLE_BASE_PROTOCOL_IDX := p\<lparr>message_handler := Some BASE_HANDLER\<rparr>],
                           scmi_protocol_id_to_idx := (scmi_protocol_id_to_idx s)
                             [unat MOD_SCMI_PROTOCOL_ID_BASE := of_nat PROTOCOL_TABLE_BASE_PROTOCOL_IDX]\<rparr>))
                    }
                    else Some s);
              Some (FWK_SUCCESS, s\<lparr>scmi_config := Some config\<rparr>)
            }
          })"

definition scmi_service_init :: "fwk_id \<Rightarrow> mod_scmi_service_config \<Rightarrow> 'w scmi_ctx \<Rightarrow> (int \<times> 'w scmi_ctx) option" where
  "scmi_service_init service_id config s =
     do {
       mod_config \<leftarrow> scmi_config s;
       if (cfg_scmi_agent_id config = MOD_SCMI_PLATFORM_ID \<or> cfg_scmi_agent_id config > agent_count mod_config) \<and>
          cfg_scmi_entity_role config = MOD_SCMI_ROLE_PLATFORM
       then Some (FWK_E_PARAM, s)
       else do {
         i \<leftarrow> service_index service_id s;
         Some (FWK_SUCCESS, upd_service i (\<lambda>c. c\<lparr>svc_config := Some config\<rparr>) s)
       }
     }"

section \<open>Binding\<close>

text \<open>A service to its transport.\<close>

definition bind_service :: "'w scmi_env \<Rightarrow> fwk_id \<Rightarrow> 'w scmi_ctx \<Rightarrow> (int \<times> 'w scmi_ctx) option" where
  "bind_service env service_id s =
     do {
       i \<leftarrow> service_index service_id s;
       svc \<leftarrow> get_service i s;
       config \<leftarrow> svc_config svc;
       ((status, api), s) \<leftarrow> call_world (\<lambda>w. do {
         (status, api, w) \<leftarrow> srv_bind (scmi_srv env) (cfg_transport_id config) (cfg_transport_api_id config) w;
         Some ((status, api), w) }) s;
       if status \<noteq> FWK_SUCCESS then Some (status, s)
       else do {
         api \<leftarrow> api;
         let t = scmi_transports env api;
         if tr_get_secure t = None \<or> tr_get_max_payload_size t = None \<or> tr_get_message_header t = None \<or>
            tr_get_payload t = None \<or> tr_write_payload t = None
         then Some (FWK_E_DATA, s)
         else Some (FWK_SUCCESS, upd_service i (\<lambda>c. c\<lparr>svc_transport_api := Some api, svc_transport_id := cfg_transport_id config,
                svc_respond := Some api, svc_transmit := Some api\<rparr>) s)
       }
     }"

text \<open>The interface of a protocol, and the identifier it reports; \<open>None\<close> for the identifier when a status ends the binding.\<close>

definition bind_protocol_api :: "'w scmi_env \<Rightarrow> fwk_id \<Rightarrow> 'w scmi_ctx \<Rightarrow> ((int \<times> (nat \<times> 8 word) option) \<times> 'w scmi_ctx) option" where
  "bind_protocol_api env i s =
     do {
       m \<leftarrow> fwk_id_get_module_idx i;
       ((status, api), s) \<leftarrow> call_world (\<lambda>w. do {
         (status, api, w) \<leftarrow> srv_bind (scmi_srv env) i (FWK_ID_API m 0) w;
         Some ((status, api), w) }) s;
       if status \<noteq> FWK_SUCCESS then Some ((status, None), s)
       else do {
         api \<leftarrow> api;
         if message_handler_fn (scmi_protocols env api) = None then Some ((FWK_E_DATA, None), s)
         else (case get_scmi_protocol_id_fn (scmi_protocols env api) of
                 None \<Rightarrow> Some ((FWK_E_DATA, None), s)
               | Some f \<Rightarrow> do {
                   ((status, scmi_id), s) \<leftarrow> call_world (f i) s;
                   if status \<noteq> FWK_SUCCESS then Some ((status, None), s)
                   else Some ((FWK_SUCCESS, Some (api, scmi_id)), s)
                 })
       }
     }"

definition bind_protocol :: "'w scmi_env \<Rightarrow> nat \<Rightarrow> 'w scmi_ctx \<Rightarrow> (int \<times> 'w scmi_ctx) option" where
  "bind_protocol env protocol_idx s =
     do {
       let j = PROTOCOL_TABLE_RESERVED_ENTRIES_COUNT + protocol_idx;
       protocol \<leftarrow> elem_at (protocol_table s) j;
       ((status, r), s) \<leftarrow> bind_protocol_api env (protocol_fwk_id protocol) s;
       (case r of
          None \<Rightarrow> Some (status, s)
        | Some (api, scmi_id) \<Rightarrow> do {
            idx \<leftarrow> elem_at (scmi_protocol_id_to_idx s) (unat scmi_id);
            if idx \<noteq> 0 then Some (FWK_E_STATE, s)
            else do {
              let protocol = protocol\<lparr>message_handler := Some (API_HANDLER api)\<rparr>;
              let protocol = (if has_scmi_notifications (scmi_bc env) \<and> notification_handler_fn (scmi_protocols env api) \<noteq> None
                              then protocol\<lparr>notification_handler := Some api\<rparr> else protocol);
              Some (FWK_SUCCESS, s\<lparr>scmi_protocol_id_to_idx := (scmi_protocol_id_to_idx s)[unat scmi_id := of_nat j],
                protocol_table := (protocol_table s)[j := protocol]\<rparr>)
            }
          })
     }"

text \<open>
  A requester: the second use of its identifier is not refused. Its notification handler is copied
  without a test, so it may be null.
\<close>

definition bind_requester :: "'w scmi_env \<Rightarrow> nat \<Rightarrow> 'w scmi_ctx \<Rightarrow> (int \<times> 'w scmi_ctx) option" where
  "bind_requester env protocol_idx s =
     do {
       protocol \<leftarrow> elem_at (protocol_requester_table s) protocol_idx;
       ((status, r), s) \<leftarrow> bind_protocol_api env (protocol_fwk_id protocol) s;
       (case r of
          None \<Rightarrow> Some (status, s)
        | Some (api, scmi_id) \<Rightarrow> do {
            elem_at (scmi_protocol_requester_id_to_idx s) (unat scmi_id);
            let protocol = protocol\<lparr>message_handler := Some (API_HANDLER api)\<rparr>;
            let protocol = (if has_scmi_notifications (scmi_bc env)
                            then protocol\<lparr>notification_handler :=
                              (if notification_handler_fn (scmi_protocols env api) = None then None else Some api)\<rparr>
                            else protocol);
            Some (FWK_SUCCESS, s\<lparr>scmi_protocol_requester_id_to_idx := (scmi_protocol_requester_id_to_idx s)[unat scmi_id := of_nat protocol_idx],
              protocol_requester_table := (protocol_requester_table s)[protocol_idx := protocol]\<rparr>)
          })
     }"

definition scmi_bind :: "'w scmi_env \<Rightarrow> fwk_id \<Rightarrow> nat \<Rightarrow> 'w scmi_ctx \<Rightarrow> (int \<times> 'w scmi_ctx) option" where
  "scmi_bind env i round s =
     (if round = 0
      then do {
        is_module \<leftarrow> fwk_id_is_type i FWK_ID_TYPE_MODULE;
        if is_module then Some (FWK_SUCCESS, s) else bind_service env i s
      }
      else do {
        is_element \<leftarrow> fwk_id_is_type i FWK_ID_TYPE_ELEMENT;
        if is_element then Some (FWK_SUCCESS, s)
        else do {
          (status, s) \<leftarrow> loopM (bind_protocol env) [0..<unat (protocol_count s)] s;
          if status \<noteq> FWK_SUCCESS then Some (status, s)
          else do {
            (status, s) \<leftarrow> loopM (bind_requester env) [0..<unat (protocol_requester_count s)] s;
            if status \<noteq> FWK_SUCCESS then Some (status, s)
            else if has_resource_perms (scmi_bc env)
            then do {
              ((status, api), s) \<leftarrow> call_world (\<lambda>w. do {
                (status, api, w) \<leftarrow> srv_bind (scmi_srv env) (FWK_ID_MODULE (res_perms_module_idx env)) (FWK_ID_API (res_perms_module_idx env) 0) w;
                Some ((status, api), w) }) s;
              let s = (if api = None then s else s\<lparr>res_perms_api := api\<rparr>);
              Some (status, s)
            }
            else Some (FWK_SUCCESS, s)
          }
        }
      })"

definition scmi_process_bind_request :: "'w scmi_env \<Rightarrow> fwk_id \<Rightarrow> fwk_id \<Rightarrow> fwk_id \<Rightarrow> 'w scmi_ctx \<Rightarrow> (int \<times> nat option \<times> 'w scmi_ctx) option" where
  "scmi_process_bind_request env src tgt api_id s =
     do {
       api_idx \<leftarrow> fwk_id_get_api_idx api_id;
       if api_idx = 0
       then do {
         m \<leftarrow> fwk_id_is_type tgt FWK_ID_TYPE_MODULE;
         if \<not> m then Some (FWK_E_SUPPORT, None, s)
         else do {
           config \<leftarrow> scmi_config s;
           if protocol_count s \<ge> protocol_count_max config then Some (FWK_E_NOMEM, None, s)
           else do {
             let j = PROTOCOL_TABLE_RESERVED_ENTRIES_COUNT + unat (protocol_count s);
             p \<leftarrow> elem_at (protocol_table s) j;
             Some (FWK_SUCCESS, Some (from_protocol_api env),
               s\<lparr>protocol_table := (protocol_table s)[j := p\<lparr>protocol_fwk_id := src\<rparr>], protocol_count := protocol_count s + 1\<rparr>)
           }
         }
       }
       else if api_idx = 1
       then do {
         m \<leftarrow> fwk_id_is_type tgt FWK_ID_TYPE_MODULE;
         if \<not> m then Some (FWK_E_SUPPORT, None, s)
         else do {
           config \<leftarrow> scmi_config s;
           if protocol_requester_count s \<ge> protocol_requester_count_max config then Some (FWK_E_PARAM, None, s)
           else do {
             let j = unat (protocol_requester_count s);
             p \<leftarrow> elem_at (protocol_requester_table s) j;
             Some (FWK_SUCCESS, Some (from_protocol_req_api env),
               s\<lparr>protocol_requester_table := (protocol_requester_table s)[j := p\<lparr>protocol_fwk_id := src\<rparr>],
                 protocol_requester_count := protocol_requester_count s + 1\<rparr>)
           }
         }
       }
       else if api_idx = 2
       then do {
         e \<leftarrow> fwk_id_is_type tgt FWK_ID_TYPE_ELEMENT;
         if \<not> e then Some (FWK_E_SUPPORT, None, s)
         else do {
           svc \<leftarrow> service_of tgt s;
           same \<leftarrow> fwk_id_is_equal src (svc_transport_id svc);
           if \<not> same then Some (FWK_E_ACCESS, None, s) else Some (FWK_SUCCESS, Some (from_transport_api env), s)
         }
       }
       else if api_idx = 3 \<and> has_scmi_notifications (scmi_bc env)
       then do {
         m \<leftarrow> fwk_id_is_type tgt FWK_ID_TYPE_MODULE;
         if \<not> m then Some (FWK_E_SUPPORT, None, s) else Some (FWK_SUCCESS, Some (notification_api env), s)
       }
       else Some (FWK_E_SUPPORT, None, s)
     }"

section \<open>Messages\<close>

text \<open>Calling through a handler pointer of a protocol's entry.\<close>

definition call_handler :: "'w scmi_env \<Rightarrow> handler_ref option \<Rightarrow> 'w scmi_handler option" where
  "call_handler env h =
     (case h of
        None \<Rightarrow> None
      | Some BASE_HANDLER \<Rightarrow> Some (scmi_base_message_handler env)
      | Some (API_HANDLER api) \<Rightarrow> message_handler_fn (scmi_protocols env api))"

definition send_to_message_handler ::
  "'w scmi_env \<Rightarrow> scmi_service_ctx \<Rightarrow> scmi_protocol \<Rightarrow> 8 word list option \<Rightarrow> nat \<Rightarrow> fwk_id \<Rightarrow> 'w scmi_ctx \<Rightarrow> (int \<times> 'w scmi_ctx) option" where
  "send_to_message_handler env svc protocol payload payload_size tgt s =
     do {
       f \<leftarrow> (if has_scmi_notifications (scmi_bc env) \<and> scmi_message_type svc = MOD_SCMI_MESSAGE_TYPE_NOTIFICATION
             then do { api \<leftarrow> notification_handler protocol; notification_handler_fn (scmi_protocols env api) }
             else call_handler env (message_handler protocol));
       f (protocol_fwk_id protocol) tgt payload payload_size (scmi_message_id svc) s
     }"

text \<open>A message refused by the module itself: the transport's status is only logged.\<close>

definition refuse_message :: "'w scmi_env \<Rightarrow> scmi_service_ctx \<Rightarrow> int \<Rightarrow> 'w scmi_ctx \<Rightarrow> (int \<times> 'w scmi_ctx) option" where
  "refuse_message env svc code s =
     do {
       (status, s) \<leftarrow> call_respond env svc (Some (status_bytes code)) 4 s;
       Some (FWK_SUCCESS, s)
     }"

text \<open>Handing the message to its protocol; an agent then frees the channel the response arrived on.\<close>

definition deliver_message :: "'w scmi_env \<Rightarrow> fwk_id \<Rightarrow> scmi_protocol \<Rightarrow> 8 word list option \<Rightarrow> nat \<Rightarrow> 'w scmi_ctx \<Rightarrow> (int \<times> 'w scmi_ctx) option" where
  "deliver_message env tgt protocol payload payload_size s =
     do {
       svc \<leftarrow> service_of tgt s;
       (status, s) \<leftarrow> send_to_message_handler env svc protocol payload payload_size tgt s;
       if status \<noteq> FWK_SUCCESS then Some (FWK_SUCCESS, s)
       else do {
         svc \<leftarrow> service_of tgt s;
         config \<leftarrow> svc_config svc;
         if cfg_scmi_entity_role config = MOD_SCMI_ROLE_AGENT
         then do {
           (status, s) \<leftarrow> call_transport env svc tr_release s;
           Some (FWK_SUCCESS, s)
         }
         else Some (FWK_SUCCESS, s)
       }
     }"

text \<open>The platform's side: the protocol must be bound and open to the agent.\<close>

definition platform_message :: "'w scmi_env \<Rightarrow> fwk_id \<Rightarrow> 8 word list option \<Rightarrow> nat \<Rightarrow> 'w scmi_ctx \<Rightarrow> (int \<times> 'w scmi_ctx) option" where
  "platform_message env tgt payload payload_size s =
     do {
       svc \<leftarrow> service_of tgt s;
       idx \<leftarrow> elem_at (scmi_protocol_id_to_idx s) (unat (scmi_protocol_id svc));
       if idx = 0 then refuse_message env svc SCMI_NOT_SUPPORTED s
       else if has_resource_perms (scmi_bc env)
       then do {
         protocol \<leftarrow> elem_at (protocol_table s) (unat idx);
         deliver_message env tgt protocol payload payload_size s
       }
       else do {
         (status, agent_id) \<leftarrow> get_agent_id tgt (Some 0) s;
         if status \<noteq> FWK_SUCCESS then Some (status, s)
         else do {
           agent_id \<leftarrow> agent_id;
           (status, agent_type) \<leftarrow> get_agent_type agent_id (Some 0) s;
           if status \<noteq> FWK_SUCCESS then Some (status, s)
           else do {
             agent_type \<leftarrow> agent_type;
             denied \<leftarrow> (if agent_type = SCMI_AGENT_TYPE_PSCI
                        then do { config \<leftarrow> scmi_config s; psci_disabled config (scmi_protocol_id svc) }
                        else Some False);
             if denied then refuse_message env svc SCMI_DENIED s
             else do {
               protocol \<leftarrow> elem_at (protocol_table s) (unat idx);
               deliver_message env tgt protocol payload payload_size s
             }
           }
         }
       }
     }"

text \<open>The fields of the header, recorded in the context of the service.\<close>

definition record_header :: "32 word \<Rightarrow> scmi_service_ctx \<Rightarrow> scmi_service_ctx" where
  "record_header header c =
     c\<lparr>scmi_protocol_id := ucast (read_protocol_id header), scmi_message_id := ucast (read_message_id header),
       scmi_message_type := read_message_type header, scmi_token := read_token header\<rparr>"

definition scmi_process_event :: "'w scmi_env \<Rightarrow> fwk_event \<Rightarrow> 'w scmi_ctx \<Rightarrow> (int \<times> 'w scmi_ctx) option" where
  "scmi_process_event env event s =
     do {
       i \<leftarrow> service_index (target_id event) s;
       svc \<leftarrow> get_service i s;
       ((status, header), s) \<leftarrow> call_transport env svc tr_get_message_header s;
       if status \<noteq> FWK_SUCCESS then Some (status, s)
       else do {
         ((status, payload, payload_size), s) \<leftarrow> call_transport env svc tr_get_payload s;
         if status \<noteq> FWK_SUCCESS then Some (status, s)
         else do {
           let s = upd_service i (record_header header) s;
           svc \<leftarrow> get_service i s;
           if \<not> is_message_type_valid svc then refuse_message env svc SCMI_PROTOCOL_ERROR s
           else do {
             config \<leftarrow> svc_config svc;
             if cfg_scmi_entity_role config = MOD_SCMI_ROLE_PLATFORM
             then platform_message env (target_id event) payload payload_size s
             else if cfg_scmi_entity_role config = MOD_SCMI_ROLE_AGENT
             then do {
               idx \<leftarrow> elem_at (scmi_protocol_requester_id_to_idx s) (unat (scmi_protocol_id svc));
               protocol \<leftarrow> elem_at (protocol_requester_table s) (unat idx);
               deliver_message env (target_id event) protocol payload payload_size s
             }
             else Some (FWK_E_INIT, s)
           }
         }
       }
     }"

section \<open>Start\<close>

definition scmi_initialized :: "'w scmi_env \<Rightarrow> fwk_id \<Rightarrow> fwk_event" where
  "scmi_initialized env src = zeroed_event\<lparr>event_id := FWK_ID_NOTIFICATION (scmi_module_idx env) 0, source_id := src\<rparr>"

definition announce :: "'w scmi_env \<Rightarrow> fwk_id \<Rightarrow> 'w scmi_ctx \<Rightarrow> (int \<times> 'w scmi_ctx) option" where
  "announce env src s =
     call_world (\<lambda>w. do { (status, n, w) \<leftarrow> srv_notify (scmi_srv env) (scmi_initialized env src) 0 w; Some (status, w) }) s"

definition scmi_start :: "'w scmi_env \<Rightarrow> fwk_id \<Rightarrow> 'w scmi_ctx \<Rightarrow> (int \<times> 'w scmi_ctx) option" where
  "scmi_start env i s =
     (if has_notification (scmi_bc env)
      then do {
        is_module \<leftarrow> fwk_id_is_type i FWK_ID_TYPE_MODULE;
        if is_module
        then if has_scmi_notifications (scmi_bc env)
          then do {
            let n = unat (protocol_count s + 1);
            w \<leftarrow> srv_calloc (scmi_srv env) n (scmi_world s);
            Some (FWK_SUCCESS, s\<lparr>scmi_notif_subscribers := replicate n zero_subscribers, scmi_world := w\<rparr>)
          }
          else Some (FWK_SUCCESS, s)
        else do {
          config \<leftarrow> srv_service_config env i (scmi_world s);
          config \<leftarrow> config;
          none \<leftarrow> fwk_id_is_equal (cfg_transport_notification_init_id config) FWK_ID_NONE;
          if none then announce env i s
          else call_world (srv_subscribe (scmi_srv env) (cfg_transport_notification_init_id config) (cfg_transport_id config) i) s
        }
      }
      else Some (FWK_SUCCESS, s))"

definition scmi_process_notification :: "'w scmi_env \<Rightarrow> fwk_event \<Rightarrow> 'w scmi_ctx \<Rightarrow> (int \<times> 'w scmi_ctx) option" where
  "scmi_process_notification env event s =
     do {
       is_element \<leftarrow> fwk_id_is_type (target_id event) FWK_ID_TYPE_ELEMENT;
       fwk_assert is_element;
       config \<leftarrow> srv_service_config env (target_id event) (scmi_world s);
       (case config of
          None \<Rightarrow> Some (FWK_E_PARAM, s)
        | Some config \<Rightarrow> do {
            same \<leftarrow> fwk_id_is_equal (event_id event) (cfg_transport_notification_init_id config);
            fwk_assert same;
            announce env FWK_ID_NONE s
          })
     }"

end
