(* ===== verification/Mod_Scmi_Channel.thy ===== *)
theory Mod_Scmi_Channel
  imports Mod_Scmi
begin

text \<open>
  What the SCMI module relies on in a transport, as the locale \<open>scmi_channel\<close>, and what the module
  does with a message on such a channel: the Base protocol answers every message with the reply of
  the specification \<open>base_reply\<close>, and a message for a protocol that is not bound, or not open to the
  agent, is refused with the status of the specification. The builds are those without the resource
  permissions module.
\<close>

section \<open>The contract of a transport\<close>

text \<open>Writing bytes over a buffer.\<close>

definition splice :: "nat \<Rightarrow> 'a list \<Rightarrow> 'a list \<Rightarrow> 'a list" where
  "splice off bs xs = take off xs @ bs @ drop (off + length bs) xs"

lemma splice_length [simp]: "off + length bs \<le> length xs \<Longrightarrow> length (splice off bs xs) = length xs"
  by (simp add: splice_def)

lemma take_splice_end: "off + length bs \<le> length xs \<Longrightarrow> take (off + length bs) (splice off bs xs) = take off xs @ bs"
  by (simp add: splice_def)

lemma take_splice_before: "k \<le> off \<Longrightarrow> off \<le> length xs \<Longrightarrow> take k (splice off bs xs) = take k xs"
  by (simp add: splice_def min_def)

lemma drop_splice_start: "drop (length bs) (splice 0 bs xs) = drop (length bs) xs"
  by (simp add: splice_def)

text \<open>
  \<open>pending h p n w\<close>: the channel holds a message with header \<open>h\<close> and payload \<open>p\<close> that waits for its
  response, of at most \<open>n\<close> bytes. \<open>written\<close> is the channel's write buffer. \<open>answered h bs w\<close>: the
  channel is free, and its last response was to \<open>h\<close> and is \<open>bs\<close>.
\<close>

locale scmi_channel =
  fixes tr :: "'w scmi_transport"
    and ch :: fwk_id
    and pending :: "32 word \<Rightarrow> 8 word list \<Rightarrow> nat \<Rightarrow> 'w \<Rightarrow> bool"
    and written :: "'w \<Rightarrow> 8 word list"
    and answered :: "32 word \<Rightarrow> 8 word list \<Rightarrow> 'w \<Rightarrow> bool"
  assumes header_law: "pending h p n w \<Longrightarrow> \<exists>f. tr_get_message_header tr = Some f \<and> f ch w = Some ((FWK_SUCCESS, h), w)"
    and payload_law: "pending h p n w \<Longrightarrow> \<exists>f bs. tr_get_payload tr = Some f \<and> f ch w = Some ((FWK_SUCCESS, Some (p @ bs), length p), w)"
    and max_law: "pending h p n w \<Longrightarrow> \<exists>f. tr_get_max_payload_size tr = Some f \<and> f ch w = Some ((FWK_SUCCESS, n), w)"
    and write_law: "pending h p n w \<Longrightarrow> off + k \<le> n \<Longrightarrow> k \<le> length bs \<Longrightarrow>
      \<exists>f w'. tr_write_payload tr = Some f \<and> f ch off (Some bs) k w = Some (FWK_SUCCESS, w') \<and>
        pending h p n w' \<and> written w' = splice off (take k bs) (written w)"
    and written_law: "pending h p n w \<Longrightarrow> length (written w) = n"
    and respond_law: "pending h p n w \<Longrightarrow> k \<le> n \<Longrightarrow> k \<le> length bs \<Longrightarrow>
      \<exists>f w'. tr_respond tr = Some f \<and> f ch (Some bs) k w = Some (FWK_SUCCESS, w') \<and> answered h (take k bs) w'"
    and respond_written_law: "pending h p n w \<Longrightarrow> k \<le> n \<Longrightarrow>
      \<exists>f w'. tr_respond tr = Some f \<and> f ch None k w = Some (FWK_SUCCESS, w') \<and> answered h (take k (written w)) w'"

section \<open>A service of the platform\<close>

text \<open>The service \<open>tgt\<close>, with the configuration \<open>config\<close>, is bound to the transport \<open>tr\<close> on the channel \<open>ch\<close>.\<close>

definition on_channel ::
  "'w scmi_env \<Rightarrow> 'w scmi_transport \<Rightarrow> fwk_id \<Rightarrow> fwk_id \<Rightarrow> mod_scmi_service_config \<Rightarrow> 'w scmi_ctx \<Rightarrow> bool" where
  "on_channel env tr ch tgt config s \<longleftrightarrow>
     (\<exists>svc a. service_of tgt s = Some svc \<and> svc_transport_api svc = Some a \<and> svc_respond svc = Some a \<and>
        scmi_transports env a = tr \<and> svc_transport_id svc = ch \<and> svc_config svc = Some config)"

lemma on_channel_world [simp]: "on_channel env tr ch tgt config (s\<lparr>scmi_world := w\<rparr>) = on_channel env tr ch tgt config s"
  by (simp add: on_channel_def)

lemma get_agent_id_on_channel: "on_channel env tr ch tgt config s \<Longrightarrow> get_agent_id tgt (Some v) s = Some (FWK_SUCCESS, Some (cfg_scmi_agent_id config))"
  by (auto simp: on_channel_def get_agent_id_def)

text \<open>The agent of the service: its identifier is one of the module's table, and \<open>agent\<close> is its entry.\<close>

definition agent_known :: "32 word \<Rightarrow> mod_scmi_agent \<Rightarrow> mod_scmi_config \<Rightarrow> bool" where
  "agent_known agent_id agent config \<longleftrightarrow>
     agent_id \<noteq> MOD_SCMI_PLATFORM_ID \<and> agent_id \<le> agent_count config \<and> unat (agent_count config) < length (agent_table config) \<and>
     agent = agent_table config ! unat agent_id \<and> (\<forall>a \<in> set (agent_table config). ag_type a < SCMI_AGENT_TYPE_COUNT)"

lemma get_agent_type_known:
  assumes "scmi_config s = Some config" and "agent_known agent_id agent config"
  shows "get_agent_type agent_id (Some v) s = Some (FWK_SUCCESS, Some (ag_type agent))"
proof -
  have "unat agent_id < length (agent_table config)"
    using assms(2) by (auto simp: agent_known_def word_le_nat_alt)
  then show ?thesis
    using assms by (simp add: get_agent_type_def agent_known_def elem_at_def leD)
qed

section \<open>What the Base protocol is to answer\<close>

text \<open>The identifiers an agent sees: the bound protocols, the Base protocol and those disabled for it aside.\<close>

definition disabled_for :: "mod_scmi_config \<Rightarrow> 32 word \<Rightarrow> 32 word list" where
  "disabled_for config agent_kind =
     (if agent_kind = SCMI_AGENT_TYPE_PSCI
      then take (unat (dis_protocol_count_psci config)) (case dis_protocol_list_psci config of None \<Rightarrow> [] | Some ds \<Rightarrow> ds)
      else [])"

definition open_protocol :: "8 word list \<Rightarrow> (32 word \<Rightarrow> bool) \<Rightarrow> nat \<Rightarrow> bool" where
  "open_protocol ids see i \<longleftrightarrow> ids ! i \<noteq> 0 \<and> i \<noteq> 16 \<and> see (of_nat i)"

abbreviation protocol_visible :: "mod_scmi_config \<Rightarrow> 32 word \<Rightarrow> 8 word list \<Rightarrow> nat \<Rightarrow> bool" where
  "protocol_visible config agent_kind ids \<equiv> open_protocol ids (\<lambda>q. q \<notin> set (disabled_for config agent_kind))"

definition visible_protocols :: "mod_scmi_config \<Rightarrow> 32 word \<Rightarrow> 8 word list \<Rightarrow> nat list" where
  "visible_protocols config agent_kind ids = filter (protocol_visible config agent_kind ids) [0..<256]"

text \<open>The number the module takes for their number.\<close>

definition advertised_count :: "mod_scmi_config \<Rightarrow> 32 word \<Rightarrow> 32 word \<Rightarrow> nat" where
  "advertised_count config agent_kind protocols =
     unat (if agent_kind = SCMI_AGENT_TYPE_PSCI then protocols - dis_protocol_count_psci config else protocols)"

definition agent_display_name :: "mod_scmi_agent \<Rightarrow> string" where
  "agent_display_name agent = (case ag_name agent of Some n \<Rightarrow> n | None \<Rightarrow> default_agent_names ! unat (ag_type agent))"

definition base_name :: "string option \<Rightarrow> 8 word list" where
  "base_name v = (case v of None \<Rightarrow> replicate 16 0 | Some v \<Rightarrow> name16 v)"

text \<open>
  One page of the list of protocols: what \<open>skip\<close> leaves of the first \<open>count\<close> protocols, and at most
  as many as there is room for.
\<close>

definition page :: "nat \<Rightarrow> nat \<Rightarrow> nat \<Rightarrow> nat list \<Rightarrow> nat list option" where
  "page room count skip ps =
     (let seen = take (min count (size_add skip room)) ps in if skip > length seen then None else Some (drop skip seen))"

text \<open>
  The reply to a message of the Base protocol, as the bytes it starts with and its length: a status
  alone, or a status followed by the values the command returns.
\<close>

record base_view =
  bv_config :: mod_scmi_config
  bv_ids :: "8 word list"
  bv_protocols :: "32 word"
  bv_agent_id :: "32 word"
  bv_agent :: mod_scmi_agent
  bv_service_name :: string
  bv_version :: "32 word"
  bv_room :: nat

definition base_status :: "int \<Rightarrow> 8 word list \<times> nat" where
  "base_status st = (status_bytes st, 4)"

definition base_values :: "8 word list \<Rightarrow> 8 word list \<times> nat" where
  "base_values vs = (status_bytes SCMI_SUCCESS @ vs, 4 + length vs)"

definition page_reply :: "nat \<Rightarrow> nat \<Rightarrow> nat \<Rightarrow> nat list \<Rightarrow> 8 word list \<times> nat" where
  "page_reply room count skip ps =
     (case page (room - 8) count skip ps of
        None \<Rightarrow> base_status SCMI_INVALID_PARAMETERS
      | Some ps \<Rightarrow> (status_bytes SCMI_SUCCESS @ le32 (of_nat (length ps)) @ map of_nat ps, (8 + length ps + 3) div 4 * 4))"

definition list_reply :: "base_view \<Rightarrow> 32 word \<Rightarrow> 8 word list \<times> nat" where
  "list_reply v skip =
     page_reply (bv_room v) (advertised_count (bv_config v) (ag_type (bv_agent v)) (bv_protocols v)) (unat skip)
       (visible_protocols (bv_config v) (ag_type (bv_agent v)) (bv_ids v))"

definition agent_reply :: "base_view \<Rightarrow> 32 word \<Rightarrow> 8 word list \<times> nat" where
  "agent_reply v i =
     (if i = 0 then base_values (le32 0 @ name16 ''platform'')
      else if i = 0xFFFFFFFF then base_values (le32 (bv_agent_id v) @ name16 (bv_service_name v))
      else if i > agent_count (bv_config v) then base_status SCMI_NOT_FOUND
      else base_values (le32 i @ name16 (agent_display_name (agent_table (bv_config v) ! unat i))))"

definition base_parameter_size :: "nat \<Rightarrow> nat" where
  "base_parameter_size cmd = (if cmd \<in> {2, 6, 7} then 4 else 0)"

text \<open>The commands of the Base protocol and the sizes of their parameters, without resource permissions.\<close>

definition base_reply :: "base_view \<Rightarrow> nat \<Rightarrow> 8 word list \<Rightarrow> 8 word list \<times> nat" where
  "base_reply v cmd payload =
     (if cmd \<ge> 12 then base_status SCMI_NOT_FOUND
      else if length payload \<noteq> base_parameter_size cmd then base_status SCMI_PROTOCOL_ERROR
      else if cmd = 0 then base_values (le32 SCMI_PROTOCOL_VERSION_BASE)
      else if cmd = 1
      then base_values (le32 (SCMI_BASE_PROTOCOL_ATTRIBUTES
             (of_nat (advertised_count (bv_config v) (ag_type (bv_agent v)) (bv_protocols v))) (agent_count (bv_config v))))
      else if cmd = 2 then (if the (get_u32 0 payload) < 8 then base_values (le32 0) else base_status SCMI_NOT_FOUND)
      else if cmd = 3 then base_values (base_name (vendor_identifier (bv_config v)))
      else if cmd = 4 then base_values (base_name (sub_vendor_identifier (bv_config v)))
      else if cmd = 5 then base_values (le32 (bv_version v))
      else if cmd = 6 then list_reply v (the (get_u32 0 payload))
      else if cmd = 7 then agent_reply v (the (get_u32 0 payload))
      else base_status SCMI_NOT_SUPPORTED)"

text \<open>A response that starts with the bytes of the reply and has its length.\<close>

definition replies :: "8 word list \<Rightarrow> 8 word list \<times> nat \<Rightarrow> bool" where
  "replies bs r \<longleftrightarrow> take (length (fst r)) bs = fst r \<and> length bs = snd r"

text \<open>The table of protocols disabled for PSCI agents has as many entries as the configuration says.\<close>

definition psci_table_ok :: "mod_scmi_config \<Rightarrow> bool" where
  "psci_table_ok config \<longleftrightarrow>
     (case dis_protocol_list_psci config of None \<Rightarrow> dis_protocol_count_psci config = 0
      | Some ds \<Rightarrow> unat (dis_protocol_count_psci config) \<le> length ds)"

lemma scan_disabled_take: "n \<le> length ds \<Longrightarrow> scan_disabled ds n p = Some (p \<in> set (take n ds))"
  by (induction ds n p rule: scan_disabled.induct) auto

lemma psci_disabled_table: "psci_table_ok config \<Longrightarrow> psci_disabled config p = Some (p \<in> set (disabled_for config SCMI_AGENT_TYPE_PSCI))"
  unfolding psci_disabled_def psci_table_ok_def disabled_for_def by (auto simp: scan_disabled_take split: option.splits)

lemma list_entry_allowed_table:
  assumes "\<not> has_resource_perms (scmi_bc env)" and "scmi_config s = Some config" and "psci_table_ok config"
  shows "list_entry_allowed env agent_id kind p s = Some (p \<notin> set (disabled_for config kind), s)"
proof (cases "kind = SCMI_AGENT_TYPE_PSCI")
  case True
  have "dis_protocol_list_psci config \<noteq> None \<or> dis_protocol_count_psci config = 0"
    using assms(3) by (auto simp: psci_table_ok_def split: option.splits)
  then show ?thesis using True assms by (simp add: list_entry_allowed_def psci_disabled_table)
next
  case False
  then show ?thesis using assms by (simp add: list_entry_allowed_def disabled_for_def)
qed

text \<open>The situation in which the Base protocol serves a message for the service \<open>tgt\<close>: \<open>v\<close> is what its answers depend on.\<close>

definition serves_base :: "'w scmi_env \<Rightarrow> 'w scmi_transport \<Rightarrow> fwk_id \<Rightarrow> fwk_id \<Rightarrow> base_view \<Rightarrow> 'w scmi_ctx \<Rightarrow> bool" where
  "serves_base env tr ch tgt v s \<longleftrightarrow>
     \<not> has_resource_perms (scmi_bc env) \<and> base_protocol_api s \<and>
     (\<exists>config. on_channel env tr ch tgt config s \<and> cfg_scmi_agent_id config = bv_agent_id v \<and>
        cfg_scmi_entity_role config = MOD_SCMI_ROLE_PLATFORM) \<and>
     scmi_config s = Some (bv_config v) \<and> agent_known (bv_agent_id v) (bv_agent v) (bv_config v) \<and> psci_table_ok (bv_config v) \<and>
     length (bv_ids v) = 256 \<and> scmi_protocol_id_to_idx s = bv_ids v \<and> protocol_count s = bv_protocols v \<and>
     (ag_type (bv_agent v) = SCMI_AGENT_TYPE_PSCI \<longrightarrow> dis_protocol_count_psci (bv_config v) < bv_protocols v) \<and>
     (\<forall>w. srv_element_name env tgt w = Some (Some (bv_service_name v))) \<and> fwk_build_version env = bv_version v \<and>
     24 \<le> bv_room v \<and> bv_room v mod 4 = 0"

lemma less_12_cases:
  assumes "k < (12 :: nat)"
    and "P 0" "P 1" "P 2" "P 3" "P 4" "P 5" "P 6" "P 7" "P 8" "P 9" "P 10" "P 11"
  shows "P k"
proof -
  have "k = 0 \<or> k = 1 \<or> k = 2 \<or> k = 3 \<or> k = 4 \<or> k = 5 \<or> k = 6 \<or> k = 7 \<or> k = 8 \<or> k = 9 \<or> k = 10 \<or> k = 11"
    using assms(1) by presburger
  then show ?thesis using assms(2-) by (elim disjE) simp_all
qed

lemma base_table_entry:
  assumes "k < 12"
  shows "base_handler_table False ! k \<noteq> None" and "base_handler_table False ! k = Some MESSAGE_NOT_SUPPORTED \<longleftrightarrow> 8 \<le> k"
    and "base_payload_size_table False ! k = base_parameter_size k"
  using assms
  by (rule less_12_cases; simp add: base_handler_table_def base_payload_size_table_def base_parameter_size_def nth_Cons_numeral)+

lemma base_validation:
  assumes "\<not> has_resource_perms (scmi_bc env)"
  shows "scmi_message_validation env MOD_SCMI_PROTOCOL_ID_BASE tgt (Some bs) len cmd (Some (base_payload_size_table False)) 12 (base_handler_table False) s =
    Some (if cmd \<ge> 12 then SCMI_NOT_FOUND else if len \<noteq> base_parameter_size cmd then SCMI_PROTOCOL_ERROR else SCMI_SUCCESS, s)"
proof (cases "cmd < 12")
  case True
  have valid: "is_valid_protocol_id MOD_SCMI_PROTOCOL_ID_BASE"
    by (simp add: is_valid_protocol_id_def valid_protocol_ids_def scmi_consts)
  have len: "cmd < length (base_payload_size_table False)" "cmd < length (base_handler_table False)"
    using True by (simp_all add: base_payload_size_table_def base_handler_table_def)
  note entry = base_table_entry [OF True]
  have dyn: "base_parameter_size cmd \<noteq> MOD_SCMI_PROTOCOL_DAYNAMIC_PAYLOAD_SIZE"
    by (simp add: base_parameter_size_def scmi_consts)
  show ?thesis
    using True valid len assms by (simp add: scmi_message_validation_def elem_at_ok entry dyn)
next
  case False
  have "is_valid_protocol_id MOD_SCMI_PROTOCOL_ID_BASE"
    by (simp add: is_valid_protocol_id_def valid_protocol_ids_def scmi_consts)
  then show ?thesis using False by (simp add: scmi_message_validation_def)
qed

lemma parameter_ok: "4 \<le> length p \<Longrightarrow> parameter 0 (Some (p @ bs)) = Some (the (get_u32 0 p))"
proof -
  assume len: "4 \<le> length p"
  then have "(p @ bs) ! k = p ! k" if "k < 4" for k using that by (simp add: nth_append)
  from this [of 0] this [of 1] this [of 2] this [of 3] show ?thesis
    using len by (simp add: parameter_def get_u32_def numeral_2_eq_2 numeral_3_eq_3)
qed

section \<open>The event of a message\<close>

text \<open>What the module decides from the header: a status to refuse the message with, or \<open>None\<close> to hand it to its protocol.\<close>

definition verdict :: "base_view \<Rightarrow> 32 word \<Rightarrow> int option" where
  "verdict v h =
     (if read_message_type h = 1 then Some SCMI_PROTOCOL_ERROR
      else if bv_ids v ! unat (read_protocol_id h) = 0 then Some SCMI_NOT_SUPPORTED
      else if ucast (read_protocol_id h) \<in> set (disabled_for (bv_config v) (ag_type (bv_agent v))) then Some SCMI_DENIED
      else None)"

text \<open>The state once the header has been recorded in the context of the service.\<close>

definition with_header :: "fwk_id \<Rightarrow> 32 word \<Rightarrow> 'w scmi_ctx \<Rightarrow> 'w scmi_ctx" where
  "with_header tgt h s = (case service_index tgt s of None \<Rightarrow> s | Some i \<Rightarrow> upd_service i (record_header h) s)"

lemma with_header_same [simp]:
  "scmi_world (with_header tgt h s) = scmi_world s" "scmi_config (with_header tgt h s) = scmi_config s"
  "base_protocol_api (with_header tgt h s) = base_protocol_api s" "protocol_table (with_header tgt h s) = protocol_table s"
  "scmi_protocol_id_to_idx (with_header tgt h s) = scmi_protocol_id_to_idx s" "protocol_count (with_header tgt h s) = protocol_count s"
  by (simp_all add: with_header_def upd_service_def split: option.splits)

lemma service_index_Some: "service_of tgt s = Some svc \<Longrightarrow> \<exists>i. service_index tgt s = Some i \<and> i < length (service_ctx_table s) \<and> svc = service_ctx_table s ! i"
  by (auto simp: service_of_def service_index_def get_service_def bind_Some_iff)

lemma service_of_with_header: "service_of tgt s = Some svc \<Longrightarrow> service_of tgt (with_header tgt h s) = Some (record_header h svc)"
proof -
  assume "service_of tgt s = Some svc"
  then obtain e where e: "fwk_id_get_element_idx tgt = Some e" "unat e < length (service_ctx_table s)" "svc = service_ctx_table s ! unat e"
    by (auto simp: service_of_def service_index_def get_service_def bind_Some_iff)
  then have "with_header tgt h s = upd_service (unat e) (record_header h) s"
    by (simp add: with_header_def service_index_def elem_at_ok)
  then show ?thesis using e by (simp add: service_of_def service_index_def get_service_def upd_service_def elem_at_ok)
qed

lemma on_channel_with_header:
  assumes "on_channel env tr ch tgt config s"
  shows "on_channel env tr ch tgt config (with_header tgt h s)"
proof -
  obtain svc where svc: "service_of tgt s = Some svc" using assms by (auto simp: on_channel_def)
  show ?thesis using assms svc service_of_with_header [OF svc, of h] by (simp add: on_channel_def record_header_def)
qed

lemma unat_ucast_up:
  "unat (ucast (b :: 8 word) :: 32 word) = unat b" "unat (ucast (c :: 16 word) :: 32 word) = unat c"
proof -
  have "unat b < 2 ^ 8" "unat c < 2 ^ 16" using unsigned_less [of b] unsigned_less [of c] by simp_all
  then show "unat (ucast b :: 32 word) = unat b" "unat (ucast c :: 32 word) = unat c"
    by (simp_all add: unsigned_ucast_eq take_bit_nat_eq_self)
qed

lemma serves_base_with_header: "serves_base env tr ch tgt v s \<Longrightarrow> serves_base env tr ch tgt v (with_header tgt h s)"
  unfolding serves_base_def by (auto intro: on_channel_with_header)

lemma message_type_cases: "read_message_type h \<in> {0, 1, 2, 3}"
proof -
  have "unat (read_message_type h) < 4"
  proof -
    have "read_message_type h = take_bit 2 (read_message_type h)"
      by (rule bit_word_eqI) (auto simp: header_bits bit_simps)
    then have "unat (read_message_type h) = unat (take_bit 2 (read_message_type h))" by simp
    also have "\<dots> = take_bit 2 (unat (read_message_type h))" by (rule unsigned_take_bit_eq)
    also have "\<dots> < 4" using take_bit_nat_less_exp [of 2 "unat (read_message_type h)"] by simp
    finally show ?thesis .
  qed
  then have "unat (read_message_type h) = 0 \<or> unat (read_message_type h) = 1 \<or> unat (read_message_type h) = 2 \<or> unat (read_message_type h) = 3"
    by linarith
  moreover have "read_message_type h = of_nat k" if "unat (read_message_type h) = k" for k using that by auto
  ultimately have "read_message_type h = of_nat 0 \<or> read_message_type h = of_nat 1 \<or> read_message_type h = of_nat 2 \<or> read_message_type h = of_nat 3"
    by blast
  then show ?thesis by simp
qed

lemma type_valid_iff: "is_message_type_valid (record_header h svc) \<longleftrightarrow> read_message_type h \<noteq> 1"
  using message_type_cases [of h] by (auto simp: is_message_type_valid_def record_header_def scmi_consts)

section \<open>Answers on a channel\<close>

context scmi_channel
begin

lemma respond_pending:
  assumes "on_channel env tr ch tgt config s" and "pending h p n (scmi_world s)" and "k \<le> n" and "k \<le> length bs" and "4 \<le> length bs"
  shows "\<exists>w. respond env tgt (Some bs) k s = Some (FWK_SUCCESS, s\<lparr>scmi_world := w\<rparr>) \<and> answered h (take k bs) w"
proof -
  obtain v where "get_status 0 bs = Some v" using assms(5) by (auto simp: get_status_def get_u32_def)
  then show ?thesis
    using assms(1) respond_law [OF assms(2-4)] by (auto simp: on_channel_def respond_def call_respond_def call_world_def)
qed

lemma respond_written:
  assumes "on_channel env tr ch tgt config s" and "pending h p n (scmi_world s)" and "k \<le> n"
  shows "\<exists>w. respond env tgt None k s = Some (FWK_SUCCESS, s\<lparr>scmi_world := w\<rparr>) \<and> answered h (take k (written (scmi_world s))) w"
  using assms(1) respond_written_law [OF assms(2,3)] by (auto simp: on_channel_def respond_def call_respond_def call_world_def)

lemma write_pending:
  assumes "on_channel env tr ch tgt config s" and "pending h p n (scmi_world s)" and "off + length bs \<le> n"
  shows "\<exists>w. write_payload env tgt off (Some bs) (length bs) s = Some (FWK_SUCCESS, s\<lparr>scmi_world := w\<rparr>) \<and>
    pending h p n w \<and> written w = splice off bs (written (scmi_world s))"
  using assms(1) write_law [OF assms(2,3) order_refl] by (auto simp: on_channel_def write_payload_def call_world_def)

lemma refuse_pending:
  assumes "on_channel env tr ch tgt config s" and "service_of tgt s = Some svc" and "pending h p n (scmi_world s)" and "4 \<le> n"
  shows "\<exists>w. refuse_message env svc code s = Some (FWK_SUCCESS, s\<lparr>scmi_world := w\<rparr>) \<and> answered h (status_bytes code) w"
  using assms(1,2) respond_law [OF assms(3,4), of "status_bytes code"]
  by (auto simp: on_channel_def refuse_message_def call_respond_def call_world_def)

text \<open>The two forms of a response of the Base protocol.\<close>

lemma respond_values_reply:
  assumes "on_channel env tr ch tgt config s" and "pending h p n (scmi_world s)" and "4 + length vs \<le> n"
  shows "\<exists>w bs. respond_values env tgt st vs s = Some (FWK_SUCCESS, s\<lparr>scmi_world := w\<rparr>) \<and> answered h bs w \<and>
    replies bs (if st = SCMI_SUCCESS then base_values vs else base_status st)"
proof -
  let ?k = "if st = SCMI_SUCCESS then 4 + length vs else 4"
  have k: "?k \<le> n" "?k \<le> length (status_bytes st @ vs)" "4 \<le> length (status_bytes st @ vs)" using assms(3) by auto
  from respond_pending [OF assms(1,2) k] obtain w where
    w: "respond_values env tgt st vs s = Some (FWK_SUCCESS, s\<lparr>scmi_world := w\<rparr>)" "answered h (take ?k (status_bytes st @ vs)) w"
    by (auto simp: respond_values_def)
  have "replies (take ?k (status_bytes st @ vs)) (if st = SCMI_SUCCESS then base_values vs else base_status st)"
    by (simp add: replies_def base_values_def base_status_def)
  with w show ?thesis by blast
qed

lemma respond_reply:
  assumes "on_channel env tr ch tgt config s" and "pending h p n (scmi_world s)" and "length bs \<le> n" and "4 \<le> length bs"
    and "r = (bs, length bs)"
  shows "\<exists>w bs'. respond env tgt (Some bs) (length bs) s = Some (FWK_SUCCESS, s\<lparr>scmi_world := w\<rparr>) \<and> answered h bs' w \<and> replies bs' r"
proof -
  from respond_pending [OF assms(1,2,3) order_refl assms(4)] obtain w where
    "respond env tgt (Some bs) (length bs) s = Some (FWK_SUCCESS, s\<lparr>scmi_world := w\<rparr>)" "answered h bs w" by auto
  moreover have "replies bs r" using assms(5) by (simp add: replies_def)
  ultimately show ?thesis by blast
qed

lemma list_error_reply:
  assumes "on_channel env tr ch tgt config s" and "pending h p n (scmi_world s)" and "8 \<le> n" and "rs \<noteq> SCMI_SUCCESS"
  shows "\<exists>w bs. list_protocols_error env tgt rs k st s = Some (st, s\<lparr>scmi_world := w\<rparr>) \<and> answered h bs w \<and> replies bs (base_status rs)"
proof -
  have "4 + length (le32 (of_nat k)) \<le> n" using assms(3) by simp
  from respond_values_reply [OF assms(1,2) this, of rs] show ?thesis using assms(4) by (auto simp: list_protocols_error_def)
qed

text \<open>The loop over the identifiers writes the page after the eight bytes of the header.\<close>

lemma list_loop_step:
  assumes "on_channel env tr ch tgt config s" and "pending h p n (scmi_world s)" and "8 + avail < n"
  shows "\<exists>w. write_payload env tgt (8 + avail) (Some [b]) 1 s = Some (FWK_SUCCESS, s\<lparr>scmi_world := w\<rparr>) \<and> pending h p n w \<and>
    take (8 + avail + 1) (written w) = take (8 + avail) (written (scmi_world s)) @ [b]"
proof -
  have len: "length (written (scmi_world s)) = n" by (rule written_law [OF assms(2)])
  have "8 + avail + length [b] \<le> n" using assms(3) by simp
  from write_pending [OF assms(1,2) this] obtain w where
    w: "write_payload env tgt (8 + avail) (Some [b]) 1 s = Some (FWK_SUCCESS, s\<lparr>scmi_world := w\<rparr>)" "pending h p n w"
      "written w = splice (8 + avail) [b] (written (scmi_world s))"
    by auto
  have "take (8 + avail + length [b]) (written w) = take (8 + avail) (written (scmi_world s)) @ [b]"
    unfolding w(3) by (rule take_splice_end) (use assms(3) len in simp)
  then show ?thesis using w(1,2) by auto
qed

lemma list_loop:
  assumes "length ids = 256"
    and "on_channel env tr ch tgt config s" and "pending h p n (scmi_world s)"
    and "\<And>w q. pending h p n w \<Longrightarrow> list_entry_allowed env agent_id kind q (s\<lparr>scmi_world := w\<rparr>) = Some (see q, s\<lparr>scmi_world := w\<rparr>)"
    and "scmi_protocol_id_to_idx s = ids" and "\<forall>i \<in> set is. i < 256" and "avail = count - skip" and "8 + (count_max - skip) \<le> n"
    and "seen = take (count_max - count) (filter (open_protocol ids see) is)"
    and "new = drop (skip - count) seen"
  shows "\<exists>w. list_protocols_loop env tgt agent_id kind skip count_max is (count, 8 + avail, avail) s =
      Some (FWK_SUCCESS, (count + length seen, 8 + avail + length new, avail + length new), s\<lparr>scmi_world := w\<rparr>) \<and>
    pending h p n w \<and> take (8 + avail + length new) (written w) = take (8 + avail) (written (scmi_world s)) @ map of_nat new"
  using assms(2-)
proof (induction "is" arbitrary: count avail s seen new)
  case Nil
  then show ?case by (auto intro!: exI [of _ "scmi_world s"])
next
  case (Cons i rest)
  let ?P = "open_protocol ids see"
  have idx: "elem_at (scmi_protocol_id_to_idx s) i = Some (ids ! i)"
    using Cons.prems(4,5) assms(1) by (simp add: elem_at_def)
  have rest: "\<forall>i \<in> set rest. i < 256" using Cons.prems(5) by simp
  have allowed: "list_entry_allowed env agent_id kind (of_nat i) s = Some (see (of_nat i), s)"
    using Cons.prems(3) [OF Cons.prems(2), of "of_nat i"] by simp
  show ?case
  proof (cases "count \<ge> count_max")
    case True
    then show ?thesis using Cons.prems by (auto intro!: exI [of _ "scmi_world s"])
  next
    case False
    show ?thesis
    proof (cases "?P i")
      case skipped: False
      then have "seen = take (count_max - count) (filter ?P rest)" using Cons.prems(8) by simp
      from Cons.IH [OF Cons.prems(1-4) rest Cons.prems(6,7) this Cons.prems(9)]
      show ?thesis using False skipped by (auto simp: idx allowed MOD_SCMI_PROTOCOL_ID_BASE_def open_protocol_def)
    next
      case visible: True
      define seen' where "seen' = take (count_max - (count + 1)) (filter ?P rest)"
      have seen: "seen = i # seen'"
        using Cons.prems(8) visible False by (simp add: seen'_def take_Cons' Suc_diff_Suc)
      show ?thesis
      proof (cases "count + 1 \<le> skip")
        case True
        have "avail = (count + 1) - skip" using Cons.prems(6) True by simp
        moreover have "new = drop (skip - (count + 1)) seen'" using Cons.prems(9) seen True by (simp add: drop_Cons' Suc_diff_Suc)
        ultimately show ?thesis
          using Cons.IH [OF Cons.prems(1-4) rest _ Cons.prems(7) seen'_def] False True visible seen
          by (auto simp: idx allowed MOD_SCMI_PROTOCOL_ID_BASE_def open_protocol_def)
      next
        case written_entry: False
        have room: "8 + avail < n" using Cons.prems(6,7) False written_entry by simp
        from list_loop_step [OF Cons.prems(1,2) this] obtain w where
          w: "write_payload env tgt (8 + avail) (Some [of_nat i]) 1 s = Some (FWK_SUCCESS, s\<lparr>scmi_world := w\<rparr>)" "pending h p n w"
            "take (8 + avail + 1) (written w) = take (8 + avail) (written (scmi_world s)) @ [of_nat i]"
          by blast
        let ?s = "s\<lparr>scmi_world := w\<rparr>"
        have new: "new = i # seen'" "seen' = drop (skip - (count + 1)) seen'"
          using Cons.prems(9) seen written_entry by simp_all
        have prems: "on_channel env tr ch tgt config ?s" "pending h p n (scmi_world ?s)"
            "\<And>w q. pending h p n w \<Longrightarrow> list_entry_allowed env agent_id kind q (?s\<lparr>scmi_world := w\<rparr>) = Some (see q, ?s\<lparr>scmi_world := w\<rparr>)"
            "scmi_protocol_id_to_idx ?s = ids" "avail + 1 = count + 1 - skip"
          using Cons.prems(1,3,4,6) w(2) written_entry by simp_all
        obtain w' where w': "list_protocols_loop env tgt agent_id kind skip count_max rest (count + 1, 8 + (avail + 1), avail + 1) ?s =
            Some (FWK_SUCCESS, (count + 1 + length seen', 8 + (avail + 1) + length seen', avail + 1 + length seen'), ?s\<lparr>scmi_world := w'\<rparr>)"
            "pending h p n w'"
            "take (8 + (avail + 1) + length seen') (written w') = take (8 + (avail + 1)) (written (scmi_world ?s)) @ map of_nat seen'"
          using Cons.IH [OF prems(1-4) rest prems(5) Cons.prems(7) seen'_def new(2)] by blast
        then show ?thesis
          using False visible written_entry w(1,3) seen new(1)
          by (auto simp: idx allowed MOD_SCMI_PROTOCOL_ID_BASE_def open_protocol_def add.assoc intro!: exI [of _ w'])
      qed
    qed
  qed
qed

text \<open>The handler, for any test of what an agent may see that leaves the state as it is.\<close>

lemma list_handler_page:
  assumes c: "on_channel env tr ch tgt config s" and pend: "pending h p n (scmi_world s)" and skip: "parameter 0 payload = Some skip"
    and kind: "(if has_resource_perms (scmi_bc env) then Some (FWK_SUCCESS, Some 0) else get_agent_type (cfg_scmi_agent_id config) (Some 0) s) =
      Some (FWK_SUCCESS, Some kind)"
    and count: "list_protocol_count env kind s = Some cnt"
    and entry: "\<And>w q. pending h p n w \<Longrightarrow>
      list_entry_allowed env (cfg_scmi_agent_id config) kind q (s\<lparr>scmi_world := w\<rparr>) = Some (see q, s\<lparr>scmi_world := w\<rparr>)"
    and ids: "length ids = 256" "scmi_protocol_id_to_idx s = ids" and room: "24 \<le> n" "n mod 4 = 0"
    and ps: "ps = filter (open_protocol ids see) [0..<256]"
  shows "\<exists>st w bs. scmi_base_discover_list_protocols_handler env tgt payload s = Some (st, s\<lparr>scmi_world := w\<rparr>) \<and>
    answered h bs w \<and> replies bs (page_reply n cnt (unat skip) ps)"
proof -
  let ?sk = "unat skip"
  let ?max = "min cnt (size_add ?sk (n - 8))"
  define seen where "seen = take ?max ps"
  define new where "new = drop ?sk seen"
  define m where "m = length new"
  have agent: "get_agent_id tgt (Some 0) s = Some (FWK_SUCCESS, Some (cfg_scmi_agent_id config))"
    by (rule get_agent_id_on_channel [OF c])
  have maxp: "get_max_payload_size env tgt (Some 0) s = Some ((FWK_SUCCESS, Some n), s)"
    using c max_law [OF pend] by (auto simp: on_channel_def get_max_payload_size_def call_transport_def call_world_def)
  have "size_add ?sk (n - 8) \<le> ?sk + (n - 8)" by (simp add: size_add_def)
  then have fits: "8 + (?max - ?sk) \<le> n" using room(1) by linarith
  have seen': "seen = take (?max - 0) (filter (open_protocol ids see) [0..<256])"
    unfolding seen_def ps by (simp only: diff_zero)
  have all: "\<forall>i \<in> set [0..<256]. i < (256 :: nat)" by (intro ballI) (simp only: set_upt atLeastLessThan_iff)
  have skip0: "(0 :: nat) = 0 - ?sk" "new = drop (?sk - 0) seen" by (simp_all add: new_def)
  obtain w where loop: "list_protocols_loop env tgt (cfg_scmi_agent_id config) kind ?sk ?max [0..<256] (0, 8, 0) s =
      Some (FWK_SUCCESS, (length seen, 8 + m, m), s\<lparr>scmi_world := w\<rparr>)"
    and w: "pending h p n w" "take (8 + m) (written w) = take 8 (written (scmi_world s)) @ map of_nat new"
    using list_loop [OF ids(1) c pend entry ids(2) all skip0(1) fits seen' skip0(2)]
    unfolding m_def add_0_left add_0_right by blast
  have step: "scmi_base_discover_list_protocols_handler env tgt payload s =
    (if ?sk > length seen then list_protocols_error env tgt SCMI_INVALID_PARAMETERS 0 FWK_SUCCESS (s\<lparr>scmi_world := w\<rparr>)
     else do {
       (status, s) \<leftarrow> write_payload env tgt 0 (Some (status_bytes SCMI_SUCCESS @ le32 (of_nat (m)))) 8 (s\<lparr>scmi_world := w\<rparr>);
       if status \<noteq> FWK_SUCCESS then list_protocols_error env tgt SCMI_SUCCESS (m) status s
       else respond env tgt None ((8 + m + 3) div 4 * 4) s
     })"
    unfolding scmi_base_discover_list_protocols_handler_def agent Option.bind.bind_lunit prod.case
    using kind maxp skip count loop room(1) by (simp add: Let_def)
  let ?s = "s\<lparr>scmi_world := w\<rparr>"
  have c': "on_channel env tr ch tgt config ?s" and pend': "pending h p n (scmi_world ?s)" using c w(1) by simp_all
  have len: "length seen \<le> ?max" unfolding seen_def length_take by (rule min.cobounded2)
  show ?thesis
  proof (cases "?sk > length seen")
    case True
    have n8: "8 \<le> n" using room(1) by simp
    have "page (n - 8) cnt ?sk ps = None"
      using True by (simp add: page_def Let_def seen_def)
    then have "page_reply n cnt ?sk ps = base_status SCMI_INVALID_PARAMETERS" by (simp add: page_reply_def)
    then show ?thesis
      using list_error_reply [OF c' pend' n8, of SCMI_INVALID_PARAMETERS 0 FWK_SUCCESS] True step
      by (auto simp: scmi_consts)
  next
    case False
    let ?hd = "status_bytes SCMI_SUCCESS @ le32 (of_nat (m))"
    have new: "8 + m \<le> n" using fits len unfolding m_def new_def length_drop by linarith
    then have aligned: "(8 + m + 3) div 4 * 4 \<le> n" using room(2) by presburger
    have "0 + length ?hd \<le> n" using room(1) by simp
    from write_pending [OF c' pend' this] obtain w2 where
      w2: "write_payload env tgt 0 (Some ?hd) 8 ?s = Some (FWK_SUCCESS, ?s\<lparr>scmi_world := w2\<rparr>)" "pending h p n w2"
        "written w2 = splice 0 ?hd (written w)"
      by auto
    have c2: "on_channel env tr ch tgt config (?s\<lparr>scmi_world := w2\<rparr>)" and pend2: "pending h p n (scmi_world (?s\<lparr>scmi_world := w2\<rparr>))"
      using c w2(2) by simp_all
    from respond_written [OF c2 pend2 aligned] obtain w3 where
      w3: "respond env tgt None ((8 + m + 3) div 4 * 4) (?s\<lparr>scmi_world := w2\<rparr>) = Some (FWK_SUCCESS, s\<lparr>scmi_world := w3\<rparr>)"
        "answered h (take ((8 + m + 3) div 4 * 4) (written w2)) w3"
      by auto
    have lw: "length (written w) = n" "length (written w2) = n" using written_law w(1) w2(2) by blast+
    have "take (8 + m) (written w2) = ?hd @ map of_nat new"
    proof -
      have "take (8 + m) (written w2) = ?hd @ take (m) (drop 8 (written w))"
        unfolding w2(3) by (simp add: splice_def)
      also have "take (m) (drop 8 (written w)) = drop 8 (take (8 + m) (written w))"
        by (simp add: take_drop add.commute [of 8])
      also have "\<dots> = map of_nat new"
        unfolding w(2) using lw written_law [OF pend] room(1) by simp
      finally show ?thesis .
    qed
    then have "take (length (?hd @ map of_nat new :: 8 word list)) (take ((8 + m + 3) div 4 * 4) (written w2)) = ?hd @ map of_nat new"
      unfolding m_def by (simp add: min_def) presburger
    moreover have "page (n - 8) cnt ?sk ps = Some new"
      using False by (simp add: page_def Let_def seen_def new_def)
    then have "page_reply n cnt ?sk ps = (?hd @ map of_nat new, (8 + m + 3) div 4 * 4)" by (simp add: page_reply_def m_def)
    ultimately have "replies (take ((8 + m + 3) div 4 * 4) (written w2)) (page_reply n cnt ?sk ps)"
      using lw(2) aligned by (simp add: replies_def)
    then show ?thesis using step False w2(1) w3 by auto
  qed
qed

lemma list_protocols_replies:
  assumes v: "serves_base env tr ch tgt v s" and pend: "pending h p (bv_room v) (scmi_world s)" and skip: "parameter 0 payload = Some skip"
  shows "\<exists>st w bs. scmi_base_discover_list_protocols_handler env tgt payload s = Some (st, s\<lparr>scmi_world := w\<rparr>) \<and>
    answered h bs w \<and> replies bs (list_reply v skip)"
proof -
  obtain config where c: "on_channel env tr ch tgt config s" "cfg_scmi_agent_id config = bv_agent_id v"
    using v by (auto simp: serves_base_def)
  have rp: "\<not> has_resource_perms (scmi_bc env)" and cfg: "scmi_config s = Some (bv_config v)"
      and known: "agent_known (bv_agent_id v) (bv_agent v) (bv_config v)" and psci: "psci_table_ok (bv_config v)"
      and ids: "length (bv_ids v) = 256" "scmi_protocol_id_to_idx s = bv_ids v" and cnt: "protocol_count s = bv_protocols v"
      and dis: "ag_type (bv_agent v) = SCMI_AGENT_TYPE_PSCI \<longrightarrow> dis_protocol_count_psci (bv_config v) < bv_protocols v"
      and room: "24 \<le> bv_room v" "bv_room v mod 4 = 0"
    using v by (auto simp: serves_base_def)
  let ?kind = "ag_type (bv_agent v)"
  have kind: "(if has_resource_perms (scmi_bc env) then Some (FWK_SUCCESS, Some 0) else get_agent_type (cfg_scmi_agent_id config) (Some 0) s) =
      Some (FWK_SUCCESS, Some ?kind)"
    using get_agent_type_known [OF cfg known] rp c(2) by simp
  have count: "list_protocol_count env ?kind s = Some (advertised_count (bv_config v) ?kind (bv_protocols v))"
    using rp cfg cnt dis by (simp add: list_protocol_count_def advertised_count_def)
  have entry: "list_entry_allowed env (cfg_scmi_agent_id config) ?kind q (s\<lparr>scmi_world := w\<rparr>) =
      Some (q \<notin> set (disabled_for (bv_config v) ?kind), s\<lparr>scmi_world := w\<rparr>)" for q w
    by (rule list_entry_allowed_table [OF rp _ psci]) (use cfg in simp)
  show ?thesis
    unfolding list_reply_def by (rule list_handler_page [OF c(1) pend skip kind count entry ids room visible_protocols_def])
qed

lemma message_attributes_replies:
  assumes v: "serves_base env tr ch tgt v s" and pend: "pending h p (bv_room v) (scmi_world s)" and par: "parameter 0 payload = Some m"
  shows "\<exists>st w bs. scmi_base_protocol_message_attributes_handler env tgt payload s = Some (st, s\<lparr>scmi_world := w\<rparr>) \<and>
    answered h bs w \<and> replies bs (if m < 8 then base_values (le32 0) else base_status SCMI_NOT_FOUND)"
proof -
  obtain config where c: "on_channel env tr ch tgt config s" using v by (auto simp: serves_base_def)
  let ?t = "base_handler_table False"
  have "(unat m < length ?t \<and> ?t ! unat m \<noteq> None \<and> ?t ! unat m \<noteq> Some MESSAGE_NOT_SUPPORTED) = (unat m < 8)"
  proof (cases "unat m < 12")
    case True
    then show ?thesis by (rule less_12_cases) (simp_all add: base_handler_table_def nth_Cons_numeral)
  qed (simp add: base_handler_table_def)
  then have known: "(unat m < length ?t \<and> ?t ! unat m \<noteq> None \<and> ?t ! unat m \<noteq> Some MESSAGE_NOT_SUPPORTED) = (m < 8)"
    by (simp add: word_less_nat_alt)
  have "4 + length (le32 0) \<le> bv_room v" using v by (simp add: serves_base_def)
  note reply = respond_values_reply [OF c pend this, of "if m < 8 then SCMI_SUCCESS else SCMI_NOT_FOUND"]
  have rp: "has_resource_perms (scmi_bc env) = False" using v by (simp add: serves_base_def)
  have "scmi_base_protocol_message_attributes_handler env tgt payload s =
      respond_values env tgt (if m < 8 then SCMI_SUCCESS else SCMI_NOT_FOUND) (le32 0) s"
    unfolding scmi_base_protocol_message_attributes_handler_def Let_def par Option.bind.bind_lunit rp known ..
  moreover have "(if (if m < 8 then SCMI_SUCCESS else SCMI_NOT_FOUND) = SCMI_SUCCESS then base_values (le32 0)
      else base_status (if m < 8 then SCMI_SUCCESS else SCMI_NOT_FOUND)) = (if m < 8 then base_values (le32 0) else base_status SCMI_NOT_FOUND)"
    by (simp add: scmi_consts)
  ultimately show ?thesis using reply by (simp only:) blast
qed

lemma discover_agent_replies:
  assumes v: "serves_base env tr ch tgt v s" and pend: "pending h p (bv_room v) (scmi_world s)" and par: "parameter 0 payload = Some i"
  shows "\<exists>st w bs. scmi_base_discover_agent_handler env tgt payload s = Some (st, s\<lparr>scmi_world := w\<rparr>) \<and>
    answered h bs w \<and> replies bs (agent_reply v i)"
proof -
  obtain config where c: "on_channel env tr ch tgt config s" "cfg_scmi_agent_id config = bv_agent_id v"
    using v by (auto simp: serves_base_def)
  have room: "4 + length (le32 a @ name16 b) \<le> bv_room v" "4 + length (le32 0 @ replicate 16 (0 :: 8 word)) \<le> bv_room v" for a b
    using v by (simp_all add: serves_base_def)
  note reply = respond_values_reply [OF c(1) pend room(1)] respond_values_reply [OF c(1) pend room(2)]
  have facts: "scmi_config s = Some (bv_config v)" "get_agent_id tgt (Some 0) s = Some (FWK_SUCCESS, Some (bv_agent_id v))"
      "srv_element_name env tgt (scmi_world s) = Some (Some (bv_service_name v))" "agent_known (bv_agent_id v) (bv_agent v) (bv_config v)"
    using v get_agent_id_on_channel [OF c(1)] c(2) by (auto simp: serves_base_def)
  let ?cnt = "agent_count (bv_config v)"
  consider (own) "i = 0xFFFFFFFF" | (platform) "i = 0" | (absent) "i \<noteq> 0xFFFFFFFF" "i \<noteq> 0" "i > ?cnt" | (other) "i \<noteq> 0xFFFFFFFF" "i \<noteq> 0" "i \<le> ?cnt"
    by force
  then show ?thesis
  proof cases
    case own
    then show ?thesis
      using facts par reply(1) [of SCMI_SUCCESS "bv_agent_id v" "bv_service_name v"]
      by (auto simp: scmi_base_discover_agent_handler_def agent_reply_def MOD_SCMI_PLATFORM_ID_def)
  next
    case platform
    then show ?thesis
      using facts par reply(1) [of SCMI_SUCCESS 0 "''platform''"]
      by (auto simp: scmi_base_discover_agent_handler_def agent_reply_def MOD_SCMI_PLATFORM_ID_def)
  next
    case absent
    then show ?thesis
      using facts par reply(2) [of SCMI_NOT_FOUND]
      by (auto simp: scmi_base_discover_agent_handler_def agent_reply_def scmi_consts)
  next
    case other
    have len: "unat i < length (agent_table (bv_config v))"
      using facts(4) other(3) by (auto simp: agent_known_def word_le_nat_alt)
    let ?a = "agent_table (bv_config v) ! unat i"
    have "ag_type ?a < SCMI_AGENT_TYPE_COUNT" using facts(4) len by (auto simp: agent_known_def)
    then have "unat (ag_type ?a) < length default_agent_names"
      by (simp add: default_agent_names_def scmi_consts word_less_nat_alt)
    then have name: "(case ag_name ?a of Some n \<Rightarrow> Some n | None \<Rightarrow> elem_at default_agent_names (unat (ag_type ?a))) = Some (agent_display_name ?a)"
      by (simp add: agent_display_name_def elem_at_def split: option.splits)
    have "scmi_base_discover_agent_handler env tgt payload s = respond_values env tgt SCMI_SUCCESS (le32 i @ name16 (agent_display_name ?a)) s"
      using facts(1) par other len name by (simp add: scmi_base_discover_agent_handler_def MOD_SCMI_PLATFORM_ID_def elem_at_ok leD)
    then show ?thesis
      using other reply(1) [of SCMI_SUCCESS i "agent_display_name ?a"] by (auto simp: agent_reply_def)
  qed
qed

lemma attributes_replies:
  assumes v: "serves_base env tr ch tgt v s" and pend: "pending h p (bv_room v) (scmi_world s)"
  shows "\<exists>st w bs. scmi_base_protocol_attributes_handler env tgt payload s = Some (st, s\<lparr>scmi_world := w\<rparr>) \<and> answered h bs w \<and>
    replies bs (base_values (le32 (SCMI_BASE_PROTOCOL_ATTRIBUTES
      (of_nat (advertised_count (bv_config v) (ag_type (bv_agent v)) (bv_protocols v))) (agent_count (bv_config v)))))"
proof -
  obtain config where c: "on_channel env tr ch tgt config s" "cfg_scmi_agent_id config = bv_agent_id v"
    using v by (auto simp: serves_base_def)
  let ?att = "SCMI_BASE_PROTOCOL_ATTRIBUTES (of_nat (advertised_count (bv_config v) (ag_type (bv_agent v)) (bv_protocols v))) (agent_count (bv_config v))"
  have agent: "get_agent_id tgt (Some 0) s = Some (FWK_SUCCESS, Some (bv_agent_id v))"
    using get_agent_id_on_channel [OF c(1)] c(2) by simp
  have kind: "get_agent_type (bv_agent_id v) (Some 0) s = Some (FWK_SUCCESS, Some (ag_type (bv_agent v)))"
    using v by (intro get_agent_type_known) (auto simp: serves_base_def)
  have "scmi_base_protocol_attributes_handler env tgt payload s = respond env tgt (Some (status_bytes SCMI_SUCCESS @ le32 ?att)) 8 s"
    using v agent kind by (simp add: scmi_base_protocol_attributes_handler_def serves_base_def advertised_count_def)
  moreover have "\<exists>w bs. respond env tgt (Some (status_bytes SCMI_SUCCESS @ le32 ?att)) (length (status_bytes SCMI_SUCCESS @ le32 ?att)) s =
      Some (FWK_SUCCESS, s\<lparr>scmi_world := w\<rparr>) \<and> answered h bs w \<and> replies bs (base_values (le32 ?att))"
    by (rule respond_reply [OF c(1) pend]) (use v in \<open>simp_all add: serves_base_def base_values_def\<close>)
  ultimately show ?thesis by auto
qed

text \<open>The handlers whose answer depends on the configuration alone.\<close>

lemma fixed_replies:
  assumes v: "serves_base env tr ch tgt v s" and pend: "pending h p (bv_room v) (scmi_world s)"
    and handler: "handler = respond env tgt (Some (status_bytes SCMI_SUCCESS @ vs)) (4 + length vs) s" and "length vs \<le> 16"
  shows "\<exists>st w bs. handler = Some (st, s\<lparr>scmi_world := w\<rparr>) \<and> answered h bs w \<and> replies bs (base_values vs)"
proof -
  obtain config where c: "on_channel env tr ch tgt config s" using v by (auto simp: serves_base_def)
  have "\<exists>w bs. respond env tgt (Some (status_bytes SCMI_SUCCESS @ vs)) (length (status_bytes SCMI_SUCCESS @ vs)) s =
      Some (FWK_SUCCESS, s\<lparr>scmi_world := w\<rparr>) \<and> answered h bs w \<and> replies bs (base_values vs)"
    by (rule respond_reply [OF c pend]) (use v assms(4) in \<open>simp_all add: serves_base_def base_values_def\<close>)
  then show ?thesis using handler by auto
qed

lemma status_reply:
  assumes v: "serves_base env tr ch tgt v s" and pend: "pending h p (bv_room v) (scmi_world s)"
  shows "\<exists>st w bs. respond env tgt (Some (status_bytes code)) 4 s = Some (st, s\<lparr>scmi_world := w\<rparr>) \<and> answered h bs w \<and> replies bs (base_status code)"
proof -
  obtain config where c: "on_channel env tr ch tgt config s" using v by (auto simp: serves_base_def)
  have "\<exists>w bs. respond env tgt (Some (status_bytes code)) (length (status_bytes code)) s =
      Some (FWK_SUCCESS, s\<lparr>scmi_world := w\<rparr>) \<and> answered h bs w \<and> replies bs (base_status code)"
    by (rule respond_reply [OF c pend]) (use v in \<open>simp_all add: serves_base_def base_status_def\<close>)
  then show ?thesis by auto
qed

lemma base_command_replies:
  assumes v: "serves_base env tr ch tgt v s" and pend: "pending h p (bv_room v) (scmi_world s)"
    and "cmd < 8" and "length p = base_parameter_size cmd"
  shows "\<exists>st w bs'. run_base_handler (the (base_handler_table False ! cmd)) env tgt (Some (p @ bs)) s = Some (st, s\<lparr>scmi_world := w\<rparr>) \<and>
    answered h bs' w \<and> replies bs' (base_reply v cmd p)"
proof -
  note fixed = fixed_replies [OF v pend]
  have names: "length (case vendor_identifier (bv_config v) of None \<Rightarrow> replicate 16 0 | Some v \<Rightarrow> name16 v) = 16"
      "length (case sub_vendor_identifier (bv_config v) of None \<Rightarrow> replicate 16 0 | Some v \<Rightarrow> name16 v) = 16"
    by (simp_all split: option.splits)
  have cfg: "scmi_config s = Some (bv_config v)" "fwk_build_version env = bv_version v" using v by (simp_all add: serves_base_def)
  consider "cmd = 0" | "cmd = 1" | "cmd = 2" | "cmd = 3" | "cmd = 4" | "cmd = 5" | "cmd = 6" | "cmd = 7" using assms(3) by linarith
  then show ?thesis
  proof cases
    case 1
    then show ?thesis
      using fixed [OF refl, of "le32 SCMI_PROTOCOL_VERSION_BASE"] assms(4)
      by (simp add: base_handler_table_def base_reply_def base_parameter_size_def scmi_base_protocol_version_handler_def)
  next
    case 2
    then show ?thesis
      using attributes_replies [OF v pend] assms(4) by (simp add: base_handler_table_def base_reply_def base_parameter_size_def)
  next
    case 3
    then show ?thesis
      using message_attributes_replies [OF v pend parameter_ok] assms(4)
      by (simp add: base_handler_table_def base_reply_def base_parameter_size_def)
  next
    case 4
    then show ?thesis
      using fixed [OF refl, of "base_name (vendor_identifier (bv_config v))"] assms(4) cfg names
      by (simp add: base_handler_table_def base_reply_def base_parameter_size_def scmi_base_discover_vendor_handler_def base_name_def nth_Cons_numeral)
  next
    case 5
    then show ?thesis
      using fixed [OF refl, of "base_name (sub_vendor_identifier (bv_config v))"] assms(4) cfg names
      by (simp add: base_handler_table_def base_reply_def base_parameter_size_def scmi_base_discover_sub_vendor_handler_def base_name_def nth_Cons_numeral)
  next
    case 6
    then show ?thesis
      using fixed [OF refl, of "le32 (bv_version v)"] assms(4) cfg
      by (simp add: base_handler_table_def base_reply_def base_parameter_size_def scmi_base_discover_implementation_version_handler_def nth_Cons_numeral)
  next
    case 7
    then show ?thesis
      using list_protocols_replies [OF v pend parameter_ok] assms(4)
      by (simp add: base_handler_table_def base_reply_def base_parameter_size_def nth_Cons_numeral)
  next
    case 8
    then show ?thesis
      using discover_agent_replies [OF v pend parameter_ok] assms(4)
      by (simp add: base_handler_table_def base_reply_def base_parameter_size_def nth_Cons_numeral)
  qed
qed

text \<open>The message handler of the Base protocol answers every message, with the reply of the specification.\<close>

lemma base_handler_replies:
  assumes v: "serves_base env tr ch tgt v s" and pend: "pending h p (bv_room v) (scmi_world s)"
  shows "\<exists>st w bs'. scmi_base_message_handler env pid tgt (Some (p @ bs)) (length p) m s = Some (st, s\<lparr>scmi_world := w\<rparr>) \<and>
    answered h bs' w \<and> replies bs' (base_reply v (unat m) p)"
proof -
  have rp: "has_resource_perms (scmi_bc env) = False" and api: "base_protocol_api s" using v by (simp_all add: serves_base_def)
  note validation = base_validation [of env tgt "p @ bs" "length p" "unat m" s]
  have handler: "scmi_base_message_handler env pid tgt (Some (p @ bs)) (length p) m s =
    (if unat m \<ge> 12 then respond env tgt (Some (status_bytes SCMI_NOT_FOUND)) 4 s
     else if length p \<noteq> base_parameter_size (unat m) then respond env tgt (Some (status_bytes SCMI_PROTOCOL_ERROR)) 4 s
     else if base_handler_table False ! unat m = Some MESSAGE_NOT_SUPPORTED then respond env tgt (Some (status_bytes SCMI_NOT_SUPPORTED)) 4 s
     else run_base_handler (the (base_handler_table False ! unat m)) env tgt (Some (p @ bs)) s)"
  proof -
    have "unat m < 12 \<Longrightarrow> base_handler_table False ! unat m \<noteq> None" by (rule base_table_entry(1))
    moreover have "length (base_handler_table False) = 12" by (simp add: base_handler_table_def)
    ultimately show ?thesis
      using api unfolding scmi_base_message_handler_def rp MOD_SCMI_BASE_COMMAND_COUNT_def Let_def
      by (auto simp: validation rp elem_at_def SCMI_SUCCESS_def SCMI_NOT_FOUND_def SCMI_PROTOCOL_ERROR_def)
  qed
  show ?thesis
  proof (cases "unat m < 12 \<and> length p = base_parameter_size (unat m)")
    case False
    then show ?thesis
      using status_reply [OF v pend, of SCMI_NOT_FOUND] status_reply [OF v pend, of SCMI_PROTOCOL_ERROR]
      unfolding handler by (auto simp: base_reply_def)
  next
    case True
    show ?thesis
    proof (cases "unat m < 8")
      case small: True
      have "base_handler_table False ! unat m \<noteq> Some MESSAGE_NOT_SUPPORTED" using small True by (simp add: base_table_entry(2))
      then show ?thesis
        using base_command_replies [OF v pend small, of bs] True unfolding handler by simp
    next
      case large: False
      have "base_handler_table False ! unat m = Some MESSAGE_NOT_SUPPORTED" using large True by (simp add: base_table_entry(2))
      moreover have "base_reply v (unat m) p = base_status SCMI_NOT_SUPPORTED"
        using large True by (simp add: base_reply_def)
      ultimately show ?thesis
        using status_reply [OF v pend, of SCMI_NOT_SUPPORTED] True unfolding handler by simp
    qed
  qed
qed

lemma process_event_prefix:
  assumes v: "serves_base env tr ch tgt v s" and pend: "pending h p n (scmi_world s)" and "target_id event = tgt"
  shows "\<exists>svc bs. service_of tgt (with_header tgt h s) = Some (record_header h svc) \<and>
    scmi_process_event env event s =
      (if read_message_type h = 1 then refuse_message env (record_header h svc) SCMI_PROTOCOL_ERROR (with_header tgt h s)
       else platform_message env tgt (Some (p @ bs)) (length p) (with_header tgt h s))"
proof -
  obtain config svc a where c: "service_of tgt s = Some svc" "svc_transport_api svc = Some a" "scmi_transports env a = tr"
      "svc_transport_id svc = ch" "svc_config svc = Some config" "cfg_scmi_entity_role config = MOD_SCMI_ROLE_PLATFORM"
    using v by (auto simp: serves_base_def on_channel_def)
  obtain i where i: "service_index tgt s = Some i" "i < length (service_ctx_table s)" "svc = service_ctx_table s ! i"
    using service_index_Some [OF c(1)] by blast
  obtain bs where
    header: "call_transport env svc tr_get_message_header s = Some ((FWK_SUCCESS, h), s)" and
    payload: "call_transport env svc tr_get_payload s = Some ((FWK_SUCCESS, Some (p @ bs), length p), s)"
    using header_law [OF pend] payload_law [OF pend] c by (auto simp: call_transport_def call_world_def)
  have get: "get_service i s = Some svc" "get_service i (upd_service i (record_header h) s) = Some (record_header h svc)"
    using i by (simp_all add: get_service_def upd_service_def)
  have wh: "upd_service i (record_header h) s = with_header tgt h s" by (simp add: with_header_def i(1))
  have cfg: "svc_config (record_header h svc) = Some config" using c(5) by (simp add: record_header_def)
  have "scmi_process_event env event s =
      (if read_message_type h = 1 then refuse_message env (record_header h svc) SCMI_PROTOCOL_ERROR (with_header tgt h s)
       else platform_message env tgt (Some (p @ bs)) (length p) (with_header tgt h s))"
    unfolding scmi_process_event_def assms(3) i(1) Option.bind.bind_lunit get(1) header prod.case payload Let_def
    using get(2) cfg c(6) by (simp add: type_valid_iff wh)
  then show ?thesis using service_of_with_header [OF c(1)] by blast
qed

lemma platform_message_verdict:
  assumes v: "serves_base env tr ch tgt v s" and svc: "service_of tgt s = Some (record_header h svc)" and ty: "read_message_type h \<noteq> 1"
  shows "platform_message env tgt payload len s =
    (case verdict v h of Some code \<Rightarrow> refuse_message env (record_header h svc) code s
     | None \<Rightarrow> do {
         protocol \<leftarrow> elem_at (protocol_table s) (unat (bv_ids v ! unat (read_protocol_id h)));
         deliver_message env tgt protocol payload len s
       })"
proof -
  obtain config where c: "on_channel env tr ch tgt config s" "cfg_scmi_agent_id config = bv_agent_id v"
    using v by (auto simp: serves_base_def)
  have rp: "has_resource_perms (scmi_bc env) = False" and cfg: "scmi_config s = Some (bv_config v)" and psci: "psci_table_ok (bv_config v)"
    and ids: "scmi_protocol_id_to_idx s = bv_ids v" "length (bv_ids v) = 256"
    using v by (simp_all add: serves_base_def)
  have agent: "get_agent_id tgt (Some 0) s = Some (FWK_SUCCESS, Some (bv_agent_id v))"
    using get_agent_id_on_channel [OF c(1)] c(2) by simp
  have kind: "get_agent_type (bv_agent_id v) (Some 0) s = Some (FWK_SUCCESS, Some (ag_type (bv_agent v)))"
    using v by (intro get_agent_type_known) (auto simp: serves_base_def)
  have proto: "scmi_protocol_id (record_header h svc) = ucast (read_protocol_id h)" by (simp add: record_header_def)
  have "unat (read_protocol_id h) < 2 ^ 8" using unsigned_less [of "read_protocol_id h"] by simp
  then have idx: "elem_at (scmi_protocol_id_to_idx s) (unat (ucast (read_protocol_id h) :: 32 word)) = Some (bv_ids v ! unat (read_protocol_id h))"
    using ids by (simp add: unat_ucast_up)
  show ?thesis
    unfolding platform_message_def svc Option.bind.bind_lunit proto idx agent prod.case rp kind
    using cfg ty psci by (auto simp: verdict_def psci_disabled_table [OF psci] disabled_for_def)
qed

text \<open>A message the header of which the module refuses gets the status of the verdict.\<close>

lemma process_refused:
  assumes "serves_base env tr ch tgt v s" and "pending h p (bv_room v) (scmi_world s)" and "target_id event = tgt" and "verdict v h = Some code"
  shows "\<exists>t. scmi_process_event env event s = Some (FWK_SUCCESS, t) \<and> answered h (status_bytes code) (scmi_world t)"
proof -
  obtain svc bs where svc: "service_of tgt (with_header tgt h s) = Some (record_header h svc)"
    and ev: "scmi_process_event env event s =
      (if read_message_type h = 1 then refuse_message env (record_header h svc) SCMI_PROTOCOL_ERROR (with_header tgt h s)
       else platform_message env tgt (Some (p @ bs)) (length p) (with_header tgt h s))"
    using process_event_prefix [OF assms(1-3)] by blast
  have v': "serves_base env tr ch tgt v (with_header tgt h s)" by (rule serves_base_with_header [OF assms(1)])
  then obtain config where c: "on_channel env tr ch tgt config (with_header tgt h s)" and n: "4 \<le> bv_room v" by (auto simp: serves_base_def)
  have pend: "pending h p (bv_room v) (scmi_world (with_header tgt h s))" using assms(2) by simp
  have "scmi_process_event env event s = refuse_message env (record_header h svc) code (with_header tgt h s)"
  proof (cases "read_message_type h = 1")
    case True
    then show ?thesis using ev assms(4) by (simp add: verdict_def)
  next
    case False
    then show ?thesis using ev platform_message_verdict [OF v' svc False] assms(4) by simp
  qed
  then show ?thesis using refuse_pending [OF c svc pend n, of code] by auto
qed

text \<open>A message for the Base protocol gets the reply of the specification.\<close>

lemma process_base:
  assumes "serves_base env tr ch tgt v s" and "pending h p (bv_room v) (scmi_world s)" and "target_id event = tgt"
    and "verdict v h = None" and "read_protocol_id h = MOD_SCMI_PROTOCOL_ID_BASE"
    and "has_scmi_notifications (scmi_bc env) \<longrightarrow> read_message_type h \<noteq> MOD_SCMI_MESSAGE_TYPE_NOTIFICATION"
    and "elem_at (protocol_table s) (unat (bv_ids v ! 16)) = Some protocol" and "message_handler protocol = Some BASE_HANDLER"
  shows "\<exists>t bs. scmi_process_event env event s = Some (FWK_SUCCESS, t) \<and> answered h bs (scmi_world t) \<and>
    replies bs (base_reply v (unat (read_message_id h)) p)"
proof -
  let ?s = "with_header tgt h s"
  have ty: "read_message_type h \<noteq> 1" using assms(4) by (auto simp: verdict_def)
  obtain svc bs where svc: "service_of tgt ?s = Some (record_header h svc)"
    and "scmi_process_event env event s =
      (if read_message_type h = 1 then refuse_message env (record_header h svc) SCMI_PROTOCOL_ERROR ?s
       else platform_message env tgt (Some (p @ bs)) (length p) ?s)"
    using process_event_prefix [OF assms(1-3)] by blast
  then have ev: "scmi_process_event env event s = platform_message env tgt (Some (p @ bs)) (length p) ?s" using ty by simp
  have v': "serves_base env tr ch tgt v ?s" by (rule serves_base_with_header [OF assms(1)])
  have pend: "pending h p (bv_room v) (scmi_world ?s)" using assms(2) by simp
  have entry: "elem_at (protocol_table ?s) (unat (bv_ids v ! unat (read_protocol_id h))) = Some protocol"
    using assms(5,7) by (simp add: MOD_SCMI_PROTOCOL_ID_BASE_def)
  then have deliver: "scmi_process_event env event s = deliver_message env tgt protocol (Some (p @ bs)) (length p) ?s"
    unfolding ev platform_message_verdict [OF v' svc ty] assms(4) option.case entry Option.bind.bind_lunit by simp
  obtain st w bs' where
    handled: "scmi_base_message_handler env (protocol_fwk_id protocol) tgt (Some (p @ bs)) (length p) (ucast (read_message_id h)) ?s = Some (st, ?s\<lparr>scmi_world := w\<rparr>)"
    and ans: "answered h bs' w" "replies bs' (base_reply v (unat (ucast (read_message_id h) :: 32 word)) p)"
    using base_handler_replies [OF v' pend] by blast
  have "\<not> (has_scmi_notifications (scmi_bc env) \<and> scmi_message_type (record_header h svc) = MOD_SCMI_MESSAGE_TYPE_NOTIFICATION)"
    using assms(6) by (simp add: record_header_def)
  then have no_ntf: "(has_scmi_notifications (scmi_bc env) \<and> scmi_message_type (record_header h svc) = MOD_SCMI_MESSAGE_TYPE_NOTIFICATION) = False"
    by blast
  have "send_to_message_handler env (record_header h svc) protocol (Some (p @ bs)) (length p) tgt ?s = Some (st, ?s\<lparr>scmi_world := w\<rparr>)"
    using handled assms(8) unfolding send_to_message_handler_def no_ntf by (simp add: call_handler_def record_header_def)
  moreover obtain config where "svc_config (record_header h svc) = Some config" "cfg_scmi_entity_role config = MOD_SCMI_ROLE_PLATFORM"
    using v' svc by (auto simp: serves_base_def on_channel_def)
  ultimately have "deliver_message env tgt protocol (Some (p @ bs)) (length p) ?s = Some (FWK_SUCCESS, ?s\<lparr>scmi_world := w\<rparr>)"
    using svc by (simp add: deliver_message_def scmi_consts)
  moreover have "unat (ucast (read_message_id h) :: 32 word) = unat (read_message_id h)" by (simp add: unat_ucast_up)
  ultimately show ?thesis using deliver ans by auto
qed

end

end
