(* ===== verification/Mod_Msg_Smt.thy ===== *)
theory Mod_Msg_Smt
  imports Mod_Scmi_Channel
begin

text \<open>
  The message channels of \<^verbatim>\<open>module/msg_smt/src/mod_msg_smt.c\<close>: a driver hands over an input and an
  output buffer, the channel is locked until the SCMI module has written its response, and the driver
  is told. Buffers are at addresses of a shared memory, so that an input that is also the output is
  one buffer. The last part shows that a channel keeps the contract \<open>scmi_channel\<close>.
\<close>

section \<open>Data\<close>

definition MOD_MSG_SMT_CHANNEL_TYPE_REQUESTER :: "32 word" where [scmi_consts]: "MOD_MSG_SMT_CHANNEL_TYPE_REQUESTER = 0"
definition MOD_MSG_SMT_CHANNEL_TYPE_COMPLETER :: "32 word" where [scmi_consts]: "MOD_MSG_SMT_CHANNEL_TYPE_COMPLETER = 1"
definition MOD_MSG_SMT_CHANNEL_TYPE_COUNT :: "32 word" where [scmi_consts]: "MOD_MSG_SMT_CHANNEL_TYPE_COUNT = 2"

record smt_channel_config =
  smt_type :: "32 word"
  mailbox_size :: nat
  smt_cfg_driver_id :: fwk_id
  smt_cfg_driver_api_id :: fwk_id

record smt_channel_ctx =
  smt_id :: fwk_id
  smt_config :: "smt_channel_config option"
  smt_in :: "nat option"
  smt_out :: "nat option"
  in_len :: nat
  out_len :: nat
  locked :: bool
  max_payload_size :: nat
  smt_driver_id :: fwk_id
  scmi_service_id :: fwk_id
  smt_driver_api :: "nat option"
  smt_scmi_api :: "nat option"
  msg_smt_mailbox_ready :: bool

text \<open>\<open>smt_memory\<close> holds the buffers of the channels by address; \<open>smt_outside\<close> is the state of everything else.\<close>

record 'm smt_ctx =
  channel_ctx_table :: "smt_channel_ctx list"
  channel_count :: nat
  smt_memory :: "nat \<Rightarrow> 8 word list option"
  smt_outside :: 'm

text \<open>
  The driver's \<^verbatim>\<open>raise_notification\<close> and the SCMI module's \<^verbatim>\<open>signal_message\<close>, by address. The latter calls
  back into the channel, so it works on a state \<open>'s\<close> that holds the context of the channels:
  \<open>smt_of\<close> and \<open>smt_put\<close> read and write it.
\<close>

record ('m, 's) smt_env =
  smt_srv :: "'m fwk_services"
  raise_notification :: "nat \<Rightarrow> (fwk_id \<Rightarrow> nat \<Rightarrow> 'm \<Rightarrow> (int \<times> 'm) option) option"
  scmi_signal_message :: "nat \<Rightarrow> (fwk_id \<Rightarrow> 's \<Rightarrow> (int \<times> 's) option) option"
  smt_of :: "'s \<Rightarrow> 'm smt_ctx"
  smt_put :: "'m smt_ctx \<Rightarrow> 's \<Rightarrow> 's"
  smt_scmi_idx :: "32 word"
  smt_transport_api :: nat
  smt_driver_input_api :: nat

definition channel_index :: "fwk_id \<Rightarrow> 'm smt_ctx \<Rightarrow> nat option" where
  "channel_index channel_id s = do { e \<leftarrow> fwk_id_get_element_idx channel_id; elem_at (channel_ctx_table s) (unat e); Some (unat e) }"

definition channel_of :: "fwk_id \<Rightarrow> 'm smt_ctx \<Rightarrow> smt_channel_ctx option" where
  "channel_of channel_id s = do { i \<leftarrow> channel_index channel_id s; elem_at (channel_ctx_table s) i }"

definition upd_channel :: "nat \<Rightarrow> (smt_channel_ctx \<Rightarrow> smt_channel_ctx) \<Rightarrow> 'm smt_ctx \<Rightarrow> 'm smt_ctx" where
  "upd_channel i f s = s\<lparr>channel_ctx_table := (channel_ctx_table s)[i := f (channel_ctx_table s ! i)]\<rparr>"

text \<open>
  \<^verbatim>\<open>memcpy\<close> of \<open>k\<close> bytes into the buffer at an address: \<open>None\<close> where the source or the destination is
  too short. The payload of a message starts after the four bytes of its header.
\<close>

definition copy_to :: "nat option \<Rightarrow> nat \<Rightarrow> 8 word list \<Rightarrow> nat \<Rightarrow> 'm smt_ctx \<Rightarrow> 'm smt_ctx option" where
  "copy_to addr off bs k s =
     do {
       a \<leftarrow> addr;
       buf \<leftarrow> smt_memory s a;
       if k \<le> length bs \<and> off + k \<le> length buf
       then Some (s\<lparr>smt_memory := (smt_memory s)(a := Some (splice off (take k bs) buf))\<rparr>)
       else None
     }"

definition buffer_at :: "nat option \<Rightarrow> 'm smt_ctx \<Rightarrow> 8 word list option" where
  "buffer_at addr s = do { a \<leftarrow> addr; smt_memory s a }"

section \<open>The transport interface\<close>

definition smt_get_secure :: "fwk_id \<Rightarrow> 'm smt_ctx \<Rightarrow> ((int \<times> bool) \<times> 'm smt_ctx) option" where
  "smt_get_secure channel_id s = Some ((FWK_SUCCESS, False), s)"

definition smt_get_max_payload_size :: "fwk_id \<Rightarrow> 'm smt_ctx \<Rightarrow> ((int \<times> nat) \<times> 'm smt_ctx) option" where
  "smt_get_max_payload_size channel_id s = do { c \<leftarrow> channel_of channel_id s; Some ((FWK_SUCCESS, max_payload_size c), s) }"

definition smt_get_message_header :: "fwk_id \<Rightarrow> 'm smt_ctx \<Rightarrow> ((int \<times> 32 word) \<times> 'm smt_ctx) option" where
  "smt_get_message_header channel_id s =
     do {
       c \<leftarrow> channel_of channel_id s;
       if \<not> locked c then Some ((FWK_E_ACCESS, 0), s)
       else do {
         buf \<leftarrow> buffer_at (smt_in c) s;
         h \<leftarrow> get_u32 0 buf;
         Some ((FWK_SUCCESS, h), s)
       }
     }"

text \<open>The length is written where the caller passes a place for it.\<close>

definition smt_get_payload :: "fwk_id \<Rightarrow> nat option \<Rightarrow> 'm smt_ctx \<Rightarrow> ((int \<times> 8 word list option \<times> nat option) \<times> 'm smt_ctx) option" where
  "smt_get_payload channel_id len s =
     do {
       c \<leftarrow> channel_of channel_id s;
       if \<not> locked c then Some ((FWK_E_ACCESS, None, len), s)
       else do {
         buf \<leftarrow> buffer_at (smt_in c) s;
         Some ((FWK_SUCCESS, Some (drop 4 buf), map_option (\<lambda>_. size_sub (in_len c) 4) len), s)
       }
     }"

definition smt_write_payload :: "fwk_id \<Rightarrow> nat \<Rightarrow> 8 word list option \<Rightarrow> nat \<Rightarrow> 'm smt_ctx \<Rightarrow> (int \<times> 'm smt_ctx) option" where
  "smt_write_payload channel_id offset payload len s =
     do {
       c \<leftarrow> channel_of channel_id s;
       fwk_assert (\<not> (payload = None \<or> offset > max_payload_size c \<or> len > max_payload_size c \<or>
         size_add offset len > max_payload_size c));
       if \<not> locked c then Some (FWK_E_ACCESS, s)
       else do {
         bs \<leftarrow> payload;
         s \<leftarrow> copy_to (smt_out c) (4 + offset) bs len s;
         Some (FWK_SUCCESS, s)
       }
     }"

text \<open>The end of a response: the channel is free, and the driver is told how long the message is.\<close>

definition tell_driver :: "('m, 's) smt_env \<Rightarrow> nat \<Rightarrow> 'm smt_ctx \<Rightarrow> (int \<times> 'm smt_ctx) option" where
  "tell_driver env i s =
     do {
       c \<leftarrow> elem_at (channel_ctx_table s) i;
       api \<leftarrow> smt_driver_api c;
       f \<leftarrow> raise_notification env api;
       (status, m) \<leftarrow> f (smt_driver_id c) (out_len c) (smt_outside s);
       Some (FWK_SUCCESS, s\<lparr>smt_outside := m\<rparr>)
     }"

definition smt_respond :: "('m, 's) smt_env \<Rightarrow> fwk_id \<Rightarrow> 8 word list option \<Rightarrow> nat \<Rightarrow> 'm smt_ctx \<Rightarrow> (int \<times> 'm smt_ctx) option" where
  "smt_respond env channel_id payload len s =
     do {
       i \<leftarrow> channel_index channel_id s;
       c \<leftarrow> elem_at (channel_ctx_table s) i;
       s \<leftarrow> (case payload of None \<Rightarrow> Some s | Some bs \<Rightarrow> copy_to (smt_out c) 4 bs len s);
       let s = upd_channel i (\<lambda>c. c\<lparr>locked := False, out_len := size_add 4 len\<rparr>) s;
       tell_driver env i s
     }"

definition smt_transmit :: "('m, 's) smt_env \<Rightarrow> fwk_id \<Rightarrow> 32 word \<Rightarrow> 8 word list option \<Rightarrow> nat \<Rightarrow> bool \<Rightarrow> 'm smt_ctx \<Rightarrow> (int \<times> 'm smt_ctx) option" where
  "smt_transmit env channel_id message_header payload len request_ack_by_interrupt s =
     (case payload of
        None \<Rightarrow> Some (FWK_E_DATA, s)
      | Some bs \<Rightarrow> do {
          i \<leftarrow> channel_index channel_id s;
          c \<leftarrow> elem_at (channel_ctx_table s) i;
          if \<not> locked c then Some (FWK_SUCCESS, s)
          else do {
            s \<leftarrow> copy_to (smt_out c) 0 (le32 message_header) 4 s;
            s \<leftarrow> copy_to (smt_out c) 4 bs len s;
            let s = upd_channel i (\<lambda>c. c\<lparr>out_len := size_add 4 len, locked := False\<rparr>) s;
            tell_driver env i s
          }
        })"

definition smt_mod_scmi_to_transport_api :: "('m, 's) smt_env \<Rightarrow> 'm smt_ctx scmi_transport" where
  "smt_mod_scmi_to_transport_api env =
     \<lparr>tr_get_secure = Some smt_get_secure,
      tr_get_max_payload_size = Some smt_get_max_payload_size,
      tr_get_message_header = Some smt_get_message_header,
      tr_get_payload = Some (\<lambda>i s. do { ((status, payload, len), s) \<leftarrow> smt_get_payload i (Some 0) s; len \<leftarrow> len; Some ((status, payload, len), s) }),
      tr_write_payload = Some smt_write_payload,
      tr_respond = Some (smt_respond env),
      tr_transmit = Some (smt_transmit env),
      tr_release = None\<rparr>"

section \<open>The driver's interface\<close>

definition smt_requester_handler :: "('m, 's) smt_env \<Rightarrow> nat \<Rightarrow> 's \<Rightarrow> (int \<times> 's) option" where
  "smt_requester_handler env i s =
     do {
       let m = upd_channel i (\<lambda>c. c\<lparr>locked := True\<rparr>) (smt_of env s);
       c \<leftarrow> elem_at (channel_ctx_table m) i;
       buf \<leftarrow> buffer_at (smt_in c) m;
       h \<leftarrow> get_u32 0 buf;
       m \<leftarrow> copy_to (smt_out c) 0 (le32 h) 4 m;
       api \<leftarrow> smt_scmi_api c;
       f \<leftarrow> scmi_signal_message env api;
       (status, s) \<leftarrow> f (scmi_service_id c) (smt_put env m s);
       Some (if status \<noteq> FWK_SUCCESS then FWK_E_HANDLER else FWK_SUCCESS, s)
     }"

definition smt_completer_handler :: "('m, 's) smt_env \<Rightarrow> nat \<Rightarrow> 's \<Rightarrow> (int \<times> 's) option" where
  "smt_completer_handler env i s = Some (FWK_SUCCESS, smt_put env (upd_channel i (\<lambda>c. c\<lparr>locked := True\<rparr>) (smt_of env s)) s)"

definition msg_signal_message :: "('m, 's) smt_env \<Rightarrow> fwk_id \<Rightarrow> nat option \<Rightarrow> nat \<Rightarrow> nat option \<Rightarrow> nat \<Rightarrow> 's \<Rightarrow> (int \<times> 's) option" where
  "msg_signal_message env channel_id msg_in msg_in_len msg_out msg_out_len s =
     do {
       i \<leftarrow> channel_index channel_id (smt_of env s);
       c \<leftarrow> elem_at (channel_ctx_table (smt_of env s)) i;
       if \<not> msg_smt_mailbox_ready c then Some (FWK_SUCCESS, s)
       else if locked c then Some (FWK_E_STATE, s)
       else do {
         let s = smt_put env (upd_channel i (\<lambda>c. c\<lparr>smt_in := msg_in, in_len := msg_in_len, smt_out := msg_out, out_len := msg_out_len\<rparr>)
           (smt_of env s)) s;
         config \<leftarrow> smt_config c;
         if smt_type config = MOD_MSG_SMT_CHANNEL_TYPE_REQUESTER then smt_requester_handler env i s
         else if smt_type config = MOD_MSG_SMT_CHANNEL_TYPE_COMPLETER then smt_completer_handler env i s
         else None
       }
     }"

section \<open>Framework entry points\<close>

definition zero_channel :: smt_channel_ctx where
  "zero_channel = \<lparr>smt_id = 0, smt_config = None, smt_in = None, smt_out = None, in_len = 0, out_len = 0, locked = False, max_payload_size = 0,
     smt_driver_id = 0, scmi_service_id = 0, smt_driver_api = None, smt_scmi_api = None, msg_smt_mailbox_ready = False\<rparr>"

definition msg_init :: "('m, 's) smt_env \<Rightarrow> nat \<Rightarrow> 'm smt_ctx \<Rightarrow> (int \<times> 'm smt_ctx) option" where
  "msg_init env element_cnt s =
     (if element_cnt = 0 then Some (FWK_E_PARAM, s)
      else do {
        m \<leftarrow> srv_calloc (smt_srv env) element_cnt (smt_outside s);
        Some (FWK_SUCCESS, s\<lparr>channel_ctx_table := replicate element_cnt zero_channel, channel_count := element_cnt, smt_outside := m\<rparr>)
      })"

definition msg_channel_init :: "fwk_id \<Rightarrow> smt_channel_config \<Rightarrow> 'm smt_ctx \<Rightarrow> (int \<times> 'm smt_ctx) option" where
  "msg_channel_init channel_id config s =
     do {
       i \<leftarrow> channel_index channel_id s;
       fwk_assert (smt_type config < MOD_MSG_SMT_CHANNEL_TYPE_COUNT);
       Some (FWK_SUCCESS, upd_channel i (\<lambda>c. c\<lparr>smt_config := Some config, smt_in := None, in_len := 0, smt_out := None, out_len := 0,
         max_payload_size := size_sub (mailbox_size config) 4, msg_smt_mailbox_ready := True\<rparr>) s)
     }"

definition msg_bind :: "('m, 's) smt_env \<Rightarrow> fwk_id \<Rightarrow> nat \<Rightarrow> 'm smt_ctx \<Rightarrow> (int \<times> 'm smt_ctx) option" where
  "msg_bind env i round s =
     do {
       is_module \<leftarrow> fwk_id_is_type i FWK_ID_TYPE_MODULE;
       if is_module then Some (FWK_SUCCESS, s)
       else do {
         k \<leftarrow> channel_index i s;
         c \<leftarrow> elem_at (channel_ctx_table s) k;
         if round = 0
         then do {
           config \<leftarrow> smt_config c;
           (status, api, m) \<leftarrow> srv_bind (smt_srv env) (smt_cfg_driver_id config) (smt_cfg_driver_api_id config) (smt_outside s);
           let s = s\<lparr>smt_outside := m\<rparr>;
           let s = (if api = None then s else upd_channel k (\<lambda>c. c\<lparr>smt_driver_api := api\<rparr>) s);
           if status \<noteq> FWK_SUCCESS then Some (status, s)
           else Some (FWK_SUCCESS, upd_channel k (\<lambda>c. c\<lparr>smt_driver_id := smt_cfg_driver_id config\<rparr>) s)
         }
         else if round = 1
         then do {
           (status, api, m) \<leftarrow> srv_bind (smt_srv env) (scmi_service_id c) (FWK_ID_API (smt_scmi_idx env) 2) (smt_outside s);
           let s = s\<lparr>smt_outside := m\<rparr>;
           let s = (if api = None then s else upd_channel k (\<lambda>c. c\<lparr>smt_scmi_api := api\<rparr>) s);
           Some (status, s)
         }
         else Some (FWK_SUCCESS, s)
       }
     }"

definition msg_process_bind_request :: "('m, 's) smt_env \<Rightarrow> fwk_id \<Rightarrow> fwk_id \<Rightarrow> fwk_id \<Rightarrow> 'm smt_ctx \<Rightarrow> (int \<times> nat option \<times> 'm smt_ctx) option" where
  "msg_process_bind_request env src tgt api_id s =
     do {
       is_element \<leftarrow> fwk_id_is_type tgt FWK_ID_TYPE_ELEMENT;
       if \<not> is_element then Some (FWK_E_ACCESS, None, s)
       else do {
         e \<leftarrow> fwk_id_get_element_idx tgt;
         let i = unat e;
         if i \<ge> channel_count s then Some (FWK_E_ACCESS, None, s)
         else do {
           c \<leftarrow> elem_at (channel_ctx_table s) i;
           api_idx \<leftarrow> fwk_id_get_api_idx api_id;
           if api_idx = 1
           then do {
             dm \<leftarrow> fwk_id_get_module_idx (smt_driver_id c);
             sm \<leftarrow> fwk_id_get_module_idx src;
             same \<leftarrow> (if dm = sm
                      then do { de \<leftarrow> fwk_id_get_element_idx (smt_driver_id c); se \<leftarrow> fwk_id_get_element_idx src; Some (de = se) }
                      else Some False);
             fwk_assert same;
             Some (FWK_SUCCESS, Some (smt_driver_input_api env), s)
           }
           else if api_idx = 0
           then Some (FWK_SUCCESS, Some (smt_transport_api env), upd_channel i (\<lambda>c. c\<lparr>scmi_service_id := src\<rparr>) s)
           else None
         }
       }
     }"

definition msg_start :: "fwk_id \<Rightarrow> 'm smt_ctx \<Rightarrow> (int \<times> 'm smt_ctx) option" where
  "msg_start i s = Some (FWK_SUCCESS, s)"

section \<open>A channel keeps the contract of a transport\<close>

text \<open>
  The situation of a message that waits for its response: the channel \<open>i\<close> is locked, its input buffer
  holds the header and the payload, its output buffer, another one, has room for the largest payload and already
  starts with the header, and the driver returns when it is told. Everything outside of the channels is
  in the state \<open>m0\<close>.
\<close>

definition smt_pending :: "('m, 's) smt_env \<Rightarrow> fwk_id \<Rightarrow> 'm \<Rightarrow> 32 word \<Rightarrow> 8 word list \<Rightarrow> nat \<Rightarrow> 'm smt_ctx \<Rightarrow> bool" where
  "smt_pending env ch m0 h p n w \<longleftrightarrow>
     smt_outside w = m0 \<and>
     (\<exists>c a b buf out api f. channel_of ch w = Some c \<and> locked c \<and> smt_in c = Some a \<and> smt_out c = Some b \<and> a \<noteq> b \<and>
        smt_memory w a = Some buf \<and> get_u32 0 buf = Some h \<and> in_len c = 4 + length p \<and> take (length p) (drop 4 buf) = p \<and>
        max_payload_size c = n \<and> smt_memory w b = Some out \<and> 4 + n \<le> length out \<and> 4 + n < 2 ^ 32 \<and> take 4 out = le32 h \<and>
        smt_driver_api c = Some api \<and> raise_notification env api = Some f \<and> (\<forall>k m. \<exists>st m'. f (smt_driver_id c) k m = Some (st, m')))"

definition smt_written :: "fwk_id \<Rightarrow> 'm smt_ctx \<Rightarrow> 8 word list" where
  "smt_written ch w =
     (case channel_of ch w of None \<Rightarrow> []
      | Some c \<Rightarrow> (case buffer_at (smt_out c) w of None \<Rightarrow> [] | Some out \<Rightarrow> take (max_payload_size c) (drop 4 out)))"

text \<open>
  The channel is free, the message in its output buffer is the response, and its driver has been told
  the length of that message, once: what is outside of the channels is what the driver's call makes of \<open>m0\<close>.
\<close>

definition smt_answered :: "('m, 's) smt_env \<Rightarrow> fwk_id \<Rightarrow> 'm \<Rightarrow> 32 word \<Rightarrow> 8 word list \<Rightarrow> 'm smt_ctx \<Rightarrow> bool" where
  "smt_answered env ch m0 h bs w \<longleftrightarrow>
     (\<exists>c out api f st. channel_of ch w = Some c \<and> \<not> locked c \<and> buffer_at (smt_out c) w = Some out \<and>
        out_len c = 4 + length bs \<and> take (out_len c) out = le32 h @ bs \<and>
        smt_driver_api c = Some api \<and> raise_notification env api = Some f \<and>
        f (smt_driver_id c) (4 + length bs) m0 = Some (st, smt_outside w))"

lemma channel_of_index:
  "channel_of ch w = Some c \<Longrightarrow> \<exists>i. channel_index ch w = Some i \<and> i < length (channel_ctx_table w) \<and> c = channel_ctx_table w ! i"
  by (auto simp: channel_of_def bind_Some_iff)

lemma channel_of_upd:
  "channel_index ch w = Some i \<Longrightarrow> channel_of ch w = Some c \<Longrightarrow> channel_of ch (upd_channel i f w) = Some (f c)"
  by (auto simp: channel_of_def channel_index_def upd_channel_def bind_Some_iff elem_at_def split: if_splits)

lemma channel_index_same [simp]:
  "channel_index ch (w\<lparr>smt_memory := x\<rparr>) = channel_index ch w" "channel_of ch (w\<lparr>smt_memory := x\<rparr>) = channel_of ch w"
  "channel_index ch (w\<lparr>smt_outside := y\<rparr>) = channel_index ch w" "channel_of ch (w\<lparr>smt_outside := y\<rparr>) = channel_of ch w"
  by (simp_all add: channel_index_def channel_of_def)

lemma upd_channel_same [simp]:
  "smt_memory (upd_channel i f w) = smt_memory w" "smt_outside (upd_channel i f w) = smt_outside w"
  "buffer_at x (upd_channel i f w) = buffer_at x w" "buffer_at x (w\<lparr>smt_outside := y\<rparr>) = buffer_at x w"
  by (simp_all add: upd_channel_def buffer_at_def)

text \<open>Telling the driver, for a driver that returns.\<close>

lemma tell_driver_ok:
  assumes "channel_index ch w = Some i" and "channel_of ch w = Some c" and "smt_driver_api c = Some api" and "raise_notification env api = Some f"
    and "\<forall>k m. \<exists>st m'. f (smt_driver_id c) k m = Some (st, m')"
  shows "\<exists>m st. tell_driver env i w = Some (FWK_SUCCESS, w\<lparr>smt_outside := m\<rparr>) \<and>
    f (smt_driver_id c) (out_len c) (smt_outside w) = Some (st, m)"
proof -
  have e: "elem_at (channel_ctx_table w) i = Some c" using assms(1,2) by (simp add: channel_of_def)
  obtain st m' where f: "f (smt_driver_id c) (out_len c) (smt_outside w) = Some (st, m')" using assms(5) by blast
  show ?thesis
    unfolding tell_driver_def e Option.bind.bind_lunit assms(3,4) using f by (intro exI [of _ m'] exI [of _ st]) simp
qed

text \<open>The two responses: the output buffer keeps its header, and the bytes after it are the response.\<close>

lemma respond_end:
  assumes "channel_index ch w = Some i" and "channel_of ch w = Some c" and "smt_driver_api c = Some api" and "raise_notification env api = Some f"
    and "\<forall>k m. \<exists>st m'. f (smt_driver_id c) k m = Some (st, m')" and "buffer_at (smt_out c) w = Some out"
    and "4 + k < 2 ^ 32" and "take (4 + k) out = le32 h @ bs" and "length bs = k" and "smt_outside w = m0"
  shows "\<exists>w'. tell_driver env i (upd_channel i (\<lambda>c. c\<lparr>locked := False, out_len := size_add 4 k\<rparr>) w) = Some (FWK_SUCCESS, w') \<and> smt_answered env ch m0 h bs w'"
proof -
  let ?g = "\<lambda>c :: smt_channel_ctx. c\<lparr>locked := False, out_len := size_add 4 k\<rparr>"
  have i: "channel_index ch (upd_channel i ?g w) = Some i"
    using assms(1) by (auto simp: channel_index_def upd_channel_def bind_Some_iff elem_at_def split: if_splits)
  have c: "channel_of ch (upd_channel i ?g w) = Some (?g c)" by (rule channel_of_upd [OF assms(1,2)])
  have "\<exists>m st. tell_driver env i (upd_channel i ?g w) = Some (FWK_SUCCESS, (upd_channel i ?g w)\<lparr>smt_outside := m\<rparr>) \<and>
      f (smt_driver_id (?g c)) (out_len (?g c)) (smt_outside (upd_channel i ?g w)) = Some (st, m)"
    by (rule tell_driver_ok [OF i c]) (use assms(3-5) in simp_all)
  then obtain m st where m: "tell_driver env i (upd_channel i ?g w) = Some (FWK_SUCCESS, (upd_channel i ?g w)\<lparr>smt_outside := m\<rparr>)"
      "f (smt_driver_id c) (size_add 4 k) m0 = Some (st, m)"
    using assms(10) by auto
  have "smt_answered env ch m0 h bs ((upd_channel i ?g w)\<lparr>smt_outside := m\<rparr>)"
    using c assms(3,4,6-9) m(2) by (simp add: smt_answered_def size_add_no_wrap)
  then show ?thesis using m(1) by blast
qed

lemma smt_respond_law:
  assumes "smt_pending env ch m0 h p n w" and "k \<le> n" and "k \<le> length bs"
  shows "\<exists>w'. smt_respond env ch (Some bs) k w = Some (FWK_SUCCESS, w') \<and> smt_answered env ch m0 h (take k bs) w'"
proof -
  obtain c b out api f where
    c: "channel_of ch w = Some c" "smt_out c = Some b" "smt_memory w b = Some out" "4 + n \<le> length out" "4 + n < 2 ^ 32" "take 4 out = le32 h"
      "smt_driver_api c = Some api" "raise_notification env api = Some f" "\<forall>k m. \<exists>st m'. f (smt_driver_id c) k m = Some (st, m')"
      "smt_outside w = m0"
    using assms(1) unfolding smt_pending_def by blast
  obtain i where i: "channel_index ch w = Some i" "elem_at (channel_ctx_table w) i = Some c"
    using channel_of_index [OF c(1)] by auto
  let ?out = "splice 4 (take k bs) out"
  let ?w = "w\<lparr>smt_memory := (smt_memory w)(b := Some ?out)\<rparr>"
  have copy: "copy_to (smt_out c) 4 bs k w = Some ?w"
    using c(2-4) assms(2,3) by (simp add: copy_to_def)
  have len: "length (take k bs) = k" using assms(3) by simp
  have "4 + length (take k bs) \<le> length out" using c(4) assms(2) len by simp
  from take_splice_end [OF this] have out: "take (4 + k) ?out = le32 h @ take k bs" using c(6) len by simp
  have "\<exists>w'. tell_driver env i (upd_channel i (\<lambda>c. c\<lparr>locked := False, out_len := size_add 4 k\<rparr>) ?w) = Some (FWK_SUCCESS, w') \<and>
      smt_answered env ch m0 h (take k bs) w'"
    by (rule respond_end [OF _ _ c(7,8,9) _ _ out len]) (use c i assms(2) in \<open>simp_all add: buffer_at_def\<close>)
  then show ?thesis
    unfolding smt_respond_def i(1) Option.bind.bind_lunit i(2) option.case copy Let_def .
qed

lemma smt_respond_written_law:
  assumes "smt_pending env ch m0 h p n w" and "k \<le> n"
  shows "\<exists>w'. smt_respond env ch None k w = Some (FWK_SUCCESS, w') \<and> smt_answered env ch m0 h (take k (smt_written ch w)) w'"
proof -
  obtain c b out api f where
    c: "channel_of ch w = Some c" "smt_out c = Some b" "smt_memory w b = Some out" "4 + n \<le> length out" "4 + n < 2 ^ 32" "take 4 out = le32 h"
      "smt_driver_api c = Some api" "raise_notification env api = Some f" "\<forall>k m. \<exists>st m'. f (smt_driver_id c) k m = Some (st, m')"
      "smt_outside w = m0" "max_payload_size c = n"
    using assms(1) unfolding smt_pending_def by blast
  obtain i where i: "channel_index ch w = Some i" "elem_at (channel_ctx_table w) i = Some c"
    using channel_of_index [OF c(1)] by auto
  have w: "smt_written ch w = take n (drop 4 out)" using c by (simp add: smt_written_def buffer_at_def)
  have out: "take (4 + k) out = le32 h @ take k (smt_written ch w)"
    unfolding w c(6) [symmetric] take_add using assms(2) by (simp add: min_def)
  have len: "length (take k (smt_written ch w)) = k" using w c(4) assms(2) by simp
  have "\<exists>w'. tell_driver env i (upd_channel i (\<lambda>c. c\<lparr>locked := False, out_len := size_add 4 k\<rparr>) w) = Some (FWK_SUCCESS, w') \<and>
      smt_answered env ch m0 h (take k (smt_written ch w)) w'"
    by (rule respond_end [OF i(1) c(1,7,8,9) _ _ out len]) (use c assms(2) in \<open>simp_all add: buffer_at_def\<close>)
  then show ?thesis
    unfolding smt_respond_def i(1) Option.bind.bind_lunit i(2) option.case Let_def .
qed

lemma take_splice_within:
  "off + length bs \<le> length xs \<Longrightarrow> off + length bs \<le> n \<Longrightarrow> take n (splice off bs xs) = splice off bs (take n xs)"
  by (simp add: splice_def drop_take min_absorb1)

lemma splice_drop_take:
  "4 + off + length bs \<le> length out \<Longrightarrow> off + length bs \<le> n \<Longrightarrow>
     take n (drop 4 (splice (4 + off) bs out)) = splice off bs (take n (drop 4 out))"
proof -
  assume a: "4 + off + length bs \<le> length out" "off + length bs \<le> n"
  have "drop 4 (splice (4 + off) bs out) = splice off bs (drop 4 out)"
    using a(1) by (simp add: splice_def drop_take ac_simps)
  then have "take n (drop 4 (splice (4 + off) bs out)) = take n (splice off bs (drop 4 out))" by (rule arg_cong)
  also have "\<dots> = splice off bs (take n (drop 4 out))"
    by (rule take_splice_within) (use a in simp_all)
  finally show ?thesis .
qed

lemma smt_write_law:
  assumes "smt_pending env ch m0 h p n w" and "off + k \<le> n" and "k \<le> length bs"
  shows "\<exists>w'. smt_write_payload ch off (Some bs) k w = Some (FWK_SUCCESS, w') \<and> smt_pending env ch m0 h p n w' \<and>
    smt_written ch w' = splice off (take k bs) (smt_written ch w)"
proof -
  obtain c a b buf out api f where
    c: "channel_of ch w = Some c" "locked c" "smt_in c = Some a" "smt_out c = Some b" "a \<noteq> b" "smt_memory w a = Some buf" "get_u32 0 buf = Some h"
      "in_len c = 4 + length p" "take (length p) (drop 4 buf) = p" "max_payload_size c = n" "smt_memory w b = Some out" "4 + n \<le> length out"
      "4 + n < 2 ^ 32" "take 4 out = le32 h" "smt_driver_api c = Some api" "raise_notification env api = Some f"
      "\<forall>k m. \<exists>st m'. f (smt_driver_id c) k m = Some (st, m')"
      "smt_outside w = m0"
    using assms(1) unfolding smt_pending_def by blast
  let ?out = "splice (4 + off) (take k bs) out"
  let ?w = "w\<lparr>smt_memory := (smt_memory w)(b := Some ?out)\<rparr>"
  have copy: "copy_to (smt_out c) (4 + off) bs k w = Some ?w"
    using c(4,11,12) assms(2,3) by (simp add: copy_to_def)
  have len: "length (take k bs) = k" using assms(3) by simp
  then have out: "length ?out = length out" "take 4 ?out = le32 h"
    using c(12,14) assms(2) by (simp_all add: take_splice_before)
  have "size_add off k = off + k" using assms(2) c(13) by (simp add: size_add_no_wrap)
  then have "smt_write_payload ch off (Some bs) k w = Some (FWK_SUCCESS, ?w)"
    using c(1,2,10) copy assms(2) by (simp add: smt_write_payload_def)
  moreover have "smt_pending env ch m0 h p n ?w"
    unfolding smt_pending_def
    by (rule conjI, use c in simp, intro exI [of _ c] exI [of _ a] exI [of _ b] exI [of _ buf] exI [of _ ?out] exI [of _ api] exI [of _ f])
      (use c out in simp)
  moreover have "smt_written ch ?w = splice off (take k bs) (smt_written ch w)"
    using c(1,4,10,11,12) assms(2) len by (simp add: smt_written_def buffer_at_def splice_drop_take)
  ultimately show ?thesis by blast
qed

lemma smt_read_laws:
  assumes "smt_pending env ch m0 h p n w"
  shows "smt_get_message_header ch w = Some ((FWK_SUCCESS, h), w)" and "smt_get_max_payload_size ch w = Some ((FWK_SUCCESS, n), w)"
    and "\<exists>bs. smt_get_payload ch (Some 0) w = Some ((FWK_SUCCESS, Some (p @ bs), Some (length p)), w)"
    and "length (smt_written ch w) = n"
proof -
  obtain c a b buf out where
    c: "channel_of ch w = Some c" "locked c" "smt_in c = Some a" "smt_memory w a = Some buf" "get_u32 0 buf = Some h"
      "in_len c = 4 + length p" "take (length p) (drop 4 buf) = p" "max_payload_size c = n" "smt_out c = Some b" "smt_memory w b = Some out" "4 + n \<le> length out"
    using assms(1) unfolding smt_pending_def by blast
  have "drop 4 buf = p @ drop (length p) (drop 4 buf)" using c(7) append_take_drop_id [of "length p" "drop 4 buf"] by simp
  then show "\<exists>bs. smt_get_payload ch (Some 0) w = Some ((FWK_SUCCESS, Some (p @ bs), Some (length p)), w)"
    using c(1-4,6) by (intro exI [of _ "drop (length p) (drop 4 buf)"]) (simp add: smt_get_payload_def buffer_at_def)
  show "smt_get_message_header ch w = Some ((FWK_SUCCESS, h), w)" "smt_get_max_payload_size ch w = Some ((FWK_SUCCESS, n), w)"
    "length (smt_written ch w) = n"
    using c by (simp_all add: smt_get_message_header_def smt_get_max_payload_size_def smt_written_def buffer_at_def)
qed

interpretation smt: scmi_channel "smt_mod_scmi_to_transport_api env" ch "smt_pending env ch m0" "smt_written ch" "smt_answered env ch m0"
  for env :: "('m, 's) smt_env" and ch :: fwk_id and m0 :: 'm
proof (unfold_locales, goal_cases)
  case (1 h p n w)
  then show ?case by (simp add: smt_mod_scmi_to_transport_api_def smt_read_laws)
next
  case (2 h p n w)
  then obtain bs where "smt_get_payload ch (Some 0) w = Some ((FWK_SUCCESS, Some (p @ bs), Some (length p)), w)"
    using smt_read_laws(3) [OF 2] by blast
  then show ?case by (auto simp: smt_mod_scmi_to_transport_api_def)
next
  case (3 h p n w)
  then show ?case by (simp add: smt_mod_scmi_to_transport_api_def smt_read_laws)
next
  case (4 h p n w off k bs)
  then show ?case using smt_write_law [OF 4] by (simp add: smt_mod_scmi_to_transport_api_def)
next
  case (5 h p n w)
  then show ?case by (rule smt_read_laws(4))
next
  case (6 h p n w k bs)
  then show ?case using smt_respond_law [OF 6] by (simp add: smt_mod_scmi_to_transport_api_def)
next
  case (7 h p n w k)
  then show ?case using smt_respond_written_law [OF 7] by (simp add: smt_mod_scmi_to_transport_api_def)
qed

end
