(* ===== verification/Scmi_Stack.thy ===== *)
theory Scmi_Stack
  imports Mod_Msg_Smt
begin

text \<open>
  The SCMI module over message channels: a driver hands a message to its channel, the channel signals
  the module, the module posts an event to the service, and the event is answered into the output
  buffer. The contract of the transport is that of \<open>Mod_Msg_Smt\<close>, and the two modules call each other
  through the state they share.
\<close>

section \<open>The two modules together\<close>

text \<open>
  The channels are the world of the SCMI module, and the channel's interface to it is the module's
  \<open>signal_message\<close>; the event queue takes the message's event and changes nothing of the channels.
\<close>

definition smt_below_scmi :: "('m, 'm smt_ctx scmi_ctx) smt_env \<Rightarrow> 'm smt_ctx scmi_env \<Rightarrow> fwk_id \<Rightarrow> bool" where
  "smt_below_scmi env senv tgt \<longleftrightarrow>
     smt_of env = scmi_world \<and> smt_put env = (\<lambda>m s. s\<lparr>scmi_world := m\<rparr>) \<and>
     (\<forall>a. scmi_signal_message env a = Some (signal_message senv)) \<and>
     (\<forall>w. \<exists>m. srv_put_event_light (scmi_srv senv) (scmi_message_event senv tgt) w = Some (FWK_SUCCESS, w\<lparr>smt_outside := m\<rparr>))"

text \<open>
  A channel that can take a message from its driver: it is of the requester type, free, bound to the
  service \<open>tgt\<close> and to a driver that returns; the buffers at \<open>a\<close> and \<open>b\<close> are two, and the second one
  has room for the largest payload, of \<open>n\<close> bytes.
\<close>

definition smt_ready :: "('m, 's) smt_env \<Rightarrow> fwk_id \<Rightarrow> fwk_id \<Rightarrow> nat \<Rightarrow> nat \<Rightarrow> nat \<Rightarrow> 'm smt_ctx \<Rightarrow> bool" where
  "smt_ready env ch tgt n a b w \<longleftrightarrow>
     (\<exists>c config out api f. channel_of ch w = Some c \<and> \<not> locked c \<and> msg_smt_mailbox_ready c \<and> smt_config c = Some config \<and>
        smt_type config = MOD_MSG_SMT_CHANNEL_TYPE_REQUESTER \<and> scmi_service_id c = tgt \<and> smt_scmi_api c \<noteq> None \<and>
        max_payload_size c = n \<and> a \<noteq> b \<and> smt_memory w b = Some out \<and> 4 + n \<le> length out \<and> 4 + n < 2 ^ 32 \<and>
        smt_driver_api c = Some api \<and> raise_notification env api = Some f \<and> (\<forall>k m. \<exists>st m'. f (smt_driver_id c) k m = Some (st, m')))"

text \<open>The message a driver hands over: header and payload in the input buffer.\<close>

definition smt_message :: "nat \<Rightarrow> 32 word \<Rightarrow> 8 word list \<Rightarrow> 'm smt_ctx \<Rightarrow> bool" where
  "smt_message a h p w \<longleftrightarrow> (\<exists>buf. smt_memory w a = Some buf \<and> get_u32 0 buf = Some h \<and> take (length p) (drop 4 buf) = p)"

text \<open>What an agent is to be answered by the module itself and by the Base protocol.\<close>

definition platform_reply :: "base_view \<Rightarrow> 32 word \<Rightarrow> 8 word list \<Rightarrow> (8 word list \<times> nat) option" where
  "platform_reply v h p =
     (case verdict v h of
        Some code \<Rightarrow> Some (base_status code)
      | None \<Rightarrow> if read_protocol_id h = MOD_SCMI_PROTOCOL_ID_BASE then Some (base_reply v (unat (read_message_id h)) p) else None)"

text \<open>The Base protocol is bound, and a notification is not sent to it in a build that has handlers for them.\<close>

definition base_bound :: "'w scmi_env \<Rightarrow> base_view \<Rightarrow> 32 word \<Rightarrow> 'w scmi_ctx \<Rightarrow> bool" where
  "base_bound env v h s \<longleftrightarrow>
     (has_scmi_notifications (scmi_bc env) \<longrightarrow> read_message_type h \<noteq> MOD_SCMI_MESSAGE_TYPE_NOTIFICATION) \<and>
     (\<exists>protocol. elem_at (protocol_table s) (unat (bv_ids v ! 16)) = Some protocol \<and> message_handler protocol = Some BASE_HANDLER)"

section \<open>From the driver to the channel\<close>

lemma base_bound_world [simp]: "base_bound env v h (s\<lparr>scmi_world := w\<rparr>) = base_bound env v h s"
  by (simp add: base_bound_def)

lemma serves_base_world [simp]: "serves_base env tr ch tgt v (s\<lparr>scmi_world := w\<rparr>) = serves_base env tr ch tgt v s"
  by (simp add: serves_base_def)

text \<open>On a channel with a pending message, the module takes the signal and posts the event.\<close>

lemma signal_message_pending:
  assumes "serves_base senv (smt_mod_scmi_to_transport_api env) ch tgt v s" and "smt_below_scmi env senv tgt"
    and "smt_pending env ch m0 h p n (scmi_world s)"
  shows "\<exists>m. signal_message senv tgt s = Some (FWK_SUCCESS, s\<lparr>scmi_world := (scmi_world s)\<lparr>smt_outside := m\<rparr>\<rparr>) \<and>
    srv_put_event_light (scmi_srv senv) (scmi_message_event senv tgt) (scmi_world s) = Some (FWK_SUCCESS, (scmi_world s)\<lparr>smt_outside := m\<rparr>)"
proof -
  obtain svc a where svc: "service_of tgt s = Some svc" "svc_transport_api svc = Some a"
      "scmi_transports senv a = smt_mod_scmi_to_transport_api env" "svc_transport_id svc = ch"
    using assms(1) by (auto simp: serves_base_def on_channel_def)
  have "call_transport senv svc tr_get_message_header s = Some ((FWK_SUCCESS, h), s)"
    using svc(2-4) smt_read_laws(1) [OF assms(3)] by (simp add: call_transport_def call_world_def smt_mod_scmi_to_transport_api_def)
  moreover obtain m where "srv_put_event_light (scmi_srv senv) (scmi_message_event senv tgt) (scmi_world s) =
      Some (FWK_SUCCESS, (scmi_world s)\<lparr>smt_outside := m\<rparr>)"
    using assms(2) unfolding smt_below_scmi_def by blast
  ultimately show ?thesis
    using svc(1) by (auto simp: signal_message_def call_world_def)
qed

text \<open>The state in which a message is pending, from a channel that is ready.\<close>

lemma smt_pending_outside: "smt_pending env ch m0 h p n w \<Longrightarrow> smt_pending env ch m h p n (w\<lparr>smt_outside := m\<rparr>)"
  by (simp add: smt_pending_def)

lemma upd_channel_upd_channel:
  "i < length (channel_ctx_table w) \<Longrightarrow> upd_channel i g (upd_channel i f w) = upd_channel i (g \<circ> f) w"
  by (simp add: upd_channel_def)

lemma ready_channel_pending:
  assumes "smt_ready env ch tgt n a b w" and "smt_message a h p w"
  shows "\<exists>i c out. channel_index ch w = Some i \<and> elem_at (channel_ctx_table w) i = Some c \<and> smt_memory w b = Some out \<and> \<not> locked c \<and>
    (let w' = (upd_channel i (\<lambda>c. c\<lparr>smt_in := Some a, in_len := 4 + length p, smt_out := Some b, out_len := k, locked := True\<rparr>) w)
           \<lparr>smt_memory := (smt_memory w)(b := Some (splice 0 (le32 h) out))\<rparr>
     in smt_pending env ch (smt_outside w) h p n w' \<and> smt_outside w' = smt_outside w)"
proof -
  obtain c config out api f where
    c: "channel_of ch w = Some c" "\<not> locked c" "max_payload_size c = n" "a \<noteq> b" "smt_memory w b = Some out" "4 + n \<le> length out" "4 + n < 2 ^ 32"
      "smt_driver_api c = Some api" "raise_notification env api = Some f" "\<forall>k m. \<exists>st m'. f (smt_driver_id c) k m = Some (st, m')"
    using assms(1) unfolding smt_ready_def by blast
  obtain buf where buf: "smt_memory w a = Some buf" "get_u32 0 buf = Some h" "take (length p) (drop 4 buf) = p"
    using assms(2) by (auto simp: smt_message_def)
  obtain i where i: "channel_index ch w = Some i" "i < length (channel_ctx_table w)" "c = channel_ctx_table w ! i"
    using channel_of_index [OF c(1)] by blast
  let ?g = "\<lambda>c. c\<lparr>smt_in := Some a, in_len := 4 + length p, smt_out := Some b, out_len := k, locked := True\<rparr>"
  let ?w = "(upd_channel i ?g w)\<lparr>smt_memory := (smt_memory w)(b := Some (splice 0 (le32 h) out))\<rparr>"
  have ch: "channel_of ch ?w = Some (?g c)" using channel_of_upd [OF i(1) c(1), of ?g] by simp
  have "0 + length (le32 h) \<le> length out" using c(6) by simp
  then have out: "length (splice 0 (le32 h) out) = length out" "take 4 (splice 0 (le32 h) out) = le32 h"
    using take_splice_end [of 0 "le32 h" out] by simp_all
  have "smt_pending env ch (smt_outside w) h p n ?w"
    unfolding smt_pending_def
    by (rule conjI, simp, intro exI [of _ "?g c"] exI [of _ a] exI [of _ b] exI [of _ buf] exI [of _ "splice 0 (le32 h) out"] exI [of _ api] exI [of _ f])
      (use c buf ch out in simp)
  then show ?thesis using i c(2,5) by (auto simp: Let_def)
qed

lemma msg_signal_pending:
  assumes "serves_base senv (smt_mod_scmi_to_transport_api env) ch tgt v s" and below: "smt_below_scmi env senv tgt"
    and ready: "smt_ready env ch tgt n a b (scmi_world s)" and msg: "smt_message a h p (scmi_world s)"
  shows "\<exists>w. msg_signal_message env ch (Some a) (4 + length p) (Some b) k s = Some (FWK_SUCCESS, s\<lparr>scmi_world := w\<rparr>) \<and>
    smt_pending env ch (smt_outside w) h p n w \<and>
    srv_put_event_light (scmi_srv senv) (scmi_message_event senv tgt) (w\<lparr>smt_outside := smt_outside (scmi_world s)\<rparr>) = Some (FWK_SUCCESS, w)"
proof -
  let ?w = "scmi_world s"
  obtain i c out where i: "channel_index ch ?w = Some i" "elem_at (channel_ctx_table ?w) i = Some c" "smt_memory ?w b = Some out" "\<not> locked c"
    and pend: "smt_pending env ch (smt_outside ?w) h p n
       ((upd_channel i (\<lambda>c. c\<lparr>smt_in := Some a, in_len := 4 + length p, smt_out := Some b, out_len := k, locked := True\<rparr>) ?w)
          \<lparr>smt_memory := (smt_memory ?w)(b := Some (splice 0 (le32 h) out))\<rparr>)" (is "smt_pending _ _ _ _ _ _ ?p")
    using ready_channel_pending [OF ready msg, of k] by (auto simp: Let_def)
  obtain config api where c: "msg_smt_mailbox_ready c" "smt_config c = Some config" "smt_type config = MOD_MSG_SMT_CHANNEL_TYPE_REQUESTER"
      "scmi_service_id c = tgt" "smt_scmi_api c = Some api" "a \<noteq> b" "4 + n \<le> length out"
    using ready i(1-3) unfolding smt_ready_def channel_of_def by (auto simp del: elem_at_Some_iff)
  obtain buf where buf: "smt_memory ?w a = Some buf" "get_u32 0 buf = Some h" using msg by (auto simp: smt_message_def)
  let ?s1 = "s\<lparr>scmi_world := upd_channel i (\<lambda>c. c\<lparr>smt_in := Some a, in_len := 4 + length p, smt_out := Some b, out_len := k\<rparr>) ?w\<rparr>"
  let ?m = "upd_channel i (\<lambda>c. c\<lparr>locked := True\<rparr>) (scmi_world ?s1)"
  have len: "i < length (channel_ctx_table ?w)" using i(2) by simp
  then have m: "?m = upd_channel i (\<lambda>c. c\<lparr>smt_in := Some a, in_len := 4 + length p, smt_out := Some b, out_len := k, locked := True\<rparr>) ?w"
    by (simp add: upd_channel_upd_channel comp_def)
  have entry: "elem_at (channel_ctx_table ?m) i =
      Some (c\<lparr>smt_in := Some a, in_len := 4 + length p, smt_out := Some b, out_len := k, locked := True\<rparr>)"
    unfolding m using len i(2) by (simp add: upd_channel_def)
  have "buffer_at (Some a) ?m = Some buf" using buf by (simp add: buffer_at_def)
  moreover have "copy_to (Some b) 0 (le32 h) 4 ?m = Some ?p"
    unfolding m using i(3) c(7) by (simp add: copy_to_def)
  moreover have "\<exists>x. signal_message senv tgt (s\<lparr>scmi_world := ?p\<rparr>) =
      Some (FWK_SUCCESS, (s\<lparr>scmi_world := ?p\<rparr>)\<lparr>scmi_world := (scmi_world (s\<lparr>scmi_world := ?p\<rparr>))\<lparr>smt_outside := x\<rparr>\<rparr>) \<and>
      srv_put_event_light (scmi_srv senv) (scmi_message_event senv tgt) (scmi_world (s\<lparr>scmi_world := ?p\<rparr>)) =
        Some (FWK_SUCCESS, (scmi_world (s\<lparr>scmi_world := ?p\<rparr>))\<lparr>smt_outside := x\<rparr>)"
    by (rule signal_message_pending [OF _ below]) (use assms(1) pend in simp_all)
  then obtain x where "signal_message senv tgt (s\<lparr>scmi_world := ?p\<rparr>) = Some (FWK_SUCCESS, s\<lparr>scmi_world := ?p\<lparr>smt_outside := x\<rparr>\<rparr>)"
      and post: "srv_put_event_light (scmi_srv senv) (scmi_message_event senv tgt) ?p = Some (FWK_SUCCESS, ?p\<lparr>smt_outside := x\<rparr>)"
    by auto
  ultimately have "smt_requester_handler env i ?s1 = Some (FWK_SUCCESS, s\<lparr>scmi_world := ?p\<lparr>smt_outside := x\<rparr>\<rparr>)"
    using below buf(2) c(4,5) entry unfolding smt_requester_handler_def smt_below_scmi_def Let_def
    by (simp del: elem_at_Some_iff)
  then have "msg_signal_message env ch (Some a) (4 + length p) (Some b) k s = Some (FWK_SUCCESS, s\<lparr>scmi_world := ?p\<lparr>smt_outside := x\<rparr>\<rparr>)"
    using below i c unfolding msg_signal_message_def smt_below_scmi_def Let_def by (simp del: elem_at_Some_iff)
  moreover have "(?p\<lparr>smt_outside := x\<rparr>)\<lparr>smt_outside := smt_outside ?w\<rparr> = ?p" by (simp add: upd_channel_def)
  then have "srv_put_event_light (scmi_srv senv) (scmi_message_event senv tgt) ((?p\<lparr>smt_outside := x\<rparr>)\<lparr>smt_outside := smt_outside ?w\<rparr>) =
      Some (FWK_SUCCESS, ?p\<lparr>smt_outside := x\<rparr>)"
    using post by (simp only:)
  moreover have "smt_pending env ch (smt_outside (?p\<lparr>smt_outside := x\<rparr>)) h p n (?p\<lparr>smt_outside := x\<rparr>)"
    using smt_pending_outside [OF pend, of x] by simp
  ultimately show ?thesis by blast
qed

section \<open>From the event to the response\<close>

lemma event_answered:
  assumes "serves_base senv (smt_mod_scmi_to_transport_api env) ch tgt v s" and "smt_pending env ch m0 h p (bv_room v) (scmi_world s)"
    and "target_id event = tgt" and "base_bound senv v h s" and "platform_reply v h p = Some r"
  shows "\<exists>t bs. scmi_process_event senv event s = Some (FWK_SUCCESS, t) \<and> smt_answered env ch m0 h bs (scmi_world t) \<and> replies bs r"
proof (cases "verdict v h")
  case None
  then have base: "read_protocol_id h = MOD_SCMI_PROTOCOL_ID_BASE" "r = base_reply v (unat (read_message_id h)) p"
    using assms(5) by (auto simp: platform_reply_def split: if_splits)
  obtain protocol where "elem_at (protocol_table s) (unat (bv_ids v ! 16)) = Some protocol" "message_handler protocol = Some BASE_HANDLER"
      "has_scmi_notifications (scmi_bc senv) \<longrightarrow> read_message_type h \<noteq> MOD_SCMI_MESSAGE_TYPE_NOTIFICATION"
    using assms(4) unfolding base_bound_def by blast
  then show ?thesis using smt.process_base [OF assms(1-3) None base(1)] base(2) by blast
next
  case (Some code)
  have "replies (status_bytes code) (base_status code)" by (simp add: replies_def base_status_def)
  then show ?thesis using smt.process_refused [OF assms(1-3) Some] Some assms(5) by (auto simp: platform_reply_def)
qed

end
