(* ===== verification/Mod_Scmi_Subs.thy ===== *)
theory Mod_Scmi_Subs
  imports Mod_Scmi_Notify
begin

text \<open>
  The table of subscribers of a protocol as a map from (operation, element, agent) to a service. The
  flat array with its three strides, and the indices that are given out to operations when they are
  first subscribed to, implement it: subscribing is an update of the map, removing a subscriber its
  deletion, and a notification goes to the services of the map, in the order of the agents.
\<close>

section \<open>The flat array\<close>

text \<open>The index the code computes in 32 bits, where it fits.\<close>

lemma service_idx_flat:
  assumes "flat_index (unat A) (unat E) (unat agent) (unat element) (unat oper) < 2 ^ 32"
  shows "unat (scmi_notification_service_idx agent element oper A E) = flat_index (unat A) (unat E) (unat agent) (unat element) (unat oper)"
proof -
  have "scmi_notification_service_idx agent element oper A E = of_nat (flat_index (unat A) (unat E) (unat agent) (unat element) (unat oper))"
    by (simp add: scmi_notification_service_idx_def flat_index_def)
  then show ?thesis using assms by (simp add: unat_of_nat take_bit_nat_eq_self)
qed

section \<open>The invariant and the map\<close>

text \<open>
  The array has one entry for each operation, element and agent. The operations that have an index
  have different ones, below the next index to give out, and the entries of the indices not given out
  yet are empty.
\<close>

definition subs_inv :: "scmi_notification_subscribers \<Rightarrow> bool" where
  "subs_inv n \<longleftrightarrow>
     length (operation_id_to_idx n) = 32 \<and>
     length (agent_service_ids n) = unat (ns_operation_count n) * unat (ns_element_count n) * unat (ns_agent_count n) \<and>
     length (agent_service_ids n) < 2 ^ 31 \<and> unat (ns_operation_count n) \<le> 255 \<and> ns_operation_idx n \<le> ns_operation_count n \<and>
     (\<forall>x \<in> set (agent_service_ids n). fwk_id_type_is_valid x) \<and>
     (\<forall>i. unat (ns_operation_idx n) * unat (ns_element_count n) * unat (ns_agent_count n) \<le> i \<longrightarrow> i < length (agent_service_ids n) \<longrightarrow>
        agent_service_ids n ! i = FWK_ID_NONE) \<and>
     (\<forall>x < 32. operation_id_to_idx n ! x \<noteq> 255 \<longrightarrow> unat (operation_id_to_idx n ! x) < unat (ns_operation_idx n)) \<and>
     (\<forall>x < 32. \<forall>y < 32. operation_id_to_idx n ! x \<noteq> 255 \<longrightarrow> operation_id_to_idx n ! x = operation_id_to_idx n ! y \<longrightarrow> x = y)"

definition subs_at :: "scmi_notification_subscribers \<Rightarrow> nat \<Rightarrow> nat \<Rightarrow> nat \<Rightarrow> nat" where
  "subs_at n x element agent =
     flat_index (unat (ns_agent_count n)) (unat (ns_element_count n)) agent element (unat (operation_id_to_idx n ! x))"

definition subs_map :: "scmi_notification_subscribers \<Rightarrow> nat \<times> nat \<times> nat \<Rightarrow> fwk_id option" where
  "subs_map n = (\<lambda>(x, element, agent).
     if x < 32 \<and> element < unat (ns_element_count n) \<and> agent < unat (ns_agent_count n) \<and> operation_id_to_idx n ! x \<noteq> 255
     then (let i = agent_service_ids n ! subs_at n x element agent in if i = FWK_ID_NONE then None else Some i)
     else None)"

definition subs_key :: "scmi_notification_subscribers \<Rightarrow> nat \<Rightarrow> nat \<Rightarrow> nat \<Rightarrow> bool" where
  "subs_key n x element agent \<longleftrightarrow> x < 32 \<and> element < unat (ns_element_count n) \<and> agent < unat (ns_agent_count n)"

lemma subs_at_less:
  assumes "subs_inv n" and "subs_key n x element agent" and "operation_id_to_idx n ! x \<noteq> 255"
  shows "subs_at n x element agent < length (agent_service_ids n)"
proof -
  have "unat (operation_id_to_idx n ! x) < unat (ns_operation_idx n)" "unat (ns_operation_idx n) \<le> unat (ns_operation_count n)"
    using assms by (auto simp: subs_inv_def subs_key_def word_le_nat_alt)
  then have "unat (operation_id_to_idx n ! x) < unat (ns_operation_count n)" by (rule less_le_trans)
  then show ?thesis
    unfolding subs_at_def using assms(1,2) flat_index_less by (auto simp: subs_inv_def subs_key_def)
qed

lemma subs_at_inj:
  assumes "subs_inv n" and "subs_key n x element agent" and "subs_key n x' element' agent'" and "operation_id_to_idx n ! x \<noteq> 255"
  shows "subs_at n x element agent = subs_at n x' element' agent' \<longleftrightarrow> x = x' \<and> element = element' \<and> agent = agent'"
proof -
  have "operation_id_to_idx n ! x = operation_id_to_idx n ! x' \<longleftrightarrow> x = x'"
    using assms by (auto simp: subs_inv_def subs_key_def)
  moreover have "unat (operation_id_to_idx n ! x) = unat (operation_id_to_idx n ! x') \<longleftrightarrow> operation_id_to_idx n ! x = operation_id_to_idx n ! x'"
    by (auto intro: unsigned_word_eqI)
  ultimately show ?thesis
    unfolding subs_at_def using assms(2,3) by (auto simp: subs_key_def flat_index_inj)
qed

lemma unat_of_nat_word32: "m < 2 ^ 32 \<Longrightarrow> unat (of_nat m :: 32 word) = m"
  by (simp add: unat_of_nat take_bit_nat_eq_self)

lemma sint_nonneg_word32:
  assumes "unat (w :: 32 word) < 2 ^ 31"
  shows "0 \<le> sint w"
proof -
  have "int (unat w) < int (2 ^ 31)" using assms by (simp only: of_nat_less_iff)
  then have u: "uint w < 2 ^ 31" by simp
  have "sint w = uint w"
    by (subst sint_uint, rule signed_take_bit_int_eq_self) (use u in \<open>simp_all add: order_trans [OF _ unsigned_greater_eq]\<close>)
  then show ?thesis by simp
qed

lemma unat_ucast_8: "unat (ucast (b :: 8 word) :: 32 word) = unat b"
proof -
  have "unat b < 2 ^ 8" using unsigned_less [of b] by simp
  then show ?thesis by (simp add: unsigned_ucast_eq take_bit_nat_eq_self)
qed

lemma service_idx_at:
  assumes "subs_inv n" and "subs_key n (unat x) (unat element) (unat agent)" and "operation_id_to_idx n ! unat x \<noteq> 255"
  shows "unat (scmi_notification_service_idx agent element (ucast (operation_id_to_idx n ! unat x)) (ns_agent_count n) (ns_element_count n)) =
    subs_at n (unat x) (unat element) (unat agent)"
proof -
  have "subs_at n (unat x) (unat element) (unat agent) < 2 ^ 31"
    using subs_at_less [OF assms] assms(1) by (auto simp: subs_inv_def)
  then show ?thesis
    by (subst service_idx_flat) (simp_all add: subs_at_def unat_ucast_8)
qed

section \<open>The operations\<close>

text \<open>Storing in an entry that an operation owns changes the map there and nowhere else.\<close>

lemma put_entry:
  assumes "subs_inv n" and "subs_key n x element agent" and "operation_id_to_idx n ! x \<noteq> 255" and "fwk_id_type_is_valid v"
  defines "n' \<equiv> n\<lparr>agent_service_ids := (agent_service_ids n)[subs_at n x element agent := v]\<rparr>"
  shows "subs_inv n'" and "subs_map n' = (subs_map n)((x, element, agent) := (if v = FWK_ID_NONE then None else Some v))"
proof -
  have lt: "subs_at n x element agent < length (agent_service_ids n)" by (rule subs_at_less [OF assms(1-3)])
  have op: "unat (operation_id_to_idx n ! x) < unat (ns_operation_idx n)"
    using assms(1-3) by (auto simp: subs_inv_def subs_key_def)
  have below: "subs_at n x element agent < unat (ns_operation_idx n) * unat (ns_element_count n) * unat (ns_agent_count n)"
    unfolding subs_at_def using assms(2) op by (intro flat_index_less) (simp_all add: subs_key_def)
  have "\<forall>y \<in> set (agent_service_ids n'). fwk_id_type_is_valid y"
    using assms(1,4) by (auto simp: n'_def subs_inv_def dest!: set_update_subset_insert [THEN subsetD])
  then show "subs_inv n'"
    using assms(1) below by (simp add: n'_def subs_inv_def nth_list_update)
  show "subs_map n' = (subs_map n)((x, element, agent) := (if v = FWK_ID_NONE then None else Some v))"
  proof (rule ext, clarify)
    fix y e a
    show "subs_map n' (y, e, a) = ((subs_map n)((x, element, agent) := (if v = FWK_ID_NONE then None else Some v))) (y, e, a)"
    proof (cases "subs_key n y e a")
      case True
      have same: "subs_at n y e a = subs_at n x element agent \<longleftrightarrow> y = x \<and> e = element \<and> a = agent"
        using subs_at_inj [OF assms(1,2) True assms(3)] by auto
      have "subs_at n' y e a = subs_at n y e a" by (simp add: subs_at_def n'_def)
      then have entry: "agent_service_ids n' ! subs_at n' y e a =
          (if y = x \<and> e = element \<and> a = agent then v else agent_service_ids n ! subs_at n y e a)"
        unfolding n'_def using lt by (simp add: same [symmetric])
      have key: "y < 32 \<and> e < unat (ns_element_count n) \<and> a < unat (ns_agent_count n)" using True by (simp add: subs_key_def)
      show ?thesis
        unfolding subs_map_def prod.case fun_upd_apply entry Let_def using key assms(3) by (simp add: n'_def)
    next
      case False
      then have "(y, e, a) \<noteq> (x, element, agent)" using assms(2) by auto
      then show ?thesis using False by (auto simp: subs_map_def subs_key_def n'_def)
    qed
  qed
qed

text \<open>Giving the next index to an operation leaves the map as it is.\<close>

lemma new_operation:
  assumes "subs_inv n" and "x < 32" and "operation_id_to_idx n ! x = 255" and "ns_operation_idx n < ns_operation_count n"
  defines "n' \<equiv> n\<lparr>operation_id_to_idx := (operation_id_to_idx n)[x := ucast (ns_operation_idx n)], ns_operation_idx := ns_operation_idx n + 1\<rparr>"
  shows "subs_inv n'" and "subs_map n' = subs_map n" and "operation_id_to_idx n' ! x \<noteq> 255"
proof -
  let ?k = "ns_operation_idx n"
  have inv: "length (operation_id_to_idx n) = 32" "unat (ns_operation_count n) \<le> 255"
      "length (agent_service_ids n) = unat (ns_operation_count n) * unat (ns_element_count n) * unat (ns_agent_count n)"
    using assms(1) by (simp_all add: subs_inv_def)
  have k: "unat ?k < 255" using assms(4) inv(2) by (simp add: word_less_nat_alt)
  have unat_k: "unat (ucast ?k :: 8 word) = unat ?k" using k by (simp add: unsigned_ucast_eq take_bit_nat_eq_self)
  have suc: "unat (?k + 1) = Suc (unat ?k)" using k by (simp add: unat_word_ariths)
  have not255: "(ucast ?k :: 8 word) \<noteq> 255"
  proof
    assume "(ucast ?k :: 8 word) = 255"
    then have "unat ?k = unat (255 :: 8 word)" using unat_k by simp
    then show False using k by simp
  qed
  then show "operation_id_to_idx n' ! x \<noteq> 255" using assms(2) inv(1) by (simp add: n'_def)
  have empty: "agent_service_ids n ! i = FWK_ID_NONE"
    if "unat ?k * unat (ns_element_count n) * unat (ns_agent_count n) \<le> i" "i < length (agent_service_ids n)" for i
    using assms(1) that by (simp add: subs_inv_def)
  have old: "unat (operation_id_to_idx n ! y) < unat ?k" if "y < 32" "operation_id_to_idx n ! y \<noteq> 255" for y
    using assms(1) that by (simp add: subs_inv_def)
  have fresh: "operation_id_to_idx n ! y \<noteq> ucast ?k" if "y < 32" for y
    using old [OF that] unat_k not255 by fastforce
  have dist: "y = z" if "y < 32" "z < 32" "operation_id_to_idx n ! y \<noteq> 255" "operation_id_to_idx n ! y = operation_id_to_idx n ! z" for y z
    using assms(1) that by (simp add: subs_inv_def)
  have "unat ?k * unat (ns_element_count n) * unat (ns_agent_count n) \<le> Suc (unat ?k) * unat (ns_element_count n) * unat (ns_agent_count n)"
    by (intro mult_le_mono1) simp
  then have "Suc (unat ?k) * unat (ns_element_count n) * unat (ns_agent_count n) \<le> i \<Longrightarrow>
      unat ?k * unat (ns_element_count n) * unat (ns_agent_count n) \<le> i" for i by (rule order_trans)
  then have "\<forall>i. unat (ns_operation_idx n') * unat (ns_element_count n') * unat (ns_agent_count n') \<le> i \<longrightarrow> i < length (agent_service_ids n') \<longrightarrow>
      agent_service_ids n' ! i = FWK_ID_NONE"
    using empty unfolding n'_def by (simp add: suc del: mult_Suc)
  moreover have "\<forall>y < 32. operation_id_to_idx n' ! y \<noteq> 255 \<longrightarrow> unat (operation_id_to_idx n' ! y) < unat (ns_operation_idx n')"
    using old inv(1) suc unat_k assms(2) by (auto simp: n'_def nth_list_update less_Suc_eq)
  moreover have "\<forall>y < 32. \<forall>z < 32. operation_id_to_idx n' ! y \<noteq> 255 \<longrightarrow> operation_id_to_idx n' ! y = operation_id_to_idx n' ! z \<longrightarrow> y = z"
    using fresh fresh [symmetric] dist inv(1) assms(2) by (auto simp: n'_def nth_list_update)
  moreover have "ns_operation_idx n' \<le> ns_operation_count n'"
    using assms(4) suc by (simp add: n'_def word_le_nat_alt word_less_nat_alt)
  ultimately show "subs_inv n'"
    using assms(1) by (simp add: subs_inv_def n'_def)
  show "subs_map n' = subs_map n"
  proof (rule ext, clarify)
    fix y e a
    show "subs_map n' (y, e, a) = subs_map n (y, e, a)"
    proof (cases "y = x \<and> subs_key n y e a")
      case True
      let ?i = "flat_index (unat (ns_agent_count n)) (unat (ns_element_count n)) a e (unat ?k)"
      have at: "subs_at n' y e a = ?i" using True assms(2) inv(1) by (simp add: subs_at_def n'_def unat_k)
      have "?i < length (agent_service_ids n)"
        unfolding inv(3) using True assms(4) by (intro flat_index_less) (simp_all add: subs_key_def word_less_nat_alt)
      moreover have "unat ?k * unat (ns_element_count n) * unat (ns_agent_count n) \<le> ?i" by (simp add: flat_index_def)
      ultimately have "agent_service_ids n ! ?i = FWK_ID_NONE" using empty by blast
      moreover have "agent_service_ids n' = agent_service_ids n" by (simp add: n'_def)
      ultimately have "agent_service_ids n' ! subs_at n' y e a = FWK_ID_NONE" using at by simp
      moreover have "subs_map n (y, e, a) = None" using True assms(3) by (simp add: subs_map_def)
      ultimately show ?thesis by (simp add: subs_map_def)
    next
      case False
      then show ?thesis
        using inv(1) assms(2) by (auto simp: subs_map_def subs_key_def subs_at_def n'_def nth_list_update)
    qed
  qed
qed

text \<open>A table for \<open>N\<close> operations, \<open>E\<close> elements and \<open>A\<close> agents, in which the operations of \<open>X\<close> have their index.\<close>

definition subs_known :: "nat \<Rightarrow> nat \<Rightarrow> nat \<Rightarrow> nat set \<Rightarrow> scmi_notification_subscribers \<Rightarrow> bool" where
  "subs_known N E A X n \<longleftrightarrow>
     subs_inv n \<and> unat (ns_operation_count n) = N \<and> unat (ns_element_count n) = E \<and> unat (ns_agent_count n) = A \<and>
     X = {x. x < 32 \<and> operation_id_to_idx n ! x \<noteq> 255} \<and> unat (ns_operation_idx n) = card X"

lemma get_subs:
  "notification_subscribers protocol_id s = Some k \<Longrightarrow> k < length (scmi_notif_subscribers s)"
  by (auto simp: notification_subscribers_def Let_def bind_Some_iff)

lemma op_less: "unat x < 32 \<Longrightarrow> x < MOD_SCMI_PROTOCOL_MAX_OPERATION_ID" for x :: "32 word"
  by (simp add: MOD_SCMI_PROTOCOL_MAX_OPERATION_ID_def word_less_nat_alt)

lemma init_subscribers:
  assumes k: "notification_subscribers protocol_id s = Some k" and "ns_operation_idx (scmi_notif_subscribers s ! k) = 0"
    and "unat operations * unat elements * unat agents < 2 ^ 31" and "unat operations \<le> 255"
    and calloc: "srv_calloc (scmi_srv env) (unat operations * unat elements * unat agents) (scmi_world s) = Some w"
  shows "\<exists>n. scmi_notification_init env protocol_id agents elements operations s = Some (FWK_SUCCESS, upd_subscribers k n (s\<lparr>scmi_world := w\<rparr>)) \<and>
    subs_known (unat operations) (unat elements) (unat agents) {} n \<and> subs_map n = Map.empty"
proof -
  let ?total = "operations * elements * agents"
  let ?N = "unat operations * unat elements * unat agents"
  have "?total = of_nat ?N" by simp
  moreover have "unat (of_nat ?N :: 32 word) = ?N"
    by (rule unat_of_nat_word32 [OF less_trans [OF assms(3)]]) simp
  ultimately have total: "unat ?total = ?N" by (simp only:)
  then have "0 \<le> sint ?total" using assms(3) by (intro sint_nonneg_word32) (simp only:)
  define n where "n = (scmi_notif_subscribers s ! k)
    \<lparr>ns_agent_count := agents, ns_element_count := elements, ns_operation_count := operations,
     operation_id_to_idx := replicate 32 255, agent_service_ids := replicate (unat ?total) FWK_ID_NONE\<rparr>"
  have "scmi_notification_init env protocol_id agents elements operations s = Some (FWK_SUCCESS, upd_subscribers k n (s\<lparr>scmi_world := w\<rparr>))"
    unfolding scmi_notification_init_def k Option.bind.bind_lunit Let_def total calloc
    using \<open>0 \<le> sint ?total\<close> by (simp add: n_def total scmi_consts)
  moreover have "subs_inv n"
    using assms(2-4) total by (auto simp: subs_inv_def n_def fwk_id_type_is_valid_def FWK_ID_NONE_def id_defs)
  then have "subs_known (unat operations) (unat elements) (unat agents) {} n"
    using assms(2) by (simp add: subs_known_def) (simp add: n_def)
  moreover have "subs_map n = Map.empty" by (auto simp: subs_map_def n_def fun_eq_iff)
  ultimately show ?thesis by blast
qed

lemma put_service_id_at:
  assumes "subs_inv n" and "subs_key n (unat x) (unat element) (unat agent)" and "operation_id_to_idx n ! unat x \<noteq> 255"
  shows "put_service_id (scmi_notification_service_idx agent element (ucast (operation_id_to_idx n ! unat x)) (ns_agent_count n) (ns_element_count n)) v n =
    Some (n\<lparr>agent_service_ids := (agent_service_ids n)[subs_at n (unat x) (unat element) (unat agent) := v]\<rparr>)"
  using subs_at_less [OF assms] by (simp add: put_service_id_def service_idx_at [OF assms])

lemma add_subscriber:
  assumes k: "notification_subscribers protocol_id s = Some k" and n: "n = scmi_notif_subscribers s ! k" and inv: "subs_inv n"
    and agent: "get_agent_id service_id (Some 0) s = Some (FWK_SUCCESS, Some agent)"
    and key: "subs_key n (unat x) (unat element) (unat agent)" and v: "fwk_id_type_is_valid service_id" "service_id \<noteq> FWK_ID_NONE"
    and room: "operation_id_to_idx n ! unat x \<noteq> 255 \<or> ns_operation_idx n < ns_operation_count n"
  shows "\<exists>n'. scmi_notification_add_subscriber protocol_id element x service_id s = Some (FWK_SUCCESS, upd_subscribers k n' s) \<and>
    subs_inv n' \<and> subs_map n' = (subs_map n)((unat x, unat element, unat agent) \<mapsto> service_id) \<and>
    (\<exists>ids. n' = (if operation_id_to_idx n ! unat x = 255
       then n\<lparr>operation_id_to_idx := (operation_id_to_idx n)[unat x := ucast (ns_operation_idx n)], ns_operation_idx := ns_operation_idx n + 1\<rparr>
       else n)\<lparr>agent_service_ids := ids\<rparr>)"
proof -
  let ?n = "n\<lparr>operation_id_to_idx := (operation_id_to_idx n)[unat x := ucast (ns_operation_idx n)], ns_operation_idx := ns_operation_idx n + 1\<rparr>"
  define m where "m = (if operation_id_to_idx n ! unat x = 255 then ?n else n)"
  have x: "unat x < 32" using key by (simp add: subs_key_def)
  have len: "length (operation_id_to_idx n) = 32" using inv by (simp add: subs_inv_def)
  have m: "subs_inv m" "subs_map m = subs_map n" "operation_id_to_idx m ! unat x \<noteq> 255" "subs_key m (unat x) (unat element) (unat agent)"
    using inv new_operation [OF inv x] room key by (auto simp: m_def subs_key_def)
  let ?r = "m\<lparr>agent_service_ids := (agent_service_ids m)[subs_at m (unat x) (unat element) (unat agent) := service_id]\<rparr>"
  have entry: "elem_at (operation_id_to_idx n) (unat x) = Some (operation_id_to_idx n ! unat x)" using x len by (simp add: elem_at_ok)
  have alloc: "(if operation_id_to_idx n ! unat x = MOD_SCMI_PROTOCOL_OPERATION_IDX_INVALID
      then do { fwk_assert (ns_operation_idx n < ns_operation_count n); Some ?n } else Some n) = Some m"
    using room by (auto simp: m_def MOD_SCMI_PROTOCOL_OPERATION_IDX_INVALID_def)
  have assert: "fwk_assert (x < MOD_SCMI_PROTOCOL_MAX_OPERATION_ID) = Some ()" using op_less [OF x] by simp
  have "scmi_notification_add_subscriber protocol_id element x service_id s = Some (FWK_SUCCESS, upd_subscribers k ?r s)"
    unfolding scmi_notification_add_subscriber_def k agent Option.bind.bind_lunit prod.case assert Let_def n [symmetric] entry alloc
      put_service_id_at [OF m(1,4,3)]
    by simp
  moreover have "subs_inv ?r" by (rule put_entry(1) [OF m(1,4,3) v(1)])
  moreover have "subs_map ?r = (subs_map n)((unat x, unat element, unat agent) \<mapsto> service_id)"
    using put_entry(2) [OF m(1,4,3) v(1)] v(2) m(2) by simp
  moreover have "\<exists>ids. ?r = (if operation_id_to_idx n ! unat x = 255 then ?n else n)\<lparr>agent_service_ids := ids\<rparr>"
    unfolding m_def by (rule exI) (rule refl)
  ultimately show ?thesis by (intro exI [of _ ?r] conjI)
qed

lemma remove_subscriber:
  assumes k: "notification_subscribers protocol_id s = Some k" and n: "n = scmi_notif_subscribers s ! k" and inv: "subs_inv n"
    and key: "subs_key n (unat x) (unat element) (unat agent)" and known: "operation_id_to_idx n ! unat x \<noteq> 255"
  shows "\<exists>n'. scmi_notification_remove_subscriber protocol_id agent element x s = Some (FWK_SUCCESS, upd_subscribers k n' s) \<and>
    subs_inv n' \<and> subs_map n' = (subs_map n)((unat x, unat element, unat agent) := None) \<and>
    (\<exists>ids. n' = n\<lparr>agent_service_ids := ids\<rparr>)"
proof -
  let ?r = "n\<lparr>agent_service_ids := (agent_service_ids n)[subs_at n (unat x) (unat element) (unat agent) := FWK_ID_NONE]\<rparr>"
  have x: "unat x < 32" using key by (simp add: subs_key_def)
  have entry: "elem_at (operation_id_to_idx n) (unat x) = Some (operation_id_to_idx n ! unat x)"
    using x inv by (simp add: elem_at_ok subs_inv_def)
  have assert: "fwk_assert (x < MOD_SCMI_PROTOCOL_MAX_OPERATION_ID) = Some ()" using op_less [OF x] by simp
  have "scmi_notification_remove_subscriber protocol_id agent element x s = Some (FWK_SUCCESS, upd_subscribers k ?r s)"
    unfolding scmi_notification_remove_subscriber_def k Option.bind.bind_lunit assert Let_def n [symmetric] entry put_service_id_at [OF inv key known]
    by (rule refl)
  moreover have "fwk_id_type_is_valid FWK_ID_NONE" by (simp add: fwk_id_type_is_valid_def FWK_ID_NONE_def id_defs)
  ultimately show ?thesis using put_entry [OF inv key known, of FWK_ID_NONE] by auto
qed

text \<open>The two on a table whose operations are known.\<close>

lemma add_known:
  assumes k: "notification_subscribers protocol_id s = Some k" and n: "n = scmi_notif_subscribers s ! k" and known: "subs_known N E A X n"
    and x: "unat x < 32" and args: "unat element < E" "unat agent < A" and room: "card (insert (unat x) X) \<le> N"
    and agent: "get_agent_id service_id (Some 0) s = Some (FWK_SUCCESS, Some agent)"
    and v: "fwk_id_type_is_valid service_id" "service_id \<noteq> FWK_ID_NONE"
  shows "\<exists>n'. scmi_notification_add_subscriber protocol_id element x service_id s = Some (FWK_SUCCESS, upd_subscribers k n' s) \<and>
    subs_known N E A (insert (unat x) X) n' \<and> subs_map n' = (subs_map n)((unat x, unat element, unat agent) \<mapsto> service_id)"
proof -
  have inv: "subs_inv n" and key: "subs_key n (unat x) (unat element) (unat agent)"
    and X: "X = {x. x < 32 \<and> operation_id_to_idx n ! x \<noteq> 255}" and idx: "unat (ns_operation_idx n) = card X"
    using known x args by (auto simp: subs_known_def subs_key_def)
  have len: "length (operation_id_to_idx n) = 32" using inv by (simp add: subs_inv_def)
  have fin: "finite X" unfolding X by (rule finite_subset [of _ "{..<32}"]) auto
  have "unat (ns_operation_idx n) < unat (ns_operation_count n)" if "unat x \<notin> X"
    using room that fin idx known by (simp add: subs_known_def)
  then have new: "operation_id_to_idx n ! unat x \<noteq> 255 \<or> ns_operation_idx n < ns_operation_count n"
    using x X by (auto simp: word_less_nat_alt)
  obtain n' where n': "scmi_notification_add_subscriber protocol_id element x service_id s = Some (FWK_SUCCESS, upd_subscribers k n' s)"
      "subs_inv n'" "subs_map n' = (subs_map n)((unat x, unat element, unat agent) \<mapsto> service_id)"
    and shape: "\<exists>ids. n' = (if operation_id_to_idx n ! unat x = 255
       then n\<lparr>operation_id_to_idx := (operation_id_to_idx n)[unat x := ucast (ns_operation_idx n)], ns_operation_idx := ns_operation_idx n + 1\<rparr>
       else n)\<lparr>agent_service_ids := ids\<rparr>"
    using add_subscriber [OF k n inv agent key v new] by blast
  have "subs_known N E A (insert (unat x) X) n'"
  proof (cases "operation_id_to_idx n ! unat x = 255")
    case True
    have counts: "ns_operation_count n' = ns_operation_count n" "ns_element_count n' = ns_element_count n" "ns_agent_count n' = ns_agent_count n"
        "ns_operation_idx n' = ns_operation_idx n + 1"
      and ids: "operation_id_to_idx n' = (operation_id_to_idx n)[unat x := ucast (ns_operation_idx n)]"
      using shape unfolding if_P [OF True] by (elim exE, simp)+
    have new255: "operation_id_to_idx n' ! unat x \<noteq> 255"
    proof -
      have "subs_map n' (unat x, unat element, unat agent) = Some service_id" using n'(3) by simp
      then show ?thesis by (auto simp: subs_map_def split: if_splits)
    qed
    have "{y. y < 32 \<and> operation_id_to_idx n' ! y \<noteq> 255} = insert (unat x) X"
      unfolding X using x len ids new255 by (auto simp: nth_list_update)
    moreover have "unat (ns_operation_idx n + 1) = Suc (card X)"
      using new True inv idx by (simp add: subs_inv_def word_less_nat_alt unat_word_ariths)
    moreover have "unat x \<notin> X" unfolding X using True by simp
    ultimately show ?thesis using known n'(2) counts fin by (simp add: subs_known_def)
  next
    case False
    have counts: "ns_operation_count n' = ns_operation_count n" "ns_element_count n' = ns_element_count n" "ns_agent_count n' = ns_agent_count n"
        "ns_operation_idx n' = ns_operation_idx n" "operation_id_to_idx n' = operation_id_to_idx n"
      using shape unfolding if_not_P [OF False] by (elim exE, simp)+
    moreover have "insert (unat x) X = X" using x False X by auto
    ultimately show ?thesis using known n'(2) by (simp add: subs_known_def)
  qed
  then show ?thesis using n'(1,3) by blast
qed

lemma remove_known:
  assumes k: "notification_subscribers protocol_id s = Some k" and n: "n = scmi_notif_subscribers s ! k" and known: "subs_known N E A X n"
    and x: "unat x \<in> X" and args: "unat element < E" "unat agent < A"
  shows "\<exists>n'. scmi_notification_remove_subscriber protocol_id agent element x s = Some (FWK_SUCCESS, upd_subscribers k n' s) \<and>
    subs_known N E A X n' \<and> subs_map n' = (subs_map n)((unat x, unat element, unat agent) := None)"
proof -
  have inv: "subs_inv n" and key: "subs_key n (unat x) (unat element) (unat agent)" and "operation_id_to_idx n ! unat x \<noteq> 255"
    using known x args by (auto simp: subs_known_def subs_key_def)
  then obtain n' where n': "scmi_notification_remove_subscriber protocol_id agent element x s = Some (FWK_SUCCESS, upd_subscribers k n' s)"
      "subs_inv n'" "subs_map n' = (subs_map n)((unat x, unat element, unat agent) := None)" "\<exists>ids. n' = n\<lparr>agent_service_ids := ids\<rparr>"
    using remove_subscriber [OF k n] by blast
  have "ns_operation_count n' = ns_operation_count n" "ns_element_count n' = ns_element_count n" "ns_agent_count n' = ns_agent_count n"
      "ns_operation_idx n' = ns_operation_idx n" "operation_id_to_idx n' = operation_id_to_idx n"
    using n'(4) by (elim exE, simp)+
  then have "subs_known N E A X n'" using known n'(2) by (simp add: subs_known_def)
  then show ?thesis using n'(1,3) by blast
qed

text \<open>A call to the table: a subscription, by a service of an agent, or the removal of an agent's.\<close>

datatype subs_call =
  Subscribe fwk_id "32 word" "32 word" "32 word"
| Unsubscribe "32 word" "32 word" "32 word"

fun sub_call :: "32 word \<Rightarrow> subs_call \<Rightarrow> 'w scmi_ctx \<Rightarrow> (int \<times> 'w scmi_ctx) option" where
  "sub_call protocol_id (Subscribe service_id agent element x) s = scmi_notification_add_subscriber protocol_id element x service_id s"
| "sub_call protocol_id (Unsubscribe agent element x) s = scmi_notification_remove_subscriber protocol_id agent element x s"

text \<open>What it does to the map.\<close>

fun sub_update :: "subs_call \<Rightarrow> (nat \<times> nat \<times> nat \<Rightarrow> fwk_id option) \<Rightarrow> nat \<times> nat \<times> nat \<Rightarrow> fwk_id option" where
  "sub_update (Subscribe service_id agent element x) m = m((unat x, unat element, unat agent) \<mapsto> service_id)"
| "sub_update (Unsubscribe agent element x) m = m((unat x, unat element, unat agent) := None)"

text \<open>
  The calls a table for \<open>N\<close> operations, \<open>E\<close> elements and \<open>A\<close> agents is made for, where those of \<open>X\<close>
  have been subscribed to: a service is one of the agent it is said to be of.
\<close>

fun sub_calls_ok :: "'w scmi_ctx \<Rightarrow> nat \<Rightarrow> nat \<Rightarrow> nat \<Rightarrow> nat set \<Rightarrow> subs_call list \<Rightarrow> bool" where
  "sub_calls_ok s N E A X [] = True"
| "sub_calls_ok s N E A X (Subscribe service_id agent element x # cs) =
     (unat x < 32 \<and> unat element < E \<and> unat agent < A \<and> card (insert (unat x) X) \<le> N \<and>
      get_agent_id service_id (Some 0) s = Some (FWK_SUCCESS, Some agent) \<and> fwk_id_type_is_valid service_id \<and> service_id \<noteq> FWK_ID_NONE \<and>
      sub_calls_ok s N E A (insert (unat x) X) cs)"
| "sub_calls_ok s N E A X (Unsubscribe agent element x # cs) =
     (unat x \<in> X \<and> unat element < E \<and> unat agent < A \<and> sub_calls_ok s N E A X cs)"

lemma get_agent_id_same [simp]:
  "get_agent_id service_id a (upd_subscribers k n s) = get_agent_id service_id a s"
  "get_agent_id service_id a (s\<lparr>scmi_world := w\<rparr>) = get_agent_id service_id a s"
  by (simp_all add: get_agent_id_def service_of_def service_index_def get_service_def upd_subscribers_def)

lemma sub_calls_ok_same [simp]:
  "sub_calls_ok (upd_subscribers k n s) N E A X cs = sub_calls_ok s N E A X cs"
  "sub_calls_ok (s\<lparr>scmi_world := w\<rparr>) N E A X cs = sub_calls_ok s N E A X cs"
  by (induction s N E A X cs rule: sub_calls_ok.induct) simp_all

lemma upd_subscribers_at:
  assumes "notification_subscribers protocol_id s = Some k"
  shows "notification_subscribers protocol_id (upd_subscribers k n s) = Some k" and "scmi_notif_subscribers (upd_subscribers k n s) ! k = n"
    and "upd_subscribers k m (upd_subscribers k n s) = upd_subscribers k m s"
  using assms get_subs [OF assms] by (auto simp: notification_subscribers_def upd_subscribers_def Let_def bind_Some_iff)

lemma sub_calls_run:
  assumes "notification_subscribers protocol_id s = Some k" and "subs_known N E A X n" and "sub_calls_ok s N E A X cs"
  shows "\<exists>n'. loopM (sub_call protocol_id) cs (upd_subscribers k n s) = Some (FWK_SUCCESS, upd_subscribers k n' s) \<and>
    subs_inv n' \<and> subs_map n' = fold sub_update cs (subs_map n)"
  using assms(2,3)
proof (induction cs arbitrary: n X)
  case Nil
  then show ?case by (auto simp: subs_known_def)
next
  case (Cons c cs)
  let ?t = "upd_subscribers k n s"
  note at = upd_subscribers_at [OF assms(1)]
  have "\<exists>n' Y. sub_call protocol_id c ?t = Some (FWK_SUCCESS, upd_subscribers k n' ?t) \<and> subs_known N E A Y n' \<and>
      subs_map n' = sub_update c (subs_map n) \<and> sub_calls_ok s N E A Y cs"
  proof (cases c)
    case (Subscribe service_id agent element x)
    then have "unat x < 32" "unat element < E" "unat agent < A" "card (insert (unat x) X) \<le> N"
        "get_agent_id service_id (Some 0) ?t = Some (FWK_SUCCESS, Some agent)" "fwk_id_type_is_valid service_id" "service_id \<noteq> FWK_ID_NONE"
        and rest: "sub_calls_ok s N E A (insert (unat x) X) cs"
      using Cons.prems(2) by auto
    from add_known [OF at(1) at(2) [symmetric] Cons.prems(1) this(1-7)] show ?thesis using rest Subscribe by auto
  next
    case (Unsubscribe agent element x)
    then have "unat x \<in> X" "unat element < E" "unat agent < A" and rest: "sub_calls_ok s N E A X cs" using Cons.prems(2) by auto
    from remove_known [OF at(1) at(2) [symmetric] Cons.prems(1) this(1-3)] show ?thesis using rest Unsubscribe by auto
  qed
  then obtain n' Y where step: "sub_call protocol_id c ?t = Some (FWK_SUCCESS, upd_subscribers k n' s)"
      "subs_known N E A Y n'" "subs_map n' = sub_update c (subs_map n)" "sub_calls_ok s N E A Y cs"
    by (auto simp: at(3))
  then show ?case using Cons.IH [OF step(2,4)] by simp
qed

text \<open>
  An operation nobody has subscribed to has the index 0xFF in the table, which the code does not test
  for: the entry it clears is past the end of the array.
\<close>

lemma remove_unsubscribed:
  assumes k: "notification_subscribers protocol_id s = Some k" and n: "n = scmi_notif_subscribers s ! k" and inv: "subs_inv n"
    and key: "subs_key n (unat x) (unat element) (unat agent)" and unknown: "operation_id_to_idx n ! unat x = 255"
    and "256 * unat (ns_element_count n) * unat (ns_agent_count n) < 2 ^ 32"
  shows "scmi_notification_remove_subscriber protocol_id agent element x s = None"
proof -
  have x: "unat x < 32" using key by (simp add: subs_key_def)
  have entry: "elem_at (operation_id_to_idx n) (unat x) = Some 255"
    using x inv unknown by (simp add: elem_at_ok subs_inv_def)
  have assert: "fwk_assert (x < MOD_SCMI_PROTOCOL_MAX_OPERATION_ID) = Some ()" using op_less [OF x] by simp
  let ?i = "flat_index (unat (ns_agent_count n)) (unat (ns_element_count n)) (unat agent) (unat element) 255"
  have "?i < 256 * unat (ns_element_count n) * unat (ns_agent_count n)"
    using key by (intro flat_index_less) (simp_all add: subs_key_def)
  then have "?i < 2 ^ 32" using assms(6) by (rule less_trans)
  then have i: "unat (scmi_notification_service_idx agent element (ucast (255 :: 8 word)) (ns_agent_count n) (ns_element_count n)) = ?i"
    by (subst service_idx_flat) simp_all
  have "length (agent_service_ids n) \<le> 255 * unat (ns_element_count n) * unat (ns_agent_count n)"
    using inv by (auto simp: subs_inv_def intro!: mult_le_mono1)
  also have "\<dots> \<le> ?i" by (simp add: flat_index_def)
  finally have "\<not> ?i < length (agent_service_ids n)" by simp
  then show ?thesis
    unfolding scmi_notification_remove_subscriber_def k Option.bind.bind_lunit assert Let_def n [symmetric] entry put_service_id_def i by simp
qed

section \<open>Notifying\<close>

text \<open>The notification the map stands for: the agents from 1 on, each with the service it subscribed with.\<close>

definition notify_map ::
  "'w scmi_env \<Rightarrow> (nat \<times> nat \<times> nat \<Rightarrow> fwk_id option) \<Rightarrow> 32 word \<Rightarrow> nat \<Rightarrow> nat \<Rightarrow> nat \<Rightarrow> 32 word \<Rightarrow> 8 word list option \<Rightarrow> nat \<Rightarrow> 'w scmi_ctx \<Rightarrow> 'w scmi_ctx option" where
  "notify_map env subs protocol_id x element agents response_id payload len s =
     foldM (\<lambda>agent s. case subs (x, element, agent) of None \<Rightarrow> Some s
         | Some service_id \<Rightarrow> scmi_notify env service_id protocol_id response_id payload len s) [1..<agents] s"

lemma foldM_cong_inv:
  assumes "P s" and "\<And>x u. x \<in> set xs \<Longrightarrow> P u \<Longrightarrow> f x u = g x u" and "\<And>x u v. P u \<Longrightarrow> g x u = Some v \<Longrightarrow> P v"
  shows "foldM f xs s = foldM g xs s"
  using assms
proof (induction xs arbitrary: s)
  case (Cons x xs)
  have "f x s = g x s" using Cons.prems(1,2) by simp
  then show ?case
  proof (cases "g x s")
    case (Some u)
    have "P u" by (rule Cons.prems(3) [OF Cons.prems(1) Some])
    then have "foldM f xs u = foldM g xs u" using Cons.IH [of u] Cons.prems(2,3) by simp
    then show ?thesis using \<open>f x s = g x s\<close> Some by simp
  qed simp
qed simp

lemma notify_subscribers:
  assumes k: "notification_subscribers protocol_id s = Some k" and n: "n = scmi_notif_subscribers s ! k" and inv: "subs_inv n"
    and x: "unat x < 32" and element: "unat element < unat (ns_element_count n)"
  shows "scmi_notification_notify env protocol_id x element response_id payload len s =
    map_option (Pair FWK_SUCCESS)
      (notify_map env (subs_map n) protocol_id (unat x) (unat element) (unat (ns_agent_count n)) response_id payload len s)"
proof -
  let ?g = "\<lambda>agent s. case subs_map n (unat x, unat element, agent) of None \<Rightarrow> Some s
    | Some service_id \<Rightarrow> scmi_notify env service_id protocol_id response_id payload len s"
  have entry: "elem_at (operation_id_to_idx n) (unat x) = Some (operation_id_to_idx n ! unat x)"
    using x inv by (simp add: elem_at_ok subs_inv_def)
  have ok: "fwk_expect (build.truncate (scmi_bc env)) (element < ns_element_count n \<and> x < MOD_SCMI_PROTOCOL_MAX_OPERATION_ID) = Some True"
    using op_less [OF x] element by (simp add: word_less_nat_alt)
  show ?thesis
  proof (cases "operation_id_to_idx n ! unat x = 255")
    case True
    then have "foldM ?g xs s = Some s" for xs by (induction xs) (simp_all add: subs_map_def)
    then show ?thesis
      unfolding scmi_notification_notify_def k Option.bind.bind_lunit Let_def n [symmetric] ok entry notify_map_def
      using True by (simp add: MOD_SCMI_PROTOCOL_OPERATION_IDX_INVALID_def)
  next
    case False
    let ?f = "notify_agent env k protocol_id (ucast (operation_id_to_idx n ! unat x)) element response_id payload len"
    have "foldM ?f [1..<unat (ns_agent_count n)] s = foldM ?g [1..<unat (ns_agent_count n)] s"
    proof (rule foldM_cong_inv [where P = "same_scmi s"])
      fix agent u
      assume "agent \<in> set [1..<unat (ns_agent_count n)]" and u: "same_scmi s u"
      then have a: "agent < unat (ns_agent_count n)" by simp
      then have unat_a: "unat (of_nat agent :: 32 word) = agent"
      proof -
        have "unat (ns_agent_count n) < 2 ^ LENGTH(32)" by (rule unsigned_less)
        then show ?thesis using a by (simp add: unat_of_nat take_bit_nat_eq_self)
      qed
      have key: "subs_key n (unat x) (unat element) (unat (of_nat agent :: 32 word))"
        using x element a unat_a by (simp add: subs_key_def)
      have at: "subs_at n (unat x) (unat element) agent < length (agent_service_ids n)"
        using subs_at_less [OF inv key False] unat_a by simp
      have i: "unat (scmi_notification_service_idx (of_nat agent) element (ucast (operation_id_to_idx n ! unat x)) (ns_agent_count n) (ns_element_count n)) =
          subs_at n (unat x) (unat element) agent"
        using service_idx_at [OF inv key False] unat_a by simp
      let ?id = "agent_service_ids n ! subs_at n (unat x) (unat element) agent"
      have "scmi_notif_subscribers u = scmi_notif_subscribers s" using u by (auto simp: same_scmi_iff)
      then have nu: "elem_at (scmi_notif_subscribers u) k = Some n" using get_subs [OF k] n by (simp add: elem_at_ok)
      have eq: "fwk_id_is_equal ?id FWK_ID_NONE = Some (?id = FWK_ID_NONE)"
        using inv at by (intro fwk_id_is_equal_valid) (auto simp: subs_inv_def)
      have "?f agent u = (if ?id = FWK_ID_NONE then Some u else scmi_notify env ?id protocol_id response_id payload len u)"
        unfolding notify_agent_def nu Option.bind.bind_lunit Let_def i elem_at_ok [OF at] eq by (rule refl)
      moreover have "subs_map n (unat x, unat element, agent) = (if ?id = FWK_ID_NONE then None else Some ?id)"
        using x element a False by (simp add: subs_map_def Let_def)
      ultimately show "?f agent u = ?g agent u" by simp
    next
      fix agent u v
      assume "same_scmi s u" "?g agent u = Some v"
      then show "same_scmi s v" by (auto split: option.splits dest: scmi_notify_same intro: same_scmi_trans)
    qed simp
    then show ?thesis
      unfolding scmi_notification_notify_def k Option.bind.bind_lunit Let_def n [symmetric] ok entry notify_map_def
      using False by (simp add: MOD_SCMI_PROTOCOL_OPERATION_IDX_INVALID_def map_option_case option.case_eq_if bind_eq_Some_conv split: bind_splits option.splits)
  qed
qed

end
