(* ===== verification/Mod_Scmi_Tables.thy ===== *)
theory Mod_Scmi_Tables
  imports Mod_Scmi_Channel
begin

text \<open>
  The table from protocol identifiers to entries: what binding the protocols makes of it. Each bound
  protocol has an identifier of its own, and the number of identifiers in use is the number of
  protocols; so the list of protocols an agent reads page by page is complete.
\<close>

section \<open>Binding the protocols\<close>

lemma loopM_append:
  "loopM f (xs @ ys) s = (case loopM f xs s of None \<Rightarrow> None
     | Some (st, u) \<Rightarrow> if st \<noteq> FWK_SUCCESS then Some (st, u) else loopM f ys u)"
  by (induction xs arbitrary: s) (auto split: bind_splits)

lemma loopM_upt_success:
  assumes "loopM f [0..<n] s = Some (FWK_SUCCESS, t)" and "P 0 s"
    and "\<And>k u v. k < n \<Longrightarrow> P k u \<Longrightarrow> f k u = Some (FWK_SUCCESS, v) \<Longrightarrow> P (Suc k) v"
  shows "P n t"
  using assms
proof (induction n arbitrary: t)
  case 0
  then show ?case by simp
next
  case (Suc n)
  from Suc.prems(1) obtain u where u: "loopM f [0..<n] s = Some (FWK_SUCCESS, u)" "f n u = Some (FWK_SUCCESS, t)"
    by (auto simp: loopM_append bind_Some_iff split: option.splits if_splits)
  have "P n u" using Suc.IH [OF u(1)] Suc.prems(2,3) by simp
  then show ?case using Suc.prems(3) u(2) by simp
qed

definition used_ids :: "8 word list \<Rightarrow> nat set" where
  "used_ids ids = {i. i < 256 \<and> ids ! i \<noteq> 0 \<and> i \<noteq> 16}"

text \<open>The table after the first \<open>k\<close> protocols, for a build with the Base protocol.\<close>

definition tables_bound :: "nat \<Rightarrow> 'w scmi_ctx \<Rightarrow> bool" where
  "tables_bound k s \<longleftrightarrow>
     length (scmi_protocol_id_to_idx s) = 256 \<and> scmi_protocol_id_to_idx s ! 16 = 1 \<and> card (used_ids (scmi_protocol_id_to_idx s)) = k \<and>
     (\<forall>i \<in> used_ids (scmi_protocol_id_to_idx s).
        \<exists>j < k. unat (scmi_protocol_id_to_idx s ! i) = 2 + j \<and> 2 + j < length (protocol_table s) \<and> (\<exists>api. message_handler (protocol_table s ! (2 + j)) = Some (API_HANDLER api)))"

lemma bind_protocol_api_cases:
  "bind_protocol_api env i s = Some ((st, r), t) \<Longrightarrow> same_scmi s t \<and> (r = None \<longleftrightarrow> st \<noteq> FWK_SUCCESS)"
  unfolding bind_protocol_api_def
  by (auto simp: bind_Some_iff fwk_status_defs split: if_splits option.splits dest!: call_world_same intro: same_scmi_trans)

lemma used_ids_update:
  assumes "length ids = 256" and "x < 256" and "x \<noteq> 16" and "v \<noteq> 0"
  shows "used_ids (ids[x := v]) = insert x (used_ids ids)"
  using assms by (auto simp: used_ids_def nth_list_update)

lemma finite_used_ids [simp]: "finite (used_ids ids)"
  by (simp add: used_ids_def)

lemma bind_protocol_success:
  assumes "bind_protocol env k s = Some (FWK_SUCCESS, t)"
  shows "\<exists>api x protocol w. 2 + k < length (protocol_table s) \<and> unat x < length (scmi_protocol_id_to_idx s) \<and>
    scmi_protocol_id_to_idx s ! unat (x :: 8 word) = 0 \<and> message_handler protocol = Some (API_HANDLER api) \<and>
    t = s\<lparr>scmi_world := w, scmi_protocol_id_to_idx := (scmi_protocol_id_to_idx s)[unat x := of_nat (2 + k)],
          protocol_table := (protocol_table s)[2 + k := protocol]\<rparr>"
proof -
  note defs = bind_protocol_def Let_def PROTOCOL_TABLE_RESERVED_ENTRIES_COUNT_def
  have entry: "2 + k < length (protocol_table s)"
    using assms unfolding defs by (cases "2 + k < length (protocol_table s)") (simp_all add: elem_at_def)
  obtain st r u where api: "bind_protocol_api env (protocol_fwk_id (protocol_table s ! (2 + k))) s = Some ((st, r), u)"
    using assms entry unfolding defs
    by (cases "bind_protocol_api env (protocol_fwk_id (protocol_table s ! (2 + k))) s") (auto simp: elem_at_ok)
  note cases = bind_protocol_api_cases [OF api]
  have "r \<noteq> None"
    using assms entry api cases unfolding defs by (cases r) (simp_all add: elem_at_ok)
  then obtain a x where r: "r = Some (a, x)" by (cases r) auto
  have "same_scmi s u" using cases by blast
  then obtain w where u: "u = s\<lparr>scmi_world := w\<rparr>" by (auto simp: same_scmi_iff)
  have id: "unat x < length (scmi_protocol_id_to_idx s)" "scmi_protocol_id_to_idx s ! unat x = 0"
    using assms entry api r u unfolding bind_protocol_def Let_def PROTOCOL_TABLE_RESERVED_ENTRIES_COUNT_def
    by (auto simp: bind_Some_iff elem_at_ok fwk_status_defs split: if_splits)
  let ?p = "(protocol_table s ! (2 + k))\<lparr>message_handler := Some (API_HANDLER a)\<rparr>"
  let ?q = "if has_scmi_notifications (scmi_bc env) \<and> notification_handler_fn (scmi_protocols env a) \<noteq> None
            then ?p\<lparr>notification_handler := Some a\<rparr> else ?p"
  have "t = s\<lparr>scmi_world := w, scmi_protocol_id_to_idx := (scmi_protocol_id_to_idx s)[unat x := of_nat (2 + k)],
      protocol_table := (protocol_table s)[2 + k := ?q]\<rparr>"
    using assms entry api r u id cases unfolding defs by (auto simp: elem_at_ok split: if_splits)
  moreover have "message_handler ?q = Some (API_HANDLER a)" by simp
  ultimately show ?thesis using entry id by blast
qed

lemma bind_protocol_step:
  assumes "tables_bound k s" and "bind_protocol env k s = Some (FWK_SUCCESS, t)" and "k < 254"
  shows "tables_bound (Suc k) t"
proof -
  obtain api x protocol w where x: "2 + k < length (protocol_table s)" "scmi_protocol_id_to_idx s ! unat (x :: 8 word) = 0"
      "message_handler protocol = Some (API_HANDLER api)"
    and t: "t = s\<lparr>scmi_world := w, scmi_protocol_id_to_idx := (scmi_protocol_id_to_idx s)[unat x := of_nat (2 + k)],
          protocol_table := (protocol_table s)[2 + k := protocol]\<rparr>"
    using bind_protocol_success [OF assms(2)] by blast
  let ?ids = "scmi_protocol_id_to_idx s" and ?v = "of_nat (2 + k) :: 8 word"
  have ids: "length ?ids = 256" "?ids ! 16 = 1" "card (used_ids ?ids) = k" using assms(1) by (simp_all add: tables_bound_def)
  have old: "\<exists>j < k. unat (?ids ! i) = 2 + j \<and> 2 + j < length (protocol_table s) \<and>
      (\<exists>api. message_handler (protocol_table s ! (2 + j)) = Some (API_HANDLER api))" if "i \<in> used_ids ?ids" for i
    using assms(1) that by (simp add: tables_bound_def)
  have v: "unat ?v = 2 + k" using assms(3) by (simp only: unat_of_nat) (simp add: take_bit_nat_eq_self)
  then have "?v \<noteq> 0" by (auto simp del: of_nat_add)
  have "unat x < 2 ^ LENGTH(8)" by (rule unsigned_less)
  then have x256: "unat x < 256" by simp
  have x16: "unat x \<noteq> 16" using x(2) ids(2) by auto
  have used: "used_ids (?ids[unat x := ?v]) = insert (unat x) (used_ids ?ids)"
    by (rule used_ids_update [OF ids(1) x256 x16 \<open>?v \<noteq> 0\<close>])
  have "unat x \<notin> used_ids ?ids" using x(2) by (simp add: used_ids_def)
  then have "card (used_ids (?ids[unat x := ?v])) = Suc k" unfolding used using ids(3) by simp
  moreover have "\<exists>j < Suc k. unat (?ids[unat x := ?v] ! i) = 2 + j \<and> 2 + j < length ((protocol_table s)[2 + k := protocol]) \<and>
      (\<exists>api. message_handler ((protocol_table s)[2 + k := protocol] ! (2 + j)) = Some (API_HANDLER api))"
    if i: "i \<in> insert (unat x) (used_ids ?ids)" for i
  proof (cases "i = unat x")
    case True
    then show ?thesis using v x(1,3) x256 ids(1) by (intro exI [of _ k]) (simp del: of_nat_add)
  next
    case False
    then obtain j where "j < k" "unat (?ids ! i) = 2 + j" "2 + j < length (protocol_table s)"
        "\<exists>api. message_handler (protocol_table s ! (2 + j)) = Some (API_HANDLER api)"
      using old [of i] i by auto
    then show ?thesis using False by (intro exI [of _ j]) (simp add: less_SucI)
  qed
  ultimately show ?thesis
    unfolding tables_bound_def t using ids(1,2) used x16 by (simp del: of_nat_add)
qed

text \<open>Binding all protocols.\<close>

lemma bind_protocols_tables:
  assumes "tables_bound 0 s" and "loopM (bind_protocol env) [0..<n] s = Some (FWK_SUCCESS, t)" and "n \<le> 254"
  shows "tables_bound n t"
  by (rule loopM_upt_success [OF assms(2), where P = tables_bound]) (use assms(1,3) in \<open>auto intro: bind_protocol_step\<close>)

section \<open>Pages\<close>

text \<open>With as many identifiers as protocols, an agent no protocol is disabled for sees the true number.\<close>

lemma visible_count:
  assumes "tables_bound n s" and "disabled_for config kind = []"
  shows "length (visible_protocols config kind (scmi_protocol_id_to_idx s)) = n"
proof -
  have "set (visible_protocols config kind (scmi_protocol_id_to_idx s)) = used_ids (scmi_protocol_id_to_idx s)"
    using assms(2) by (auto simp: visible_protocols_def open_protocol_def used_ids_def)
  moreover have "distinct (visible_protocols config kind (scmi_protocol_id_to_idx s))" by (simp add: visible_protocols_def)
  ultimately show ?thesis using assms(1) distinct_card by (fastforce simp: tables_bound_def)
qed

lemma visible_sorted:
  assumes "disabled_for config kind = []"
  shows "visible_protocols config kind ids = sorted_list_of_set (used_ids ids)"
proof -
  have "set (visible_protocols config kind ids) = used_ids ids"
    using assms by (auto simp: visible_protocols_def open_protocol_def used_ids_def)
  moreover have "sorted (visible_protocols config kind ids)" "distinct (visible_protocols config kind ids)"
    by (simp_all add: visible_protocols_def sorted_wrt_filter)
  ultimately show ?thesis by (metis sorted_list_of_set.idem_if_sorted_distinct)
qed

text \<open>A page, where the number of protocols is the one the module takes for it.\<close>

lemma page_complete:
  assumes "count = length ps" and "skip \<le> length ps" and "skip + room < 2 ^ 32"
  shows "page room count skip ps = Some (take room (drop skip ps))"
  using assms by (simp add: page_def Let_def size_add_no_wrap drop_take min_def not_less)

text \<open>What an agent reads that asks for the pages one after the other, until a page is empty.\<close>

fun read_pages :: "nat \<Rightarrow> nat \<Rightarrow> nat \<Rightarrow> nat \<Rightarrow> nat list \<Rightarrow> nat list option" where
  "read_pages 0 room count skip ps = None"
| "read_pages (Suc fuel) room count skip ps =
     (case page room count skip ps of
        None \<Rightarrow> None
      | Some [] \<Rightarrow> Some []
      | Some (x # xs) \<Rightarrow> map_option (append (x # xs)) (read_pages fuel room count (skip + length (x # xs)) ps))"

lemma read_pages_complete:
  assumes "0 < room" and "length ps + room < 2 ^ 32" and "skip \<le> length ps" and "length ps - skip < fuel"
  shows "read_pages fuel room (length ps) skip ps = Some (drop skip ps)"
  using assms(3,4)
proof (induction fuel arbitrary: skip)
  case (Suc fuel)
  have page: "page room (length ps) skip ps = Some (take room (drop skip ps))"
    by (rule page_complete) (use Suc.prems(1) assms(2) in simp_all)
  show ?case
  proof (cases "take room (drop skip ps)")
    case Nil
    then have "drop skip ps = []" using assms(1) by simp
    then show ?thesis using page Nil by simp
  next
    case (Cons x xs)
    let ?k = "length (x # xs)"
    have k: "?k = min room (length ps - skip)" unfolding Cons [symmetric] by (simp add: min.commute)
    have "0 < ?k" by simp
    then have "skip + ?k \<le> length ps" "length ps - (skip + ?k) < fuel" using k Suc.prems by (auto simp del: list.size)
    from Suc.IH [OF this] have "read_pages fuel room (length ps) (skip + ?k) ps = Some (drop (skip + ?k) ps)" .
    moreover have "(x # xs) @ drop (skip + ?k) ps = drop skip ps"
      using append_take_drop_id [of room "drop skip ps"] k unfolding Cons [symmetric]
      by (cases "room \<le> length ps - skip") (auto simp: min_def add.commute)
    ultimately show ?thesis using page Cons by simp
  qed
qed simp

end
