(* ===== verification/Mod_Scmi_Props.thy ===== *)
theory Mod_Scmi_Props
  imports Scmi_Stack Mod_Scmi_Subs Mod_Scmi_Tables
begin

text \<open>
  The properties of the SCMI module and its message channels, over the interpretation of the
  transport contract in \<open>Mod_Msg_Smt\<close>, with an example on which each is applied: one agent, one
  service on one channel, and the protocols 0x11 and 0x14.
\<close>

section \<open>An example\<close>

definition scx_ch :: fwk_id where "scx_ch = FWK_ID_ELEMENT 2 0"
definition scx_tgt :: fwk_id where "scx_tgt = FWK_ID_ELEMENT 1 0"

text \<open>A framework that takes events, and whose binding gives the address 17 or 20 of a protocol's interface.\<close>

definition scx_services :: "'w \<Rightarrow> ('w \<Rightarrow> 'w) \<Rightarrow> 'w fwk_services" where
  "scx_services dummy post =
     \<lparr>srv_put_event = (\<lambda>e w. None), srv_put_event_light = (\<lambda>e w. Some (FWK_SUCCESS, post w)),
      srv_notify = (\<lambda>e n w. None), srv_subscribe = (\<lambda>i j k w. None), srv_get_delayed_response = (\<lambda>i c e w. None),
      srv_is_valid_element_id = (\<lambda>i w. None), srv_bind = (\<lambda>i j w. Some (FWK_SUCCESS, Some (unat (id_module_idx i)), w)),
      srv_calloc = (\<lambda>n w. Some w)\<rparr>"

definition scx_smt0 :: "(nat, nat smt_ctx scmi_ctx) smt_env" where
  "scx_smt0 =
     \<lparr>smt_srv = scx_services 0 id, raise_notification = (\<lambda>a. Some (\<lambda>i k m. Some (FWK_SUCCESS, m + 100))),
      scmi_signal_message = (\<lambda>a. None), smt_of = scmi_world, smt_put = (\<lambda>m s. s\<lparr>scmi_world := m\<rparr>), smt_scmi_idx = 1,
      smt_transport_api = 5, smt_driver_input_api = 6\<rparr>"

definition scx_env :: "nat smt_ctx scmi_env" where
  "scx_env =
     \<lparr>scmi_bc = \<lparr>strict_checks = False, mode_debug = False, marked_list = False, has_notification = False, has_resource_perms = False,
        has_base_protocol = True, has_scmi_notifications = False\<rparr>,
      scmi_srv = scx_services undefined (\<lambda>w. w\<lparr>smt_outside := smt_outside w + 1\<rparr>), srv_element_name = (\<lambda>i w. Some (Some ''ospm'')),
      srv_service_config = (\<lambda>i w. None),
      scmi_transports = (\<lambda>a. smt_mod_scmi_to_transport_api scx_smt0),
      scmi_protocols = (\<lambda>a. \<lparr>get_scmi_protocol_id_fn = Some (\<lambda>i w. Some ((FWK_SUCCESS, of_nat a), w)),
        message_handler_fn = Some (\<lambda>i j p n m s. Some (FWK_SUCCESS, s)), notification_handler_fn = None\<rparr>),
      scmi_res_perms = (\<lambda>a. \<lparr>rp_agent_has_protocol_permission = (\<lambda>x y w. None), rp_agent_set_device_permission = (\<lambda>x y z w. None),
        rp_agent_set_device_protocol_permission = (\<lambda>x y z u w. None), rp_agent_reset_config = (\<lambda>x y w. None)\<rparr>),
      scmi_module_idx = 1, res_perms_module_idx = 9, from_protocol_api = 1, from_protocol_req_api = 2, from_transport_api = 3,
      notification_api = 4, fwk_build_version = 7\<rparr>"

definition scx_smt :: "(nat, nat smt_ctx scmi_ctx) smt_env" where
  "scx_smt = scx_smt0\<lparr>scmi_signal_message := (\<lambda>a. Some (signal_message scx_env))\<rparr>"

lemma transport_api_cong:
  "raise_notification env = raise_notification env' \<Longrightarrow> smt_mod_scmi_to_transport_api env = smt_mod_scmi_to_transport_api env'"
proof -
  assume "raise_notification env = raise_notification env'"
  then have "tell_driver env = tell_driver env'" by (intro ext) (simp add: tell_driver_def)
  then have "smt_respond env = smt_respond env'" "smt_transmit env = smt_transmit env'"
    by (intro ext, simp only: smt_respond_def smt_transmit_def)+
  then show ?thesis by (simp only: smt_mod_scmi_to_transport_api_def)
qed

definition scx_config :: mod_scmi_config where
  "scx_config = \<lparr>protocol_count_max = 2, protocol_requester_count_max = 0, dis_protocol_count_psci = 0, dis_protocol_list_psci = None,
     agent_count = 1, agent_table = [\<lparr>ag_type = 3, ag_name = None\<rparr>, \<lparr>ag_type = 2, ag_name = None\<rparr>],
     vendor_identifier = Some ''arm'', sub_vendor_identifier = None\<rparr>"

definition scx_service_config :: mod_scmi_service_config where
  "scx_service_config = \<lparr>cfg_transport_id = scx_ch, cfg_transport_api_id = FWK_ID_API 2 0, cfg_transport_notification_init_id = FWK_ID_NONE,
     cfg_scmi_agent_id = 1, cfg_scmi_p2a_id = FWK_ID_NONE, cfg_scmi_entity_role = MOD_SCMI_ROLE_PLATFORM\<rparr>"

definition scx_protocol :: "32 word \<Rightarrow> scmi_protocol" where
  "scx_protocol m = \<lparr>message_handler = None, protocol_fwk_id = FWK_ID_MODULE m, notification_handler = None\<rparr>"

text \<open>The channel with the buffers at 10 and 20, and the module before its protocols are bound.\<close>

definition scx_world :: "bool \<Rightarrow> 8 word list \<Rightarrow> nat smt_ctx" where
  "scx_world busy msg =
     \<lparr>channel_ctx_table =
        [\<lparr>smt_id = scx_ch, smt_config = Some \<lparr>smt_type = 0, mailbox_size = 44, smt_cfg_driver_id = FWK_ID_ELEMENT 3 0,
             smt_cfg_driver_api_id = FWK_ID_API 3 0\<rparr>,
           smt_in = Some 10, smt_out = Some 20, in_len = length msg, out_len = 44, locked = busy, max_payload_size = 40,
           smt_driver_id = FWK_ID_ELEMENT 3 0, scmi_service_id = scx_tgt, smt_driver_api = Some 30, smt_scmi_api = Some 3,
           msg_smt_mailbox_ready = True\<rparr>],
      channel_count = 1, smt_memory = [10 \<mapsto> msg, 20 \<mapsto> take 4 msg @ replicate 40 0], smt_outside = 0\<rparr>"

definition scx_unbound :: "'w \<Rightarrow> 'w scmi_ctx" where
  "scx_unbound w =
     \<lparr>scmi_config = Some scx_config,
      protocol_table = [scx_protocol 0, (scx_protocol 0)\<lparr>message_handler := Some BASE_HANDLER\<rparr>, scx_protocol 17, scx_protocol 20],
      protocol_count = 2, protocol_requester_table = [], protocol_requester_count = 0,
      scmi_protocol_id_to_idx = (replicate 256 0)[16 := 1], scmi_protocol_requester_id_to_idx = replicate 256 0,
      service_ctx_table = [\<lparr>svc_config = Some scx_service_config, svc_transport_id = scx_ch, svc_transport_api = Some 5, svc_respond = Some 5,
        svc_transmit = Some 5, scmi_token = 0, scmi_protocol_id = 0, scmi_message_id = 0, scmi_message_type = 0\<rparr>],
      res_perms_api = None, scmi_notif_subscribers = [], base_protocol_api = True, scmi_world = w\<rparr>"

definition scx_bound :: "'w \<Rightarrow> 'w scmi_ctx" where
  "scx_bound w = (scx_unbound w)\<lparr>
     protocol_table := [scx_protocol 0, (scx_protocol 0)\<lparr>message_handler := Some BASE_HANDLER\<rparr>,
       (scx_protocol 17)\<lparr>message_handler := Some (API_HANDLER 17)\<rparr>, (scx_protocol 20)\<lparr>message_handler := Some (API_HANDLER 20)\<rparr>],
     scmi_protocol_id_to_idx := (replicate 256 0)[16 := 1, 17 := 2, 20 := 3]\<rparr>"

definition scx_view :: base_view where
  "scx_view = \<lparr>bv_config = scx_config, bv_ids = (replicate 256 0)[16 := 1, 17 := 2, 20 := 3], bv_protocols = 2, bv_agent_id = 1,
     bv_agent = \<lparr>ag_type = 2, ag_name = None\<rparr>, bv_service_name = ''ospm'', bv_version = 7, bv_room = 40\<rparr>"

text \<open>The message: BASE_DISCOVER_LIST_PROTOCOLS of the Base protocol, from the first protocol on.\<close>

definition scx_header :: "32 word" where "scx_header = scmi_message_header 6 0 0x10 9"
definition scx_message :: "8 word list" where "scx_message = le32 scx_header @ le32 0"

lemma scx_serves: "serves_base scx_env (smt_mod_scmi_to_transport_api scx_smt) scx_ch scx_tgt scx_view (scx_bound w)"
proof -
  have api: "smt_mod_scmi_to_transport_api scx_smt0 = smt_mod_scmi_to_transport_api scx_smt"
    by (rule transport_api_cong) (simp add: scx_smt_def)
  have tgt: "fwk_id_get_element_idx scx_tgt = Some 0" by (simp add: scx_tgt_def fwk_id_get_element_idx_def)
  have "on_channel scx_env (smt_mod_scmi_to_transport_api scx_smt) scx_ch scx_tgt scx_service_config (scx_bound w)"
    by (simp add: on_channel_def service_of_def service_index_def get_service_def tgt scx_bound_def scx_unbound_def scx_env_def api elem_at_def)
  moreover have "cfg_scmi_agent_id scx_service_config = bv_agent_id scx_view" "cfg_scmi_entity_role scx_service_config = MOD_SCMI_ROLE_PLATFORM"
    by (simp_all add: scx_service_config_def scx_view_def)
  ultimately have "\<exists>config. on_channel scx_env (smt_mod_scmi_to_transport_api scx_smt) scx_ch scx_tgt config (scx_bound w) \<and>
      cfg_scmi_agent_id config = bv_agent_id scx_view \<and> cfg_scmi_entity_role config = MOD_SCMI_ROLE_PLATFORM" by blast
  moreover have "agent_known (bv_agent_id scx_view) (bv_agent scx_view) (bv_config scx_view)" "psci_table_ok (bv_config scx_view)"
    by (simp_all add: agent_known_def psci_table_ok_def scx_view_def scx_config_def scmi_consts)
  ultimately show ?thesis
    unfolding serves_base_def by (simp add: scx_view_def scx_bound_def scx_unbound_def scx_env_def scmi_consts)
qed

lemma scx_below: "smt_below_scmi scx_smt scx_env scx_tgt"
  by (auto simp: smt_below_scmi_def scx_smt_def scx_smt0_def scx_env_def scx_services_def)

lemma scx_channel: "channel_of scx_ch (scx_world b msg) = Some (hd (channel_ctx_table (scx_world b msg)))"
proof -
  have "fwk_id_get_element_idx scx_ch = Some 0" by (simp add: scx_ch_def fwk_id_get_element_idx_def)
  then show ?thesis by (simp add: channel_of_def channel_index_def scx_world_def elem_at_def)
qed

lemma scx_ready: "smt_ready scx_smt scx_ch scx_tgt 40 10 20 (scx_world False scx_message)"
  unfolding smt_ready_def scx_channel by (simp add: scx_world_def scx_smt_def scx_smt0_def scmi_consts scx_message_def)

lemma scx_has_message: "smt_message 10 scx_header (le32 0) (scx_world b scx_message)"
  unfolding smt_message_def scx_world_def scx_message_def by simp

section \<open>Messages\<close>

text \<open>
  C32. A message that a driver hands to a free channel is answered: the channel signals the SCMI
  module, which posts its message event for the service, once and as the last thing done to the
  framework by the signal; the handler of an event for that service leaves in the output buffer the header of the message
  followed by the reply, frees the channel and tells the channel's driver, once, the length of what is
  in the buffer. The reply is a refusal (of a malformed, unsupported or forbidden protocol) or, for the
  Base protocol, the one of the specification \<open>base_reply\<close>, on every command, size of parameters and
  value of them.
\<close>

theorem message_answered:
  assumes "serves_base senv (smt_mod_scmi_to_transport_api env) ch tgt v s" and "smt_below_scmi env senv tgt"
    and "smt_ready env ch tgt (bv_room v) a b (scmi_world s)" and "smt_message a h p (scmi_world s)"
    and "base_bound senv v h s" and "platform_reply v h p = Some r" and "target_id event = tgt"
  shows "\<exists>s1 e t bs c f st. msg_signal_message env ch (Some a) (4 + length p) (Some b) k s = Some (FWK_SUCCESS, s1) \<and>
    light_target_id e = target_id event \<and> light_event_id e = FWK_ID_EVENT (scmi_module_idx senv) 0 \<and> \<not> light_response_requested e \<and>
    srv_put_event_light (scmi_srv senv) e ((scmi_world s1)\<lparr>smt_outside := smt_outside (scmi_world s)\<rparr>) =
      Some (FWK_SUCCESS, scmi_world s1) \<and>
    scmi_process_event senv event s1 = Some (FWK_SUCCESS, t) \<and> replies bs r \<and>
    channel_of ch (scmi_world t) = Some c \<and> \<not> locked c \<and> out_len c = 4 + length bs \<and>
    (\<exists>out. buffer_at (smt_out c) (scmi_world t) = Some out \<and> take (out_len c) out = le32 h @ bs) \<and>
    Option.bind (smt_driver_api c) (raise_notification env) = Some f \<and>
    f (smt_driver_id c) (out_len c) (smt_outside (scmi_world s1)) = Some (st, smt_outside (scmi_world t))"
proof -
  obtain w where w: "msg_signal_message env ch (Some a) (4 + length p) (Some b) k s = Some (FWK_SUCCESS, s\<lparr>scmi_world := w\<rparr>)"
      "smt_pending env ch (smt_outside w) h p (bv_room v) w"
      "srv_put_event_light (scmi_srv senv) (scmi_message_event senv tgt) (w\<lparr>smt_outside := smt_outside (scmi_world s)\<rparr>) = Some (FWK_SUCCESS, w)"
    using msg_signal_pending [OF assms(1-4)] by blast
  let ?s1 = "s\<lparr>scmi_world := w\<rparr>"
  have "\<exists>t bs. scmi_process_event senv event ?s1 = Some (FWK_SUCCESS, t) \<and> smt_answered env ch (smt_outside w) h bs (scmi_world t) \<and> replies bs r"
    by (rule event_answered [OF _ _ assms(7) _ assms(6)]) (use assms(1,5) w(2) in simp_all)
  then obtain t bs where t: "scmi_process_event senv event ?s1 = Some (FWK_SUCCESS, t)" "smt_answered env ch (smt_outside w) h bs (scmi_world t)"
      "replies bs r"
    by blast
  obtain c out api f st where "channel_of ch (scmi_world t) = Some c" "\<not> locked c" "buffer_at (smt_out c) (scmi_world t) = Some out"
      "out_len c = 4 + length bs" "take (out_len c) out = le32 h @ bs" "smt_driver_api c = Some api" "raise_notification env api = Some f"
      "f (smt_driver_id c) (4 + length bs) (smt_outside w) = Some (st, smt_outside (scmi_world t))"
    using t(2) unfolding smt_answered_def by blast
  then show ?thesis
    using w(1,3) t(1,3) assms(7)
    by (intro exI [of _ ?s1] exI [of _ "scmi_message_event senv tgt"] exI [of _ t] exI [of _ bs] exI [of _ c] exI [of _ f] exI [of _ st])
      (simp add: scmi_message_event_def)
qed

lemma scx_base_bound: "base_bound scx_env scx_view h (scx_bound w)"
  by (simp add: base_bound_def scx_env_def scx_view_def scx_bound_def scx_unbound_def elem_at_def)

lemma scx_reply: "\<exists>r. platform_reply scx_view scx_header (le32 0) = Some r"
  by (simp add: platform_reply_def scx_header_def read_header MOD_SCMI_PROTOCOL_ID_BASE_def split: option.splits)

lemma scx_post: "srv_put_event_light (scmi_srv scx_env) e w = Some (st, w') \<longleftrightarrow> st = FWK_SUCCESS \<and> w' = w\<lparr>smt_outside := smt_outside w + 1\<rparr>"
  by (auto simp: scx_env_def scx_services_def)

lemma scx_raise: "raise_notification scx_smt a = Some (\<lambda>i k m. Some (FWK_SUCCESS, m + 100))"
  by (simp add: scx_smt_def scx_smt0_def)

text \<open>In the example the framework counts an event as 1 and the driver counts what it is told as 100.\<close>

theorem message_answered_witness:
  "\<exists>r s1 t bs. platform_reply scx_view scx_header (le32 0) = Some r \<and>
     msg_signal_message scx_smt scx_ch (Some 10) 8 (Some 20) 44 (scx_bound (scx_world False scx_message)) = Some (FWK_SUCCESS, s1) \<and>
     smt_outside (scmi_world s1) = 1 \<and>
     scmi_process_event scx_env (zeroed_event\<lparr>target_id := scx_tgt\<rparr>) s1 = Some (FWK_SUCCESS, t) \<and>
     smt_outside (scmi_world t) = 101 \<and> replies bs r"
proof -
  obtain r where r: "platform_reply scx_view scx_header (le32 0) = Some r" using scx_reply by blast
  let ?s = "scx_bound (scx_world False scx_message)"
  have world: "scmi_world ?s = scx_world False scx_message" by (simp add: scx_bound_def scx_unbound_def)
  have ready: "smt_ready scx_smt scx_ch scx_tgt (bv_room scx_view) 10 20 (scmi_world ?s)" using scx_ready unfolding world by (simp add: scx_view_def)
  have msg: "smt_message 10 scx_header (le32 0) (scmi_world ?s)" unfolding world by (rule scx_has_message)
  have "target_id (zeroed_event\<lparr>target_id := scx_tgt\<rparr>) = scx_tgt" by simp
  from message_answered [OF scx_serves scx_below ready msg scx_base_bound r this, where k = 44]
  have "\<exists>s1 e t bs. msg_signal_message scx_smt scx_ch (Some 10) (4 + length (le32 0)) (Some 20) 44 ?s = Some (FWK_SUCCESS, s1) \<and>
      light_target_id e = scx_tgt \<and> srv_put_event_light (scmi_srv scx_env) e ((scmi_world s1)\<lparr>smt_outside := smt_outside (scmi_world ?s)\<rparr>) =
         Some (FWK_SUCCESS, scmi_world s1) \<and>
      scmi_process_event scx_env (zeroed_event\<lparr>target_id := scx_tgt\<rparr>) s1 = Some (FWK_SUCCESS, t) \<and> replies bs r \<and>
      smt_outside (scmi_world t) = smt_outside (scmi_world s1) + 100"
    by (elim exE conjE) (intro exI conjI, assumption+, auto simp: bind_Some_iff scx_raise)
  then obtain s1 e t bs where s1: "msg_signal_message scx_smt scx_ch (Some 10) (4 + length (le32 0)) (Some 20) 44 ?s = Some (FWK_SUCCESS, s1)"
      "srv_put_event_light (scmi_srv scx_env) e ((scmi_world s1)\<lparr>smt_outside := smt_outside (scmi_world ?s)\<rparr>) =
         Some (FWK_SUCCESS, scmi_world s1)"
    and t: "scmi_process_event scx_env (zeroed_event\<lparr>target_id := scx_tgt\<rparr>) s1 = Some (FWK_SUCCESS, t)" "replies bs r"
      "smt_outside (scmi_world t) = smt_outside (scmi_world s1) + 100"
    by blast
  have "smt_outside (scmi_world s1) = smt_outside (scmi_world ?s) + 1"
    using s1(2) unfolding scx_post by (elim conjE) (erule ssubst, simp)
  then have one: "smt_outside (scmi_world s1) = 1" unfolding world by (simp add: scx_world_def)
  moreover have "smt_outside (scmi_world t) = 101" using t(3) one by simp
  ultimately show ?thesis using r s1(1) t(1,2) by auto
qed

section \<open>The list of protocols\<close>

text \<open>
  C33. After the protocols have been bound, an agent for which no protocol is disabled reads all of
  them with BASE_DISCOVER_LIST_PROTOCOLS: the message that skips \<open>skip\<close> protocols is answered with the next
  ones in increasing order, as many as there is room for; and the agent that goes on until an empty
  page has exactly the identifiers that the bound protocols reported.
\<close>

theorem protocol_list_complete:
  assumes "tables_bound 0 s" and "loopM (bind_protocol senv) [0..<unat (bv_protocols v)] s = Some (FWK_SUCCESS, t)"
    and "unat (bv_protocols v) \<le> 254" and serves: "serves_base senv (smt_mod_scmi_to_transport_api env) ch tgt v t"
    and pend: "smt_pending env ch (smt_outside (scmi_world t)) h (le32 skip) (bv_room v) (scmi_world t)"
    and kind: "ag_type (bv_agent v) \<noteq> SCMI_AGENT_TYPE_PSCI" and "skip \<le> bv_protocols v" and "bv_room v < 2 ^ 31"
  defines "ids \<equiv> sorted_list_of_set (used_ids (scmi_protocol_id_to_idx t))"
  defines "ps \<equiv> take (bv_room v - 8) (drop (unat skip) ids)"
  shows "\<exists>st u bs. scmi_base_message_handler senv pid tgt (Some (le32 skip)) 4 6 t = Some (st, u) \<and> smt_answered env ch (smt_outside (scmi_world t)) h bs (scmi_world u) \<and>
      take (8 + length ps) bs = status_bytes SCMI_SUCCESS @ le32 (of_nat (length ps)) @ map of_nat ps \<and>
      length ids = unat (bv_protocols v) \<and>
      read_pages (length ids + 1) (bv_room v - 8) (length ids) 0 ids = Some ids"
proof -
  let ?n = "unat (bv_protocols v)"
  have bound: "tables_bound ?n t" by (rule bind_protocols_tables [OF assms(1-3)])
  have idt: "scmi_protocol_id_to_idx t = bv_ids v" and room: "24 \<le> bv_room v" using serves by (simp_all add: serves_base_def)
  have dis: "disabled_for (bv_config v) (ag_type (bv_agent v)) = []" using kind by (simp add: disabled_for_def)
  have ids: "visible_protocols (bv_config v) (ag_type (bv_agent v)) (bv_ids v) = ids"
    unfolding ids_def idt [symmetric] by (rule visible_sorted [OF dis])
  have len: "length ids = ?n" using visible_count [OF bound dis] ids idt by simp
  have skip: "unat skip \<le> ?n" using assms(7) by (simp add: word_le_nat_alt)
  have page: "page (bv_room v - 8) ?n (unat skip) ids = Some ps"
    unfolding ps_def by (rule page_complete) (use len skip assms(3,8) in simp_all)
  have "\<exists>st w bs. scmi_base_message_handler senv pid tgt (Some (le32 skip @ [])) (length (le32 skip)) 6 t = Some (st, t\<lparr>scmi_world := w\<rparr>) \<and>
      smt_answered env ch (smt_outside (scmi_world t)) h bs w \<and> replies bs (base_reply v (unat (6 :: 32 word)) (le32 skip))"
    by (rule smt.base_handler_replies [OF serves pend])
  then obtain st w bs where b: "scmi_base_message_handler senv pid tgt (Some (le32 skip)) 4 6 t = Some (st, t\<lparr>scmi_world := w\<rparr>)"
      "smt_answered env ch (smt_outside (scmi_world t)) h bs w" "replies bs (base_reply v 6 (le32 skip))"
    by auto
  have "get_u32 0 (le32 skip) = Some skip" using get_u32_le32 [of skip "[]"] by simp
  then have "base_reply v 6 (le32 skip) = list_reply v skip" by (simp add: base_reply_def base_parameter_size_def)
  also have "\<dots> = (status_bytes SCMI_SUCCESS @ le32 (of_nat (length ps)) @ map of_nat ps, (8 + length ps + 3) div 4 * 4)"
    using page kind by (simp add: list_reply_def page_reply_def advertised_count_def ids)
  finally have "take (8 + length ps) bs = status_bytes SCMI_SUCCESS @ le32 (of_nat (length ps)) @ map of_nat ps"
    using b(3) by (simp add: replies_def)
  moreover have "read_pages (length ids + 1) (bv_room v - 8) (length ids) 0 ids = Some ids"
    using read_pages_complete [of "bv_room v - 8" ids 0 "length ids + 1"] room len assms(3,8) by simp
  ultimately show ?thesis using b(1,2) len by auto
qed

lemma scx_binds: "loopM (bind_protocol scx_env) [0..<unat (bv_protocols scx_view)] (scx_unbound w) = Some (FWK_SUCCESS, scx_bound w)"
proof -
  have upt: "[0..<unat (bv_protocols scx_view)] = [0, 1]" by (simp add: scx_view_def upt_conv_Cons)
  have bind: "bind_protocol_api scx_env (FWK_ID_MODULE m) s = Some ((FWK_SUCCESS, Some (unat (take_bit 8 m), of_nat (unat (take_bit 8 m)))), s)" for m and s :: "nat smt_ctx scmi_ctx"
    by (simp add: bind_protocol_api_def fwk_id_get_module_idx_def assert_id_iff call_world_def scx_env_def scx_services_def)
  have ntf: "has_scmi_notifications (scmi_bc scx_env) = False" by (simp add: scx_env_def)
  show ?thesis
    unfolding upt
    by (simp add: bind_protocol_def PROTOCOL_TABLE_RESERVED_ENTRIES_COUNT_def Let_def scx_unbound_def scx_bound_def elem_at_def scx_protocol_def
        bind ntf nth_list_update)
qed

lemma scx_tables: "tables_bound 0 (scx_unbound w)"
proof -
  have "used_ids ((replicate 256 0)[16 := 1]) = {}" by (auto simp: used_ids_def nth_list_update)
  then show ?thesis by (simp add: tables_bound_def scx_unbound_def)
qed

lemma scx_pending: "smt_pending scx_smt scx_ch 0 scx_header (le32 0) 40 (scx_world True scx_message)"
  unfolding smt_pending_def scx_channel by (simp add: scx_world_def scx_smt_def scx_smt0_def scx_message_def)

theorem protocol_list_complete_witness:
  "\<exists>st u bs ps. scmi_base_message_handler scx_env 0 scx_tgt (Some (le32 0)) 4 6 (scx_bound (scx_world True scx_message)) = Some (st, u) \<and>
     smt_answered scx_smt scx_ch 0 scx_header bs (scmi_world u) \<and> take (8 + length ps) bs = status_bytes SCMI_SUCCESS @ le32 (of_nat (length ps)) @ map of_nat ps"
proof -
  have zero: "smt_outside (scmi_world (scx_bound (scx_world True scx_message))) = 0" by (simp add: scx_bound_def scx_unbound_def scx_world_def)
  have pend: "smt_pending scx_smt scx_ch (smt_outside (scmi_world (scx_bound (scx_world True scx_message)))) scx_header (le32 0) (bv_room scx_view) (scmi_world (scx_bound (scx_world True scx_message)))"
    using scx_pending unfolding zero by (simp add: scx_view_def scx_bound_def scx_unbound_def)
  have "unat (bv_protocols scx_view) \<le> 254" "ag_type (bv_agent scx_view) \<noteq> SCMI_AGENT_TYPE_PSCI" "0 \<le> bv_protocols scx_view" "bv_room scx_view < 2 ^ 31"
    by (simp_all add: scx_view_def scmi_consts)
  from protocol_list_complete [OF scx_tables scx_binds this(1) scx_serves pend this(2-4), of 0]
  show ?thesis unfolding zero by blast
qed

section \<open>Notifications\<close>


text \<open>The example with notifications: two operations, one element, two agents.\<close>

definition scx_subs :: "nat smt_ctx scmi_ctx" where
  "scx_subs = (scx_bound (scx_world False []))\<lparr>scmi_notif_subscribers := replicate 3
     \<lparr>ns_agent_count = 2, ns_element_count = 1, ns_operation_count = 2, ns_operation_idx = 0, operation_id_to_idx = replicate 32 255,
      agent_service_ids = replicate 4 FWK_ID_NONE\<rparr>\<rparr>"

lemma scx_subs_entry: "notification_subscribers 0x11 scx_subs = Some 1"
  by (simp add: notification_subscribers_def scx_subs_def scx_bound_def elem_at_def scmi_consts nth_list_update)

lemma scx_subs_inv: "subs_inv (scmi_notif_subscribers scx_subs ! 1)"
  by (auto simp: scx_subs_def subs_inv_def fwk_id_type_is_valid_def FWK_ID_NONE_def id_defs)

lemma scx_subs_agent: "get_agent_id scx_tgt (Some 0) scx_subs = Some (FWK_SUCCESS, Some 1)"
proof -
  have "fwk_id_get_element_idx scx_tgt = Some 0" by (simp add: scx_tgt_def fwk_id_get_element_idx_def)
  then show ?thesis
    by (simp add: get_agent_id_def service_of_def service_index_def get_service_def scx_subs_def scx_bound_def scx_unbound_def
        scx_service_config_def elem_at_def)
qed





text \<open>
  C35. A notification of an operation on an element goes, through the module's \<open>scmi_notify\<close>, to the
  service of every agent that the map of subscriptions has for it, in the order of the agents and the
  platform left out; an operation nobody subscribed to notifies nobody and succeeds.
\<close>

theorem notification_reaches_map:
  assumes "notification_subscribers protocol_id s = Some k" and "subs_inv (scmi_notif_subscribers s ! k)"
    and "unat x < 32" and "element < ns_element_count (scmi_notif_subscribers s ! k)"
  shows "scmi_notification_notify env protocol_id x element response_id payload len s =
    map_option (Pair FWK_SUCCESS)
      (notify_map env (subs_map (scmi_notif_subscribers s ! k)) protocol_id (unat x) (unat element)
         (unat (ns_agent_count (scmi_notif_subscribers s ! k))) response_id payload len s)"
  by (rule notify_subscribers [OF assms(1) refl assms(2,3)]) (use assms(4) in \<open>simp add: word_less_nat_alt\<close>)

theorem notification_reaches_map_witness:
  "scmi_notification_notify scx_env 0x11 5 0 0 None 0 scx_subs =
    map_option (Pair FWK_SUCCESS) (notify_map scx_env (subs_map (scmi_notif_subscribers scx_subs ! 1)) 0x11 5 0 2 0 None 0 scx_subs)"
proof -
  have counts: "(0 :: 32 word) < ns_element_count (scmi_notif_subscribers scx_subs ! 1)" "ns_agent_count (scmi_notif_subscribers scx_subs ! 1) = 2"
    by (simp_all add: scx_subs_def)
  then show ?thesis
    using notification_reaches_map [OF scx_subs_entry scx_subs_inv _ counts(1), of 5 scx_env 0 None 0] counts(2) by simp
qed

section \<open>Commands and notifications to the other side\<close>

text \<open>
  C36. A command that a requester sends, and a notification that the module sends, go to the transport
  of the service with a header whose fields, read the way the receiving side reads them, are those of
  the call: the identifiers of message and protocol, the type, and the token, of which a sender
  chooses 8 bits.
\<close>

theorem sent_header_reads_back:
  assumes "fwk_id_type_is_valid i" and "i \<noteq> FWK_ID_NONE" and "service_of i s = Some svc" and "svc_transport_api svc = Some api"
    and "tr_transmit (scmi_transports env api) = Some f"
    and "svc_config svc = Some config" and "fwk_id_type_is_valid (cfg_scmi_p2a_id config)" and "cfg_scmi_p2a_id config \<noteq> FWK_ID_NONE"
    and "service_of (cfg_scmi_p2a_id config) s = Some p2a" and "svc_transmit p2a = Some api2" and "tr_transmit (scmi_transports env api2) = Some g"
  shows "\<exists>h h'. scmi_send_message env message protocol token i payload len ack s = call_world (f (svc_transport_id svc) h payload len ack) s \<and>
    read_message_id h = ucast message \<and> read_message_type h = MOD_SCMI_MESSAGE_TYPE_COMMAND \<and> read_protocol_id h = protocol \<and>
    read_token h = ucast token \<and>
    scmi_notify env i (ucast protocol) (ucast message) payload len s = map_option snd (call_world (g (svc_transport_id p2a) h' payload len False) s) \<and>
    read_message_id h' = ucast message \<and> read_message_type h' = MOD_SCMI_MESSAGE_TYPE_NOTIFICATION \<and> read_protocol_id h' = protocol \<and>
    read_token h' = 0"
proof (intro exI conjI)
  let ?h = "scmi_message_header message 0 protocol token"
  let ?h' = "scmi_message_header message MOD_SCMI_MESSAGE_TYPE_NOTIFICATION protocol 0"
  show "scmi_send_message env message protocol token i payload len ack s = call_world (f (svc_transport_id svc) ?h payload len ack) s"
    using assms(1-5) by (simp add: scmi_send_message_def fwk_id_is_equal_valid Let_def)
  have "ucast (ucast x :: 32 word) = x" for x :: "8 word" by (rule bit_word_eqI) (auto simp: bit_simps)
  then show "scmi_notify env i (ucast protocol) (ucast message) payload len s = map_option snd (call_world (g (svc_transport_id p2a) ?h' payload len False) s)"
    using assms(1-3,6-11) by (simp add: scmi_notify_def fwk_id_is_equal_valid Let_def split: bind_splits)
qed (simp_all add: read_header scmi_consts take_bit_eq_mod)

text \<open>The example with the channel of the service also as the one its notifications go to.\<close>

definition scx_p2a :: "nat smt_ctx scmi_ctx" where
  "scx_p2a = (scx_bound (scx_world True scx_message))\<lparr>service_ctx_table := [\<lparr>svc_config = Some (scx_service_config\<lparr>cfg_scmi_p2a_id := scx_tgt\<rparr>),
     svc_transport_id = scx_ch, svc_transport_api = Some 5, svc_respond = Some 5, svc_transmit = Some 5, scmi_token = 0, scmi_protocol_id = 0,
     scmi_message_id = 0, scmi_message_type = 0\<rparr>]\<rparr>"

theorem sent_header_reads_back_witness:
  "\<exists>h h'. scmi_send_message scx_env 4 0x11 200 scx_tgt (Some [1, 2]) 2 True scx_p2a =
      call_world (smt_transmit scx_smt0 scx_ch h (Some [1, 2]) 2 True) scx_p2a \<and>
    read_message_id h = ucast (4 :: 8 word) \<and> read_message_type h = MOD_SCMI_MESSAGE_TYPE_COMMAND \<and> read_protocol_id h = 0x11 \<and>
    read_token h = ucast (200 :: 8 word) \<and>
    scmi_notify scx_env scx_tgt (ucast (0x11 :: 8 word)) (ucast (4 :: 8 word)) (Some [1, 2]) 2 scx_p2a =
      map_option snd (call_world (smt_transmit scx_smt0 scx_ch h' (Some [1, 2]) 2 False) scx_p2a) \<and>
    read_message_id h' = ucast (4 :: 8 word) \<and> read_message_type h' = MOD_SCMI_MESSAGE_TYPE_NOTIFICATION \<and> read_protocol_id h' = 0x11 \<and>
    read_token h' = 0"
proof -
  have "fwk_id_get_element_idx scx_tgt = Some 0" by (simp add: scx_tgt_def fwk_id_get_element_idx_def)
  then have svc: "service_of scx_tgt scx_p2a = Some (hd (service_ctx_table scx_p2a))"
    by (simp add: service_of_def service_index_def get_service_def scx_p2a_def elem_at_def)
  have valid: "fwk_id_type_is_valid scx_tgt" "scx_tgt \<noteq> FWK_ID_NONE"
    by (simp_all add: scx_tgt_def) (simp add: FWK_ID_NONE_def id_defs)
  have fields: "svc_transport_api (hd (service_ctx_table scx_p2a)) = Some 5" "svc_transmit (hd (service_ctx_table scx_p2a)) = Some 5"
      "svc_config (hd (service_ctx_table scx_p2a)) = Some (scx_service_config\<lparr>cfg_scmi_p2a_id := scx_tgt\<rparr>)"
      "svc_transport_id (hd (service_ctx_table scx_p2a)) = scx_ch"
    by (simp_all add: scx_p2a_def)
  have api: "tr_transmit (scmi_transports scx_env 5) = Some (smt_transmit scx_smt0)"
    by (simp add: scx_env_def smt_mod_scmi_to_transport_api_def)
  have p2a: "fwk_id_type_is_valid (cfg_scmi_p2a_id (scx_service_config\<lparr>cfg_scmi_p2a_id := scx_tgt\<rparr>))"
      "cfg_scmi_p2a_id (scx_service_config\<lparr>cfg_scmi_p2a_id := scx_tgt\<rparr>) \<noteq> FWK_ID_NONE"
      "service_of (cfg_scmi_p2a_id (scx_service_config\<lparr>cfg_scmi_p2a_id := scx_tgt\<rparr>)) scx_p2a = Some (hd (service_ctx_table scx_p2a))"
    using valid svc by simp_all
  show ?thesis
    using sent_header_reads_back [OF valid svc fields(1) api fields(3) p2a fields(2) api, of 4 "0x11" 200 "Some [1, 2]" 2 True]
    unfolding fields(4) .
qed

end
