(* ===== verification/Mod_Res_Perms.thy ===== *)
theory Mod_Res_Perms
  imports Mod_Scmi_State
begin

text \<open>
  The permissions of agents in \<^verbatim>\<open>module/resource_perms/src/mod_resource_perms.c\<close>: bit tables by
  protocol, by message and by resource, where a set bit denies. This theory holds the data, the
  mapping of identifiers to places in the tables, the three questions, the requests that change a
  table, and the callbacks of the framework.
\<close>

section \<open>Protocols and their messages\<close>

named_theorems res_consts \<open>constants of the protocols\<close>

definition MOD_SCMI_PLATFORM_PROTOCOL_ID_MAX :: "32 word" where [res_consts]: "MOD_SCMI_PLATFORM_PROTOCOL_ID_MAX = 0xFF"
definition MOD_SCMI_PROTOCOL_ID_POWER_DOMAIN :: "32 word" where [res_consts]: "MOD_SCMI_PROTOCOL_ID_POWER_DOMAIN = 0x11"
definition MOD_SCMI_PROTOCOL_ID_SYS_POWER :: "32 word" where [res_consts]: "MOD_SCMI_PROTOCOL_ID_SYS_POWER = 0x12"
definition MOD_SCMI_PROTOCOL_ID_PERF :: "32 word" where [res_consts]: "MOD_SCMI_PROTOCOL_ID_PERF = 0x13"
definition MOD_SCMI_PROTOCOL_ID_CLOCK :: "32 word" where [res_consts]: "MOD_SCMI_PROTOCOL_ID_CLOCK = 0x14"
definition MOD_SCMI_PROTOCOL_ID_SENSOR :: "32 word" where [res_consts]: "MOD_SCMI_PROTOCOL_ID_SENSOR = 0x15"
definition MOD_SCMI_PROTOCOL_ID_RESET_DOMAIN :: "32 word" where [res_consts]: "MOD_SCMI_PROTOCOL_ID_RESET_DOMAIN = 0x16"
definition MOD_SCMI_PROTOCOL_ID_VOLTAGE_DOMAIN :: "32 word" where [res_consts]: "MOD_SCMI_PROTOCOL_ID_VOLTAGE_DOMAIN = 0x17"
definition MOD_SCMI_PROTOCOL_ID_POWER_CAPPING :: "32 word" where [res_consts]: "MOD_SCMI_PROTOCOL_ID_POWER_CAPPING = 0x18"
definition MOD_SCMI_PROTOCOL_ID_PIN_CONTROL :: "32 word" where [res_consts]: "MOD_SCMI_PROTOCOL_ID_PIN_CONTROL = 0x19"

definition MOD_SCMI_BASE_NOTIFY_ERRORS :: "32 word" where [res_consts]: "MOD_SCMI_BASE_NOTIFY_ERRORS = 8"
definition MOD_SCMI_BASE_COMMANDS :: "32 word" where [res_consts]: "MOD_SCMI_BASE_COMMANDS = 12"
definition MOD_SCMI_PD_POWER_DOMAIN_ATTRIBUTES :: "32 word" where [res_consts]: "MOD_SCMI_PD_POWER_DOMAIN_ATTRIBUTES = 3"
definition MOD_SCMI_PD_POWER_STATE_NOTIFY :: "32 word" where [res_consts]: "MOD_SCMI_PD_POWER_STATE_NOTIFY = 6"
definition MOD_SCMI_PD_POWER_COMMAND_COUNT :: "32 word" where [res_consts]: "MOD_SCMI_PD_POWER_COMMAND_COUNT = 8"
definition MOD_SCMI_SYS_POWER_STATE_SET :: "32 word" where [res_consts]: "MOD_SCMI_SYS_POWER_STATE_SET = 3"
definition MOD_SCMI_SYS_POWER_STATE_NOTIFY :: "32 word" where [res_consts]: "MOD_SCMI_SYS_POWER_STATE_NOTIFY = 5"
definition MOD_SCMI_SYS_POWER_COMMAND_COUNT :: "32 word" where [res_consts]: "MOD_SCMI_SYS_POWER_COMMAND_COUNT = 6"
definition MOD_SCMI_PERF_DOMAIN_ATTRIBUTES :: "32 word" where [res_consts]: "MOD_SCMI_PERF_DOMAIN_ATTRIBUTES = 3"
definition MOD_SCMI_PERF_DESCRIBE_FAST_CHANNEL :: "32 word" where [res_consts]: "MOD_SCMI_PERF_DESCRIBE_FAST_CHANNEL = 11"
definition MOD_SCMI_PERF_COMMAND_COUNT :: "32 word" where [res_consts]: "MOD_SCMI_PERF_COMMAND_COUNT = 12"
definition MOD_SCMI_CLOCK_ATTRIBUTES :: "32 word" where [res_consts]: "MOD_SCMI_CLOCK_ATTRIBUTES = 3"
definition MOD_SCMI_CLOCK_CONFIG_SET :: "32 word" where [res_consts]: "MOD_SCMI_CLOCK_CONFIG_SET = 7"
definition MOD_SCMI_CLOCK_COMMAND_COUNT :: "32 word" where [res_consts]: "MOD_SCMI_CLOCK_COMMAND_COUNT = 11"
definition MOD_SCMI_SENSOR_DESCRIPTION_GET :: "32 word" where [res_consts]: "MOD_SCMI_SENSOR_DESCRIPTION_GET = 3"
definition MOD_SCMI_SENSOR_READING_GET :: "32 word" where [res_consts]: "MOD_SCMI_SENSOR_READING_GET = 6"
definition MOD_SCMI_RESET_DOMAIN_ATTRIBUTES :: "32 word" where [res_consts]: "MOD_SCMI_RESET_DOMAIN_ATTRIBUTES = 3"
definition MOD_SCMI_RESET_NOTIFY :: "32 word" where [res_consts]: "MOD_SCMI_RESET_NOTIFY = 5"
definition MOD_SCMI_RESET_COMMAND_COUNT :: "32 word" where [res_consts]: "MOD_SCMI_RESET_COMMAND_COUNT = 6"
definition MOD_SCMI_VOLTD_DOMAIN_ATTRIBUTES :: "32 word" where [res_consts]: "MOD_SCMI_VOLTD_DOMAIN_ATTRIBUTES = 3"
definition MOD_SCMI_VOLTD_LEVEL_GET :: "32 word" where [res_consts]: "MOD_SCMI_VOLTD_LEVEL_GET = 8"
definition MOD_SCMI_VOLTD_COMMAND_COUNT :: "32 word" where [res_consts]: "MOD_SCMI_VOLTD_COMMAND_COUNT = 9"
definition MOD_SCMI_POWER_CAPPING_DOMAIN_ATTRIBUTES :: "32 word" where [res_consts]: "MOD_SCMI_POWER_CAPPING_DOMAIN_ATTRIBUTES = 3"
definition MOD_SCMI_POWER_CAPPING_DESCRIBE_FAST_CHANNEL :: "32 word" where [res_consts]: "MOD_SCMI_POWER_CAPPING_DESCRIBE_FAST_CHANNEL = 12"
definition MOD_SCMI_POWER_CAPPING_COMMAND_COUNT :: "32 word" where [res_consts]: "MOD_SCMI_POWER_CAPPING_COMMAND_COUNT = 13"

text \<open>The sensor protocol has one more message in builds with its second version.\<close>

record res_build =
  has_reset_domain :: bool
  has_sensor_v2 :: bool

definition MOD_SCMI_SENSOR_COMMAND_COUNT :: "res_build \<Rightarrow> 32 word" where
  "MOD_SCMI_SENSOR_COMMAND_COUNT bc = (if has_sensor_v2 bc then 8 else 7)"

section \<open>Data\<close>

datatype mod_res_domain_device_types =
    MOD_RES_POWER_DOMAIN_DEVICE | MOD_RES_PERF_DOMAIN_DEVICE | MOD_RES_CLOCK_DOMAIN_DEVICE | MOD_RES_SENSOR_DOMAIN_DEVICE
  | MOD_RES_RESET_DOMAIN_DEVICE | MOD_RES_VOLTAGE_DOMAIN_DEVICE | MOD_RES_POWER_CAPPING_DEVICE | MOD_RES_PLATFORM_DOMAIN_DEVICE
  | MOD_RES_DOMAIN_DEVICE_INVALID

record mod_res_domain_device =
  dd_device_id :: fwk_id
  dd_type :: mod_res_domain_device_types

record mod_res_device =
  rd_device_id :: "16 word"
  rd_domain_devices :: "mod_res_domain_device list"

record protocol_permissions_counters =
  counter_count :: "32 word"
  cmd_count :: "32 word"
  resource_count :: "32 word"

text \<open>
  The tables by resource, which the permissions and their backup both have: arrays of 16-bit
  words, a null pointer where there is no table.
\<close>

record res_perms_backup =
  scmi_pd_perms :: "16 word list option"
  scmi_perf_perms :: "16 word list option"
  scmi_clock_perms :: "16 word list option"
  scmi_sensor_perms :: "16 word list option"
  scmi_reset_domain_perms :: "16 word list option"
  scmi_voltd_perms :: "16 word list option"
  scmi_power_capping_perms :: "16 word list option"

record mod_res_agent_permission = res_perms_backup +
  protocol_perms :: "16 word list option"
  msg_perms :: "16 word list list option"

record mod_res_resource_perms_config =
  cfg_agent_count :: "32 word"
  cfg_protocol_count :: "32 word"
  clock_counters :: protocol_permissions_counters
  sensor_counters :: protocol_permissions_counters
  pd_counters :: protocol_permissions_counters
  perf_counters :: protocol_permissions_counters
  reset_domain_counters :: protocol_permissions_counters
  voltd_counters :: protocol_permissions_counters
  power_capping_counters :: protocol_permissions_counters
  cfg_device_count :: "32 word"
  cfg_agent_permissions :: "mod_res_agent_permission option"
  cfg_domain_devices :: "mod_res_device list option"

text \<open>
  The context of the module and its backup. The tables of \<open>agent_permissions\<close> are the arrays of the
  configuration: after the initialisation the module reads and writes them here, and of the
  configuration only the counters.
\<close>

record res_perms_ctx =
  rp_config :: "mod_res_resource_perms_config option"
  rp_agent_count :: "32 word"
  rp_protocol_count :: "32 word"
  clock_count :: "32 word"
  sensor_count :: "32 word"
  pd_count :: "32 word"
  perf_count :: "32 word"
  rp_device_count :: "32 word"
  reset_domain_count :: "32 word"
  voltd_count :: "32 word"
  power_capping_count :: "32 word"
  agent_permissions :: "mod_res_agent_permission option"
  domain_devices :: "mod_res_device list option"
  resources_perms_backup :: res_perms_backup

text \<open>The table of a kind of device, and storing into it.\<close>

fun perms_table :: "mod_res_domain_device_types \<Rightarrow> 'a res_perms_backup_scheme \<Rightarrow> 16 word list option" where
  "perms_table MOD_RES_POWER_DOMAIN_DEVICE t = scmi_pd_perms t"
| "perms_table MOD_RES_PERF_DOMAIN_DEVICE t = scmi_perf_perms t"
| "perms_table MOD_RES_CLOCK_DOMAIN_DEVICE t = scmi_clock_perms t"
| "perms_table MOD_RES_SENSOR_DOMAIN_DEVICE t = scmi_sensor_perms t"
| "perms_table MOD_RES_RESET_DOMAIN_DEVICE t = scmi_reset_domain_perms t"
| "perms_table MOD_RES_VOLTAGE_DOMAIN_DEVICE t = scmi_voltd_perms t"
| "perms_table MOD_RES_POWER_CAPPING_DEVICE t = scmi_power_capping_perms t"
| "perms_table MOD_RES_PLATFORM_DOMAIN_DEVICE t = None"
| "perms_table MOD_RES_DOMAIN_DEVICE_INVALID t = None"

fun put_table :: "mod_res_domain_device_types \<Rightarrow> 16 word list \<Rightarrow> 'a res_perms_backup_scheme \<Rightarrow> 'a res_perms_backup_scheme" where
  "put_table MOD_RES_POWER_DOMAIN_DEVICE p t = t\<lparr>scmi_pd_perms := Some p\<rparr>"
| "put_table MOD_RES_PERF_DOMAIN_DEVICE p t = t\<lparr>scmi_perf_perms := Some p\<rparr>"
| "put_table MOD_RES_CLOCK_DOMAIN_DEVICE p t = t\<lparr>scmi_clock_perms := Some p\<rparr>"
| "put_table MOD_RES_SENSOR_DOMAIN_DEVICE p t = t\<lparr>scmi_sensor_perms := Some p\<rparr>"
| "put_table MOD_RES_RESET_DOMAIN_DEVICE p t = t\<lparr>scmi_reset_domain_perms := Some p\<rparr>"
| "put_table MOD_RES_VOLTAGE_DOMAIN_DEVICE p t = t\<lparr>scmi_voltd_perms := Some p\<rparr>"
| "put_table MOD_RES_POWER_CAPPING_DEVICE p t = t\<lparr>scmi_power_capping_perms := Some p\<rparr>"
| "put_table MOD_RES_PLATFORM_DOMAIN_DEVICE p t = t"
| "put_table MOD_RES_DOMAIN_DEVICE_INVALID p t = t"

section \<open>Identifiers and places in the tables\<close>

text \<open>
  The functions a platform may define for its own protocols, in place of the weak definitions
  that refuse. \<open>None\<close> is FWK_E_PARAM.
\<close>

record res_platform =
  plat_protocol_id_to_index :: "32 word \<Rightarrow> 32 word option"
  plat_message_id_to_index :: "32 word \<Rightarrow> 32 word \<Rightarrow> int option"
  plat_resource_id_to_index :: "32 word \<Rightarrow> 32 word \<Rightarrow> 32 word \<Rightarrow> 32 word \<Rightarrow> int option"
  plat_agent_protocol_permissions :: "32 word \<Rightarrow> 32 word \<Rightarrow> 32 word"
  plat_agent_message_permissions :: "32 word \<Rightarrow> 32 word \<Rightarrow> 32 word \<Rightarrow> 32 word"
  plat_agent_resource_permissions :: "32 word \<Rightarrow> 32 word \<Rightarrow> 32 word \<Rightarrow> 32 word \<Rightarrow> 32 word"

definition weak_platform :: res_platform where
  "weak_platform =
     \<lparr>plat_protocol_id_to_index = (\<lambda>p. None),
      plat_message_id_to_index = (\<lambda>p m. None),
      plat_resource_id_to_index = (\<lambda>a p m r. None),
      plat_agent_protocol_permissions = (\<lambda>a p. MOD_RES_PERMS_ACCESS_DENIED),
      plat_agent_message_permissions = (\<lambda>a p m. MOD_RES_PERMS_ACCESS_DENIED),
      plat_agent_resource_permissions = (\<lambda>a p m r. MOD_RES_PERMS_ACCESS_DENIED)\<rparr>"

text \<open>The build, the platform, and what a word of memory holds that nobody has written.\<close>

record res_env =
  res_bc :: res_build
  res_plat :: res_platform
  res_module_idx :: "32 word"
  res_perms_api_addr :: nat
  stale_word :: "nat \<Rightarrow> 16 word"

definition platform_protocol :: "32 word \<Rightarrow> bool" where
  "platform_protocol protocol_id \<longleftrightarrow>
     ucast MOD_SCMI_PLATFORM_PROTOCOL_ID_MIN \<le> protocol_id \<and> protocol_id \<le> MOD_SCMI_PLATFORM_PROTOCOL_ID_MAX"

text \<open>A weak function too, of which this is the definition of the module; no platform in the repository has another.\<close>

definition mod_res_agent_id_to_index :: "res_perms_ctx \<Rightarrow> 32 word \<Rightarrow> 32 word option" where
  "mod_res_agent_id_to_index c agent_id =
     (let idx = agent_id - 1 in if idx < rp_agent_count c then Some idx else None)"

definition mod_res_protocol_id_to_index :: "res_env \<Rightarrow> 32 word \<Rightarrow> 32 word option" where
  "mod_res_protocol_id_to_index env protocol_id =
     (if platform_protocol protocol_id then plat_protocol_id_to_index (res_plat env) protocol_id
      else if protocol_id \<in> {ucast MOD_SCMI_PROTOCOL_ID_BASE, MOD_SCMI_PROTOCOL_ID_POWER_DOMAIN, MOD_SCMI_PROTOCOL_ID_SYS_POWER,
          MOD_SCMI_PROTOCOL_ID_PERF, MOD_SCMI_PROTOCOL_ID_CLOCK, MOD_SCMI_PROTOCOL_ID_SENSOR, MOD_SCMI_PROTOCOL_ID_RESET_DOMAIN,
          MOD_SCMI_PROTOCOL_ID_VOLTAGE_DOMAIN, MOD_SCMI_PROTOCOL_ID_POWER_CAPPING}
      then Some (protocol_id - ucast MOD_SCMI_PROTOCOL_ID_BASE)
      else None)"

text \<open>
  The place of a message: -1 for a message without permissions of its own. The arms of the protocols
  differ in the first and last message that has permissions and in the number of messages.
\<close>

definition message_place :: "32 word \<Rightarrow> 32 word \<Rightarrow> 32 word \<Rightarrow> 32 word \<Rightarrow> int option" where
  "message_place lo hi count message_id =
     (if lo \<le> message_id \<and> message_id \<le> hi then Some (sint (message_id - lo))
      else if message_id \<ge> count then None
      else Some (-1))"

definition mod_res_message_id_to_index :: "res_env \<Rightarrow> 32 word \<Rightarrow> 32 word \<Rightarrow> int option" where
  "mod_res_message_id_to_index env protocol_id message_id =
     (if platform_protocol protocol_id then plat_message_id_to_index (res_plat env) protocol_id message_id
      else if message_id < 3 then Some (-1)
      else if protocol_id = ucast MOD_SCMI_PROTOCOL_ID_BASE
      then if message_id \<ge> MOD_SCMI_BASE_COMMANDS then None
        else Some (if message_id = MOD_SCMI_BASE_NOTIFY_ERRORS then 0 else -1)
      else if protocol_id = MOD_SCMI_PROTOCOL_ID_POWER_DOMAIN
      then if message_id \<ge> MOD_SCMI_PD_POWER_COMMAND_COUNT then None
        else message_place MOD_SCMI_PD_POWER_DOMAIN_ATTRIBUTES MOD_SCMI_PD_POWER_STATE_NOTIFY MOD_SCMI_PD_POWER_COMMAND_COUNT message_id
      else if protocol_id = MOD_SCMI_PROTOCOL_ID_SYS_POWER
      then message_place MOD_SCMI_SYS_POWER_STATE_SET MOD_SCMI_SYS_POWER_STATE_NOTIFY MOD_SCMI_SYS_POWER_COMMAND_COUNT message_id
      else if protocol_id = MOD_SCMI_PROTOCOL_ID_PERF
      then message_place MOD_SCMI_PERF_DOMAIN_ATTRIBUTES MOD_SCMI_PERF_DESCRIBE_FAST_CHANNEL MOD_SCMI_PERF_COMMAND_COUNT message_id
      else if protocol_id = MOD_SCMI_PROTOCOL_ID_CLOCK
      then message_place MOD_SCMI_CLOCK_ATTRIBUTES MOD_SCMI_CLOCK_CONFIG_SET MOD_SCMI_CLOCK_COMMAND_COUNT message_id
      else if protocol_id = MOD_SCMI_PROTOCOL_ID_SENSOR
      then message_place MOD_SCMI_SENSOR_DESCRIPTION_GET MOD_SCMI_SENSOR_READING_GET (MOD_SCMI_SENSOR_COMMAND_COUNT (res_bc env)) message_id
      else if protocol_id = MOD_SCMI_PROTOCOL_ID_RESET_DOMAIN
      then message_place MOD_SCMI_RESET_DOMAIN_ATTRIBUTES MOD_SCMI_RESET_NOTIFY MOD_SCMI_RESET_COMMAND_COUNT message_id
      else if protocol_id = MOD_SCMI_PROTOCOL_ID_VOLTAGE_DOMAIN
      then message_place MOD_SCMI_VOLTD_DOMAIN_ATTRIBUTES MOD_SCMI_VOLTD_LEVEL_GET MOD_SCMI_VOLTD_COMMAND_COUNT message_id
      else if protocol_id = MOD_SCMI_PROTOCOL_ID_POWER_CAPPING
      then message_place MOD_SCMI_POWER_CAPPING_DOMAIN_ATTRIBUTES (MOD_SCMI_POWER_CAPPING_COMMAND_COUNT - 1) MOD_SCMI_POWER_CAPPING_COMMAND_COUNT message_id
      else None)"

text \<open>
  The place of a resource. \<open>res_slot\<close> gives the number of messages with permissions, the place of
  the message among them and the number of resources; then the place is counted in table elements of
  16 resources, by agent, message and resource.
\<close>

definition MOD_RES_PERMS_RESOURCE_ELEMENT :: "32 word \<Rightarrow> 32 word" where
  "MOD_RES_PERMS_RESOURCE_ELEMENT resource_id = drop_bit 4 resource_id"

definition MOD_RES_PERMS_RESOURCE_BIT :: "32 word \<Rightarrow> nat" where
  "MOD_RES_PERMS_RESOURCE_BIT resource_id = unat (resource_id AND 0xF)"

definition slot_of :: "32 word \<Rightarrow> 32 word \<Rightarrow> 32 word \<Rightarrow> 32 word \<Rightarrow> (32 word \<times> 32 word \<times> 32 word) option" where
  "slot_of lo hi count message_id =
     (if lo \<le> message_id \<and> message_id \<le> hi then Some (hi - lo + 1, message_id - lo, count) else None)"

definition res_slot :: "res_env \<Rightarrow> res_perms_ctx \<Rightarrow> 32 word \<Rightarrow> 32 word \<Rightarrow> (32 word \<times> 32 word \<times> 32 word) option" where
  "res_slot env c protocol_id message_id =
     (if protocol_id = ucast MOD_SCMI_PROTOCOL_ID_BASE \<or> protocol_id = MOD_SCMI_PROTOCOL_ID_SYS_POWER then None
      else if protocol_id = MOD_SCMI_PROTOCOL_ID_POWER_DOMAIN
      then slot_of MOD_SCMI_PD_POWER_DOMAIN_ATTRIBUTES MOD_SCMI_PD_POWER_STATE_NOTIFY (pd_count c) message_id
      else if protocol_id = MOD_SCMI_PROTOCOL_ID_PERF
      then slot_of MOD_SCMI_PERF_DOMAIN_ATTRIBUTES MOD_SCMI_PERF_DESCRIBE_FAST_CHANNEL (perf_count c) message_id
      else if protocol_id = MOD_SCMI_PROTOCOL_ID_CLOCK
      then slot_of MOD_SCMI_CLOCK_ATTRIBUTES MOD_SCMI_CLOCK_CONFIG_SET (clock_count c) message_id
      else if protocol_id = MOD_SCMI_PROTOCOL_ID_SENSOR
      then slot_of MOD_SCMI_SENSOR_DESCRIPTION_GET MOD_SCMI_SENSOR_READING_GET (sensor_count c) message_id
      else if protocol_id = MOD_SCMI_PROTOCOL_ID_RESET_DOMAIN \<and> has_reset_domain (res_bc env)
      then slot_of MOD_SCMI_RESET_DOMAIN_ATTRIBUTES MOD_SCMI_RESET_NOTIFY (reset_domain_count c) message_id
      else if protocol_id = MOD_SCMI_PROTOCOL_ID_VOLTAGE_DOMAIN
      then slot_of MOD_SCMI_VOLTD_DOMAIN_ATTRIBUTES MOD_SCMI_VOLTD_LEVEL_GET (voltd_count c) message_id
      else if protocol_id = MOD_SCMI_PROTOCOL_ID_POWER_CAPPING
      then slot_of MOD_SCMI_POWER_CAPPING_DOMAIN_ATTRIBUTES (MOD_SCMI_POWER_CAPPING_COMMAND_COUNT - 1) (power_capping_count c) message_id
      else None)"

definition mod_res_resource_id_to_index :: "res_env \<Rightarrow> res_perms_ctx \<Rightarrow> 32 word \<Rightarrow> 32 word \<Rightarrow> 32 word \<Rightarrow> 32 word \<Rightarrow> int option" where
  "mod_res_resource_id_to_index env c agent_id protocol_id message_id resource_id =
     (if platform_protocol protocol_id then plat_resource_id_to_index (res_plat env) agent_id protocol_id message_id resource_id
      else if message_id < 3 then Some (-1)
      else do {
        (message_count, message_offset, count) \<leftarrow> res_slot env c protocol_id message_id;
        agent_idx \<leftarrow> mod_res_agent_id_to_index c agent_id;
        if agent_idx \<ge> rp_agent_count c then None
        else do {
          let resource_size = MOD_RES_PERMS_RESOURCE_ELEMENT count + 1;
          Some (sint (agent_idx * message_count * resource_size + message_offset * resource_size +
            MOD_RES_PERMS_RESOURCE_ELEMENT resource_id))
        }
      })"

section \<open>The permissions of an agent\<close>

text \<open>A permission is the value of \<^verbatim>\<open>enum mod_res_perms_permissions\<close>.\<close>

definition denied_if :: "bool \<Rightarrow> 32 word" where
  "denied_if d = (if d then MOD_RES_PERMS_ACCESS_DENIED else MOD_RES_PERMS_ACCESS_ALLOWED)"

definition agent_protocol_permissions :: "res_env \<Rightarrow> res_perms_ctx \<Rightarrow> 32 word \<Rightarrow> 32 word \<Rightarrow> 32 word option" where
  "agent_protocol_permissions env c agent_id protocol_id =
     (if protocol_id = MOD_SCMI_PROTOCOL_ID_PIN_CONTROL then Some MOD_RES_PERMS_ACCESS_ALLOWED
      else case (if agent_id = 0 then None else do { ap \<leftarrow> agent_permissions c; protocol_perms ap }) of
        None \<Rightarrow> Some MOD_RES_PERMS_ACCESS_ALLOWED
      | Some table \<Rightarrow>
          if platform_protocol protocol_id then Some (plat_agent_protocol_permissions (res_plat env) agent_id protocol_id)
          else case mod_res_agent_id_to_index c agent_id of
            None \<Rightarrow> Some MOD_RES_PERMS_ACCESS_DENIED
          | Some agent_idx \<Rightarrow>
              if agent_idx \<ge> rp_agent_count c then Some MOD_RES_PERMS_ACCESS_DENIED
              else case mod_res_protocol_id_to_index env protocol_id of
                None \<Rightarrow> Some MOD_RES_PERMS_ACCESS_DENIED
              | Some protocol_idx \<Rightarrow>
                  if protocol_idx \<ge> rp_protocol_count c then Some MOD_RES_PERMS_ACCESS_DENIED
                  else do {
                    perms \<leftarrow> elem_at table (unat agent_idx);
                    Some (denied_if (bit perms (unat protocol_idx)))
                  })"

definition agent_message_permissions :: "res_env \<Rightarrow> res_perms_ctx \<Rightarrow> 32 word \<Rightarrow> 32 word \<Rightarrow> 32 word \<Rightarrow> 32 word option" where
  "agent_message_permissions env c agent_id protocol_id message_id =
     (case (if agent_id = 0 then None else agent_permissions c) of
        None \<Rightarrow> Some MOD_RES_PERMS_ACCESS_ALLOWED
      | Some ap \<Rightarrow>
          if platform_protocol protocol_id then Some (plat_agent_message_permissions (res_plat env) agent_id protocol_id message_id)
          else do {
            perms \<leftarrow> agent_protocol_permissions env c agent_id protocol_id;
            if perms = MOD_RES_PERMS_ACCESS_DENIED then Some MOD_RES_PERMS_ACCESS_DENIED
            else case msg_perms ap of
              None \<Rightarrow> Some MOD_RES_PERMS_ACCESS_ALLOWED
            | Some table \<Rightarrow>
                (case mod_res_message_id_to_index env protocol_id message_id of
                   None \<Rightarrow> Some MOD_RES_PERMS_ACCESS_DENIED
                 | Some message_idx \<Rightarrow>
                     if message_idx < 0 then Some MOD_RES_PERMS_ACCESS_ALLOWED
                     else case mod_res_agent_id_to_index c agent_id of
                       None \<Rightarrow> Some MOD_RES_PERMS_ACCESS_DENIED
                     | Some agent_idx \<Rightarrow>
                         (case mod_res_protocol_id_to_index env protocol_id of
                            None \<Rightarrow> Some MOD_RES_PERMS_ACCESS_DENIED
                          | Some protocol_idx \<Rightarrow> do {
                              messages \<leftarrow> elem_at table (unat agent_idx);
                              perms \<leftarrow> elem_at messages (unat protocol_idx);
                              Some (denied_if (bit perms (nat message_idx)))
                            }))
          })"

text \<open>
  The arms of the switch over the protocols: the table by resource and the number of resources,
  \<open>None\<close> for the protocols that have no such permissions.
\<close>

definition device_of_protocol :: "res_env \<Rightarrow> 32 word \<Rightarrow> mod_res_domain_device_types option" where
  "device_of_protocol env protocol_id =
     (if protocol_id = MOD_SCMI_PROTOCOL_ID_POWER_DOMAIN then Some MOD_RES_POWER_DOMAIN_DEVICE
      else if protocol_id = MOD_SCMI_PROTOCOL_ID_PERF then Some MOD_RES_PERF_DOMAIN_DEVICE
      else if protocol_id = MOD_SCMI_PROTOCOL_ID_CLOCK then Some MOD_RES_CLOCK_DOMAIN_DEVICE
      else if protocol_id = MOD_SCMI_PROTOCOL_ID_SENSOR then Some MOD_RES_SENSOR_DOMAIN_DEVICE
      else if protocol_id = MOD_SCMI_PROTOCOL_ID_RESET_DOMAIN \<and> has_reset_domain (res_bc env) then Some MOD_RES_RESET_DOMAIN_DEVICE
      else if protocol_id = MOD_SCMI_PROTOCOL_ID_VOLTAGE_DOMAIN then Some MOD_RES_VOLTAGE_DOMAIN_DEVICE
      else if protocol_id = MOD_SCMI_PROTOCOL_ID_POWER_CAPPING then Some MOD_RES_POWER_CAPPING_DEVICE
      else None)"

fun resources_of :: "mod_res_domain_device_types \<Rightarrow> res_perms_ctx \<Rightarrow> 32 word" where
  "resources_of MOD_RES_POWER_DOMAIN_DEVICE c = pd_count c"
| "resources_of MOD_RES_PERF_DOMAIN_DEVICE c = perf_count c"
| "resources_of MOD_RES_CLOCK_DOMAIN_DEVICE c = clock_count c"
| "resources_of MOD_RES_SENSOR_DOMAIN_DEVICE c = sensor_count c"
| "resources_of MOD_RES_RESET_DOMAIN_DEVICE c = reset_domain_count c"
| "resources_of MOD_RES_VOLTAGE_DOMAIN_DEVICE c = voltd_count c"
| "resources_of MOD_RES_POWER_CAPPING_DEVICE c = power_capping_count c"
| "resources_of MOD_RES_PLATFORM_DOMAIN_DEVICE c = 0"
| "resources_of MOD_RES_DOMAIN_DEVICE_INVALID c = 0"

definition agent_resource_permissions :: "res_env \<Rightarrow> res_perms_ctx \<Rightarrow> 32 word \<Rightarrow> 32 word \<Rightarrow> 32 word \<Rightarrow> 32 word \<Rightarrow> 32 word option" where
  "agent_resource_permissions env c agent_id protocol_id message_id resource_id =
     (case (if agent_id = 0 then None else agent_permissions c) of
        None \<Rightarrow> Some MOD_RES_PERMS_ACCESS_ALLOWED
      | Some ap \<Rightarrow>
          if platform_protocol protocol_id
          then Some (plat_agent_resource_permissions (res_plat env) agent_id protocol_id message_id resource_id)
          else do {
            perms \<leftarrow> agent_message_permissions env c agent_id protocol_id message_id;
            if perms = MOD_RES_PERMS_ACCESS_DENIED then Some MOD_RES_PERMS_ACCESS_DENIED
            else case mod_res_message_id_to_index env protocol_id message_id of
              None \<Rightarrow> Some MOD_RES_PERMS_ACCESS_DENIED
            | Some message_idx \<Rightarrow>
                if message_idx < 0 then Some MOD_RES_PERMS_ACCESS_ALLOWED
                else case mod_res_agent_id_to_index c agent_id of
                  None \<Rightarrow> Some MOD_RES_PERMS_ACCESS_DENIED
                | Some agent_idx \<Rightarrow>
                    (case mod_res_resource_id_to_index env c agent_id protocol_id message_id resource_id of
                       None \<Rightarrow> Some MOD_RES_PERMS_ACCESS_DENIED
                     | Some resource_idx \<Rightarrow>
                         if resource_idx < 0 then Some MOD_RES_PERMS_ACCESS_ALLOWED
                         else case device_of_protocol env protocol_id of
                           None \<Rightarrow> Some MOD_RES_PERMS_ACCESS_DENIED
                         | Some d \<Rightarrow>
                             (case perms_table d ap of
                                None \<Rightarrow> Some MOD_RES_PERMS_ACCESS_ALLOWED
                              | Some table \<Rightarrow>
                                  if resource_id \<ge> resources_of d c then Some MOD_RES_PERMS_ACCESS_DENIED
                                  else do {
                                    perms \<leftarrow> elem_at table (nat resource_idx);
                                    Some (denied_if (bit perms (MOD_RES_PERMS_RESOURCE_BIT resource_id)))
                                  }))
          })"

section \<open>Changing permissions\<close>

text \<open>
  \<open>pp_device\<close> stands for the two pointers \<^verbatim>\<open>resource_permission\<close> and \<^verbatim>\<open>resource_permission_backup\<close>, which
  point to the two tables of one kind of device.
\<close>

record agent_resource_permissions_params =
  pp_agent_id :: "32 word"
  pp_resource_id :: "32 word"
  pp_protocol_id :: "32 word"
  pp_flags :: "32 word"
  start_message_idx :: "32 word"
  end_message_idx :: "32 word"
  pp_device :: mod_res_domain_device_types
  pp_counters :: protocol_permissions_counters

definition set_agent_resource_message_perms ::
  "res_env \<Rightarrow> res_perms_ctx \<Rightarrow> 32 word \<Rightarrow> 32 word \<Rightarrow> 32 word \<Rightarrow> 32 word \<Rightarrow> 16 word list \<Rightarrow> 32 word \<Rightarrow> (int \<times> 16 word list) option" where
  "set_agent_resource_message_perms env c agent_id protocol_id message_idx resource_id perms flags =
     (case mod_res_resource_id_to_index env c agent_id protocol_id message_idx resource_id of
        None \<Rightarrow> Some (FWK_E_PARAM, perms)
      | Some resource_idx \<Rightarrow> do {
          permissions \<leftarrow> (if resource_idx < 0 then None else elem_at perms (nat resource_idx));
          let flags = (if flags = 0 then MOD_RES_PERMS_ACCESS_DENIED else MOD_RES_PERMS_ACCESS_ALLOWED);
          let b = MOD_RES_PERMS_RESOURCE_BIT resource_id;
          let permissions = (if flags = MOD_RES_PERMS_ACCESS_ALLOWED then permissions AND NOT (push_bit b 1) else permissions OR push_bit b 1);
          Some (FWK_SUCCESS, perms[nat resource_idx := permissions])
        })"

text \<open>The number of 16-bit words of a table that the counters of a protocol stand for.\<close>

definition perms_words :: "res_perms_ctx \<Rightarrow> protocol_permissions_counters \<Rightarrow> nat" where
  "perms_words c k = unat (rp_agent_count c * cmd_count k * resource_count k * 2) div 2"

definition backup_resource_permission :: "res_perms_ctx \<Rightarrow> 16 word list \<Rightarrow> 16 word list \<Rightarrow> protocol_permissions_counters \<Rightarrow> 16 word list option" where
  "backup_resource_permission c perms backup k =
     (let n = perms_words c k in
      if n \<le> length perms \<and> n \<le> length backup then Some (take n perms @ drop n backup) else None)"

fun set_messages ::
  "res_env \<Rightarrow> res_perms_ctx \<Rightarrow> agent_resource_permissions_params \<Rightarrow> nat list \<Rightarrow> 16 word list \<Rightarrow> (int \<times> 16 word list) option" where
  "set_messages env c pp [] perms = Some (FWK_SUCCESS, perms)"
| "set_messages env c pp (m # ms) perms =
     do {
       (status, perms) \<leftarrow> set_agent_resource_message_perms env c (pp_agent_id pp) (pp_protocol_id pp) (of_nat m) (pp_resource_id pp) perms (pp_flags pp);
       if status \<noteq> FWK_SUCCESS then Some (status, perms) else set_messages env c pp ms perms
     }"

definition set_agent_resource_permissions :: "res_env \<Rightarrow> agent_resource_permissions_params \<Rightarrow> res_perms_ctx \<Rightarrow> (int \<times> res_perms_ctx) option" where
  "set_agent_resource_permissions env pp c =
     do {
       ap \<leftarrow> agent_permissions c;
       case perms_table (pp_device pp) ap of
         None \<Rightarrow> Some (FWK_SUCCESS, c)
       | Some perms \<Rightarrow>
           if pp_resource_id pp \<ge> counter_count (pp_counters pp) then Some (FWK_E_ACCESS, c)
           else do {
             c \<leftarrow> (case perms_table (pp_device pp) (resources_perms_backup c) of
                      None \<Rightarrow> Some c
                    | Some backup \<Rightarrow> do {
                        backup \<leftarrow> backup_resource_permission c perms backup (pp_counters pp);
                        Some (c\<lparr>resources_perms_backup := put_table (pp_device pp) backup (resources_perms_backup c)\<rparr>)
                      });
             (status, perms) \<leftarrow> set_messages env c pp [unat (start_message_idx pp)..<Suc (unat (end_message_idx pp))] perms;
             Some (status, c\<lparr>agent_permissions := Some (put_table (pp_device pp) perms ap)\<rparr>)
           }
     }"

text \<open>
  The parameters of a kind of device. Each arm of the switch assigns the whole structure from a
  compound literal, which leaves the agent, the resource and the flags zero: the values assigned to
  them before the switch are lost.
\<close>

definition device_params :: "32 word \<Rightarrow> mod_res_domain_device_types \<Rightarrow> 32 word \<Rightarrow> 32 word \<Rightarrow> protocol_permissions_counters \<Rightarrow> agent_resource_permissions_params" where
  "device_params protocol_id d lo hi k =
     \<lparr>pp_agent_id = 0, pp_resource_id = 0, pp_protocol_id = protocol_id, pp_flags = 0, start_message_idx = lo, end_message_idx = hi,
      pp_device = d, pp_counters = k\<rparr>"

definition set_device_permissions ::
  "res_env \<Rightarrow> 32 word \<Rightarrow> mod_res_domain_device_types \<Rightarrow> 32 word \<Rightarrow> 32 word \<Rightarrow> (mod_res_resource_perms_config \<Rightarrow> protocol_permissions_counters) \<Rightarrow>
   res_perms_ctx \<Rightarrow> (int \<times> res_perms_ctx) option" where
  "set_device_permissions env protocol_id d lo hi counters c =
     do { config \<leftarrow> rp_config c; set_agent_resource_permissions env (device_params protocol_id d lo hi (counters config)) c }"

definition mod_res_agent_set_permissions ::
  "res_env \<Rightarrow> mod_res_domain_device_types \<Rightarrow> 32 word \<Rightarrow> 32 word \<Rightarrow> 32 word \<Rightarrow> res_perms_ctx \<Rightarrow> (int \<times> res_perms_ctx) option" where
  "mod_res_agent_set_permissions env d agent_id resource_id flags c =
     (case d of
        MOD_RES_POWER_DOMAIN_DEVICE \<Rightarrow> set_device_permissions env MOD_SCMI_PROTOCOL_ID_POWER_DOMAIN d
          MOD_SCMI_PD_POWER_DOMAIN_ATTRIBUTES MOD_SCMI_PD_POWER_STATE_NOTIFY pd_counters c
      | MOD_RES_PERF_DOMAIN_DEVICE \<Rightarrow> set_device_permissions env MOD_SCMI_PROTOCOL_ID_PERF d
          MOD_SCMI_PERF_DOMAIN_ATTRIBUTES MOD_SCMI_PERF_DESCRIBE_FAST_CHANNEL perf_counters c
      | MOD_RES_CLOCK_DOMAIN_DEVICE \<Rightarrow> set_device_permissions env MOD_SCMI_PROTOCOL_ID_CLOCK d
          MOD_SCMI_CLOCK_ATTRIBUTES MOD_SCMI_CLOCK_CONFIG_SET clock_counters c
      | MOD_RES_SENSOR_DOMAIN_DEVICE \<Rightarrow> set_device_permissions env MOD_SCMI_PROTOCOL_ID_SENSOR d
          MOD_SCMI_SENSOR_DESCRIPTION_GET MOD_SCMI_SENSOR_READING_GET sensor_counters c
      | MOD_RES_RESET_DOMAIN_DEVICE \<Rightarrow>
          if has_reset_domain (res_bc env)
          then set_device_permissions env MOD_SCMI_PROTOCOL_ID_RESET_DOMAIN d
            MOD_SCMI_RESET_DOMAIN_ATTRIBUTES MOD_SCMI_RESET_NOTIFY reset_domain_counters c
          else Some (FWK_E_ACCESS, c)
      | MOD_RES_VOLTAGE_DOMAIN_DEVICE \<Rightarrow> set_device_permissions env MOD_SCMI_PROTOCOL_ID_VOLTAGE_DOMAIN d
          MOD_SCMI_VOLTD_DOMAIN_ATTRIBUTES MOD_SCMI_VOLTD_LEVEL_GET voltd_counters c
      | MOD_RES_POWER_CAPPING_DEVICE \<Rightarrow> set_device_permissions env MOD_SCMI_PROTOCOL_ID_POWER_CAPPING d
          MOD_SCMI_POWER_CAPPING_DOMAIN_ATTRIBUTES MOD_SCMI_POWER_CAPPING_DESCRIBE_FAST_CHANNEL power_capping_counters c
      | _ \<Rightarrow> Some (FWK_E_ACCESS, c))"

text \<open>The search for a device among the first \<open>n\<close> of the list; the list of its parts ends at an invalid type.\<close>

fun find_device :: "nat \<Rightarrow> mod_res_device list \<Rightarrow> 32 word \<Rightarrow> mod_res_device option option" where
  "find_device 0 ds device_id = Some None"
| "find_device (Suc n) [] device_id = None"
| "find_device (Suc n) (d # ds) device_id = (if ucast (rd_device_id d) = device_id then Some (Some d) else find_device n ds device_id)"

text \<open>\<open>only\<close> is the type of device that a request for one protocol is about; the others are passed over.\<close>

fun set_parts ::
  "res_env \<Rightarrow> mod_res_domain_device_types option \<Rightarrow> 32 word \<Rightarrow> 32 word \<Rightarrow> mod_res_domain_device list \<Rightarrow> res_perms_ctx \<Rightarrow> (int \<times> res_perms_ctx) option" where
  "set_parts env only agent_id flags [] c = None"
| "set_parts env only agent_id flags (dev # devs) c =
     (if dd_type dev = MOD_RES_DOMAIN_DEVICE_INVALID then Some (FWK_SUCCESS, c)
      else do {
        none \<leftarrow> fwk_id_is_equal (dd_device_id dev) FWK_ID_NONE;
        if none then Some (FWK_SUCCESS, c)
        else if (case only of None \<Rightarrow> False | Some d \<Rightarrow> dd_type dev \<noteq> d) then set_parts env only agent_id flags devs c
        else do {
          resource_id \<leftarrow> fwk_id_get_element_idx (dd_device_id dev);
          (status, c) \<leftarrow> mod_res_agent_set_permissions env (dd_type dev) agent_id resource_id flags c;
          set_parts env only agent_id flags devs c
        }
      })"

text \<open>
  The common start of the two requests: \<open>Inl\<close> is the status they return early with, \<open>Inr\<close> the parts
  of the device.
\<close>

definition device_request :: "32 word \<Rightarrow> 32 word \<Rightarrow> res_perms_ctx \<Rightarrow> (int + mod_res_domain_device list) option" where
  "device_request device_id flags c =
     (if rp_device_count c = 0 then Some (Inl FWK_E_ACCESS)
      else case domain_devices c of
        None \<Rightarrow> Some (Inl FWK_E_ACCESS)
      | Some ds \<Rightarrow>
          if device_id \<ge> rp_device_count c then Some (Inl FWK_E_PARAM)
          else if flags \<noteq> 0 \<and> flags \<noteq> 1 then Some (Inl FWK_E_PARAM)
          else do {
            found \<leftarrow> find_device (unat (rp_device_count c)) ds device_id;
            Some (case found of None \<Rightarrow> Inl FWK_E_ACCESS | Some d \<Rightarrow> Inr (rd_domain_devices d))
          })"

definition mod_res_agent_set_device_permission :: "res_env \<Rightarrow> 32 word \<Rightarrow> 32 word \<Rightarrow> 32 word \<Rightarrow> res_perms_ctx \<Rightarrow> (int \<times> res_perms_ctx) option" where
  "mod_res_agent_set_device_permission env agent_id device_id flags c =
     do {
       r \<leftarrow> device_request device_id flags c;
       (case r of Inl status \<Rightarrow> Some (status, c) | Inr devs \<Rightarrow> set_parts env None agent_id flags devs c)
     }"

definition protocol_device_type :: "32 word \<Rightarrow> mod_res_domain_device_types option" where
  "protocol_device_type protocol_id =
     (if protocol_id = MOD_SCMI_PROTOCOL_ID_POWER_DOMAIN then Some MOD_RES_POWER_DOMAIN_DEVICE
      else if protocol_id = MOD_SCMI_PROTOCOL_ID_PERF then Some MOD_RES_PERF_DOMAIN_DEVICE
      else if protocol_id = MOD_SCMI_PROTOCOL_ID_CLOCK then Some MOD_RES_CLOCK_DOMAIN_DEVICE
      else if protocol_id = MOD_SCMI_PROTOCOL_ID_SENSOR then Some MOD_RES_SENSOR_DOMAIN_DEVICE
      else if protocol_id = MOD_SCMI_PROTOCOL_ID_RESET_DOMAIN then Some MOD_RES_RESET_DOMAIN_DEVICE
      else if protocol_id = MOD_SCMI_PROTOCOL_ID_VOLTAGE_DOMAIN then Some MOD_RES_VOLTAGE_DOMAIN_DEVICE
      else None)"

definition mod_res_agent_set_device_protocol_permission :: "res_env \<Rightarrow> 32 word \<Rightarrow> 32 word \<Rightarrow> 32 word \<Rightarrow> 32 word \<Rightarrow> res_perms_ctx \<Rightarrow> (int \<times> res_perms_ctx) option" where
  "mod_res_agent_set_device_protocol_permission env agent_id device_id protocol_id flags c =
     do {
       r \<leftarrow> device_request device_id flags c;
       (case r of
          Inl status \<Rightarrow> Some (status, c)
        | Inr devs \<Rightarrow>
            (case protocol_device_type protocol_id of
               None \<Rightarrow> Some (FWK_E_ACCESS, c)
             | Some d \<Rightarrow> set_parts env (Some d) agent_id flags devs c))
     }"

section \<open>Resetting permissions\<close>

text \<open>
  The loops over the messages and resources of a protocol, which copy the words of the backup one by
  one; \<open>None\<close> for a place past either table.
\<close>

fun copy_resources ::
  "res_env \<Rightarrow> res_perms_ctx \<Rightarrow> 32 word \<Rightarrow> 32 word \<Rightarrow> (nat \<times> nat) list \<Rightarrow> 16 word list \<Rightarrow> 16 word list option \<Rightarrow> 16 word list option option" where
  "copy_resources env c agent_id protocol_id [] backup table = Some table"
| "copy_resources env c agent_id protocol_id ((i, j) # ps) backup table =
     (case mod_res_resource_id_to_index env c agent_id protocol_id (of_nat i) (of_nat j) of
        None \<Rightarrow> copy_resources env c agent_id protocol_id ps backup table
      | Some resource_idx \<Rightarrow>
          if resource_idx < 0 then copy_resources env c agent_id protocol_id ps backup table
          else do {
            b \<leftarrow> elem_at backup (nat resource_idx);
            perms \<leftarrow> table;
            old \<leftarrow> elem_at perms (nat resource_idx);
            copy_resources env c agent_id protocol_id ps backup (Some (perms[nat resource_idx := b]))
          })"

text \<open>The counters that \<^verbatim>\<open>mod_res_agent_copy_config\<close> takes for a protocol; it does nothing for the others.\<close>

definition copy_range :: "res_env \<Rightarrow> mod_res_resource_perms_config \<Rightarrow> 32 word \<Rightarrow> (32 word \<times> 32 word) option" where
  "copy_range env config protocol_id =
     (if protocol_id = MOD_SCMI_PROTOCOL_ID_POWER_DOMAIN then Some (MOD_SCMI_PD_POWER_COMMAND_COUNT, resource_count (pd_counters config))
      else if protocol_id = MOD_SCMI_PROTOCOL_ID_PERF then Some (MOD_SCMI_PERF_COMMAND_COUNT, resource_count (perf_counters config))
      else if protocol_id = MOD_SCMI_PROTOCOL_ID_CLOCK then Some (MOD_SCMI_CLOCK_COMMAND_COUNT, resource_count (clock_counters config))
      else if protocol_id = MOD_SCMI_PROTOCOL_ID_SENSOR then Some (MOD_SCMI_SENSOR_COMMAND_COUNT (res_bc env), resource_count (sensor_counters config))
      else if protocol_id = MOD_SCMI_PROTOCOL_ID_RESET_DOMAIN \<and> has_reset_domain (res_bc env)
      then Some (MOD_SCMI_RESET_COMMAND_COUNT, resource_count (reset_domain_counters config))
      else if protocol_id = MOD_SCMI_PROTOCOL_ID_VOLTAGE_DOMAIN then Some (MOD_SCMI_VOLTD_COMMAND_COUNT, resource_count (voltd_counters config))
      else None)"

definition mod_res_agent_copy_config ::
  "res_env \<Rightarrow> 32 word \<Rightarrow> mod_res_domain_device_types \<Rightarrow> 32 word \<Rightarrow> res_perms_ctx \<Rightarrow> res_perms_ctx option" where
  "mod_res_agent_copy_config env agent_id d protocol_id c =
     (case perms_table d (resources_perms_backup c) of
        None \<Rightarrow> Some c
      | Some backup \<Rightarrow> do {
          ap \<leftarrow> agent_permissions c;
          config \<leftarrow> rp_config c;
          (case copy_range env config protocol_id of
             None \<Rightarrow> Some c
           | Some (commands, resources) \<Rightarrow>
               do {
                 table \<leftarrow> copy_resources env c agent_id protocol_id (List.product [3..<unat commands] [0..<unat resources]) backup (perms_table d ap);
                 Some (case table of None \<Rightarrow> c | Some perms \<Rightarrow> c\<lparr>agent_permissions := Some (put_table d perms ap)\<rparr>)
               })
        })"

definition mod_res_agent_reset_config :: "res_env \<Rightarrow> 32 word \<Rightarrow> 32 word \<Rightarrow> res_perms_ctx \<Rightarrow> (int \<times> res_perms_ctx) option" where
  "mod_res_agent_reset_config env agent_id flags c =
     (if rp_device_count c = 0 \<or> domain_devices c = None then Some (FWK_E_ACCESS, c)
      else if flags = 0 then Some (FWK_SUCCESS, c)
      else if agent_id \<ge> rp_agent_count c then Some (FWK_E_ACCESS, c)
      else do {
        c \<leftarrow> mod_res_agent_copy_config env agent_id MOD_RES_POWER_DOMAIN_DEVICE MOD_SCMI_PROTOCOL_ID_POWER_DOMAIN c;
        c \<leftarrow> mod_res_agent_copy_config env agent_id MOD_RES_PERF_DOMAIN_DEVICE MOD_SCMI_PROTOCOL_ID_PERF c;
        c \<leftarrow> mod_res_agent_copy_config env agent_id MOD_RES_CLOCK_DOMAIN_DEVICE MOD_SCMI_PROTOCOL_ID_CLOCK c;
        c \<leftarrow> mod_res_agent_copy_config env agent_id MOD_RES_SENSOR_DOMAIN_DEVICE MOD_SCMI_PROTOCOL_ID_SENSOR c;
        c \<leftarrow> (if has_reset_domain (res_bc env)
                then mod_res_agent_copy_config env agent_id MOD_RES_RESET_DOMAIN_DEVICE MOD_SCMI_PROTOCOL_ID_RESET_DOMAIN c else Some c);
        c \<leftarrow> mod_res_agent_copy_config env agent_id MOD_RES_VOLTAGE_DOMAIN_DEVICE MOD_SCMI_PROTOCOL_ID_VOLTAGE_DOMAIN c;
        Some (FWK_SUCCESS, c)
      })"

section \<open>Callbacks of the framework\<close>

definition mod_res_perms_process_bind_request :: "res_env \<Rightarrow> fwk_id \<Rightarrow> fwk_id \<Rightarrow> fwk_id \<Rightarrow> (int \<times> nat option) option" where
  "mod_res_perms_process_bind_request env src target api_id =
     do {
       ok \<leftarrow> fwk_id_is_equal target (FWK_ID_MODULE (res_module_idx env));
       Some (if ok then (FWK_SUCCESS, Some (res_perms_api_addr env)) else (FWK_E_PARAM, None))
     }"

text \<open>Memory for a backup holds stale words until a table is copied into it.\<close>

definition alloc_perms_backup :: "res_env \<Rightarrow> res_perms_ctx \<Rightarrow> protocol_permissions_counters \<Rightarrow> 16 word list option" where
  "alloc_perms_backup env c k =
     (if cmd_count k \<noteq> 0 \<and> resource_count k \<noteq> 0 then Some (map (stale_word env) [0..<perms_words c k]) else None)"

definition res_perms_reset :: res_perms_ctx where
  "res_perms_reset =
     \<lparr>rp_config = None, rp_agent_count = 0, rp_protocol_count = 0, clock_count = 0, sensor_count = 0, pd_count = 0, perf_count = 0,
      rp_device_count = 0, reset_domain_count = 0, voltd_count = 0, power_capping_count = 0, agent_permissions = None, domain_devices = None,
      resources_perms_backup = \<lparr>scmi_pd_perms = None, scmi_perf_perms = None, scmi_clock_perms = None, scmi_sensor_perms = None,
        scmi_reset_domain_perms = None, scmi_voltd_perms = None, scmi_power_capping_perms = None\<rparr>\<rparr>"

definition mod_res_perms_resources_init :: "res_env \<Rightarrow> mod_res_resource_perms_config option \<Rightarrow> res_perms_ctx \<Rightarrow> (int \<times> res_perms_ctx) option" where
  "mod_res_perms_resources_init env data c =
     do {
       config \<leftarrow> data;
       let c = (case cfg_agent_permissions config of
           None \<Rightarrow> c
         | Some ap \<Rightarrow>
             let c = c\<lparr>agent_permissions := Some ap, rp_agent_count := cfg_agent_count config, rp_protocol_count := cfg_protocol_count config\<rparr>;
                 b = resources_perms_backup c
             in c\<lparr>clock_count := counter_count (clock_counters config), sensor_count := counter_count (sensor_counters config),
                  pd_count := counter_count (pd_counters config), perf_count := counter_count (perf_counters config),
                  reset_domain_count := (if has_reset_domain (res_bc env) then counter_count (reset_domain_counters config) else reset_domain_count c),
                  voltd_count := counter_count (voltd_counters config), rp_device_count := cfg_device_count config,
                  domain_devices := cfg_domain_devices config,
                  resources_perms_backup := b\<lparr>scmi_clock_perms := alloc_perms_backup env c (clock_counters config),
                    scmi_sensor_perms := alloc_perms_backup env c (sensor_counters config),
                    scmi_pd_perms := alloc_perms_backup env c (pd_counters config),
                    scmi_perf_perms := alloc_perms_backup env c (perf_counters config),
                    scmi_reset_domain_perms := (if has_reset_domain (res_bc env) then alloc_perms_backup env c (reset_domain_counters config)
                      else scmi_reset_domain_perms b),
                    scmi_voltd_perms := alloc_perms_backup env c (voltd_counters config)\<rparr>\<rparr>);
       Some (FWK_SUCCESS, c\<lparr>rp_config := Some config\<rparr>)
     }"

end
