(* ===== verification/Mod_Res_Props.thy ===== *)
theory Mod_Res_Props
  imports Mod_Res_Perms
begin

text \<open>
  What the permissions of \<open>Mod_Res_Perms\<close> decide: the places in a table are those of a flat array by
  agent, message and resource, the three questions agree with a table of policies, and setting a
  permission updates one entry of that table.
\<close>

section \<open>Places in the tables\<close>

text \<open>The messages of a kind of device that have permissions are those from 3 on; \<open>commands\<close> is the number of all.\<close>

fun managed :: "mod_res_domain_device_types \<Rightarrow> nat" where
  "managed MOD_RES_POWER_DOMAIN_DEVICE = 4" | "managed MOD_RES_PERF_DOMAIN_DEVICE = 9" | "managed MOD_RES_CLOCK_DOMAIN_DEVICE = 5"
| "managed MOD_RES_SENSOR_DOMAIN_DEVICE = 4" | "managed MOD_RES_RESET_DOMAIN_DEVICE = 3" | "managed MOD_RES_VOLTAGE_DOMAIN_DEVICE = 6"
| "managed MOD_RES_POWER_CAPPING_DEVICE = 10" | "managed MOD_RES_PLATFORM_DOMAIN_DEVICE = 0" | "managed MOD_RES_DOMAIN_DEVICE_INVALID = 0"

fun commands :: "res_env \<Rightarrow> mod_res_domain_device_types \<Rightarrow> nat" where
  "commands env MOD_RES_POWER_DOMAIN_DEVICE = 8" | "commands env MOD_RES_PERF_DOMAIN_DEVICE = 12" | "commands env MOD_RES_CLOCK_DOMAIN_DEVICE = 11"
| "commands env MOD_RES_SENSOR_DOMAIN_DEVICE = (if has_sensor_v2 (res_bc env) then 8 else 7)" | "commands env MOD_RES_RESET_DOMAIN_DEVICE = 6"
| "commands env MOD_RES_VOLTAGE_DOMAIN_DEVICE = 9" | "commands env MOD_RES_POWER_CAPPING_DEVICE = 13"
| "commands env MOD_RES_PLATFORM_DOMAIN_DEVICE = 0" | "commands env MOD_RES_DOMAIN_DEVICE_INVALID = 0"

lemma managed_commands: "device_of_protocol env p = Some d \<Longrightarrow> 3 + managed d \<le> commands env d"
  by (cases d) (auto simp: device_of_protocol_def split: if_splits)

lemma managed_small: "managed d \<le> 10"
  by (cases d) simp_all

lemma sint_small:
  assumes "unat (w :: 32 word) < 2 ^ 31"
  shows "sint w = int (unat w)"
proof -
  have "uint w < 2 ^ 31" using assms unfolding uint_nat by (simp only: of_nat_less_iff [where 'a = int, symmetric]) simp
  moreover have "- (2 ^ 31) \<le> uint w" by (rule order_trans [OF _ uint_ge_0]) simp
  ultimately have "sint w = uint w" unfolding sint_uint by (subst signed_take_bit_int_eq_self) simp_all
  then show ?thesis unfolding uint_nat .
qed

definition table_elements :: "32 word \<Rightarrow> nat" where
  "table_elements count = unat count div 16 + 1"

lemma device_protocols:
  assumes "device_of_protocol env p = Some d"
  shows "p \<in> {0x11, 0x13, 0x14, 0x15, 0x16, 0x17, 0x18}" and "\<not> platform_protocol p" and "p \<noteq> MOD_SCMI_PROTOCOL_ID_PIN_CONTROL"
    and "mod_res_protocol_id_to_index env p = Some (p - 16)" and "unat (p - 16) < 9" and "unat (p - 16) = unat p - 16"
proof -
  show p: "p \<in> {0x11, 0x13, 0x14, 0x15, 0x16, 0x17, 0x18}"
    using assms by (auto simp: device_of_protocol_def res_consts split: if_splits)
  then show std: "\<not> platform_protocol p" and "p \<noteq> MOD_SCMI_PROTOCOL_ID_PIN_CONTROL" and "unat (p - 16) < 9" and "unat (p - 16) = unat p - 16"
    by (auto simp: platform_protocol_def res_consts scmi_consts)
  show "mod_res_protocol_id_to_index env p = Some (p - 16)"
    using p std by (auto simp: mod_res_protocol_id_to_index_def res_consts scmi_consts)
qed

lemma message_place_managed:
  assumes "device_of_protocol env p = Some d" and "3 \<le> m"
  shows "mod_res_message_id_to_index env p m =
    (if unat m < 3 + managed d then Some (int (unat m) - 3) else if unat m < commands env d then Some (-1) else None)"
proof -
  have lt: "\<not> m < 3" using assms(2) by simp
  have sm: "sint (m - 3) = int (unat m) - 3" if "unat m < 16"
  proof -
    have "unat (m - 3) = unat m - 3" using assms(2) by (simp add: unat_sub word_le_nat_alt)
    then show ?thesis using that assms(2) by (simp add: sint_small word_le_nat_alt of_nat_diff)
  qed
  note p = device_protocols [OF assms(1)]
  show ?thesis
    using p(1,2) assms lt sm
    by (auto simp: mod_res_message_id_to_index_def device_of_protocol_def res_consts scmi_consts message_place_def word_le_nat_alt
        MOD_SCMI_SENSOR_COMMAND_COUNT_def split: if_splits)
qed

lemma res_slot_managed:
  assumes "device_of_protocol env p = Some d" and "3 \<le> m"
  shows "res_slot env c p m = (if unat m < 3 + managed d then Some (of_nat (managed d), m - 3, resources_of d c) else None)"
  using assms device_protocols(1) [OF assms(1)]
  by (auto simp: res_slot_def device_of_protocol_def res_consts scmi_consts slot_of_def word_le_nat_alt split: if_splits)

text \<open>Where a table has a place for every agent, managed message and resource, and 30 bits hold their number.\<close>

definition table_fits :: "res_perms_ctx \<Rightarrow> mod_res_domain_device_types \<Rightarrow> nat \<Rightarrow> bool" where
  "table_fits c d n \<longleftrightarrow> unat (rp_agent_count c) * managed d * table_elements (resources_of d c) \<le> n \<and> n < 2 ^ 30"

definition place :: "res_perms_ctx \<Rightarrow> mod_res_domain_device_types \<Rightarrow> nat \<Rightarrow> nat \<Rightarrow> nat \<Rightarrow> nat" where
  "place c d agent message resource = flat_index (table_elements (resources_of d c)) (managed d) (resource div 16) message agent"

lemma element_word: "MOD_RES_PERMS_RESOURCE_ELEMENT r = of_nat (unat r div 16)"
  by (simp add: MOD_RES_PERMS_RESOURCE_ELEMENT_def drop_bit_eq_div word_arith_nat_div)

lemma resource_bit_mod: "MOD_RES_PERMS_RESOURCE_BIT r = unat r mod 16"
proof -
  have "unat r AND 15 = unat r AND mask 4" by (simp add: mask_eq_exp_minus_1)
  also have "\<dots> = unat r mod 16" by (simp only: take_bit_eq_mask [symmetric] take_bit_eq_mod) simp
  finally show ?thesis by (simp add: MOD_RES_PERMS_RESOURCE_BIT_def unsigned_and_eq)
qed

lemma element_less: "r < count \<Longrightarrow> unat r div 16 < table_elements count"
  by (simp add: table_elements_def word_less_nat_alt div_le_mono less_Suc_eq_le)

lemma place_less:
  assumes "table_fits c d n" and "agent < unat (rp_agent_count c)" and "message < managed d" and "unat r div 16 < table_elements (resources_of d c)"
  shows "place c d agent message (unat r) < n"
  using flat_index_less [OF assms(4,3,2)] assms(1) by (simp add: place_def table_fits_def mult.assoc)

lemma agent_index_iff: "mod_res_agent_id_to_index c a = Some ai \<longleftrightarrow> ai = a - 1 \<and> ai < rp_agent_count c"
  by (auto simp: mod_res_agent_id_to_index_def Let_def)

lemma resource_place:
  assumes "device_of_protocol env p = Some d" and "3 \<le> m" and "unat m < 3 + managed d" and "table_fits c d n"
    and "a - 1 < rp_agent_count c"
  shows "mod_res_resource_id_to_index env c a p m r = Some (int (place c d (unat (a - 1)) (unat m - 3) (unat r)))"
proof -
  let ?E = "table_elements (resources_of d c)" and ?M = "managed d"
  let ?f = "place c d (unat (a - 1)) (unat m - 3) (unat r)"
  define w where "w = (a - 1) * of_nat ?M * (MOD_RES_PERMS_RESOURCE_ELEMENT (resources_of d c) + 1) +
    (m - 3) * (MOD_RES_PERMS_RESOURCE_ELEMENT (resources_of d c) + 1) + MOD_RES_PERMS_RESOURCE_ELEMENT r"
  have size: "MOD_RES_PERMS_RESOURCE_ELEMENT (resources_of d c) + 1 = (of_nat ?E :: 32 word)"
    by (simp add: element_word table_elements_def)
  have m3: "m - 3 = of_nat (unat m - 3)" using assms(2) by (simp add: word_le_nat_alt of_nat_diff)
  have a1: "a - 1 = of_nat (unat (a - 1))" by simp
  have w: "w = of_nat ?f"
    unfolding w_def size element_word [of r] m3 place_def flat_index_def
    by (subst a1) (simp only: of_nat_add of_nat_mult ac_simps)
  have "place c d (unat (a - 1)) (unat m - 3) (unat (0 :: 32 word)) < n"
    by (rule place_less [OF assms(4)]) (use assms in \<open>auto simp: word_less_nat_alt word_le_nat_alt table_elements_def\<close>)
  moreover have "unat r div 16 < 2 ^ 28" using unsigned_less [where 'a = nat, of r] by simp
  ultimately have f: "?f < 2 ^ 31" using assms(4) by (simp add: table_fits_def place_def flat_index_def)
  then have "unat w = ?f" unfolding w by (simp add: unat_of_nat take_bit_nat_eq_self)
  then have "sint w = int ?f" using sint_small [of w] f by simp
  then show ?thesis
    using assms(2,3,5) device_protocols(2) [OF assms(1)]
    by (simp add: mod_res_resource_id_to_index_def res_slot_managed [OF assms(1,2)] mod_res_agent_id_to_index_def Let_def w_def leD)
qed

text \<open>Different agents, messages and elements have different places.\<close>

lemma place_eq_iff:
  assumes "message < managed d" "message' < managed d" "r div 16 < table_elements (resources_of d c)" "r' div 16 < table_elements (resources_of d c)"
  shows "place c d agent message r = place c d agent' message' r' \<longleftrightarrow> agent = agent' \<and> message = message' \<and> r div 16 = r' div 16"
  using flat_index_inj [OF assms(3,1) assms(4,2)] by (auto simp: place_def)

section \<open>What the tables decide\<close>

text \<open>The tables are as long as the numbers of agents, protocols and resources ask for.\<close>

definition res_ok :: "res_perms_ctx \<Rightarrow> bool" where
  "res_ok c \<longleftrightarrow> (\<forall>ap. agent_permissions c = Some ap \<longrightarrow>
     (\<forall>t. protocol_perms ap = Some t \<longrightarrow> unat (rp_agent_count c) \<le> length t) \<and>
     (\<forall>t. msg_perms ap = Some t \<longrightarrow> unat (rp_agent_count c) \<le> length t \<and> (\<forall>row \<in> set t. length row = 9)) \<and>
     (\<forall>d t. perms_table d ap = Some t \<longrightarrow> table_fits c d (length t)))"

lemma res_okD:
  assumes "res_ok c" and "agent_permissions c = Some ap"
  shows "protocol_perms ap = Some t \<Longrightarrow> unat (rp_agent_count c) \<le> length t"
    and "msg_perms ap = Some u \<Longrightarrow> unat (rp_agent_count c) \<le> length u \<and> (\<forall>row \<in> set u. length row = 9)"
    and "perms_table d ap = Some v \<Longrightarrow> table_fits c d (length v)"
  using assms unfolding res_ok_def by blast+

text \<open>
  The policies: what denies a protocol, by its number among the standard ones, a message of a kind of
  device, and a resource.
\<close>

definition protocol_denied :: "res_perms_ctx \<Rightarrow> mod_res_agent_permission \<Rightarrow> nat \<Rightarrow> nat \<Rightarrow> bool" where
  "protocol_denied c ap agent protocol =
     (case protocol_perms ap of None \<Rightarrow> False | Some t \<Rightarrow> unat (rp_protocol_count c) \<le> protocol \<or> bit (t ! agent) protocol)"

definition message_denied :: "res_env \<Rightarrow> mod_res_domain_device_types \<Rightarrow> mod_res_agent_permission \<Rightarrow> nat \<Rightarrow> nat \<Rightarrow> nat \<Rightarrow> bool" where
  "message_denied env d ap agent protocol m =
     (case msg_perms ap of None \<Rightarrow> False
      | Some t \<Rightarrow> commands env d \<le> m \<or> 3 \<le> m \<and> m < 3 + managed d \<and> bit (t ! agent ! protocol) (m - 3))"

definition resource_bit :: "res_perms_ctx \<Rightarrow> mod_res_domain_device_types \<Rightarrow> mod_res_agent_permission \<Rightarrow> nat \<Rightarrow> nat \<Rightarrow> nat \<Rightarrow> bool" where
  "resource_bit c d ap agent message r =
     (case perms_table d ap of None \<Rightarrow> False | Some t \<Rightarrow> bit (t ! place c d agent message r) (r mod 16))"

definition resource_denied :: "res_env \<Rightarrow> res_perms_ctx \<Rightarrow> mod_res_domain_device_types \<Rightarrow> mod_res_agent_permission \<Rightarrow> nat \<Rightarrow> nat \<Rightarrow> nat \<Rightarrow> bool" where
  "resource_denied env c d ap agent m r \<longleftrightarrow>
     commands env d \<le> m \<or>
     3 \<le> m \<and> m < 3 + managed d \<and> perms_table d ap \<noteq> None \<and> (unat (resources_of d c) \<le> r \<or> resource_bit c d ap agent (m - 3) r)"

lemma denied_if_iff [simp]:
  "denied_if b = MOD_RES_PERMS_ACCESS_DENIED \<longleftrightarrow> b" "denied_if b = MOD_RES_PERMS_ACCESS_ALLOWED \<longleftrightarrow> \<not> b"
  "MOD_RES_PERMS_ACCESS_DENIED = denied_if b \<longleftrightarrow> b" "MOD_RES_PERMS_ACCESS_ALLOWED = denied_if b \<longleftrightarrow> \<not> b" "denied_if b = denied_if b' \<longleftrightarrow> b = b'"
  by (auto simp: denied_if_def scmi_consts)

lemma agent_nonzero: "a - 1 < (n :: 32 word) \<Longrightarrow> a \<noteq> 0"
  by auto

lemma protocol_decision:
  assumes dev: "device_of_protocol env p = Some d" and ok: "res_ok c" and ap: "agent_permissions c = Some ap" and a: "a - 1 < rp_agent_count c"
  shows "agent_protocol_permissions env c a p = Some (denied_if (protocol_denied c ap (unat (a - 1)) (unat p - 16)))"
proof (cases "protocol_perms ap")
  case None
  then show ?thesis
    using device_protocols [OF dev] agent_nonzero [OF a] ap by (simp add: agent_protocol_permissions_def protocol_denied_def)
next
  case (Some t)
  have len: "unat (a - 1) < length t" using res_okD(1) [OF ok ap Some] a by (simp add: word_less_nat_alt)
  have cnt: "rp_protocol_count c \<le> p - 16 \<longleftrightarrow> unat (rp_protocol_count c) \<le> unat p - 16"
    using device_protocols(6) [OF dev] by (simp add: word_le_nat_alt)
  show ?thesis
    using device_protocols [OF dev] agent_nonzero [OF a] ap Some a a [folded not_le]
    by (simp add: agent_protocol_permissions_def protocol_denied_def mod_res_agent_id_to_index_def Let_def elem_at_ok [OF len] cnt)
qed

lemma message_place:
  assumes "device_of_protocol env p = Some d"
  shows "mod_res_message_id_to_index env p m =
    (if unat m < 3 then Some (-1) else if unat m < 3 + managed d then Some (int (unat m - 3)) else if unat m < commands env d then Some (-1) else None)"
proof (cases "3 \<le> m")
  case True
  then have "3 \<le> unat m" by (simp add: word_le_nat_alt)
  then show ?thesis unfolding message_place_managed [OF assms True] by (simp add: of_nat_diff)
next
  case False
  then have "m < 3" "unat m < 3" by (simp_all add: word_le_nat_alt word_less_nat_alt)
  then show ?thesis using device_protocols(2) [OF assms] by (simp add: mod_res_message_id_to_index_def)
qed

lemma message_decision:
  assumes dev: "device_of_protocol env p = Some d" and ok: "res_ok c" and ap: "agent_permissions c = Some ap" and a: "a - 1 < rp_agent_count c"
  shows "agent_message_permissions env c a p m =
    Some (denied_if (protocol_denied c ap (unat (a - 1)) (unat p - 16) \<or> message_denied env d ap (unat (a - 1)) (unat p - 16) (unat m)))"
    (is "_ = Some (denied_if (?P \<or> _))")
proof (cases "msg_perms ap")
  case None
  then show ?thesis
    using device_protocols(2) [OF dev] agent_nonzero [OF a] ap
    by (simp add: agent_message_permissions_def protocol_decision [OF assms] message_denied_def denied_if_def scmi_consts)
next
  case (Some t)
  have len: "unat (a - 1) < length t" and row: "length (t ! unat (a - 1)) = 9"
    using res_okD(2) [OF ok ap Some] a by (auto simp: word_less_nat_alt)
  have word: "do { messages \<leftarrow> elem_at t (unat (a - 1)); perms \<leftarrow> elem_at messages (unat (p - 16)); Some (denied_if (bit perms k)) } =
      Some (denied_if (bit (t ! unat (a - 1) ! (unat p - 16)) k))" for k
    unfolding elem_at_ok [OF len] using device_protocols(5,6) [OF dev] row by (simp add: elem_at_ok)
  have start: "agent_message_permissions env c a p m =
      (if ?P then Some MOD_RES_PERMS_ACCESS_DENIED
       else case mod_res_message_id_to_index env p m of
         None \<Rightarrow> Some MOD_RES_PERMS_ACCESS_DENIED
       | Some i \<Rightarrow> if i < 0 then Some MOD_RES_PERMS_ACCESS_ALLOWED else Some (denied_if (bit (t ! unat (a - 1) ! (unat p - 16)) (nat i))))"
    using device_protocols(2,4) [OF dev] agent_nonzero [OF a] ap Some a
    by (simp add: agent_message_permissions_def protocol_decision [OF assms] mod_res_agent_id_to_index_def Let_def word split: option.splits)
  define k where "k = unat m"
  show ?thesis
    unfolding start message_place [OF dev] k_def [symmetric] using Some managed_commands [OF dev]
    by (auto simp: message_denied_def denied_if_def nat_diff_distrib simp del: of_nat_diff)
qed

lemma resource_index_Some:
  assumes "device_of_protocol env p = Some d" and "3 \<le> unat m" and "unat m < 3 + managed d" and "a - 1 < rp_agent_count c"
  obtains k where "mod_res_resource_id_to_index env c a p m r = Some k"
proof -
  have m3: "3 \<le> m" using assms(2) by (simp add: word_le_nat_alt)
  show thesis
    using that m3 [folded not_less] assms(3) assms(4) [folded not_le] assms(4) device_protocols(2) [OF assms(1)]
    by (auto simp: mod_res_resource_id_to_index_def res_slot_managed [OF assms(1) m3] mod_res_agent_id_to_index_def Let_def)
qed

lemma resource_decision:
  assumes dev: "device_of_protocol env p = Some d" and ok: "res_ok c" and ap: "agent_permissions c = Some ap" and a: "a - 1 < rp_agent_count c"
  shows "agent_resource_permissions env c a p m r =
    Some (denied_if (protocol_denied c ap (unat (a - 1)) (unat p - 16) \<or> message_denied env d ap (unat (a - 1)) (unat p - 16) (unat m) \<or>
      resource_denied env c d ap (unat (a - 1)) (unat m) (unat r)))"
    (is "_ = Some (denied_if (?P \<or> ?M \<or> ?R))")
proof (cases "?P \<or> ?M")
  case True
  then show ?thesis
    using device_protocols(2) [OF dev] agent_nonzero [OF a] ap
    by (auto simp: agent_resource_permissions_def message_decision [OF assms] denied_if_def scmi_consts)
next
  case no: False
  have start: "agent_resource_permissions env c a p m r =
    (case mod_res_message_id_to_index env p m of
       None \<Rightarrow> Some MOD_RES_PERMS_ACCESS_DENIED
     | Some i \<Rightarrow> if i < 0 then Some MOD_RES_PERMS_ACCESS_ALLOWED else
         case mod_res_resource_id_to_index env c a p m r of
           None \<Rightarrow> Some MOD_RES_PERMS_ACCESS_DENIED
         | Some k \<Rightarrow> if k < 0 then Some MOD_RES_PERMS_ACCESS_ALLOWED else
             case perms_table d ap of
               None \<Rightarrow> Some MOD_RES_PERMS_ACCESS_ALLOWED
             | Some t \<Rightarrow> if r \<ge> resources_of d c then Some MOD_RES_PERMS_ACCESS_DENIED
                 else do { w \<leftarrow> elem_at t (nat k); Some (denied_if (bit w (MOD_RES_PERMS_RESOURCE_BIT r))) })"
    using no device_protocols(2) [OF dev] agent_nonzero [OF a] ap a dev
    by (simp add: agent_resource_permissions_def message_decision [OF assms] mod_res_agent_id_to_index_def Let_def split: option.splits)
  define k where "k = unat m"
  show ?thesis
  proof (cases "3 \<le> unat m \<and> unat m < 3 + managed d")
    case False
    then show ?thesis unfolding start message_place [OF dev] k_def [symmetric] using no [folded k_def] managed_commands [OF dev] by (auto simp: resource_denied_def denied_if_def)
  next
    case True
    have place_m: "mod_res_message_id_to_index env p m = Some (int (unat m - 3))" using True by (simp add: message_place [OF dev])
    show ?thesis
    proof (cases "perms_table d ap")
      case None
      obtain k where "mod_res_resource_id_to_index env c a p m r = Some k" by (rule resource_index_Some [OF dev _ _ a]) (use True in auto)
      then show ?thesis unfolding start place_m using None no True managed_commands [OF dev] by (simp add: resource_denied_def denied_if_def)
    next
      case (Some t)
      note fits = res_okD(3) [OF ok ap Some]
      have "3 \<le> m" using True by (simp add: word_le_nat_alt)
      from resource_place [OF dev this _ fits a] True
      have k: "mod_res_resource_id_to_index env c a p m r = Some (int (place c d (unat (a - 1)) (unat m - 3) (unat r)))" by simp
      have bit: "elem_at t (place c d (unat (a - 1)) (unat m - 3) (unat r)) = Some (t ! place c d (unat (a - 1)) (unat m - 3) (unat r))"
        if "\<not> resources_of d c \<le> r"
        by (rule elem_at_ok, rule place_less [OF fits]) (use True a that element_less in \<open>auto simp: word_less_nat_alt not_le\<close>)
      have res: "resource_denied env c d ap (unat (a - 1)) (unat m) (unat r) \<longleftrightarrow>
          resources_of d c \<le> r \<or> bit (t ! place c d (unat (a - 1)) (unat m - 3) (unat r)) (unat r mod 16)"
        using Some True managed_commands [OF dev] by (auto simp: resource_denied_def resource_bit_def word_le_nat_alt)
      show ?thesis
        unfolding start place_m k res using Some no
        by (auto simp: bit resource_bit_mod denied_if_def simp del: of_nat_diff)
    qed
  qed
qed

section \<open>Setting a permission\<close>

definition set_perm_bit :: "bool \<Rightarrow> nat \<Rightarrow> 16 word \<Rightarrow> 16 word" where
  "set_perm_bit deny b w = (if deny then w OR push_bit b 1 else w AND NOT (push_bit b 1))"

lemma bit_set_perm_bit: "b < 16 \<Longrightarrow> bit (set_perm_bit deny b w) i \<longleftrightarrow> (if i = b then deny else bit w i)"
  by (auto simp: set_perm_bit_def bit_simps dest: bit_imp_le_length)

lemma set_message_perms:
  assumes "device_of_protocol env p = Some d" and "3 \<le> m" and "m < 3 + managed d" and "table_fits c d (length t)"
    and "a - 1 < rp_agent_count c" and "r < resources_of d c"
  shows "set_agent_resource_message_perms env c a p (of_nat m) r t flags =
    Some (FWK_SUCCESS, t[place c d (unat (a - 1)) (m - 3) (unat r) :=
      set_perm_bit (flags = 0) (unat r mod 16) (t ! place c d (unat (a - 1)) (m - 3) (unat r))])"
proof -
  have um: "unat (of_nat m :: 32 word) = m"
    using assms(3) managed_small [of d] by (simp add: unat_of_nat take_bit_nat_eq_self)
  have "(3 :: 32 word) \<le> of_nat m" using assms(2) um by (simp add: word_le_nat_alt)
  from resource_place [OF assms(1) this _ assms(4,5)] um assms(3)
  have k: "mod_res_resource_id_to_index env c a p (of_nat m) r = Some (int (place c d (unat (a - 1)) (m - 3) (unat r)))" by simp
  have "place c d (unat (a - 1)) (m - 3) (unat r) < length t"
    by (rule place_less [OF assms(4)]) (use assms element_less in \<open>auto simp: word_less_nat_alt\<close>)
  then show ?thesis
    unfolding set_agent_resource_message_perms_def k
    by (simp add: elem_at_ok Let_def resource_bit_mod set_perm_bit_def scmi_consts)
qed

lemma set_messages_bits:
  assumes "device_of_protocol env p = Some d" and "\<forall>m \<in> set ms. 3 \<le> m \<and> m < 3 + managed d" and "table_fits c d (length t)"
    and "a - 1 < rp_agent_count c" and "r < resources_of d c"
    and pp: "pp_agent_id pp = a" "pp_protocol_id pp = p" "pp_resource_id pp = r"
  shows "\<exists>t'. set_messages env c pp ms t = Some (FWK_SUCCESS, t') \<and> length t' = length t \<and>
    (\<forall>agent message r'. agent < unat (rp_agent_count c) \<and> message < managed d \<and> r' < unat (resources_of d c) \<longrightarrow>
      bit (t' ! place c d agent message r') (r' mod 16) \<longleftrightarrow>
      (if agent = unat (a - 1) \<and> message + 3 \<in> set ms \<and> r' = unat r then pp_flags pp = 0 else bit (t ! place c d agent message r') (r' mod 16)))"
  using assms(2,3)
proof (induction ms arbitrary: t)
  case Nil
  then show ?case by simp
next
  case (Cons m ms)
  let ?k = "place c d (unat (a - 1)) (m - 3) (unat r)"
  let ?t = "t[?k := set_perm_bit (pp_flags pp = 0) (unat r mod 16) (t ! ?k)]"
  have m: "3 \<le> m" "m < 3 + managed d" using Cons.prems(1) by simp_all
  have step: "set_messages env c pp (m # ms) t = set_messages env c pp ms ?t"
    using set_message_perms [OF assms(1) m Cons.prems(2) assms(4,5), of "pp_flags pp"] pp by simp
  have k: "?k < length t"
    by (rule place_less [OF Cons.prems(2)]) (use assms(4,5) m element_less in \<open>auto simp: word_less_nat_alt\<close>)
  have "\<forall>m \<in> set ms. 3 \<le> m \<and> m < 3 + managed d" "table_fits c d (length ?t)" using Cons.prems by simp_all
  from Cons.IH [OF this] obtain t' where
    t': "set_messages env c pp ms ?t = Some (FWK_SUCCESS, t')" "length t' = length ?t" and
    bits: "\<And>agent message r'. agent < unat (rp_agent_count c) \<Longrightarrow> message < managed d \<Longrightarrow> r' < unat (resources_of d c) \<Longrightarrow>
      bit (t' ! place c d agent message r') (r' mod 16) \<longleftrightarrow>
      (if agent = unat (a - 1) \<and> message + 3 \<in> set ms \<and> r' = unat r then pp_flags pp = 0 else bit (?t ! place c d agent message r') (r' mod 16))"
    by auto
  have old: "bit (?t ! place c d agent message r') (r' mod 16) \<longleftrightarrow>
      (if agent = unat (a - 1) \<and> message + 3 = m \<and> r' = unat r then pp_flags pp = 0 else bit (t ! place c d agent message r') (r' mod 16))"
    if "message < managed d" "r' < unat (resources_of d c)" for agent message r'
  proof -
    have el: "r' div 16 < table_elements (resources_of d c)" "unat r div 16 < table_elements (resources_of d c)"
      using that(2) element_less [OF assms(5)] by (simp_all add: table_elements_def div_le_mono less_Suc_eq_le)
    have "place c d agent message r' = ?k \<longleftrightarrow> agent = unat (a - 1) \<and> message = m - 3 \<and> r' div 16 = unat r div 16"
      by (rule place_eq_iff [OF that(1) _ el]) (use m in simp)
    moreover have "r' = unat r \<longleftrightarrow> r' div 16 = unat r div 16 \<and> r' mod 16 = unat r mod 16" by (metis div_mult_mod_eq)
    ultimately show ?thesis using k m(1) by (auto simp: nth_list_update bit_set_perm_bit)
  qed
  show ?case
    unfolding step t'(1) by (intro exI [of _ t']) (auto simp: t'(2) bits old)
qed

lemma put_table_frame [simp]:
  "protocol_perms (put_table d t ap) = protocol_perms ap" "msg_perms (put_table d t ap) = msg_perms ap"
  by (cases d; simp)+

lemma perms_table_put:
  "device_of_protocol env p = Some d \<Longrightarrow> perms_table e (put_table d t ap) = (if e = d then Some t else perms_table e ap)"
  by (cases d; cases e) (auto simp: device_of_protocol_def split: if_splits)

text \<open>A change of one table, and of the backup, leaves everything else of the context alone.\<close>

definition with_table :: "mod_res_domain_device_types \<Rightarrow> 16 word list \<Rightarrow> mod_res_agent_permission \<Rightarrow> res_perms_backup \<Rightarrow> res_perms_ctx \<Rightarrow> res_perms_ctx" where
  "with_table d t ap b c = c\<lparr>agent_permissions := Some (put_table d t ap), resources_perms_backup := b\<rparr>"

lemma with_table_simps [simp]:
  "agent_permissions (with_table d t ap b c) = Some (put_table d t ap)" "rp_agent_count (with_table d t ap b c) = rp_agent_count c"
  "rp_protocol_count (with_table d t ap b c) = rp_protocol_count c" "mod_res_agent_id_to_index (with_table d t ap b c) = mod_res_agent_id_to_index c"
  by (simp_all add: with_table_def mod_res_agent_id_to_index_def fun_eq_iff)

lemma with_table_resources [simp]: "resources_of e (with_table d t ap b c) = resources_of e c"
  by (cases e) (simp_all add: with_table_def)

lemma with_table_place [simp]: "place (with_table d t ap b c) = place c" "table_fits (with_table d t ap b c) = table_fits c"
  by (simp_all add: place_def table_fits_def fun_eq_iff)

lemma with_table_counts:
  "pd_count (with_table d t ap b c) = pd_count c" "perf_count (with_table d t ap b c) = perf_count c"
  "clock_count (with_table d t ap b c) = clock_count c" "sensor_count (with_table d t ap b c) = sensor_count c"
  "reset_domain_count (with_table d t ap b c) = reset_domain_count c" "voltd_count (with_table d t ap b c) = voltd_count c"
  "power_capping_count (with_table d t ap b c) = power_capping_count c"
  by (simp_all add: with_table_def)

lemma with_table_index [simp]: "mod_res_resource_id_to_index env (with_table d t ap b c) = mod_res_resource_id_to_index env c"
proof -
  have "res_slot env (with_table d t ap b c) = res_slot env c" by (intro ext) (simp only: res_slot_def with_table_counts)
  then show ?thesis by (simp add: mod_res_resource_id_to_index_def fun_eq_iff)
qed

lemma with_table_upper:
  assumes "agent_permissions c = Some ap"
  shows "agent_protocol_permissions env (with_table d t ap b c) = agent_protocol_permissions env c"
    and "agent_message_permissions env (with_table d t ap b c) = agent_message_permissions env c"
proof -
  show prot: "agent_protocol_permissions env (with_table d t ap b c) = agent_protocol_permissions env c"
    using assms by (simp add: agent_protocol_permissions_def fun_eq_iff cong: option.case_cong if_cong)
  show "agent_message_permissions env (with_table d t ap b c) = agent_message_permissions env c"
    using assms by (simp add: agent_message_permissions_def fun_eq_iff prot cong: option.case_cong if_cong)
qed

lemma with_table_ok:
  assumes "res_ok c" and "agent_permissions c = Some ap" and "device_of_protocol env p = Some d" and "table_fits c d (length t)"
  shows "res_ok (with_table d t ap b c)"
  using assms(4) res_okD [OF assms(1,2)] unfolding res_ok_def by (auto simp: perms_table_put [OF assms(3)] split: if_splits)

text \<open>Only the protocol of the table that changed, for a known agent, can be decided otherwise.\<close>

lemma with_table_other:
  assumes dev: "device_of_protocol env p = Some d" and ap: "agent_permissions c = Some ap" and other: "p' \<noteq> p \<or> \<not> a' - 1 < rp_agent_count c"
  shows "agent_resource_permissions env (with_table d t ap b c) a' p' m' r' = agent_resource_permissions env c a' p' m' r'"
proof (cases "p' = p")
  case True
  then have no: "mod_res_agent_id_to_index c a' = None" using other by (simp add: mod_res_agent_id_to_index_def Let_def)
  show ?thesis using ap by (simp add: agent_resource_permissions_def with_table_upper [OF ap] no cong: option.case_cong if_cong)
next
  case False
  have "e \<noteq> d" if "device_of_protocol env p' = Some e" for e
    using that dev False by (auto simp: device_of_protocol_def split: if_splits)
  then have e: "perms_table e (put_table d t ap) = perms_table e ap" if "device_of_protocol env p' = Some e" for e
    using that by (simp add: perms_table_put [OF dev])
  show ?thesis
    using ap by (cases "device_of_protocol env p'") (simp_all add: agent_resource_permissions_def with_table_upper [OF ap] e cong: option.case_cong if_cong)
qed

section \<open>Requests for devices\<close>

fun counters_of :: "mod_res_domain_device_types \<Rightarrow> mod_res_resource_perms_config \<Rightarrow> protocol_permissions_counters" where
  "counters_of MOD_RES_POWER_DOMAIN_DEVICE config = pd_counters config"
| "counters_of MOD_RES_PERF_DOMAIN_DEVICE config = perf_counters config"
| "counters_of MOD_RES_CLOCK_DOMAIN_DEVICE config = clock_counters config"
| "counters_of MOD_RES_SENSOR_DOMAIN_DEVICE config = sensor_counters config"
| "counters_of MOD_RES_RESET_DOMAIN_DEVICE config = reset_domain_counters config"
| "counters_of MOD_RES_VOLTAGE_DOMAIN_DEVICE config = voltd_counters config"
| "counters_of d config = power_capping_counters config"

text \<open>A backup has room for its table: both are as long as the counters say.\<close>

definition backup_ok :: "res_perms_ctx \<Rightarrow> bool" where
  "backup_ok c \<longleftrightarrow> (\<exists>config ap. rp_config c = Some config \<and> agent_permissions c = Some ap \<and>
     (\<forall>d t b. perms_table d ap = Some t \<and> perms_table d (resources_perms_backup c) = Some b \<longrightarrow>
        perms_words c (counters_of d config) \<le> length t \<and> perms_words c (counters_of d config) \<le> length b))"

fun protocol_of :: "mod_res_domain_device_types \<Rightarrow> 32 word" where
  "protocol_of MOD_RES_POWER_DOMAIN_DEVICE = 0x11" | "protocol_of MOD_RES_PERF_DOMAIN_DEVICE = 0x13" | "protocol_of MOD_RES_CLOCK_DOMAIN_DEVICE = 0x14"
| "protocol_of MOD_RES_SENSOR_DOMAIN_DEVICE = 0x15" | "protocol_of MOD_RES_RESET_DOMAIN_DEVICE = 0x16" | "protocol_of MOD_RES_VOLTAGE_DOMAIN_DEVICE = 0x17"
| "protocol_of d = 0x18"

definition has_protocol :: "res_env \<Rightarrow> mod_res_domain_device_types \<Rightarrow> bool" where
  "has_protocol env d \<longleftrightarrow> d \<noteq> MOD_RES_PLATFORM_DOMAIN_DEVICE \<and> d \<noteq> MOD_RES_DOMAIN_DEVICE_INVALID \<and>
     (d = MOD_RES_RESET_DOMAIN_DEVICE \<longrightarrow> has_reset_domain (res_bc env))"

lemma protocol_of_device: "has_protocol env d \<Longrightarrow> device_of_protocol env (protocol_of d) = Some d"
  by (cases d) (simp_all add: has_protocol_def device_of_protocol_def res_consts)

lemma counters_eta:
  "counters_of MOD_RES_POWER_DOMAIN_DEVICE = pd_counters" "counters_of MOD_RES_PERF_DOMAIN_DEVICE = perf_counters"
  "counters_of MOD_RES_CLOCK_DOMAIN_DEVICE = clock_counters" "counters_of MOD_RES_SENSOR_DOMAIN_DEVICE = sensor_counters"
  "counters_of MOD_RES_RESET_DOMAIN_DEVICE = reset_domain_counters" "counters_of MOD_RES_VOLTAGE_DOMAIN_DEVICE = voltd_counters"
  "counters_of MOD_RES_POWER_CAPPING_DEVICE = power_capping_counters"
  by (simp_all add: fun_eq_iff)

lemma set_permissions_arm:
  "mod_res_agent_set_permissions env d a r f c =
     (if has_protocol env d then set_device_permissions env (protocol_of d) d 3 (of_nat (2 + managed d)) (counters_of d) c else Some (FWK_E_ACCESS, c))"
  by (cases d) (simp_all add: mod_res_agent_set_permissions_def has_protocol_def counters_eta res_consts)

lemma agent_zero: "mod_res_agent_id_to_index c 0 = None"
  by (simp add: mod_res_agent_id_to_index_def Let_def not_less)

lemma put_same_table: "perms_table d ap = Some t \<Longrightarrow> put_table d t ap = ap"
  by (cases d) (auto intro: mod_res_agent_permission.equality)

lemma take_drop_length: "n \<le> length xs \<Longrightarrow> n \<le> length ys \<Longrightarrow> length (take n xs @ drop n ys) = length ys"
  by simp

lemma perms_table_put_backup:
  "perms_table e (put_table d t b) = (if e = d \<and> d \<noteq> MOD_RES_PLATFORM_DOMAIN_DEVICE \<and> d \<noteq> MOD_RES_DOMAIN_DEVICE_INVALID then Some t else perms_table e b)"
  by (cases d; cases e) simp_all

lemma backup_kept:
  assumes "backup_ok c" and "perms_table d b = Some old" and "length t = length old" and "b = resources_perms_backup c"
  shows "backup_ok (c\<lparr>resources_perms_backup := put_table d t b\<rparr>)"
  using assms unfolding backup_ok_def
  by (auto simp: perms_table_put_backup perms_words_def split: if_splits)

text \<open>What a request for a kind of device does: at most a backup, whatever the agent, the resource and the flags.\<close>

lemma set_permissions_only_backup:
  assumes "backup_ok c"
  shows "\<exists>st b. mod_res_agent_set_permissions env d a r f c = Some (st, c\<lparr>resources_perms_backup := b\<rparr>) \<and>
    backup_ok (c\<lparr>resources_perms_backup := b\<rparr>)"
proof (cases "has_protocol env d")
  case False
  then show ?thesis using assms by (auto simp: set_permissions_arm intro!: exI [of _ "resources_perms_backup c"])
next
  case True
  obtain config ap where c: "rp_config c = Some config" "agent_permissions c = Some ap" and
    len: "\<And>t b. perms_table d ap = Some t \<Longrightarrow> perms_table d (resources_perms_backup c) = Some b \<Longrightarrow>
      perms_words c (counters_of d config) \<le> length t \<and> perms_words c (counters_of d config) \<le> length b"
    using assms unfolding backup_ok_def by blast
  note dev = protocol_of_device [OF True]
  define pp where "pp = device_params (protocol_of d) d 3 (of_nat (2 + managed d)) (counters_of d config)"
  have arm: "mod_res_agent_set_permissions env d a r f c = set_agent_resource_permissions env pp c"
    using True c by (simp add: set_permissions_arm set_device_permissions_def pp_def)
  have none: "mod_res_resource_id_to_index env x 0 (protocol_of d) 3 0 = None" for x
    using device_protocols(2) [OF dev] by (simp add: mod_res_resource_id_to_index_def agent_zero bind_eq_None_conv)
  have range: "[unat (3 :: 32 word)..<Suc (unat (of_nat (2 + managed d) :: 32 word))] = 3 # [4..<3 + managed d]"
    using managed_small [of d] True
    by (cases d) (simp_all add: has_protocol_def upt_rec)
  have "start_message_idx pp = 3" "end_message_idx pp = of_nat (2 + managed d)" by (simp_all add: pp_def device_params_def)
  then have stop: "set_messages env x pp [unat (start_message_idx pp)..<Suc (unat (end_message_idx pp))] t = Some (FWK_E_PARAM, t)" for x t
    using range by (simp only:) (simp add: pp_def device_params_def set_agent_resource_message_perms_def none fwk_status_defs)
  have pp: "pp_device pp = d" "pp_resource_id pp = 0" "pp_counters pp = counters_of d config"
    by (simp_all add: pp_def device_params_def)
  show ?thesis
  proof (cases "perms_table d ap")
    case None
    then show ?thesis unfolding arm using c assms
      by (auto simp: set_agent_resource_permissions_def pp intro!: exI [of _ "resources_perms_backup c"])
  next
    case (Some t)
    have same: "put_table d t ap = ap" by (rule put_same_table [OF Some])
    show ?thesis
    proof (cases "0 \<ge> counter_count (counters_of d config)")
      case True
      then show ?thesis unfolding arm using c assms Some
        by (auto simp: set_agent_resource_permissions_def pp intro!: exI [of _ "resources_perms_backup c"])
    next
      case count: False
      show ?thesis
      proof (cases "perms_table d (resources_perms_backup c)")
        case None
        have "set_agent_resource_permissions env pp c = Some (FWK_E_PARAM, c\<lparr>agent_permissions := Some ap\<rparr>)"
          using c Some None count same stop by (simp add: set_agent_resource_permissions_def pp)
        then show ?thesis unfolding arm using c assms by (auto intro!: exI [of _ "resources_perms_backup c"])
      next
        case (Some b)
        let ?n = "perms_words c (counters_of d config)"
        let ?b = "put_table d (take ?n t @ drop ?n b) (resources_perms_backup c)"
        note lens = len [OF \<open>perms_table d ap = Some t\<close> Some]
        have "set_agent_resource_permissions env pp c = Some (FWK_E_PARAM, c\<lparr>resources_perms_backup := ?b, agent_permissions := Some ap\<rparr>)"
          using c \<open>perms_table d ap = Some t\<close> Some count same stop lens
          by (simp add: set_agent_resource_permissions_def pp backup_resource_permission_def Let_def)
        moreover have "backup_ok (c\<lparr>resources_perms_backup := ?b\<rparr>)"
          by (rule backup_kept [OF assms Some _ refl]) (use lens in simp)
        moreover have "c\<lparr>resources_perms_backup := ?b, agent_permissions := Some ap\<rparr> = c\<lparr>resources_perms_backup := ?b\<rparr>"
          using c(2) by (intro res_perms_ctx.equality) simp_all
        ultimately show ?thesis unfolding arm by auto
      qed
    qed
  qed
qed

lemma backup_irrelevant:
  "agent_protocol_permissions env (c\<lparr>resources_perms_backup := b\<rparr>) = agent_protocol_permissions env c"
  "agent_message_permissions env (c\<lparr>resources_perms_backup := b\<rparr>) = agent_message_permissions env c"
  "agent_resource_permissions env (c\<lparr>resources_perms_backup := b\<rparr>) = agent_resource_permissions env c"
proof -
  let ?c = "c\<lparr>resources_perms_backup := b\<rparr>"
  have agent: "mod_res_agent_id_to_index ?c = mod_res_agent_id_to_index c" by (simp add: mod_res_agent_id_to_index_def fun_eq_iff)
  have "res_slot env ?c = res_slot env c" by (intro ext) (simp add: res_slot_def cong: if_cong)
  then have res: "mod_res_resource_id_to_index env ?c = mod_res_resource_id_to_index env c"
    by (simp add: mod_res_resource_id_to_index_def fun_eq_iff agent cong: if_cong)
  have count: "resources_of e ?c = resources_of e c" for e by (cases e) simp_all
  show p: "agent_protocol_permissions env ?c = agent_protocol_permissions env c"
    by (simp add: agent_protocol_permissions_def fun_eq_iff agent cong: option.case_cong if_cong)
  show m: "agent_message_permissions env ?c = agent_message_permissions env c"
    by (simp add: agent_message_permissions_def fun_eq_iff agent p cong: option.case_cong if_cong)
  show "agent_resource_permissions env ?c = agent_resource_permissions env c"
    by (simp add: agent_resource_permissions_def fun_eq_iff agent m res count cong: option.case_cong if_cong)
qed

text \<open>A list of parts that ends the way the loop over it ends, with identifiers of elements before.\<close>

fun parts_end :: "mod_res_domain_device list \<Rightarrow> bool" where
  "parts_end [] \<longleftrightarrow> False"
| "parts_end (dev # devs) \<longleftrightarrow> dd_type dev = MOD_RES_DOMAIN_DEVICE_INVALID \<or>
     fwk_id_type_is_valid (dd_device_id dev) \<and>
       (dd_device_id dev = FWK_ID_NONE \<or> fwk_id_get_element_idx (dd_device_id dev) \<noteq> None \<and> parts_end devs)"

lemma set_parts_only_backup:
  "parts_end devs \<Longrightarrow> backup_ok c \<Longrightarrow> \<exists>b. set_parts env only a f devs c = Some (FWK_SUCCESS, c\<lparr>resources_perms_backup := b\<rparr>)"
proof (induction devs arbitrary: c)
  case (Cons dev devs)
  have finished: "\<exists>b. Some (FWK_SUCCESS, c) = Some (FWK_SUCCESS, c\<lparr>resources_perms_backup := b\<rparr>)"
    by (rule exI [of _ "resources_perms_backup c"]) simp
  show ?case
  proof (cases "dd_type dev = MOD_RES_DOMAIN_DEVICE_INVALID \<or> dd_device_id dev = FWK_ID_NONE")
    case True
    then have "set_parts env only a f (dev # devs) c = Some (FWK_SUCCESS, c)"
      using Cons.prems(1) by (auto simp: fwk_id_is_equal_valid)
    then show ?thesis using finished by (simp only:)
  next
    case False
    then obtain e where e: "fwk_id_get_element_idx (dd_device_id dev) = Some e" and valid: "fwk_id_type_is_valid (dd_device_id dev)"
        and rest: "parts_end devs"
      using Cons.prems(1) by auto
    obtain st b where set: "mod_res_agent_set_permissions env (dd_type dev) a e f c = Some (st, c\<lparr>resources_perms_backup := b\<rparr>)"
        and ok: "backup_ok (c\<lparr>resources_perms_backup := b\<rparr>)"
      using set_permissions_only_backup [OF Cons.prems(2)] by blast
    obtain b1 b2 where ih: "set_parts env only a f devs c = Some (FWK_SUCCESS, c\<lparr>resources_perms_backup := b1\<rparr>)"
        "set_parts env only a f devs (c\<lparr>resources_perms_backup := b\<rparr>) = Some (FWK_SUCCESS, c\<lparr>resources_perms_backup := b, resources_perms_backup := b2\<rparr>)"
      using Cons.IH [OF rest Cons.prems(2)] Cons.IH [OF rest ok] by blast
    have "set_parts env only a f (dev # devs) c =
        (if (case only of None \<Rightarrow> False | Some d \<Rightarrow> dd_type dev \<noteq> d) then set_parts env only a f devs c
         else set_parts env only a f devs (c\<lparr>resources_perms_backup := b\<rparr>))"
      using False e valid set by (simp add: fwk_id_is_equal_valid)
    then have "set_parts env only a f (dev # devs) c = Some (FWK_SUCCESS, c\<lparr>resources_perms_backup := b1\<rparr>) \<or>
        set_parts env only a f (dev # devs) c = Some (FWK_SUCCESS, c\<lparr>resources_perms_backup := b2\<rparr>)"
      unfolding ih by simp
    then show ?thesis by blast
  qed
qed simp

section \<open>Properties\<close>

text \<open>
  C37. Whether an agent may use a protocol, a message or a resource: the three questions of the module's
  interface agree with the policies of the three tables, a resource being denied as soon as its message
  or its protocol is. No lookup leaves a table.
\<close>

theorem permissions_decided_by_tables:
  assumes "device_of_protocol env p = Some d" and "res_ok c" and "agent_permissions c = Some ap" and "a - 1 < rp_agent_count c"
  shows "agent_protocol_permissions env c a p = Some (denied_if (protocol_denied c ap (unat (a - 1)) (unat p - 16))) \<and>
    agent_message_permissions env c a p m = Some (denied_if
      (protocol_denied c ap (unat (a - 1)) (unat p - 16) \<or> message_denied env d ap (unat (a - 1)) (unat p - 16) (unat m))) \<and>
    agent_resource_permissions env c a p m r = Some (denied_if
      (protocol_denied c ap (unat (a - 1)) (unat p - 16) \<or> message_denied env d ap (unat (a - 1)) (unat p - 16) (unat m) \<or>
       resource_denied env c d ap (unat (a - 1)) (unat m) (unat r)))"
  using protocol_decision [OF assms] message_decision [OF assms] resource_decision [OF assms] by blast

text \<open>An example: two agents, twenty power domains, the second agent denied the clock protocol.\<close>

definition rx_env :: res_env where
  "rx_env = \<lparr>res_bc = \<lparr>has_reset_domain = True, has_sensor_v2 = False\<rparr>, res_plat = weak_platform, res_module_idx = 3, res_perms_api_addr = 7,
     stale_word = (\<lambda>_. 0xDEAD)\<rparr>"

definition rx_tables :: mod_res_agent_permission where
  "rx_tables = \<lparr>scmi_pd_perms = Some (replicate 16 0), scmi_perf_perms = None, scmi_clock_perms = None, scmi_sensor_perms = None,
     scmi_reset_domain_perms = None, scmi_voltd_perms = None, scmi_power_capping_perms = None,
     protocol_perms = Some [0, 0x10], msg_perms = None\<rparr>"

definition rx_counters :: "32 word \<Rightarrow> protocol_permissions_counters" where
  "rx_counters n = \<lparr>counter_count = n, cmd_count = (if n = 0 then 0 else 4), resource_count = (if n = 0 then 0 else 2)\<rparr>"

definition rx_config :: mod_res_resource_perms_config where
  "rx_config = \<lparr>cfg_agent_count = 2, cfg_protocol_count = 9, clock_counters = rx_counters 0, sensor_counters = rx_counters 0, pd_counters = rx_counters 20,
     perf_counters = rx_counters 0, reset_domain_counters = rx_counters 0, voltd_counters = rx_counters 0, power_capping_counters = rx_counters 0,
     cfg_device_count = 1, cfg_agent_permissions = Some rx_tables,
     cfg_domain_devices = Some [\<lparr>rd_device_id = 0, rd_domain_devices =
       [\<lparr>dd_device_id = FWK_ID_ELEMENT 5 17, dd_type = MOD_RES_POWER_DOMAIN_DEVICE\<rparr>, \<lparr>dd_device_id = FWK_ID_NONE, dd_type = MOD_RES_DOMAIN_DEVICE_INVALID\<rparr>]\<rparr>]\<rparr>"

text \<open>The context that the initialisation leaves.\<close>

definition rx :: res_perms_ctx where
  "rx = snd (the (mod_res_perms_resources_init rx_env (Some rx_config) res_perms_reset))"

lemma rx_fields:
  "mod_res_perms_resources_init rx_env (Some rx_config) res_perms_reset = Some (FWK_SUCCESS, rx)"
  "rp_agent_count rx = 2" "rp_protocol_count rx = 9" "agent_permissions rx = Some rx_tables" "pd_count rx = 20" "rp_config rx = Some rx_config"
  "rp_device_count rx = 1" "domain_devices rx = cfg_domain_devices rx_config"
  "perms_table d (resources_perms_backup rx) = (if d = MOD_RES_POWER_DOMAIN_DEVICE then Some (replicate 16 0xDEAD) else None)"
proof -
  have init: "mod_res_perms_resources_init rx_env (Some rx_config) res_perms_reset = Some (FWK_SUCCESS, rx)"
    by (simp add: rx_def mod_res_perms_resources_init_def Let_def)
  then show "mod_res_perms_resources_init rx_env (Some rx_config) res_perms_reset = Some (FWK_SUCCESS, rx)" .
  show "rp_agent_count rx = 2" "rp_protocol_count rx = 9" "agent_permissions rx = Some rx_tables" "pd_count rx = 20" "rp_config rx = Some rx_config"
      "rp_device_count rx = 1" "domain_devices rx = cfg_domain_devices rx_config"
    by (simp_all add: rx_def mod_res_perms_resources_init_def Let_def rx_config_def rx_counters_def)
  show "perms_table d (resources_perms_backup rx) = (if d = MOD_RES_POWER_DOMAIN_DEVICE then Some (replicate 16 0xDEAD) else None)"
    by (cases d) (simp_all add: rx_def mod_res_perms_resources_init_def Let_def rx_config_def rx_counters_def rx_env_def alloc_perms_backup_def
      perms_words_def res_perms_reset_def map_replicate_const)
qed

lemma rx_ok: "res_ok rx" and rx_backup: "backup_ok rx"
proof -
  have pd: "t = replicate 16 0 \<and> d = MOD_RES_POWER_DOMAIN_DEVICE" if "perms_table d rx_tables = Some t" for d t
    using that by (cases d) (auto simp: rx_tables_def)
  have upper: "protocol_perms rx_tables = Some [0, 0x10]" "msg_perms rx_tables = None" "scmi_pd_perms rx_tables = Some (replicate 16 0)"
    by (simp_all add: rx_tables_def)
  show "res_ok rx"
    unfolding res_ok_def by (auto simp: rx_fields upper table_fits_def table_elements_def dest!: pd)
  have "perms_words rx (counters_of MOD_RES_POWER_DOMAIN_DEVICE rx_config) = 16"
    by (simp add: perms_words_def rx_fields rx_config_def rx_counters_def)
  then show "backup_ok rx"
    unfolding backup_ok_def by (auto simp: rx_fields upper dest!: pd split: if_splits)
qed

lemma rx_device: "device_of_protocol rx_env 0x11 = Some MOD_RES_POWER_DOMAIN_DEVICE" "device_of_protocol rx_env 0x14 = Some MOD_RES_CLOCK_DOMAIN_DEVICE"
  by (simp_all add: device_of_protocol_def res_consts)

theorem permissions_decided_by_tables_witness:
  "agent_protocol_permissions rx_env rx 2 0x14 = Some MOD_RES_PERMS_ACCESS_DENIED \<and>
   agent_message_permissions rx_env rx 2 0x14 5 = Some MOD_RES_PERMS_ACCESS_DENIED \<and>
   agent_resource_permissions rx_env rx 2 0x14 5 0 = Some MOD_RES_PERMS_ACCESS_DENIED"
proof -
  have agent: "(2 :: 32 word) - 1 < rp_agent_count rx" by (simp add: rx_fields)
  have "protocol_denied rx rx_tables 1 4" by (simp add: protocol_denied_def rx_tables_def rx_fields)
  then show ?thesis
    using permissions_decided_by_tables [OF rx_device(2) rx_ok rx_fields(4) agent, of 5 0] by (simp add: denied_if_def)
qed

text \<open>
  C38. Setting the permission of an agent for a resource, over all messages of the protocol that have
  permissions, updates one entry of the table of policies: this agent's access to this resource is
  then decided by the flags, below its access to the message, and every other agent, protocol, message
  and resource is decided as before. The bits of different entries do not share a place.
\<close>

theorem setting_updates_one_entry:
  assumes dev: "device_of_protocol env p = Some d" and ok: "res_ok c" and ap: "agent_permissions c = Some ap"
    and table: "perms_table d ap = Some t" and a: "a - 1 < rp_agent_count c" and r: "r < resources_of d c" "r < counter_count k"
    and room: "\<And>b. perms_table d (resources_perms_backup c) = Some b \<Longrightarrow> perms_words c k \<le> length t \<and> perms_words c k \<le> length b"
    and pp: "pp = \<lparr>pp_agent_id = a, pp_resource_id = r, pp_protocol_id = p, pp_flags = flags, start_message_idx = 3,
      end_message_idx = of_nat (2 + managed d), pp_device = d, pp_counters = k\<rparr>"
  shows "\<exists>c'. set_agent_resource_permissions env pp c = Some (FWK_SUCCESS, c') \<and> res_ok c' \<and>
    agent_protocol_permissions env c' = agent_protocol_permissions env c \<and> agent_message_permissions env c' = agent_message_permissions env c \<and>
    (\<forall>a' p' m r'. agent_resource_permissions env c' a' p' m r' =
      (if a' = a \<and> p' = p \<and> r' = r \<and> 3 \<le> m \<and> unat m < 3 + managed d
       then map_option (\<lambda>x. denied_if (x = MOD_RES_PERMS_ACCESS_DENIED \<or> flags = 0)) (agent_message_permissions env c a p m)
       else agent_resource_permissions env c a' p' m r'))"
proof -
  note fits = res_okD(3) [OF ok ap table]
  have hi: "unat (of_nat (2 + managed d) :: 32 word) = 2 + managed d"
    using managed_small [of d] by (simp only: unat_of_nat) (simp add: take_bit_nat_eq_self)
  let ?ms = "[unat (start_message_idx pp)..<Suc (unat (end_message_idx pp))]"
  have ms: "set ?ms = {3..<3 + managed d}" by (simp only: pp agent_resource_permissions_params.simps hi) auto
  define b where "b = (case perms_table d (resources_perms_backup c) of None \<Rightarrow> resources_perms_backup c
    | Some old \<Rightarrow> put_table d (take (perms_words c k) t @ drop (perms_words c k) old) (resources_perms_backup c))"
  let ?cb = "c\<lparr>resources_perms_backup := b\<rparr>"
  have fits_b: "table_fits ?cb d (length t)" and agents_b: "a - 1 < rp_agent_count ?cb" and r_b: "r < resources_of d ?cb"
    and place_b: "place ?cb d = place c d" and res_b: "resources_of d ?cb = resources_of d c"
    using fits a r by (cases d; simp add: table_fits_def place_def fun_eq_iff)+
  have ms_b: "\<forall>m \<in> set ?ms. 3 \<le> m \<and> m < 3 + managed d" unfolding ms by simp
  have pps: "pp_agent_id pp = a" "pp_protocol_id pp = p" "pp_resource_id pp = r" by (simp_all add: pp)
  from set_messages_bits [OF dev ms_b fits_b agents_b r_b pps] obtain t' where
    t': "set_messages env ?cb pp ?ms t = Some (FWK_SUCCESS, t')" "length t' = length t" and
    bits: "\<And>agent message r'. agent < unat (rp_agent_count c) \<Longrightarrow> message < managed d \<Longrightarrow> r' < unat (resources_of d c) \<Longrightarrow>
      bit (t' ! place c d agent message r') (r' mod 16) \<longleftrightarrow>
      (if agent = unat (a - 1) \<and> r' = unat r then flags = 0 else bit (t ! place c d agent message r') (r' mod 16))"
    unfolding place_b res_b ms by (auto simp: pp)
  let ?c = "with_table d t' ap b c"
  have run: "set_agent_resource_permissions env pp c = Some (FWK_SUCCESS, ?c)"
    using ap table r(2) t'(1) room
    by (cases "perms_table d (resources_perms_backup c)")
       (auto simp: set_agent_resource_permissions_def pp b_def backup_resource_permission_def Let_def with_table_def not_le)
  have ok': "res_ok ?c" by (rule with_table_ok [OF ok ap dev]) (use fits t'(2) in simp)
  have ap': "agent_permissions ?c = Some (put_table d t' ap)" by simp
  have decide: "agent_resource_permissions env ?c a' p m r' =
      (if a' = a \<and> r' = r \<and> 3 \<le> m \<and> unat m < 3 + managed d
       then map_option (\<lambda>x. denied_if (x = MOD_RES_PERMS_ACCESS_DENIED \<or> flags = 0)) (agent_message_permissions env c a p m)
       else agent_resource_permissions env c a' p m r')" if a': "a' - 1 < rp_agent_count c" for a' m r'
  proof -
    have a'': "a' - 1 < rp_agent_count ?c" using a' by simp
    have upper: "protocol_denied ?c (put_table d t' ap) = protocol_denied c ap" "message_denied env d (put_table d t' ap) = message_denied env d ap"
      by (simp_all add: protocol_denied_def message_denied_def fun_eq_iff cong: option.case_cong)
    have eq: "unat (a' - 1) = unat (a - 1) \<longleftrightarrow> a' = a" by (simp add: word_unat_eq_iff [symmetric])
    have m3: "3 \<le> unat m \<longleftrightarrow> 3 \<le> m" by (simp add: word_le_nat_alt)
    have agent: "unat (a' - 1) < unat (rp_agent_count c)" using a' by (simp add: word_less_nat_alt)
    have rb: "resource_bit ?c d (put_table d t' ap) (unat (a' - 1)) (unat m - 3) (unat r') \<longleftrightarrow>
        (if a' = a \<and> r' = r then flags = 0 else resource_bit c d ap (unat (a' - 1)) (unat m - 3) (unat r'))"
      if "3 \<le> m" "unat m < 3 + managed d" "unat r' < unat (resources_of d c)"
      using bits [OF agent _ that(3), of "unat m - 3"] that m3 table
      by (simp add: resource_bit_def perms_table_put [OF dev] eq word_unat_eq_iff [symmetric])
    have "resource_denied env ?c d (put_table d t' ap) (unat (a' - 1)) (unat m) (unat r') \<longleftrightarrow>
        (if a' = a \<and> r' = r \<and> 3 \<le> m \<and> unat m < 3 + managed d then flags = 0 else resource_denied env c d ap (unat (a' - 1)) (unat m) (unat r'))"
      using rb r(1) managed_commands [OF dev] table m3
      by (cases "unat r' < unat (resources_of d c)") (auto simp: resource_denied_def perms_table_put [OF dev] not_less word_less_nat_alt)
    then show ?thesis
      unfolding resource_decision [OF dev ok' ap' a''] resource_decision [OF dev ok ap a'] message_decision [OF dev ok ap a] upper by auto
  qed
  have "agent_resource_permissions env ?c a' p' m r' =
      (if a' = a \<and> p' = p \<and> r' = r \<and> 3 \<le> m \<and> unat m < 3 + managed d
       then map_option (\<lambda>x. denied_if (x = MOD_RES_PERMS_ACCESS_DENIED \<or> flags = 0)) (agent_message_permissions env c a p m)
       else agent_resource_permissions env c a' p' m r')" for a' p' m r'
    using decide [of a' m r'] with_table_other [OF dev ap, of p' a'] a by (cases "p' = p \<and> a' - 1 < rp_agent_count c") auto
  then show ?thesis using run ok' with_table_upper [OF ap, of env d t' b] by blast
qed

theorem setting_updates_one_entry_witness:
  "\<exists>c'. set_agent_resource_permissions rx_env
      \<lparr>pp_agent_id = 2, pp_resource_id = 17, pp_protocol_id = 0x11, pp_flags = 0, start_message_idx = 3, end_message_idx = 6,
       pp_device = MOD_RES_POWER_DOMAIN_DEVICE, pp_counters = rx_counters 20\<rparr> rx = Some (FWK_SUCCESS, c') \<and>
    agent_resource_permissions rx_env rx 2 0x11 4 17 = Some MOD_RES_PERMS_ACCESS_ALLOWED \<and>
    agent_resource_permissions rx_env c' 2 0x11 4 17 = Some MOD_RES_PERMS_ACCESS_DENIED \<and>
    agent_resource_permissions rx_env c' 2 0x11 4 16 = agent_resource_permissions rx_env rx 2 0x11 4 16"
proof -
  have pd: "perms_table MOD_RES_POWER_DOMAIN_DEVICE rx_tables = Some (replicate 16 0)" by (simp add: rx_tables_def)
  have agent: "(2 :: 32 word) - 1 < rp_agent_count rx" and res: "(17 :: 32 word) < resources_of MOD_RES_POWER_DOMAIN_DEVICE rx"
      "(17 :: 32 word) < counter_count (rx_counters 20)"
    by (simp_all add: rx_fields rx_counters_def)
  have room: "perms_words rx (rx_counters 20) \<le> length (replicate 16 (0 :: 16 word)) \<and> perms_words rx (rx_counters 20) \<le> length b"
    if "perms_table MOD_RES_POWER_DOMAIN_DEVICE (resources_perms_backup rx) = Some b" for b
    using that by (auto simp: rx_fields perms_words_def rx_counters_def)
  have decided: "agent_message_permissions rx_env rx 2 0x11 4 = Some MOD_RES_PERMS_ACCESS_ALLOWED"
      "agent_resource_permissions rx_env rx 2 0x11 4 17 = Some MOD_RES_PERMS_ACCESS_ALLOWED"
    unfolding message_decision [OF rx_device(1) rx_ok rx_fields(4) agent] resource_decision [OF rx_device(1) rx_ok rx_fields(4) agent]
    by (simp_all add: protocol_denied_def message_denied_def resource_denied_def resource_bit_def rx_fields rx_tables_def
        place_def flat_index_def table_elements_def denied_if_def)
  obtain c' where c': "set_agent_resource_permissions rx_env
      \<lparr>pp_agent_id = 2, pp_resource_id = 17, pp_protocol_id = 0x11, pp_flags = 0, start_message_idx = 3,
       end_message_idx = of_nat (2 + managed MOD_RES_POWER_DOMAIN_DEVICE), pp_device = MOD_RES_POWER_DOMAIN_DEVICE, pp_counters = rx_counters 20\<rparr> rx =
      Some (FWK_SUCCESS, c')"
    and "\<And>a' p' m r'. agent_resource_permissions rx_env c' a' p' m r' =
      (if a' = 2 \<and> p' = 0x11 \<and> r' = 17 \<and> 3 \<le> m \<and> unat m < 3 + managed MOD_RES_POWER_DOMAIN_DEVICE
       then map_option (\<lambda>x. denied_if (x = MOD_RES_PERMS_ACCESS_DENIED \<or> (0 :: 32 word) = 0)) (agent_message_permissions rx_env rx 2 0x11 m)
       else agent_resource_permissions rx_env rx a' p' m r')"
    using setting_updates_one_entry [OF rx_device(1) rx_ok rx_fields(4) pd agent res room refl, of 0] by blast
  from this(2) [of 2 "0x11" 4 17] this(2) [of 2 "0x11" 4 16] this(1) decided show ?thesis
    by (intro exI [of _ c']) (simp add: denied_if_def)
qed

text \<open>
  C39. A request to set the permission of an agent for a device changes no permission: for every agent,
  device and flags it succeeds, at most a backup is taken, and the three questions are answered as
  before.
\<close>

theorem device_request_changes_nothing:
  assumes "device_request device_id flags c = Some (Inr devs)" and "parts_end devs" and "backup_ok c"
  shows "\<exists>c'. mod_res_agent_set_device_permission env agent_id device_id flags c = Some (FWK_SUCCESS, c') \<and>
    agent_protocol_permissions env c' = agent_protocol_permissions env c \<and> agent_message_permissions env c' = agent_message_permissions env c \<and>
    agent_resource_permissions env c' = agent_resource_permissions env c"
proof -
  obtain b where "set_parts env None agent_id flags devs c = Some (FWK_SUCCESS, c\<lparr>resources_perms_backup := b\<rparr>)"
    using set_parts_only_backup [OF assms(2,3)] by blast
  then show ?thesis
    using assms(1) backup_irrelevant [of env b c] by (simp add: mod_res_agent_set_device_permission_def)
qed

theorem device_request_changes_nothing_witness:
  "\<exists>c'. mod_res_agent_set_device_permission rx_env 2 0 0 rx = Some (FWK_SUCCESS, c') \<and>
    agent_protocol_permissions rx_env c' = agent_protocol_permissions rx_env rx \<and> agent_message_permissions rx_env c' = agent_message_permissions rx_env rx \<and>
    agent_resource_permissions rx_env c' = agent_resource_permissions rx_env rx"
proof -
  define devs where "devs = [\<lparr>dd_device_id = FWK_ID_ELEMENT 5 17, dd_type = MOD_RES_POWER_DOMAIN_DEVICE\<rparr>,
    \<lparr>dd_device_id = FWK_ID_NONE, dd_type = MOD_RES_DOMAIN_DEVICE_INVALID\<rparr>]"
  have req: "device_request 0 0 rx = Some (Inr devs)"
    by (simp add: device_request_def rx_fields rx_config_def devs_def numeral_eq_Suc)
  have "fwk_id_type_is_valid (FWK_ID_ELEMENT 5 17)" "fwk_id_get_element_idx (FWK_ID_ELEMENT 5 17) \<noteq> None"
    by (simp_all add: fwk_id_get_element_idx_def)
  then have "parts_end devs" by (simp add: devs_def)
  from device_request_changes_nothing [OF req this rx_backup, of rx_env 2] show ?thesis .
qed

end
