(* ===== verification/Mod_Scmi_Perms.thy ===== *)
theory Mod_Scmi_Perms
  imports Mod_Scmi_Props Mod_Res_Props
begin

text \<open>
  The Base protocol in builds with resource permissions: what it relies on in the module that holds
  the permissions is a locale, which the model of \<^verbatim>\<open>module/resource_perms\<close> interprets.
\<close>

section \<open>What the Base protocol relies on\<close>

text \<open>
  For one agent, and where the state \<open>w\<close> is \<open>good\<close>, the question for a protocol is answered by
  \<open>allowed\<close> and changes nothing.
\<close>

locale protocol_permissions =
  fixes calls :: "'w res_perms_calls"
    and agent :: "32 word"
    and good :: "'w \<Rightarrow> bool"
    and allowed :: "'w \<Rightarrow> 32 word \<Rightarrow> bool"
  assumes permission_law: "good w \<Longrightarrow> rp_agent_has_protocol_permission calls agent p w = Some (denied_if (\<not> allowed w p), w)"

definition asks_permissions :: "'w scmi_env \<Rightarrow> 'w res_perms_calls \<Rightarrow> 'w scmi_ctx \<Rightarrow> bool" where
  "asks_permissions env calls s \<longleftrightarrow>
     has_resource_perms (scmi_bc env) \<and> (\<exists>api. res_perms_api s = Some api \<and> scmi_res_perms env api = calls)"

text \<open>The protocols that an agent may use among the bound ones, the Base protocol aside.\<close>

definition permitted :: "8 word list \<Rightarrow> (32 word \<Rightarrow> bool) \<Rightarrow> nat list" where
  "permitted ids may = filter (\<lambda>i. ids ! i \<noteq> 0 \<and> i \<noteq> 16 \<and> may (of_nat i)) [0..<256]"

lemma call_world_keeps: "f (scmi_world s) = Some (r, scmi_world s) \<Longrightarrow> call_world f s = Some (r, s)"
  by (simp add: call_world_def)

context protocol_permissions
begin

lemma has_permission:
  assumes "asks_permissions env calls s" and "good (scmi_world s)" and "res_perms_api s = Some api"
  shows "call_world (rp_agent_has_protocol_permission (scmi_res_perms env api) agent p) s = Some (denied_if (\<not> allowed (scmi_world s) p), s)"
  using assms permission_law by (intro call_world_keeps) (auto simp: asks_permissions_def)

lemma permissions_handler_decides:
  assumes "asks_permissions env calls s" and "good (scmi_world s)" and "get_agent_id tgt (Some 0) s = Some (FWK_SUCCESS, Some agent)"
  shows "scmi_permissions_handler env tgt m p s = Some (if m < MOD_SCMI_MESSAGE_ID_ATTRIBUTE \<and> \<not> allowed (scmi_world s) p then FWK_E_ACCESS else FWK_SUCCESS, s)"
proof -
  obtain api where "res_perms_api s = Some api" using assms(1) by (auto simp: asks_permissions_def)
  then show ?thesis using assms(3) has_permission [OF assms(1,2)] by (simp add: scmi_permissions_handler_def)
qed

lemma list_entry_decides:
  assumes "asks_permissions env calls s" and "good (scmi_world s)"
  shows "list_entry_allowed env agent kind p s = Some (allowed (scmi_world s) p, s)"
proof -
  obtain api where "res_perms_api s = Some api" using assms(1) by (auto simp: asks_permissions_def)
  then show ?thesis using assms(1) has_permission [OF assms, of api p] by (auto simp: list_entry_allowed_def asks_permissions_def)
qed

lemma count_allowed_filter:
  assumes "asks_permissions env calls s" and "good (scmi_world s)" and "scmi_protocol_id_to_idx s = ids" and "length ids = 256"
    and "\<forall>i \<in> set is. i < 256" and "global + length (filter (\<lambda>i. ids ! i \<noteq> 0 \<and> i \<noteq> 16) is) \<le> unat (protocol_count s)"
  shows "count_allowed env agent is global n s =
    Some (n + length (filter (\<lambda>i. ids ! i \<noteq> 0 \<and> i \<noteq> 16 \<and> allowed (scmi_world s) (of_nat i)) is), s)"
  using assms(5,6)
proof (induction "is" arbitrary: global n)
  case (Cons i rest)
  obtain api where api: "res_perms_api s = Some api" using assms(1) by (auto simp: asks_permissions_def)
  have idx: "elem_at (scmi_protocol_id_to_idx s) i = Some (ids ! i)" using Cons.prems(1) assms(3,4) by (simp add: elem_at_def)
  have rest: "\<forall>i \<in> set rest. i < 256" using Cons.prems(1) by simp
  show ?case
  proof (cases "unat (protocol_count s) \<le> global")
    case True
    then have "length (filter (\<lambda>i. ids ! i \<noteq> 0 \<and> i \<noteq> 16) (i # rest)) = 0" using Cons.prems(2) by linarith
    then have "filter (\<lambda>i. ids ! i \<noteq> 0 \<and> i \<noteq> 16 \<and> allowed (scmi_world s) (of_nat i)) (i # rest) = []"
      unfolding length_0_conv by (auto simp only: filter_empty_conv)
    then show ?thesis using True by simp
  next
    case False
    show ?thesis
    proof (cases "ids ! i \<noteq> 0 \<and> i \<noteq> 16")
      case True
      then show ?thesis
        using False Cons.IH [OF rest, of "global + 1"] Cons.prems(2)
        by (simp add: idx api has_permission [OF assms(1,2) api] MOD_SCMI_PROTOCOL_ID_BASE_def denied_if_def MOD_RES_PERMS_ACCESS_ALLOWED_def MOD_RES_PERMS_ACCESS_DENIED_def)
    next
      case unused: False
      then show ?thesis
        using False Cons.IH [OF rest, of global] Cons.prems(2) by (auto simp: idx MOD_SCMI_PROTOCOL_ID_BASE_def)
    qed
  qed
qed simp

lemma attributes_count_permitted:
  assumes "asks_permissions env calls s" and "good (scmi_world s)" and "get_agent_id tgt (Some 0) s = Some (FWK_SUCCESS, Some agent)"
    and "tables_bound (unat (protocol_count s)) s" and "scmi_config s = Some config"
  shows "scmi_base_protocol_attributes_handler env tgt payload s =
    respond env tgt (Some (status_bytes SCMI_SUCCESS @ le32 (SCMI_BASE_PROTOCOL_ATTRIBUTES
      (of_nat (length (permitted (scmi_protocol_id_to_idx s) (allowed (scmi_world s))))) (agent_count config)))) 8 s"
proof -
  let ?ids = "scmi_protocol_id_to_idx s"
  have len: "length ?ids = 256" and card: "card (used_ids ?ids) = unat (protocol_count s)"
    using assms(4) by (simp_all add: tables_bound_def)
  have "length (filter (\<lambda>i. ?ids ! i \<noteq> 0 \<and> i \<noteq> 16) [0..<256]) = card (set (filter (\<lambda>i. ?ids ! i \<noteq> 0 \<and> i \<noteq> 16) [0..<256]))"
    by (intro distinct_card [symmetric] distinct_filter distinct_upt)
  also have "set (filter (\<lambda>i. ?ids ! i \<noteq> 0 \<and> i \<noteq> 16) [0..<256]) = used_ids ?ids"
    by (simp only: set_filter set_upt used_ids_def) auto
  finally have used: "0 + length (filter (\<lambda>i. ?ids ! i \<noteq> 0 \<and> i \<noteq> 16) [0..<256]) \<le> unat (protocol_count s)" using card by simp
  have all: "\<forall>i \<in> set [0..<256]. i < (256 :: nat)" by (intro ballI) (simp only: set_upt atLeastLessThan_iff)
  have count: "count_allowed env agent [0..<256] 0 0 s = Some (length (permitted ?ids (allowed (scmi_world s))), s)"
    using count_allowed_filter [OF assms(1,2) refl len all used, of 0] by (simp only: permitted_def add_0)
  have rp: "has_resource_perms (scmi_bc env)" using assms(1) by (simp add: asks_permissions_def)
  show ?thesis
    unfolding scmi_base_protocol_attributes_handler_def assms(3) Option.bind.bind_lunit prod.case
    using rp count assms(5) by simp
qed

end

section \<open>The module that provides it\<close>

text \<open>
  The functions of the interface over a state that holds the context of the module: \<open>get\<close> and \<open>put\<close>
  read and write it.
\<close>

definition res_perms_functions :: "res_env \<Rightarrow> ('w \<Rightarrow> res_perms_ctx) \<Rightarrow> (res_perms_ctx \<Rightarrow> 'w \<Rightarrow> 'w) \<Rightarrow> 'w res_perms_calls" where
  "res_perms_functions renv get put =
     \<lparr>rp_agent_has_protocol_permission = (\<lambda>a p w. do { x \<leftarrow> agent_protocol_permissions renv (get w) a p; Some (x, w) }),
      rp_agent_set_device_permission = (\<lambda>a d f w. do { (st, c) \<leftarrow> mod_res_agent_set_device_permission renv a d f (get w); Some (st, put c w) }),
      rp_agent_set_device_protocol_permission =
        (\<lambda>a d p f w. do { (st, c) \<leftarrow> mod_res_agent_set_device_protocol_permission renv a d p f (get w); Some (st, put c w) }),
      rp_agent_reset_config = (\<lambda>a f w. do { (st, c) \<leftarrow> mod_res_agent_reset_config renv a f (get w); Some (st, put c w) })\<rparr>"

text \<open>
  Every protocol is decided one way or the other; a platform's own decisions are one of the two values.
\<close>

definition plat_decides :: "res_env \<Rightarrow> bool" where
  "plat_decides renv \<longleftrightarrow> (\<forall>a p. plat_agent_protocol_permissions (res_plat renv) a p \<in> {MOD_RES_PERMS_ACCESS_ALLOWED, MOD_RES_PERMS_ACCESS_DENIED})"

lemma weak_decides: "res_plat renv = weak_platform \<Longrightarrow> plat_decides renv"
  by (simp add: plat_decides_def weak_platform_def)

lemma protocol_permission_total:
  assumes "res_ok c" and "plat_decides renv"
  shows "\<exists>b. agent_protocol_permissions renv c a p = Some (denied_if b)"
proof -
  have const: "\<exists>b. x = denied_if b" if "x \<in> {MOD_RES_PERMS_ACCESS_ALLOWED, MOD_RES_PERMS_ACCESS_DENIED}" for x
    using that by (auto simp: denied_if_def)
  show ?thesis
  proof (cases "if a = 0 then None else do { ap \<leftarrow> agent_permissions c; protocol_perms ap }")
    case None
    then have "agent_protocol_permissions renv c a p = Some MOD_RES_PERMS_ACCESS_ALLOWED" by (simp add: agent_protocol_permissions_def)
    then show ?thesis by (intro exI [of _ False]) simp
  next
    case (Some t)
    then obtain ap where ap: "agent_permissions c = Some ap" "protocol_perms ap = Some t" by (auto simp: bind_Some_iff split: if_splits)
    have in_table: "elem_at t (unat (a - 1)) = Some (t ! unat (a - 1))" if "a - 1 < rp_agent_count c"
      using res_okD(1) [OF assms(1) ap] that by (simp add: elem_at_def word_less_nat_alt)
    show ?thesis
      unfolding agent_protocol_permissions_def Some option.case
      using const assms(2) by (auto simp: in_table plat_decides_def mod_res_agent_id_to_index_def Let_def split: option.splits)
  qed
qed

interpretation rp: protocol_permissions "res_perms_functions renv get put" a "\<lambda>w. res_ok (get w) \<and> plat_decides renv"
    "\<lambda>w p. agent_protocol_permissions renv (get w) a p = Some MOD_RES_PERMS_ACCESS_ALLOWED"
  for renv get put a
proof unfold_locales
  fix w p
  assume "res_ok (get w) \<and> plat_decides renv"
  then obtain b where "agent_protocol_permissions renv (get w) a p = Some (denied_if b)" using protocol_permission_total by blast
  then show "rp_agent_has_protocol_permission (res_perms_functions renv get put) a p w =
      Some (denied_if (agent_protocol_permissions renv (get w) a p \<noteq> Some MOD_RES_PERMS_ACCESS_ALLOWED), w)"
    by (simp add: res_perms_functions_def)
qed

section \<open>The list on a channel\<close>

text \<open>
  The state of the module that holds the permissions is part of what is outside of the channels, and a
  channel on which a message is pending does not change it: so the loop that lists the protocols asks
  for each of them and leaves out those that the agent may not use.
\<close>

lemma permitted_open: "permitted ids may = filter (open_protocol ids may) [0..<256]"
  by (simp only: permitted_def open_protocol_def [abs_def])

lemma permitted_length_le:
  assumes "tables_bound (unat (protocol_count s)) s"
  shows "length (permitted (scmi_protocol_id_to_idx s) may) \<le> unat (protocol_count s)" and "length (permitted ids may) \<le> 256"
proof -
  have card: "length (permitted ids may) = card {i \<in> used_ids ids. may (of_nat i)}" for ids
  proof -
    have "length (permitted ids may) = card (set (permitted ids may))"
      unfolding permitted_def by (intro distinct_card [symmetric] distinct_filter distinct_upt)
    also have "set (permitted ids may) = {i \<in> used_ids ids. may (of_nat i)}"
      by (simp only: permitted_def set_filter set_upt used_ids_def) auto
    finally show ?thesis .
  qed
  have fin: "finite (used_ids ids)" for ids by (rule finite_subset [of _ "{..<256}"]) (auto simp: used_ids_def)
  have "card {i \<in> used_ids (scmi_protocol_id_to_idx s). may (of_nat i)} \<le> card (used_ids (scmi_protocol_id_to_idx s))"
    by (rule card_mono [OF fin]) auto
  then show "length (permitted (scmi_protocol_id_to_idx s) may) \<le> unat (protocol_count s)"
    using assms by (simp add: card tables_bound_def)
  have "length (permitted ids may) \<le> length [0..<256 :: nat]" unfolding permitted_def by (rule length_filter_le)
  then show "length (permitted ids may) \<le> 256" by (simp only: length_upt diff_zero)
qed

lemma page_reply_all:
  assumes "length ps \<le> cnt" and "length ps \<le> 256" and "room < 2 ^ 31" and "8 \<le> room"
  shows "page_reply room cnt (unat skip) ps =
    (if length ps < unat (skip :: 32 word) then base_status SCMI_INVALID_PARAMETERS
     else let qs = take (room - 8) (drop (unat skip) ps)
       in (status_bytes SCMI_SUCCESS @ le32 (of_nat (length qs)) @ map of_nat qs, (8 + length qs + 3) div 4 * 4))"
proof (cases "length ps < unat skip")
  case True
  have "length (take k ps) < unat skip" for k using True by simp
  then show ?thesis using True by (simp add: page_reply_def page_def Let_def)
next
  case False
  have "unat skip + (room - 8) < 2 ^ 32" using False assms(2,3) by simp
  then have add: "size_add (unat skip) (room - 8) = unat skip + (room - 8)" by (rule size_add_no_wrap)
  have take: "take (min cnt (unat skip + (room - 8))) ps = take (unat skip + (room - 8)) ps"
    using assms(1) by (simp add: min_def)
  have "page (room - 8) cnt (unat skip) ps = Some (take (room - 8) (drop (unat skip) ps))"
    unfolding page_def add take Let_def using False by (simp add: drop_take)
  then show ?thesis using False by (simp add: page_reply_def Let_def)
qed

lemma list_handler_permitted:
  assumes asks: "asks_permissions env (res_perms_functions renv (\<lambda>w. g (smt_outside w)) put) s"
    and good: "res_ok (g (smt_outside (scmi_world s)))" "plat_decides renv"
    and c: "on_channel env (smt_mod_scmi_to_transport_api senv) ch tgt config s"
    and pend: "smt_pending senv ch (smt_outside (scmi_world s)) h (le32 skip) n (scmi_world s)"
    and bound: "tables_bound (unat (protocol_count s)) s" and room: "24 \<le> n" "n mod 4 = 0"
    and may: "may = (\<lambda>p. agent_protocol_permissions renv (g (smt_outside (scmi_world s))) (cfg_scmi_agent_id config) p = Some MOD_RES_PERMS_ACCESS_ALLOWED)"
  shows "\<exists>st w bs. scmi_base_discover_list_protocols_handler env tgt (Some (le32 skip)) s = Some (st, s\<lparr>scmi_world := w\<rparr>) \<and>
    smt_answered senv ch (smt_outside (scmi_world s)) h bs w \<and>
    replies bs (page_reply n (unat (protocol_count s)) (unat skip) (permitted (scmi_protocol_id_to_idx s) may))"
proof -
  have rp: "has_resource_perms (scmi_bc env)" using asks by (simp add: asks_permissions_def)
  have skip: "parameter 0 (Some (le32 skip)) = Some skip" using get_u32_le32 [of skip "[]"] by (simp add: parameter_def)
  have kind: "(if has_resource_perms (scmi_bc env) then Some (FWK_SUCCESS, Some 0) else get_agent_type (cfg_scmi_agent_id config) (Some 0) s) =
      Some (FWK_SUCCESS, Some 0)"
    using rp by simp
  have count: "list_protocol_count env 0 s = Some (unat (protocol_count s))" using rp by (simp add: list_protocol_count_def)
  have entry: "list_entry_allowed env (cfg_scmi_agent_id config) 0 q (s\<lparr>scmi_world := w\<rparr>) = Some (may q, s\<lparr>scmi_world := w\<rparr>)"
    if "smt_pending senv ch (smt_outside (scmi_world s)) h (le32 skip) n w" for w q
  proof -
    have same: "smt_outside w = smt_outside (scmi_world s)" using that by (simp add: smt_pending_def)
    have "asks_permissions env (res_perms_functions renv (\<lambda>w. g (smt_outside w)) put) (s\<lparr>scmi_world := w\<rparr>)" using asks by (simp add: asks_permissions_def)
    moreover have "res_ok (g (smt_outside (scmi_world (s\<lparr>scmi_world := w\<rparr>)))) \<and> plat_decides renv" using good same by simp
    ultimately have "list_entry_allowed env (cfg_scmi_agent_id config) 0 q (s\<lparr>scmi_world := w\<rparr>) =
        Some (agent_protocol_permissions renv (g (smt_outside (scmi_world (s\<lparr>scmi_world := w\<rparr>)))) (cfg_scmi_agent_id config) q =
          Some MOD_RES_PERMS_ACCESS_ALLOWED, s\<lparr>scmi_world := w\<rparr>)"
      by (rule rp.list_entry_decides)
    then show ?thesis using same may by simp
  qed
  have len: "length (scmi_protocol_id_to_idx s) = 256" using bound by (simp add: tables_bound_def)
  show ?thesis
    by (rule smt.list_handler_page [OF c pend skip kind count entry len refl room permitted_open])
qed

section \<open>The property\<close>

text \<open>
  C40. In a build with resource permissions the Base protocol follows the module that holds them: the
  number of protocols it tells an agent is that of the bound protocols the agent may use; its answer
  to BASE_DISCOVER_LIST_PROTOCOLS on a message channel is, for every number of protocols to skip, the
  next page of exactly those protocols in increasing order, or INVALID_PARAMETERS where fewer are left
  than are to be skipped; and the first three messages of a protocol are refused to an agent that may
  not use it.
\<close>

theorem base_protocol_follows_permissions:
  assumes "asks_permissions env (res_perms_functions renv (\<lambda>w. g (smt_outside w)) put) s"
    and "res_ok (g (smt_outside (scmi_world s)))" and "plat_decides renv"
    and "on_channel env (smt_mod_scmi_to_transport_api senv) ch tgt service s"
    and "tables_bound (unat (protocol_count s)) s" and "scmi_config s = Some config"
    and "smt_pending senv ch (smt_outside (scmi_world s)) h (le32 skip) n (scmi_world s)" and "24 \<le> n" and "n < 2 ^ 31" and "n mod 4 = 0"
    and "a = cfg_scmi_agent_id service"
    and "may = (\<lambda>p. agent_protocol_permissions renv (g (smt_outside (scmi_world s))) a p = Some MOD_RES_PERMS_ACCESS_ALLOWED)"
    and "ps = permitted (scmi_protocol_id_to_idx s) may" and "qs = take (n - 8) (drop (unat skip) ps)"
  shows "scmi_base_protocol_attributes_handler env tgt payload s =
      respond env tgt (Some (status_bytes SCMI_SUCCESS @ le32 (SCMI_BASE_PROTOCOL_ATTRIBUTES (of_nat (length ps)) (agent_count config)))) 8 s \<and>
    (\<exists>st w bs. scmi_base_discover_list_protocols_handler env tgt (Some (le32 skip)) s = Some (st, s\<lparr>scmi_world := w\<rparr>) \<and>
       smt_answered senv ch (smt_outside (scmi_world s)) h bs w \<and>
       replies bs (if length ps < unat skip then base_status SCMI_INVALID_PARAMETERS
         else (status_bytes SCMI_SUCCESS @ le32 (of_nat (length qs)) @ map of_nat qs, (8 + length qs + 3) div 4 * 4))) \<and>
    list_entry_allowed env a kind p s = Some (may p, s) \<and>
    scmi_permissions_handler env tgt m p s = Some (if m < 3 \<and> \<not> may p then FWK_E_ACCESS else FWK_SUCCESS, s)"
proof -
  have good: "res_ok (g (smt_outside (scmi_world s))) \<and> plat_decides renv" using assms(2,3) by blast
  have agent: "get_agent_id tgt (Some 0) s = Some (FWK_SUCCESS, Some a)" unfolding assms(11) by (rule get_agent_id_on_channel [OF assms(4)])
  have page: "page_reply n (unat (protocol_count s)) (unat skip) ps =
      (if length ps < unat skip then base_status SCMI_INVALID_PARAMETERS
       else (status_bytes SCMI_SUCCESS @ le32 (of_nat (length qs)) @ map of_nat qs, (8 + length qs + 3) div 4 * 4))"
    using page_reply_all [of ps "unat (protocol_count s)" n skip] permitted_length_le [OF assms(5)] assms(8,9) unfolding assms(13,14) Let_def by simp
  have may: "may = (\<lambda>p. agent_protocol_permissions renv (g (smt_outside (scmi_world s))) (cfg_scmi_agent_id service) p = Some MOD_RES_PERMS_ACCESS_ALLOWED)"
    unfolding assms(12,11) ..
  have list: "\<exists>st w bs. scmi_base_discover_list_protocols_handler env tgt (Some (le32 skip)) s = Some (st, s\<lparr>scmi_world := w\<rparr>) \<and>
       smt_answered senv ch (smt_outside (scmi_world s)) h bs w \<and>
       replies bs (if length ps < unat skip then base_status SCMI_INVALID_PARAMETERS
         else (status_bytes SCMI_SUCCESS @ le32 (of_nat (length qs)) @ map of_nat qs, (8 + length qs + 3) div 4 * 4))"
    using list_handler_permitted [OF assms(1-4,7,5,8,10) may] unfolding assms(13) [symmetric] page .
  show ?thesis
    using list rp.attributes_count_permitted [OF assms(1) good agent assms(5,6)] rp.list_entry_decides [OF assms(1) good]
      rp.permissions_handler_decides [OF assms(1) good agent]
    unfolding assms(12) assms(13) [unfolded assms(12)] by (simp add: scmi_consts)
qed

text \<open>
  An example: the context of the module of permissions is what is outside of the channels, and the
  service is that of agent 2, which may not use the clock protocol. The message that is pending on its
  channel asks for the list from the first protocol on.
\<close>

definition px_smt :: "(res_perms_ctx, res_perms_ctx smt_ctx scmi_ctx) smt_env" where
  "px_smt =
     \<lparr>smt_srv = scx_services undefined id, raise_notification = (\<lambda>a. Some (\<lambda>i k m. Some (FWK_SUCCESS, m))),
      scmi_signal_message = (\<lambda>a. None), smt_of = scmi_world, smt_put = (\<lambda>m s. s\<lparr>scmi_world := m\<rparr>), smt_scmi_idx = 1,
      smt_transport_api = 5, smt_driver_input_api = 6\<rparr>"

definition px_world :: "res_perms_ctx smt_ctx" where
  "px_world = \<lparr>channel_ctx_table = channel_ctx_table (scx_world True scx_message), channel_count = 1,
     smt_memory = smt_memory (scx_world True scx_message), smt_outside = rx\<rparr>"

definition px_env :: "res_perms_ctx smt_ctx scmi_env" where
  "px_env =
     \<lparr>scmi_bc = \<lparr>strict_checks = False, mode_debug = False, marked_list = False, has_notification = False, has_resource_perms = True,
        has_base_protocol = True, has_scmi_notifications = False\<rparr>,
      scmi_srv = scx_services undefined id, srv_element_name = (\<lambda>i w. Some None), srv_service_config = (\<lambda>i w. None),
      scmi_transports = (\<lambda>a. smt_mod_scmi_to_transport_api px_smt),
      scmi_protocols = (\<lambda>a. \<lparr>get_scmi_protocol_id_fn = None, message_handler_fn = None, notification_handler_fn = None\<rparr>),
      scmi_res_perms = (\<lambda>a. res_perms_functions rx_env (\<lambda>w. id (smt_outside w)) (\<lambda>c w. w\<lparr>smt_outside := c\<rparr>)),
      scmi_module_idx = 1, res_perms_module_idx = 3, from_protocol_api = 1, from_protocol_req_api = 2, from_transport_api = 3,
      notification_api = 4, fwk_build_version = 7\<rparr>"

definition px :: "res_perms_ctx smt_ctx scmi_ctx" where
  "px = (scx_bound px_world)\<lparr>
     scmi_config := Some (scx_config\<lparr>agent_count := 2, agent_table := agent_table scx_config @ [\<lparr>ag_type = 2, ag_name = None\<rparr>]\<rparr>),
     service_ctx_table := map (\<lambda>s. s\<lparr>svc_config := Some (scx_service_config\<lparr>cfg_scmi_agent_id := 2\<rparr>)\<rparr>) (service_ctx_table (scx_bound px_world)),
     res_perms_api := Some 7\<rparr>"

abbreviation "px_ids \<equiv> (replicate 256 (0 :: 8 word))[16 := 1, 17 := 2, 20 := 3]"

lemma px_used: "used_ids px_ids = {17, 20}"
  by (auto simp: used_ids_def nth_list_update)

lemma px_bound: "tables_bound (unat (protocol_count px)) px"
  by (simp add: tables_bound_def px_def scx_bound_def scx_unbound_def px_used)

lemma px_may: "agent_protocol_permissions rx_env rx 2 0x11 = Some MOD_RES_PERMS_ACCESS_ALLOWED"
    "agent_protocol_permissions rx_env rx 2 0x14 = Some MOD_RES_PERMS_ACCESS_DENIED"
  by (simp_all add: agent_protocol_permissions_def rx_fields rx_tables_def platform_protocol_def mod_res_agent_id_to_index_def
      mod_res_protocol_id_to_index_def scmi_consts res_consts denied_if_def elem_at_def Let_def rx_env_def word_le_nat_alt)

lemma px_permitted:
  assumes "may 0x11" and "\<not> may 0x14"
  shows "permitted px_ids may = [17]"
proof -
  have "set (permitted px_ids may) = {i \<in> used_ids px_ids. may (of_nat i)}"
    by (simp only: permitted_def set_filter set_upt used_ids_def) auto
  also have "\<dots> = {17}" using assms by (auto simp: px_used)
  finally have "set (permitted px_ids may) = {17}" .
  moreover have "distinct (permitted px_ids may)" unfolding permitted_def by (intro distinct_filter distinct_upt)
  ultimately have "length (permitted px_ids may) = 1" using distinct_card by fastforce
  then obtain x where "permitted px_ids may = [x]" by (auto simp: length_Suc_conv simp del: upt_Suc)
  then show ?thesis using \<open>set (permitted px_ids may) = {17}\<close> by simp
qed

lemma px_pending: "smt_pending px_smt scx_ch rx scx_header (le32 0) 40 px_world"
proof -
  have "fwk_id_get_element_idx scx_ch = Some 0" by (simp add: scx_ch_def fwk_id_get_element_idx_def)
  then have "channel_of scx_ch px_world = Some (hd (channel_ctx_table px_world))"
    by (simp add: channel_of_def channel_index_def px_world_def scx_world_def elem_at_def)
  then show ?thesis unfolding smt_pending_def by (simp add: px_world_def scx_world_def px_smt_def scx_message_def)
qed

theorem base_protocol_follows_permissions_witness:
  "scmi_base_protocol_attributes_handler px_env scx_tgt None px =
     respond px_env scx_tgt (Some (status_bytes SCMI_SUCCESS @ le32 (SCMI_BASE_PROTOCOL_ATTRIBUTES 1 2))) 8 px \<and>
   (\<exists>st w bs. scmi_base_discover_list_protocols_handler px_env scx_tgt (Some (le32 0)) px = Some (st, px\<lparr>scmi_world := w\<rparr>) \<and>
      smt_answered px_smt scx_ch rx scx_header bs w \<and> replies bs (status_bytes SCMI_SUCCESS @ le32 1 @ [0x11], 12)) \<and>
   list_entry_allowed px_env 2 2 0x14 px = Some (False, px) \<and>
   scmi_permissions_handler px_env scx_tgt 2 0x14 px = Some (FWK_E_ACCESS, px)"
proof -
  define may where "may = (\<lambda>p. agent_protocol_permissions rx_env rx 2 p = Some MOD_RES_PERMS_ACCESS_ALLOWED)"
  have ctx: "scmi_world px = px_world" "scmi_protocol_id_to_idx px = px_ids" by (simp_all add: px_def scx_bound_def scx_unbound_def)
  have out: "smt_outside px_world = rx" by (simp add: px_world_def)
  have asks: "asks_permissions px_env (res_perms_functions rx_env (\<lambda>w. id (smt_outside w)) (\<lambda>c w. w\<lparr>smt_outside := c\<rparr>)) px"
    by (simp add: asks_permissions_def px_env_def px_def)
  have chan: "on_channel px_env (smt_mod_scmi_to_transport_api px_smt) scx_ch scx_tgt (scx_service_config\<lparr>cfg_scmi_agent_id := 2\<rparr>) px"
    by (simp add: on_channel_def service_of_def service_index_def get_service_def scx_tgt_def px_def px_env_def scx_bound_def scx_unbound_def
        fwk_id_get_element_idx_def elem_at_def)
  have "may 0x11" "\<not> may 0x14" by (simp_all add: may_def px_may MOD_RES_PERMS_ACCESS_ALLOWED_def MOD_RES_PERMS_ACCESS_DENIED_def)
  note answers = this px_permitted [OF this]
  obtain pc where config: "scmi_config px = Some pc" "agent_count pc = 2" by (simp add: px_def)
  have ok: "res_ok (id (smt_outside (scmi_world px)))" and decides: "plat_decides rx_env" by (simp_all add: ctx out rx_ok weak_decides rx_env_def)
  have pend: "smt_pending px_smt scx_ch (smt_outside (scmi_world px)) scx_header (le32 0) 40 (scmi_world px)"
    unfolding ctx out by (rule px_pending)
  have may: "may = (\<lambda>p. agent_protocol_permissions rx_env (id (smt_outside (scmi_world px))) 2 p = Some MOD_RES_PERMS_ACCESS_ALLOWED)"
    by (simp add: may_def ctx out)
  have agent: "(2 :: 32 word) = cfg_scmi_agent_id (scx_service_config\<lparr>cfg_scmi_agent_id := 2\<rparr>)" by simp
  have room: "24 \<le> (40 :: nat)" "40 < (2 :: nat) ^ 31" "40 mod 4 = (0 :: nat)" by simp_all
  show ?thesis
    using base_protocol_follows_permissions [OF asks ok decides chan px_bound config(1) pend room agent may refl refl,
        where payload = None and kind = 2 and p = "0x14" and m = 2]
    by (simp add: ctx out answers config(2))
qed

end
