(* ===== verification/Spec2Isabelle.thy ===== *)
theory Spec2Isabelle
  imports Fwk_Ring Fwk_Notification Timer_Stack Mod_Pd_Props Mod_Scmi_Props Mod_Scmi_Perms
begin

text \<open>
  A verification library for the system control processor firmware under \<^verbatim>\<open>src/\<close>.

  \<^bold>\<open>The program.\<close> The firmware is a single-threaded, event-driven framework
  (\<^verbatim>\<open>framework/\<close>) that runs a table of modules (\<^verbatim>\<open>module/\<close>, \<^verbatim>\<open>product/\<close>) on one of a few
  architectures (\<^verbatim>\<open>arch/\<close>). At boot the framework initialises, binds and starts every module
  and every element of a module; then it dispatches events from a queue, while interrupt handlers
  post further events on a second queue. Modules call each other through the interfaces they
  obtained when binding, and announce changes through notifications.

  \<^bold>\<open>The theories.\<close> One theory per component, with the names of the source; output parameters of
  a C function are returned next to its status, a failed \<^verbatim>\<open>fwk_assert\<close>, a null dereference and a
  read past an array are \<open>None\<close>, and a status code is a value of type \<open>int\<close>.
  \<^item> \<open>Fwk_Prelude\<close>: status codes, assertions per build, the option monad, lemmas on lists and words.
  \<^item> \<open>Fwk_List\<close>: \<^verbatim>\<open>fwk_slist.c\<close> and \<^verbatim>\<open>fwk_dlist.c\<close> over an explicit heap of links; the operations
    refine operations on the represented sequences.
  \<^item> \<open>Fwk_Id\<close>: \<^verbatim>\<open>fwk_id.c\<close>; identifiers as packed 32-bit words.
  \<^item> \<open>Fwk_Ring\<close>: \<^verbatim>\<open>fwk_ring.c\<close>; the ring is an overwriting queue of bytes.
  \<^item> \<open>Fwk_Module\<close>, \<open>Fwk_Lifecycle\<close>: \<^verbatim>\<open>fwk_module.c\<close>; contexts, the stages of the boot, validation
    and binding, and what a boot of an image whose callbacks succeed does.
  \<^item> \<open>Fwk_Pool\<close>, \<open>Fwk_Core\<close>: \<^verbatim>\<open>fwk_core.c\<close> and \<^verbatim>\<open>fwk_delayed_resp.c\<close>; the pool of event structures,
    the two queues, dispatch, responses and delayed responses.
  \<^item> \<open>Fwk_Notification\<close>: \<^verbatim>\<open>fwk_notification.c\<close>; subscriptions refine a table.
  \<^item> \<open>Fwk_Interrupt\<close>: \<^verbatim>\<open>fwk_interrupt.c\<close> and the M-profile controller \<^verbatim>\<open>arch_nvic.c\<close>.
  \<^item> \<open>Mod_Timer\<close>, \<open>Mod_Alarm\<close>: \<^verbatim>\<open>module/timer\<close>; the operations, and the invariant of its alarm queues.
  \<^item> \<open>Mod_Gtimer\<close>: \<^verbatim>\<open>module/gtimer\<close>, the driver of the generic timer.
  \<^item> \<open>Timer_Stack\<close>: timer module, driver and interrupt controller put together.
  \<^item> \<open>Fwk_Services\<close>, \<open>Fwk_Framework\<close>: the framework as the modules call it, and as the models above fill it.
  \<^item> \<open>Mod_Pd_State\<close>, \<open>Mod_Power_Domain\<close>, \<open>Mod_Pd_Utils\<close>: \<^verbatim>\<open>module/power_domain\<close>; data and state checks,
    requests, reports, notifications, suspend and shutdown, and the tables of the platforms.
  \<^item> \<open>Mod_Pd_Tree\<close>, \<open>Mod_Pd_Composite\<close>, \<open>Mod_Pd_Calls\<close>, \<open>Mod_Pd_Report\<close>: the tree of domains and the
    requests on it; composite states and why accepted requests complete; the calls of drivers, as a
    view of the world records them; what a driver's report sets off.
  \<^item> \<open>Mod_Pd_Props\<close>: the properties of power domains, on an example platform and on the framework.
  \<^item> \<open>Mod_Scmi_State\<close>, \<open>Mod_Scmi_Api\<close>, \<open>Mod_Scmi_Base\<close>, \<open>Mod_Scmi_Notify\<close>, \<open>Mod_Scmi\<close>: \<^verbatim>\<open>module/scmi\<close>; its
    data and message headers, the interfaces it offers, the Base protocol, the subscriptions, and
    initialisation, binding, dispatch of a message and start.
  \<^item> \<open>Mod_Scmi_Channel\<close>: the contract of a channel, and what each Base command answers through it.
  \<^item> \<open>Mod_Msg_Smt\<close>: \<^verbatim>\<open>module/msg_smt\<close>, mailboxes in shared memory, a provider of that contract.
  \<^item> \<open>Mod_Scmi_Subs\<close>, \<open>Mod_Scmi_Tables\<close>: the flat table of subscriptions refines a map; the tables of
    protocols that binding fills, and the pages of the list of protocols.
  \<^item> \<open>Scmi_Stack\<close>, \<open>Mod_Scmi_Props\<close>: the two modules put together; the properties.
  \<^item> \<open>Mod_Res_Perms\<close>, \<open>Mod_Res_Props\<close>: \<^verbatim>\<open>module/resource_perms\<close>; the bit tables of permissions and
    what they decide, the requests that change them, and the properties.
  \<^item> \<open>Mod_Scmi_Perms\<close>: the permissions as the Base protocol relies on them, provided by that module.

  \<^bold>\<open>Interfaces.\<close> Locales state what one component relies on in another: a pool of nodes and its
  lists, an overwriting queue, a subscription table, an interrupt controller, a timer device,
  the alarm service built on them, a channel of messages, the permissions of an agent. Each is interpreted on
  the model of the component that provides it, and the properties use the facts of the interpretation.

  \<^bold>\<open>Loops.\<close> A loop over a list or a table is structural recursion or a fold. A loop that the
  code does not bound (the walk of a linked list, the event loop, the busy waits of the timer, the
  read of the split counter) is a \<open>partial_function\<close> in the option monad, so that a run that does
  not end has the value \<open>None\<close>; the properties about them state that the value is \<open>Some\<close>.

  \<^bold>\<open>Bounds.\<close> What the module of the protocols and the channels answer is stated for payloads of at
  least 24 bytes and a multiple of 4, which is what the longest reply of the Base protocol needs, for
  mailboxes whose two buffers do not overlap, and for builds without resource permissions. For builds
  with them, \<open>Mod_Scmi_Perms\<close> states what the number of protocols, the pages of their list on a channel
  and the messages of a protocol depend on. A driver's call is observed by what it leaves outside of the
  component: the count of the channels' driver, the record of the calls of power domain drivers, the
  registers of the timer. What a report of a power domain driver sets off is stated where no
  notification holds it up. The functions that a platform may define for protocols of its own are arguments
  of the model of resource permissions, and the content of memory the allocator does not clear is one.

  \<^bold>\<open>Not modelled.\<close> Start-up code, linker scripts and assembly; drivers whose content is the
  programming of device registers; the product directories, which hold configuration tables
  and drivers of single boards; the debugger module, unit tests and build tools. Each operation is one step:
  an interrupt arrives between operations. The code sees to that with interrupts disabled around its
  critical sections, but not for the lists of delayed responses, which \<^verbatim>\<open>put_event\<close> searches with
  interrupts enabled: an interrupt within that search is outside of the model.
\<close>

end
